(* ===== verification/Prelude.thy ===== *)
theory Prelude
  imports Main "HOL-Library.Word" "HOL-Library.AList"
begin

text \<open>
  Shared vocabulary of the development.

  \<^item> Rust values: \<open>rust_str\<close> is a Rust string as its list of Unicode scalar values, with
    \<open>str_len\<close> (\<open>str::len\<close>, UTF-8 bytes), \<open>utf8_bytes\<close> (\<open>str::as_bytes\<close>),
    \<open>is_control\<close> and \<open>is_whitespace\<close> (\<open>char::is_control\<close>, \<open>char::is_whitespace\<close>) and
    \<open>trim\<close>; \<open>u64\<close> and \<open>u32\<close> counters are naturals with \<open>checked_add_u64\<close> and
    \<open>saturating_add_u64\<close> written out at the width.
  \<^item> Results: a fallible function returns \<open>'e + 'a\<close>, \<open>Inl\<close> for the Rust \<open>Err\<close> and
    \<open>Inr\<close> for \<open>Ok\<close>.
  \<^item> A \<open>HashMap\<close> is an association list with distinct keys (\<open>AList.update\<close>,
    \<open>AList.delete\<close>, \<open>map_of\<close>), so that \<open>len\<close> and iteration are computable; its order is
    any order, and the theorems quantify over all of them.
\<close>

section \<open>Automation\<close>

named_theorems reaches_intro \<open>introduction rules for the runs of the kernel, by the shape of a method's body\<close>

section \<open>Machine integers\<close>

definition u64_max :: nat where
  "u64_max = 18446744073709551615"

definition checked_add_u64 :: "nat \<Rightarrow> nat \<Rightarrow> nat option" where
  "checked_add_u64 a b = (if a + b \<le> u64_max then Some (a + b) else None)"

definition saturating_add_u64 :: "nat \<Rightarrow> nat \<Rightarrow> nat" where
  "saturating_add_u64 a b = min (a + b) u64_max"

section \<open>Bytes, characters and strings\<close>

type_synonym byte = "8 word"

type_synonym rust_str = "nat list"

type_synonym uuid = "128 word"

definition lit :: "string \<Rightarrow> rust_str" where
  "lit s = map of_char s"

text \<open>\<open>dec n\<close> is the decimal \<open>Display\<close> of an unsigned integer.\<close>

fun dec :: "nat \<Rightarrow> rust_str" where
  "dec n = (if n < 10 then [48 + n] else dec (n div 10) @ [48 + n mod 10])"

declare dec.simps [simp del]

definition utf8_len :: "nat \<Rightarrow> nat" where
  "utf8_len c = (if c < 128 then 1 else if c < 2048 then 2 else if c < 65536 then 3 else 4)"

definition str_len :: "rust_str \<Rightarrow> nat" where
  "str_len s = sum_list (map utf8_len s)"

definition utf8_char :: "nat \<Rightarrow> byte list" where
  "utf8_char c = map of_nat
     (if c < 128 then [c]
      else if c < 2048 then [192 + c div 64, 128 + c mod 64]
      else if c < 65536 then [224 + c div 4096, 128 + (c div 64) mod 64, 128 + c mod 64]
      else [240 + c div 262144, 128 + (c div 4096) mod 64, 128 + (c div 64) mod 64,
            128 + c mod 64])"

definition utf8_bytes :: "rust_str \<Rightarrow> byte list" where
  "utf8_bytes s = concat (map utf8_char s)"

definition is_control :: "nat \<Rightarrow> bool" where
  "is_control c \<longleftrightarrow> c < 32 \<or> (127 \<le> c \<and> c < 160)"

definition is_whitespace :: "nat \<Rightarrow> bool" where
  "is_whitespace c \<longleftrightarrow> (9 \<le> c \<and> c \<le> 13) \<or> c = 32 \<or> c = 133 \<or> c = 160 \<or> c = 5760
     \<or> (8192 \<le> c \<and> c \<le> 8202) \<or> c = 8232 \<or> c = 8233 \<or> c = 8239 \<or> c = 8287 \<or> c = 12288"

definition trim :: "rust_str \<Rightarrow> rust_str" where
  "trim s = rev (dropWhile is_whitespace (rev (dropWhile is_whitespace s)))"

text \<open>
  \<open>is_char_boundary s i\<close>: byte offset \<open>i\<close> of \<open>s\<close> starts a character or is the end;
  \<open>take_bytes s i\<close> is the slice \<open>&s[..i]\<close> at such an offset.
\<close>

fun is_char_boundary :: "rust_str \<Rightarrow> nat \<Rightarrow> bool" where
  "is_char_boundary [] i \<longleftrightarrow> i = 0"
| "is_char_boundary (c # s) i \<longleftrightarrow>
     i = 0 \<or> (utf8_len c \<le> i \<and> is_char_boundary s (i - utf8_len c))"

fun take_bytes :: "rust_str \<Rightarrow> nat \<Rightarrow> rust_str" where
  "take_bytes [] i = []"
| "take_bytes (c # s) i = (if utf8_len c \<le> i then c # take_bytes s (i - utf8_len c) else [])"

section \<open>Results\<close>

fun result_bind :: "'e + 'a \<Rightarrow> ('a \<Rightarrow> 'e + 'b) \<Rightarrow> 'e + 'b" where
  "result_bind (Inl e) f = Inl e"
| "result_bind (Inr a) f = f a"

fun map_err :: "('e \<Rightarrow> 'f) \<Rightarrow> 'e + 'a \<Rightarrow> 'f + 'a" where
  "map_err h (Inl e) = Inl (h e)"
| "map_err h (Inr a) = Inr a"

definition ok_or :: "'e \<Rightarrow> 'a option \<Rightarrow> 'e + 'a" where
  "ok_or e x = (case x of None \<Rightarrow> Inl e | Some a \<Rightarrow> Inr a)"

text \<open>\<open>and_then\<close> sequences state-passing fallible steps: the state is kept when a step fails.\<close>

fun and_then :: "'s \<times> ('e + 'a) \<Rightarrow> ('s \<Rightarrow> 'a \<Rightarrow> 's \<times> ('e + 'b)) \<Rightarrow> 's \<times> ('e + 'b)" where
  "and_then (s, Inl e) f = (s, Inl e)"
| "and_then (s, Inr a) f = f s a"

section \<open>Lemmas on results\<close>

lemma case_unit_simp [simp]: "(case u of () \<Rightarrow> x) = x"
  by (cases u) (simp only: unit.case)

lemma result_bind_Inr [simp]:
  "result_bind r f = Inr b \<longleftrightarrow> (\<exists>a. r = Inr a \<and> f a = Inr b)"
  by (cases r) auto

lemma result_bind_Inl_iff:
  "result_bind r f = Inl e \<longleftrightarrow> r = Inl e \<or> (\<exists>a. r = Inr a \<and> f a = Inl e)"
  by (cases r) auto

lemma result_bind_assoc:
  "result_bind (result_bind r f) g = result_bind r (\<lambda>a. result_bind (f a) g)"
  by (cases r) auto

lemma result_bind_Inr_right [simp]: "result_bind r Inr = r"
  by (cases r) auto

lemma map_err_Inr [simp]: "map_err h r = Inr a \<longleftrightarrow> r = Inr a"
  by (cases r) auto

lemma ok_or_Inr [simp]: "ok_or e x = Inr a \<longleftrightarrow> x = Some a"
  by (cases x) (auto simp: ok_or_def)

lemma ok_or_simps [simp]: "ok_or e (Some a) = Inr a" "ok_or e None = Inl e"
  by (simp_all add: ok_or_def)

lemma and_then_Inr:
  "and_then p f = (s', Inr b) \<longleftrightarrow> (\<exists>s a. p = (s, Inr a) \<and> f s a = (s', Inr b))"
  by (cases "(p, f)" rule: and_then.cases) auto

lemma and_then_Inl:
  "and_then p f = (s', Inl e) \<longleftrightarrow>
   p = (s', Inl e) \<or> (\<exists>s a. p = (s, Inr a) \<and> f s a = (s', Inl e))"
  by (cases "(p, f)" rule: and_then.cases) auto

section \<open>Lemmas on integers\<close>

lemma checked_add_u64_Some [simp]:
  "checked_add_u64 a b = Some c \<longleftrightarrow> c = a + b \<and> a + b \<le> u64_max"
  by (auto simp: checked_add_u64_def)

lemma checked_add_u64_None [simp]: "checked_add_u64 a b = None \<longleftrightarrow> u64_max < a + b"
  by (auto simp: checked_add_u64_def)

lemma saturating_add_u64_le: "saturating_add_u64 a b \<le> u64_max"
  by (simp add: saturating_add_u64_def)

section \<open>Lemmas on strings\<close>

lemma utf8_len_pos [simp]: "0 < utf8_len c" "utf8_len c \<noteq> 0"
  by (simp_all add: utf8_len_def)

lemma str_len_Nil [simp]: "str_len [] = 0"
  by (simp add: str_len_def)

lemma str_len_Cons [simp]: "str_len (c # s) = utf8_len c + str_len s"
  by (simp add: str_len_def)

lemma str_len_append [simp]: "str_len (s @ t) = str_len s + str_len t"
  by (simp add: str_len_def)

lemma str_len_rev [simp]: "str_len (rev s) = str_len s"
  by (induction s) simp_all

lemma str_len_dropWhile_le: "str_len (dropWhile P s) \<le> str_len s"
  by (induction s) auto

lemma str_len_trim_le: "str_len (trim s) \<le> str_len s"
  unfolding trim_def
  by (metis str_len_dropWhile_le str_len_rev order_trans)

lemma set_trim_subset: "set (trim s) \<subseteq> set s"
  by (auto simp: trim_def dest!: set_dropWhileD)

lemma str_len_take_bytes_le: "str_len (take_bytes s i) \<le> i"
  by (induction s i rule: take_bytes.induct) auto

lemma set_take_bytes_subset: "set (take_bytes s i) \<subseteq> set s"
  by (induction s i rule: take_bytes.induct) auto

lemma take_bytes_boundary_len:
  "is_char_boundary s i \<Longrightarrow> str_len (take_bytes s i) = i"
  by (induction s i rule: take_bytes.induct) auto

lemma take_bytes_full: "take_bytes s (str_len s) = s"
  by (induction s) auto

lemma is_char_boundary_0 [simp]: "is_char_boundary s 0"
  by (cases s) auto

lemma is_char_boundary_full: "is_char_boundary s (str_len s)"
  by (induction s) auto

lemma utf8_char_ascii: "c < 128 \<Longrightarrow> utf8_char c = [of_nat c]"
  by (simp add: utf8_char_def)

lemma length_utf8_char [simp]: "length (utf8_char c) = utf8_len c"
  by (simp add: utf8_char_def utf8_len_def)

lemma length_utf8_bytes [simp]: "length (utf8_bytes s) = str_len s"
  by (induction s) (simp_all add: utf8_bytes_def)

lemma utf8_bytes_Nil [simp]: "utf8_bytes [] = []"
  by (simp add: utf8_bytes_def)

lemma utf8_bytes_Cons: "utf8_bytes (c # s) = utf8_char c @ utf8_bytes s"
  by (simp add: utf8_bytes_def)

section \<open>Lemmas on association lists\<close>

lemma map_of_update [simp]: "map_of (AList.update k v al) = (map_of al)(k \<mapsto> v)"
  by (rule update_conv')

lemma map_of_delete [simp]: "map_of (AList.delete k al) = (map_of al)(k := None)"
  by (rule delete_conv')

lemma distinct_keys_update [intro]:
  "distinct (map fst al) \<Longrightarrow> distinct (map fst (AList.update k v al))"
  by (rule distinct_update)

lemma distinct_keys_delete [intro]:
  "distinct (map fst al) \<Longrightarrow> distinct (map fst (AList.delete k al))"
  by (rule distinct_delete)

lemma length_alist_update:
  "length (AList.update k v al) = (if k \<in> dom (map_of al) then length al else Suc (length al))"
  by (induction al) (auto simp: dom_def)

lemma length_alist_delete:
  "distinct (map fst al) \<Longrightarrow>
   length (AList.delete k al) = (if k \<in> dom (map_of al) then length al - 1 else length al)"
proof (induction al)
  case Nil
  then show ?case by simp
next
  case (Cons p al)
  show ?case
  proof (cases "fst p = k")
    case True
    then have "k \<notin> fst ` set al" using Cons.prems by auto
    then have "AList.delete k al = al" by (rule delete_id)
    then show ?thesis using True by (auto simp: dom_def)
  next
    case False
    have "length al \<noteq> 0" if "k \<in> dom (map_of al)" using that by (cases al) auto
    then show ?thesis using False Cons by (cases p) (auto simp: dom_def)
  qed
qed

lemma map_of_eq_Some_set: "distinct (map fst al) \<Longrightarrow> map_of al k = Some v \<longleftrightarrow> (k, v) \<in> set al"
  by (rule map_of_eq_Some_iff)

end
