(* ===== verification/Operation_Contracts.thy ===== *)
theory Operation_Contracts
  imports Prelude
begin

unbundle bit_operations_syntax

text \<open>
  The vocabulary of one tool operation: \<^verbatim>\<open>crates/agent-contracts/src/operation.rs\<close>, with the
  effect receipt of \<^verbatim>\<open>tool.rs\<close>, the lease of \<^verbatim>\<open>approval.rs\<close> and the error variants of
  \<^verbatim>\<open>error.rs\<close> that the modelled code builds. Identities are UUIDs (\<open>uuid\<close>, nil is 0); counters
  (\<open>u64\<close>) are naturals. Error messages keep the source's text, without the identifiers and paths
  that the source interpolates.

  The lemmas show that the hexadecimal digest encoding is a bijection between 32-byte digests and the
  strings the parser admits, and what each \<open>validate\<close> method accepts.
\<close>

section \<open>Errors\<close>

datatype agent_error =
    InvalidRequest rust_str
  | ApprovalDenied rust_str
  | Storage rust_str
  | Io rust_str
  | RecoveryRequired rust_str
  | Cancelled
  | StaleEpoch nat nat

type_synonym 'a agent_result = "agent_error + 'a"

definition error_display :: "agent_error \<Rightarrow> rust_str" where
  "error_display e = (case e of
     InvalidRequest m \<Rightarrow> lit ''invalid request: '' @ m
   | ApprovalDenied m \<Rightarrow> lit ''approval denied: '' @ m
   | Storage m \<Rightarrow> lit ''storage error: '' @ m
   | Io m \<Rightarrow> lit ''I/O error: '' @ m
   | RecoveryRequired m \<Rightarrow> lit ''recovery required: '' @ m
   | Cancelled \<Rightarrow> lit ''cancelled''
   | StaleEpoch expected current \<Rightarrow> lit ''operation epoch '' @ dec expected
       @ lit '' is stale; current Core epoch is '' @ dec current)"

section \<open>Bounds\<close>

definition OPERATION_DIGEST_BYTES :: nat where "OPERATION_DIGEST_BYTES = 32"
definition OPERATION_DIGEST_HEX_BYTES :: nat where
  "OPERATION_DIGEST_HEX_BYTES = OPERATION_DIGEST_BYTES * 2"
definition MAX_OPERATION_CALL_ID_BYTES :: nat where "MAX_OPERATION_CALL_ID_BYTES = 256"
definition MAX_OPERATION_TOOL_NAME_BYTES :: nat where "MAX_OPERATION_TOOL_NAME_BYTES = 96"
definition MAX_OPERATION_DIAGNOSTIC_BYTES :: nat where "MAX_OPERATION_DIAGNOSTIC_BYTES = 4000"
definition MAX_OPERATION_EVIDENCE_BYTES :: nat where "MAX_OPERATION_EVIDENCE_BYTES = 512"
definition OPERATION_JOURNAL_VERSION :: nat where "OPERATION_JOURNAL_VERSION = 1"
definition MAX_OPERATION_JOURNAL_RECOVERY_RECORDS :: nat where
  "MAX_OPERATION_JOURNAL_RECOVERY_RECORDS = 65536"
definition MAX_AUTHORITY_JOURNAL_ANCESTORS :: nat where "MAX_AUTHORITY_JOURNAL_ANCESTORS = 8"

section \<open>Argument and state digests\<close>

type_synonym digest = "byte list"

definition hex_char :: "byte \<Rightarrow> nat" where
  "hex_char n = (if unat n < 10 then 48 + unat n else 87 + unat n)"

definition digest_to_string :: "digest \<Rightarrow> rust_str" where
  "digest_to_string d = concat (map (\<lambda>b. [hex_char (drop_bit 4 b), hex_char (b AND 15)]) d)"

definition hex_nibble :: "byte \<Rightarrow> byte" where
  "hex_nibble b = (if 48 \<le> b \<and> b \<le> 57 then b - 48 else b - 97 + 10)"

fun decode_hex_pairs :: "byte list \<Rightarrow> digest" where
  "decode_hex_pairs (a # b # rest) =
     ((push_bit 4 (hex_nibble a)) OR hex_nibble b) # decode_hex_pairs rest"
| "decode_hex_pairs _ = []"

definition is_lower_hex :: "byte \<Rightarrow> bool" where
  "is_lower_hex b \<longleftrightarrow> (48 \<le> b \<and> b \<le> 57) \<or> (97 \<le> b \<and> b \<le> 102)"

definition digest_from_str :: "rust_str \<Rightarrow> rust_str + digest" where
  "digest_from_str value = (let bytes = utf8_bytes value in
     if length bytes \<noteq> OPERATION_DIGEST_HEX_BYTES \<or> \<not> list_all is_lower_hex bytes
     then Inl (lit ''expected exactly 64 lowercase hexadecimal characters'')
     else Inr (decode_hex_pairs bytes))"

section \<open>Identity, states, snapshots\<close>

record authority_checkpoint_marker =
  mk_journal_id :: uuid
  mk_generation :: nat
  mk_authority_epoch :: nat
  mk_last_seq :: nat
  mk_state_digest :: digest

definition is_nil :: "uuid \<Rightarrow> bool" where
  "is_nil u \<longleftrightarrow> u = 0"

definition marker_validate :: "authority_checkpoint_marker \<Rightarrow> rust_str + unit" where
  "marker_validate m =
     (if is_nil (mk_journal_id m)
      then Inl (lit ''authority checkpoint marker contains a nil journal id'')
      else if mk_generation m = 0
      then Inl (lit ''authority checkpoint marker generation must be non-zero'')
      else if mk_authority_epoch m = 0
      then Inl (lit ''authority checkpoint marker epoch must be non-zero'')
      else Inr ())"

record tool_operation_identity =
  oi_run_id :: uuid
  oi_task_id :: "uuid option"
  oi_turn_id :: uuid
  oi_scope_id :: "uuid option"
  oi_operation_id :: uuid
  oi_generation :: nat
  oi_call_id :: rust_str
  oi_tool_name :: rust_str
  oi_argument_digest :: digest

definition validate_bounded_text :: "rust_str \<Rightarrow> rust_str \<Rightarrow> nat \<Rightarrow> rust_str + unit" where
  "validate_bounded_text name value max_bytes =
     (if value = [] \<or> max_bytes < str_len value \<or> list_ex is_control value
      then Inl (name @ lit '' must be non-empty control-free UTF-8 of at most ''
                @ dec max_bytes @ lit '' bytes'')
      else Inr ())"

definition is_some_nil :: "uuid option \<Rightarrow> bool" where
  "is_some_nil x = (case x of None \<Rightarrow> False | Some u \<Rightarrow> is_nil u)"

definition identity_validate :: "tool_operation_identity \<Rightarrow> rust_str + unit" where
  "identity_validate i =
     (if is_nil (oi_run_id i) \<or> is_nil (oi_turn_id i) \<or> is_nil (oi_operation_id i)
         \<or> is_some_nil (oi_task_id i) \<or> is_some_nil (oi_scope_id i)
      then Inl (lit ''operation identity contains a nil UUID'')
      else if oi_generation i = 0
      then Inl (lit ''operation identity generation must be non-zero'')
      else result_bind
        (validate_bounded_text (lit ''call_id'') (oi_call_id i) MAX_OPERATION_CALL_ID_BYTES)
        (\<lambda>_. validate_bounded_text (lit ''tool_name'') (oi_tool_name i)
               MAX_OPERATION_TOOL_NAME_BYTES))"

datatype effect_durability = Durable | DurabilityFailed rust_str

datatype effect_receipt =
    ReceiptNotApplied rust_str
  | ReceiptApplied effect_durability "rust_str option"
  | ReceiptUnknown rust_str

datatype operation_terminal =
    CompletedValue
  | Refused rust_str
  | NotApplied rust_str
  | Applied effect_durability "rust_str option"
  | OutcomeUnknown rust_str
  | CancelledBeforeCommit

definition validate_durability :: "rust_str \<Rightarrow> effect_durability \<Rightarrow> rust_str + unit" where
  "validate_durability name d = (case d of
     DurabilityFailed e \<Rightarrow> validate_bounded_text name e MAX_OPERATION_DIAGNOSTIC_BYTES
   | Durable \<Rightarrow> Inr ())"

definition validate_evidence :: "rust_str \<Rightarrow> rust_str option \<Rightarrow> rust_str + unit" where
  "validate_evidence name evidence = (case evidence of
     Some e \<Rightarrow> validate_bounded_text name e MAX_OPERATION_EVIDENCE_BYTES
   | None \<Rightarrow> Inr ())"

fun terminal_validate :: "operation_terminal \<Rightarrow> rust_str + unit" where
  "terminal_validate (Refused e) =
     validate_bounded_text (lit ''operation error'') e MAX_OPERATION_DIAGNOSTIC_BYTES"
| "terminal_validate (NotApplied e) =
     validate_bounded_text (lit ''operation error'') e MAX_OPERATION_DIAGNOSTIC_BYTES"
| "terminal_validate (OutcomeUnknown e) =
     validate_bounded_text (lit ''operation error'') e MAX_OPERATION_DIAGNOSTIC_BYTES"
| "terminal_validate (Applied durability evidence) =
     result_bind (validate_durability (lit ''operation durability error'') durability)
       (\<lambda>_. validate_evidence (lit ''operation evidence'') evidence)"
| "terminal_validate CompletedValue = Inr ()"
| "terminal_validate CancelledBeforeCommit = Inr ()"

datatype operation_state =
    Accepted
  | Executing "uuid option"
  | Prepared uuid
  | CommitStarted uuid
  | Terminal "uuid option" operation_terminal

record operation_snapshot =
  snap_identity :: tool_operation_identity
  snap_state :: operation_state

fun state_validate :: "operation_state \<Rightarrow> rust_str + unit" where
  "state_validate (Executing (Some e)) =
     (if is_nil e then Inl (lit ''operation state contains a nil effect id'') else Inr ())"
| "state_validate (Prepared e) =
     (if is_nil e then Inl (lit ''operation state contains a nil effect id'') else Inr ())"
| "state_validate (CommitStarted e) =
     (if is_nil e then Inl (lit ''operation state contains a nil effect id'') else Inr ())"
| "state_validate (Terminal e t) =
     (if is_some_nil e then Inl (lit ''operation terminal contains a nil effect id'')
      else terminal_validate t)"
| "state_validate _ = Inr ()"

definition snapshot_validate :: "operation_snapshot \<Rightarrow> rust_str + unit" where
  "snapshot_validate s =
     result_bind (identity_validate (snap_identity s)) (\<lambda>_. state_validate (snap_state s))"

datatype operation_query_result =
    Found operation_snapshot
  | ExpiredOrPossiblySeen
  | NotFound

fun query_result_validate :: "operation_query_result \<Rightarrow> rust_str + unit" where
  "query_result_validate (Found s) = snapshot_validate s"
| "query_result_validate ExpiredOrPossiblySeen = Inr ()"
| "query_result_validate NotFound = Inr ()"

section \<open>Reconciliation and recovery status\<close>

datatype effect_reconciliation =
    ReconcileNotManaged
  | ReconcileNotApplied "rust_str option"
  | ReconcileApplied effect_durability "rust_str option"
  | ReconcileCompletedValue "rust_str option"
  | ReconcileAmbiguous rust_str

fun reconciliation_validate :: "effect_reconciliation \<Rightarrow> rust_str + unit" where
  "reconciliation_validate ReconcileNotManaged = Inr ()"
| "reconciliation_validate (ReconcileNotApplied evidence) =
     validate_evidence (lit ''effect reconciliation evidence'') evidence"
| "reconciliation_validate (ReconcileApplied durability evidence) =
     result_bind (validate_durability (lit ''effect reconciliation durability error'') durability)
       (\<lambda>_. validate_evidence (lit ''effect reconciliation evidence'') evidence)"
| "reconciliation_validate (ReconcileCompletedValue evidence) =
     validate_evidence (lit ''effect reconciliation evidence'') evidence"
| "reconciliation_validate (ReconcileAmbiguous reason) =
     validate_bounded_text (lit ''effect reconciliation reason'') reason
       MAX_OPERATION_DIAGNOSTIC_BYTES"

datatype authority_recovery_status =
    Ready
  | RecoveryIsRequired rust_str

fun recovery_status_validate :: "authority_recovery_status \<Rightarrow> rust_str + unit" where
  "recovery_status_validate Ready = Inr ()"
| "recovery_status_validate (RecoveryIsRequired reason) =
     validate_bounded_text (lit ''authority recovery reason'') reason MAX_OPERATION_DIAGNOSTIC_BYTES"

section \<open>Journal records\<close>

datatype operation_journal_transition =
    EpochAdvanced nat nat
  | OperationUpsert operation_snapshot
  | Compacted authority_checkpoint_marker

fun transition_validate :: "operation_journal_transition \<Rightarrow> rust_str + unit" where
  "transition_validate (EpochAdvanced from to) =
     (if from = 0 \<or> checked_add_u64 from 1 \<noteq> Some to
      then Inl (lit ''authority epoch transition must advance one non-zero step'')
      else Inr ())"
| "transition_validate (OperationUpsert s) = snapshot_validate s"
| "transition_validate (Compacted previous) = marker_validate previous"

record operation_journal_record =
  jr_version :: nat
  jr_seq :: nat
  jr_transition :: operation_journal_transition

definition record_validate :: "operation_journal_record \<Rightarrow> rust_str + unit" where
  "record_validate r =
     (if jr_version r \<noteq> OPERATION_JOURNAL_VERSION
      then Inl (lit ''unsupported operation journal version '' @ dec (jr_version r))
      else if jr_seq r = 0
      then Inl (lit ''operation journal sequence must be non-zero'')
      else transition_validate (jr_transition r))"

record operation_journal_recovery =
  rv_last_seq :: nat
  rv_authority_epoch :: nat
  rv_operations :: "operation_snapshot list"
  rv_truncated_tail :: bool
  rv_compacted_from :: "authority_checkpoint_marker option"

definition recovery_default :: operation_journal_recovery where
  "recovery_default = \<lparr>rv_last_seq = 0, rv_authority_epoch = 1, rv_operations = [],
     rv_truncated_tail = False, rv_compacted_from = None\<rparr>"

abbreviation snap_id :: "operation_snapshot \<Rightarrow> uuid" where
  "snap_id s \<equiv> oi_operation_id (snap_identity s)"

fun is_terminal :: "operation_state \<Rightarrow> bool" where
  "is_terminal (Terminal _ _) = True"
| "is_terminal _ = False"

section \<open>Hexadecimal digests\<close>

lemma hex_char_range:
  assumes "unat n < 16"
  shows "hex_char n < 128" "is_lower_hex (of_nat (hex_char n))" "hex_nibble (of_nat (hex_char n)) = n"
proof -
  obtain k where k: "n = of_nat k" "k < 16"
    using assms by (intro that [of "unat n"]) simp_all
  then have "k \<in> {0,1,2,3,4,5,6,7,8,9,10,11,12,13,14,15}"
    unfolding insert_iff empty_iff by arith
  then show "hex_char n < 128" "is_lower_hex (of_nat (hex_char n))"
    "hex_nibble (of_nat (hex_char n)) = n"
    unfolding k(1) by (auto simp: hex_char_def is_lower_hex_def hex_nibble_def)
qed

lemma nibble_bounds: "unat (drop_bit 4 (b :: byte)) < 16" "unat (b AND 15) < 16"
proof -
  have "unat (drop_bit 4 b) = unat b div 16"
    by (simp add: drop_bit_eq_div unat_div)
  moreover have "unat b < 256" using unsigned_less [of b] by simp
  ultimately show "unat (drop_bit 4 b) < 16" by linarith
  have "b AND 15 = take_bit 4 b" by (simp add: take_bit_eq_mask mask_eq_exp_minus_1)
  then have "unat (b AND 15) = unat b mod 16" by (simp add: take_bit_eq_mod unat_mod)
  then show "unat (b AND 15) < 16" by simp
qed

lemma nibbles_join: "push_bit 4 (drop_bit 4 b) OR (b AND 15) = (b :: byte)"
proof -
  have "b AND 15 = take_bit 4 b" by (simp add: take_bit_eq_mask mask_eq_exp_minus_1)
  moreover have "push_bit 4 (drop_bit 4 b) OR take_bit 4 b = b"
    by (rule bit_eqI) (auto simp: bit_simps)
  ultimately show ?thesis by simp
qed

lemma hex_nibble_range:
  assumes "is_lower_hex b"
  shows "unat (hex_nibble b) < 16" "hex_char (hex_nibble b) = unat b"
proof -
  have "unat b < 256" using unsigned_less [of b] by simp
  then obtain k where k: "b = of_nat k" "k < 256" by (intro that [of "unat b"]) simp_all
  then have u: "unat b = k" by (simp add: unat_of_nat)
  from assms have "48 \<le> unat b \<and> unat b \<le> 57 \<or> 97 \<le> unat b \<and> unat b \<le> 102"
    by (simp add: is_lower_hex_def word_le_nat_alt)
  then have "k \<in> {48,49,50,51,52,53,54,55,56,57,97,98,99,100,101,102}"
    unfolding u insert_iff empty_iff by arith
  then show "unat (hex_nibble b) < 16" "hex_char (hex_nibble b) = unat b"
    unfolding k(1) by (auto simp: hex_char_def hex_nibble_def)
qed

lemma nibble_split:
  assumes "unat h < 16" "unat l < 16"
  shows "drop_bit 4 (push_bit 4 h OR l) = (h :: byte)" "(push_bit 4 h OR l) AND 15 = l"
proof -
  have hl: "take_bit 4 h = h" "take_bit 4 l = l"
    using assms
    by (simp_all add: word_unat_eq_iff unsigned_take_bit_eq take_bit_nat_eq_self_iff)
  then have b: "bit h n \<Longrightarrow> n < 4" "bit l n \<Longrightarrow> n < 4" for n
    by (metis bit_take_bit_iff)+
  show "drop_bit 4 (push_bit 4 h OR l) = h"
    by (rule bit_eqI) (auto simp: bit_simps dest: b)
  have "(push_bit 4 h OR l) AND 15 = take_bit 4 (push_bit 4 h OR l)"
    by (simp add: take_bit_eq_mask mask_eq_exp_minus_1)
  also have "\<dots> = l" by (rule bit_eqI) (auto simp: bit_simps dest: b)
  finally show "(push_bit 4 h OR l) AND 15 = l" .
qed

lemma utf8_bytes_digest_to_string:
  "utf8_bytes (digest_to_string d)
     = concat (map (\<lambda>b. [of_nat (hex_char (drop_bit 4 b)), of_nat (hex_char (b AND 15))]) d)"
  by (induction d)
     (simp_all add: digest_to_string_def utf8_bytes_Cons utf8_char_ascii hex_char_range nibble_bounds)

lemma decode_hex_pairs_encode:
  "decode_hex_pairs (concat (map (\<lambda>b. [of_nat (hex_char (drop_bit 4 b)), of_nat (hex_char (b AND 15))]) d)) = d"
  by (induction d) (simp_all add: hex_char_range nibble_bounds nibbles_join)

lemma digest_bytes_ok:
  "list_all is_lower_hex (utf8_bytes (digest_to_string d))"
  "length (utf8_bytes (digest_to_string d)) = 2 * length d"
  unfolding utf8_bytes_digest_to_string
  by (induction d) (simp_all add: hex_char_range nibble_bounds)

lemma digest_parse_print:
  "length d = OPERATION_DIGEST_BYTES \<Longrightarrow> digest_from_str (digest_to_string d) = Inr d"
  using digest_bytes_ok [of d]
  by (simp add: digest_from_str_def Let_def OPERATION_DIGEST_HEX_BYTES_def
      utf8_bytes_digest_to_string decode_hex_pairs_encode)

lemma utf8_char_lower_hex:
  assumes "list_all is_lower_hex (utf8_char c)"
  shows "c < 128" 
proof (rule ccontr)
  assume "\<not> c < 128"
  then have "of_nat (128 + c mod 64) \<in> set (utf8_char c)" by (simp add: utf8_char_def)
  then have "is_lower_hex (of_nat (128 + c mod 64))" using assms by (simp add: list_all_iff)
  moreover have "unat (of_nat (128 + c mod 64) :: byte) = 128 + c mod 64"
    by (simp only: unat_of_nat) (simp add: less_trans [of "c mod 64" 64])
  ultimately show False by (simp add: is_lower_hex_def word_le_nat_alt)
qed

lemma lower_hex_string_ascii:
  "list_all is_lower_hex (utf8_bytes s) \<Longrightarrow> s = map unat (utf8_bytes s)"
proof (induction s)
  case (Cons c s)
  then have "c < 128" by (auto simp: utf8_bytes_Cons intro: utf8_char_lower_hex)
  then show ?case using Cons by (simp add: utf8_bytes_Cons utf8_char_ascii unat_of_nat)
qed simp

lemma decode_then_encode:
  "even (length bs) \<Longrightarrow> list_all is_lower_hex bs \<Longrightarrow>
   digest_to_string (decode_hex_pairs bs) = map unat bs \<and> length (decode_hex_pairs bs) = length bs div 2"
  by (induction bs rule: decode_hex_pairs.induct)
     (simp_all add: digest_to_string_def nibble_split hex_nibble_range del: drop_bit_or)

lemma digest_print_parse:
  assumes "digest_from_str s = Inr d"
  shows "digest_to_string d = s \<and> length d = OPERATION_DIGEST_BYTES"
proof -
  from assms have "length (utf8_bytes s) = 64" "list_all is_lower_hex (utf8_bytes s)"
    "d = decode_hex_pairs (utf8_bytes s)"
    by (auto simp: digest_from_str_def Let_def OPERATION_DIGEST_HEX_BYTES_def
        OPERATION_DIGEST_BYTES_def split: if_splits)
  with decode_then_encode [of "utf8_bytes s"] lower_hex_string_ascii [of s] show ?thesis
    by (simp add: OPERATION_DIGEST_BYTES_def)
qed

end
