(* ===== verification/Journal_Fold.thy ===== *)
theory Journal_Fold
  imports Operation_Contracts "HOL-Library.Multiset"
begin

text \<open>
  The record layer of the authority WAL, \<^verbatim>\<open>crates/agent-storage/src/lib.rs\<close>: the transition order on
  recovered operation states (\<open>valid_recovered_transition\<close>), the fold a fresh open runs over the
  records on disk (\<open>fold_operation_record\<close>), and the incremental copy of that fold that the live
  writer keeps (\<open>validate_cached_record\<close>, \<open>apply_cached_record\<close>). The operation table of the disk
  fold is a \<open>HashMap\<close>; the cached one is a vector with an index map.

  The lemmas show that the transition order only moves forward and that terminals are final, and that
  the cached copy refines the disk fold: a record the live writer admits is admitted by the next
  recovery, with the same result.
\<close>

section \<open>The transition order\<close>

definition valid_recovered_transition :: "operation_state \<Rightarrow> operation_state \<Rightarrow> bool" where
  "valid_recovered_transition previous next \<longleftrightarrow>
     (case (previous, next) of
        (Accepted, Executing _) \<Rightarrow> True
      | (Accepted, Terminal None _) \<Rightarrow> True
      | _ \<Rightarrow> False)
   \<or> (case (previous, next) of
        (Executing (Some left), Prepared right) \<Rightarrow> left = right
      | _ \<Rightarrow> False)
   \<or> (case (previous, next) of
        (Executing None, Terminal None _) \<Rightarrow> True
      | (Executing (Some _), Terminal None CompletedValue) \<Rightarrow> True
      | (Executing (Some left), Terminal (Some right) _) \<Rightarrow> left = right
      | _ \<Rightarrow> False)
   \<or> (case (previous, next) of
        (Prepared left, CommitStarted right) \<Rightarrow> left = right
      | _ \<Rightarrow> False)
   \<or> (case (previous, next) of
        (Prepared left, Terminal (Some right) _) \<Rightarrow> left = right
      | _ \<Rightarrow> False)
   \<or> (case (previous, next) of
        (CommitStarted left, Terminal (Some right) _) \<Rightarrow> left = right
      | _ \<Rightarrow> False)
   \<or> previous = next"

fun is_first_state :: "operation_state \<Rightarrow> bool" where
  "is_first_state Accepted = True"
| "is_first_state (Terminal _ CancelledBeforeCommit) = True"
| "is_first_state _ = False"

section \<open>The fold of a fresh open\<close>

type_synonym operation_table = "(uuid \<times> operation_snapshot) list"

type_synonym fold_state = "operation_journal_recovery \<times> operation_table"

definition fold_operation_record ::
  "fold_state \<Rightarrow> operation_journal_record \<Rightarrow> rust_str + fold_state" where
  "fold_operation_record st r = (case st of (recovery, operations) \<Rightarrow>
     (case jr_transition r of
        EpochAdvanced from to \<Rightarrow>
          if rv_authority_epoch recovery \<noteq> from
          then Inl (lit ''authority epoch gap: current '' @ dec (rv_authority_epoch recovery)
                    @ lit '', transition '' @ dec from @ lit ''->'' @ dec to)
          else Inr (recovery\<lparr>rv_authority_epoch := to\<rparr>, operations)
      | OperationUpsert snapshot \<Rightarrow>
          (case map_of operations (snap_id snapshot) of
             Some previous \<Rightarrow>
               if snap_identity previous \<noteq> snap_identity snapshot
                  \<or> \<not> valid_recovered_transition (snap_state previous) (snap_state snapshot)
               then Inl (lit ''operation identity/state transition is not monotonic'')
               else Inr (recovery, AList.update (snap_id snapshot) snapshot operations)
           | None \<Rightarrow>
               if rv_compacted_from recovery = None \<and> \<not> is_first_state (snap_state snapshot)
               then Inl (lit ''operation first record is not Accepted or a cancellation reservation'')
               else Inr (recovery, AList.update (snap_id snapshot) snapshot operations))
      | Compacted previous \<Rightarrow>
          if rv_last_seq recovery \<noteq> 0 \<or> rv_compacted_from recovery \<noteq> None
          then Inl (lit ''Compacted baseline must be the first record of a compacted WAL'')
          else result_bind (marker_validate previous)
            (\<lambda>_. Inr (recovery\<lparr>rv_authority_epoch := mk_authority_epoch previous,
                              rv_compacted_from := Some previous\<rparr>, operations))))"

text \<open>
  One turn of the recovery loop after a frame decoded to \<open>record\<close>: validation, sequence check, fold,
  and the record limit, \<^verbatim>\<open>recover_operation_file_until\<close>.
\<close>

definition corrupt_operation_journal :: "rust_str \<Rightarrow> agent_error" where
  "corrupt_operation_journal detail =
     RecoveryRequired (lit ''operation journal is corrupt: '' @ detail)"

definition recover_step :: "fold_state \<Rightarrow> operation_journal_record \<Rightarrow> fold_state agent_result" where
  "recover_step st r =
     result_bind (map_err corrupt_operation_journal (record_validate r)) (\<lambda>_.
     result_bind (ok_or (RecoveryRequired (lit ''operation journal sequence overflow''))
                   (checked_add_u64 (rv_last_seq (fst st)) 1)) (\<lambda>expected.
     if jr_seq r \<noteq> expected
     then Inl (corrupt_operation_journal (lit ''non-contiguous sequence''))
     else result_bind (map_err corrupt_operation_journal (fold_operation_record st r)) (\<lambda>st'.
       let recovery = (fst st')\<lparr>rv_last_seq := jr_seq r\<rparr> in
       if MAX_OPERATION_JOURNAL_RECOVERY_RECORDS < rv_last_seq recovery
       then Inl (RecoveryRequired (lit ''operation journal exceeds the ''
              @ dec MAX_OPERATION_JOURNAL_RECOVERY_RECORDS @ lit '' record recovery limit''))
       else Inr (recovery, snd st'))))"

fun recover_records :: "fold_state \<Rightarrow> operation_journal_record list \<Rightarrow> fold_state agent_result" where
  "recover_records st [] = Inr st"
| "recover_records st (r # rs) = result_bind (recover_step st r) (\<lambda>st'. recover_records st' rs)"

text \<open>
  The table leaves the loop sorted by operation id. The source sorts by the hyphenated lower-case
  hexadecimal string, which orders UUIDs as the 128-bit numbers they are.
\<close>

definition sort_operations :: "operation_snapshot list \<Rightarrow> operation_snapshot list" where
  "sort_operations ops = sort_key snap_id ops"

definition finish_recovery :: "fold_state \<Rightarrow> operation_journal_recovery" where
  "finish_recovery st = (fst st)\<lparr>rv_operations := sort_operations (map snd (snd st))\<rparr>"

section \<open>The cached copy of the live writer\<close>

type_synonym operation_indexes = "uuid \<rightharpoonup> nat"

definition build_indexes :: "operation_snapshot list \<Rightarrow> operation_indexes" where
  "build_indexes ops = map_of (rev (zip (map snap_id ops) [0..<length ops]))"

definition validate_cached_record ::
  "operation_journal_recovery \<Rightarrow> operation_indexes \<Rightarrow> operation_journal_record \<Rightarrow> rust_str + unit" where
  "validate_cached_record recovery indexes r =
     result_bind (ok_or (lit ''operation journal sequence overflow'')
                   (checked_add_u64 (rv_last_seq recovery) 1)) (\<lambda>expected.
     if jr_seq r \<noteq> expected then Inl (lit ''operation journal sequence is not contiguous'')
     else (case jr_transition r of
        EpochAdvanced from _ \<Rightarrow>
          if rv_authority_epoch recovery \<noteq> from
          then Inl (lit ''authority epoch gap: current '' @ dec (rv_authority_epoch recovery)
                    @ lit '', transition starts at '' @ dec from)
          else Inr ()
      | OperationUpsert snapshot \<Rightarrow>
          (case indexes (snap_id snapshot) of
             Some index \<Rightarrow>
               (let previous = rv_operations recovery ! index in
                if snap_identity previous \<noteq> snap_identity snapshot
                   \<or> \<not> valid_recovered_transition (snap_state previous) (snap_state snapshot)
                then Inl (lit ''operation identity/state transition is not monotonic'')
                else Inr ())
           | None \<Rightarrow>
               if \<not> is_first_state (snap_state snapshot)
               then Inl (lit ''operation first record is not Accepted or a cancellation reservation'')
               else Inr ())
      | Compacted _ \<Rightarrow>
          Inl (lit ''Compacted baseline can only be written by journal compaction'')))"

definition apply_cached_record ::
  "operation_journal_recovery \<Rightarrow> operation_indexes \<Rightarrow> operation_journal_record
     \<Rightarrow> operation_journal_recovery \<times> operation_indexes" where
  "apply_cached_record recovery indexes r =
     (let (recovery', indexes') = (case jr_transition r of
        EpochAdvanced _ to \<Rightarrow> (recovery\<lparr>rv_authority_epoch := to\<rparr>, indexes)
      | OperationUpsert snapshot \<Rightarrow>
          (case indexes (snap_id snapshot) of
             Some index \<Rightarrow>
               (recovery\<lparr>rv_operations := (rv_operations recovery)[index := snapshot]\<rparr>, indexes)
           | None \<Rightarrow>
               (recovery\<lparr>rv_operations := rv_operations recovery @ [snapshot]\<rparr>,
                indexes(snap_id snapshot \<mapsto> length (rv_operations recovery))))
      | Compacted previous \<Rightarrow>
          (recovery\<lparr>rv_authority_epoch := mk_authority_epoch previous,
                    rv_compacted_from := Some previous\<rparr>, indexes))
      in (recovery'\<lparr>rv_last_seq := jr_seq r\<rparr>, indexes'))"

section \<open>The transition order moves forward\<close>

fun state_rank :: "operation_state \<Rightarrow> nat" where
  "state_rank Accepted = 0"
| "state_rank (Executing _) = 1"
| "state_rank (Prepared _) = 2"
| "state_rank (CommitStarted _) = 3"
| "state_rank (Terminal _ _) = 4"

fun state_effect :: "operation_state \<Rightarrow> uuid option" where
  "state_effect Accepted = None"
| "state_effect (Executing e) = e"
| "state_effect (Prepared e) = Some e"
| "state_effect (CommitStarted e) = Some e"
| "state_effect (Terminal e _) = e"

lemma valid_transition_refl [simp]: "valid_recovered_transition s s"
  by (simp add: valid_recovered_transition_def)

lemma valid_transition_Terminal [simp]:
  "valid_recovered_transition (Terminal e t) s \<longleftrightarrow> s = Terminal e t"
  by (auto simp: valid_recovered_transition_def)

lemma valid_transition_rank:
  "valid_recovered_transition p n \<Longrightarrow> p = n \<or> state_rank p < state_rank n"
  by (cases p; cases n) (auto simp: valid_recovered_transition_def split: option.splits)

lemma valid_transition_effect:
  "valid_recovered_transition p n \<Longrightarrow> state_effect p = Some e \<Longrightarrow>
   state_effect n = Some e \<or> (p = Executing (Some e) \<and> n = Terminal None CompletedValue)"
  by (cases p; cases n)
     (auto simp: valid_recovered_transition_def split: option.splits operation_terminal.splits)

lemma valid_transition_commit:
  "valid_recovered_transition p (CommitStarted e) \<longleftrightarrow> p = Prepared e \<or> p = CommitStarted e"
  by (cases p) (auto simp: valid_recovered_transition_def split: option.splits)

lemma valid_transition_moves:
  "valid_recovered_transition Accepted (Executing e)"
  "valid_recovered_transition Accepted (Terminal None t)"
  "valid_recovered_transition (Executing (Some x)) (Prepared x)"
  "valid_recovered_transition (Executing e') (Terminal None CompletedValue)"
  "valid_recovered_transition (Executing e') (Terminal e' t)"
  "valid_recovered_transition (Prepared x) (CommitStarted x)"
  "valid_recovered_transition (Prepared x) (Terminal (Some x) t)"
  "valid_recovered_transition (CommitStarted x) (Terminal (Some x) t)"
  by (auto simp: valid_recovered_transition_def split: option.splits)

section \<open>The cached copy refines the disk fold\<close>

definition table_wf :: "operation_table \<Rightarrow> bool" where
  "table_wf ops \<longleftrightarrow> distinct (map fst ops) \<and> (\<forall>(k, s) \<in> set ops. snap_id s = k)"

definition table_values :: "operation_table \<Rightarrow> operation_snapshot set" where
  "table_values ops = snd ` set ops"

definition indexes_ok :: "operation_snapshot list \<Rightarrow> operation_indexes \<Rightarrow> bool" where
  "indexes_ok ops ix \<longleftrightarrow> distinct (map snap_id ops) \<and>
     (\<forall>k i. ix k = Some i \<longleftrightarrow> i < length ops \<and> snap_id (ops ! i) = k)"

definition cached_refines ::
  "operation_journal_recovery \<Rightarrow> operation_indexes \<Rightarrow> fold_state \<Rightarrow> bool" where
  "cached_refines c ix st \<longleftrightarrow>
     indexes_ok (rv_operations c) ix \<and> table_wf (snd st)
   \<and> set (rv_operations c) = table_values (snd st)
   \<and> (\<forall>s \<in> set (rv_operations c). snapshot_validate s = Inr ())
   \<and> rv_last_seq (fst st) = rv_last_seq c
   \<and> rv_authority_epoch (fst st) = rv_authority_epoch c
   \<and> rv_compacted_from (fst st) = rv_compacted_from c
   \<and> 0 < rv_authority_epoch c"

lemma table_wf_Nil [simp]: "table_wf []"
  by (simp add: table_wf_def)

lemma table_wf_update:
  assumes "table_wf ops"
  shows "table_wf (AList.update (snap_id s) s ops)"
proof -
  have "\<forall>(k, s') \<in> set (AList.update (snap_id s) s ops). snap_id s' = k"
    if "\<forall>(k, s) \<in> set ops. snap_id s = k"
    using that by (induction ops) auto
  then show ?thesis using assms by (auto simp: table_wf_def intro: distinct_update)
qed

lemma table_lookup: "table_wf ops \<Longrightarrow> map_of ops k = Some s \<longleftrightarrow> s \<in> table_values ops \<and> snap_id s = k"
  by (force simp: table_wf_def table_values_def map_of_eq_Some_iff)

lemma table_values_update:
  assumes "table_wf ops"
  shows "table_values (AList.update (snap_id s) s ops)
       = insert s {s' \<in> table_values ops. snap_id s' \<noteq> snap_id s}"
proof -
  note wf = assms table_wf_update [OF assms, of s]
  have "t \<in> table_values (AList.update (snap_id s) s ops) \<longleftrightarrow>
        map_of (AList.update (snap_id s) s ops) (snap_id t) = Some t" for t
    using table_lookup [OF wf(2)] by blast
  moreover have "t \<in> table_values ops \<longleftrightarrow> map_of ops (snap_id t) = Some t" for t
    using table_lookup [OF wf(1)] by blast
  ultimately show ?thesis by (auto split: if_splits)
qed

lemma indexes_nth:
  "indexes_ok ops ix \<Longrightarrow> ix k = Some i \<Longrightarrow> i < length ops \<and> snap_id (ops ! i) = k"
  by (simp add: indexes_ok_def)

lemma indexes_None: "indexes_ok ops ix \<Longrightarrow> ix k = None \<longleftrightarrow> k \<notin> snap_id ` set ops"
proof -
  assume ok: "indexes_ok ops ix"
  have "k \<in> snap_id ` set ops \<longleftrightarrow> (\<exists>i. i < length ops \<and> snap_id (ops ! i) = k)"
    by (force simp: image_iff in_set_conv_nth)
  also have "\<dots> \<longleftrightarrow> (\<exists>i. ix k = Some i)" using ok by (simp add: indexes_ok_def)
  finally show ?thesis by auto
qed

lemma indexes_ok_replace:
  assumes "indexes_ok ops ix" "ix (snap_id s) = Some i"
  shows "indexes_ok (ops[i := s]) ix"
        "set (ops[i := s]) = insert s {s' \<in> set ops. snap_id s' \<noteq> snap_id s}"
proof -
  note i = indexes_nth [OF assms]
  have keys: "map snap_id (ops[i := s]) = map snap_id ops"
    using i by (simp add: map_update list_update_same_conv)
  have nth: "snap_id (ops[i := s] ! j) = snap_id (ops ! j)" if "j < length ops" for j
    using that keys by (metis length_list_update nth_map)
  show "indexes_ok (ops[i := s]) ix"
    using assms(1) nth by (auto simp: indexes_ok_def keys)
  have d: "distinct (map snap_id ops)" using assms(1) by (simp add: indexes_ok_def)
  show "set (ops[i := s]) = insert s {s' \<in> set ops. snap_id s' \<noteq> snap_id s}"
  proof (intro equalityI subsetI)
    fix t assume "t \<in> set (ops[i := s])"
    then obtain j where j: "j < length ops" "t = ops[i := s] ! j"
      by (auto simp: in_set_conv_nth)
    show "t \<in> insert s {s' \<in> set ops. snap_id s' \<noteq> snap_id s}"
    proof (cases "j = i")
      case False
      then have "snap_id (ops ! j) \<noteq> snap_id s"
        using d i j(1) by (metis length_map nth_eq_iff_index_eq nth_map)
      then show ?thesis using False j by auto
    qed (use j in auto)
  next
    fix t assume t: "t \<in> insert s {s' \<in> set ops. snap_id s' \<noteq> snap_id s}"
    show "t \<in> set (ops[i := s])"
    proof (cases "t = s")
      case True then show ?thesis using i by (simp add: set_update_memI)
    next
      case False
      then obtain j where "j < length ops" "t = ops ! j" "snap_id t \<noteq> snap_id s"
        using t by (auto simp: in_set_conv_nth)
      moreover from this i have "j \<noteq> i" by auto
      ultimately show ?thesis by (metis in_set_conv_nth length_list_update nth_list_update_neq)
    qed
  qed
qed

lemma indexes_ok_push:
  assumes "indexes_ok ops ix" "ix (snap_id s) = None"
  shows "indexes_ok (ops @ [s]) (ix(snap_id s \<mapsto> length ops))"
proof -
  have new: "snap_id s \<notin> snap_id ` set ops" using assms indexes_None by blast
  have old: "i < length ops \<Longrightarrow> snap_id (ops ! i) \<noteq> snap_id s" for i
    using new by (metis image_eqI nth_mem)
  show ?thesis
    using assms(1) new old by (auto simp: indexes_ok_def nth_append less_Suc_eq)
qed

lemma cached_lookup:
  assumes "cached_refines c ix st"
  shows "map_of (snd st) k = (case ix k of None \<Rightarrow> None | Some i \<Rightarrow> Some (rv_operations c ! i))"
proof (cases "ix k")
  case None
  then have "k \<notin> snap_id ` set (rv_operations c)"
    using assms indexes_None by (auto simp: cached_refines_def)
  moreover have "table_wf (snd st)" "set (rv_operations c) = table_values (snd st)"
    using assms by (simp_all add: cached_refines_def)
  ultimately have "map_of (snd st) k \<noteq> Some s" for s
    using table_lookup [of "snd st" k s] by auto
  then have "map_of (snd st) k = None" by (simp add: option.split_sel_asm not_Some_eq [symmetric])
  then show ?thesis using None by simp
next
  case (Some i)
  then have "i < length (rv_operations c)" "snap_id (rv_operations c ! i) = k"
    using assms indexes_nth by (auto simp: cached_refines_def)
  then have "map_of (snd st) k = Some (rv_operations c ! i)"
    using assms table_lookup by (force simp: cached_refines_def)
  then show ?thesis using Some by simp
qed

text \<open>A record the live writer admits is admitted by the next recovery, with the same result.\<close>

lemma cached_fold_refines:
  assumes ref: "cached_refines c ix st"
    and val: "record_validate r = Inr ()"
    and ok: "validate_cached_record c ix r = Inr ()"
  shows "\<exists>rv' ops'. fold_operation_record st r = Inr (rv', ops') \<and>
           cached_refines (fst (apply_cached_record c ix r)) (snd (apply_cached_record c ix r))
             (rv'\<lparr>rv_last_seq := jr_seq r\<rparr>, ops')"
proof -
  obtain rv ops where st: "st = (rv, ops)" by (cases st)
  have seq: "checked_add_u64 (rv_last_seq c) 1 = Some (jr_seq r)"
    using ok by (auto simp: validate_cached_record_def split: if_splits)
  note r = ref [unfolded cached_refines_def st, simplified]
  note step = fold_operation_record_def apply_cached_record_def Let_def
  show ?thesis
  proof (cases "jr_transition r")
    case (EpochAdvanced f t)
    have e: "rv_authority_epoch c = f" and "0 < t"
      using ok val EpochAdvanced
      by (auto simp: validate_cached_record_def record_validate_def split: if_splits)
    then show ?thesis
      using r seq val EpochAdvanced by (auto simp: st step cached_refines_def)
  next
    case (OperationUpsert s)
    have sv: "snapshot_validate s = Inr ()"
      using val OperationUpsert by (auto simp: record_validate_def split: if_splits)
    show ?thesis
    proof (cases "ix (snap_id s)")
      case None
      then have lk: "map_of ops (snap_id s) = None" using cached_lookup [OF ref] by (simp add: st)
      then have vals: "table_values (AList.update (snap_id s) s ops) = insert s (table_values ops)"
        using table_values_update [of ops s] table_lookup [of ops "snap_id s"] r by auto
      then show ?thesis
        using r seq val OperationUpsert None lk ok sv
          indexes_ok_push [of "rv_operations c" ix s] table_wf_update [of ops s]
        by (auto simp: st step cached_refines_def validate_cached_record_def split: if_splits)
    next
      case (Some i)
      then have lk: "map_of ops (snap_id s) = Some (rv_operations c ! i)"
        using cached_lookup [OF ref] by (simp add: st)
      have "indexes_ok ((rv_operations c)[i := s]) ix"
        "set ((rv_operations c)[i := s]) = table_values (AList.update (snap_id s) s ops)"
        using indexes_ok_replace [of "rv_operations c" ix s i] Some r table_values_update [of ops s]
        by auto
      then show ?thesis
        using r seq val OperationUpsert Some lk ok sv table_wf_update [of ops s]
          indexes_ok_replace(2) [of "rv_operations c" ix s i]
        by (auto simp: st step cached_refines_def validate_cached_record_def Let_def split: if_splits)
    qed
  next
    case (Compacted m)
    then show ?thesis using ok by (auto simp: validate_cached_record_def split: if_splits)
  qed
qed

lemma cached_step_refines:
  assumes "cached_refines c ix st" "record_validate r = Inr ()" "validate_cached_record c ix r = Inr ()"
    "jr_seq r \<le> MAX_OPERATION_JOURNAL_RECOVERY_RECORDS"
  shows "\<exists>st'. recover_step st r = Inr st' \<and>
           cached_refines (fst (apply_cached_record c ix r)) (snd (apply_cached_record c ix r)) st'"
proof -
  obtain rv' ops' where f: "fold_operation_record st r = Inr (rv', ops')"
    "cached_refines (fst (apply_cached_record c ix r)) (snd (apply_cached_record c ix r))
       (rv'\<lparr>rv_last_seq := jr_seq r\<rparr>, ops')"
    using cached_fold_refines [OF assms(1-3)] by blast
  have "checked_add_u64 (rv_last_seq (fst st)) 1 = Some (jr_seq r)"
    using assms(1,3) by (auto simp: validate_cached_record_def cached_refines_def split: if_splits)
  then show ?thesis using f assms(2,4) by (simp add: recover_step_def Let_def)
qed

section \<open>Recovery of a record sequence\<close>

lemma recover_records_append:
  "recover_records st (rs @ rs') = result_bind (recover_records st rs) (\<lambda>st'. recover_records st' rs')"
  by (induction rs arbitrary: st) (auto simp: result_bind_assoc)

lemma recover_records_snoc:
  "recover_records st rs = Inr st' \<Longrightarrow> recover_records st (rs @ [r]) = recover_step st' r"
  by (simp add: recover_records_append)

lemma recover_step_seq:
  "recover_step st r = Inr st' \<Longrightarrow>
   rv_last_seq (fst st') = Suc (rv_last_seq (fst st)) \<and> jr_seq r = Suc (rv_last_seq (fst st))
   \<and> rv_last_seq (fst st') \<le> MAX_OPERATION_JOURNAL_RECOVERY_RECORDS"
  by (auto simp: recover_step_def Let_def split: if_splits)

lemma recover_records_last_seq:
  "recover_records st rs = Inr st' \<Longrightarrow> rv_last_seq (fst st') = rv_last_seq (fst st) + length rs"
proof (induction rs arbitrary: st)
  case (Cons r rs)
  then obtain st1 where "recover_step st r = Inr st1" "recover_records st1 rs = Inr st'" by auto
  then show ?case using Cons.IH [of st1] recover_step_seq [of st r st1] by auto
qed simp

lemma same_snapshots_same_sort:
  assumes "set xs = set ys" "distinct (map snap_id xs)" "distinct (map snap_id ys)"
  shows "sort_operations xs = sort_operations ys"
proof -
  have "mset xs = mset ys"
    using assms by (simp add: distinct_map set_eq_iff_mset_eq_distinct)
  then have "mset xs = mset (sort_key snap_id ys)" by simp
  moreover have "inj_on snap_id (set xs)" using assms by (simp add: distinct_map)
  ultimately show ?thesis
    unfolding sort_operations_def by (rule sort_key_inj_key_eq) simp
qed

text \<open>What a fresh open recovers is what the live writer has, in the order of the operation ids.\<close>

lemma finish_recovery_cached:
  assumes "cached_refines c ix st"
  shows "rv_operations (finish_recovery st) = sort_operations (rv_operations c)"
    and "rv_last_seq (finish_recovery st) = rv_last_seq c"
    and "rv_authority_epoch (finish_recovery st) = rv_authority_epoch c"
    and "rv_compacted_from (finish_recovery st) = rv_compacted_from c"
proof -
  note r = assms [unfolded cached_refines_def]
  have "distinct (map snap_id (map snd (snd st)))"
  proof -
    have "map (snap_id \<circ> snd) (snd st) = map fst (snd st)"
      using r by (auto simp: table_wf_def)
    then have "distinct (map (snap_id \<circ> snd) (snd st)) = distinct (map fst (snd st))" by (rule arg_cong)
    then show ?thesis using r by (simp add: table_wf_def)
  qed
  then show "rv_operations (finish_recovery st) = sort_operations (rv_operations c)"
    using r same_snapshots_same_sort [of "map snd (snd st)" "rv_operations c"]
    by (simp add: finish_recovery_def table_values_def indexes_ok_def)
qed (use assms in \<open>simp_all add: finish_recovery_def cached_refines_def\<close>)

lemma cached_refines_default: "cached_refines recovery_default Map.empty (recovery_default, [])"
  by (simp add: cached_refines_def recovery_default_def indexes_ok_def table_values_def)

lemma build_indexes_ok:
  assumes "distinct (map snap_id ops)"
  shows "indexes_ok ops (build_indexes ops)"
proof -
  let ?al = "rev (zip (map snap_id ops) [0..<length ops])"
  have "map fst ?al = rev (map snap_id ops)" by (simp add: rev_map [symmetric])
  then have "distinct (map fst ?al)" using assms by simp
  then have "build_indexes ops k = Some i \<longleftrightarrow> (k, i) \<in> set (zip (map snap_id ops) [0..<length ops])"
    for k i
    by (simp add: build_indexes_def map_of_eq_Some_iff)
  moreover have "(k, i) \<in> set (zip (map snap_id ops) [0..<length ops])
      \<longleftrightarrow> i < length ops \<and> snap_id (ops ! i) = k" for k i
    by (auto simp: set_zip intro!: exI [of _ i])
  ultimately show ?thesis using assms by (simp add: indexes_ok_def)
qed

end
