(* ===== verification/Authority_Truth.thy ===== *)
theory Authority_Truth
  imports Journal_Fold
begin

text \<open>
  The contract of an operation journal, the trait \<open>OperationJournal\<close> of
  \<^verbatim>\<open>crates/agent-contracts/src/operation.rs\<close>, as an abstract specification: the authority truth is the
  epoch and the set of operation snapshots; \<open>apply_truth\<close> is what one stored transition does to it, and
  \<open>transition_admitted\<close> which transitions are stored at all. The locale \<open>operation_journal\<close> is the interface
  the operation registry relies on; the file journal is an instance of it.
\<close>

section \<open>The truth and its transitions\<close>

type_synonym authority_truth = "nat \<times> operation_snapshot set"

fun apply_truth :: "authority_truth \<Rightarrow> operation_journal_transition \<Rightarrow> authority_truth" where
  "apply_truth (epoch, S) (EpochAdvanced _ to) = (to, S)"
| "apply_truth (epoch, S) (OperationUpsert s) = (epoch, insert s {s' \<in> S. snap_id s' \<noteq> snap_id s})"
| "apply_truth (epoch, S) (Compacted _) = (epoch, S)"

text \<open>What a journal checks before it stores a snapshot, over the truth it has.\<close>

definition upsert_admitted :: "operation_snapshot set \<Rightarrow> operation_snapshot \<Rightarrow> bool" where
  "upsert_admitted S s \<longleftrightarrow>
     (\<forall>p \<in> S. snap_id p = snap_id s \<longrightarrow> snap_identity p = snap_identity s
        \<and> valid_recovered_transition (snap_state p) (snap_state s))
   \<and> ((\<forall>p \<in> S. snap_id p \<noteq> snap_id s) \<longrightarrow> is_first_state (snap_state s))"

text \<open>The transitions a journal admits over the truth it has.\<close>

fun transition_admitted :: "authority_truth \<Rightarrow> operation_journal_transition \<Rightarrow> bool" where
  "transition_admitted (epoch, S) (EpochAdvanced a b) \<longleftrightarrow> epoch = a"
| "transition_admitted (epoch, S) (OperationUpsert s) \<longleftrightarrow> upsert_admitted S s"
| "transition_admitted (epoch, S) (Compacted m) \<longleftrightarrow> False"

section \<open>The interface\<close>

locale operation_journal =
  fixes jappend :: "'j \<Rightarrow> operation_journal_transition \<Rightarrow> 'j \<times> operation_journal_record agent_result"
    and truth :: "'j \<Rightarrow> authority_truth"
    and ok :: "'j \<Rightarrow> bool"
  assumes append_stored:
      "ok j \<Longrightarrow> jappend j t = (j', Inr r) \<Longrightarrow>
       ok j' \<and> truth j' = apply_truth (truth j) t \<and> transition_admitted (truth j) t"
    and append_failed:
      "ok j \<Longrightarrow> jappend j t = (j', Inl e) \<Longrightarrow> ok j' \<and> truth j' = truth j"
    and truth_ids: "ok j \<Longrightarrow> inj_on snap_id (snd (truth j))"

end
