(* ===== verification/Journal_File.thy ===== *)
theory Journal_File
  imports Authority_Truth
begin

text \<open>
  The byte layer of the authority WAL: \<open>FileOperationJournal\<close> of
  \<^verbatim>\<open>crates/agent-storage/src/lib.rs\<close>. A journal directory is a list of named files plus the metadata
  file; the writer keeps the cached fold, its index map, the metadata and the sticky failure.

  Two pieces are outside the repository and enter as parameters: the JSON encoder/decoder and the
  digest (\<open>journal_codec\<close>: \<open>serde_json\<close> and \<open>sha2\<close>), and the answers of the operating system
  (\<open>append_env\<close>, \<open>compact_env\<close>, \<open>open_env\<close>: which step fails, and how many bytes of a failed write
  reached the file). \<open>codec_ok\<close> states what the code relies on: a frame that was written parses back,
  and its encoding holds no line feed.
\<close>

section \<open>The external encoder and digest\<close>

record stored_operation_frame =
  sf_record :: operation_journal_record
  sf_checksum :: rust_str

record authority_journal_metadata =
  md_version :: nat
  md_journal_id :: uuid
  md_generation :: nat
  md_ancestors :: "authority_checkpoint_marker list"

record stored_authority_journal_metadata =
  sm_metadata :: authority_journal_metadata
  sm_checksum :: rust_str

record journal_codec =
  jc_record_to_vec :: "operation_journal_record \<Rightarrow> byte list option"
  jc_frame_to_vec :: "stored_operation_frame \<Rightarrow> byte list option"
  jc_frame_from_slice :: "byte list \<Rightarrow> stored_operation_frame option"
  jc_truth_to_vec :: "nat \<Rightarrow> nat \<Rightarrow> operation_snapshot list \<Rightarrow> byte list option"
  jc_metadata_to_vec :: "authority_journal_metadata \<Rightarrow> byte list option"
  jc_stored_metadata_to_vec :: "stored_authority_journal_metadata \<Rightarrow> byte list option"
  jc_stored_metadata_from_slice :: "byte list \<Rightarrow> stored_authority_journal_metadata option"
  jc_sha256 :: "byte list \<Rightarrow> digest"

definition MAX_OPERATION_JOURNAL_FRAME_BYTES :: nat where
  "MAX_OPERATION_JOURNAL_FRAME_BYTES = 16384"
definition MAX_OPERATION_JOURNAL_FILE_BYTES :: nat where
  "MAX_OPERATION_JOURNAL_FILE_BYTES = 268435456"
definition AUTHORITY_JOURNAL_METADATA_VERSION :: nat where "AUTHORITY_JOURNAL_METADATA_VERSION = 1"
definition AUTHORITY_JOURNAL_GENERATION :: nat where "AUTHORITY_JOURNAL_GENERATION = 1"
definition MAX_AUTHORITY_JOURNAL_METADATA_BYTES :: nat where
  "MAX_AUTHORITY_JOURNAL_METADATA_BYTES = 16384"

definition checksum_hex :: "journal_codec \<Rightarrow> byte list \<Rightarrow> rust_str" where
  "checksum_hex C bytes = digest_to_string (jc_sha256 C bytes)"

section \<open>File names and generations\<close>

definition authority_wal_path :: "rust_str \<Rightarrow> nat \<Rightarrow> rust_str" where
  "authority_wal_path base generation =
     (if generation \<le> 1 then base else base @ lit ''.g'' @ dec generation)"

definition strip_prefix :: "rust_str \<Rightarrow> rust_str \<Rightarrow> rust_str option" where
  "strip_prefix p s = (if take (length p) s = p then Some (drop (length p) s) else None)"

definition parse_u64 :: "rust_str \<Rightarrow> nat option" where
  "parse_u64 s = (let n = foldl (\<lambda>acc c. acc * 10 + (c - 48)) 0 s
                  in if n \<le> u64_max then Some n else None)"

definition authority_wal_generation_of :: "rust_str \<Rightarrow> rust_str \<Rightarrow> nat option" where
  "authority_wal_generation_of file_name journal_name =
     (if file_name = journal_name then Some 1
      else (case strip_prefix journal_name file_name of
              None \<Rightarrow> None
            | Some r1 \<Rightarrow> (case strip_prefix (lit ''.g'') r1 of
                None \<Rightarrow> None
              | Some rest \<Rightarrow>
                  if rest = [] \<or> \<not> list_all (\<lambda>c. 48 \<le> c \<and> c \<le> 57) rest then None
                  else (case parse_u64 rest of
                          Some g \<Rightarrow> if 1 \<le> g then Some g else None
                        | None \<Rightarrow> None))))"

record journal_disk =
  jd_files :: "(rust_str \<times> byte list) list"
  jd_metadata :: "byte list option"

definition list_authority_wal_generations :: "rust_str \<Rightarrow> journal_disk \<Rightarrow> nat list" where
  "list_authority_wal_generations base disk =
     remdups (sort (List.map_filter (\<lambda>(name, _). authority_wal_generation_of name base)
                     (jd_files disk)))"

section \<open>Appending one frame\<close>

datatype append_failure =
    RejectedBeforeWrite bool agent_error
  | WriteFailed agent_error

record append_io =
  io_stat_ok :: bool
  io_write_fault :: "nat option"

text \<open>
  \<open>io_write_fault = Some n\<close>: the write phase failed and the first \<open>n\<close> bytes of the line reached the
  file (all of them when only the durability barrier failed).
\<close>

definition persist_operation_frame ::
  "nat option \<Rightarrow> byte list \<Rightarrow> byte list \<Rightarrow> byte list \<times> (agent_error + unit)" where
  "persist_operation_frame fault file encoded = (case fault of
     None \<Rightarrow> (file @ encoded @ [10], Inr ())
   | Some n \<Rightarrow> (file @ take n (encoded @ [10]), Inl (Storage (lit ''persist operation journal''))))"

definition serialize_frame ::
  "rust_str \<Rightarrow> journal_codec \<Rightarrow> operation_journal_record \<Rightarrow> agent_error + byte list" where
  "serialize_frame what C r =
     result_bind (ok_or (Storage (lit ''serialize '' @ what @ lit '' record'')) (jc_record_to_vec C r))
       (\<lambda>payload. ok_or (Storage (lit ''serialize '' @ what @ lit '' frame''))
         (jc_frame_to_vec C \<lparr>sf_record = r, sf_checksum = checksum_hex C payload\<rparr>))"

definition encode_operation_frame ::
  "journal_codec \<Rightarrow> operation_journal_record \<Rightarrow> agent_error + byte list" where
  "encode_operation_frame C r = serialize_frame (lit ''operation'') C r"

definition append_operation_record ::
  "journal_codec \<Rightarrow> append_io \<Rightarrow> byte list \<Rightarrow> operation_journal_record
     \<Rightarrow> byte list \<times> (append_failure + unit)" where
  "append_operation_record C io file r =
     (case encode_operation_frame C r of
        Inl e \<Rightarrow> (file, Inl (RejectedBeforeWrite False e))
      | Inr encoded \<Rightarrow>
          if MAX_OPERATION_JOURNAL_FRAME_BYTES < length encoded
          then (file, Inl (RejectedBeforeWrite False (Storage
                 (lit ''operation journal frame exceeds '' @ dec MAX_OPERATION_JOURNAL_FRAME_BYTES
                  @ lit '' bytes''))))
          else if \<not> io_stat_ok io
          then (file, Inl (RejectedBeforeWrite False (Storage (lit ''stat operation journal''))))
          else (case checked_add_u64 (length file) (length encoded + 1) of
                  None \<Rightarrow> (file, Inl (RejectedBeforeWrite False
                            (Storage (lit ''operation journal size overflow''))))
                | Some projected \<Rightarrow>
                    if MAX_OPERATION_JOURNAL_FILE_BYTES < projected
                    then (file, Inl (RejectedBeforeWrite True (RecoveryRequired
                           (lit ''operation journal reached its ''
                            @ dec MAX_OPERATION_JOURNAL_FILE_BYTES
                            @ lit '' byte hard limit; checkpoint/compaction is required''))))
                    else (case persist_operation_frame (io_write_fault io) file encoded of
                            (file', Inr ()) \<Rightarrow> (file', Inr ())
                          | (file', Inl e) \<Rightarrow> (file', Inl (WriteFailed e)))))"

section \<open>Recovery from bytes\<close>

definition read_until_newline :: "byte list \<Rightarrow> byte list \<times> byte list" where
  "read_until_newline bytes =
     (let chunk = takeWhile (\<lambda>b. b \<noteq> 10) bytes;
          line = (if length chunk < length bytes then chunk @ [10] else chunk);
          taken = take (MAX_OPERATION_JOURNAL_FRAME_BYTES + 2) line
      in (taken, drop (length taken) bytes))"

definition decode_operation_frame ::
  "journal_codec \<Rightarrow> byte list \<Rightarrow> rust_str + operation_journal_record" where
  "decode_operation_frame C bytes =
     (case jc_frame_from_slice C bytes of
        None \<Rightarrow> Inl (lit ''invalid JSON'')
      | Some frame \<Rightarrow>
          (case jc_record_to_vec C (sf_record frame) of
             None \<Rightarrow> Inl (lit ''record serialization failed'')
           | Some payload \<Rightarrow>
               if sf_checksum frame \<noteq> checksum_hex C payload then Inl (lit ''checksum mismatch'')
               else Inr (sf_record frame)))"

lemma read_until_newline_shrinks:
  assumes "remaining \<noteq> []" "(bytes, rest) = read_until_newline remaining"
  shows "length rest < length remaining"
proof -
  have "bytes \<noteq> []" "rest = drop (length bytes) remaining"
    using assms by (cases remaining; auto simp: read_until_newline_def Let_def
        MAX_OPERATION_JOURNAL_FRAME_BYTES_def split: if_splits)+
  then show ?thesis using assms(1) by simp
qed

function recover_loop ::
  "journal_codec \<Rightarrow> nat option \<Rightarrow> nat \<Rightarrow> fold_state \<Rightarrow> nat \<Rightarrow> nat \<Rightarrow> byte list
     \<Rightarrow> (fold_state \<times> nat) agent_result" where
  "recover_loop C stop_after sz st offset last_good remaining =
     (if remaining = [] then Inr (st, last_good)
      else case read_until_newline remaining of (bytes, rest) \<Rightarrow>
       (case checked_add_u64 offset (length bytes) of
          None \<Rightarrow> Inl (RecoveryRequired (lit ''operation journal offset overflow''))
        | Some offset' \<Rightarrow>
            if last bytes \<noteq> 10
            then (if offset' = sz
                  then Inr (((fst st)\<lparr>rv_truncated_tail := True\<rparr>, snd st), last_good)
                  else Inl (corrupt_operation_journal (lit ''partial middle frame'')))
            else if MAX_OPERATION_JOURNAL_FRAME_BYTES + 1 < length bytes
            then Inl (corrupt_operation_journal (lit ''oversized complete frame''))
            else result_bind
              (map_err corrupt_operation_journal (decode_operation_frame C (butlast bytes)))
              (\<lambda>r. result_bind (recover_step st r)
                (\<lambda>st'. if stop_after = Some (rv_last_seq (fst st')) then Inr (st', offset')
                       else recover_loop C stop_after sz st' offset' offset' rest))))"
  by pat_completeness auto
termination
  by (relation "measure (\<lambda>(C, stop, sz, st, offset, lg, remaining). length remaining)")
     (simp_all add: read_until_newline_shrinks)

declare recover_loop.simps [simp del]

datatype repair_outcome = RepairOk | TruncateFailed | RepairUnsynced

definition recover_operation_file_until ::
  "journal_codec \<Rightarrow> nat option \<Rightarrow> bool \<Rightarrow> repair_outcome \<Rightarrow> byte list
     \<Rightarrow> byte list \<times> operation_journal_recovery agent_result" where
  "recover_operation_file_until C stop_after repair_torn_tail repair file =
     (if MAX_OPERATION_JOURNAL_FILE_BYTES < length file
      then (file, Inl (RecoveryRequired (lit ''operation journal exceeds its hard limit'')))
      else if stop_after = Some 0 then (file, Inr recovery_default)
      else (case recover_loop C stop_after (length file) (recovery_default, []) 0 0 file of
          Inl e \<Rightarrow> (file, Inl e)
        | Inr (st, last_good) \<Rightarrow>
            if (case stop_after of Some expected \<Rightarrow> rv_last_seq (fst st) \<noteq> expected | None \<Rightarrow> False)
            then (file, Inl (RecoveryRequired
                   (lit ''authority checkpoint references future operation journal sequence'')))
            else if rv_truncated_tail (fst st) \<and> repair_torn_tail
            then (case repair of
                    RepairOk \<Rightarrow> (take last_good file, Inr (finish_recovery st))
                  | TruncateFailed \<Rightarrow> (file, Inl (Storage (lit ''truncate torn operation journal tail'')))
                  | RepairUnsynced \<Rightarrow> (take last_good file,
                      Inl (Storage (lit ''sync repaired operation journal''))))
            else (file, Inr (finish_recovery st))))"

definition recover_operation_file ::
  "journal_codec \<Rightarrow> repair_outcome \<Rightarrow> byte list \<Rightarrow> byte list \<times> operation_journal_recovery agent_result" where
  "recover_operation_file C repair file = recover_operation_file_until C None True repair file"

definition recover_operation_prefix ::
  "journal_codec \<Rightarrow> byte list \<Rightarrow> nat \<Rightarrow> operation_journal_recovery agent_result" where
  "recover_operation_prefix C file last_seq =
     snd (recover_operation_file_until C (Some last_seq) False RepairOk file)"

section \<open>Metadata\<close>

definition encode_authority_metadata ::
  "journal_codec \<Rightarrow> authority_journal_metadata \<Rightarrow> byte list agent_result" where
  "encode_authority_metadata C metadata =
     result_bind (ok_or (Storage (lit ''serialize authority metadata'')) (jc_metadata_to_vec C metadata))
      (\<lambda>payload. result_bind (ok_or (Storage (lit ''serialize authority metadata''))
         (jc_stored_metadata_to_vec C
            \<lparr>sm_metadata = metadata, sm_checksum = checksum_hex C payload\<rparr>))
      (\<lambda>encoded. if MAX_AUTHORITY_JOURNAL_METADATA_BYTES < length encoded
                 then Inl (Storage (lit ''authority journal metadata exceeds its hard limit''))
                 else Inr encoded))"

text \<open>
  What happened to the metadata publish: it succeeded, it failed before the rename (the old file stands),
  or the rename is done and only the directory sync failed.
\<close>

datatype publish_outcome = PublishOk | PublishFailed | PublishUnsynced

definition persist_authority_metadata ::
  "journal_codec \<Rightarrow> publish_outcome \<Rightarrow> journal_disk \<Rightarrow> authority_journal_metadata
     \<Rightarrow> journal_disk \<times> unit agent_result" where
  "persist_authority_metadata C outcome disk metadata =
     (case encode_authority_metadata C metadata of
        Inl e \<Rightarrow> (disk, Inl e)
      | Inr encoded \<Rightarrow>
          (case outcome of
             PublishOk \<Rightarrow> (disk\<lparr>jd_metadata := Some encoded\<rparr>, Inr ())
           | PublishFailed \<Rightarrow> (disk, Inl (Storage (lit ''persist authority journal metadata'')))
           | PublishUnsynced \<Rightarrow> (disk\<lparr>jd_metadata := Some encoded\<rparr>,
               Inl (RecoveryRequired (lit ''authority journal metadata was published, but the directory sync failed; whether the new generation is durable is uncertain'')))))"

definition read_authority_metadata ::
  "journal_codec \<Rightarrow> byte list \<Rightarrow> authority_journal_metadata agent_result" where
  "read_authority_metadata C bytes =
     (if length bytes = 0 \<or> MAX_AUTHORITY_JOURNAL_METADATA_BYTES < length bytes
      then Inl (RecoveryRequired (lit ''authority journal metadata has an invalid size''))
      else (case jc_stored_metadata_from_slice C bytes of
          None \<Rightarrow> Inl (RecoveryRequired
                    (lit ''authority journal metadata is corrupt: invalid JSON''))
        | Some stored \<Rightarrow>
            (case jc_metadata_to_vec C (sm_metadata stored) of
               None \<Rightarrow> Inl (Storage (lit ''serialize recovered authority metadata''))
             | Some payload \<Rightarrow>
                 if sm_checksum stored \<noteq> checksum_hex C payload
                    \<or> md_version (sm_metadata stored) \<noteq> AUTHORITY_JOURNAL_METADATA_VERSION
                    \<or> is_nil (md_journal_id (sm_metadata stored))
                    \<or> md_generation (sm_metadata stored) = 0
                 then Inl (RecoveryRequired
                        (lit ''authority journal metadata is corrupt or unsupported''))
                 else Inr (sm_metadata stored))))"

definition validate_recovered_generation ::
  "authority_journal_metadata \<Rightarrow> operation_journal_recovery \<Rightarrow> unit agent_result" where
  "validate_recovered_generation metadata recovery =
     (case rv_compacted_from recovery of
        None \<Rightarrow>
          if md_generation metadata = 1 then Inr ()
          else Inl (RecoveryRequired
                 (lit ''authority journal generation is missing its Compacted baseline''))
      | Some previous \<Rightarrow>
          if md_generation metadata = 1
          then Inl (RecoveryRequired
                 (lit ''generation-1 authority WAL unexpectedly starts with a Compacted baseline''))
          else if mk_journal_id previous \<noteq> md_journal_id metadata
                  \<or> checked_add_u64 (mk_generation previous) 1 \<noteq> Some (md_generation metadata)
          then Inl (RecoveryRequired
                 (lit ''compacted authority WAL lineage does not match metadata''))
          else Inr ())"

section \<open>The writer\<close>

record operation_writer_state =
  ow_next_seq :: nat
  ow_recovery :: operation_journal_recovery
  ow_indexes :: operation_indexes
  ow_metadata :: authority_journal_metadata
  ow_failed :: "rust_str option"

definition authority_checkpoint_marker_of ::
  "journal_codec \<Rightarrow> authority_journal_metadata \<Rightarrow> operation_journal_recovery
     \<Rightarrow> authority_checkpoint_marker agent_result" where
  "authority_checkpoint_marker_of C metadata recovery =
     result_bind (ok_or (Storage (lit ''serialize authority state digest''))
        (jc_truth_to_vec C (rv_last_seq recovery) (rv_authority_epoch recovery)
           (sort_operations (rv_operations recovery))))
      (\<lambda>bytes. Inr \<lparr>mk_journal_id = md_journal_id metadata,
                    mk_generation = md_generation metadata,
                    mk_authority_epoch = rv_authority_epoch recovery,
                    mk_last_seq = rv_last_seq recovery,
                    mk_state_digest = jc_sha256 C bytes\<rparr>)"

definition ensure_operation_writer_healthy :: "operation_writer_state \<Rightarrow> unit agent_result" where
  "ensure_operation_writer_healthy w =
     (case ow_failed w of Some e \<Rightarrow> Inl (Storage e) | None \<Rightarrow> Inr ())"

definition fence_operation_writer ::
  "operation_writer_state \<Rightarrow> agent_error \<Rightarrow> operation_writer_state \<times> agent_error" where
  "fence_operation_writer w e =
     (let message = lit ''operation journal failed permanently: '' @ error_display e
      in (w\<lparr>ow_failed := Some message\<rparr>, Storage message))"

definition authority_marker_mismatch ::
  "journal_codec \<Rightarrow> operation_writer_state \<Rightarrow> agent_error" where
  "authority_marker_mismatch C w =
     (case authority_checkpoint_marker_of C (ow_metadata w) (ow_recovery w) of
        Inl e \<Rightarrow> e
      | Inr _ \<Rightarrow> RecoveryRequired
          (lit ''authority checkpoint marker is not a verified ancestor of current durable authority''))"

section \<open>The journal: compaction, append, markers, open\<close>

text \<open>
  The writer's file handle is the WAL of the generation its metadata names; \<open>journal_bytes\<close> reads what
  is behind it. A removed file reads as empty.
\<close>

record file_operation_journal =
  fj_base :: rust_str
  fj_disk :: journal_disk
  fj_writer :: operation_writer_state

definition read_file :: "journal_disk \<Rightarrow> rust_str \<Rightarrow> byte list" where
  "read_file disk name = (case map_of (jd_files disk) name of Some bytes \<Rightarrow> bytes | None \<Rightarrow> [])"

definition write_file :: "journal_disk \<Rightarrow> rust_str \<Rightarrow> byte list \<Rightarrow> journal_disk" where
  "write_file disk name bytes = disk\<lparr>jd_files := AList.update name bytes (jd_files disk)\<rparr>"

definition remove_file :: "journal_disk \<Rightarrow> rust_str \<Rightarrow> journal_disk" where
  "remove_file disk name = disk\<lparr>jd_files := AList.delete name (jd_files disk)\<rparr>"

abbreviation journal_wal :: "file_operation_journal \<Rightarrow> rust_str" where
  "journal_wal J \<equiv> authority_wal_path (fj_base J) (md_generation (ow_metadata (fj_writer J)))"

definition journal_bytes :: "file_operation_journal \<Rightarrow> byte list" where
  "journal_bytes J = read_file (fj_disk J) (journal_wal J)"

definition compaction_records ::
  "authority_checkpoint_marker \<Rightarrow> operation_snapshot list \<Rightarrow> operation_journal_record list" where
  "compaction_records previous operations =
     \<lparr>jr_version = OPERATION_JOURNAL_VERSION, jr_seq = 1, jr_transition = Compacted previous\<rparr>
     # map (\<lambda>(index, snapshot). \<lparr>jr_version = OPERATION_JOURNAL_VERSION, jr_seq = index + 2,
                                jr_transition = OperationUpsert snapshot\<rparr>)
           (zip [0..<length operations] operations)"

fun encode_operation_frames ::
  "journal_codec \<Rightarrow> operation_journal_record list \<Rightarrow> byte list agent_result" where
  "encode_operation_frames C [] = Inr []"
| "encode_operation_frames C (r # rs) =
     result_bind (serialize_frame (lit ''compacted operation'') C r) (\<lambda>encoded.
       if MAX_OPERATION_JOURNAL_FRAME_BYTES < length encoded
       then Inl (Storage (lit ''operation journal frame exceeds ''
              @ dec MAX_OPERATION_JOURNAL_FRAME_BYTES @ lit '' bytes''))
       else result_bind (encode_operation_frames C rs) (\<lambda>rest. Inr (encoded @ [10] @ rest)))"

definition write_operation_records ::
  "journal_codec \<Rightarrow> nat option \<Rightarrow> operation_journal_record list \<Rightarrow> byte list \<times> unit agent_result" where
  "write_operation_records C fault records =
     (case encode_operation_frames C records of
        Inl e \<Rightarrow> ([], Inl e)
      | Inr encoded_all \<Rightarrow>
          if MAX_OPERATION_JOURNAL_FILE_BYTES < length encoded_all
          then ([], Inl (RecoveryRequired (lit ''compacted operation journal exceeds its ''
                  @ dec MAX_OPERATION_JOURNAL_FILE_BYTES @ lit '' byte hard limit'')))
          else (case fault of
                  None \<Rightarrow> (encoded_all, Inr ())
                | Some n \<Rightarrow> (take n encoded_all,
                             Inl (Storage (lit ''persist compacted operation journal'')))))"

definition push_ancestor ::
  "authority_checkpoint_marker list \<Rightarrow> authority_checkpoint_marker
     \<Rightarrow> authority_checkpoint_marker list" where
  "push_ancestor ancestors previous =
     (let extended = ancestors @ [previous] in
      if MAX_AUTHORITY_JOURNAL_ANCESTORS < length extended
      then drop (length extended - MAX_AUTHORITY_JOURNAL_ANCESTORS) extended
      else extended)"

text \<open>
  Opening the candidate file of the next generation: refused before it touched the path, failed with an
  empty candidate left behind (created or reset, then not locked or not positioned), or ready.
\<close>

datatype candidate_outcome = CandidateReady | CandidateRefused | CandidateLeftEmpty

record compact_env =
  ce_candidate :: candidate_outcome
  ce_write_fault :: "nat option"
  ce_seek_ok :: bool
  ce_publish :: publish_outcome
  ce_remove_ok :: bool

definition publish_compaction ::
  "journal_codec \<Rightarrow> compact_env \<Rightarrow> file_operation_journal \<Rightarrow> nat
     \<Rightarrow> authority_checkpoint_marker \<Rightarrow> operation_snapshot list \<Rightarrow> nat
     \<Rightarrow> file_operation_journal \<times> authority_checkpoint_marker agent_result" where
  "publish_compaction C env J next_generation previous operations last_seq =
     (let w = fj_writer J;
          new_metadata = \<lparr>md_version = AUTHORITY_JOURNAL_METADATA_VERSION,
             md_journal_id = md_journal_id (ow_metadata w), md_generation = next_generation,
             md_ancestors = push_ancestor (md_ancestors (ow_metadata w)) previous\<rparr>;
          recovery = (ow_recovery w)\<lparr>rv_last_seq := last_seq, rv_compacted_from := Some previous,
                                    rv_operations := operations\<rparr>
      in if \<not> ce_seek_ok env
         then (J, Inl (Storage (lit ''seek compacted operation journal'')))
         else (case checked_add_u64 last_seq 1 of
            None \<Rightarrow> (J, Inl (RecoveryRequired (lit ''operation journal sequence exhausted'')))
          | Some next_seq \<Rightarrow>
              (case persist_authority_metadata C (ce_publish env) (fj_disk J) new_metadata of
                 (disk, Inl e) \<Rightarrow>
                   (J\<lparr>fj_disk := disk,
                      fj_writer := (case e of
                         RecoveryRequired _ \<Rightarrow> w\<lparr>ow_failed := Some (error_display e)\<rparr>
                       | _ \<Rightarrow> w)\<rparr>, Inl e)
               | (disk, Inr ()) \<Rightarrow>
                   (let w' = w\<lparr>ow_next_seq := next_seq, ow_recovery := recovery,
                              ow_indexes := build_indexes operations,
                              ow_metadata := new_metadata\<rparr>
                    in (J\<lparr>fj_disk := (if ce_remove_ok env then remove_file disk (journal_wal J)
                                      else disk),
                          fj_writer := w'\<rparr>,
                        authority_checkpoint_marker_of C new_metadata recovery)))))"

definition compact_locked ::
  "journal_codec \<Rightarrow> compact_env \<Rightarrow> file_operation_journal
     \<Rightarrow> file_operation_journal \<times> authority_checkpoint_marker agent_result" where
  "compact_locked C env J =
     (let w = fj_writer J in
      case ensure_operation_writer_healthy w of Inl e \<Rightarrow> (J, Inl e) | Inr () \<Rightarrow>
      if rv_last_seq (ow_recovery w) = 0
      then (J, authority_checkpoint_marker_of C (ow_metadata w) (ow_recovery w))
      else (case authority_checkpoint_marker_of C (ow_metadata w) (ow_recovery w) of
         Inl e \<Rightarrow> (J, Inl e)
       | Inr previous \<Rightarrow>
         (case checked_add_u64 (md_generation (ow_metadata w)) 1 of
            None \<Rightarrow> (J, Inl (RecoveryRequired (lit ''authority journal generation exhausted'')))
          | Some next_generation \<Rightarrow>
            (let operations = sort_operations (rv_operations (ow_recovery w));
                 records = compaction_records previous operations;
                 new_path = authority_wal_path (fj_base J) next_generation
             in if MAX_OPERATION_JOURNAL_RECOVERY_RECORDS < length records
                then (J, Inl (RecoveryRequired
                       (lit ''compaction would exceed the record recovery limit'')))
                else if ce_candidate env = CandidateRefused
                then (J, Inl (Storage (lit ''open compacted operation journal candidate'')))
                else if ce_candidate env = CandidateLeftEmpty
                then (J\<lparr>fj_disk := write_file (fj_disk J) new_path []\<rparr>,
                      Inl (Storage (lit ''lock compacted operation journal exclusively'')))
                else (case write_operation_records C (ce_write_fault env) records of
                   (bytes, Inl e) \<Rightarrow> (J\<lparr>fj_disk := write_file (fj_disk J) new_path bytes\<rparr>, Inl e)
                 | (bytes, Inr ()) \<Rightarrow>
                     publish_compaction C env
                       (J\<lparr>fj_disk := write_file (fj_disk J) new_path bytes\<rparr>)
                       next_generation previous operations (length records))))))"

record append_env =
  ae_compact :: compact_env
  ae_io :: append_io
  ae_retry_compact :: compact_env
  ae_retry_io :: append_io

text \<open>
  \<open>stage_and_append\<close> is one attempt: stage the record at the writer's sequence, check it against the
  cached fold, write it. \<open>publish_record\<close> is the in-memory step after a durable write.
\<close>

definition stage_and_append ::
  "journal_codec \<Rightarrow> append_io \<Rightarrow> file_operation_journal \<Rightarrow> operation_journal_transition
     \<Rightarrow> file_operation_journal \<times> (agent_error + append_failure + operation_journal_record)" where
  "stage_and_append C io J t =
     (let w = fj_writer J;
          r = \<lparr>jr_version = OPERATION_JOURNAL_VERSION, jr_seq = ow_next_seq w, jr_transition = t\<rparr>
      in case validate_cached_record (ow_recovery w) (ow_indexes w) r of
           Inl m \<Rightarrow> (J, Inl (RecoveryRequired m))
         | Inr () \<Rightarrow>
           (case checked_add_u64 (ow_next_seq w) 1 of
              None \<Rightarrow> (J, Inl (RecoveryRequired (lit ''operation journal sequence exhausted'')))
            | Some _ \<Rightarrow>
              (case append_operation_record C io (journal_bytes J) r of
                 (file, res) \<Rightarrow>
                   (J\<lparr>fj_disk := write_file (fj_disk J) (journal_wal J) file\<rparr>,
                    Inr (case res of Inl f \<Rightarrow> Inl f | Inr () \<Rightarrow> Inr r)))))"

definition publish_record ::
  "file_operation_journal \<Rightarrow> operation_journal_record \<Rightarrow> file_operation_journal" where
  "publish_record J r =
     (let w = fj_writer J in
      case apply_cached_record (ow_recovery w) (ow_indexes w) r of (recovery, indexes) \<Rightarrow>
        J\<lparr>fj_writer := w\<lparr>ow_recovery := recovery, ow_indexes := indexes,
                          ow_next_seq := ow_next_seq w + 1\<rparr>\<rparr>)"

definition fence_journal ::
  "file_operation_journal \<Rightarrow> agent_error \<Rightarrow> file_operation_journal \<times> 'a agent_result" where
  "fence_journal J e = (case fence_operation_writer (fj_writer J) e of
     (w, e') \<Rightarrow> (J\<lparr>fj_writer := w\<rparr>, Inl e'))"

definition retry_after_compaction ::
  "journal_codec \<Rightarrow> append_env \<Rightarrow> file_operation_journal \<Rightarrow> operation_journal_transition
     \<Rightarrow> file_operation_journal \<times> operation_journal_record agent_result" where
  "retry_after_compaction C env J t =
     (case compact_locked C (ae_retry_compact env) J of
        (J1, Inl e) \<Rightarrow> (J1, Inl e)
      | (J1, Inr _) \<Rightarrow>
          (case stage_and_append C (ae_retry_io env) J1 t of
             (J2, Inl e) \<Rightarrow> (J2, Inl e)
           | (J2, Inr (Inr r)) \<Rightarrow> (publish_record J2 r, Inr r)
           | (J2, Inr (Inl (RejectedBeforeWrite _ e))) \<Rightarrow>
               (J2, Inl (RecoveryRequired
                  (lit ''operation journal still exceeds its byte capacity after compaction: ''
                   @ error_display e)))
           | (J2, Inr (Inl (WriteFailed e))) \<Rightarrow> fence_journal J2 e))"

definition append_at_limit ::
  "journal_codec \<Rightarrow> compact_env \<Rightarrow> file_operation_journal \<Rightarrow> file_operation_journal \<times> unit agent_result"
  where
  "append_at_limit C env J =
     (if MAX_OPERATION_JOURNAL_RECOVERY_RECORDS < ow_next_seq (fj_writer J)
      then (case compact_locked C env J of
              (J1, Inl e) \<Rightarrow> (J1, Inl e)
            | (J1, Inr _) \<Rightarrow>
                if MAX_OPERATION_JOURNAL_RECOVERY_RECORDS < ow_next_seq (fj_writer J1)
                then (J1, Inl (RecoveryRequired (lit ''operation journal reached its ''
                        @ dec MAX_OPERATION_JOURNAL_RECOVERY_RECORDS
                        @ lit '' record recovery limit after compaction'')))
                else (J1, Inr ()))
      else (J, Inr ()))"

definition append_and_sync ::
  "journal_codec \<Rightarrow> append_env \<Rightarrow> file_operation_journal \<Rightarrow> operation_journal_transition
     \<Rightarrow> file_operation_journal \<times> operation_journal_record agent_result" where
  "append_and_sync C env J t =
     (case transition_validate t of Inl m \<Rightarrow> (J, Inl (InvalidRequest m)) | Inr () \<Rightarrow>
      if (case t of Compacted _ \<Rightarrow> True | _ \<Rightarrow> False)
      then (J, Inl (InvalidRequest
             (lit ''Compacted baseline can only be written by journal compaction'')))
      else (case ow_failed (fj_writer J) of Some e \<Rightarrow> (J, Inl (Storage e)) | None \<Rightarrow>
        (case append_at_limit C (ae_compact env) J of
           (J1, Inl e) \<Rightarrow> (J1, Inl e)
         | (J1, Inr ()) \<Rightarrow>
             (case stage_and_append C (ae_io env) J1 t of
                (J2, Inl e) \<Rightarrow> (J2, Inl e)
              | (J2, Inr (Inr r)) \<Rightarrow> (publish_record J2 r, Inr r)
              | (J2, Inr (Inl (RejectedBeforeWrite capacity e))) \<Rightarrow>
                  if capacity then retry_after_compaction C env J2 t else (J2, Inl e)
              | (J2, Inr (Inl (WriteFailed e))) \<Rightarrow> fence_journal J2 e))))"

definition journal_recover ::
  "file_operation_journal \<Rightarrow> operation_journal_recovery agent_result" where
  "journal_recover J = (case ow_failed (fj_writer J) of
     Some e \<Rightarrow> Inl (Storage e) | None \<Rightarrow> Inr (ow_recovery (fj_writer J)))"

definition journal_checkpoint_marker ::
  "journal_codec \<Rightarrow> file_operation_journal \<Rightarrow> authority_checkpoint_marker agent_result" where
  "journal_checkpoint_marker C J =
     result_bind (ensure_operation_writer_healthy (fj_writer J))
       (\<lambda>_. authority_checkpoint_marker_of C (ow_metadata (fj_writer J)) (ow_recovery (fj_writer J)))"

definition journal_validate_marker ::
  "journal_codec \<Rightarrow> file_operation_journal \<Rightarrow> authority_checkpoint_marker \<Rightarrow> unit agent_result" where
  "journal_validate_marker C J expected =
     (let w = fj_writer J in
      result_bind (map_err InvalidRequest (marker_validate expected)) (\<lambda>_.
      result_bind (ensure_operation_writer_healthy w) (\<lambda>_.
      if mk_journal_id expected \<noteq> md_journal_id (ow_metadata w)
      then Inl (authority_marker_mismatch C w)
      else if mk_generation expected \<noteq> md_generation (ow_metadata w)
      then (if expected \<in> set (md_ancestors (ow_metadata w)) then Inr ()
            else Inl (authority_marker_mismatch C w))
      else if rv_last_seq (ow_recovery w) < mk_last_seq expected
              \<or> rv_authority_epoch (ow_recovery w) < mk_authority_epoch expected
      then Inl (authority_marker_mismatch C w)
      else result_bind (recover_operation_prefix C (journal_bytes J) (mk_last_seq expected)) (\<lambda>prefix.
           result_bind (authority_checkpoint_marker_of C (ow_metadata w) prefix) (\<lambda>actual.
           if actual = expected then Inr () else Inl (authority_marker_mismatch C w))))))"

definition journal_compact ::
  "journal_codec \<Rightarrow> compact_env \<Rightarrow> file_operation_journal
     \<Rightarrow> file_operation_journal \<times> authority_checkpoint_marker agent_result" where
  "journal_compact C env J = compact_locked C env J"

record open_env =
  oe_dir_ok :: bool
  oe_lock_ok :: bool
  oe_wal_ok :: bool
  oe_sync_ok :: bool
  oe_repair :: repair_outcome
  oe_publish :: publish_outcome
  oe_fresh_id :: uuid

definition load_or_create_authority_metadata ::
  "journal_codec \<Rightarrow> open_env \<Rightarrow> journal_disk \<Rightarrow> journal_disk \<times> authority_journal_metadata agent_result"
  where
  "load_or_create_authority_metadata C env disk =
     (case jd_metadata disk of
        Some bytes \<Rightarrow> (disk, read_authority_metadata C bytes)
      | None \<Rightarrow>
          (let metadata = \<lparr>md_version = AUTHORITY_JOURNAL_METADATA_VERSION,
                 md_journal_id = oe_fresh_id env, md_generation = AUTHORITY_JOURNAL_GENERATION,
                 md_ancestors = []\<rparr>
           in case persist_authority_metadata C (oe_publish env) disk metadata of
                (disk', Inl e) \<Rightarrow> (disk', Inl e)
              | (disk', Inr ()) \<Rightarrow> (disk', Inr metadata)))"

definition open_recovered ::
  "rust_str \<Rightarrow> journal_disk \<Rightarrow> authority_journal_metadata \<Rightarrow> operation_journal_recovery
     \<Rightarrow> (file_operation_journal \<times> operation_journal_recovery) agent_result" where
  "open_recovered base disk metadata recovery =
     result_bind (validate_recovered_generation metadata recovery) (\<lambda>_.
     result_bind (ok_or (RecoveryRequired (lit ''operation journal sequence exhausted''))
                   (checked_add_u64 (rv_last_seq recovery) 1)) (\<lambda>next_seq.
       Inr (\<lparr>fj_base = base, fj_disk = disk,
              fj_writer = \<lparr>ow_next_seq = next_seq, ow_recovery = recovery,
                ow_indexes = build_indexes (rv_operations recovery), ow_metadata = metadata,
                ow_failed = None\<rparr>\<rparr>, recovery)))"

definition journal_open ::
  "journal_codec \<Rightarrow> open_env \<Rightarrow> rust_str \<Rightarrow> journal_disk
     \<Rightarrow> journal_disk \<times> (file_operation_journal \<times> operation_journal_recovery) agent_result" where
  "journal_open C env base disk =
     (if \<not> oe_dir_ok env
      then (disk, Inl (Storage (lit ''create operation journal directory'')))
      else if \<not> oe_lock_ok env
      then (disk, Inl (Storage (lit ''lock operation journal exclusively'')))
      else (case (case jd_metadata disk of
                    None \<Rightarrow> Inr None
                  | Some bytes \<Rightarrow> result_bind (read_authority_metadata C bytes) (\<lambda>m. Inr (Some m))) of
         Inl e \<Rightarrow> (disk, Inl e)
       | Inr existing \<Rightarrow>
         if existing = None \<and> list_authority_wal_generations base disk \<noteq> []
         then (disk, Inl (RecoveryRequired (lit ''authority journal metadata is missing, but WAL generation(s) still exist; refusing empty initialization'')))
         else
          (let generation = (case existing of Some m \<Rightarrow> md_generation m
                                            | None \<Rightarrow> AUTHORITY_JOURNAL_GENERATION);
               wal = authority_wal_path base generation;
               existed = map_of (jd_files disk) wal \<noteq> None
           in if \<not> existed \<and> existing \<noteq> None
              then (disk, Inl (RecoveryRequired
                     (lit ''authority journal metadata exists but its operation WAL is missing'')))
              else if \<not> oe_wal_ok env
              then (disk, Inl (Storage (lit ''open operation journal'')))
              else
               (let disk1 = (if existed then disk else write_file disk wal []) in
                if \<not> existed \<and> \<not> oe_sync_ok env
                then (disk1, Inl (Storage (lit ''sync new operation journal'')))
                else (case recover_operation_file C (oe_repair env) (read_file disk1 wal) of
                   (file, Inl e) \<Rightarrow> (write_file disk1 wal file, Inl e)
                 | (file, Inr recovery) \<Rightarrow>
                   (let disk2 = write_file disk1 wal file in
                    case (case existing of
                            Some m \<Rightarrow> (disk2, Inr m)
                          | None \<Rightarrow> load_or_create_authority_metadata C env disk2) of
                      (disk3, Inl e) \<Rightarrow> (disk3, Inl e)
                    | (disk3, Inr metadata) \<Rightarrow>
                        (disk3, open_recovered base disk3 metadata recovery)))))))"

end
