(* ===== verification/Journal_Durability.thy ===== *)
theory Journal_Durability
  imports Journal_File
begin

text \<open>
  What a journal directory holds, and the first half of the durability argument. \<open>codec_ok\<close> is the documented behaviour of
  the encoder that the journal relies on; \<open>wal_holds\<close> and \<open>disk_holds\<close> relate the bytes of a directory to a fold and to the
  abstract truth; \<open>journal_ok\<close> is the invariant of an open journal. Reading back what was written gives the same fold, also
  behind a torn tail; opening a directory that holds a truth gives a journal with this truth; one append without
  compaction keeps all of it, whatever write fails.
\<close>


section \<open>What the journal relies on\<close>

definition codec_ok :: "journal_codec \<Rightarrow> bool" where
  "codec_ok C \<longleftrightarrow>
     (\<forall>r. jc_record_to_vec C r \<noteq> None)
   \<and> (\<forall>f. \<exists>b. jc_frame_to_vec C f = Some b \<and> jc_frame_from_slice C b = Some f \<and> 10 \<notin> set b)
   \<and> (\<forall>n e ops. jc_truth_to_vec C n e ops \<noteq> None)
   \<and> (\<forall>m. jc_metadata_to_vec C m \<noteq> None)
   \<and> (\<forall>m. \<exists>b. jc_stored_metadata_to_vec C m = Some b
              \<and> jc_stored_metadata_from_slice C b = Some m \<and> b \<noteq> [])"

section \<open>Reading back one frame\<close>

lemma serialize_frame_Inr [simp]:
  "serialize_frame what C r = Inr b \<longleftrightarrow> encode_operation_frame C r = Inr b"
  by (auto simp: serialize_frame_def encode_operation_frame_def)

lemma codec_ok_frame:
  assumes "codec_ok C"
  obtains b where "jc_frame_to_vec C f = Some b" "jc_frame_from_slice C b = Some f" "10 \<notin> set b"
proof -
  have "\<exists>b. jc_frame_to_vec C f = Some b \<and> jc_frame_from_slice C b = Some f \<and> 10 \<notin> set b"
    using assms by (simp add: codec_ok_def)
  then show ?thesis using that by blast
qed

lemma encode_frame_Inr:
  assumes "codec_ok C"
  obtains b where "encode_operation_frame C r = Inr b" "10 \<notin> set b"
    "decode_operation_frame C b = Inr r"
proof -
  have "\<exists>p. jc_record_to_vec C r = Some p" using assms by (simp add: codec_ok_def)
  then obtain p where p: "jc_record_to_vec C r = Some p" by blast
  obtain b where "jc_frame_to_vec C \<lparr>sf_record = r, sf_checksum = checksum_hex C p\<rparr> = Some b"
    "jc_frame_from_slice C b = Some \<lparr>sf_record = r, sf_checksum = checksum_hex C p\<rparr>" "10 \<notin> set b"
    using codec_ok_frame [OF assms] .
  then show ?thesis
    using p that by (auto simp: encode_operation_frame_def serialize_frame_def decode_operation_frame_def)
qed

lemma read_line:
  assumes "10 \<notin> set b" "length b \<le> MAX_OPERATION_JOURNAL_FRAME_BYTES"
  shows "read_until_newline (b @ [10] @ rest) = (b @ [10], rest)"
proof -
  have "takeWhile (\<lambda>x. x \<noteq> 10) (b @ 10 # rest) = b"
    using assms(1) by (subst takeWhile_append2) auto
  then show ?thesis using assms(2) by (simp add: read_until_newline_def Let_def)
qed

lemma read_torn:
  assumes "10 \<notin> set b" "length b \<le> MAX_OPERATION_JOURNAL_FRAME_BYTES"
  shows "read_until_newline b = (b, [])"
proof -
  have "takeWhile (\<lambda>x. x \<noteq> 10) b = b"
    using assms(1) by (auto simp: takeWhile_eq_all_conv)
  then show ?thesis
    using assms(2) by (simp add: read_until_newline_def Let_def del: takeWhile_eq_all_conv)
qed

lemma recover_loop_frame:
  assumes "10 \<notin> set b" "decode_operation_frame C b = Inr r"
    "length b \<le> MAX_OPERATION_JOURNAL_FRAME_BYTES" "Suc (offset + length b) \<le> u64_max"
  shows "recover_loop C stop sz st offset lg (b @ [10] @ rest) =
     result_bind (recover_step st r) (\<lambda>st'.
       if stop = Some (rv_last_seq (fst st')) then Inr (st', Suc (offset + length b))
       else recover_loop C stop sz st' (Suc (offset + length b)) (Suc (offset + length b)) rest)"
  using assms
  by (subst recover_loop.simps)
     (simp add: read_line [of b rest, simplified] checked_add_u64_def)

lemma recover_loop_Nil [simp]: "recover_loop C stop sz st offset lg [] = Inr (st, lg)"
  by (simp add: recover_loop.simps)

lemma recover_loop_torn:
  assumes "10 \<notin> set b" "b \<noteq> []" "length b \<le> MAX_OPERATION_JOURNAL_FRAME_BYTES"
    "offset + length b = sz" "sz \<le> u64_max"
  shows "recover_loop C stop sz st offset lg b
       = Inr (((fst st)\<lparr>rv_truncated_tail := True\<rparr>, snd st), lg)"
proof -
  have "last b \<noteq> 10" using assms(1,2) last_in_set by metis
  then show ?thesis
    using assms by (subst recover_loop.simps) (simp add: read_torn checked_add_u64_def)
qed

section \<open>Reading back a record sequence\<close>

text \<open>
  \<open>torn_tail\<close>: what a failed write can leave behind the complete frames, a proper prefix of one line.
\<close>

definition torn_tail :: "byte list \<Rightarrow> bool" where
  "torn_tail b \<longleftrightarrow> 10 \<notin> set b \<and> length b \<le> MAX_OPERATION_JOURNAL_FRAME_BYTES"

lemma recover_loop_records:
  assumes "codec_ok C" "encode_operation_frames C rs = Inr bytes"
    "recover_records st rs = Inr st'" "torn_tail tail" "sz = offset + length bytes + length tail"
    "sz \<le> u64_max"
  shows "recover_loop C None sz st offset offset (bytes @ tail) =
     Inr (if tail = [] then st' else ((fst st')\<lparr>rv_truncated_tail := True\<rparr>, snd st'),
          offset + length bytes)"
  using assms
proof (induction rs arbitrary: st offset bytes)
  case Nil
  then show ?case by (auto simp: torn_tail_def recover_loop_torn)
next
  case (Cons r rs)
  obtain b where b: "encode_operation_frame C r = Inr b" "10 \<notin> set b"
    "decode_operation_frame C b = Inr r" using encode_frame_Inr [OF Cons.prems(1)] .
  from Cons.prems(2) b obtain rest where rest: "encode_operation_frames C rs = Inr rest"
    "bytes = b @ [10] @ rest" "length b \<le> MAX_OPERATION_JOURNAL_FRAME_BYTES"
    by (auto split: if_splits)
  from Cons.prems(3) obtain st1 where st1: "recover_step st r = Inr st1"
    "recover_records st1 rs = Inr st'" by auto
  have "recover_loop C None sz st1 (Suc (offset + length b)) (Suc (offset + length b)) (rest @ tail) =
     Inr (if tail = [] then st' else ((fst st')\<lparr>rv_truncated_tail := True\<rparr>, snd st'),
          Suc (offset + length b) + length rest)"
    using Cons.prems rest st1 by (intro Cons.IH) auto
  then show ?case
    using recover_loop_frame [OF b(2,3) rest(3), of offset None sz st offset "rest @ tail"]
      Cons.prems rest st1 by simp
qed

lemma recover_loop_prefix:
  assumes "codec_ok C" "encode_operation_frames C (rs @ rs') = Inr bytes" "rs \<noteq> []"
    "recover_records st rs = Inr st'" "offset + length bytes \<le> u64_max"
  shows "\<exists>lg'. recover_loop C (Some (rv_last_seq (fst st'))) sz st offset lg (bytes @ tail) = Inr (st', lg')"
  using assms
proof (induction rs arbitrary: st offset bytes lg)
  case (Cons r rs)
  obtain b where b: "encode_operation_frame C r = Inr b" "10 \<notin> set b"
    "decode_operation_frame C b = Inr r" using encode_frame_Inr [OF Cons.prems(1)] .
  from Cons.prems(2) b obtain rest where rest: "encode_operation_frames C (rs @ rs') = Inr rest"
    "bytes = b @ [10] @ rest" "length b \<le> MAX_OPERATION_JOURNAL_FRAME_BYTES"
    by (auto split: if_splits)
  from Cons.prems(4) obtain st1 where st1: "recover_step st r = Inr st1"
    "recover_records st1 rs = Inr st'" by auto
  note loop = recover_loop_frame [OF b(2,3) rest(3), of offset "Some (rv_last_seq (fst st'))" sz st lg
      "rest @ tail"]
  note seq = recover_records_last_seq [OF st1(2)]
  show ?case
  proof (cases "rs = []")
    case True
    then show ?thesis using loop rest st1 Cons.prems by auto
  next
    case False
    then have "rv_last_seq (fst st') \<noteq> rv_last_seq (fst st1)" using seq by simp
    then show ?thesis
      using loop rest st1 Cons.prems False
        Cons.IH [OF Cons.prems(1) rest(1) False st1(2), of "Suc (offset + length b)"] by auto
  qed
qed simp

lemma encode_frames_append:
  "encode_operation_frames C (rs @ rs') =
     result_bind (encode_operation_frames C rs) (\<lambda>a. result_bind (encode_operation_frames C rs') (\<lambda>b. Inr (a @ b)))"
  by (induction rs) (auto simp: result_bind_assoc split: if_splits intro!: arg_cong [where f = "result_bind _"])

section \<open>What a directory holds\<close>

definition truth_of :: "operation_journal_recovery \<Rightarrow> authority_truth" where
  "truth_of rv = (rv_authority_epoch rv, set (rv_operations rv))"

definition fold_truth :: "fold_state \<Rightarrow> authority_truth" where
  "fold_truth st = (rv_authority_epoch (fst st), table_values (snd st))"

definition metadata_stored :: "journal_codec \<Rightarrow> journal_disk \<Rightarrow> authority_journal_metadata \<Rightarrow> bool" where
  "metadata_stored C disk m \<longleftrightarrow>
     (\<exists>b. encode_authority_metadata C m = Inr b \<and> jd_metadata disk = Some b)
   \<and> md_version m = AUTHORITY_JOURNAL_METADATA_VERSION \<and> \<not> is_nil (md_journal_id m)
   \<and> md_generation m \<noteq> 0"

definition wal_holds :: "journal_codec \<Rightarrow> byte list \<Rightarrow> byte list \<Rightarrow> fold_state \<Rightarrow> bool" where
  "wal_holds C wal tail st \<longleftrightarrow> (\<exists>rs bytes.
     encode_operation_frames C rs = Inr bytes \<and> wal = bytes @ tail \<and> torn_tail tail
   \<and> recover_records (recovery_default, []) rs = Inr st
   \<and> length wal \<le> MAX_OPERATION_JOURNAL_FILE_BYTES)"

definition disk_holds :: "journal_codec \<Rightarrow> rust_str \<Rightarrow> journal_disk \<Rightarrow> authority_truth \<Rightarrow> bool" where
  "disk_holds C base disk T \<longleftrightarrow> (\<exists>m st tail wal.
     metadata_stored C disk m
   \<and> map_of (jd_files disk) (authority_wal_path base (md_generation m)) = Some wal
   \<and> wal_holds C wal tail st
   \<and> validate_recovered_generation m (fst st) = Inr () \<and> fold_truth st = T)"

definition writer_wf :: "journal_codec \<Rightarrow> file_operation_journal \<Rightarrow> bool" where
  "writer_wf C J \<longleftrightarrow> (let w = fj_writer J; c = ow_recovery w in
     indexes_ok (rv_operations c) (ow_indexes w)
   \<and> (\<forall>s \<in> set (rv_operations c). snapshot_validate s = Inr ())
   \<and> 0 < rv_authority_epoch c
   \<and> ow_next_seq w = Suc (rv_last_seq c)
   \<and> validate_recovered_generation (ow_metadata w) c = Inr ()
   \<and> metadata_stored C (fj_disk J) (ow_metadata w))"

definition journal_ok :: "journal_codec \<Rightarrow> file_operation_journal \<Rightarrow> bool" where
  "journal_ok C J \<longleftrightarrow> writer_wf C J
   \<and> (rv_last_seq (ow_recovery (fj_writer J)) \<le> MAX_OPERATION_JOURNAL_RECOVERY_RECORDS \<longrightarrow>
      (\<exists>st. map_of (jd_files (fj_disk J)) (journal_wal J) = Some (journal_bytes J)
          \<and> wal_holds C (journal_bytes J) [] st
          \<and> cached_refines (ow_recovery (fj_writer J)) (ow_indexes (fj_writer J)) st))"

abbreviation journal_truth :: "file_operation_journal \<Rightarrow> authority_truth" where
  "journal_truth J \<equiv> truth_of (ow_recovery (fj_writer J))"

definition open_env_ok :: "open_env \<Rightarrow> bool" where
  "open_env_ok env \<longleftrightarrow> oe_dir_ok env \<and> oe_lock_ok env \<and> oe_wal_ok env \<and> oe_sync_ok env
     \<and> oe_repair env = RepairOk \<and> oe_publish env = PublishOk \<and> \<not> is_nil (oe_fresh_id env)"

section \<open>Well-formed folds\<close>

definition fold_wf :: "fold_state \<Rightarrow> bool" where
  "fold_wf st \<longleftrightarrow> table_wf (snd st) \<and> (\<forall>s \<in> table_values (snd st). snapshot_validate s = Inr ())
     \<and> 0 < rv_authority_epoch (fst st)
     \<and> rv_last_seq (fst st) \<le> MAX_OPERATION_JOURNAL_RECOVERY_RECORDS"

lemma fold_wf_default [simp]: "fold_wf (recovery_default, [])"
  by (simp add: fold_wf_def recovery_default_def table_values_def)

lemma recover_step_wf:
  assumes "recover_step st r = Inr st'" "fold_wf st"
  shows "fold_wf st'"
proof (cases "jr_transition r")
  case (OperationUpsert s)
  then have "snapshot_validate s = Inr ()"
    using assms by (auto simp: recover_step_def record_validate_def split: if_splits)
  then show ?thesis
    using assms OperationUpsert table_wf_update [of "snd st" s] table_values_update [of "snd st" s]
    by (auto simp: recover_step_def fold_operation_record_def fold_wf_def Let_def
        split: if_splits prod.splits option.splits)
qed (use assms in \<open>auto simp: recover_step_def fold_operation_record_def fold_wf_def Let_def
      record_validate_def marker_validate_def split: if_splits prod.splits\<close>)

lemma recover_records_wf:
  "recover_records st rs = Inr st' \<Longrightarrow> fold_wf st \<Longrightarrow> fold_wf st'"
  by (induction rs arbitrary: st) (auto dest: recover_step_wf)

lemma wal_holds_wf: "wal_holds C wal tail st \<Longrightarrow> fold_wf st"
  by (auto simp: wal_holds_def dest: recover_records_wf)

lemma fold_wf_refines:
  assumes "fold_wf st"
  shows "cached_refines (finish_recovery st) (build_indexes (rv_operations (finish_recovery st))) st"
proof -
  have keys: "map (snap_id \<circ> snd) (snd st) = map fst (snd st)"
    using assms by (auto simp: fold_wf_def table_wf_def)
  have "mset (map snap_id (sort_key snap_id (map snd (snd st)))) = mset (map (snap_id \<circ> snd) (snd st))"
    by (simp add: image_mset.compositionality comp_def)
  then have "distinct (map snap_id (sort_key snap_id (map snd (snd st))))
      \<longleftrightarrow> distinct (map (snap_id \<circ> snd) (snd st))"
    by (rule mset_eq_imp_distinct_iff)
  then have "distinct (map snap_id (rv_operations (finish_recovery st)))"
    using assms keys by (simp add: finish_recovery_def sort_operations_def fold_wf_def table_wf_def)
  then show ?thesis
    using assms build_indexes_ok
    by (auto simp: cached_refines_def fold_wf_def finish_recovery_def sort_operations_def
        table_values_def)
qed

lemma cached_refines_truth: "cached_refines c ix st \<Longrightarrow> truth_of c = fold_truth st"
  by (simp add: cached_refines_def truth_of_def fold_truth_def)

section \<open>Opening a directory\<close>

lemma metadata_read:
  assumes "codec_ok C" "metadata_stored C disk m"
  obtains b where "jd_metadata disk = Some b" "read_authority_metadata C b = Inr m"
proof -
  obtain b p where b: "jc_metadata_to_vec C m = Some p"
    "jc_stored_metadata_to_vec C \<lparr>sm_metadata = m, sm_checksum = checksum_hex C p\<rparr> = Some b"
    "length b \<le> MAX_AUTHORITY_JOURNAL_METADATA_BYTES" "jd_metadata disk = Some b"
    using assms(2) by (auto simp: metadata_stored_def encode_authority_metadata_def split: if_splits)
  have "\<exists>b. jc_stored_metadata_to_vec C \<lparr>sm_metadata = m, sm_checksum = checksum_hex C p\<rparr> = Some b
      \<and> jc_stored_metadata_from_slice C b = Some \<lparr>sm_metadata = m, sm_checksum = checksum_hex C p\<rparr>
      \<and> b \<noteq> []"
    using assms(1) by (simp add: codec_ok_def)
  then have "read_authority_metadata C b = Inr m"
    using b assms(2) by (auto simp: read_authority_metadata_def metadata_stored_def)
  then show ?thesis using that b by blast
qed

definition mark_torn :: "byte list \<Rightarrow> fold_state \<Rightarrow> fold_state" where
  "mark_torn tail st = (if tail = [] then st else ((fst st)\<lparr>rv_truncated_tail := True\<rparr>, snd st))"

lemma mark_torn_simps [simp]:
  "snd (mark_torn tail st) = snd st" "fold_truth (mark_torn tail st) = fold_truth st"
  "rv_compacted_from (fst (mark_torn tail st)) = rv_compacted_from (fst st)"
  "rv_last_seq (fst (mark_torn tail st)) = rv_last_seq (fst st)"
  "fold_wf (mark_torn tail st) = fold_wf st"
  "cached_refines c ix (mark_torn tail st) = cached_refines c ix st"
  by (simp_all add: mark_torn_def fold_truth_def fold_wf_def cached_refines_def)

lemma recover_step_torn:
  "recover_step st r = Inr st' \<Longrightarrow> rv_truncated_tail (fst st') \<longleftrightarrow> rv_truncated_tail (fst st)"
  by (auto simp: recover_step_def fold_operation_record_def Let_def
      split: if_splits prod.splits option.splits operation_journal_transition.splits)

lemma recover_records_torn:
  "recover_records st rs = Inr st' \<Longrightarrow> rv_truncated_tail (fst st') \<longleftrightarrow> rv_truncated_tail (fst st)"
  by (induction rs arbitrary: st) (auto dest: recover_step_torn)

lemma recover_wal_file:
  assumes "codec_ok C" "wal_holds C wal tail st"
  shows "recover_operation_file C RepairOk wal
      = (take (length wal - length tail) wal, Inr (finish_recovery (mark_torn tail st)))"
proof -
  obtain rs bytes where w: "encode_operation_frames C rs = Inr bytes" "wal = bytes @ tail"
    "torn_tail tail" "recover_records (recovery_default, []) rs = Inr st"
    "length wal \<le> MAX_OPERATION_JOURNAL_FILE_BYTES"
    using assms(2) by (auto simp: wal_holds_def)
  have "length wal \<le> u64_max"
    using w(5) by (simp add: MAX_OPERATION_JOURNAL_FILE_BYTES_def u64_max_def)
  then have loop: "recover_loop C None (length wal) (recovery_default, []) 0 0 wal
      = Inr (mark_torn tail st, length bytes)"
    using recover_loop_records [OF assms(1) w(1,4,3), of "length wal" 0] w(2)
    by (simp add: mark_torn_def)
  have "\<not> rv_truncated_tail (fst st)"
    using recover_records_torn [OF w(4)] by (simp add: recovery_default_def)
  then show ?thesis
    using loop w(2,5)
    by (auto simp: recover_operation_file_def recover_operation_file_until_def mark_torn_def)
qed

lemma wal_holds_repaired:
  "wal_holds C wal tail st \<Longrightarrow> wal_holds C (take (length wal - length tail) wal) [] st"
  by (auto simp: wal_holds_def torn_tail_def)

lemma validate_generation_cong:
  "rv_compacted_from c = rv_compacted_from c' \<Longrightarrow>
   validate_recovered_generation m c = validate_recovered_generation m c'"
  by (simp add: validate_recovered_generation_def)

lemma read_write_file [simp]:
  "read_file (write_file disk name bytes) name = bytes"
  "map_of (jd_files (write_file disk name bytes)) = (map_of (jd_files disk))(name \<mapsto> bytes)"
  "jd_metadata (write_file disk name bytes) = jd_metadata disk"
  "map_of (jd_files (remove_file disk name)) = (map_of (jd_files disk))(name := None)"
  "jd_metadata (remove_file disk name) = jd_metadata disk"
  by (simp_all add: read_file_def write_file_def remove_file_def)

lemma metadata_stored_cong:
  "jd_metadata disk = jd_metadata disk' \<Longrightarrow> metadata_stored C disk m = metadata_stored C disk' m"
  by (simp add: metadata_stored_def)

lemma open_recovered_ok:
  assumes "wal_holds C wal [] st" "metadata_stored C disk m"
    "validate_recovered_generation m (fst st) = Inr ()"
    "map_of (jd_files disk) (authority_wal_path base (md_generation m)) = Some wal"
  shows "\<exists>J. open_recovered base disk m (finish_recovery (mark_torn tail st))
            = Inr (J, finish_recovery (mark_torn tail st))
        \<and> journal_ok C J \<and> journal_truth J = fold_truth st \<and> fj_disk J = disk \<and> fj_base J = base
        \<and> ow_failed (fj_writer J) = None
        \<and> ow_recovery (fj_writer J) = finish_recovery (mark_torn tail st)
        \<and> ow_metadata (fj_writer J) = m"
proof -
  let ?rv = "finish_recovery (mark_torn tail st)"
  have ref: "cached_refines ?rv (build_indexes (rv_operations ?rv)) st"
    using fold_wf_refines [of "mark_torn tail st"] wal_holds_wf [OF assms(1)] by simp
  note r = ref [unfolded cached_refines_def]
  have gen: "validate_recovered_generation m ?rv = Inr ()"
    using assms(3) r by (metis validate_generation_cong)
  have "rv_last_seq ?rv \<le> MAX_OPERATION_JOURNAL_RECOVERY_RECORDS"
    using r wal_holds_wf [OF assms(1)] by (simp add: fold_wf_def)
  then have seq: "checked_add_u64 (rv_last_seq ?rv) 1 = Some (Suc (rv_last_seq ?rv))"
    by (simp add: MAX_OPERATION_JOURNAL_RECOVERY_RECORDS_def u64_max_def)
  show ?thesis
    using gen seq ref r assms cached_refines_truth [OF ref]
    by (simp add: open_recovered_def journal_ok_def writer_wf_def journal_bytes_def read_file_def
        del: split_paired_Ex) blast
qed

lemma journal_open_wal:
  assumes "codec_ok C" "open_env_ok env" "metadata_stored C disk m"
    "map_of (jd_files disk) (authority_wal_path base (md_generation m)) = Some wal"
    "wal_holds C wal tail st" "validate_recovered_generation m (fst st) = Inr ()"
  shows "\<exists>disk' J. journal_open C env base disk = (disk', Inr (J, finish_recovery (mark_torn tail st)))
           \<and> journal_ok C J \<and> journal_truth J = fold_truth st \<and> fj_disk J = disk' \<and> fj_base J = base
           \<and> ow_failed (fj_writer J) = None
           \<and> ow_recovery (fj_writer J) = finish_recovery (mark_torn tail st)
           \<and> read_file disk' (authority_wal_path base (md_generation m)) = take (length wal - length tail) wal"
proof -
  obtain b where b: "jd_metadata disk = Some b" "read_authority_metadata C b = Inr m"
    using metadata_read [OF assms(1,3)] .
  let ?path = "authority_wal_path base (md_generation m)"
  let ?disk = "write_file disk ?path (take (length wal - length tail) wal)"
  have "metadata_stored C ?disk m" using assms(3) by (simp add: metadata_stored_def)
  moreover have "map_of (jd_files ?disk) ?path = Some (take (length wal - length tail) wal)" by simp
  ultimately have "\<exists>J. open_recovered base ?disk m (finish_recovery (mark_torn tail st))
            = Inr (J, finish_recovery (mark_torn tail st))
        \<and> journal_ok C J \<and> journal_truth J = fold_truth st \<and> fj_disk J = ?disk \<and> fj_base J = base
        \<and> ow_failed (fj_writer J) = None
        \<and> ow_recovery (fj_writer J) = finish_recovery (mark_torn tail st)
        \<and> ow_metadata (fj_writer J) = m"
    by (rule open_recovered_ok [OF wal_holds_repaired [OF assms(5)] _ assms(6)])
  then obtain J where J: "open_recovered base ?disk m (finish_recovery (mark_torn tail st))
            = Inr (J, finish_recovery (mark_torn tail st))"
        "journal_ok C J" "journal_truth J = fold_truth st" "fj_disk J = ?disk" "fj_base J = base"
        "ow_failed (fj_writer J) = None"
        "ow_recovery (fj_writer J) = finish_recovery (mark_torn tail st)" by blast
  have "journal_open C env base disk = (?disk, Inr (J, finish_recovery (mark_torn tail st)))"
    using assms(2,4) b J(1) recover_wal_file [OF assms(1,5)]
    by (simp add: journal_open_def open_env_ok_def Let_def read_file_def)
  then show ?thesis using J by (intro exI [of _ ?disk] exI [of _ J]) simp
qed

lemma journal_open_holds:
  assumes "codec_ok C" "open_env_ok env" "disk_holds C base disk T"
  shows "\<exists>disk' J rv. journal_open C env base disk = (disk', Inr (J, rv)) \<and> journal_ok C J
           \<and> truth_of rv = T \<and> ow_recovery (fj_writer J) = rv \<and> fj_disk J = disk' \<and> fj_base J = base
           \<and> ow_failed (fj_writer J) = None"
proof -
  obtain m st tail wal where h: "metadata_stored C disk m"
    "map_of (jd_files disk) (authority_wal_path base (md_generation m)) = Some wal"
    "wal_holds C wal tail st" "validate_recovered_generation m (fst st) = Inr ()" "fold_truth st = T"
    using assms(3) by (auto simp: disk_holds_def)
  obtain disk' J where J: "journal_open C env base disk = (disk', Inr (J, finish_recovery (mark_torn tail st)))"
    "journal_ok C J" "journal_truth J = fold_truth st" "fj_disk J = disk'" "fj_base J = base"
    "ow_failed (fj_writer J) = None" "ow_recovery (fj_writer J) = finish_recovery (mark_torn tail st)"
    using journal_open_wal [OF assms(1,2) h(1-4)] by blast
  then show ?thesis
    using h(5) by (intro exI [of _ disk'] exI [of _ J] exI [of _ "finish_recovery (mark_torn tail st)"]) simp
qed

section \<open>One append\<close>

lemma append_record_cases:
  assumes "codec_ok C" "append_operation_record C io wal r = (wal', res)"
  obtains (rejected) cap e where "res = Inl (RejectedBeforeWrite cap e)" "wal' = wal"
  | (written) b where "res = Inr ()" "wal' = wal @ b @ [10]"
      "encode_operation_frames C [r] = Inr (b @ [10])"
      "length wal' \<le> MAX_OPERATION_JOURNAL_FILE_BYTES"
  | (failed) b n e where "res = Inl (WriteFailed e)" "wal' = wal @ take n (b @ [10])" "10 \<notin> set b"
      "length b \<le> MAX_OPERATION_JOURNAL_FRAME_BYTES"
      "encode_operation_frames C [r] = Inr (b @ [10])"
      "length wal' \<le> MAX_OPERATION_JOURNAL_FILE_BYTES"
proof -
  obtain b where b: "encode_operation_frame C r = Inr b" "10 \<notin> set b"
    using encode_frame_Inr [OF assms(1)] .
  show ?thesis
  proof (cases "MAX_OPERATION_JOURNAL_FRAME_BYTES < length b \<or> \<not> io_stat_ok io
      \<or> u64_max < length wal + (length b + 1)
      \<or> MAX_OPERATION_JOURNAL_FILE_BYTES < length wal + (length b + 1)")
    case True
    then show ?thesis
      using assms(2) b rejected
      by (auto simp: append_operation_record_def checked_add_u64_def split: if_splits)
  next
    case False
    then have c: "\<not> MAX_OPERATION_JOURNAL_FRAME_BYTES < length b" "io_stat_ok io"
      "checked_add_u64 (length wal) (length b + 1) = Some (length wal + (length b + 1))"
      "\<not> MAX_OPERATION_JOURNAL_FILE_BYTES < length wal + (length b + 1)"
      by (simp_all add: checked_add_u64_def)
    have eq: "append_operation_record C io wal r =
        (case persist_operation_frame (io_write_fault io) wal b of
           (file', Inr ()) \<Rightarrow> (file', Inr ()) | (file', Inl e) \<Rightarrow> (file', Inl (WriteFailed e)))"
      unfolding append_operation_record_def b(1) c(3) by (simp only: c sum.case option.case if_False not_True_eq_False)
    show ?thesis
    proof (cases "io_write_fault io")
      case None
      then have "res = Inr ()" "wal' = wal @ b @ [10]"
        using assms(2) unfolding eq by (simp_all add: persist_operation_frame_def)
      then show ?thesis using b c by (intro written [of b]) simp_all
    next
      case (Some n)
      then have "res = Inl (WriteFailed (Storage (lit ''persist operation journal'')))"
        "wal' = wal @ take n (b @ [10])"
        using assms(2) unfolding eq by (simp_all add: persist_operation_frame_def)
      then show ?thesis using b c by (intro failed [of _ n b]) simp_all
    qed
  qed
qed

lemma wal_holds_append:
  assumes "wal_holds C wal [] st" "encode_operation_frames C [r] = Inr line"
    "recover_step st r = Inr st'" "length (wal @ line) \<le> MAX_OPERATION_JOURNAL_FILE_BYTES"
  shows "wal_holds C (wal @ line) [] st'"
proof -
  obtain rs where "encode_operation_frames C rs = Inr wal" "recover_records (recovery_default, []) rs = Inr st"
    using assms(1) by (auto simp: wal_holds_def)
  then have "encode_operation_frames C (rs @ [r]) = Inr (wal @ line)"
    "recover_records (recovery_default, []) (rs @ [r]) = Inr st'"
    using assms(2,3) recover_records_snoc [of _ rs st r]
    by (simp_all only: encode_frames_append result_bind.simps)
  then show ?thesis using assms(4) unfolding wal_holds_def torn_tail_def by fastforce
qed

lemma wal_holds_torn:
  "wal_holds C wal [] st \<Longrightarrow> torn_tail tail \<Longrightarrow>
   length (wal @ tail) \<le> MAX_OPERATION_JOURNAL_FILE_BYTES \<Longrightarrow> wal_holds C (wal @ tail) tail st"
  by (auto simp: wal_holds_def)

lemma take_line:
  "take n (b @ [10]) = (if n \<le> length b then take n b else b @ [10])"
  by (simp add: not_less_eq_eq)

lemma apply_cached_record_simps [simp]:
  "rv_last_seq (fst (apply_cached_record c ix r)) = jr_seq r"
  by (simp add: apply_cached_record_def Let_def split: prod.splits)

lemma apply_cached_truth:
  assumes "indexes_ok (rv_operations c) ix"
  shows "truth_of (fst (apply_cached_record c ix r)) =
     (case jr_transition r of Compacted m \<Rightarrow> (mk_authority_epoch m, set (rv_operations c))
      | t \<Rightarrow> apply_truth (truth_of c) t)"
proof (cases "jr_transition r")
  case (OperationUpsert s)
  show ?thesis
  proof (cases "ix (snap_id s)")
    case None
    then have "\<forall>s' \<in> set (rv_operations c). snap_id s' \<noteq> snap_id s"
      using indexes_None [OF assms] by (metis imageI)
    then show ?thesis
      using None OperationUpsert by (auto simp: apply_cached_record_def Let_def truth_of_def)
  next
    case (Some i)
    then show ?thesis
      using OperationUpsert indexes_ok_replace(2) [OF assms Some]
      by (simp add: apply_cached_record_def Let_def truth_of_def)
  qed
qed (simp_all add: apply_cached_record_def Let_def truth_of_def)

definition fold_of :: "operation_journal_recovery \<Rightarrow> fold_state" where
  "fold_of c = (c, map (\<lambda>s. (snap_id s, s)) (rv_operations c))"

lemma writer_wf_refines:
  assumes "writer_wf C J"
  shows "cached_refines (ow_recovery (fj_writer J)) (ow_indexes (fj_writer J))
           (fold_of (ow_recovery (fj_writer J)))"
  using assms
  by (auto simp: writer_wf_def cached_refines_def fold_of_def table_wf_def table_values_def
      indexes_ok_def Let_def comp_def image_image)

lemma writer_wf_publish:
  assumes "writer_wf C J" "validate_cached_record (ow_recovery (fj_writer J)) (ow_indexes (fj_writer J)) r = Inr ()"
    "record_validate r = Inr ()" "jr_seq r = ow_next_seq (fj_writer J)"
  shows "writer_wf C (publish_record J r)"
    and "journal_truth (publish_record J r) = apply_truth (journal_truth J) (jr_transition r)"
proof -
  let ?w = "fj_writer J"
  let ?c = "fst (apply_cached_record (ow_recovery ?w) (ow_indexes ?w) r)"
  have comp: "rv_compacted_from ?c = rv_compacted_from (ow_recovery ?w)"
    using assms(2) by (auto simp: validate_cached_record_def apply_cached_record_def Let_def
        split: operation_journal_transition.splits if_splits option.splits)
  obtain st where "cached_refines ?c (snd (apply_cached_record (ow_recovery ?w) (ow_indexes ?w) r)) st"
    using cached_fold_refines [OF writer_wf_refines [OF assms(1)] assms(3,2)] by blast
  then show "writer_wf C (publish_record J r)"
    using assms(1,4) validate_generation_cong [OF comp]
    by (simp add: writer_wf_def publish_record_def Let_def cached_refines_def case_prod_beta)
  have "\<forall>m. jr_transition r \<noteq> Compacted m"
    using assms(2) by (auto simp: validate_cached_record_def split: if_splits)
  then show "journal_truth (publish_record J r) = apply_truth (journal_truth J) (jr_transition r)"
    using apply_cached_truth [of "ow_recovery ?w" "ow_indexes ?w" r] assms(1)
    by (simp add: writer_wf_def publish_record_def Let_def case_prod_beta
        split: operation_journal_transition.splits)
qed

abbreviation last_seq_of :: "file_operation_journal \<Rightarrow> nat" where
  "last_seq_of J \<equiv> rv_last_seq (ow_recovery (fj_writer J))"

lemma journal_ok_wf: "journal_ok C J \<Longrightarrow> writer_wf C J"
  by (simp add: journal_ok_def)

lemma journal_ok_wal:
  assumes "journal_ok C J" "last_seq_of J \<le> MAX_OPERATION_JOURNAL_RECOVERY_RECORDS"
  obtains st where "map_of (jd_files (fj_disk J)) (journal_wal J) = Some (journal_bytes J)"
    "wal_holds C (journal_bytes J) [] st"
    "cached_refines (ow_recovery (fj_writer J)) (ow_indexes (fj_writer J)) st"
  using assms unfolding journal_ok_def by blast

lemma disk_holdsI:
  assumes "writer_wf C J" "metadata_stored C disk (ow_metadata (fj_writer J))"
    "map_of (jd_files disk) (journal_wal J) = Some wal" "wal_holds C wal tail st"
    "rv_compacted_from (fst st) = rv_compacted_from (ow_recovery (fj_writer J))"
  shows "disk_holds C (fj_base J) disk (fold_truth st)"
proof -
  have "validate_recovered_generation (ow_metadata (fj_writer J)) (fst st) = Inr ()"
    using assms(1,5) validate_generation_cong [of "fst st"] by (simp add: writer_wf_def Let_def)
  then show ?thesis using assms unfolding disk_holds_def by blast
qed

lemma journal_ok_disk_holds:
  assumes "journal_ok C J" "last_seq_of J \<le> MAX_OPERATION_JOURNAL_RECOVERY_RECORDS"
  shows "disk_holds C (fj_base J) (fj_disk J) (journal_truth J)"
proof -
  obtain st where st: "map_of (jd_files (fj_disk J)) (journal_wal J) = Some (journal_bytes J)"
    "wal_holds C (journal_bytes J) [] st"
    "cached_refines (ow_recovery (fj_writer J)) (ow_indexes (fj_writer J)) st"
    using journal_ok_wal [OF assms] .
  have "writer_wf C J" using assms(1) by (rule journal_ok_wf)
  moreover from this have "metadata_stored C (fj_disk J) (ow_metadata (fj_writer J))"
    by (simp add: writer_wf_def Let_def)
  ultimately show ?thesis
    using disk_holdsI [OF _ _ st(1,2)] st(3) cached_refines_truth [OF st(3)]
    by (simp add: cached_refines_def)
qed

text \<open>Rewriting the WAL with the same bytes changes nothing the invariant sees.\<close>

definition set_wal :: "file_operation_journal \<Rightarrow> byte list \<Rightarrow> file_operation_journal" where
  "set_wal J wal = J\<lparr>fj_disk := write_file (fj_disk J) (journal_wal J) wal\<rparr>"

lemma set_wal_simps [simp]:
  "fj_writer (set_wal J wal) = fj_writer J" "fj_base (set_wal J wal) = fj_base J"
  "journal_bytes (set_wal J wal) = wal"
  "jd_metadata (fj_disk (set_wal J wal)) = jd_metadata (fj_disk J)"
  "map_of (jd_files (fj_disk (set_wal J wal))) = (map_of (jd_files (fj_disk J)))(journal_wal J \<mapsto> wal)"
  by (simp_all add: set_wal_def journal_bytes_def)

lemma writer_wf_set_wal [simp]: "writer_wf C (set_wal J wal) = writer_wf C J"
  by (simp add: writer_wf_def Let_def metadata_stored_def)

lemma journal_ok_set_wal: "journal_ok C J \<Longrightarrow> journal_ok C (set_wal J (journal_bytes J))"
  by (auto simp: journal_ok_def)

lemma journal_ok_publish:
  assumes J: "journal_ok C J"
    and val: "validate_cached_record (ow_recovery (fj_writer J)) (ow_indexes (fj_writer J)) r = Inr ()"
    and r: "record_validate r = Inr ()" "jr_seq r = ow_next_seq (fj_writer J)"
    and line: "encode_operation_frames C [r] = Inr line"
      "length (journal_bytes J @ line) \<le> MAX_OPERATION_JOURNAL_FILE_BYTES"
  shows "journal_ok C (publish_record (set_wal J (journal_bytes J @ line)) r)"
    (is "journal_ok C ?J'")
proof -
  have wf: "writer_wf C ?J'"
    using writer_wf_publish(1) [of C "set_wal J (journal_bytes J @ line)" r] journal_ok_wf [OF J] val r
    by simp
  have proj: "journal_bytes ?J' = journal_bytes J @ line" "last_seq_of ?J' = jr_seq r"
    "map_of (jd_files (fj_disk ?J')) (journal_wal ?J') = Some (journal_bytes J @ line)"
    "ow_recovery (fj_writer ?J') = fst (apply_cached_record (ow_recovery (fj_writer J)) (ow_indexes (fj_writer J)) r)"
    "ow_indexes (fj_writer ?J') = snd (apply_cached_record (ow_recovery (fj_writer J)) (ow_indexes (fj_writer J)) r)"
    by (simp_all add: publish_record_def Let_def case_prod_beta journal_bytes_def read_file_def)
  show ?thesis
  proof (cases "jr_seq r \<le> MAX_OPERATION_JOURNAL_RECOVERY_RECORDS")
    case True
    have "jr_seq r = Suc (last_seq_of J)"
      using r(2) journal_ok_wf [OF J] by (simp add: writer_wf_def Let_def)
    then have "last_seq_of J \<le> MAX_OPERATION_JOURNAL_RECOVERY_RECORDS" using True by simp
    then obtain st where st: "wal_holds C (journal_bytes J) [] st"
      "cached_refines (ow_recovery (fj_writer J)) (ow_indexes (fj_writer J)) st"
      by (rule journal_ok_wal [OF J])
    obtain st' where st': "recover_step st r = Inr st'"
      "cached_refines (fst (apply_cached_record (ow_recovery (fj_writer J)) (ow_indexes (fj_writer J)) r))
         (snd (apply_cached_record (ow_recovery (fj_writer J)) (ow_indexes (fj_writer J)) r)) st'"
      using cached_step_refines [OF st(2) r(1) val True] by blast
    have "wal_holds C (journal_bytes J @ line) [] st'"
      using wal_holds_append [OF st(1) line(1) st'(1) line(2)] .
    then show ?thesis using wf st'(2) unfolding journal_ok_def proj by blast
  next
    case False
    then show ?thesis using wf unfolding journal_ok_def proj by simp
  qed
qed

text \<open>A failed write leaves the truth before the record, or the truth after it.\<close>

lemma failed_write_disk_holds:
  assumes J: "journal_ok C J" and C: "codec_ok C"
    and val: "validate_cached_record (ow_recovery (fj_writer J)) (ow_indexes (fj_writer J)) r = Inr ()"
    and r: "record_validate r = Inr ()" "jr_seq r = ow_next_seq (fj_writer J)"
      "jr_seq r \<le> MAX_OPERATION_JOURNAL_RECOVERY_RECORDS"
    and line: "encode_operation_frames C [r] = Inr (b @ [10])" "10 \<notin> set b"
      "length b \<le> MAX_OPERATION_JOURNAL_FRAME_BYTES"
      "length (journal_bytes J @ take n (b @ [10])) \<le> MAX_OPERATION_JOURNAL_FILE_BYTES"
  shows "\<exists>T \<in> {journal_truth J, apply_truth (journal_truth J) (jr_transition r)}.
           disk_holds C (fj_base J) (fj_disk (set_wal J (journal_bytes J @ take n (b @ [10])))) T"
proof -
  let ?J' = "set_wal J (journal_bytes J @ take n (b @ [10]))"
  have wf: "writer_wf C ?J'" using journal_ok_wf [OF J] by simp
  then have md: "metadata_stored C (fj_disk ?J') (ow_metadata (fj_writer ?J'))"
    by (simp add: writer_wf_def Let_def)
  show ?thesis
  proof (cases "n \<le> length b")
    case True
    have "jr_seq r = Suc (last_seq_of J)"
      using r(2) journal_ok_wf [OF J] by (simp add: writer_wf_def Let_def)
    then have "last_seq_of J \<le> MAX_OPERATION_JOURNAL_RECOVERY_RECORDS" using r(3) by simp
    then obtain st where st: "wal_holds C (journal_bytes J) [] st"
      "cached_refines (ow_recovery (fj_writer J)) (ow_indexes (fj_writer J)) st"
      by (rule journal_ok_wal [OF J])
    have "torn_tail (take n b)"
      using line(2,3) by (auto simp: torn_tail_def dest: in_set_takeD)
    then have "wal_holds C (journal_bytes J @ take n b) (take n b) st"
      using wal_holds_torn [OF st(1)] line(4) True by (simp add: take_line)
    then have "disk_holds C (fj_base J) (fj_disk ?J') (fold_truth st)"
      using disk_holdsI [OF wf md] st(2) True by (simp add: take_line cached_refines_def)
    then show ?thesis using cached_refines_truth [OF st(2)] by simp
  next
    case False
    then have eq: "take n (b @ [10]) = b @ [10]" by (simp add: take_line)
    have "journal_ok C (publish_record ?J' r)"
      using journal_ok_publish [OF J val r(1,2) line(1)] line(4) unfolding eq by simp
    moreover have "last_seq_of (publish_record ?J' r) = jr_seq r"
      by (simp add: publish_record_def Let_def case_prod_beta)
    ultimately have "disk_holds C (fj_base (publish_record ?J' r)) (fj_disk (publish_record ?J' r))
        (journal_truth (publish_record ?J' r))"
      using journal_ok_disk_holds r(3) by metis
    then have "disk_holds C (fj_base J) (fj_disk ?J') (apply_truth (journal_truth J) (jr_transition r))"
      using writer_wf_publish(2) [of C ?J' r] wf val r
      by (simp add: publish_record_def Let_def case_prod_beta)
    then show ?thesis by blast
  qed
qed

end
