(* ===== verification/Journal_Compaction.thy ===== *)
theory Journal_Compaction
  imports Journal_Durability
begin

text \<open>
  Compaction and the whole of \<open>append_and_sync\<close>: the records of a compacted generation fold to the same operations, the
  file names of generations are distinct, publishing a generation keeps the truth whatever step fails, and so does an
  append with the compactions it may run (\<open>append_outcome\<close>).
\<close>

section \<open>Compaction\<close>

abbreviation upsert_record :: "nat \<Rightarrow> operation_snapshot \<Rightarrow> operation_journal_record" where
  "upsert_record sq s \<equiv> \<lparr>jr_version = OPERATION_JOURNAL_VERSION, jr_seq = sq,
                         jr_transition = OperationUpsert s\<rparr>"

lemma compaction_records_snoc:
  "compaction_records m (ops @ [s]) = compaction_records m ops @ [upsert_record (length ops + 2) s]"
  by (simp add: compaction_records_def)

lemma length_compaction_records [simp]: "length (compaction_records m ops) = Suc (length ops)"
  by (simp add: compaction_records_def)

text \<open>
  The records a compaction writes recover to the compacted table: a compacted WAL may start an
  operation in any state.
\<close>

lemma recover_compaction:
  assumes "marker_validate m = Inr ()" "distinct (map snap_id ops)"
    "\<forall>s \<in> set ops. snapshot_validate s = Inr ()"
    "length ops < MAX_OPERATION_JOURNAL_RECOVERY_RECORDS"
  shows "\<exists>st. recover_records (recovery_default, []) (compaction_records m ops) = Inr st
     \<and> rv_compacted_from (fst st) = Some m \<and> rv_authority_epoch (fst st) = mk_authority_epoch m
     \<and> rv_last_seq (fst st) = Suc (length ops) \<and> table_wf (snd st) \<and> table_values (snd st) = set ops"
  using assms
proof (induction ops rule: rev_induct)
  case Nil
  then show ?case
    by (simp add: compaction_records_def recover_step_def record_validate_def OPERATION_JOURNAL_VERSION_def
        recovery_default_def fold_operation_record_def u64_max_def table_values_def)
next
  case (snoc s ops)
  then obtain st where st: "recover_records (recovery_default, []) (compaction_records m ops) = Inr st"
    "rv_compacted_from (fst st) = Some m" "rv_authority_epoch (fst st) = mk_authority_epoch m"
    "rv_last_seq (fst st) = Suc (length ops)" "table_wf (snd st)" "table_values (snd st) = set ops"
    by auto
  have "map_of (snd st) (snap_id s) = None"
  proof (rule ccontr)
    assume "map_of (snd st) (snap_id s) \<noteq> None"
    then obtain p where "map_of (snd st) (snap_id s) = Some p" by blast
    then have "p \<in> set ops \<and> snap_id p = snap_id s"
      using table_lookup [OF st(5), of "snap_id s" p] st(6) by simp
    moreover have "snap_id s \<notin> snap_id ` set ops" using snoc.prems(2) by simp
    ultimately show False by (metis imageI)
  qed
  moreover have "table_values (AList.update (snap_id s) s (snd st)) = insert s (set ops)"
  proof -
    have "\<forall>p \<in> set ops. snap_id p \<noteq> snap_id s"
      using calculation table_lookup [OF st(5), of "snap_id s"] st(6) by (metis option.distinct(1))
    then show ?thesis using table_values_update [OF st(5), of s] st(6) by auto
  qed
  ultimately have "\<exists>st'. recover_step st (upsert_record (length ops + 2) s) = Inr st'
     \<and> rv_compacted_from (fst st') = Some m \<and> rv_authority_epoch (fst st') = mk_authority_epoch m
     \<and> rv_last_seq (fst st') = length ops + 2 \<and> table_wf (snd st') \<and> table_values (snd st') = insert s (set ops)"
    using st snoc.prems table_wf_update [OF st(5), of s]
    by (cases st) (simp add: recover_step_def record_validate_def fold_operation_record_def u64_max_def
        MAX_OPERATION_JOURNAL_RECOVERY_RECORDS_def)
  then show ?case
    unfolding compaction_records_snoc recover_records_snoc [OF st(1)] by simp
qed

section \<open>Generation file names\<close>

definition decimal_value :: "rust_str \<Rightarrow> nat" where
  "decimal_value s = foldl (\<lambda>acc c. acc * 10 + (c - 48)) 0 s"

lemma decimal_value_dec [simp]: "decimal_value (dec n) = n"
proof (induction n rule: dec.induct)
  case (1 n)
  then show ?case
    by (subst dec.simps) (auto simp: decimal_value_def)
qed

lemma dec_inj [simp]: "dec m = dec n \<longleftrightarrow> m = n"
  by (metis decimal_value_dec)

lemma dec_digits: "list_all (\<lambda>c. 48 \<le> c \<and> c \<le> 57) (dec n)" "dec n \<noteq> []"
proof (induction n rule: dec.induct)
  case (1 n)
  { case 1 then show ?case using "1.IH" by (subst dec.simps) auto }
  { case 2 then show ?case by (subst dec.simps) auto }
qed

lemma wal_path_inj:
  assumes "0 < g" "0 < g'" "authority_wal_path base g = authority_wal_path base g'"
  shows "g = g'"
  using assms by (auto simp: authority_wal_path_def lit_def split: if_splits)

lemma parse_u64_dec: "n \<le> u64_max \<Longrightarrow> parse_u64 (dec n) = Some n"
  using decimal_value_dec [of n] by (simp add: parse_u64_def decimal_value_def Let_def)

lemma wal_generation_of_path:
  assumes "0 < g" "g \<le> u64_max"
  shows "authority_wal_generation_of (authority_wal_path base g) base = Some g"
  using assms dec_digits [of g] parse_u64_dec [of g]
  by (auto simp: authority_wal_path_def authority_wal_generation_of_def strip_prefix_def lit_def)

section \<open>Publishing a compacted generation\<close>

definition with_candidate :: "file_operation_journal \<Rightarrow> nat \<Rightarrow> byte list \<Rightarrow> file_operation_journal" where
  "with_candidate J g bytes =
     J\<lparr>fj_disk := write_file (fj_disk J) (authority_wal_path (fj_base J) g) bytes\<rparr>"

lemma writer_wf_generation: "writer_wf C J \<Longrightarrow> 0 < md_generation (ow_metadata (fj_writer J))"
  by (simp add: writer_wf_def Let_def metadata_stored_def)

lemma with_candidate_simps [simp]:
  "fj_writer (with_candidate J g bytes) = fj_writer J" "fj_base (with_candidate J g bytes) = fj_base J"
  "jd_metadata (fj_disk (with_candidate J g bytes)) = jd_metadata (fj_disk J)"
  "map_of (jd_files (fj_disk (with_candidate J g bytes)))
     = (map_of (jd_files (fj_disk J)))(authority_wal_path (fj_base J) g \<mapsto> bytes)"
  by (simp_all add: with_candidate_def)

lemma journal_ok_with_candidate:
  assumes "journal_ok C J" "g \<noteq> md_generation (ow_metadata (fj_writer J))" "0 < g"
  shows "journal_ok C (with_candidate J g bytes)"
proof -
  have ne: "authority_wal_path (fj_base J) g \<noteq> journal_wal J"
    using wal_path_inj [OF assms(3) writer_wf_generation [OF journal_ok_wf [OF assms(1)]]] assms(2)
    by blast
  then have b: "journal_bytes (with_candidate J g bytes) = journal_bytes J"
    by (simp add: journal_bytes_def read_file_def)
  have "writer_wf C (with_candidate J g bytes)"
    using journal_ok_wf [OF assms(1)] by (simp add: writer_wf_def Let_def metadata_stored_def)
  then show ?thesis using assms(1) ne by (simp add: journal_ok_def b del: split_paired_Ex)
qed

text \<open>The directory after the new metadata reached the disk: the compacted generation is current.\<close>

lemma writer_marker_valid:
  assumes "writer_wf C J"
    "authority_checkpoint_marker_of C (ow_metadata (fj_writer J)) (ow_recovery (fj_writer J)) = Inr previous"
  shows "marker_validate previous = Inr ()" "mk_authority_epoch previous = rv_authority_epoch (ow_recovery (fj_writer J))"
    "mk_journal_id previous = md_journal_id (ow_metadata (fj_writer J))"
    "mk_generation previous = md_generation (ow_metadata (fj_writer J))"
  using assms by (auto simp: authority_checkpoint_marker_of_def writer_wf_def Let_def metadata_stored_def
      marker_validate_def)

lemma sort_operations_facts [simp]:
  "set (sort_operations ops) = set ops" "length (sort_operations ops) = length ops"
  "distinct (map snap_id (sort_operations ops)) = distinct (map snap_id ops)"
proof -
  have "mset (map snap_id (sort_operations ops)) = mset (map snap_id ops)"
    by (simp add: sort_operations_def)
  then show "distinct (map snap_id (sort_operations ops)) = distinct (map snap_id ops)"
    by (rule mset_eq_imp_distinct_iff)
qed (simp_all add: sort_operations_def)

lemma wal_holds_compaction:
  assumes "writer_wf C J" 
    "authority_checkpoint_marker_of C (ow_metadata (fj_writer J)) (ow_recovery (fj_writer J)) = Inr previous"
    "operations = sort_operations (rv_operations (ow_recovery (fj_writer J)))"
    "length (compaction_records previous operations) \<le> MAX_OPERATION_JOURNAL_RECOVERY_RECORDS"
    "write_operation_records C fault (compaction_records previous operations) = (bytes, Inr ())"
  shows "\<exists>st. wal_holds C bytes [] st
     \<and> rv_compacted_from (fst st) = Some previous
     \<and> rv_authority_epoch (fst st) = rv_authority_epoch (ow_recovery (fj_writer J))
     \<and> rv_last_seq (fst st) = Suc (length operations)
     \<and> table_wf (snd st) \<and> table_values (snd st) = set operations"
proof -
  have wf: "distinct (map snap_id operations)" "\<forall>s \<in> set operations. snapshot_validate s = Inr ()"
    using assms(1,3) by (simp_all add: writer_wf_def Let_def indexes_ok_def)
  note m = writer_marker_valid [OF assms(1,2)]
  have "length operations < MAX_OPERATION_JOURNAL_RECOVERY_RECORDS" using assms(4) by simp
  then obtain st where st: "recover_records (recovery_default, []) (compaction_records previous operations) = Inr st"
    "rv_compacted_from (fst st) = Some previous" "rv_authority_epoch (fst st) = mk_authority_epoch previous"
    "rv_last_seq (fst st) = Suc (length operations)" "table_wf (snd st)"
    "table_values (snd st) = set operations"
    using recover_compaction [OF m(1) wf] by blast
  have "encode_operation_frames C (compaction_records previous operations) = Inr bytes"
    "length bytes \<le> MAX_OPERATION_JOURNAL_FILE_BYTES"
    using assms(5) by (auto simp: write_operation_records_def split: sum.splits if_splits option.splits)
  then have "wal_holds C bytes [] st" using st(1) unfolding wal_holds_def torn_tail_def by auto
  then show ?thesis using st m(2) by (intro exI [of _ st]) simp
qed

lemma metadata_stored_new:
  assumes "encode_authority_metadata C m = Inr b" "jd_metadata disk = Some b"
    "md_version m = AUTHORITY_JOURNAL_METADATA_VERSION" "\<not> is_nil (md_journal_id m)" "0 < md_generation m"
  shows "metadata_stored C disk m"
  using assms by (simp add: metadata_stored_def)

lemma compacted_generation_ok:
  assumes "writer_wf C J"
    "authority_checkpoint_marker_of C (ow_metadata (fj_writer J)) (ow_recovery (fj_writer J)) = Inr previous"
    "checked_add_u64 (md_generation (ow_metadata (fj_writer J))) 1 = Some g"
    "rv_compacted_from rv = Some previous" "md_generation m = g"
    "md_journal_id m = md_journal_id (ow_metadata (fj_writer J))"
  shows "validate_recovered_generation m rv = Inr ()"
  using writer_wf_generation [OF assms(1)] writer_marker_valid [OF assms(1,2)] assms(3-6)
  by (simp add: validate_recovered_generation_def)

definition compacted_writer ::
  "operation_writer_state \<Rightarrow> authority_journal_metadata \<Rightarrow> authority_checkpoint_marker
     \<Rightarrow> operation_snapshot list \<Rightarrow> operation_writer_state" where
  "compacted_writer w m previous operations =
     w\<lparr>ow_next_seq := Suc (Suc (length operations)),
       ow_recovery := (ow_recovery w)\<lparr>rv_last_seq := Suc (length operations),
          rv_compacted_from := Some previous, rv_operations := operations\<rparr>,
       ow_indexes := build_indexes operations, ow_metadata := m\<rparr>"

lemma publish_compaction_cases:
  assumes "publish_compaction C env J g previous operations (Suc (length operations)) = (J', res)"
  obtains (kept) e where "res = Inl e" "J' = J"
  | (unsynced) m b e where "res = Inl e" "fj_base J' = fj_base J" "fj_disk J' = (fj_disk J)\<lparr>jd_metadata := Some b\<rparr>"
      "encode_authority_metadata C m = Inr b" "md_version m = AUTHORITY_JOURNAL_METADATA_VERSION"
      "md_journal_id m = md_journal_id (ow_metadata (fj_writer J))" "md_generation m = g"
      "fj_writer J' = (fj_writer J)\<lparr>ow_failed := Some (error_display e)\<rparr>"
  | (published) m b where
      "res = authority_checkpoint_marker_of C m (ow_recovery (fj_writer J'))"
      "fj_base J' = fj_base J" "encode_authority_metadata C m = Inr b"
      "md_version m = AUTHORITY_JOURNAL_METADATA_VERSION"
      "md_journal_id m = md_journal_id (ow_metadata (fj_writer J))" "md_generation m = g"
      "md_ancestors m = push_ancestor (md_ancestors (ow_metadata (fj_writer J))) previous"
      "jd_metadata (fj_disk J') = Some b"
      "\<forall>n. n \<noteq> journal_wal J \<longrightarrow> map_of (jd_files (fj_disk J')) n = map_of (jd_files (fj_disk J)) n"
      "fj_writer J' = compacted_writer (fj_writer J) m previous operations"
proof -
  define m where "m = \<lparr>md_version = AUTHORITY_JOURNAL_METADATA_VERSION,
             md_journal_id = md_journal_id (ow_metadata (fj_writer J)), md_generation = g,
             md_ancestors = push_ancestor (md_ancestors (ow_metadata (fj_writer J))) previous\<rparr>"
  note eq = assms [unfolded publish_compaction_def Let_def m_def [symmetric]]
  show ?thesis
  proof (cases "\<not> ce_seek_ok env \<or> checked_add_u64 (Suc (length operations)) 1 = None")
    case True
    then show ?thesis using eq kept by (auto simp: checked_add_u64_def split: if_splits)
  next
    case False
    then have seq: "ce_seek_ok env" "Suc (Suc (length operations)) \<le> u64_max"
      by auto
    note add = checked_add_u64_def
    show ?thesis
    proof (cases "encode_authority_metadata C m")
      case (Inl e)
      then have "\<forall>s. e \<noteq> RecoveryRequired s"
        by (auto simp: encode_authority_metadata_def result_bind_Inl_iff ok_or_def
            split: option.splits if_splits)
      then have "J' = J" "res = Inl e"
        using eq seq Inl by (auto simp: add persist_authority_metadata_def split: agent_error.splits)
      then show ?thesis using kept by blast
    next
      case (Inr b)
      show ?thesis
      proof (cases "ce_publish env")
        case PublishOk
        then show ?thesis
          using eq seq Inr
          by (intro published [of m b])
             (auto simp: add persist_authority_metadata_def m_def compacted_writer_def)
      next
        case PublishFailed
        then have "J' = J" "\<exists>e. res = Inl e"
          using eq seq Inr by (auto simp: add persist_authority_metadata_def)
        then show ?thesis using kept by blast
      next
        case PublishUnsynced
        then show ?thesis
          using eq seq Inr
          by (intro unsynced [OF _ _ _ Inr]) (auto simp: add persist_authority_metadata_def m_def)
      qed
    qed
  qed
qed

lemma compacted_writer_simps [simp]:
  "ow_metadata (compacted_writer w m p ops) = m" "ow_indexes (compacted_writer w m p ops) = build_indexes ops"
  "ow_next_seq (compacted_writer w m p ops) = Suc (Suc (length ops))"
  "rv_last_seq (ow_recovery (compacted_writer w m p ops)) = Suc (length ops)"
  "rv_operations (ow_recovery (compacted_writer w m p ops)) = ops"
  "rv_authority_epoch (ow_recovery (compacted_writer w m p ops)) = rv_authority_epoch (ow_recovery w)"
  "rv_compacted_from (ow_recovery (compacted_writer w m p ops)) = Some p"
  "ow_failed (compacted_writer w m p ops) = ow_failed w"
  by (simp_all add: compacted_writer_def)

text \<open>
  What any compaction, whatever the operating system answers, leaves behind: the truth is the same, a
  writer that was not fenced still satisfies the invariant, and a fenced one leaves a directory that
  recovers to the same truth.
\<close>

definition compaction_outcome ::
  "journal_codec \<Rightarrow> file_operation_journal \<Rightarrow> file_operation_journal \<Rightarrow> 'a agent_result \<Rightarrow> bool" where
  "compaction_outcome C J J' res \<longleftrightarrow>
     fj_base J' = fj_base J \<and> journal_truth J' = journal_truth J
   \<and> length (rv_operations (ow_recovery (fj_writer J'))) = length (rv_operations (ow_recovery (fj_writer J)))
   \<and> (case ow_failed (fj_writer J') of
        None \<Rightarrow> journal_ok C J'
      | Some e \<Rightarrow> (\<exists>x. res = Inl x) \<and> disk_holds C (fj_base J) (fj_disk J') (journal_truth J))
   \<and> (\<forall>x. res = Inr x \<longrightarrow> last_seq_of J' = 0 \<or>
        last_seq_of J' = Suc (length (rv_operations (ow_recovery (fj_writer J)))) \<and>
        last_seq_of J' \<le> MAX_OPERATION_JOURNAL_RECOVERY_RECORDS)
   \<and> (last_seq_of J \<le> MAX_OPERATION_JOURNAL_RECOVERY_RECORDS \<longrightarrow>
      last_seq_of J' \<le> MAX_OPERATION_JOURNAL_RECOVERY_RECORDS)"

lemma compaction_outcome_kept:
  "journal_ok C J' \<Longrightarrow> fj_writer J' = fj_writer J \<Longrightarrow> fj_base J' = fj_base J \<Longrightarrow>
   ow_failed (fj_writer J) = None \<Longrightarrow> compaction_outcome C J J' (Inl e)"
  by (simp add: compaction_outcome_def)

lemma marker_of_total:
  assumes "codec_ok C"
  obtains m where "authority_checkpoint_marker_of C md rv = Inr m"
proof -
  have "\<exists>b. jc_truth_to_vec C a e os = Some b" for a e os
    using assms by (simp add: codec_ok_def)
  then obtain b where "jc_truth_to_vec C (rv_last_seq rv) (rv_authority_epoch rv)
      (sort_operations (rv_operations rv)) = Some b" by blast
  then show ?thesis using that by (simp add: authority_checkpoint_marker_of_def)
qed

lemma compact_published:
  assumes C: "codec_ok C" and J: "journal_ok C J" "ow_failed (fj_writer J) = None"
    and prev: "authority_checkpoint_marker_of C (ow_metadata (fj_writer J)) (ow_recovery (fj_writer J)) = Inr previous"
    and g: "checked_add_u64 (md_generation (ow_metadata (fj_writer J))) 1 = Some g"
    and ops: "operations = sort_operations (rv_operations (ow_recovery (fj_writer J)))"
    and len: "length (compaction_records previous operations) \<le> MAX_OPERATION_JOURNAL_RECOVERY_RECORDS"
    and wr: "write_operation_records C fault (compaction_records previous operations) = (bytes, Inr ())"
    and pub: "publish_compaction C env (with_candidate J g bytes) g previous operations
                (Suc (length operations)) = (J', res)"
  shows "compaction_outcome C J J' res"
proof -
  let ?J = "with_candidate J g bytes"
  note wf = journal_ok_wf [OF J(1)]
  have gen: "0 < g" "g \<noteq> md_generation (ow_metadata (fj_writer J))" using g by auto
  have path: "authority_wal_path (fj_base J) g \<noteq> journal_wal J"
    using wal_path_inj [OF gen(1) writer_wf_generation [OF wf]] gen(2) by blast
  have id: "\<not> is_nil (md_journal_id (ow_metadata (fj_writer J)))"
    using wf by (simp add: writer_wf_def Let_def metadata_stored_def)
  have ops_ok: "distinct (map snap_id operations)" "\<forall>s \<in> set operations. snapshot_validate s = Inr ()"
    "0 < rv_authority_epoch (ow_recovery (fj_writer J))"
    "set operations = set (rv_operations (ow_recovery (fj_writer J)))"
    "length operations = length (rv_operations (ow_recovery (fj_writer J)))"
    using wf ops by (simp_all add: writer_wf_def Let_def indexes_ok_def)
  obtain st where st: "wal_holds C bytes [] st" "rv_compacted_from (fst st) = Some previous"
    "rv_authority_epoch (fst st) = rv_authority_epoch (ow_recovery (fj_writer J))"
    "rv_last_seq (fst st) = Suc (length operations)" "table_wf (snd st)"
    "table_values (snd st) = set operations"
    using wal_holds_compaction [OF wf prev ops len wr] by blast
  have T: "fold_truth st = journal_truth J"
    using st ops_ok by (simp add: fold_truth_def truth_of_def)
  from pub show ?thesis
  proof (cases rule: publish_compaction_cases)
    case (kept e)
    then show ?thesis
      using J gen by (simp add: compaction_outcome_kept journal_ok_with_candidate)
  next
    case (unsynced m b e)
    have "metadata_stored C (fj_disk J') m"
      using unsynced gen id by (intro metadata_stored_new) auto
    moreover have "validate_recovered_generation m (fst st) = Inr ()"
      using compacted_generation_ok [OF wf prev g st(2)] unsynced by simp
    ultimately have "disk_holds C (fj_base J) (fj_disk J') (journal_truth J)"
      using st(1) T unsynced unfolding disk_holds_def
      by (intro exI [of _ m] exI [of _ st] exI [of _ "[]"] exI [of _ bytes]) simp
    then show ?thesis using unsynced J(2) by (simp add: compaction_outcome_def)
  next
    case (published m b)
    let ?w = "compacted_writer (fj_writer J) m previous operations"
    have w: "fj_writer J' = ?w" using published by simp
    have "metadata_stored C (fj_disk J') m"
      using published gen id by (intro metadata_stored_new) auto
    moreover have "validate_recovered_generation m (ow_recovery ?w) = Inr ()"
      using compacted_generation_ok [OF wf prev g] published by simp
    moreover have ref: "cached_refines (ow_recovery ?w) (build_indexes operations) st"
      using st ops_ok build_indexes_ok [OF ops_ok(1)] by (simp add: cached_refines_def)
    ultimately have wf': "writer_wf C J'"
      unfolding writer_wf_def Let_def w by (simp add: cached_refines_def)
    have fl: "map_of (jd_files (fj_disk J')) (journal_wal J') = Some bytes"
      using published path by (auto simp: w)
    then have "journal_bytes J' = bytes" by (simp add: journal_bytes_def read_file_def)
    then have "journal_ok C J'"
      using wf' fl st(1) ref unfolding journal_ok_def w by (auto simp del: split_paired_Ex)
    moreover obtain mk where "res = Inr mk"
      using published(1) marker_of_total [OF C] by metis
    ultimately show ?thesis
      using published(2) J(2) len ops_ok unfolding compaction_outcome_def w truth_of_def by auto
  qed
qed


lemma compact_locked_ok:
  assumes "codec_ok C" "journal_ok C J" "ow_failed (fj_writer J) = None"
    "compact_locked C env J = (J', res)"
  shows "compaction_outcome C J J' res"
proof -
  let ?w = "fj_writer J"
  let ?ops = "sort_operations (rv_operations (ow_recovery ?w))"
  let ?g = "md_generation (ow_metadata ?w) + 1"
  note wf = journal_ok_wf [OF assms(2)]
  obtain previous where prev:
    "authority_checkpoint_marker_of C (ow_metadata ?w) (ow_recovery ?w) = Inr previous"
    using marker_of_total [OF assms(1)] .
  have keep: "compaction_outcome C J J (Inl e)" for e
    by (rule compaction_outcome_kept [OF assms(2) refl refl assms(3)])
  have left: "compaction_outcome C J (J\<lparr>fj_disk := write_file (fj_disk J)
      (authority_wal_path (fj_base J) (Suc (md_generation (ow_metadata ?w)))) []\<rparr>) (Inl e)" for e
    unfolding with_candidate_def [symmetric]
    by (rule compaction_outcome_kept [OF journal_ok_with_candidate [OF assms(2)]]) (simp_all add: assms(3))
  note eq = assms(4) [unfolded compact_locked_def Let_def ensure_operation_writer_healthy_def
      assms(3) option.case sum.case unit.case prev]
  show ?thesis
  proof (cases "rv_last_seq (ow_recovery ?w) = 0")
    case True
    then show ?thesis using eq assms(2,3) by (auto simp: compaction_outcome_def)
  next
    case nonzero: False
    show ?thesis
    proof (cases "checked_add_u64 (md_generation (ow_metadata ?w)) 1 = None
        \<or> MAX_OPERATION_JOURNAL_RECOVERY_RECORDS < length (compaction_records previous ?ops)
        \<or> ce_candidate env \<noteq> CandidateReady")
      case True
      then show ?thesis
        using eq nonzero keep left
        by (cases "ce_candidate env") (auto simp: checked_add_u64_def split: if_splits)
    next
      case False
      then have c: "checked_add_u64 (md_generation (ow_metadata ?w)) 1 = Some ?g"
        "length (compaction_records previous ?ops) \<le> MAX_OPERATION_JOURNAL_RECOVERY_RECORDS"
        "ce_candidate env = CandidateReady" by auto
      obtain bytes wres where wr: "write_operation_records C (ce_write_fault env)
          (compaction_records previous ?ops) = (bytes, wres)" by fastforce
      note eq' = eq [unfolded c(1) option.case wr prod.case with_candidate_def [symmetric]]
      show ?thesis
      proof (cases wres)
        case (Inl e)
        then have "J' = with_candidate J ?g bytes" "res = Inl e" using eq' nonzero c by simp_all
        then show ?thesis
          using assms(2,3) by (simp add: compaction_outcome_kept journal_ok_with_candidate)
      next
        case (Inr u)
        then have "publish_compaction C env (with_candidate J ?g bytes) ?g previous ?ops
            (Suc (length ?ops)) = (J', res)"
          using eq' nonzero c by simp
        moreover have "write_operation_records C (ce_write_fault env)
          (compaction_records previous ?ops) = (bytes, Inr ())" using wr Inr by simp
        ultimately show ?thesis
          using compact_published [OF assms(1-3) prev c(1) refl c(2)] by blast
      qed
    qed
  qed
qed

section \<open>One append, with its compactions\<close>

abbreviation journal_ops :: "file_operation_journal \<Rightarrow> operation_snapshot list" where
  "journal_ops J \<equiv> rv_operations (ow_recovery (fj_writer J))"

lemma publish_record_simps [simp]:
  "last_seq_of (publish_record J r) = jr_seq r"
  "fj_base (publish_record J r) = fj_base J" "ow_failed (fj_writer (publish_record J r)) = ow_failed (fj_writer J)"
  "fj_disk (publish_record J r) = fj_disk J"
  by (simp_all add: publish_record_def Let_def case_prod_beta)

lemma writer_wf_next_seq: "writer_wf C J \<Longrightarrow> ow_next_seq (fj_writer J) = Suc (last_seq_of J)"
  by (simp add: writer_wf_def Let_def)

lemma stage_and_append_cases:
  assumes C: "codec_ok C" and J: "journal_ok C J" and t: "transition_validate t = Inr ()"
    and eq: "stage_and_append C io J t = (J2, res)"
  obtains (refused) e where "res = Inl e" "J2 = J"
  | (rejected) cap e where "res = Inr (Inl (RejectedBeforeWrite cap e))" "J2 = set_wal J (journal_bytes J)"
  | (failed) e where "res = Inr (Inl (WriteFailed e))" "fj_writer J2 = fj_writer J" "fj_base J2 = fj_base J"
      "ow_next_seq (fj_writer J) \<le> MAX_OPERATION_JOURNAL_RECOVERY_RECORDS \<longrightarrow>
       (\<exists>T \<in> {journal_truth J, apply_truth (journal_truth J) t}. disk_holds C (fj_base J) (fj_disk J2) T)"
  | (stored) r where "res = Inr (Inr r)" "jr_transition r = t" "jr_seq r = ow_next_seq (fj_writer J)"
      "journal_ok C (publish_record J2 r)"
      "journal_truth (publish_record J2 r) = apply_truth (journal_truth J) t"
      "fj_base J2 = fj_base J" "fj_writer J2 = fj_writer J"
proof -
  let ?w = "fj_writer J"
  define r where "r = \<lparr>jr_version = OPERATION_JOURNAL_VERSION, jr_seq = ow_next_seq ?w, jr_transition = t\<rparr>"
  have r: "record_validate r = Inr ()" "jr_seq r = ow_next_seq ?w" "jr_transition r = t"
    using t journal_ok_wf [OF J] by (simp_all add: r_def record_validate_def writer_wf_def Let_def)
  note eq = eq [unfolded stage_and_append_def Let_def r_def [symmetric]]
  show ?thesis
  proof (cases "validate_cached_record (ow_recovery ?w) (ow_indexes ?w) r = Inr ()
      \<and> checked_add_u64 (ow_next_seq ?w) 1 \<noteq> None")
    case False
    then show ?thesis
      using eq refused
      by (cases "validate_cached_record (ow_recovery ?w) (ow_indexes ?w) r")
         (auto simp: checked_add_u64_def split: if_splits)
  next
    case True
    then have val: "validate_cached_record (ow_recovery ?w) (ow_indexes ?w) r = Inr ()" by simp
    obtain wal' ares where ap: "append_operation_record C io (journal_bytes J) r = (wal', ares)" by fastforce
    have J2: "J2 = set_wal J wal'" "res = Inr (case ares of Inl f \<Rightarrow> Inl f | Inr () \<Rightarrow> Inr r)"
      using eq True ap by (auto simp: set_wal_def checked_add_u64_def split: if_splits)
    from C ap show ?thesis
    proof (cases rule: append_record_cases)
      case (rejected cap e)
      then show ?thesis using J2 that(2) by simp
    next
      case (written b)
      then show ?thesis
        using J2 r journal_ok_publish [OF J val r(1,2) written(3)]
          writer_wf_publish(2) [of C J2 r] journal_ok_wf [OF J] val
        by (intro that(4) [of r]) simp_all
    next
      case (failed b n e)
      have "\<exists>T \<in> {journal_truth J, apply_truth (journal_truth J) t}. disk_holds C (fj_base J) (fj_disk J2) T"
        if "ow_next_seq ?w \<le> MAX_OPERATION_JOURNAL_RECOVERY_RECORDS"
        using failed_write_disk_holds [OF J C val r(1,2) _ failed(5,3,4), of n] failed J2(1) r that
        by simp
      then show ?thesis using failed(1) J2 by (intro that(3) [of e]) auto
    qed
  qed
qed

definition append_outcome ::
  "journal_codec \<Rightarrow> file_operation_journal \<Rightarrow> operation_journal_transition \<Rightarrow> file_operation_journal
     \<Rightarrow> operation_journal_record agent_result \<Rightarrow> bool" where
  "append_outcome C J t J' res \<longleftrightarrow> fj_base J' = fj_base J \<and>
     (case res of
        Inr r \<Rightarrow> jr_transition r = t \<and> ow_failed (fj_writer J') = None \<and> journal_ok C J'
               \<and> journal_truth J' = apply_truth (journal_truth J) t
               \<and> (length (journal_ops J) + 2 \<le> MAX_OPERATION_JOURNAL_RECOVERY_RECORDS \<longrightarrow>
                  last_seq_of J' \<le> MAX_OPERATION_JOURNAL_RECOVERY_RECORDS)
      | Inl e \<Rightarrow> journal_truth J' = journal_truth J
               \<and> (length (journal_ops J) + 2 \<le> MAX_OPERATION_JOURNAL_RECOVERY_RECORDS \<longrightarrow>
                  last_seq_of J \<le> MAX_OPERATION_JOURNAL_RECOVERY_RECORDS \<longrightarrow>
                  last_seq_of J' \<le> MAX_OPERATION_JOURNAL_RECOVERY_RECORDS)
               \<and> (ow_failed (fj_writer J') = None \<longrightarrow> journal_ok C J')
               \<and> (ow_failed (fj_writer J') \<noteq> None \<longrightarrow>
                  length (journal_ops J) + 2 \<le> MAX_OPERATION_JOURNAL_RECOVERY_RECORDS \<longrightarrow>
                  (\<exists>T \<in> {journal_truth J, apply_truth (journal_truth J) t}.
                     disk_holds C (fj_base J) (fj_disk J') T)))"

definition fenced :: "file_operation_journal \<Rightarrow> agent_error \<Rightarrow> file_operation_journal" where
  "fenced J e = J\<lparr>fj_writer := fst (fence_operation_writer (fj_writer J) e)\<rparr>"

lemma fence_journal_eq:
  "fence_journal J e = (fenced J e, Inl (snd (fence_operation_writer (fj_writer J) e)))"
  by (simp add: fence_journal_def fenced_def case_prod_beta)

text \<open>One attempt from a journal whose truth is that of \<open>J\<close>.\<close>

lemma attempt_outcome:
  assumes C: "codec_ok C" and J1: "journal_ok C J1" "ow_failed (fj_writer J1) = None"
    and same: "fj_base J1 = fj_base J" "journal_truth J1 = journal_truth J"
    and room: "length (journal_ops J) + 2 \<le> MAX_OPERATION_JOURNAL_RECOVERY_RECORDS \<longrightarrow>
      ow_next_seq (fj_writer J1) \<le> MAX_OPERATION_JOURNAL_RECOVERY_RECORDS"
    and t: "transition_validate t = Inr ()"
    and eq: "stage_and_append C io J1 t = (J2, res)"
  shows "(case res of
      Inl e \<Rightarrow> append_outcome C J t J2 (Inl e')
    | Inr (Inr r) \<Rightarrow> append_outcome C J t (publish_record J2 r) (Inr r)
    | Inr (Inl (RejectedBeforeWrite cap e)) \<Rightarrow>
        append_outcome C J t J2 (Inl e') \<and> journal_ok C J2 \<and> fj_writer J2 = fj_writer J1 \<and> fj_base J2 = fj_base J1
    | Inr (Inl (WriteFailed e)) \<Rightarrow> append_outcome C J t (fenced J2 e) (Inl e'))"
proof -
  have seq: "length (journal_ops J) + 2 \<le> MAX_OPERATION_JOURNAL_RECOVERY_RECORDS \<longrightarrow>
      last_seq_of J1 \<le> MAX_OPERATION_JOURNAL_RECOVERY_RECORDS"
    using room writer_wf_next_seq [OF journal_ok_wf [OF J1(1)]] by auto
  from C J1(1) t eq show ?thesis
  proof (cases rule: stage_and_append_cases)
    case (refused e)
    then show ?thesis using J1 same seq by (simp add: append_outcome_def)
  next
    case (rejected cap e)
    then show ?thesis using J1 same seq journal_ok_set_wal [OF J1(1)] by (simp add: append_outcome_def)
  next
    case (failed e)
    then show ?thesis
      using J1 same room seq
      by (simp add: append_outcome_def fenced_def fence_operation_writer_def Let_def)
  next
    case (stored r)
    then show ?thesis using J1 same room by (simp add: append_outcome_def)
  qed
qed


lemma retry_outcome:
  assumes C: "codec_ok C" and J1: "journal_ok C J1" "ow_failed (fj_writer J1) = None"
    and same: "fj_base J1 = fj_base J" "journal_truth J1 = journal_truth J"
      "length (journal_ops J1) = length (journal_ops J)"
      "last_seq_of J \<le> MAX_OPERATION_JOURNAL_RECOVERY_RECORDS \<longrightarrow>
       last_seq_of J1 \<le> MAX_OPERATION_JOURNAL_RECOVERY_RECORDS"
    and t: "transition_validate t = Inr ()"
    and eq: "retry_after_compaction C env J1 t = (J', res)"
  shows "append_outcome C J t J' res"
proof -
  obtain J2 cres where cm: "compact_locked C (ae_retry_compact env) J1 = (J2, cres)" by fastforce
  have oc: "compaction_outcome C J1 J2 cres" using compact_locked_ok [OF C J1 cm] .
  show ?thesis
  proof (cases cres)
    case (Inl e)
    then have "J' = J2" "res = Inl e" using eq cm by (simp_all add: retry_after_compaction_def)
    then show ?thesis
      using oc same by (auto simp: append_outcome_def compaction_outcome_def split: option.splits)
  next
    case (Inr m)
    then have J2: "ow_failed (fj_writer J2) = None" "journal_ok C J2" "fj_base J2 = fj_base J"
      "journal_truth J2 = journal_truth J"
      using oc same by (auto simp: compaction_outcome_def split: option.splits)
    have "ow_next_seq (fj_writer J2) = Suc (last_seq_of J2)"
      using writer_wf_next_seq [OF journal_ok_wf [OF J2(2)]] .
    then have room: "length (journal_ops J) + 2 \<le> MAX_OPERATION_JOURNAL_RECOVERY_RECORDS \<longrightarrow>
        ow_next_seq (fj_writer J2) \<le> MAX_OPERATION_JOURNAL_RECOVERY_RECORDS"
      using oc Inr same(3) by (auto simp: compaction_outcome_def)
    obtain J3 sres where st: "stage_and_append C (ae_retry_io env) J2 t = (J3, sres)" by fastforce
    note at = attempt_outcome [OF C J2(2,1,3,4) room t st]
    show ?thesis
      using eq at
      by (auto simp: retry_after_compaction_def cm Inr st fence_journal_eq
          split: sum.splits append_failure.splits)
  qed
qed

lemma append_outcome_compaction:
  assumes "compaction_outcome C J J1 res"
  shows "ow_failed (fj_writer J1) = None \<or> (\<exists>e. res = Inl e) \<Longrightarrow> append_outcome C J t J1 (Inl e')"
    and "res = Inr m \<Longrightarrow> ow_failed (fj_writer J1) = None"
  using assms by (auto simp: append_outcome_def compaction_outcome_def split: option.splits)

lemma append_at_limit_cases:
  assumes C: "codec_ok C" and J: "journal_ok C J" "ow_failed (fj_writer J) = None"
    and eq: "append_at_limit C env J = (J1, res)"
  obtains (stopped) e where "res = Inl e" "\<And>t. append_outcome C J t J1 (Inl e)"
  | (room) "res = Inr ()" "journal_ok C J1" "ow_failed (fj_writer J1) = None"
      "fj_base J1 = fj_base J" "journal_truth J1 = journal_truth J"
      "length (journal_ops J1) = length (journal_ops J)"
      "ow_next_seq (fj_writer J1) \<le> MAX_OPERATION_JOURNAL_RECOVERY_RECORDS"
proof (cases "MAX_OPERATION_JOURNAL_RECOVERY_RECORDS < ow_next_seq (fj_writer J)")
  case False
  then have "J1 = J" "res = Inr ()" using eq by (simp_all add: append_at_limit_def)
  then show ?thesis using J False by (intro room) simp_all
next
  case True
  obtain J2 cres where cm: "compact_locked C env J = (J2, cres)" by fastforce
  have oc: "compaction_outcome C J J2 cres" using compact_locked_ok [OF C J cm] .
  show ?thesis
  proof (cases cres)
    case (Inl e)
    then have "J1 = J2" "res = Inl e" using eq True cm by (simp_all add: append_at_limit_def)
    then show ?thesis using append_outcome_compaction(1) [OF oc] Inl stopped by blast
  next
    case (Inr m)
    then have h: "ow_failed (fj_writer J2) = None" using append_outcome_compaction(2) [OF oc] by simp
    show ?thesis
    proof (cases "MAX_OPERATION_JOURNAL_RECOVERY_RECORDS < ow_next_seq (fj_writer J2)")
      case limit: True
      then have "J1 = J2" "\<exists>e. res = Inl e" using eq True cm Inr by (auto simp: append_at_limit_def)
      then show ?thesis using append_outcome_compaction(1) [OF oc] h stopped by blast
    next
      case False
      then have "J1 = J2" "res = Inr ()" using eq True cm Inr by (auto simp: append_at_limit_def)
      then show ?thesis
        using oc h False by (intro room) (simp_all add: compaction_outcome_def)
    qed
  qed
qed

lemma append_and_sync_ok:
  assumes C: "codec_ok C" and J: "journal_ok C J" "ow_failed (fj_writer J) = None"
    and eq: "append_and_sync C env J t = (J', res)"
  shows "append_outcome C J t J' res"
proof (cases "transition_validate t = Inr () \<and> (\<forall>m. t \<noteq> Compacted m)")
  case False
  then have "J' = J" "\<exists>e. res = Inl e"
    using eq by (auto simp: append_and_sync_def split: sum.splits operation_journal_transition.splits)
  then show ?thesis using J by (auto simp: append_outcome_def)
next
  case True
  then have t: "transition_validate t = Inr ()" by simp
  obtain J1 ares where lim: "append_at_limit C (ae_compact env) J = (J1, ares)" by fastforce
  obtain J2 sres where st: "stage_and_append C (ae_io env) J1 t = (J2, sres)" by fastforce
  have eq': "(case ares of Inl e \<Rightarrow> (J1, Inl e) | Inr () \<Rightarrow>
      (case sres of
         Inl e \<Rightarrow> (J2, Inl e)
       | Inr (Inr r) \<Rightarrow> (publish_record J2 r, Inr r)
       | Inr (Inl (RejectedBeforeWrite capacity e)) \<Rightarrow>
           if capacity then retry_after_compaction C env J2 t else (J2, Inl e)
       | Inr (Inl (WriteFailed e)) \<Rightarrow> fence_journal J2 e)) = (J', res)"
    using eq True J(2) lim st
    by (auto simp: append_and_sync_def split: operation_journal_transition.splits sum.splits)
  from C J lim show ?thesis
  proof (cases rule: append_at_limit_cases)
    case (stopped e)
    then show ?thesis using eq' by simp
  next
    case room
    then have "length (journal_ops J) + 2 \<le> MAX_OPERATION_JOURNAL_RECOVERY_RECORDS \<longrightarrow>
      ow_next_seq (fj_writer J1) \<le> MAX_OPERATION_JOURNAL_RECOVERY_RECORDS" by blast
    note at = attempt_outcome [OF C room(2-5) this t st]
    show ?thesis
      using eq' at room retry_outcome [OF C, of J2 J t env J' res] t
        writer_wf_next_seq [OF journal_ok_wf [OF room(2)]]
      by (auto simp: fence_journal_eq split: sum.splits append_failure.splits if_splits)
  qed
qed

end
