(* ===== verification/Journal_Markers.thy ===== *)
theory Journal_Markers
  imports Journal_Compaction
begin

text \<open>
  Checkpoint markers: a marker describes a prefix of the current generation or the state that a compaction
  replaced; appends and compactions keep it valid.
\<close>

section \<open>Checkpoint markers\<close>

lemma compact_generation:
  assumes "compact_locked C env J = (J', Inr m)"
  shows "J' = J \<or> md_generation (ow_metadata (fj_writer J')) = Suc (md_generation (ow_metadata (fj_writer J)))"
proof -
  have "md_generation (ow_metadata (fj_writer J2)) = g"
    if "publish_compaction C env J1 g previous operations (Suc (length operations)) = (J2, Inr m)"
    for J1 J2 g previous operations
    using that by (cases rule: publish_compaction_cases) auto
  from this [of _ _ _ "sort_operations (journal_ops J)"] show ?thesis
    using assms
    by (auto simp: compact_locked_def Let_def split: if_splits sum.splits option.splits prod.splits)
qed

definition epoch_le :: "fold_state \<Rightarrow> fold_state \<Rightarrow> bool" where
  "epoch_le st st' \<longleftrightarrow> rv_authority_epoch (fst st) \<le> rv_authority_epoch (fst st')"

lemma recover_step_epoch:
  assumes "recover_step st r = Inr st'" "rv_last_seq (fst st) \<noteq> 0"
  shows "epoch_le st st'"
  using assms
  by (auto simp: recover_step_def fold_operation_record_def epoch_le_def Let_def record_validate_def
      split: if_splits prod.splits option.splits operation_journal_transition.splits)

lemma recover_records_epoch:
  "recover_records st rs = Inr st' \<Longrightarrow> rv_last_seq (fst st) \<noteq> 0 \<Longrightarrow> epoch_le st st'"
proof (induction rs arbitrary: st)
  case (Cons r rs)
  then obtain st1 where s: "recover_step st r = Inr st1" "recover_records st1 rs = Inr st'" by auto
  have "epoch_le st st1" using recover_step_epoch [OF s(1)] Cons.prems by blast
  moreover have "epoch_le st1 st'" using Cons.IH [OF s(2)] recover_step_seq [OF s(1)] by simp
  ultimately show ?case by (simp add: epoch_le_def)
qed (simp add: epoch_le_def)

text \<open>
  A marker is backed by a journal when some prefix of the records on disk recovers to exactly the
  state the marker names.
\<close>

definition marker_backed :: "journal_codec \<Rightarrow> file_operation_journal \<Rightarrow> authority_checkpoint_marker \<Rightarrow> bool" where
  "marker_backed C J m \<longleftrightarrow> (\<exists>rs rs' st full.
     encode_operation_frames C (rs @ rs') = Inr (journal_bytes J)
   \<and> recover_records (recovery_default, []) rs = Inr st
   \<and> recover_records st rs' = Inr full
   \<and> cached_refines (ow_recovery (fj_writer J)) (ow_indexes (fj_writer J)) full
   \<and> authority_checkpoint_marker_of C (ow_metadata (fj_writer J)) (finish_recovery st) = Inr m)"

lemma sort_operations_idem [simp]: "sort_operations (sort_operations ops) = sort_operations ops"
  by (simp add: sort_operations_def sort_key_id_if_sorted)

lemma marker_of_cached:
  assumes "cached_refines c ix st"
  shows "authority_checkpoint_marker_of C md (finish_recovery st) = authority_checkpoint_marker_of C md c"
  using finish_recovery_cached [OF assms] by (simp add: authority_checkpoint_marker_of_def)

lemma checkpoint_marker_backed:
  assumes "journal_ok C J" "last_seq_of J \<le> MAX_OPERATION_JOURNAL_RECOVERY_RECORDS"
    "journal_checkpoint_marker C J = Inr m"
  shows "marker_backed C J m"
proof -
  obtain st where st: "wal_holds C (journal_bytes J) [] st"
    "cached_refines (ow_recovery (fj_writer J)) (ow_indexes (fj_writer J)) st"
    using journal_ok_wal [OF assms(1,2)] .
  then obtain rs where "encode_operation_frames C (rs @ []) = Inr (journal_bytes J)"
    "recover_records (recovery_default, []) rs = Inr st"
    by (auto simp: wal_holds_def)
  moreover have "authority_checkpoint_marker_of C (ow_metadata (fj_writer J)) (finish_recovery st) = Inr m"
    using assms(3) marker_of_cached [OF st(2)] by (simp add: journal_checkpoint_marker_def)
  moreover have "recover_records st [] = Inr st" by simp
  ultimately show ?thesis
    using st(2) unfolding marker_backed_def by blast
qed

lemma recover_prefix:
  assumes "codec_ok C" "encode_operation_frames C (rs @ rs') = Inr wal"
    "recover_records (recovery_default, []) rs = Inr st" "length wal \<le> MAX_OPERATION_JOURNAL_FILE_BYTES"
  shows "recover_operation_prefix C wal (rv_last_seq (fst st)) = Inr (finish_recovery st)"
proof (cases "rs = []")
  case True
  then show ?thesis
    using assms by (auto simp: recover_operation_prefix_def recover_operation_file_until_def
        finish_recovery_def recovery_default_def sort_operations_def)
next
  case False
  have "length wal \<le> u64_max"
    using assms(4) by (simp add: MAX_OPERATION_JOURNAL_FILE_BYTES_def u64_max_def)
  then obtain lg where "recover_loop C (Some (rv_last_seq (fst st))) (length wal) (recovery_default, []) 0 0 wal
      = Inr (st, lg)"
    using recover_loop_prefix [OF assms(1,2) False assms(3), of 0 "length wal" 0 "[]"] by auto
  moreover have "rv_last_seq (fst st) \<noteq> 0"
    using recover_records_last_seq [OF assms(3)] False by simp
  moreover have "\<not> rv_truncated_tail (fst st)"
    using recover_records_torn [OF assms(3)] by (simp add: recovery_default_def)
  ultimately show ?thesis
    using assms(4) by (simp add: recover_operation_prefix_def recover_operation_file_until_def)
qed

lemma backed_marker_validates:
  assumes C: "codec_ok C" and J: "journal_ok C J" "ow_failed (fj_writer J) = None"
      "last_seq_of J \<le> MAX_OPERATION_JOURNAL_RECOVERY_RECORDS"
    and m: "marker_backed C J m"
  shows "journal_validate_marker C J m = Inr ()"
proof -
  let ?w = "fj_writer J"
  obtain rs rs' st full where b: "encode_operation_frames C (rs @ rs') = Inr (journal_bytes J)"
    "recover_records (recovery_default, []) rs = Inr st" "recover_records st rs' = Inr full"
    "rv_last_seq (fst full) = last_seq_of J"
    "rv_authority_epoch (fst full) = rv_authority_epoch (ow_recovery ?w)"
    "authority_checkpoint_marker_of C (ow_metadata ?w) (finish_recovery st) = Inr m"
    using m unfolding marker_backed_def cached_refines_def by blast
  have mk: "mk_journal_id m = md_journal_id (ow_metadata ?w)"
    "mk_generation m = md_generation (ow_metadata ?w)" "mk_last_seq m = rv_last_seq (fst st)"
    "mk_authority_epoch m = rv_authority_epoch (fst st)"
    using b(6) by (auto simp: authority_checkpoint_marker_of_def finish_recovery_def)
  have wf: "fold_wf st" using recover_records_wf [OF b(2)] by simp
  have "marker_validate m = Inr ()"
    using mk wf journal_ok_wf [OF J(1)]
    by (simp add: marker_validate_def writer_wf_def Let_def metadata_stored_def fold_wf_def)
  moreover have "rv_last_seq (fst st) \<le> last_seq_of J"
    using recover_records_last_seq [OF b(3)] b(4) by simp
  moreover have "rv_authority_epoch (fst st) \<le> rv_authority_epoch (ow_recovery ?w)"
  proof (cases "rv_last_seq (fst st) = 0")
    case True
    then have "rs = []" using recover_records_last_seq [OF b(2)] by simp
    then have "rv_authority_epoch (fst st) = 1" using b(2) by (auto simp: recovery_default_def)
    then show ?thesis using journal_ok_wf [OF J(1)] by (simp add: writer_wf_def Let_def)
  next
    case False
    then show ?thesis using recover_records_epoch [OF b(3)] b(5) by (simp add: epoch_le_def)
  qed
  moreover have "length (journal_bytes J) \<le> MAX_OPERATION_JOURNAL_FILE_BYTES"
    using journal_ok_wal [OF J(1,3)] unfolding wal_holds_def by metis
  then have "recover_operation_prefix C (journal_bytes J) (rv_last_seq (fst st)) = Inr (finish_recovery st)"
    by (rule recover_prefix [OF C b(1,2)])
  ultimately show ?thesis
    using mk b(6) J(2)
    by (simp add: journal_validate_marker_def Let_def ensure_operation_writer_healthy_def)
qed

lemma marker_backed_set_wal [simp]:
  "marker_backed C (set_wal J (journal_bytes J)) m = marker_backed C J m"
  by (simp add: marker_backed_def)

lemma marker_backed_publish:
  assumes "marker_backed C J m" "record_validate r = Inr ()"
    "validate_cached_record (ow_recovery (fj_writer J)) (ow_indexes (fj_writer J)) r = Inr ()"
    "jr_seq r \<le> MAX_OPERATION_JOURNAL_RECOVERY_RECORDS"
    "encode_operation_frames C [r] = Inr line"
  shows "marker_backed C (publish_record (set_wal J (journal_bytes J @ line)) r) m"
proof -
  let ?w = "fj_writer J"
  obtain rs rs' st full where b: "encode_operation_frames C (rs @ rs') = Inr (journal_bytes J)"
    "recover_records (recovery_default, []) rs = Inr st" "recover_records st rs' = Inr full"
    "cached_refines (ow_recovery ?w) (ow_indexes ?w) full"
    "authority_checkpoint_marker_of C (ow_metadata ?w) (finish_recovery st) = Inr m"
    using assms(1) unfolding marker_backed_def by blast
  obtain full' where f: "recover_step full r = Inr full'"
    "cached_refines (fst (apply_cached_record (ow_recovery ?w) (ow_indexes ?w) r))
       (snd (apply_cached_record (ow_recovery ?w) (ow_indexes ?w) r)) full'"
    using cached_step_refines [OF b(4) assms(2-4)] by blast
  have "encode_operation_frames C (rs @ (rs' @ [r])) = Inr (journal_bytes J @ line)"
    using b(1) assms(5) encode_frames_append [of C "rs @ rs'" "[r]"] by simp
  moreover have "recover_records st (rs' @ [r]) = Inr full'"
    using recover_records_snoc [OF b(3)] f(1) by simp
  ultimately have "\<exists>rs rs' st full.
      encode_operation_frames C (rs @ rs') = Inr (journal_bytes J @ line)
    \<and> recover_records (recovery_default, []) rs = Inr st \<and> recover_records st rs' = Inr full
    \<and> cached_refines (fst (apply_cached_record (ow_recovery ?w) (ow_indexes ?w) r))
       (snd (apply_cached_record (ow_recovery ?w) (ow_indexes ?w) r)) full
    \<and> authority_checkpoint_marker_of C (ow_metadata ?w) (finish_recovery st) = Inr m"
    using b(2,5) f(2) by blast
  then show ?thesis
    unfolding marker_backed_def
    by (simp add: publish_record_def Let_def case_prod_beta journal_bytes_def read_file_def
        del: split_paired_Ex)
qed

text \<open>
  A stored record is the next line of the WAL the writer had, unless a compaction moved the journal to
  a later generation first.
\<close>

lemma stage_stored:
  assumes "codec_ok C" "journal_ok C J" "transition_validate t = Inr ()"
    "stage_and_append C io J t = (J2, Inr (Inr r))"
  obtains line where "J2 = set_wal J (journal_bytes J @ line)" "encode_operation_frames C [r] = Inr line"
    "record_validate r = Inr ()"
    "validate_cached_record (ow_recovery (fj_writer J)) (ow_indexes (fj_writer J)) r = Inr ()"
    "jr_seq r = ow_next_seq (fj_writer J)"
proof -
  let ?r = "\<lparr>jr_version = OPERATION_JOURNAL_VERSION, jr_seq = ow_next_seq (fj_writer J), jr_transition = t\<rparr>"
  obtain wal' ares where ap: "append_operation_record C io (journal_bytes J) ?r = (wal', ares)" by fastforce
  have J2: "J2 = set_wal J wal'" "r = ?r" "ares = Inr ()"
    "validate_cached_record (ow_recovery (fj_writer J)) (ow_indexes (fj_writer J)) ?r = Inr ()"
    using assms(4) ap
    by (auto simp: stage_and_append_def Let_def set_wal_def split: sum.splits option.splits)
  have "record_validate ?r = Inr ()"
    using assms(3) journal_ok_wf [OF assms(2)] by (simp add: record_validate_def writer_wf_def Let_def)
  moreover obtain b where "wal' = journal_bytes J @ b @ [10]" "encode_operation_frames C [?r] = Inr (b @ [10])"
    by (rule append_record_cases [OF assms(1) ap]) (simp_all add: J2(3))
  ultimately show ?thesis using J2 by (intro that [of "b @ [10]"]) simp_all
qed

abbreviation journal_generation :: "file_operation_journal \<Rightarrow> nat" where
  "journal_generation J \<equiv> md_generation (ow_metadata (fj_writer J))"

lemma stage_generation: "stage_and_append C io J t = (J2, res) \<Longrightarrow> fj_writer J2 = fj_writer J"
  by (auto simp: stage_and_append_def Let_def split: sum.splits option.splits prod.splits)

lemma append_and_sync_unfold:
  assumes "transition_validate t = Inr ()" "\<forall>m. t \<noteq> Compacted m" "ow_failed (fj_writer J) = None"
    "append_at_limit C (ae_compact env) J = (J1, ares)" "stage_and_append C (ae_io env) J1 t = (J2, sres)"
  shows "append_and_sync C env J t = (case ares of Inl e \<Rightarrow> (J1, Inl e) | Inr () \<Rightarrow>
      (case sres of
         Inl e \<Rightarrow> (J2, Inl e)
       | Inr (Inr r) \<Rightarrow> (publish_record J2 r, Inr r)
       | Inr (Inl (RejectedBeforeWrite capacity e)) \<Rightarrow>
           if capacity then retry_after_compaction C env J2 t else (J2, Inl e)
       | Inr (Inl (WriteFailed e)) \<Rightarrow> fence_journal J2 e))"
  using assms
  by (auto simp: append_and_sync_def split: operation_journal_transition.splits sum.splits)

lemma append_refused_early:
  assumes "\<not> (transition_validate t = Inr () \<and> (\<forall>m. t \<noteq> Compacted m) \<and> ow_failed (fj_writer J) = None)"
  shows "\<exists>e. append_and_sync C env J t = (J, Inl e)"
  using assms
  by (auto simp: append_and_sync_def split: sum.splits operation_journal_transition.splits option.splits)

lemma append_stored_path:
  assumes C: "codec_ok C" and J: "journal_ok C J" "ow_failed (fj_writer J) = None"
    and eq: "append_and_sync C env J t = (J', Inr r)"
    and gen: "journal_generation J' = journal_generation J"
  obtains J1 io J2 where "J1 = J \<or> J1 = set_wal J (journal_bytes J)"
    "stage_and_append C io J1 t = (J2, Inr (Inr r))" "J' = publish_record J2 r"
    "ow_next_seq (fj_writer J) \<le> MAX_OPERATION_JOURNAL_RECOVERY_RECORDS" "transition_validate t = Inr ()"
proof -
  have t: "transition_validate t = Inr ()" "\<forall>m. t \<noteq> Compacted m"
    using eq append_refused_early [of t J C env] by auto
  have pub: "journal_generation (publish_record J2 r) = journal_generation J2" for J2
    by (simp add: publish_record_def Let_def case_prod_beta)
  obtain J1 ares where lim: "append_at_limit C (ae_compact env) J = (J1, ares)" by fastforce
  obtain J2 res where st: "stage_and_append C (ae_io env) J1 t = (J2, res)" by fastforce
  note eq = eq [unfolded append_and_sync_unfold [OF t J(2) lim st]]
  have "ares = Inr ()" using eq by (cases ares) simp_all
  then have J1: "J1 = J \<or> journal_generation J1 = Suc (journal_generation J)"
    "ow_next_seq (fj_writer J1) \<le> MAX_OPERATION_JOURNAL_RECOVERY_RECORDS"
    using lim compact_generation [of C "ae_compact env" J]
    by (auto simp: append_at_limit_def split: if_splits sum.splits prod.splits)
  obtain sres where sres: "res = Inr sres" using eq \<open>ares = Inr ()\<close> by (cases res) simp_all
  note eq = eq [unfolded \<open>ares = Inr ()\<close> sres, simplified]
  note gen2 = stage_generation [OF st]
  show ?thesis
  proof (cases sres)
    case (Inr r')
    then have "J' = publish_record J2 r" "r' = r"
      using eq by auto
    moreover from this have "J1 = J" using J1(1) gen gen2 pub by auto
    ultimately show ?thesis using that st sres Inr t J1 by blast
  next
    case (Inl f)
    then obtain e where f: "f = RejectedBeforeWrite True e"
      and retry: "retry_after_compaction C env J2 t = (J', Inr r)"
      using eq by (auto simp: fence_journal_eq split: if_splits append_failure.splits)
    obtain J3 m where cm: "compact_locked C (ae_retry_compact env) J2 = (J3, Inr m)"
      using retry by (auto simp: retry_after_compaction_def split: sum.splits prod.splits)
    obtain J4 where st4: "stage_and_append C (ae_retry_io env) J3 t = (J4, Inr (Inr r))" "J' = publish_record J4 r"
      using retry cm by (auto simp: retry_after_compaction_def fence_journal_eq
          split: sum.splits prod.splits append_failure.splits)
    have g: "journal_generation J3 = journal_generation J" "journal_generation J2 = journal_generation J1"
      using gen st4 pub stage_generation [OF st4(1)] gen2 by simp_all
    have j3: "J3 = J2"
    proof (rule ccontr)
      assume "J3 \<noteq> J2"
      then have "journal_generation J3 = Suc (journal_generation J2)"
        using compact_generation [OF cm] by blast
      then show False using g J1(1) by (elim disjE) simp_all
    qed
    then have j1: "J1 = J" using g J1(1) by (elim disjE) simp_all
    note j = j3 j1
    have "J2 = set_wal J (journal_bytes J)"
      by (rule stage_and_append_cases [OF C J(1) t(1), of "ae_io env" J2 "Inr sres"])
        (use st sres Inl f j in \<open>simp_all\<close>)
    then show ?thesis using that st4 j t J1(2) by blast
  qed
qed

lemma append_keeps_marker:
  assumes C: "codec_ok C" and J: "journal_ok C J" "ow_failed (fj_writer J) = None"
    and m: "marker_backed C J m"
    and eq: "append_and_sync C env J t = (J', Inr r)"
    and gen: "journal_generation J' = journal_generation J"
  shows "marker_backed C J' m \<and> last_seq_of J' \<le> MAX_OPERATION_JOURNAL_RECOVERY_RECORDS"
proof -
  obtain J1 io J2 where p: "J1 = J \<or> J1 = set_wal J (journal_bytes J)"
    "stage_and_append C io J1 t = (J2, Inr (Inr r))" "J' = publish_record J2 r"
    "ow_next_seq (fj_writer J) \<le> MAX_OPERATION_JOURNAL_RECOVERY_RECORDS" "transition_validate t = Inr ()"
    using append_stored_path [OF C J eq gen] .
  have J1: "journal_ok C J1" "marker_backed C J1 m" "fj_writer J1 = fj_writer J"
    using p(1) J(1) m journal_ok_set_wal by auto
  obtain line where l: "J2 = set_wal J1 (journal_bytes J1 @ line)" "encode_operation_frames C [r] = Inr line"
    "record_validate r = Inr ()"
    "validate_cached_record (ow_recovery (fj_writer J1)) (ow_indexes (fj_writer J1)) r = Inr ()"
    "jr_seq r = ow_next_seq (fj_writer J1)"
    using stage_stored [OF C J1(1) p(5,2)] .
  then show ?thesis
    using marker_backed_publish [OF J1(2) l(3,4)] p J1(3)
    by (simp add: publish_record_def Let_def case_prod_beta)
qed

end
