(* ===== verification/Wire_Codec.thy ===== *)
theory Wire_Codec
  imports Journal_Compaction
begin

text \<open>
  A concrete codec that satisfies \<open>codec_ok\<close>, so that the theorems about the journal are not empty: encoders and decoders
  for the types of the journal, composed from a few combinators, and a digit-per-byte text without line feeds.
\<close>

section \<open>Wire combinators\<close>

type_synonym 'a encoder = "'a \<Rightarrow> nat list"

type_synonym 'a decoder = "nat list \<Rightarrow> ('a \<times> nat list) option"

definition wire :: "'a encoder \<Rightarrow> 'a decoder \<Rightarrow> bool" where
  "wire e d \<longleftrightarrow> (\<forall>x r. d (e x @ r) = Some (x, r))"

fun de_nat :: "nat decoder" where
  "de_nat [] = None"
| "de_nat (n # r) = Some (n, r)"

definition en_pair :: "'a encoder \<Rightarrow> 'b encoder \<Rightarrow> ('a \<times> 'b) encoder" where
  "en_pair e1 e2 p = e1 (fst p) @ e2 (snd p)"

definition de_pair :: "'a decoder \<Rightarrow> 'b decoder \<Rightarrow> ('a \<times> 'b) decoder" where
  "de_pair d1 d2 ns = (case d1 ns of None \<Rightarrow> None | Some (a, r) \<Rightarrow>
     (case d2 r of None \<Rightarrow> None | Some (b, r') \<Rightarrow> Some ((a, b), r')))"

definition de_map :: "('a \<Rightarrow> 'b) \<Rightarrow> 'a decoder \<Rightarrow> 'b decoder" where
  "de_map f d ns = (case d ns of None \<Rightarrow> None | Some (a, r) \<Rightarrow> Some (f a, r))"

definition en_list :: "'a encoder \<Rightarrow> 'a list encoder" where
  "en_list e xs = length xs # concat (map e xs)"

fun de_many :: "'a decoder \<Rightarrow> nat \<Rightarrow> 'a list decoder" where
  "de_many d 0 ns = Some ([], ns)"
| "de_many d (Suc n) ns = (case d ns of None \<Rightarrow> None | Some (a, r) \<Rightarrow>
     (case de_many d n r of None \<Rightarrow> None | Some (as, r') \<Rightarrow> Some (a # as, r')))"

fun de_list :: "'a decoder \<Rightarrow> 'a list decoder" where
  "de_list d [] = None"
| "de_list d (n # r) = de_many d n r"

lemma wire_nat: "wire (\<lambda>n. [n]) de_nat"
  by (simp add: wire_def)

lemma wire_pair: "wire e1 d1 \<Longrightarrow> wire e2 d2 \<Longrightarrow> wire (en_pair e1 e2) (de_pair d1 d2)"
  by (simp add: wire_def en_pair_def de_pair_def)

lemma wire_iso: "wire e d \<Longrightarrow> (\<And>x. g (f x) = x) \<Longrightarrow> wire (\<lambda>x. e (f x)) (de_map g d)"
  by (simp add: wire_def de_map_def)

lemma wire_list: "wire e d \<Longrightarrow> wire (en_list e) (de_list d)"
proof -
  assume w: "wire e d"
  have "de_many d (length xs) (concat (map e xs) @ r) = Some (xs, r)" for xs r
    by (induction xs) (use w in \<open>simp_all add: wire_def\<close>)
  then show ?thesis by (simp add: wire_def en_list_def)
qed

section \<open>The types of the journal\<close>

fun of_option :: "'a option \<Rightarrow> 'a list" where
  "of_option None = []"
| "of_option (Some x) = [x]"

definition to_option :: "'a list \<Rightarrow> 'a option" where
  "to_option xs = (case xs of [] \<Rightarrow> None | x # _ \<Rightarrow> Some x)"

definition en_word :: "'a::len word encoder" where "en_word w = [unat w]"
definition de_word :: "'a::len word decoder" where "de_word = de_map of_nat de_nat"

definition en_text :: "nat list encoder" where "en_text = en_list (\<lambda>n. [n])"
definition de_text :: "nat list decoder" where "de_text = de_list de_nat"

definition en_opt :: "'a encoder \<Rightarrow> 'a option encoder" where
  "en_opt e x = en_list e (of_option x)"
definition de_opt :: "'a decoder \<Rightarrow> 'a option decoder" where
  "de_opt d = de_map to_option (de_list d)"

lemma wire_word: "wire en_word de_word"
proof -
  have "wire (\<lambda>w :: 'a word. [unat w]) (de_map of_nat de_nat)" by (rule wire_iso [OF wire_nat]) simp
  then show ?thesis by (simp add: wire_def en_word_def de_word_def)
qed

lemma wire_text: "wire en_text de_text"
  unfolding en_text_def de_text_def by (rule wire_list [OF wire_nat])

lemma wire_opt: "wire e d \<Longrightarrow> wire (en_opt e) (de_opt d)"
proof -
  assume "wire e d"
  moreover have "to_option (of_option x) = x" for x :: "'a option"
    by (cases x) (simp_all add: to_option_def)
  ultimately have "wire (\<lambda>x. en_list e (of_option x)) (de_map to_option (de_list d))"
    by (intro wire_iso wire_list)
  then show ?thesis by (simp add: wire_def en_opt_def de_opt_def)
qed

definition en_identity :: "tool_operation_identity encoder" where
  "en_identity i = en_pair en_word (en_pair (en_opt en_word) (en_pair en_word (en_pair (en_opt en_word)
     (en_pair en_word (en_pair (\<lambda>n. [n]) (en_pair en_text (en_pair en_text (en_list en_word))))))))
     (oi_run_id i, oi_task_id i, oi_turn_id i, oi_scope_id i, oi_operation_id i, oi_generation i,
      oi_call_id i, oi_tool_name i, oi_argument_digest i)"

definition de_identity :: "tool_operation_identity decoder" where
  "de_identity = de_map (\<lambda>(a, b, c, d, e, f, g, h, i). \<lparr>oi_run_id = a, oi_task_id = b, oi_turn_id = c,
       oi_scope_id = d, oi_operation_id = e, oi_generation = f, oi_call_id = g, oi_tool_name = h,
       oi_argument_digest = i\<rparr>)
     (de_pair de_word (de_pair (de_opt de_word) (de_pair de_word (de_pair (de_opt de_word)
       (de_pair de_word (de_pair de_nat (de_pair de_text (de_pair de_text (de_list de_word)))))))))"

lemmas wires = wire_nat wire_word wire_text wire_opt wire_list wire_pair

lemma wire_identity: "wire en_identity de_identity"
  unfolding en_identity_def de_identity_def
  by (rule wire_iso, (rule wires)+) simp

text \<open>A terminal is its tag, its texts and whether its effect is durable.\<close>

fun terminal_parts :: "operation_terminal \<Rightarrow> nat \<times> rust_str list \<times> rust_str option" where
  "terminal_parts CompletedValue = (0, [], None)"
| "terminal_parts (Refused e) = (1, [e], None)"
| "terminal_parts (NotApplied e) = (2, [e], None)"
| "terminal_parts (Applied Durable v) = (3, [], v)"
| "terminal_parts (Applied (DurabilityFailed e) v) = (3, [e], v)"
| "terminal_parts (OutcomeUnknown e) = (4, [e], None)"
| "terminal_parts CancelledBeforeCommit = (5, [], None)"

definition terminal_join :: "nat \<times> rust_str list \<times> rust_str option \<Rightarrow> operation_terminal" where
  "terminal_join p = (case p of (n, ts, v) \<Rightarrow>
     if n = 0 then CompletedValue else if n = 1 then Refused (hd ts) else if n = 2 then NotApplied (hd ts)
     else if n = 3 then Applied (case ts of [] \<Rightarrow> Durable | e # _ \<Rightarrow> DurabilityFailed e) v
     else if n = 4 then OutcomeUnknown (hd ts) else CancelledBeforeCommit)"

lemma terminal_join_parts: "terminal_join (terminal_parts t) = t"
  by (cases t rule: terminal_parts.cases) (simp_all add: terminal_join_def)

definition en_terminal :: "operation_terminal encoder" where
  "en_terminal t = en_pair (\<lambda>n. [n]) (en_pair (en_list en_text) (en_opt en_text)) (terminal_parts t)"

definition de_terminal :: "operation_terminal decoder" where
  "de_terminal = de_map terminal_join (de_pair de_nat (de_pair (de_list de_text) (de_opt de_text)))"

lemma wire_terminal: "wire en_terminal de_terminal"
  unfolding en_terminal_def de_terminal_def
  by (rule wire_iso, (rule wires)+) (rule terminal_join_parts)

fun state_parts :: "operation_state \<Rightarrow> nat \<times> uuid option \<times> operation_terminal option" where
  "state_parts Accepted = (0, None, None)"
| "state_parts (Executing e) = (1, e, None)"
| "state_parts (Prepared e) = (2, Some e, None)"
| "state_parts (CommitStarted e) = (3, Some e, None)"
| "state_parts (Terminal e t) = (4, e, Some t)"

definition state_join :: "nat \<times> uuid option \<times> operation_terminal option \<Rightarrow> operation_state" where
  "state_join p = (case p of (n, e, t) \<Rightarrow>
     if n = 0 then Accepted else if n = 1 then Executing e else if n = 2 then Prepared (the e)
     else if n = 3 then CommitStarted (the e) else Terminal e (the t))"

lemma state_join_parts: "state_join (state_parts s) = s"
  by (cases s) (simp_all add: state_join_def)

definition en_snapshot :: "operation_snapshot encoder" where
  "en_snapshot s = en_pair en_identity (en_pair (\<lambda>n. [n]) (en_pair (en_opt en_word) (en_opt en_terminal)))
     (snap_identity s, state_parts (snap_state s))"

definition de_snapshot :: "operation_snapshot decoder" where
  "de_snapshot = de_map (\<lambda>(i, p). \<lparr>snap_identity = i, snap_state = state_join p\<rparr>)
     (de_pair de_identity (de_pair de_nat (de_pair (de_opt de_word) (de_opt de_terminal))))"

lemma wire_snapshot: "wire en_snapshot de_snapshot"
  unfolding en_snapshot_def de_snapshot_def
  by (rule wire_iso, (rule wires wire_identity wire_terminal)+) (simp add: state_join_parts)

definition en_marker :: "authority_checkpoint_marker encoder" where
  "en_marker m = en_pair en_word (en_pair (\<lambda>n. [n]) (en_pair (\<lambda>n. [n]) (en_pair (\<lambda>n. [n]) (en_list en_word))))
     (mk_journal_id m, mk_generation m, mk_authority_epoch m, mk_last_seq m, mk_state_digest m)"

definition de_marker :: "authority_checkpoint_marker decoder" where
  "de_marker = de_map (\<lambda>(a, b, c, d, e). \<lparr>mk_journal_id = a, mk_generation = b, mk_authority_epoch = c,
       mk_last_seq = d, mk_state_digest = e\<rparr>)
     (de_pair de_word (de_pair de_nat (de_pair de_nat (de_pair de_nat (de_list de_word)))))"

lemma wire_marker: "wire en_marker de_marker"
  unfolding en_marker_def de_marker_def
  by (rule wire_iso, (rule wires)+) simp

fun transition_parts :: "operation_journal_transition
     \<Rightarrow> nat list \<times> operation_snapshot option \<times> authority_checkpoint_marker option" where
  "transition_parts (EpochAdvanced a b) = ([a, b], None, None)"
| "transition_parts (OperationUpsert s) = ([], Some s, None)"
| "transition_parts (Compacted m) = ([], None, Some m)"

definition transition_join :: "nat list \<times> operation_snapshot option \<times> authority_checkpoint_marker option
     \<Rightarrow> operation_journal_transition" where
  "transition_join p = (case p of (_, Some s, _) \<Rightarrow> OperationUpsert s | (_, _, Some m) \<Rightarrow> Compacted m
     | (ns, _, _) \<Rightarrow> EpochAdvanced (ns ! 0) (ns ! 1))"

lemma transition_join_parts: "transition_join (transition_parts t) = t"
  by (cases t) (simp_all add: transition_join_def)

definition en_record :: "operation_journal_record encoder" where
  "en_record r = en_pair (\<lambda>n. [n]) (en_pair (\<lambda>n. [n])
       (en_pair en_text (en_pair (en_opt en_snapshot) (en_opt en_marker))))
     (jr_version r, jr_seq r, transition_parts (jr_transition r))"

definition de_record :: "operation_journal_record decoder" where
  "de_record = de_map (\<lambda>(v, q, t). \<lparr>jr_version = v, jr_seq = q, jr_transition = transition_join t\<rparr>)
     (de_pair de_nat (de_pair de_nat (de_pair de_text (de_pair (de_opt de_snapshot) (de_opt de_marker)))))"

lemma wire_record: "wire en_record de_record"
  unfolding en_record_def de_record_def
  by (rule wire_iso, (rule wires wire_snapshot wire_marker)+) (simp add: transition_join_parts)

definition en_frame :: "stored_operation_frame encoder" where
  "en_frame f = en_pair en_record en_text (sf_record f, sf_checksum f)"

definition de_frame :: "stored_operation_frame decoder" where
  "de_frame = de_map (\<lambda>(r, c). \<lparr>sf_record = r, sf_checksum = c\<rparr>) (de_pair de_record de_text)"

lemma wire_frame: "wire en_frame de_frame"
  unfolding en_frame_def de_frame_def
  by (rule wire_iso, (rule wires wire_record)+) simp

definition en_metadata :: "authority_journal_metadata encoder" where
  "en_metadata m = en_pair (\<lambda>n. [n]) (en_pair en_word (en_pair (\<lambda>n. [n]) (en_list en_marker)))
     (md_version m, md_journal_id m, md_generation m, md_ancestors m)"

definition de_metadata :: "authority_journal_metadata decoder" where
  "de_metadata = de_map (\<lambda>(a, b, c, d). \<lparr>md_version = a, md_journal_id = b, md_generation = c, md_ancestors = d\<rparr>)
     (de_pair de_nat (de_pair de_word (de_pair de_nat (de_list de_marker))))"

lemma wire_metadata: "wire en_metadata de_metadata"
  unfolding en_metadata_def de_metadata_def
  by (rule wire_iso, (rule wires wire_marker)+) simp

definition en_stored_metadata :: "stored_authority_journal_metadata encoder" where
  "en_stored_metadata m = en_pair en_metadata en_text (sm_metadata m, sm_checksum m)"

definition de_stored_metadata :: "stored_authority_journal_metadata decoder" where
  "de_stored_metadata = de_map (\<lambda>(r, c). \<lparr>sm_metadata = r, sm_checksum = c\<rparr>) (de_pair de_metadata de_text)"

lemma wire_stored_metadata: "wire en_stored_metadata de_stored_metadata"
  unfolding en_stored_metadata_def de_stored_metadata_def
  by (rule wire_iso, (rule wires wire_metadata)+) simp

section \<open>Bytes\<close>

text \<open>Numbers are written in decimal, each followed by a comma.\<close>

definition nats_to_bytes :: "nat list \<Rightarrow> byte list" where
  "nats_to_bytes ns = concat (map (\<lambda>n. map of_nat (dec n) @ [44]) ns)"

function bytes_to_nats :: "byte list \<Rightarrow> nat list" where
  "bytes_to_nats bs =
     (if bs = [] then []
      else decimal_value (map unat (takeWhile (\<lambda>b. b \<noteq> 44) bs))
           # bytes_to_nats (drop (Suc (length (takeWhile (\<lambda>b. b \<noteq> 44) bs))) bs))"
  by pat_completeness auto
termination
  by (relation "measure length") auto

declare bytes_to_nats.simps [simp del]

lemma dec_bytes:
  "map unat (map of_nat (dec n) :: byte list) = dec n"
  "\<forall>b \<in> set (map of_nat (dec n) :: byte list). b \<noteq> 44 \<and> b \<noteq> 10"
proof -
  have d: "\<forall>c \<in> set (dec n). 48 \<le> c \<and> c \<le> 57" using dec_digits(1) [of n] by (simp add: list_all_iff)
  then have u: "unat (of_nat c :: byte) = c" if "c \<in> set (dec n)" for c
  proof -
    have "c < 256" using d that by fastforce
    then show ?thesis by (simp add: unat_of_nat)
  qed
  then show "map unat (map of_nat (dec n) :: byte list) = dec n"
    by (simp add: map_idI)
  show "\<forall>b \<in> set (map of_nat (dec n) :: byte list). b \<noteq> 44 \<and> b \<noteq> 10"
  proof
    fix b :: byte assume "b \<in> set (map of_nat (dec n))"
    then obtain c where c: "c \<in> set (dec n)" "b = of_nat c" by auto
    then have "48 \<le> unat b" using d u by auto
    then show "b \<noteq> 44 \<and> b \<noteq> 10" by auto
  qed
qed

lemma bytes_to_nats_to_bytes [simp]: "bytes_to_nats (nats_to_bytes ns) = ns"
proof (induction ns)
  case (Cons n ns)
  let ?d = "map of_nat (dec n) :: byte list"
  have split: "nats_to_bytes (n # ns) = ?d @ 44 # nats_to_bytes ns" by (simp add: nats_to_bytes_def)
  have tw: "takeWhile (\<lambda>b. b \<noteq> 44) (?d @ 44 # nats_to_bytes ns) = ?d"
    using dec_bytes(2) [of n] by (subst takeWhile_append2) auto
  show ?case
    unfolding split by (subst bytes_to_nats.simps) (simp only: tw, simp add: Cons.IH dec_bytes(1) [simplified])
qed (simp add: nats_to_bytes_def bytes_to_nats.simps)

lemma nats_to_bytes_no_newline: "10 \<notin> set (nats_to_bytes ns)"
  using dec_bytes(2) by (induction ns) (auto simp: nats_to_bytes_def)

lemma nats_to_bytes_nonempty: "ns \<noteq> [] \<Longrightarrow> nats_to_bytes ns \<noteq> []"
  by (cases ns) (simp_all add: nats_to_bytes_def)

definition from_bytes :: "'a decoder \<Rightarrow> byte list \<Rightarrow> 'a option" where
  "from_bytes d bs = (case d (bytes_to_nats bs) of Some (x, []) \<Rightarrow> Some x | _ \<Rightarrow> None)"

lemma from_bytes_encoded: "wire e d \<Longrightarrow> from_bytes d (nats_to_bytes (e x)) = Some x"
  unfolding wire_def from_bytes_def by (metis append_Nil2 bytes_to_nats_to_bytes option.simps(5) prod.simps(2) list.simps(4))

definition checksum32 :: "byte list \<Rightarrow> digest" where
  "checksum32 bs = take 32 (bs @ replicate 32 0)"

definition decimal_codec :: journal_codec where
  "decimal_codec = \<lparr>
     jc_record_to_vec = (\<lambda>r. Some (nats_to_bytes (en_record r))),
     jc_frame_to_vec = (\<lambda>f. Some (nats_to_bytes (en_frame f))),
     jc_frame_from_slice = from_bytes de_frame,
     jc_truth_to_vec = (\<lambda>n e ops. Some (nats_to_bytes (n # e # en_list en_snapshot ops))),
     jc_metadata_to_vec = (\<lambda>m. Some (nats_to_bytes (en_metadata m))),
     jc_stored_metadata_to_vec = (\<lambda>m. Some (nats_to_bytes (en_stored_metadata m))),
     jc_stored_metadata_from_slice = from_bytes de_stored_metadata,
     jc_sha256 = checksum32\<rparr>"

lemma decimal_codec_ok: "codec_ok decimal_codec"
proof -
  have "en_stored_metadata m \<noteq> []" for m
    by (simp add: en_stored_metadata_def en_metadata_def en_pair_def)
  then show ?thesis
    by (simp add: codec_ok_def decimal_codec_def from_bytes_encoded [OF wire_frame]
        from_bytes_encoded [OF wire_stored_metadata] nats_to_bytes_no_newline nats_to_bytes_nonempty)
qed

end
