(* ===== verification/Journal_Samples.thy ===== *)
theory Journal_Samples
  imports Journal_Markers Wire_Codec
begin

text \<open>
  A fresh directory, any directory, and the concrete journal that the witnesses use: opened under the codec of
  \<open>Wire_Codec\<close>, with one sample operation.
\<close>

section \<open>A fresh directory, and any directory\<close>

lemma journal_open_fresh:
  assumes "codec_ok C" "open_env_ok env" "jd_files disk = []" "jd_metadata disk = None"
    "encode_authority_metadata C \<lparr>md_version = AUTHORITY_JOURNAL_METADATA_VERSION,
        md_journal_id = oe_fresh_id env, md_generation = AUTHORITY_JOURNAL_GENERATION,
        md_ancestors = []\<rparr> = Inr b"
  shows "\<exists>disk' J. journal_open C env base disk = (disk', Inr (J, recovery_default)) \<and> journal_ok C J
           \<and> journal_truth J = (1, {}) \<and> ow_recovery (fj_writer J) = recovery_default
           \<and> fj_disk J = disk' \<and> fj_base J = base \<and> ow_failed (fj_writer J) = None
           \<and> journal_bytes J = [] \<and> ow_metadata (fj_writer J) = \<lparr>md_version = AUTHORITY_JOURNAL_METADATA_VERSION,
               md_journal_id = oe_fresh_id env, md_generation = AUTHORITY_JOURNAL_GENERATION,
               md_ancestors = []\<rparr>"
proof -
  define m where "m = \<lparr>md_version = AUTHORITY_JOURNAL_METADATA_VERSION,
        md_journal_id = oe_fresh_id env, md_generation = AUTHORITY_JOURNAL_GENERATION,
        md_ancestors = []\<rparr>"
  let ?st = "(recovery_default, []) :: fold_state"
  let ?disk = "(write_file (write_file disk base []) base [])\<lparr>jd_metadata := Some b\<rparr>"
  have fin: "finish_recovery (mark_torn [] ?st) = recovery_default"
    by (simp add: mark_torn_def finish_recovery_def recovery_default_def sort_operations_def)
  have w: "wal_holds C [] [] ?st"
    unfolding wal_holds_def torn_tail_def by (intro exI [of _ "[]"]) simp
  have md: "metadata_stored C ?disk m"
    using assms(2,5) by (simp add: metadata_stored_def m_def open_env_ok_def AUTHORITY_JOURNAL_GENERATION_def)
  have gen: "validate_recovered_generation m (fst ?st) = Inr ()"
    by (simp add: validate_recovered_generation_def m_def recovery_default_def AUTHORITY_JOURNAL_GENERATION_def)
  have path: "authority_wal_path base (md_generation m) = base"
    by (simp add: authority_wal_path_def m_def AUTHORITY_JOURNAL_GENERATION_def)
  have fl: "map_of (jd_files ?disk) (authority_wal_path base (md_generation m)) = Some []"
    unfolding path by simp
  obtain J where J: "open_recovered base ?disk m recovery_default = Inr (J, recovery_default)"
    "journal_ok C J" "journal_truth J = fold_truth ?st" "fj_disk J = ?disk" "fj_base J = base"
    "ow_failed (fj_writer J) = None" "ow_recovery (fj_writer J) = recovery_default"
    "ow_metadata (fj_writer J) = m"
    using open_recovered_ok [OF w md gen fl, of "[]"] unfolding fin by blast
  then have "journal_bytes J = []" using fl by (simp add: journal_bytes_def read_file_def)
  have rec: "recover_operation_file C RepairOk [] = ([], Inr recovery_default)"
    using recover_wal_file [OF assms(1) w] unfolding fin by simp
  have wal1: "authority_wal_path base AUTHORITY_JOURNAL_GENERATION = base"
    using path by (simp add: m_def)
  have "load_or_create_authority_metadata C env (write_file (write_file disk base []) base []) = (?disk, Inr m)"
    using assms(2,4,5)
    by (simp add: load_or_create_authority_metadata_def Let_def persist_authority_metadata_def
        open_env_ok_def m_def)
  then have "journal_open C env base disk = (?disk, Inr (J, recovery_default))"
    using assms(2-4) J(1) rec
    by (simp add: journal_open_def open_env_ok_def Let_def wal1 list_authority_wal_generations_def
        List.map_filter_def)
  moreover have "fold_truth ?st = (1, {})"
    by (simp add: fold_truth_def recovery_default_def table_values_def)
  ultimately show ?thesis
    using J \<open>journal_bytes J = []\<close> unfolding m_def by (intro exI conjI) (assumption | simp)+
qed

text \<open>Whatever bytes are on disk, what a recovery admits is well-formed.\<close>

lemma recover_loop_wf:
  "recover_loop C stop sz st offset lg remaining = Inr (st', lg') \<Longrightarrow> fold_wf st \<Longrightarrow> fold_wf st'"
proof (induction C stop sz st offset lg remaining rule: recover_loop.induct)
  case (1 C stop sz st offset lg remaining)
  show ?case
  proof (cases "remaining = []")
    case True
    then show ?thesis using "1.prems" by simp
  next
    case False
    obtain bytes rest where rd: "read_until_newline remaining = (bytes, rest)" by fastforce
    show ?thesis
    proof (cases "last bytes \<noteq> 10")
      case True
      then show ?thesis
        using "1.prems" False rd
        by (subst (asm) recover_loop.simps)
           (auto simp: checked_add_u64_def fold_wf_def split: if_splits)
    next
      case nl: False
      then obtain r st1 where step: "recover_step st r = Inr st1"
        "offset + length bytes \<le> u64_max" "\<not> MAX_OPERATION_JOURNAL_FRAME_BYTES + 1 < length bytes"
        "st' = st1 \<or> stop \<noteq> Some (rv_last_seq (fst st1)) \<and>
           recover_loop C stop sz st1 (offset + length bytes) (offset + length bytes) rest = Inr (st', lg')"
        using "1.prems" False rd
        by (subst (asm) recover_loop.simps)
           (auto simp: checked_add_u64_def split: if_splits)
      have wf1: "fold_wf st1" using recover_step_wf [OF step(1)] "1.prems" by blast
      have "checked_add_u64 offset (length bytes) = Some (offset + length bytes)" using step(2) by simp
      note IH = "1.IH" [OF False rd [symmetric] this nl step(3) _ _ wf1]
      from step(4) show ?thesis
        by (elim disjE conjE) (use wf1 IH in auto)
    qed
  qed
qed

section \<open>A sample journal\<close>

text \<open>The concrete values the witnesses use: a fresh journal under the decimal codec, one operation.\<close>

definition sample_open_env :: open_env where
  "sample_open_env = \<lparr>oe_dir_ok = True, oe_lock_ok = True, oe_wal_ok = True, oe_sync_ok = True,
     oe_repair = RepairOk, oe_publish = PublishOk, oe_fresh_id = 7\<rparr>"

definition empty_disk :: journal_disk where
  "empty_disk = \<lparr>jd_files = [], jd_metadata = None\<rparr>"

definition sample_base :: rust_str where
  "sample_base = lit ''operations.jsonl''"

definition sample_journal :: file_operation_journal where
  "sample_journal = fst (projr (snd (journal_open decimal_codec sample_open_env sample_base empty_disk)))"

definition sample_identity :: tool_operation_identity where
  "sample_identity = \<lparr>oi_run_id = 1, oi_task_id = None, oi_turn_id = 2, oi_scope_id = None,
     oi_operation_id = 3, oi_generation = 1, oi_call_id = lit ''c'', oi_tool_name = lit ''edit'',
     oi_argument_digest = replicate 32 0\<rparr>"

definition sample_upsert :: "operation_state \<Rightarrow> operation_journal_transition" where
  "sample_upsert s = OperationUpsert \<lparr>snap_identity = sample_identity, snap_state = s\<rparr>"

definition good_compact :: compact_env where
  "good_compact = \<lparr>ce_candidate = CandidateReady, ce_write_fault = None, ce_seek_ok = True,
     ce_publish = PublishOk, ce_remove_ok = True\<rparr>"

definition append_with :: "nat option \<Rightarrow> append_env" where
  "append_with fault = \<lparr>ae_compact = good_compact, ae_io = \<lparr>io_stat_ok = True, io_write_fault = fault\<rparr>,
     ae_retry_compact = good_compact, ae_retry_io = \<lparr>io_stat_ok = True, io_write_fault = fault\<rparr>\<rparr>"

lemma sample_open_env_ok: "open_env_ok sample_open_env"
  by (simp add: open_env_ok_def sample_open_env_def is_nil_def)

lemma sample_metadata_length:
  "length (nats_to_bytes (en_stored_metadata \<lparr>sm_metadata =
     \<lparr>md_version = 1, md_journal_id = 7, md_generation = 1, md_ancestors = []\<rparr>,
     sm_checksum = checksum_hex decimal_codec (nats_to_bytes (en_metadata
       \<lparr>md_version = 1, md_journal_id = 7, md_generation = 1, md_ancestors = []\<rparr>))\<rparr>)) = 203"
  by code_simp

lemma sample_metadata_encodes:
  "\<exists>b. encode_authority_metadata decimal_codec \<lparr>md_version = AUTHORITY_JOURNAL_METADATA_VERSION,
        md_journal_id = oe_fresh_id sample_open_env, md_generation = AUTHORITY_JOURNAL_GENERATION,
        md_ancestors = []\<rparr> = Inr b"
  using sample_metadata_length
  by (simp add: encode_authority_metadata_def sample_open_env_def AUTHORITY_JOURNAL_METADATA_VERSION_def
      AUTHORITY_JOURNAL_GENERATION_def MAX_AUTHORITY_JOURNAL_METADATA_BYTES_def decimal_codec_def)

lemma sample_journal_ok:
  "journal_ok decimal_codec sample_journal" "journal_truth sample_journal = (1, {})"
  "ow_recovery (fj_writer sample_journal) = recovery_default" "ow_failed (fj_writer sample_journal) = None"
  "journal_bytes sample_journal = []"
  "ow_metadata (fj_writer sample_journal) = \<lparr>md_version = 1, md_journal_id = 7, md_generation = 1, md_ancestors = []\<rparr>"
proof -
  obtain b where b: "encode_authority_metadata decimal_codec \<lparr>md_version = AUTHORITY_JOURNAL_METADATA_VERSION,
        md_journal_id = oe_fresh_id sample_open_env, md_generation = AUTHORITY_JOURNAL_GENERATION,
        md_ancestors = []\<rparr> = Inr b" using sample_metadata_encodes by blast
  obtain disk' J where J: "journal_open decimal_codec sample_open_env sample_base empty_disk
      = (disk', Inr (J, recovery_default))" "journal_ok decimal_codec J" "journal_truth J = (1, {})"
      "ow_recovery (fj_writer J) = recovery_default" "ow_failed (fj_writer J) = None" "journal_bytes J = []"
      "ow_metadata (fj_writer J) = \<lparr>md_version = AUTHORITY_JOURNAL_METADATA_VERSION,
        md_journal_id = oe_fresh_id sample_open_env, md_generation = AUTHORITY_JOURNAL_GENERATION,
        md_ancestors = []\<rparr>"
    using journal_open_fresh [OF decimal_codec_ok sample_open_env_ok _ _ b, of empty_disk sample_base]
    by (auto simp: empty_disk_def)
  have "sample_journal = J" by (simp add: sample_journal_def J(1))
  then show "journal_ok decimal_codec sample_journal" "journal_truth sample_journal = (1, {})"
    "ow_recovery (fj_writer sample_journal) = recovery_default" "ow_failed (fj_writer sample_journal) = None"
    "journal_bytes sample_journal = []"
    "ow_metadata (fj_writer sample_journal) = \<lparr>md_version = 1, md_journal_id = 7, md_generation = 1, md_ancestors = []\<rparr>"
    using J by (simp_all add: sample_open_env_def AUTHORITY_JOURNAL_METADATA_VERSION_def
        AUTHORITY_JOURNAL_GENERATION_def)
qed

lemma sample_journal_room:
  "last_seq_of sample_journal \<le> MAX_OPERATION_JOURNAL_RECOVERY_RECORDS"
  "length (journal_ops sample_journal) + 2 \<le> MAX_OPERATION_JOURNAL_RECOVERY_RECORDS"
  by (simp_all add: sample_journal_ok(3) recovery_default_def MAX_OPERATION_JOURNAL_RECOVERY_RECORDS_def)

lemma sample_upsert_validates:
  "transition_validate (sample_upsert Accepted) = Inr ()"
  "transition_validate (sample_upsert (Executing (Some 5))) = Inr ()"
  by code_simp+

end
