(* ===== verification/Journal_Properties.thy ===== *)
theory Journal_Properties
  imports Journal_Samples
begin

text \<open>
  The properties of the authority journal: crash atomicity, refinement of the abstract truth, compaction, torn tails,
  progress, the sticky fence, markers, and what an open admits.
\<close>

section \<open>Properties of the journal\<close>

lemma append_reopen_truth:
  assumes "codec_ok C" "journal_ok C J" "ow_failed (fj_writer J) = None"
    "last_seq_of J \<le> MAX_OPERATION_JOURNAL_RECOVERY_RECORDS"
    "length (journal_ops J) + 2 \<le> MAX_OPERATION_JOURNAL_RECOVERY_RECORDS"
    "append_and_sync C env J t = (J', res)"
  shows "\<exists>T. disk_holds C (fj_base J) (fj_disk J') T \<and> T \<in> {journal_truth J, apply_truth (journal_truth J) t}
     \<and> (\<forall>r. res = Inr r \<longrightarrow> T = apply_truth (journal_truth J) t)
     \<and> (ow_failed (fj_writer J') = None \<longrightarrow> T = journal_truth J')"
proof -
  have oc: "append_outcome C J t J' res" by (rule append_and_sync_ok [OF assms(1-3,6)])
  show ?thesis
  proof (cases "ow_failed (fj_writer J') = None")
    case True
    then have "journal_ok C J'" "fj_base J' = fj_base J"
      "last_seq_of J' \<le> MAX_OPERATION_JOURNAL_RECOVERY_RECORDS"
      "journal_truth J' \<in> {journal_truth J, apply_truth (journal_truth J) t}"
      "\<forall>r. res = Inr r \<longrightarrow> journal_truth J' = apply_truth (journal_truth J) t"
      using oc assms(4,5) by (auto simp: append_outcome_def split: sum.splits)
    then show ?thesis using journal_ok_disk_holds [of C J'] by metis
  next
    case False
    then obtain e where e: "res = Inl e" using oc by (cases res) (simp_all add: append_outcome_def)
    then have "\<exists>T \<in> {journal_truth J, apply_truth (journal_truth J) t}. disk_holds C (fj_base J) (fj_disk J') T"
      using oc assms(5) False by (simp add: append_outcome_def)
    then obtain T where "T \<in> {journal_truth J, apply_truth (journal_truth J) t}"
      "disk_holds C (fj_base J) (fj_disk J') T" by (rule bexE)
    then show ?thesis using False e by (intro exI [of _ T]) (simp del: not_None_eq)
  qed
qed

text \<open>
  C1. An append is atomic under every failure. Whatever the operating system answers while a healthy
  journal appends a transition (a failed stat, a write that stops after any number of bytes, a failed
  sync, a compaction that fails at any step), a fresh open of the directory succeeds, and recovers the
  authority truth from before the append or from after it; after a reported success it is the truth
  from after it. The file stays inside the recovery limit as long as fewer than 65535 operations are
  known.
\<close>
theorem append_is_crash_atomic:
  assumes "codec_ok C" "journal_ok C J" "ow_failed (fj_writer J) = None"
    "last_seq_of J \<le> MAX_OPERATION_JOURNAL_RECOVERY_RECORDS"
    "length (journal_ops J) + 2 \<le> MAX_OPERATION_JOURNAL_RECOVERY_RECORDS"
    "append_and_sync C env J t = (J', res)" "open_env_ok oenv"
  shows "\<exists>disk J2 rv. journal_open C oenv (fj_base J) (fj_disk J') = (disk, Inr (J2, rv))
     \<and> journal_ok C J2 \<and> truth_of rv \<in> {journal_truth J, apply_truth (journal_truth J) t}
     \<and> (\<forall>r. res = Inr r \<longrightarrow> truth_of rv = apply_truth (journal_truth J) t)"
proof -
  obtain T where T: "disk_holds C (fj_base J) (fj_disk J') T"
    "T \<in> {journal_truth J, apply_truth (journal_truth J) t}"
    "\<forall>r. res = Inr r \<longrightarrow> T = apply_truth (journal_truth J) t"
    using append_reopen_truth [OF assms(1-6)] by blast
  show ?thesis using journal_open_holds [OF assms(1,7) T(1)] T(2,3) by metis
qed

theorem append_is_crash_atomic_witness:
  "\<exists>disk J2 rv. journal_open decimal_codec sample_open_env (fj_base sample_journal)
       (fj_disk (fst (append_and_sync decimal_codec (append_with (Some 5)) sample_journal (sample_upsert Accepted))))
       = (disk, Inr (J2, rv))
     \<and> truth_of rv \<in> {(1, {}), (1, {\<lparr>snap_identity = sample_identity, snap_state = Accepted\<rparr>})}"
proof -
  obtain J' res where ap: "append_and_sync decimal_codec (append_with (Some 5)) sample_journal (sample_upsert Accepted)
      = (J', res)" by fastforce
  have "\<exists>disk J2 rv. journal_open decimal_codec sample_open_env (fj_base sample_journal) (fj_disk J')
        = (disk, Inr (J2, rv)) \<and> journal_ok decimal_codec J2
     \<and> truth_of rv \<in> {journal_truth sample_journal, apply_truth (journal_truth sample_journal) (sample_upsert Accepted)}
     \<and> (\<forall>r. res = Inr r \<longrightarrow> truth_of rv = apply_truth (journal_truth sample_journal) (sample_upsert Accepted))"
    by (rule append_is_crash_atomic [OF decimal_codec_ok sample_journal_ok(1,4) sample_journal_room ap
          sample_open_env_ok])
  then show ?thesis unfolding sample_journal_ok(2) ap by (auto simp: sample_upsert_def)
qed

text \<open>
  C18. The writer refines the abstract authority truth: an append that reports success keeps the
  invariant of the journal and applies exactly the transition; an append that reports an error leaves
  the truth in memory as it was, and leaves the invariant in place unless it fenced the writer.
\<close>
theorem append_refines_truth:
  assumes "codec_ok C" "journal_ok C J" "ow_failed (fj_writer J) = None"
    "append_and_sync C env J t = (J', res)"
  shows "case res of
      Inr r \<Rightarrow> journal_ok C J' \<and> ow_failed (fj_writer J') = None \<and> jr_transition r = t
             \<and> journal_truth J' = apply_truth (journal_truth J) t
    | Inl e \<Rightarrow> journal_truth J' = journal_truth J
             \<and> (ow_failed (fj_writer J') = None \<longrightarrow> journal_ok C J')"
  using append_and_sync_ok [OF assms] by (auto simp: append_outcome_def split: sum.splits)

theorem append_refines_truth_witness:
  "case append_and_sync decimal_codec (append_with None) sample_journal (sample_upsert Accepted) of
     (J', Inr r) \<Rightarrow> journal_truth J' = apply_truth (1, {}) (sample_upsert Accepted)
   | (J', Inl e) \<Rightarrow> journal_truth J' = (1, {})"
proof -
  obtain J' res where ap: "append_and_sync decimal_codec (append_with None) sample_journal (sample_upsert Accepted)
      = (J', res)" by fastforce
  show ?thesis
    using append_refines_truth [OF decimal_codec_ok sample_journal_ok(1,4) ap]
    unfolding ap by (cases res) (simp_all add: sample_journal_ok(2))
qed

text \<open>
  C19. Compaction never changes what the journal means. Whatever fails during it, the truth in memory
  is unchanged and a fresh open of the directory recovers the same truth; a compaction that leaves the
  writer usable also leaves the invariant in place.
\<close>
theorem compaction_preserves_truth:
  assumes "codec_ok C" "journal_ok C J" "ow_failed (fj_writer J) = None"
    "last_seq_of J \<le> MAX_OPERATION_JOURNAL_RECOVERY_RECORDS"
    "journal_compact C env J = (J', res)" "open_env_ok oenv"
  shows "journal_truth J' = journal_truth J \<and> (ow_failed (fj_writer J') = None \<longrightarrow> journal_ok C J')
     \<and> (\<exists>disk J2 rv. journal_open C oenv (fj_base J) (fj_disk J') = (disk, Inr (J2, rv))
                   \<and> truth_of rv = journal_truth J)"
proof -
  have oc: "compaction_outcome C J J' res"
    using compact_locked_ok [OF assms(1-3)] assms(5) by (simp add: journal_compact_def)
  then have "disk_holds C (fj_base J) (fj_disk J') (journal_truth J)"
    using assms(4) journal_ok_disk_holds [of C J']
    by (cases "ow_failed (fj_writer J')") (simp_all add: compaction_outcome_def)
  then have "\<exists>disk J2 rv. journal_open C oenv (fj_base J) (fj_disk J') = (disk, Inr (J2, rv))
      \<and> truth_of rv = journal_truth J"
    using journal_open_holds [OF assms(1,6)] by metis
  then show ?thesis using oc by (simp add: compaction_outcome_def split: option.splits)
qed

theorem compaction_preserves_truth_witness:
  "\<exists>disk J2 rv. journal_open decimal_codec sample_open_env (fj_base sample_journal)
      (fj_disk (fst (journal_compact decimal_codec good_compact sample_journal))) = (disk, Inr (J2, rv))
     \<and> truth_of rv = (1, {})"
proof -
  obtain J' res where cm: "journal_compact decimal_codec good_compact sample_journal = (J', res)" by fastforce
  show ?thesis
    using compaction_preserves_truth [OF decimal_codec_ok sample_journal_ok(1,4) sample_journal_room(1) cm
        sample_open_env_ok]
    unfolding cm sample_journal_ok(2) by simp
qed

lemma wal_holds_not_torn:
  assumes "wal_holds C wal tail st"
  shows "\<not> rv_truncated_tail (fst st)"
proof -
  obtain rs where "recover_records (recovery_default, []) rs = Inr st"
    using assms by (auto simp: wal_holds_def)
  then have "rv_truncated_tail (fst st) = rv_truncated_tail (fst (recovery_default, [] :: operation_table))"
    by (rule recover_records_torn)
  then show ?thesis by (simp add: recovery_default_def)
qed

text \<open>
  C29. A torn tail is dropped, and nothing else. Behind the complete frames of a healthy journal put any
  bytes a crash can leave there (a line with no line feed, of at most one frame); a fresh open recovers
  the journal's truth and cuts the file back to exactly the complete frames.
\<close>
theorem torn_tail_is_repaired:
  assumes "codec_ok C" "journal_ok C J" "last_seq_of J \<le> MAX_OPERATION_JOURNAL_RECOVERY_RECORDS"
    "torn_tail tail" "length (journal_bytes J @ tail) \<le> MAX_OPERATION_JOURNAL_FILE_BYTES"
    "open_env_ok oenv"
  shows "\<exists>disk J2 rv. journal_open C oenv (fj_base J) (fj_disk (set_wal J (journal_bytes J @ tail)))
        = (disk, Inr (J2, rv))
     \<and> truth_of rv = journal_truth J \<and> (rv_truncated_tail rv \<longleftrightarrow> tail \<noteq> [])
     \<and> read_file disk (journal_wal J) = journal_bytes J"
proof -
  let ?J = "set_wal J (journal_bytes J @ tail)"
  let ?m = "ow_metadata (fj_writer J)"
  obtain st where st: "wal_holds C (journal_bytes J) [] st"
    "cached_refines (ow_recovery (fj_writer J)) (ow_indexes (fj_writer J)) st"
    using journal_ok_wal [OF assms(2,3)] .
  have w: "wal_holds C (journal_bytes J @ tail) tail st" by (rule wal_holds_torn [OF st(1) assms(4,5)])
  note wf = journal_ok_wf [OF assms(2)]
  have md: "metadata_stored C (fj_disk ?J) ?m" using wf by (simp add: writer_wf_def Let_def metadata_stored_def)
  have "validate_recovered_generation ?m (fst st) = Inr ()"
    using wf st(2) validate_generation_cong [of "fst st" "ow_recovery (fj_writer J)"]
    by (simp add: writer_wf_def Let_def cached_refines_def)
  from journal_open_wal [OF assms(1,6) md _ w this, of "fj_base J"]
  obtain disk J2 where J2: "journal_open C oenv (fj_base J) (fj_disk ?J)
        = (disk, Inr (J2, finish_recovery (mark_torn tail st)))"
      "read_file disk (journal_wal J) = take (length (journal_bytes J @ tail) - length tail) (journal_bytes J @ tail)"
    by auto
  have "rv_truncated_tail (finish_recovery (mark_torn tail st)) \<longleftrightarrow> tail \<noteq> []"
    using wal_holds_not_torn [OF st(1)] by (simp add: finish_recovery_def mark_torn_def)
  moreover have "truth_of (finish_recovery (mark_torn tail st)) = journal_truth J"
    using cached_refines_truth [OF fold_wf_refines [of "mark_torn tail st"]] wal_holds_wf [OF st(1)]
      cached_refines_truth [OF st(2)] by simp
  ultimately show ?thesis using J2 by simp
qed

theorem torn_tail_is_repaired_witness:
  "\<exists>disk J2 rv. journal_open decimal_codec sample_open_env (fj_base sample_journal)
      (fj_disk (set_wal sample_journal (journal_bytes sample_journal @ [49, 44]))) = (disk, Inr (J2, rv))
     \<and> truth_of rv = (1, {}) \<and> rv_truncated_tail rv"
proof -
  have "length (journal_bytes sample_journal @ [49, 44]) \<le> MAX_OPERATION_JOURNAL_FILE_BYTES"
    by (simp add: sample_journal_ok(5) MAX_OPERATION_JOURNAL_FILE_BYTES_def)
  moreover have "torn_tail [49, 44]" by (simp add: torn_tail_def MAX_OPERATION_JOURNAL_FRAME_BYTES_def)
  ultimately show ?thesis
    using torn_tail_is_repaired [OF decimal_codec_ok sample_journal_ok(1) sample_journal_room(1) _ _
        sample_open_env_ok, of "[49, 44]"]
    unfolding sample_journal_ok(2) by auto
qed

lemma cached_admits_upsert:
  assumes "indexes_ok (rv_operations c) ix" "validate_cached_record c ix r = Inr ()"
    "jr_transition r = OperationUpsert s"
  shows "upsert_admitted (set (rv_operations c)) s"
proof (cases "ix (snap_id s)")
  case None
  then have "\<forall>p \<in> set (rv_operations c). snap_id p \<noteq> snap_id s"
    using indexes_None [OF assms(1)] by (metis imageI)
  then show ?thesis
    using assms(2,3) None by (simp add: upsert_admitted_def validate_cached_record_def split: if_splits)
next
  case (Some i)
  note i = indexes_nth [OF assms(1) Some]
  have "p = rv_operations c ! i" if "p \<in> set (rv_operations c)" "snap_id p = snap_id s" for p
  proof -
    have "inj_on snap_id (set (rv_operations c))" using assms(1) by (simp add: indexes_ok_def distinct_map)
    then show ?thesis by (rule inj_onD) (use that i in simp_all)
  qed
  moreover have "\<exists>p \<in> set (rv_operations c). snap_id p = snap_id s" using i nth_mem by blast
  ultimately show ?thesis
    using assms(2,3) Some i
    by (auto simp: upsert_admitted_def validate_cached_record_def Let_def split: if_splits)
qed

lemma append_stored_stage:
  assumes C: "codec_ok C" and J: "journal_ok C J" "ow_failed (fj_writer J) = None"
    and eq: "append_and_sync C env J t = (J', Inr r)"
  obtains J1 io J2 where "journal_ok C J1" "journal_truth J1 = journal_truth J"
    "stage_and_append C io J1 t = (J2, Inr (Inr r))" "transition_validate t = Inr ()"
proof -
  have t: "transition_validate t = Inr ()" "\<forall>m. t \<noteq> Compacted m"
    using eq append_refused_early [of t J C env] by auto
  obtain J1 ares where lim: "append_at_limit C (ae_compact env) J = (J1, ares)" by fastforce
  obtain J2 res where st: "stage_and_append C (ae_io env) J1 t = (J2, res)" by fastforce
  note eq = eq [unfolded append_and_sync_unfold [OF t J(2) lim st]]
  from C J lim show ?thesis
  proof (cases rule: append_at_limit_cases)
    case (stopped e)
    then show ?thesis using eq by simp
  next
    case room
    note eq = eq [unfolded room(1), simplified]
    from C room(2) t(1) st show ?thesis
    proof (cases rule: stage_and_append_cases)
      case (rejected cap e)
      then have retry: "retry_after_compaction C env J2 t = (J', Inr r)"
        using eq by (auto split: if_splits)
      have J2: "journal_ok C J2" "ow_failed (fj_writer J2) = None" "journal_truth J2 = journal_truth J"
        using rejected room journal_ok_set_wal by simp_all
      obtain J3 m where cm: "compact_locked C (ae_retry_compact env) J2 = (J3, Inr m)"
        using retry by (auto simp: retry_after_compaction_def split: sum.splits prod.splits)
      obtain J4 where "stage_and_append C (ae_retry_io env) J3 t = (J4, Inr (Inr r))"
        using retry cm by (auto simp: retry_after_compaction_def fence_journal_eq
          split: sum.splits prod.splits append_failure.splits)
      moreover have "journal_ok C J3" "journal_truth J3 = journal_truth J"
        using compact_locked_ok [OF C J2(1,2) cm] J2(3)
        by (simp_all add: compaction_outcome_def split: option.splits)
      ultimately show ?thesis using that t by blast
    next
      case (stored r')
      then show ?thesis using eq that [OF room(2,5)] st t by auto
    qed (use eq in \<open>simp_all add: fence_journal_eq\<close>)
  qed
qed

lemma append_admits_upsert:
  assumes "codec_ok C" "journal_ok C J" "ow_failed (fj_writer J) = None"
    "append_and_sync C env J (OperationUpsert s) = (J', Inr r)"
  shows "upsert_admitted (snd (journal_truth J)) s"
proof -
  obtain J1 io J2 where J1: "journal_ok C J1" "journal_truth J1 = journal_truth J"
    "stage_and_append C io J1 (OperationUpsert s) = (J2, Inr (Inr r))"
    "transition_validate (OperationUpsert s) = Inr ()"
    using append_stored_stage [OF assms] .
  have v: "validate_cached_record (ow_recovery (fj_writer J1)) (ow_indexes (fj_writer J1)) r = Inr ()"
    by (rule stage_stored [OF assms(1) J1(1,4,3)])
  have "jr_transition r = OperationUpsert s"
    by (rule stage_and_append_cases [OF assms(1) J1(1,4,3)]) simp_all
  then have "upsert_admitted (set (journal_ops J1)) s"
    using cached_admits_upsert [OF _ v] journal_ok_wf [OF J1(1)] by (simp add: writer_wf_def Let_def)
  then show ?thesis using J1(2) by (simp add: truth_of_def)
qed

text \<open>
  C30. The durable history of an operation only moves forward. When an append of an operation snapshot
  reports success and the journal already knew that operation, the identity is unchanged and the state
  either is the same or has a strictly higher rank; a terminal state never changes again, an operation
  reaches \<open>CommitStarted\<close> only from \<open>Prepared\<close> with the same effect, and an operation it did not know
  starts as accepted or as a cancellation reservation.
\<close>
theorem append_moves_forward:
  assumes "codec_ok C" "journal_ok C J" "ow_failed (fj_writer J) = None"
    "append_and_sync C env J (OperationUpsert s) = (J', Inr r)"
  shows "(\<forall>p \<in> snd (journal_truth J). snap_id p = snap_id s \<longrightarrow>
            snap_identity p = snap_identity s
          \<and> (snap_state p = snap_state s \<or> state_rank (snap_state p) < state_rank (snap_state s))
          \<and> (is_terminal (snap_state p) \<longrightarrow> s = p)
          \<and> (\<forall>e. snap_state s = CommitStarted e \<longrightarrow> snap_state p \<in> {Prepared e, CommitStarted e}))
       \<and> ((\<forall>p \<in> snd (journal_truth J). snap_id p \<noteq> snap_id s) \<longrightarrow> is_first_state (snap_state s))"
proof -
  have "upsert_admitted (snd (journal_truth J)) s" by (rule append_admits_upsert [OF assms])
  then show ?thesis
    using valid_transition_rank valid_transition_commit
    by (fastforce simp: upsert_admitted_def elim!: is_terminal.elims)
qed

lemma admitted_is_cached:
  assumes "writer_wf C J" "transition_admitted (journal_truth J) (jr_transition r)"
    "jr_seq r = ow_next_seq (fj_writer J)" "ow_next_seq (fj_writer J) \<le> u64_max"
  shows "validate_cached_record (ow_recovery (fj_writer J)) (ow_indexes (fj_writer J)) r = Inr ()"
proof -
  let ?c = "ow_recovery (fj_writer J)" and ?ix = "ow_indexes (fj_writer J)"
  have seq: "jr_seq r = Suc (rv_last_seq ?c)" "Suc (rv_last_seq ?c) \<le> u64_max"
    using assms writer_wf_next_seq [OF assms(1)] by simp_all
  have ix: "indexes_ok (rv_operations ?c) ?ix" using assms(1) by (simp add: writer_wf_def Let_def)
  show ?thesis
  proof (cases "jr_transition r")
    case (OperationUpsert s)
    then have adm: "upsert_admitted (set (rv_operations ?c)) s" using assms(2) by (simp add: truth_of_def)
    show ?thesis
    proof (cases "?ix (snap_id s)")
      case None
      then have "\<forall>p \<in> set (rv_operations ?c). snap_id p \<noteq> snap_id s"
        using indexes_None [OF ix] by (metis imageI)
      then show ?thesis
        using adm OperationUpsert None seq
        by (simp add: validate_cached_record_def upsert_admitted_def checked_add_u64_def)
    next
      case (Some i)
      then show ?thesis
        using adm OperationUpsert seq indexes_nth [OF ix Some] nth_mem [of i "rv_operations ?c"]
        by (simp add: validate_cached_record_def upsert_admitted_def checked_add_u64_def Let_def)
    qed
  qed (use assms(2) seq in \<open>simp_all add: validate_cached_record_def truth_of_def checked_add_u64_def\<close>)
qed

lemma append_progress_helper:
  assumes C: "codec_ok C" and J: "journal_ok C J" "ow_failed (fj_writer J) = None"
    and seq: "ow_next_seq (fj_writer J) \<le> MAX_OPERATION_JOURNAL_RECOVERY_RECORDS"
    and t: "transition_validate t = Inr ()" "transition_admitted (journal_truth J) t"
    and io: "ae_io env = \<lparr>io_stat_ok = True, io_write_fault = None\<rparr>"
    and enc: "encode_operation_frame C \<lparr>jr_version = OPERATION_JOURNAL_VERSION,
        jr_seq = ow_next_seq (fj_writer J), jr_transition = t\<rparr> = Inr b"
      "length b \<le> MAX_OPERATION_JOURNAL_FRAME_BYTES"
      "length (journal_bytes J) + length b + 1 \<le> MAX_OPERATION_JOURNAL_FILE_BYTES"
  shows "append_and_sync C env J t =
     (publish_record (set_wal J (journal_bytes J @ b @ [10]))
        \<lparr>jr_version = OPERATION_JOURNAL_VERSION, jr_seq = ow_next_seq (fj_writer J), jr_transition = t\<rparr>,
      Inr \<lparr>jr_version = OPERATION_JOURNAL_VERSION, jr_seq = ow_next_seq (fj_writer J), jr_transition = t\<rparr>)"
proof -
  let ?r = "\<lparr>jr_version = OPERATION_JOURNAL_VERSION, jr_seq = ow_next_seq (fj_writer J), jr_transition = t\<rparr>"
  have small: "ow_next_seq (fj_writer J) + 1 \<le> u64_max"
    using seq by (simp add: MAX_OPERATION_JOURNAL_RECOVERY_RECORDS_def u64_max_def)
  have tc: "\<forall>m. t \<noteq> Compacted m" using t(2) by (cases "journal_truth J") auto
  have v: "validate_cached_record (ow_recovery (fj_writer J)) (ow_indexes (fj_writer J)) ?r = Inr ()"
    by (rule admitted_is_cached [OF journal_ok_wf [OF J(1)]]) (use t small in simp_all)
  have lim: "append_at_limit C (ae_compact env) J = (J, Inr ())"
    using seq by (simp add: append_at_limit_def)
  have "length (journal_bytes J) + (length b + 1) \<le> u64_max"
    using enc(3) by (simp add: MAX_OPERATION_JOURNAL_FILE_BYTES_def u64_max_def)
  then have "append_operation_record C (ae_io env) (journal_bytes J) ?r
      = (journal_bytes J @ b @ [10], Inr ())"
    using enc io by (simp add: append_operation_record_def persist_operation_frame_def checked_add_u64_def)
  then have "stage_and_append C (ae_io env) J t = (set_wal J (journal_bytes J @ b @ [10]), Inr (Inr ?r))"
    using v small by (simp add: stage_and_append_def Let_def set_wal_def checked_add_u64_def)
  from append_and_sync_unfold [OF t(1) tc J(2) lim this] show ?thesis by simp
qed

text \<open>
  C31. The journal makes progress: a transition that validates and that the truth admits is stored, when
  the writer is healthy, the operating system reports no error and the frame fits the frame and file
  limits.
\<close>
theorem append_progress:
  assumes "codec_ok C" "journal_ok C J" "ow_failed (fj_writer J) = None"
    "ow_next_seq (fj_writer J) \<le> MAX_OPERATION_JOURNAL_RECOVERY_RECORDS"
    "transition_validate t = Inr ()" "transition_admitted (journal_truth J) t"
    "ae_io env = \<lparr>io_stat_ok = True, io_write_fault = None\<rparr>"
    "encode_operation_frame C \<lparr>jr_version = OPERATION_JOURNAL_VERSION,
        jr_seq = ow_next_seq (fj_writer J), jr_transition = t\<rparr> = Inr b"
    "length b \<le> MAX_OPERATION_JOURNAL_FRAME_BYTES"
    "length (journal_bytes J) + length b + 1 \<le> MAX_OPERATION_JOURNAL_FILE_BYTES"
  shows "\<exists>J' r. append_and_sync C env J t = (J', Inr r)
           \<and> journal_truth J' = apply_truth (journal_truth J) t"
proof -
  obtain J' r where "append_and_sync C env J t = (J', Inr r)"
    using append_progress_helper [OF assms] by blast
  then show ?thesis
    using append_and_sync_ok [OF assms(1-3)] by (fastforce simp: append_outcome_def)
qed

definition sample_record :: operation_journal_record where
  "sample_record = \<lparr>jr_version = OPERATION_JOURNAL_VERSION, jr_seq = 1, jr_transition = sample_upsert Accepted\<rparr>"

lemma sample_frame_length:
  "length (nats_to_bytes (en_frame \<lparr>sf_record = sample_record,
      sf_checksum = checksum_hex decimal_codec (nats_to_bytes (en_record sample_record))\<rparr>)) = 313"
  by code_simp


lemma sample_frame_encodes:
  obtains b where "encode_operation_frame decimal_codec sample_record = Inr b" "length b = 313"
  using sample_frame_length by (simp add: encode_operation_frame_def serialize_frame_def decimal_codec_def)

lemma sample_append_ready:
  "ow_next_seq (fj_writer sample_journal) = 1"
  "transition_admitted (journal_truth sample_journal) (sample_upsert Accepted)"
  using writer_wf_next_seq [OF journal_ok_wf [OF sample_journal_ok(1)]]
  by (simp_all add: sample_journal_ok(3) recovery_default_def truth_of_def sample_upsert_def upsert_admitted_def)

definition sample_snapshot :: operation_snapshot where
  "sample_snapshot = \<lparr>snap_identity = sample_identity, snap_state = Accepted\<rparr>"

lemma sample_append_stores:
  obtains J1 where "append_and_sync decimal_codec (append_with None) sample_journal (sample_upsert Accepted)
      = (J1, Inr sample_record)"
    "rv_operations (ow_recovery (fj_writer J1)) = [sample_snapshot]" "last_seq_of J1 = 1"
    "rv_authority_epoch (ow_recovery (fj_writer J1)) = 1"
    "ow_metadata (fj_writer J1) = \<lparr>md_version = 1, md_journal_id = 7, md_generation = 1, md_ancestors = []\<rparr>"
    "journal_ok decimal_codec J1" "ow_failed (fj_writer J1) = None"
proof -
  obtain b where b: "encode_operation_frame decimal_codec sample_record = Inr b" "length b = 313"
    by (rule sample_frame_encodes)
  let ?J1 = "publish_record (set_wal sample_journal (journal_bytes sample_journal @ b @ [10])) sample_record"
  have rec: "sample_record = \<lparr>jr_version = OPERATION_JOURNAL_VERSION,
      jr_seq = ow_next_seq (fj_writer sample_journal), jr_transition = sample_upsert Accepted\<rparr>"
    by (simp add: sample_record_def sample_append_ready)
  have ap: "append_and_sync decimal_codec (append_with None) sample_journal (sample_upsert Accepted)
      = (?J1, Inr sample_record)"
    unfolding rec
    by (rule append_progress_helper [OF decimal_codec_ok sample_journal_ok(1,4), where b = b])
       (use b in \<open>simp_all add: sample_append_ready sample_upsert_validates append_with_def sample_record_def
          sample_journal_ok(5) MAX_OPERATION_JOURNAL_RECOVERY_RECORDS_def MAX_OPERATION_JOURNAL_FRAME_BYTES_def
          MAX_OPERATION_JOURNAL_FILE_BYTES_def\<close>)
  have "ow_indexes (fj_writer sample_journal) (snap_id sample_snapshot) = None"
    using journal_ok_wf [OF sample_journal_ok(1)]
    by (simp add: writer_wf_def Let_def indexes_ok_def sample_journal_ok(3) recovery_default_def)
  then have "rv_operations (ow_recovery (fj_writer ?J1)) = [sample_snapshot]"
    "rv_authority_epoch (ow_recovery (fj_writer ?J1)) = 1" "last_seq_of ?J1 = 1"
    by (simp_all add: publish_record_def Let_def case_prod_beta apply_cached_record_def sample_record_def
        sample_upsert_def sample_snapshot_def sample_journal_ok(3) recovery_default_def)
  moreover have "ow_metadata (fj_writer ?J1) = \<lparr>md_version = 1, md_journal_id = 7, md_generation = 1, md_ancestors = []\<rparr>"
    by (simp add: publish_record_def Let_def case_prod_beta sample_journal_ok(6))
  moreover have "journal_ok decimal_codec ?J1" "ow_failed (fj_writer ?J1) = None"
    using append_and_sync_ok [OF decimal_codec_ok sample_journal_ok(1,4) ap] by (simp_all add: append_outcome_def)
  ultimately show ?thesis using that ap by blast
qed

theorem append_progress_witness:
  "\<exists>J' r. append_and_sync decimal_codec (append_with None) sample_journal (sample_upsert Accepted) = (J', Inr r)
     \<and> journal_truth J' = (1, {\<lparr>snap_identity = sample_identity, snap_state = Accepted\<rparr>})"
proof -
  obtain b where b: "encode_operation_frame decimal_codec sample_record = Inr b" "length b = 313"
    by (rule sample_frame_encodes)
  have "\<exists>J' r. append_and_sync decimal_codec (append_with None) sample_journal (sample_upsert Accepted) = (J', Inr r)
     \<and> journal_truth J' = apply_truth (journal_truth sample_journal) (sample_upsert Accepted)"
    by (rule append_progress [OF decimal_codec_ok sample_journal_ok(1,4), where b = b])
       (use b in \<open>simp_all add: sample_append_ready sample_upsert_validates append_with_def sample_record_def
          sample_journal_ok(5) MAX_OPERATION_JOURNAL_RECOVERY_RECORDS_def MAX_OPERATION_JOURNAL_FRAME_BYTES_def
          MAX_OPERATION_JOURNAL_FILE_BYTES_def\<close>)
  then show ?thesis unfolding sample_journal_ok(2) by (simp add: sample_upsert_def)
qed

theorem append_moves_forward_witness:
  "\<exists>J' r. append_and_sync decimal_codec (append_with None) sample_journal (sample_upsert Accepted) = (J', Inr r)
     \<and> is_first_state Accepted"
proof -
  obtain J' r where ap: "append_and_sync decimal_codec (append_with None) sample_journal (sample_upsert Accepted)
      = (J', Inr r)" by (rule sample_append_stores)
  show ?thesis
    using append_moves_forward [OF decimal_codec_ok sample_journal_ok(1,4) ap [unfolded sample_upsert_def]] ap
    by (simp add: sample_journal_ok(2))
qed

text \<open>
  A failed write is fatal for the writer, and stays so: once the writer carries a failure, every
  later append, compaction, checkpoint and recovery read returns that failure and changes nothing, on
  disk or in memory.
\<close>
theorem fence_is_sticky:
  assumes "ow_failed (fj_writer J) = Some e" "transition_validate t = Inr ()" "\<forall>m. t \<noteq> Compacted m"
  shows "append_and_sync C env J t = (J, Inl (Storage e))
    \<and> journal_compact C cenv J = (J, Inl (Storage e))
    \<and> journal_checkpoint_marker C J = Inl (Storage e)
    \<and> journal_recover J = Inl (Storage e)"
  using assms
  by (auto simp: append_and_sync_def journal_compact_def compact_locked_def journal_checkpoint_marker_def
      journal_recover_def ensure_operation_writer_healthy_def Let_def
      split: operation_journal_transition.splits)

definition fenced_journal :: file_operation_journal where
  "fenced_journal = sample_journal\<lparr>fj_writer := (fj_writer sample_journal)\<lparr>ow_failed := Some (lit ''io'')\<rparr>\<rparr>"

theorem fence_is_sticky_witness:
  "append_and_sync decimal_codec (append_with None) fenced_journal (sample_upsert Accepted)
     = (fenced_journal, Inl (Storage (lit ''io'')))"
  using fence_is_sticky [of fenced_journal "lit ''io''" "sample_upsert Accepted" decimal_codec
      "append_with None" good_compact]
  by (simp add: fenced_journal_def sample_upsert_validates) (simp add: sample_upsert_def)

inductive same_generation_run ::
  "journal_codec \<Rightarrow> file_operation_journal \<Rightarrow> file_operation_journal \<Rightarrow> bool" for C where
  run_refl: "same_generation_run C J J"
| run_step: "same_generation_run C J J1 \<Longrightarrow> append_and_sync C env J1 t = (J2, Inr r) \<Longrightarrow>
    journal_generation J2 = journal_generation J1 \<Longrightarrow> same_generation_run C J J2"

lemma run_keeps_marker:
  assumes "same_generation_run C J J'" "codec_ok C" "journal_ok C J" "ow_failed (fj_writer J) = None"
    "last_seq_of J \<le> MAX_OPERATION_JOURNAL_RECOVERY_RECORDS" "marker_backed C J m"
  shows "journal_ok C J' \<and> ow_failed (fj_writer J') = None
    \<and> last_seq_of J' \<le> MAX_OPERATION_JOURNAL_RECOVERY_RECORDS \<and> marker_backed C J' m"
  using assms
proof (induction rule: same_generation_run.induct)
  case (run_step J J1 env t J2 r)
  then have J1: "journal_ok C J1" "ow_failed (fj_writer J1) = None" "marker_backed C J1 m" by simp_all
  show ?case
    using append_keeps_marker [OF run_step.prems(1) J1 run_step.hyps(2,3)]
      append_and_sync_ok [OF run_step.prems(1) J1(1,2) run_step.hyps(2)]
    by (simp add: append_outcome_def)
qed simp

text \<open>
  A checkpoint marker outlives the records that follow it. A marker a healthy journal issued still
  validates after any number of further stored appends, as long as no compaction has started a new
  generation.
\<close>
theorem marker_survives_appends:
  assumes "codec_ok C" "journal_ok C J" "ow_failed (fj_writer J) = None"
    "last_seq_of J \<le> MAX_OPERATION_JOURNAL_RECOVERY_RECORDS"
    "journal_checkpoint_marker C J = Inr m" "same_generation_run C J J'"
  shows "journal_validate_marker C J' m = Inr ()"
proof -
  have "marker_backed C J m" by (rule checkpoint_marker_backed [OF assms(2,4,5)])
  then have "journal_ok C J' \<and> ow_failed (fj_writer J') = None
    \<and> last_seq_of J' \<le> MAX_OPERATION_JOURNAL_RECOVERY_RECORDS \<and> marker_backed C J' m"
    using run_keeps_marker [OF assms(6,1-4)] by blast
  then show ?thesis using backed_marker_validates [OF assms(1)] by blast
qed

theorem marker_survives_appends_witness:
  "\<exists>m. journal_checkpoint_marker decimal_codec sample_journal = Inr m
     \<and> journal_validate_marker decimal_codec sample_journal m = Inr ()"
proof -
  obtain m where m: "authority_checkpoint_marker_of decimal_codec (ow_metadata (fj_writer sample_journal))
      (ow_recovery (fj_writer sample_journal)) = Inr m" by (rule marker_of_total [OF decimal_codec_ok])
  then have "journal_checkpoint_marker decimal_codec sample_journal = Inr m"
    using sample_journal_ok(4) by (simp add: journal_checkpoint_marker_def ensure_operation_writer_healthy_def)
  then show ?thesis
    using marker_survives_appends [OF decimal_codec_ok sample_journal_ok(1,4) sample_journal_room(1) _ run_refl]
    by blast
qed

lemma push_ancestor_facts:
  "length (push_ancestor as m) \<le> MAX_AUTHORITY_JOURNAL_ANCESTORS"
  "m \<in> set (push_ancestor as m)"
proof -
  show "length (push_ancestor as m) \<le> MAX_AUTHORITY_JOURNAL_ANCESTORS"
    by (auto simp: push_ancestor_def Let_def)
  have "Suc (length as) - MAX_AUTHORITY_JOURNAL_ANCESTORS \<le> length as"
    by (simp add: MAX_AUTHORITY_JOURNAL_ANCESTORS_def)
  then show "m \<in> set (push_ancestor as m)" by (auto simp: push_ancestor_def Let_def)
qed

lemma compact_success_cases:
  assumes "codec_ok C" "journal_ok C J" "ow_failed (fj_writer J) = None" "last_seq_of J \<noteq> 0"
    "compact_locked C env J = (J', Inr mk)" "journal_checkpoint_marker C J = Inr m"
  shows "journal_generation J' = Suc (journal_generation J)
    \<and> md_ancestors (ow_metadata (fj_writer J')) = push_ancestor (md_ancestors (ow_metadata (fj_writer J))) m
    \<and> md_journal_id (ow_metadata (fj_writer J')) = md_journal_id (ow_metadata (fj_writer J))
    \<and> last_seq_of J' = Suc (length (journal_ops J))"
proof -
  have m: "authority_checkpoint_marker_of C (ow_metadata (fj_writer J)) (ow_recovery (fj_writer J)) = Inr m"
    using assms(6) by (simp add: journal_checkpoint_marker_def)
  have "journal_generation J2 = g \<and> md_ancestors (ow_metadata (fj_writer J2)) = push_ancestor (md_ancestors (ow_metadata (fj_writer J1))) m
      \<and> md_journal_id (ow_metadata (fj_writer J2)) = md_journal_id (ow_metadata (fj_writer J1))
      \<and> last_seq_of J2 = Suc (length operations)"
    if "publish_compaction C env J1 g m operations (Suc (length operations)) = (J2, Inr mk)"
    for J1 J2 g operations
    using that by (cases rule: publish_compaction_cases) auto
  from this [of _ _ "sort_operations (journal_ops J)"] show ?thesis
    using assms(3-5) m
    by (auto simp: compact_locked_def Let_def ensure_operation_writer_healthy_def
        split: if_splits sum.splits option.splits prod.splits)
qed

text \<open>
  Compaction starts the next generation and keeps the lineage. A compaction of a non-empty journal
  that reports success leaves generation \<open>g + 1\<close>, one record per known operation plus the baseline, and
  at most eight ancestors; the marker of the state it compacted still validates.
\<close>
theorem compaction_keeps_lineage:
  assumes "codec_ok C" "journal_ok C J" "ow_failed (fj_writer J) = None" "last_seq_of J \<noteq> 0"
    "journal_compact C env J = (J', Inr mk)" "journal_checkpoint_marker C J = Inr m"
  shows "journal_generation J' = Suc (journal_generation J)
    \<and> last_seq_of J' = Suc (length (journal_ops J))
    \<and> length (md_ancestors (ow_metadata (fj_writer J'))) \<le> MAX_AUTHORITY_JOURNAL_ANCESTORS
    \<and> journal_validate_marker C J' m = Inr ()"
proof -
  note c = compact_success_cases [OF assms(1-4) assms(5) [unfolded journal_compact_def] assms(6)]
  have m: "authority_checkpoint_marker_of C (ow_metadata (fj_writer J)) (ow_recovery (fj_writer J)) = Inr m"
    using assms(6) by (simp add: journal_checkpoint_marker_def)
  note mv = writer_marker_valid [OF journal_ok_wf [OF assms(2)] m]
  have "compaction_outcome C J J' (Inr mk)"
    using compact_locked_ok [OF assms(1-3)] assms(5) by (simp add: journal_compact_def)
  then have "ow_failed (fj_writer J') = None"
    by (cases "ow_failed (fj_writer J')") (simp_all add: compaction_outcome_def)
  then have "journal_validate_marker C J' m = Inr ()"
    using c mv push_ancestor_facts
    by (simp add: journal_validate_marker_def Let_def ensure_operation_writer_healthy_def)
  then show ?thesis using c push_ancestor_facts(1) by simp
qed


lemma compact_progress_helper:
  assumes J: "ow_failed (fj_writer J) = None" "last_seq_of J \<noteq> 0"
    and m: "authority_checkpoint_marker_of C (ow_metadata (fj_writer J)) (ow_recovery (fj_writer J)) = Inr m"
    and g: "journal_generation J < u64_max"
    and recs: "length (journal_ops J) < MAX_OPERATION_JOURNAL_RECOVERY_RECORDS"
      "encode_operation_frames C (compaction_records m (sort_operations (journal_ops J))) = Inr bytes"
      "length bytes \<le> MAX_OPERATION_JOURNAL_FILE_BYTES"
    and md: "encode_authority_metadata C \<lparr>md_version = AUTHORITY_JOURNAL_METADATA_VERSION,
        md_journal_id = md_journal_id (ow_metadata (fj_writer J)), md_generation = journal_generation J + 1,
        md_ancestors = push_ancestor (md_ancestors (ow_metadata (fj_writer J))) m\<rparr> = Inr b"
    and C: "codec_ok C"
  shows "\<exists>J' mk. journal_compact C good_compact J = (J', Inr mk)"
proof -
  have seq: "Suc (Suc (length (journal_ops J))) \<le> u64_max"
    using recs(1) by (simp add: MAX_OPERATION_JOURNAL_RECOVERY_RECORDS_def u64_max_def)
  have mk: "\<exists>mk. authority_checkpoint_marker_of C mt rv = Inr mk" for mt rv
    using marker_of_total [OF C, of mt rv] by blast
  show ?thesis
    using J m g recs seq md mk
    by (auto simp: journal_compact_def compact_locked_def ensure_operation_writer_healthy_def Let_def
        checked_add_u64_def write_operation_records_def good_compact_def publish_compaction_def
        persist_authority_metadata_def)
qed

definition sample_marker :: authority_checkpoint_marker where
  "sample_marker = \<lparr>mk_journal_id = 7, mk_generation = 1, mk_authority_epoch = 1, mk_last_seq = 1,
     mk_state_digest = checksum32 (nats_to_bytes (1 # 1 # en_list en_snapshot [sample_snapshot]))\<rparr>"

definition frame_bytes :: "operation_journal_record \<Rightarrow> byte list" where
  "frame_bytes r = nats_to_bytes (en_frame \<lparr>sf_record = r,
      sf_checksum = checksum_hex decimal_codec (nats_to_bytes (en_record r))\<rparr>)"

definition stored_metadata_bytes :: "authority_journal_metadata \<Rightarrow> byte list" where
  "stored_metadata_bytes m = nats_to_bytes (en_stored_metadata \<lparr>sm_metadata = m,
      sm_checksum = checksum_hex decimal_codec (nats_to_bytes (en_metadata m))\<rparr>)"


lemma sample_compaction_lengths:
  "map (\<lambda>r. length (frame_bytes r)) (compaction_records sample_marker [sample_snapshot]) = [312, 313]"
  "length (stored_metadata_bytes \<lparr>md_version = 1, md_journal_id = 7, md_generation = 2,
      md_ancestors = [sample_marker]\<rparr>) = 310"
  by code_simp+

lemma encode_frames_decimal:
  assumes "\<forall>r \<in> set rs. length (frame_bytes r) \<le> MAX_OPERATION_JOURNAL_FRAME_BYTES"
  shows "encode_operation_frames decimal_codec rs = Inr (concat (map (\<lambda>r. frame_bytes r @ [10]) rs))"
  using assms
  by (induction rs) (auto simp: encode_operation_frame_def serialize_frame_def decimal_codec_def frame_bytes_def)

theorem compaction_keeps_lineage_witness:
  "\<exists>J1 J2 mk m. journal_compact decimal_codec good_compact J1 = (J2, Inr mk)
     \<and> journal_generation J1 = 1 \<and> journal_generation J2 = 2
     \<and> journal_checkpoint_marker decimal_codec J1 = Inr m
     \<and> journal_validate_marker decimal_codec J2 m = Inr ()"
proof -
  obtain J1 where J1: "rv_operations (ow_recovery (fj_writer J1)) = [sample_snapshot]" "last_seq_of J1 = 1"
    "rv_authority_epoch (ow_recovery (fj_writer J1)) = 1"
    "ow_metadata (fj_writer J1) = \<lparr>md_version = 1, md_journal_id = 7, md_generation = 1, md_ancestors = []\<rparr>"
    "journal_ok decimal_codec J1" "ow_failed (fj_writer J1) = None" by (rule sample_append_stores)
  have m: "authority_checkpoint_marker_of decimal_codec (ow_metadata (fj_writer J1)) (ow_recovery (fj_writer J1))
      = Inr sample_marker"
    by (simp add: authority_checkpoint_marker_of_def J1 sort_operations_def decimal_codec_def sample_marker_def)
  then have mk: "journal_checkpoint_marker decimal_codec J1 = Inr sample_marker"
    using J1(6) by (simp add: journal_checkpoint_marker_def ensure_operation_writer_healthy_def)
  let ?rs = "compaction_records sample_marker [sample_snapshot]"
  obtain r1 r2 where rs: "?rs = [r1, r2]" by (simp add: compaction_records_def)
  then have l: "length (frame_bytes r1) = 312" "length (frame_bytes r2) = 313"
    using sample_compaction_lengths(1) by simp_all
  have enc: "encode_operation_frames decimal_codec (compaction_records sample_marker (sort_operations (journal_ops J1)))
      = Inr (concat (map (\<lambda>r. frame_bytes r @ [10]) ?rs))"
    using encode_frames_decimal [of ?rs] l
    by (simp add: J1 rs sort_operations_def MAX_OPERATION_JOURNAL_FRAME_BYTES_def)
  have md: "encode_authority_metadata decimal_codec \<lparr>md_version = AUTHORITY_JOURNAL_METADATA_VERSION,
        md_journal_id = md_journal_id (ow_metadata (fj_writer J1)), md_generation = journal_generation J1 + 1,
        md_ancestors = push_ancestor (md_ancestors (ow_metadata (fj_writer J1))) sample_marker\<rparr>
      = Inr (stored_metadata_bytes \<lparr>md_version = 1, md_journal_id = 7, md_generation = 2,
          md_ancestors = [sample_marker]\<rparr>)"
    using sample_compaction_lengths(2)
    by (simp add: encode_authority_metadata_def J1 push_ancestor_def MAX_AUTHORITY_JOURNAL_ANCESTORS_def
        decimal_codec_def stored_metadata_bytes_def AUTHORITY_JOURNAL_METADATA_VERSION_def
        MAX_AUTHORITY_JOURNAL_METADATA_BYTES_def numeral_2_eq_2)
  obtain J2 mk2 where J2: "journal_compact decimal_codec good_compact J1 = (J2, Inr mk2)"
    using compact_progress_helper [OF J1(6) _ m _ _ enc _ md decimal_codec_ok] l
    by (auto simp: J1 rs u64_max_def MAX_OPERATION_JOURNAL_RECOVERY_RECORDS_def
        MAX_OPERATION_JOURNAL_FILE_BYTES_def)
  have "last_seq_of J1 \<noteq> 0" using J1(2) by simp
  from compaction_keeps_lineage [OF decimal_codec_ok J1(5,6) this J2 mk] J2 mk
  show ?thesis
    by (intro exI [of _ J1] exI [of _ J2] exI [of _ mk2] exI [of _ sample_marker])
       (simp add: J1 numeral_2_eq_2)
qed

text \<open>
  A directory that lost its metadata is never initialised over. When a WAL of any generation is
  still there but the metadata file is not, opening the journal fails with recovery required and leaves
  the directory as it was.
\<close>
theorem missing_metadata_is_refused:
  assumes "jd_metadata disk = None" "0 < g" "g \<le> u64_max"
    "authority_wal_path base g \<in> fst ` set (jd_files disk)" "oe_dir_ok env" "oe_lock_ok env"
  shows "\<exists>m. journal_open C env base disk = (disk, Inl (RecoveryRequired m))"
proof -
  obtain bytes where "(authority_wal_path base g, bytes) \<in> set (jd_files disk)" using assms(4) by auto
  then have "g \<in> set (List.map_filter (\<lambda>(name, _). authority_wal_generation_of name base) (jd_files disk))"
    using wal_generation_of_path [OF assms(2,3), of base] by (force simp: List.map_filter_def)
  then have "list_authority_wal_generations base disk \<noteq> []"
    unfolding list_authority_wal_generations_def by (metis empty_iff empty_set set_remdups set_sort)
  then show ?thesis using assms(1,5,6) by (simp add: journal_open_def)
qed

theorem missing_metadata_is_refused_witness:
  "\<exists>m. journal_open decimal_codec sample_open_env sample_base
      \<lparr>jd_files = [(authority_wal_path sample_base 3, [])], jd_metadata = None\<rparr>
     = (\<lparr>jd_files = [(authority_wal_path sample_base 3, [])], jd_metadata = None\<rparr>, Inl (RecoveryRequired m))"
  by (rule missing_metadata_is_refused [where g = 3]) (simp_all add: u64_max_def sample_open_env_def)

lemma journal_open_finish:
  assumes "journal_open C env base disk = (disk', Inr (J, rv))"
  obtains st m where "fold_wf st" "rv = finish_recovery st" "validate_recovered_generation m rv = Inr ()"
    "ow_metadata (fj_writer J) = m" "ow_recovery (fj_writer J) = rv" "ow_next_seq (fj_writer J) = Suc (rv_last_seq rv)"
    "ow_indexes (fj_writer J) = build_indexes (rv_operations rv)" "ow_failed (fj_writer J) = None"
proof -
  obtain disk2 m where op: "open_recovered base disk2 m rv = Inr (J, rv)"
    and rf: "\<exists>f f'. recover_operation_file C (oe_repair env) f = (f', Inr rv)"
    using assms
    by (fastforce simp: journal_open_def Let_def open_recovered_def
        split: if_splits sum.splits prod.splits option.splits)
  from rf obtain st where "fold_wf st" "rv = finish_recovery st"
    by (auto simp: recover_operation_file_def recover_operation_file_until_def
        split: if_splits sum.splits prod.splits repair_outcome.splits dest: recover_loop_wf)
  then show ?thesis using op by (intro that [of st m]) (auto simp: open_recovered_def)
qed

text \<open>
  C32. Whatever bytes are on disk, what an open admits is well-formed: at most 65536 records, an epoch of
  at least one, operations that validate, with distinct ids, in ascending order of their ids, and an
  index that finds each of them.
\<close>
theorem open_admits_only_wellformed:
  assumes "journal_open C env base disk = (disk', Inr (J, rv))"
  shows "rv_last_seq rv \<le> MAX_OPERATION_JOURNAL_RECOVERY_RECORDS \<and> 0 < rv_authority_epoch rv
    \<and> (\<forall>s \<in> set (rv_operations rv). snapshot_validate s = Inr ())
    \<and> sorted_wrt (<) (map snap_id (rv_operations rv))
    \<and> indexes_ok (rv_operations rv) (ow_indexes (fj_writer J))
    \<and> ow_recovery (fj_writer J) = rv \<and> ow_next_seq (fj_writer J) = Suc (rv_last_seq rv)"
proof -
  obtain st m where st: "fold_wf st" "rv = finish_recovery st"
    "ow_recovery (fj_writer J) = rv" "ow_next_seq (fj_writer J) = Suc (rv_last_seq rv)"
    "ow_indexes (fj_writer J) = build_indexes (rv_operations rv)"
    using journal_open_finish [OF assms] .
  have ref: "cached_refines rv (build_indexes (rv_operations rv)) st"
    using fold_wf_refines [OF st(1)] st(2) by simp
  then have ix: "indexes_ok (rv_operations rv) (build_indexes (rv_operations rv))"
    by (simp add: cached_refines_def)
  have "sorted (map snap_id (rv_operations rv))"
    by (simp add: st(2) finish_recovery_def sort_operations_def)
  moreover have "distinct (map snap_id (rv_operations rv))" using ix by (simp add: indexes_ok_def)
  ultimately have "sorted_wrt (<) (map snap_id (rv_operations rv))" by (simp add: strict_sorted_iff)
  then show ?thesis using ref ix st by (simp add: cached_refines_def fold_wf_def)
qed

theorem open_admits_only_wellformed_witness:
  "\<exists>disk' J rv. journal_open decimal_codec sample_open_env sample_base empty_disk = (disk', Inr (J, rv))
     \<and> rv_last_seq rv \<le> MAX_OPERATION_JOURNAL_RECOVERY_RECORDS"
proof -
  obtain b where b: "encode_authority_metadata decimal_codec \<lparr>md_version = AUTHORITY_JOURNAL_METADATA_VERSION,
        md_journal_id = oe_fresh_id sample_open_env, md_generation = AUTHORITY_JOURNAL_GENERATION,
        md_ancestors = []\<rparr> = Inr b" using sample_metadata_encodes by blast
  obtain disk' J where "journal_open decimal_codec sample_open_env sample_base empty_disk
      = (disk', Inr (J, recovery_default))"
    using journal_open_fresh [OF decimal_codec_ok sample_open_env_ok _ _ b, of empty_disk sample_base]
    by (auto simp: empty_disk_def)
  from open_admits_only_wellformed [OF this] this show ?thesis by blast
qed

text \<open>
  The textual form of a digest is canonical: printing a 32-byte digest and parsing it gives the
  digest back, and the parser admits a string only when it is the printed form of the digest it returns.
\<close>
theorem digest_text_is_canonical:
  "(length d = OPERATION_DIGEST_BYTES \<longrightarrow> digest_from_str (digest_to_string d) = Inr d)
   \<and> (digest_from_str s = Inr d' \<longrightarrow> digest_to_string d' = s \<and> length d' = OPERATION_DIGEST_BYTES)"
  using digest_parse_print digest_print_parse by blast

theorem digest_text_is_canonical_witness:
  "digest_from_str (digest_to_string (replicate 32 171)) = Inr (replicate 32 171)"
  using digest_text_is_canonical [of "replicate 32 171"] by (simp add: OPERATION_DIGEST_BYTES_def)

end
