(* ===== verification/Effect_Intent.thy ===== *)
theory Effect_Intent
  imports Operation_Contracts
begin

text \<open>
  What a tool call is approved to do: \<^verbatim>\<open>crates/agent-contracts/src/tool.rs\<close> (\<open>ToolRisk\<close>,
  \<open>EffectIntent\<close> and its \<open>covers\<close>, the canonical workspace-relative path) and the lease of
  \<^verbatim>\<open>crates/agent-contracts/src/approval.rs\<close>. Paths follow \<open>std::path::Path::components\<close> on Unix: the
  separator is the slash, repeated separators and inner dots vanish, a leading slash is the root.

  The lemmas show that a canonical path is a fixed point of canonicalisation with no way out of the
  workspace, and that \<open>covers\<close> is an upper bound: transitive, of one risk class, and with the actual
  write targets among the approved ones.
\<close>

section \<open>Paths\<close>

datatype path_component = RootDir | CurDir | ParentDir | Normal rust_str

fun split_slash :: "rust_str \<Rightarrow> rust_str list" where
  "split_slash [] = [[]]"
| "split_slash (c # s) =
     (if c = 47 then [] # split_slash s
      else (case split_slash s of [] \<Rightarrow> [[c]] | p # ps \<Rightarrow> (c # p) # ps))"

definition piece_component :: "rust_str \<Rightarrow> path_component option" where
  "piece_component p =
     (if p = [] \<or> p = [46] then None
      else if p = [46, 46] then Some ParentDir
      else Some (Normal p))"

definition path_components :: "rust_str \<Rightarrow> path_component list" where
  "path_components path =
     (if path \<noteq> [] \<and> hd path = 47 then [RootDir]
      else if hd (split_slash path) = [46] then [CurDir]
      else [])
     @ List.map_filter piece_component (split_slash path)"

fun join_slash :: "rust_str list \<Rightarrow> rust_str" where
  "join_slash [] = []"
| "join_slash [p] = p"
| "join_slash (p # q # ps) = p @ [47] @ join_slash (q # ps)"

fun collect_normal :: "path_component list \<Rightarrow> rust_str list option" where
  "collect_normal [] = Some []"
| "collect_normal (CurDir # cs) = collect_normal cs"
| "collect_normal (Normal p # cs) = map_option (\<lambda>ps. p # ps) (collect_normal cs)"
| "collect_normal (ParentDir # cs) = None"
| "collect_normal (RootDir # cs) = None"

definition canonical_workspace_relative_path :: "rust_str \<Rightarrow> rust_str option" where
  "canonical_workspace_relative_path path =
     (if path = [] then None
      else (case collect_normal (path_components path) of
              None \<Rightarrow> None
            | Some parts \<Rightarrow> if parts = [] then None else Some (join_slash parts)))"

section \<open>Risks and intents\<close>

datatype tool_risk = RiskReadOnly | RiskWorkspaceWrite | RiskProcessExecution

record workspace_write_bound =
  wb_path :: rust_str
  wb_max_bytes :: nat

definition MAX_WORKSPACE_WRITE_SET :: nat where "MAX_WORKSPACE_WRITE_SET = 16"

datatype effect_intent =
    IntentReadOnly
  | IntentWorkspaceWrite rust_str nat
  | IntentWorkspaceWriteSet "workspace_write_bound list"
  | IntentExecArgv rust_str "rust_str list"
  | IntentShellExec rust_str rust_str

fun intent_risk :: "effect_intent \<Rightarrow> tool_risk" where
  "intent_risk IntentReadOnly = RiskReadOnly"
| "intent_risk (IntentWorkspaceWrite _ _) = RiskWorkspaceWrite"
| "intent_risk (IntentWorkspaceWriteSet _) = RiskWorkspaceWrite"
| "intent_risk (IntentExecArgv _ _) = RiskProcessExecution"
| "intent_risk (IntentShellExec _ _) = RiskProcessExecution"

fun approved_workspace_paths :: "effect_intent \<Rightarrow> rust_str list" where
  "approved_workspace_paths (IntentWorkspaceWrite path _) =
     (case canonical_workspace_relative_path path of Some p \<Rightarrow> [p] | None \<Rightarrow> [])"
| "approved_workspace_paths (IntentWorkspaceWriteSet writes) =
     List.map_filter (\<lambda>b. canonical_workspace_relative_path (wb_path b)) writes"
| "approved_workspace_paths _ = []"

definition write_set_covers :: "workspace_write_bound list \<Rightarrow> workspace_write_bound list \<Rightarrow> bool" where
  "write_set_covers approved actual \<longleftrightarrow>
     approved \<noteq> [] \<and> actual \<noteq> [] \<and>
     list_all (\<lambda>entry. case canonical_workspace_relative_path (wb_path entry) of
         None \<Rightarrow> False
       | Some path \<Rightarrow>
           (case find (\<lambda>b. canonical_workspace_relative_path (wb_path b) = Some path) approved of
              None \<Rightarrow> False
            | Some b \<Rightarrow> wb_max_bytes entry \<le> wb_max_bytes b)) actual"

fun intent_covers :: "effect_intent \<Rightarrow> effect_intent \<Rightarrow> bool" where
  "intent_covers IntentReadOnly IntentReadOnly \<longleftrightarrow> True"
| "intent_covers (IntentWorkspaceWrite approved max_bytes) (IntentWorkspaceWrite path content_bytes) \<longleftrightarrow>
     (case canonical_workspace_relative_path approved of
        None \<Rightarrow> False
      | Some a \<Rightarrow> (case canonical_workspace_relative_path path of
          None \<Rightarrow> False
        | Some p \<Rightarrow> a = p \<and> content_bytes \<le> max_bytes))"
| "intent_covers (IntentWorkspaceWriteSet approved) (IntentWorkspaceWriteSet writes) \<longleftrightarrow>
     write_set_covers approved writes"
| "intent_covers (IntentWorkspaceWriteSet approved) (IntentWorkspaceWrite path content_bytes) \<longleftrightarrow>
     write_set_covers approved [\<lparr>wb_path = path, wb_max_bytes = content_bytes\<rparr>]"
| "intent_covers (IntentExecArgv approved_program approved_argv) (IntentExecArgv program argv) \<longleftrightarrow>
     approved_program \<noteq> [] \<and> approved_program = program
     \<and> length approved_argv \<le> length argv \<and> take (length approved_argv) argv = approved_argv"
| "intent_covers (IntentShellExec approved_dialect approved_digest) (IntentShellExec dialect digest) \<longleftrightarrow>
     approved_digest \<noteq> [] \<and> approved_digest = digest
     \<and> (approved_dialect = [] \<or> approved_dialect = dialect)"
| "intent_covers _ _ \<longleftrightarrow> False"

fun exec_argv_intent :: "rust_str list \<Rightarrow> effect_intent" where
  "exec_argv_intent (program # rest) =
     (if program \<noteq> [] then IntentExecArgv program rest else IntentExecArgv [] [])"
| "exec_argv_intent [] = IntentExecArgv [] []"

section \<open>Leases\<close>

datatype approval_decision = Allow | Deny

record authority_lease =
  al_lease_id :: rust_str
  al_operation_id :: uuid
  al_argument_digest :: digest
  al_operation_generation :: nat
  al_intent :: effect_intent
  al_grant_id :: "rust_str option"
  al_decision :: approval_decision
  al_issued_at_ms :: nat
  al_expires_at_ms :: nat
  al_policy_revision :: "nat option"
  al_binding_epoch :: "nat option"

definition lease_valid_at :: "authority_lease \<Rightarrow> nat \<Rightarrow> nat \<Rightarrow> uuid \<Rightarrow> digest \<Rightarrow> bool" where
  "lease_valid_at l now_ms generation operation_id argument_digest \<longleftrightarrow>
     al_operation_generation l = generation \<and> al_operation_id l = operation_id
     \<and> al_argument_digest l = argument_digest \<and> now_ms \<le> al_expires_at_ms l"

section \<open>Canonical paths\<close>

lemma split_slash_nonempty [simp]: "split_slash s \<noteq> []"
  by (induction s) (auto split: list.splits)

lemma split_slash_pieces: "p \<in> set (split_slash s) \<Longrightarrow> 47 \<notin> set p"
  by (induction s arbitrary: p) (auto split: list.splits if_splits)

lemma split_slash_no_slash: "47 \<notin> set p \<Longrightarrow> split_slash p = [p]"
  by (induction p) auto

lemma split_slash_append:
  "47 \<notin> set p \<Longrightarrow> split_slash (p @ 47 # s) = p # split_slash s"
  by (induction p) auto

lemma split_join:
  "ps \<noteq> [] \<Longrightarrow> \<forall>p \<in> set ps. 47 \<notin> set p \<Longrightarrow> split_slash (join_slash ps) = ps"
  by (induction ps rule: join_slash.induct) (auto simp: split_slash_no_slash split_slash_append)

definition clean_part :: "rust_str \<Rightarrow> bool" where
  "clean_part p \<longleftrightarrow> p \<noteq> [] \<and> p \<noteq> [46] \<and> p \<noteq> [46, 46] \<and> 47 \<notin> set p"

lemma collect_normal_app_pieces:
  assumes "collect_normal (List.map_filter piece_component ps) = Some parts" "\<forall>p \<in> set ps. 47 \<notin> set p"
  shows "list_all clean_part parts"
  using assms
  by (induction ps arbitrary: parts)
     (auto simp: List.map_filter_simps piece_component_def clean_part_def split: if_splits)

lemma collect_normal_prefix:
  "collect_normal ((if c then [RootDir] else if d then [CurDir] else []) @ cs) = Some parts \<longleftrightarrow>
   \<not> c \<and> collect_normal cs = Some parts"
  by auto

lemma collect_path_components:
  "collect_normal (path_components path) = Some parts \<longleftrightarrow>
   \<not> (path \<noteq> [] \<and> hd path = 47)
   \<and> collect_normal (List.map_filter piece_component (split_slash path)) = Some parts"
  unfolding path_components_def collect_normal_prefix by simp

lemma collect_clean:
  "list_all clean_part parts \<Longrightarrow> collect_normal (List.map_filter piece_component parts) = Some parts"
  by (induction parts) (auto simp: List.map_filter_simps piece_component_def clean_part_def)

lemma join_slash_head:
  "list_all clean_part parts \<Longrightarrow> parts \<noteq> [] \<Longrightarrow> join_slash parts \<noteq> [] \<and> hd (join_slash parts) \<noteq> 47"
proof (induction parts rule: join_slash.induct)
  case (2 p)
  then show ?case by (cases p) (auto simp: clean_part_def)
next
  case (3 p q ps)
  then show ?case by (cases p) (auto simp: clean_part_def)
qed simp

lemma canonical_path_parts:
  assumes "canonical_workspace_relative_path path = Some q"
  obtains parts where "q = join_slash parts" "parts \<noteq> []" "list_all clean_part parts"
proof -
  obtain parts where p: "collect_normal (path_components path) = Some parts" "parts \<noteq> []"
    "q = join_slash parts"
    using assms by (auto simp: canonical_workspace_relative_path_def split: if_splits option.splits)
  then have "list_all clean_part parts"
    using collect_normal_app_pieces split_slash_pieces by (auto simp: collect_path_components)
  then show ?thesis using that p by blast
qed

lemma canonical_path_split:
  assumes "parts \<noteq> []" "list_all clean_part parts"
  shows "split_slash (join_slash parts) = parts"
  using assms by (intro split_join) (auto simp: list_all_iff clean_part_def)

lemma canonical_path_fixed:
  assumes "canonical_workspace_relative_path path = Some q"
  shows "canonical_workspace_relative_path q = Some q"
proof -
  obtain parts where p: "q = join_slash parts" "parts \<noteq> []" "list_all clean_part parts"
    using canonical_path_parts [OF assms] .
  have "collect_normal (path_components (join_slash parts)) = Some parts"
    using canonical_path_split [OF p(2,3)] collect_clean [OF p(3)] join_slash_head [OF p(3,2)]
    by (simp add: collect_path_components)
  then show ?thesis
    using p join_slash_head [OF p(3,2)] by (simp add: canonical_workspace_relative_path_def)
qed

section \<open>Coverage\<close>

lemma intent_covers_risk: "intent_covers a b \<Longrightarrow> intent_risk a = intent_risk b"
  by (cases "(a, b)" rule: intent_covers.cases) auto

lemma find_Some_in: "find P xs = Some x \<Longrightarrow> x \<in> set xs \<and> P x"
  by (induction xs) (auto split: if_splits)

lemma write_set_covers_entry:
  assumes "write_set_covers approved actual" "e \<in> set actual"
  obtains p b where "canonical_workspace_relative_path (wb_path e) = Some p"
    "find (\<lambda>b. canonical_workspace_relative_path (wb_path b) = Some p) approved = Some b"
    "wb_max_bytes e \<le> wb_max_bytes b"
proof -
  have "case canonical_workspace_relative_path (wb_path e) of None \<Rightarrow> False
       | Some path \<Rightarrow> (case find (\<lambda>b. canonical_workspace_relative_path (wb_path b) = Some path) approved of
              None \<Rightarrow> False | Some b \<Rightarrow> wb_max_bytes e \<le> wb_max_bytes b)"
    using assms by (simp add: write_set_covers_def list_all_iff)
  then show ?thesis using that by (auto split: option.splits)
qed

lemma write_set_covers_trans:
  assumes "write_set_covers a b" "write_set_covers b c"
  shows "write_set_covers a c"
  unfolding write_set_covers_def list_all_iff
proof (intro conjI ballI)
  fix e assume e: "e \<in> set c"
  obtain p be where be: "canonical_workspace_relative_path (wb_path e) = Some p"
    "find (\<lambda>b. canonical_workspace_relative_path (wb_path b) = Some p) b = Some be"
    "wb_max_bytes e \<le> wb_max_bytes be"
    using write_set_covers_entry [OF assms(2) e] .
  note inb = find_Some_in [OF be(2)]
  then have "be \<in> set b" by blast
  from write_set_covers_entry [OF assms(1) this] inb
  obtain ae where "find (\<lambda>b. canonical_workspace_relative_path (wb_path b) = Some p) a = Some ae"
    "wb_max_bytes be \<le> wb_max_bytes ae" by (metis option.inject)
  then show "case canonical_workspace_relative_path (wb_path e) of None \<Rightarrow> False
       | Some path \<Rightarrow> (case find (\<lambda>b. canonical_workspace_relative_path (wb_path b) = Some path) a of
              None \<Rightarrow> False | Some b \<Rightarrow> wb_max_bytes e \<le> wb_max_bytes b)"
    using be by simp
qed (use assms in \<open>simp_all add: write_set_covers_def\<close>)

lemma single_covers_set:
  assumes "write_set_covers a [\<lparr>wb_path = p, wb_max_bytes = n\<rparr>]"
    "canonical_workspace_relative_path p = Some c" "canonical_workspace_relative_path q = Some c" "k \<le> n"
  shows "write_set_covers a [\<lparr>wb_path = q, wb_max_bytes = k\<rparr>]"
  using assms by (auto simp: write_set_covers_def split: option.splits)

lemma intent_covers_trans: "intent_covers a b \<Longrightarrow> intent_covers b c \<Longrightarrow> intent_covers a c"
proof (cases a; cases b; cases c)
  fix x1 x2 y1 y2 z1 z2
  assume "a = IntentExecArgv x1 x2" "b = IntentExecArgv y1 y2" "c = IntentExecArgv z1 z2"
    "intent_covers a b" "intent_covers b c"
  then show "intent_covers a c" by (auto simp: min_def) (metis min.absorb1 take_take)
qed (auto split: option.splits intro: write_set_covers_trans single_covers_set)

lemma write_set_covers_paths:
  assumes "write_set_covers a b" "p \<in> set (approved_workspace_paths (IntentWorkspaceWriteSet b))"
  shows "p \<in> set (approved_workspace_paths (IntentWorkspaceWriteSet a))"
proof -
  obtain e where e: "e \<in> set b" "canonical_workspace_relative_path (wb_path e) = Some p"
    using assms(2) by (auto simp: List.map_filter_def)
  obtain be where "find (\<lambda>b. canonical_workspace_relative_path (wb_path b) = Some p) a = Some be"
    using write_set_covers_entry [OF assms(1) e(1)] e(2) by (metis option.inject)
  from find_Some_in [OF this] show ?thesis by (force simp: List.map_filter_def)
qed

lemma intent_covers_paths:
  assumes "intent_covers a b"
  shows "set (approved_workspace_paths b) \<subseteq> set (approved_workspace_paths a)"
proof -
  have "set (approved_workspace_paths (IntentWorkspaceWrite q k))
      = set (approved_workspace_paths (IntentWorkspaceWriteSet [\<lparr>wb_path = q, wb_max_bytes = k\<rparr>]))" for q k
    by (auto simp: List.map_filter_def split: option.splits)
  then show ?thesis
    using assms write_set_covers_paths
    by (cases "(a, b)" rule: intent_covers.cases)
       (auto split: option.splits simp del: approved_workspace_paths.simps(2))
qed

end
