(* ===== verification/Operation_Registry.thy ===== *)
theory Operation_Registry
  imports Authority_Truth Effect_Intent
begin

text \<open>
  The operation registry of Core, \<^verbatim>\<open>crates/agent-core/src/operation.rs\<close>: the bounded table of operation
  snapshots, the eviction order of terminals, the tombstone filter of every id ever admitted, the issued
  leases and the recovery fence. Every operation is one definition over the whole registry; the journal is a
  parameter (\<open>jappend\<close>, its \<open>append_and_sync\<close>), so that the registry can be run over any journal that
  satisfies the locale \<open>operation_journal\<close>. The transition gate of the source makes each operation atomic.

  The tombstone filter is an array of 32768 words; the model has it as a function from word index to word.
\<close>

unbundle bit_operations_syntax

section \<open>The tombstone filter\<close>

definition SEEN_OPERATION_FILTER_BITS :: nat where "SEEN_OPERATION_FILTER_BITS = 2097152"

definition DEFAULT_OPERATION_REGISTRY_CAPACITY :: nat where
  "DEFAULT_OPERATION_REGISTRY_CAPACITY = 1024"

type_synonym seen_operation_filter = "nat \<Rightarrow> 64 word"

definition seen_default :: seen_operation_filter where
  "seen_default = (\<lambda>_. 0)"

definition uuid_bytes :: "uuid \<Rightarrow> byte list" where
  "uuid_bytes u = map (\<lambda>i. ucast (drop_bit (8 * (15 - i)) u)) [0..<16]"

definition seen_seeds :: "64 word list" where
  "seen_seeds = [0xcbf29ce484222325, 0x9e3779b97f4a7c15, 0xd6e8feb86659fd93, 0xa0761d6478bd642f]"

definition seen_hash :: "64 word \<Rightarrow> byte list \<Rightarrow> 64 word" where
  "seen_hash seed bytes = foldl (\<lambda>hash b. (hash XOR ucast b) * 0x100000001b3) seed bytes"

definition seen_filter_indexes :: "uuid \<Rightarrow> nat list" where
  "seen_filter_indexes operation_id =
     map (\<lambda>seed. unat (seen_hash seed (uuid_bytes operation_id)
                    AND of_nat (SEEN_OPERATION_FILTER_BITS - 1))) seen_seeds"

definition may_contain :: "seen_operation_filter \<Rightarrow> uuid \<Rightarrow> bool" where
  "may_contain seen operation_id \<longleftrightarrow>
     list_all (\<lambda>i. seen (i div 64) AND push_bit (i mod 64) 1 \<noteq> 0) (seen_filter_indexes operation_id)"

definition seen_insert :: "seen_operation_filter \<Rightarrow> uuid \<Rightarrow> seen_operation_filter" where
  "seen_insert seen operation_id =
     foldl (\<lambda>s i. s(i div 64 := s (i div 64) OR push_bit (i mod 64) 1)) seen
       (seen_filter_indexes operation_id)"

section \<open>The registry state\<close>

record registry_state =
  rs_records :: "(uuid \<times> operation_snapshot) list"
  rs_terminal_order :: "uuid list"
  rs_seen :: seen_operation_filter
  rs_leases :: "(uuid \<times> authority_lease) list"
  rs_recovery_required :: "rust_str option"

definition registry_state_default :: registry_state where
  "registry_state_default = \<lparr>rs_records = [], rs_terminal_order = [], rs_seen = seen_default,
     rs_leases = [], rs_recovery_required = None\<rparr>"

record 'j operation_registry =
  og_capacity :: nat
  og_journal :: "'j option"
  og_inner :: registry_state

datatype operation_admission =
    AdmissionAccepted
  | AdmissionDuplicate operation_snapshot

datatype operation_cancel_transition =
    CancelledNow operation_query_result
  | AlreadySettled operation_query_result

type_synonym 'j journal_append =
  "'j \<Rightarrow> operation_journal_transition \<Rightarrow> 'j \<times> operation_journal_record agent_result"

section \<open>Bounded text\<close>

fun floor_char_boundary :: "rust_str \<Rightarrow> nat \<Rightarrow> nat" where
  "floor_char_boundary s 0 = 0"
| "floor_char_boundary s (Suc n) =
     (if is_char_boundary s (Suc n) then Suc n else floor_char_boundary s n)"

definition bounded_text :: "rust_str \<Rightarrow> nat \<Rightarrow> rust_str" where
  "bounded_text value max_bytes =
     (let sanitized = map (\<lambda>c. if is_control c then 32 else c) value;
          clip_end = floor_char_boundary sanitized (min (str_len sanitized) max_bytes);
          clipped = trim (take_bytes sanitized clip_end)
      in if clipped = [] then lit ''unspecified'' else clipped)"

section \<open>Eviction\<close>

definition record_is_terminal :: "registry_state \<Rightarrow> uuid \<Rightarrow> bool" where
  "record_is_terminal st operation_id =
     (case map_of (rs_records st) operation_id of
        Some s \<Rightarrow> is_terminal (snap_state s) | None \<Rightarrow> False)"

function evict_terminal_until_fit :: "registry_state \<Rightarrow> nat \<Rightarrow> registry_state" where
  "evict_terminal_until_fit st capacity =
     (if length (rs_records st) < capacity then st
      else (case rs_terminal_order st of
              [] \<Rightarrow> st
            | operation_id # rest \<Rightarrow>
                evict_terminal_until_fit
                  (let st1 = st\<lparr>rs_terminal_order := rest\<rparr> in
                   if record_is_terminal st1 operation_id
                   then st1\<lparr>rs_records := AList.delete operation_id (rs_records st1),
                            rs_leases := AList.delete operation_id (rs_leases st1)\<rparr>
                   else st1) capacity))"
  by pat_completeness auto
termination
  by (relation "measure (\<lambda>(st, c). length (rs_terminal_order st))") (simp_all add: Let_def)

declare evict_terminal_until_fit.simps [simp del]

definition has_capacity_or_evictable_terminal :: "registry_state \<Rightarrow> nat \<Rightarrow> bool" where
  "has_capacity_or_evictable_terminal st capacity \<longleftrightarrow>
     length (rs_records st) < capacity \<or> list_ex (record_is_terminal st) (rs_terminal_order st)"

section \<open>The journal seam\<close>

definition ensure_healthy :: "'j operation_registry \<Rightarrow> unit agent_result" where
  "ensure_healthy R = (case rs_recovery_required (og_inner R) of
     Some e \<Rightarrow> Inl (RecoveryRequired e) | None \<Rightarrow> Inr ())"

definition append_transition ::
  "'j journal_append \<Rightarrow> 'j operation_registry \<Rightarrow> operation_journal_transition
     \<Rightarrow> 'j operation_registry \<times> unit agent_result" where
  "append_transition jappend R t =
     (case og_journal R of
        None \<Rightarrow> (R, Inr ())
      | Some j \<Rightarrow>
          (case jappend j t of
             (j', Inr _) \<Rightarrow> (R\<lparr>og_journal := Some j'\<rparr>, Inr ())
           | (j', Inl e) \<Rightarrow>
               (let message = lit ''operation authority journal failed: '' @ error_display e
                in (R\<lparr>og_journal := Some j',
                      og_inner := (og_inner R)\<lparr>rs_recovery_required := Some message\<rparr>\<rparr>,
                    Inl (RecoveryRequired message)))))"

definition append_snapshot ::
  "'j journal_append \<Rightarrow> 'j operation_registry \<Rightarrow> operation_snapshot
     \<Rightarrow> 'j operation_registry \<times> unit agent_result" where
  "append_snapshot jappend R s = append_transition jappend R (OperationUpsert s)"

section \<open>Recovery\<close>

fun recover_insert :: "registry_state \<Rightarrow> operation_snapshot list \<Rightarrow> registry_state agent_result" where
  "recover_insert st [] = Inr st"
| "recover_insert st (s # ss) =
     (case snapshot_validate s of
        Inl m \<Rightarrow> Inl (InvalidRequest m)
      | Inr () \<Rightarrow>
          recover_insert
            (st\<lparr>rs_seen := seen_insert (rs_seen st) (snap_id s),
               rs_terminal_order := (if is_terminal (snap_state s)
                  then rs_terminal_order st @ [snap_id s] else rs_terminal_order st),
               rs_records := AList.update (snap_id s) s (rs_records st)\<rparr>) ss)"

definition registry_recover ::
  "nat \<Rightarrow> 'j option \<Rightarrow> operation_journal_recovery \<Rightarrow> 'j operation_registry agent_result" where
  "registry_recover capacity journal recovery =
     (let unresolved = length (filter (\<lambda>s. \<not> is_terminal (snap_state s)) (rv_operations recovery)) in
      if capacity < unresolved
      then Inl (RecoveryRequired (lit ''operation journal recovered '' @ dec unresolved
             @ lit '' unresolved operations, exceeding Core capacity '' @ dec capacity))
      else result_bind (recover_insert registry_state_default (rv_operations recovery)) (\<lambda>st.
        Inr \<lparr>og_capacity = capacity, og_journal = journal,
             og_inner = evict_terminal_until_fit st capacity\<rparr>))"

definition persist_epoch_advance ::
  "'j journal_append \<Rightarrow> 'j operation_registry \<Rightarrow> nat \<Rightarrow> nat \<Rightarrow> 'j operation_registry \<times> unit agent_result" where
  "persist_epoch_advance jappend R from_epoch to_epoch =
     (case ensure_healthy R of
        Inl e \<Rightarrow> (R, Inl e)
      | Inr () \<Rightarrow> append_transition jappend R (EpochAdvanced from_epoch to_epoch))"

definition recovered_snapshots :: "'j operation_registry \<Rightarrow> operation_snapshot list" where
  "recovered_snapshots R = sort_key snap_id (map snd (rs_records (og_inner R)))"

text \<open>The in-memory step that publishes a terminal: \<open>records.insert\<close>, \<open>leases.remove\<close>, \<open>push_back\<close>.\<close>

definition publish_terminal :: "registry_state \<Rightarrow> uuid \<Rightarrow> operation_snapshot \<Rightarrow> registry_state" where
  "publish_terminal st operation_id next =
     st\<lparr>rs_records := AList.update operation_id next (rs_records st),
        rs_leases := AList.delete operation_id (rs_leases st),
        rs_terminal_order := rs_terminal_order st @ [operation_id]\<rparr>"

fun expected_effect :: "operation_state \<Rightarrow> uuid option option" where
  "expected_effect Accepted = Some None"
| "expected_effect (Executing e) = Some e"
| "expected_effect (Prepared e) = Some (Some e)"
| "expected_effect (CommitStarted e) = Some (Some e)"
| "expected_effect (Terminal _ _) = None"

definition recover_terminal ::
  "'j journal_append \<Rightarrow> 'j operation_registry \<Rightarrow> uuid \<Rightarrow> operation_state \<Rightarrow> uuid option
     \<Rightarrow> operation_terminal \<Rightarrow> 'j operation_registry \<times> unit agent_result" where
  "recover_terminal jappend R operation_id expected effect_id terminal =
     (case terminal_validate terminal of Inl m \<Rightarrow> (R, Inl (InvalidRequest m)) | Inr () \<Rightarrow>
      (case expected_effect expected of
         None \<Rightarrow> (R, Inl (InvalidRequest (lit ''startup recovery cannot rewrite a terminal operation'')))
       | Some expected_effect_id \<Rightarrow>
         if expected_effect_id \<noteq> effect_id
         then (R, Inl (InvalidRequest (lit ''startup recovery terminal effect id does not match recovered authority state'')))
         else (case map_of (rs_records (og_inner R)) operation_id of
            None \<Rightarrow> (R, Inl (InvalidRequest (lit ''unknown operation'')))
          | Some rcd \<Rightarrow>
            if snap_state rcd \<noteq> expected
            then (R, Inl (RecoveryRequired (lit ''operation changed while startup recovery was reconciling it'')))
            else
             (let next = \<lparr>snap_identity = snap_identity rcd, snap_state = Terminal effect_id terminal\<rparr> in
              and_then (append_snapshot jappend R next) (\<lambda>R1 _.
                (R1\<lparr>og_inner := publish_terminal (og_inner R1) operation_id next\<rparr>, Inr ()))))))"

definition require_recovery :: "'j operation_registry \<Rightarrow> rust_str \<Rightarrow> 'j operation_registry" where
  "require_recovery R reason =
     (let bounded = bounded_text reason MAX_OPERATION_DIAGNOSTIC_BYTES in
      if rs_recovery_required (og_inner R) = None
      then R\<lparr>og_inner := (og_inner R)\<lparr>rs_recovery_required := Some bounded\<rparr>\<rparr>
      else R)"

definition recovery_status :: "'j operation_registry \<Rightarrow> authority_recovery_status" where
  "recovery_status R = (case rs_recovery_required (og_inner R) of
     Some reason \<Rightarrow> RecoveryIsRequired reason | None \<Rightarrow> Ready)"

definition ensure_mutation_allowed :: "'j operation_registry \<Rightarrow> unit agent_result" where
  "ensure_mutation_allowed R = ensure_healthy R"

section \<open>Markers through the registry\<close>

definition registry_checkpoint_marker ::
  "('j \<Rightarrow> authority_checkpoint_marker agent_result) \<Rightarrow> 'j operation_registry
     \<Rightarrow> authority_checkpoint_marker option agent_result" where
  "registry_checkpoint_marker marker R =
     result_bind (ensure_healthy R) (\<lambda>_.
       case og_journal R of
         None \<Rightarrow> Inr None
       | Some j \<Rightarrow> result_bind (marker j) (\<lambda>m. Inr (Some m)))"

definition registry_validate_marker ::
  "('j \<Rightarrow> authority_checkpoint_marker \<Rightarrow> unit agent_result) \<Rightarrow> 'j operation_registry
     \<Rightarrow> authority_checkpoint_marker \<Rightarrow> unit agent_result" where
  "registry_validate_marker validate R expected =
     result_bind (ensure_healthy R) (\<lambda>_.
       case og_journal R of
         None \<Rightarrow> Inl (RecoveryRequired
                   (lit ''Core has no durable operation journal for authority checkpoint validation''))
       | Some j \<Rightarrow> validate j expected)"

definition compact_authority_journal ::
  "('j \<Rightarrow> 'j \<times> authority_checkpoint_marker agent_result) \<Rightarrow> 'j operation_registry
     \<Rightarrow> 'j operation_registry \<times> authority_checkpoint_marker option agent_result" where
  "compact_authority_journal compact R =
     (case ensure_healthy R of
        Inl e \<Rightarrow> (R, Inl e)
      | Inr () \<Rightarrow>
          (case og_journal R of
             None \<Rightarrow> (R, Inr None)
           | Some j \<Rightarrow> (case compact j of
               (j', res) \<Rightarrow> (R\<lparr>og_journal := Some j'\<rparr>, result_bind res (\<lambda>m. Inr (Some m))))))"

section \<open>Admission and execution\<close>

definition accept ::
  "'j journal_append \<Rightarrow> 'j operation_registry \<Rightarrow> tool_operation_identity
     \<Rightarrow> 'j operation_registry \<times> operation_admission agent_result" where
  "accept jappend R identity =
     (case identity_validate identity of Inl m \<Rightarrow> (R, Inl (InvalidRequest m)) | Inr () \<Rightarrow>
      (case ensure_healthy R of Inl e \<Rightarrow> (R, Inl e) | Inr () \<Rightarrow>
       (let st = og_inner R;
            snapshot = \<lparr>snap_identity = identity, snap_state = Accepted\<rparr>
        in case map_of (rs_records st) (oi_operation_id identity) of
             Some existing \<Rightarrow>
               (R, if snap_identity existing = identity then Inr (AdmissionDuplicate existing)
                   else Inl (InvalidRequest (lit ''operation was reused with a different identity or argument digest'')))
           | None \<Rightarrow>
               if may_contain (rs_seen st) (oi_operation_id identity)
               then (R, Inl (InvalidRequest (lit ''operation was already admitted (or collided with Core's bounded fail-closed tombstone filter); query or use a new operation id instead of replaying it'')))
               else if \<not> has_capacity_or_evictable_terminal st (og_capacity R)
               then (R, Inl (RecoveryRequired (lit ''operation registry is full with ''
                      @ dec (length (rs_records st)) @ lit '' unresolved operation(s)'')))
               else
                and_then (append_snapshot jappend R snapshot) (\<lambda>R1 _.
                  (let st1 = evict_terminal_until_fit (og_inner R1) (og_capacity R1) in
                   (R1\<lparr>og_inner := st1\<lparr>rs_seen := seen_insert (rs_seen st1) (oi_operation_id identity),
                        rs_records := AList.update (oi_operation_id identity) snapshot (rs_records st1)\<rparr>\<rparr>,
                    Inr AdmissionAccepted))))))"

definition transition ::
  "'j journal_append \<Rightarrow> 'j operation_registry \<Rightarrow> uuid \<Rightarrow> (operation_state \<Rightarrow> rust_str + operation_state)
     \<Rightarrow> 'j operation_registry \<times> unit agent_result" where
  "transition jappend R operation_id move_state =
     (case ensure_healthy R of Inl e \<Rightarrow> (R, Inl e) | Inr () \<Rightarrow>
      (case map_of (rs_records (og_inner R)) operation_id of
         None \<Rightarrow> (R, Inl (InvalidRequest (lit ''unknown operation'')))
       | Some rcd \<Rightarrow>
         (case move_state (snap_state rcd) of
            Inl message \<Rightarrow> (R, Inl (InvalidRequest (lit ''operation: '' @ message)))
          | Inr next_state \<Rightarrow>
              (let next = \<lparr>snap_identity = snap_identity rcd, snap_state = next_state\<rparr> in
               and_then (append_snapshot jappend R next) (\<lambda>R1 _.
                 (R1\<lparr>og_inner := (og_inner R1)\<lparr>rs_records :=
                    AList.update operation_id next (rs_records (og_inner R1))\<rparr>\<rparr>, Inr ()))))))"

fun move_executing :: "uuid option \<Rightarrow> operation_state \<Rightarrow> rust_str + operation_state" where
  "move_executing effect_id Accepted = Inr (Executing effect_id)"
| "move_executing effect_id _ = Inl (lit ''operation is not accepted'')"

definition mark_executing ::
  "'j journal_append \<Rightarrow> 'j operation_registry \<Rightarrow> uuid \<Rightarrow> uuid option
     \<Rightarrow> 'j operation_registry \<times> unit agent_result" where
  "mark_executing jappend R operation_id effect_id =
     (if is_some_nil effect_id
      then (R, Inl (InvalidRequest (lit ''operation cannot reserve a nil effect id'')))
      else transition jappend R operation_id (move_executing effect_id))"

definition record_lease ::
  "'j operation_registry \<Rightarrow> uuid \<Rightarrow> authority_lease \<Rightarrow> 'j operation_registry \<times> unit agent_result" where
  "record_lease R operation_id lease =
     (case ensure_healthy R of Inl e \<Rightarrow> (R, Inl e) | Inr () \<Rightarrow>
      (case map_of (rs_records (og_inner R)) operation_id of
         None \<Rightarrow> (R, Inl (InvalidRequest (lit ''unknown operation'')))
       | Some rcd \<Rightarrow>
         if snap_state rcd \<noteq> Accepted \<or> al_operation_id lease \<noteq> operation_id
            \<or> al_argument_digest lease \<noteq> oi_argument_digest (snap_identity rcd)
            \<or> al_operation_generation lease \<noteq> oi_generation (snap_identity rcd)
         then (R, Inl (InvalidRequest (lit ''operation cannot record this authority lease'')))
         else (R\<lparr>og_inner := (og_inner R)\<lparr>rs_leases :=
                 AList.update operation_id lease (rs_leases (og_inner R))\<rparr>\<rparr>, Inr ())))"

definition issued_lease_matches :: "'j operation_registry \<Rightarrow> uuid \<Rightarrow> authority_lease \<Rightarrow> bool" where
  "issued_lease_matches R operation_id lease =
     (case map_of (rs_leases (og_inner R)) operation_id of Some issued \<Rightarrow> issued = lease | None \<Rightarrow> False)"

fun move_prepared :: "uuid \<Rightarrow> operation_state \<Rightarrow> rust_str + operation_state" where
  "move_prepared effect_id (Executing (Some expected)) =
     (if expected = effect_id then Inr (Prepared effect_id)
      else Inl (lit ''effect id does not match the executing operation''))"
| "move_prepared effect_id (Executing None) = Inl (lit ''read-only operation has no reserved effect id'')"
| "move_prepared effect_id _ = Inl (lit ''operation is not executing'')"

definition mark_prepared ::
  "'j journal_append \<Rightarrow> 'j operation_registry \<Rightarrow> uuid \<Rightarrow> uuid \<Rightarrow> 'j operation_registry \<times> unit agent_result" where
  "mark_prepared jappend R operation_id effect_id = transition jappend R operation_id (move_prepared effect_id)"

fun move_commit :: "uuid \<Rightarrow> operation_state \<Rightarrow> rust_str + operation_state" where
  "move_commit effect_id (Prepared expected) =
     (if expected = effect_id then Inr (CommitStarted effect_id)
      else Inl (lit ''effect id does not match prepared operation''))"
| "move_commit effect_id _ = Inl (lit ''operation has no commit-ready prepared effect'')"

definition begin_commit ::
  "'j journal_append \<Rightarrow> 'j operation_registry \<Rightarrow> uuid \<Rightarrow> uuid \<Rightarrow> 'j operation_registry \<times> unit agent_result" where
  "begin_commit jappend R operation_id effect_id = transition jappend R operation_id (move_commit effect_id)"

section \<open>Terminals\<close>

definition query :: "'j operation_registry \<Rightarrow> uuid \<Rightarrow> operation_query_result" where
  "query R operation_id =
     (case map_of (rs_records (og_inner R)) operation_id of
        Some snapshot \<Rightarrow> Found snapshot
      | None \<Rightarrow> if may_contain (rs_seen (og_inner R)) operation_id then ExpiredOrPossiblySeen else NotFound)"

definition finish_terminal ::
  "'j journal_append \<Rightarrow> 'j operation_registry \<Rightarrow> uuid \<Rightarrow> uuid option \<Rightarrow> operation_terminal
     \<Rightarrow> (operation_state \<Rightarrow> bool) \<Rightarrow> 'j operation_registry \<times> unit agent_result" where
  "finish_terminal jappend R operation_id effect_id terminal allowed =
     (case ensure_healthy R of Inl e \<Rightarrow> (R, Inl e) | Inr () \<Rightarrow>
      (case map_of (rs_records (og_inner R)) operation_id of
         None \<Rightarrow> (R, Inl (InvalidRequest (lit ''unknown operation'')))
       | Some rcd \<Rightarrow>
         if \<not> allowed (snap_state rcd)
         then (R, Inl (InvalidRequest (lit ''operation cannot become terminal'')))
         else
          (let next = \<lparr>snap_identity = snap_identity rcd, snap_state = Terminal effect_id terminal\<rparr> in
           and_then (append_snapshot jappend R next) (\<lambda>R1 _.
             (R1\<lparr>og_inner := publish_terminal (og_inner R1) operation_id next\<rparr>, Inr ())))))"

definition require_identity ::
  "'j operation_registry \<Rightarrow> uuid \<Rightarrow> digest \<Rightarrow> nat option \<Rightarrow> unit agent_result" where
  "require_identity R operation_id argument_digest generation =
     (case map_of (rs_records (og_inner R)) operation_id of
        None \<Rightarrow> Inl (InvalidRequest (lit ''unknown operation''))
      | Some rcd \<Rightarrow>
          if oi_argument_digest (snap_identity rcd) \<noteq> argument_digest
             \<or> (case generation of None \<Rightarrow> False | Some g \<Rightarrow> oi_generation (snap_identity rcd) \<noteq> g)
          then Inl (InvalidRequest (lit ''operation identity does not match admission''))
          else Inr ())"

fun is_executing :: "operation_state \<Rightarrow> bool" where
  "is_executing (Executing _) = True"
| "is_executing _ = False"

fun is_commit_started :: "operation_state \<Rightarrow> bool" where
  "is_commit_started (CommitStarted _) = True"
| "is_commit_started _ = False"

definition finish_value ::
  "'j journal_append \<Rightarrow> 'j operation_registry \<Rightarrow> uuid \<Rightarrow> digest \<Rightarrow> nat
     \<Rightarrow> 'j operation_registry \<times> unit agent_result" where
  "finish_value jappend R operation_id argument_digest generation =
     (case require_identity R operation_id argument_digest (Some generation) of
        Inl e \<Rightarrow> (R, Inl e)
      | Inr () \<Rightarrow> finish_terminal jappend R operation_id None CompletedValue is_executing)"

definition finish_refused ::
  "'j journal_append \<Rightarrow> 'j operation_registry \<Rightarrow> uuid \<Rightarrow> rust_str \<Rightarrow> 'j operation_registry \<times> unit agent_result" where
  "finish_refused jappend R operation_id error =
     finish_terminal jappend R operation_id None
       (Refused (bounded_text error MAX_OPERATION_DIAGNOSTIC_BYTES)) (\<lambda>s. s = Accepted)"

fun receipt_terminal :: "effect_receipt \<Rightarrow> operation_terminal" where
  "receipt_terminal (ReceiptNotApplied error) =
     NotApplied (bounded_text error MAX_OPERATION_DIAGNOSTIC_BYTES)"
| "receipt_terminal (ReceiptApplied durability evidence) =
     Applied (case durability of
                Durable \<Rightarrow> Durable
              | DurabilityFailed error \<Rightarrow>
                  DurabilityFailed (bounded_text error MAX_OPERATION_DIAGNOSTIC_BYTES))
       (map_option (\<lambda>v. bounded_text v MAX_OPERATION_EVIDENCE_BYTES) evidence)"
| "receipt_terminal (ReceiptUnknown error) =
     OutcomeUnknown (bounded_text error MAX_OPERATION_DIAGNOSTIC_BYTES)"

definition finish_effect ::
  "'j journal_append \<Rightarrow> 'j operation_registry \<Rightarrow> uuid \<Rightarrow> effect_receipt
     \<Rightarrow> 'j operation_registry \<times> unit agent_result" where
  "finish_effect jappend R operation_id receipt =
     (let terminal = receipt_terminal receipt in
      case terminal_validate terminal of Inl m \<Rightarrow> (R, Inl (InvalidRequest m)) | Inr () \<Rightarrow>
      (let effect_id = (case query R operation_id of
             Found snapshot \<Rightarrow> (case snap_state snapshot of CommitStarted e \<Rightarrow> Some e | _ \<Rightarrow> None)
           | _ \<Rightarrow> None)
       in finish_terminal jappend R operation_id effect_id terminal is_commit_started))"

section \<open>Cancellation\<close>

text \<open>The in-memory step of a cancellation: evict, remember, insert, drop the lease, queue the terminal.\<close>

definition publish_cancelled :: "registry_state \<Rightarrow> nat \<Rightarrow> uuid \<Rightarrow> operation_snapshot \<Rightarrow> registry_state" where
  "publish_cancelled st capacity operation_id next =
     (let st1 = evict_terminal_until_fit st capacity in
      publish_terminal (st1\<lparr>rs_seen := seen_insert (rs_seen st1) operation_id\<rparr>) operation_id next)"

definition cancelled_snapshot :: "tool_operation_identity \<Rightarrow> uuid option \<Rightarrow> operation_snapshot" where
  "cancelled_snapshot identity effect_id =
     \<lparr>snap_identity = identity, snap_state = Terminal effect_id CancelledBeforeCommit\<rparr>"

datatype cancel_choice =
    CancelDone
  | CancelRefused agent_error
  | CancelWith operation_snapshot

definition choose_cancel :: "'j operation_registry \<Rightarrow> tool_operation_identity \<Rightarrow> cancel_choice" where
  "choose_cancel R identity =
     (let st = og_inner R; operation_id = oi_operation_id identity in
      case map_of (rs_records st) operation_id of
        Some rcd \<Rightarrow>
          if snap_identity rcd \<noteq> identity
          then CancelRefused (InvalidRequest (lit ''operation cancellation identity does not match admission''))
          else (case snap_state rcd of
                  Accepted \<Rightarrow> CancelWith (cancelled_snapshot (snap_identity rcd) None)
                | Executing e \<Rightarrow> CancelWith (cancelled_snapshot (snap_identity rcd) e)
                | Prepared e \<Rightarrow> CancelWith (cancelled_snapshot (snap_identity rcd) (Some e))
                | Terminal _ CancelledBeforeCommit \<Rightarrow> CancelDone
                | _ \<Rightarrow> CancelRefused (InvalidRequest (lit ''operation cannot be cancelled'')))
      | None \<Rightarrow>
          if may_contain (rs_seen st) operation_id
          then CancelRefused (InvalidRequest (lit ''operation was already admitted or conservatively seen''))
          else if \<not> has_capacity_or_evictable_terminal st (og_capacity R)
          then CancelRefused (RecoveryRequired (lit ''operation registry is full with ''
                 @ dec (length (rs_records st)) @ lit '' unresolved operation(s)''))
          else CancelWith (cancelled_snapshot identity None))"

definition cancel ::
  "'j journal_append \<Rightarrow> 'j operation_registry \<Rightarrow> tool_operation_identity
     \<Rightarrow> 'j operation_registry \<times> unit agent_result" where
  "cancel jappend R identity =
     (case identity_validate identity of Inl m \<Rightarrow> (R, Inl (InvalidRequest m)) | Inr () \<Rightarrow>
      (case ensure_healthy R of Inl e \<Rightarrow> (R, Inl e) | Inr () \<Rightarrow>
       (case choose_cancel R identity of
          CancelDone \<Rightarrow> (R, Inr ())
        | CancelRefused e \<Rightarrow> (R, Inl e)
        | CancelWith next \<Rightarrow>
            and_then (append_snapshot jappend R next) (\<lambda>R1 _.
              (R1\<lparr>og_inner := publish_cancelled (og_inner R1) (og_capacity R1)
                                (oi_operation_id identity) next\<rparr>, Inr ())))))"

datatype epoch_cancel_choice =
    SettledAlready operation_query_result
  | EpochCancelRefused agent_error
  | EpochCancelWith operation_snapshot

definition choose_epoch_cancel :: "'j operation_registry \<Rightarrow> tool_operation_identity \<Rightarrow> epoch_cancel_choice" where
  "choose_epoch_cancel R identity =
     (let st = og_inner R; operation_id = oi_operation_id identity in
      case map_of (rs_records st) operation_id of
        Some rcd \<Rightarrow>
          if snap_identity rcd \<noteq> identity
          then EpochCancelRefused (InvalidRequest (lit ''operation cancellation identity does not match admission''))
          else (case snap_state rcd of
                  Accepted \<Rightarrow> EpochCancelWith (cancelled_snapshot (snap_identity rcd) None)
                | Executing e \<Rightarrow> EpochCancelWith (cancelled_snapshot (snap_identity rcd) e)
                | Prepared e \<Rightarrow> EpochCancelWith (cancelled_snapshot (snap_identity rcd) (Some e))
                | _ \<Rightarrow> SettledAlready (Found rcd))
      | None \<Rightarrow>
          if may_contain (rs_seen st) operation_id then SettledAlready ExpiredOrPossiblySeen
          else if \<not> has_capacity_or_evictable_terminal st (og_capacity R)
          then EpochCancelRefused (RecoveryRequired (lit ''operation registry is full with ''
                 @ dec (length (rs_records st)) @ lit '' unresolved operation(s)''))
          else EpochCancelWith (cancelled_snapshot identity None))"

definition cancel_and_persist_epoch ::
  "'j journal_append \<Rightarrow> 'j operation_registry \<Rightarrow> tool_operation_identity \<Rightarrow> nat \<Rightarrow> nat
     \<Rightarrow> 'j operation_registry \<times> operation_cancel_transition agent_result" where
  "cancel_and_persist_epoch jappend R identity from_epoch to_epoch =
     (case identity_validate identity of Inl m \<Rightarrow> (R, Inl (InvalidRequest m)) | Inr () \<Rightarrow>
      if from_epoch = 0 \<or> to_epoch \<noteq> (case checked_add_u64 from_epoch 1 of Some n \<Rightarrow> n | None \<Rightarrow> 0)
      then (R, Inl (InvalidRequest (lit ''operation cancellation requires one non-zero authority-epoch advance'')))
      else (case ensure_healthy R of Inl e \<Rightarrow> (R, Inl e) | Inr () \<Rightarrow>
       (case choose_epoch_cancel R identity of
          SettledAlready res \<Rightarrow> (R, Inr (AlreadySettled res))
        | EpochCancelRefused e \<Rightarrow> (R, Inl e)
        | EpochCancelWith next \<Rightarrow>
            and_then (append_transition jappend R (EpochAdvanced from_epoch to_epoch)) (\<lambda>R1 _.
            and_then (append_snapshot jappend R1 next) (\<lambda>R2 _.
              (R2\<lparr>og_inner := publish_cancelled (og_inner R2) (og_capacity R2)
                                (oi_operation_id identity) next\<rparr>,
               Inr (CancelledNow (Found next))))))))"

definition abort_prepared ::
  "'j journal_append \<Rightarrow> 'j operation_registry \<Rightarrow> uuid \<Rightarrow> uuid \<Rightarrow> digest
     \<Rightarrow> 'j operation_registry \<times> unit agent_result" where
  "abort_prepared jappend R operation_id effect_id argument_digest =
     (case query R operation_id of
        Found snapshot \<Rightarrow>
          if oi_argument_digest (snap_identity snapshot) \<noteq> argument_digest
          then (R, Inl (InvalidRequest (lit ''operation prepared-effect identity does not match'')))
          else (case snap_state snapshot of
                  Prepared expected \<Rightarrow>
                    if expected = effect_id then cancel jappend R (snap_identity snapshot)
                    else (R, Inl (InvalidRequest (lit ''operation prepared-effect identity does not match'')))
                | Terminal (Some expected) CancelledBeforeCommit \<Rightarrow>
                    if expected = effect_id then (R, Inr ())
                    else (R, Inl (InvalidRequest (lit ''operation prepared-effect identity does not match'')))
                | _ \<Rightarrow> (R, Inl (InvalidRequest (lit ''operation prepared-effect identity does not match''))))
      | _ \<Rightarrow> (R, Inl (InvalidRequest (lit ''unknown or expired operation''))))"

end
