(* ===== verification/Registry_Moves.thy ===== *)
theory Registry_Moves
  imports Operation_Registry
begin

text \<open>
  The invariant of the operation registry and its step relation. \<open>publishes\<close> says what one published
  snapshot does to the in-memory state, \<open>registry_move\<close> is the step relation every operation of
  \<open>Operation_Registry\<close> refines: nothing, one journal append that failed, or one append followed by one
  publication. The invariants are proved once, for the relation.
\<close>

section \<open>The tombstone filter\<close>

lemma bit_probe: "n < 64 \<Longrightarrow> (w AND push_bit n 1 \<noteq> (0 :: 64 word)) = bit w n"
  by (simp add: bit_iff_and_push_bit_not_eq_0)

definition filter_bit :: "seen_operation_filter \<Rightarrow> nat \<Rightarrow> bool" where
  "filter_bit s i \<longleftrightarrow> bit (s (i div 64)) (i mod 64)"

lemma may_contain_bits: "may_contain s u \<longleftrightarrow> (\<forall>i \<in> set (seen_filter_indexes u). filter_bit s i)"
  by (simp add: may_contain_def list_all_iff bit_probe filter_bit_def del: push_bit_of_1)

lemma filter_bit_set:
  "filter_bit (s(i div 64 := s (i div 64) OR push_bit (i mod 64) 1)) k \<longleftrightarrow> filter_bit s k \<or> k = i"
proof (cases "k div 64 = i div 64")
  case True
  then have "k = i \<longleftrightarrow> k mod 64 = i mod 64" by (metis div_mult_mod_eq)
  then show ?thesis using True by (auto simp: filter_bit_def bit_simps simp del: push_bit_of_1)
qed (auto simp: filter_bit_def)

lemma filter_bit_fold:
  "filter_bit (foldl (\<lambda>s i. s(i div 64 := s (i div 64) OR push_bit (i mod 64) 1)) s is) k
   \<longleftrightarrow> filter_bit s k \<or> k \<in> set is"
  by (induction "is" arbitrary: s) (auto simp: filter_bit_set simp del: push_bit_of_1)

lemma may_contain_insert [simp]: "may_contain (seen_insert s u) u"
  by (simp add: may_contain_bits seen_insert_def filter_bit_fold del: push_bit_of_1)

lemma may_contain_mono: "may_contain s v \<Longrightarrow> may_contain (seen_insert s u) v"
  by (simp add: may_contain_bits seen_insert_def filter_bit_fold del: push_bit_of_1)

lemma may_contain_default: "\<not> may_contain seen_default u"
proof -
  have "seen_filter_indexes u \<noteq> []" by (simp add: seen_filter_indexes_def seen_seeds_def)
  then show ?thesis by (cases "seen_filter_indexes u") (auto simp: may_contain_bits seen_default_def filter_bit_def)
qed

lemma seen_indexes_in_range: "i \<in> set (seen_filter_indexes u) \<Longrightarrow> i < SEEN_OPERATION_FILTER_BITS"
proof -
  assume "i \<in> set (seen_filter_indexes u)"
  then obtain h :: "64 word" where "i = unat (h AND of_nat (SEEN_OPERATION_FILTER_BITS - 1))"
    by (auto simp: seen_filter_indexes_def)
  moreover have "h AND of_nat (SEEN_OPERATION_FILTER_BITS - 1) = take_bit 21 h"
    by (simp add: SEEN_OPERATION_FILTER_BITS_def take_bit_eq_mask mask_eq_exp_minus_1)
  moreover have "unat (take_bit 21 h) < 2 ^ 21"
    unfolding unsigned_take_bit_eq by (rule take_bit_nat_less_exp)
  ultimately show ?thesis by (simp add: SEEN_OPERATION_FILTER_BITS_def)
qed

section \<open>Bounded text\<close>

lemma floor_char_boundary_le: "floor_char_boundary s n \<le> n"
  by (induction s n rule: floor_char_boundary.induct) auto

lemma bounded_text_validates:
  assumes "11 \<le> max_bytes"
  shows "validate_bounded_text name (bounded_text value max_bytes) max_bytes = Inr ()"
proof -
  let ?s = "map (\<lambda>c. if is_control c then 32 else c) value"
  let ?e = "floor_char_boundary ?s (min (str_len ?s) max_bytes)"
  let ?c = "trim (take_bytes ?s ?e)"
  have noctl: "\<forall>c \<in> set ?s. \<not> is_control c" by (auto simp: is_control_def)
  have "set ?c \<subseteq> set ?s" by (rule subset_trans [OF set_trim_subset set_take_bytes_subset])
  then have ctl: "\<not> list_ex is_control ?c" using noctl unfolding list_ex_iff by blast
  have "str_len ?c \<le> ?e" by (rule order_trans [OF str_len_trim_le str_len_take_bytes_le])
  also have "\<dots> \<le> max_bytes" using floor_char_boundary_le [of ?s "min (str_len ?s) max_bytes"] by simp
  finally have len: "str_len ?c \<le> max_bytes" .
  have u: "str_len (lit ''unspecified'') = 11" "\<not> list_ex is_control (lit ''unspecified'')"
    "lit ''unspecified'' \<noteq> []" by code_simp+
  show ?thesis
    using assms ctl len u by (simp add: bounded_text_def Let_def validate_bounded_text_def)
qed

section \<open>The invariant\<close>

definition leases_ok :: "registry_state \<Rightarrow> bool" where
  "leases_ok st \<longleftrightarrow> (\<forall>k l. map_of (rs_leases st) k = Some l \<longrightarrow>
     (\<exists>s. map_of (rs_records st) k = Some s \<and> \<not> is_terminal (snap_state s) \<and> al_operation_id l = k
        \<and> al_argument_digest l = oi_argument_digest (snap_identity s)
        \<and> al_operation_generation l = oi_generation (snap_identity s)))"

definition state_inv :: "registry_state \<Rightarrow> bool" where
  "state_inv st \<longleftrightarrow> table_wf (rs_records st)
   \<and> (\<forall>s \<in> table_values (rs_records st). snapshot_validate s = Inr ())
   \<and> distinct (rs_terminal_order st)
   \<and> (\<forall>k. k \<in> set (rs_terminal_order st) \<longleftrightarrow> record_is_terminal st k)
   \<and> (\<forall>k s. map_of (rs_records st) k = Some s \<longrightarrow> may_contain (rs_seen st) k)
   \<and> leases_ok st"

definition registry_wf :: "'j operation_registry \<Rightarrow> bool" where
  "registry_wf R \<longleftrightarrow> 0 < og_capacity R \<and> state_inv (og_inner R)
   \<and> length (rs_records (og_inner R)) \<le> og_capacity R"

section \<open>Eviction keeps what is unresolved\<close>

definition drop_front :: "registry_state \<Rightarrow> uuid \<Rightarrow> uuid list \<Rightarrow> registry_state" where
  "drop_front st operation_id rest =
     st\<lparr>rs_terminal_order := rest, rs_records := AList.delete operation_id (rs_records st),
        rs_leases := AList.delete operation_id (rs_leases st)\<rparr>"

lemma state_inv_drop_front:
  assumes "state_inv st" "rs_terminal_order st = k # rest"
  shows "state_inv (drop_front st k rest)" "record_is_terminal st k"
    "evict_terminal_until_fit st c = (if length (rs_records st) < c then st
       else evict_terminal_until_fit (drop_front st k rest) c)"
    "length (rs_records (drop_front st k rest)) = length (rs_records st) - 1" "rs_records st \<noteq> []"
proof -
  show t: "record_is_terminal st k" using assms by (auto simp: state_inv_def)
  then have "record_is_terminal (st\<lparr>rs_terminal_order := rest\<rparr>) k" by (simp add: record_is_terminal_def)
  then show "evict_terminal_until_fit st c = (if length (rs_records st) < c then st
       else evict_terminal_until_fit (drop_front st k rest) c)"
    using assms(2) by (subst evict_terminal_until_fit.simps) (simp add: Let_def drop_front_def)
  have wf: "table_wf (AList.delete k (rs_records st))"
    using assms(1) by (auto simp: state_inv_def table_wf_def distinct_delete AList.delete_eq distinct_map inj_on_def)
  have vals: "table_values (AList.delete k (rs_records st)) \<subseteq> table_values (rs_records st)"
    by (auto simp: table_values_def AList.delete_eq)
  show "state_inv (drop_front st k rest)"
    using assms wf vals
    by (auto simp: state_inv_def drop_front_def record_is_terminal_def leases_ok_def split: if_splits)
  obtain s where s: "map_of (rs_records st) k = Some s"
    using t by (auto simp: record_is_terminal_def split: option.splits)
  then show "length (rs_records (drop_front st k rest)) = length (rs_records st) - 1" "rs_records st \<noteq> []"
    using assms(1) by (auto simp: drop_front_def length_alist_delete state_inv_def table_wf_def dom_def)
qed


lemma evict_done: "length (rs_records st) < c \<Longrightarrow> evict_terminal_until_fit st c = st"
  "rs_terminal_order st = [] \<Longrightarrow> evict_terminal_until_fit st c = st"
  by (subst evict_terminal_until_fit.simps; simp)+

definition evicts :: "registry_state \<Rightarrow> registry_state \<Rightarrow> bool" where
  "evicts st st' \<longleftrightarrow> state_inv st'
   \<and> rs_seen st' = rs_seen st \<and> rs_recovery_required st' = rs_recovery_required st
   \<and> (\<forall>k s. map_of (rs_records st') k = Some s \<longrightarrow> map_of (rs_records st) k = Some s)
   \<and> (\<forall>k s. map_of (rs_records st) k = Some s \<longrightarrow> \<not> is_terminal (snap_state s)
        \<longrightarrow> map_of (rs_records st') k = Some s)
   \<and> length (rs_records st') \<le> length (rs_records st)"

lemma evicts_drop_front:
  assumes "state_inv st" "rs_terminal_order st = k # rest"
  shows "evicts st (drop_front st k rest)"
  using state_inv_drop_front [OF assms]
  by (auto simp: evicts_def drop_front_def record_is_terminal_def)

lemma evictsD:
  assumes "evicts st st'"
  shows "state_inv st'" "rs_seen st' = rs_seen st" "rs_recovery_required st' = rs_recovery_required st"
    "map_of (rs_records st') k = Some s \<Longrightarrow> map_of (rs_records st) k = Some s"
    "map_of (rs_records st) k = Some s \<Longrightarrow> \<not> is_terminal (snap_state s) \<Longrightarrow> map_of (rs_records st') k = Some s"
    "length (rs_records st') \<le> length (rs_records st)"
  using assms unfolding evicts_def by blast+

lemma evicts_trans:
  assumes ab: "evicts a b" and bc: "evicts b c"
  shows "evicts a c"
  unfolding evicts_def
proof (intro conjI allI impI)
  show "rs_seen c = rs_seen a" "rs_recovery_required c = rs_recovery_required a"
    by (simp_all only: evictsD(2,3) [OF ab] evictsD(2,3) [OF bc])
  show "length (rs_records c) \<le> length (rs_records a)"
    using evictsD(6) [OF bc] evictsD(6) [OF ab] by (rule order_trans)
qed (blast intro: evictsD(1) [OF bc] evictsD(4) [OF ab] evictsD(4) [OF bc] evictsD(5) [OF ab] evictsD(5) [OF bc])+

lemma evicts_refl: "state_inv st \<Longrightarrow> evicts st st"
  by (simp add: evicts_def)

lemma evict_evicts: "state_inv st \<Longrightarrow> evicts st (evict_terminal_until_fit st c)"
proof (induction "length (rs_terminal_order st)" arbitrary: st)
  case 0
  then show ?case by (simp add: evict_done evicts_refl)
next
  case (Suc n)
  then obtain k rest where o: "rs_terminal_order st = k # rest" "length rest = n"
    by (metis length_Suc_conv)
  note d = state_inv_drop_front [OF Suc.prems o(1)]
  have "rs_terminal_order (drop_front st k rest) = rest" by (simp add: drop_front_def)
  then have "evicts (drop_front st k rest) (evict_terminal_until_fit (drop_front st k rest) c)"
    using Suc.hyps(1) [of "drop_front st k rest"] d(1) o(2) by simp
  then have "evicts st (evict_terminal_until_fit (drop_front st k rest) c)"
    by (rule evicts_trans [OF evicts_drop_front [OF Suc.prems o(1)]])
  then show ?case unfolding d(3) [of c] using evicts_refl [OF Suc.prems] by simp
qed

lemma evict_makes_room:
  assumes "state_inv st" "length (rs_records st) \<le> c" "has_capacity_or_evictable_terminal st c"
  shows "length (rs_records (evict_terminal_until_fit st c)) < c"
proof (cases "length (rs_records st) < c")
  case True
  then show ?thesis by (simp add: evict_done)
next
  case False
  then obtain k rest where o: "rs_terminal_order st = k # rest"
    using assms(3) by (cases "rs_terminal_order st") (auto simp: has_capacity_or_evictable_terminal_def)
  note d = state_inv_drop_front [OF assms(1) o]
  have "length (rs_records (drop_front st k rest)) < c" using d(4,5) assms(2) by (cases "rs_records st") auto
  then show ?thesis using d(3) [of c] False by (simp add: evict_done)
qed

lemma evict_full_or_resolved:
  assumes "state_inv st"
  shows "length (rs_records (evict_terminal_until_fit st c)) < c
    \<or> rs_terminal_order (evict_terminal_until_fit st c) = []"
  using assms
proof (induction "length (rs_terminal_order st)" arbitrary: st)
  case 0
  then show ?case by (simp add: evict_done)
next
  case (Suc n)
  then obtain k rest where o: "rs_terminal_order st = k # rest" "length rest = n"
    by (metis length_Suc_conv)
  note d = state_inv_drop_front [OF Suc.prems o(1)]
  have "rs_terminal_order (drop_front st k rest) = rest" by (simp add: drop_front_def)
  then show ?case using d(3) [of c] Suc.hyps(1) [of "drop_front st k rest"] d(1) o(2) by simp
qed

section \<open>Publication\<close>

text \<open>
  \<open>publishable st nxt\<close>: what an operation has checked of the in-memory table when it offers \<open>nxt\<close> to the
  journal. \<open>publishes cap st nxt st'\<close>: what the in-memory table is after the journal stored it.
\<close>

definition publishable :: "registry_state \<Rightarrow> operation_snapshot \<Rightarrow> bool" where
  "publishable st nxt \<longleftrightarrow> snapshot_validate nxt = Inr ()
   \<and> (case map_of (rs_records st) (snap_id nxt) of
        Some p \<Rightarrow> snap_identity p = snap_identity nxt \<and> \<not> is_terminal (snap_state p)
          \<and> valid_recovered_transition (snap_state p) (snap_state nxt)
      | None \<Rightarrow> \<not> may_contain (rs_seen st) (snap_id nxt) \<and> is_first_state (snap_state nxt))"

definition publishes :: "nat \<Rightarrow> registry_state \<Rightarrow> operation_snapshot \<Rightarrow> registry_state \<Rightarrow> bool" where
  "publishes cap st nxt st' \<longleftrightarrow> state_inv st' \<and> length (rs_records st') \<le> cap
   \<and> rs_recovery_required st' = rs_recovery_required st
   \<and> (\<forall>k. may_contain (rs_seen st) k \<longrightarrow> may_contain (rs_seen st') k)
   \<and> map_of (rs_records st') (snap_id nxt) = Some nxt
   \<and> (\<forall>k s. k \<noteq> snap_id nxt \<longrightarrow> map_of (rs_records st') k = Some s \<longrightarrow> map_of (rs_records st) k = Some s)
   \<and> (\<forall>k s. k \<noteq> snap_id nxt \<longrightarrow> map_of (rs_records st) k = Some s \<longrightarrow> \<not> is_terminal (snap_state s)
        \<longrightarrow> map_of (rs_records st') k = Some s)"

lemma leases_ok_update:
  assumes "leases_ok st" "\<not> is_terminal (snap_state nxt)"
    "\<And>p. map_of (rs_records st) (snap_id nxt) = Some p \<Longrightarrow> snap_identity p = snap_identity nxt"
  shows "leases_ok (st\<lparr>rs_seen := f, rs_records := AList.update (snap_id nxt) nxt (rs_records st)\<rparr>)"
  using assms unfolding leases_ok_def by (auto split: if_splits) (metis option.inject)+

lemma state_inv_update_live:
  assumes "state_inv st" "map_of (rs_records st) (snap_id nxt) = Some p" "snap_identity p = snap_identity nxt"
    "\<not> is_terminal (snap_state p)" "\<not> is_terminal (snap_state nxt)" "snapshot_validate nxt = Inr ()"
  shows "state_inv (st\<lparr>rs_records := AList.update (snap_id nxt) nxt (rs_records st)\<rparr>)"
  using assms leases_ok_update [of st nxt "rs_seen st"] table_wf_update [of "rs_records st" nxt] table_values_update [of "rs_records st" nxt]
  by (auto simp: state_inv_def record_is_terminal_def split: option.splits if_splits)

lemma state_inv_insert_new:
  assumes "state_inv st" "map_of (rs_records st) (snap_id nxt) = None"
    "\<not> is_terminal (snap_state nxt)" "snapshot_validate nxt = Inr ()"
  shows "state_inv (st\<lparr>rs_seen := seen_insert (rs_seen st) (snap_id nxt),
           rs_records := AList.update (snap_id nxt) nxt (rs_records st)\<rparr>)"
  using assms leases_ok_update [of st nxt] table_wf_update [of "rs_records st" nxt]
    table_values_update [of "rs_records st" nxt]
  by (auto simp: state_inv_def record_is_terminal_def may_contain_mono split: option.splits if_splits)

lemma state_inv_remember: "state_inv st \<Longrightarrow> state_inv (st\<lparr>rs_seen := seen_insert (rs_seen st) u\<rparr>)"
  by (auto simp: state_inv_def record_is_terminal_def leases_ok_def may_contain_mono)

lemma state_inv_publish_terminal:
  assumes "state_inv st" "\<not> record_is_terminal st (snap_id nxt)" "is_terminal (snap_state nxt)"
    "snapshot_validate nxt = Inr ()" "may_contain (rs_seen st) (snap_id nxt)"
  shows "state_inv (publish_terminal st (snap_id nxt) nxt)"
  using assms table_wf_update [of "rs_records st" nxt] table_values_update [of "rs_records st" nxt]
  by (auto simp: state_inv_def record_is_terminal_def leases_ok_def publish_terminal_def
        split: option.splits if_splits)


lemma publishesI:
  assumes "state_inv st'" "length (rs_records st') \<le> cap"
    "rs_recovery_required st' = rs_recovery_required st"
    "\<And>k. may_contain (rs_seen st) k \<Longrightarrow> may_contain (rs_seen st') k"
    "evicts st st0" "rs_records st' = AList.update (snap_id nxt) nxt (rs_records st0)"
  shows "publishes cap st nxt st'"
  unfolding publishes_def
proof (intro conjI allI impI)
  fix k s assume "k \<noteq> snap_id nxt" "map_of (rs_records st') k = Some s"
  then show "map_of (rs_records st) k = Some s" using evictsD(4) [OF assms(5)] by (simp add: assms(6))
next
  fix k s assume "k \<noteq> snap_id nxt" "map_of (rs_records st) k = Some s" "\<not> is_terminal (snap_state s)"
  then show "map_of (rs_records st') k = Some s" using evictsD(5) [OF assms(5)] by (simp add: assms(6))
qed (use assms in simp_all)

lemma publishableD:
  assumes "publishable st nxt" "map_of (rs_records st) (snap_id nxt) = Some p"
  shows "snap_identity p = snap_identity nxt" "\<not> is_terminal (snap_state p)"
    "valid_recovered_transition (snap_state p) (snap_state nxt)"
  using assms by (auto simp: publishable_def)

lemma publishes_live:
  assumes "state_inv st" "length (rs_records st) \<le> cap" "publishable st nxt"
    "map_of (rs_records st) (snap_id nxt) = Some p" "\<not> is_terminal (snap_state nxt)"
  shows "publishes cap st nxt (st\<lparr>rs_records := AList.update (snap_id nxt) nxt (rs_records st)\<rparr>)"
  using assms publishableD [OF assms(3,4)] state_inv_update_live [OF assms(1,4)]
  by (intro publishesI [OF _ _ _ _ evicts_refl])
     (auto simp: publishable_def length_alist_update)

lemma publishes_terminal:
  assumes "state_inv st" "length (rs_records st) \<le> cap" "publishable st nxt"
    "map_of (rs_records st) (snap_id nxt) = Some p" "is_terminal (snap_state nxt)"
  shows "publishes cap st nxt (publish_terminal st (snap_id nxt) nxt)"
proof -
  have "\<not> record_is_terminal st (snap_id nxt)"
    using publishableD [OF assms(3,4)] assms(4) by (simp add: record_is_terminal_def)
  moreover have "may_contain (rs_seen st) (snap_id nxt)" using assms(1,4) by (auto simp: state_inv_def)
  ultimately have "state_inv (publish_terminal st (snap_id nxt) nxt)"
    using assms by (intro state_inv_publish_terminal) (auto simp: publishable_def)
  then show ?thesis
    using assms by (intro publishesI [OF _ _ _ _ evicts_refl])
      (auto simp: publish_terminal_def length_alist_update)
qed

definition room_for :: "registry_state \<Rightarrow> nat \<Rightarrow> uuid \<Rightarrow> bool" where
  "room_for st cap k \<longleftrightarrow> length (rs_records st) \<le> cap
     \<and> (map_of (rs_records st) k = None \<longrightarrow> has_capacity_or_evictable_terminal st cap)"

lemma evict_room_for:
  assumes "state_inv st" "room_for st cap (snap_id nxt)" "publishable st nxt"
  shows "length (AList.update (snap_id nxt) nxt (rs_records (evict_terminal_until_fit st cap))) \<le> cap"
proof -
  let ?st = "evict_terminal_until_fit st cap"
  note e = evict_evicts [OF assms(1), of cap]
  show ?thesis
  proof (cases "map_of (rs_records st) (snap_id nxt)")
    case None
    then have "length (rs_records ?st) < cap"
      using assms(2) evict_makes_room [OF assms(1)] by (simp add: room_for_def)
    then show ?thesis by (simp add: length_alist_update)
  next
    case (Some p)
    then have "map_of (rs_records ?st) (snap_id nxt) = Some p"
      using evictsD(5) [OF e] publishableD(2) [OF assms(3)] by blast
    then show ?thesis
      using assms(2) evictsD(6) [OF e] by (simp add: length_alist_update room_for_def dom_def)
  qed
qed

lemma evicted_lookup:
  assumes "state_inv st" "publishable st nxt"
  shows "map_of (rs_records (evict_terminal_until_fit st cap)) (snap_id nxt)
       = map_of (rs_records st) (snap_id nxt)"
proof (cases "map_of (rs_records st) (snap_id nxt)")
  case None
  then show ?thesis
    using evictsD(4) [OF evict_evicts [OF assms(1)]] by (metis not_None_eq)
next
  case (Some p)
  then show ?thesis
    using evictsD(5) [OF evict_evicts [OF assms(1)]] publishableD(2) [OF assms(2)] by metis
qed

lemma publishes_new:
  assumes "state_inv st" "room_for st cap (snap_id nxt)" "publishable st nxt"
    "map_of (rs_records st) (snap_id nxt) = None" "\<not> is_terminal (snap_state nxt)"
  shows "publishes cap st nxt
    (let st1 = evict_terminal_until_fit st cap in
     st1\<lparr>rs_seen := seen_insert (rs_seen st1) (snap_id nxt),
         rs_records := AList.update (snap_id nxt) nxt (rs_records st1)\<rparr>)"
proof -
  note e = evict_evicts [OF assms(1), of cap]
  show ?thesis
    using evict_room_for [OF assms(1-3)] evictsD(1-3) [OF e] evicted_lookup [OF assms(1,3), of cap] assms(3-5)
      state_inv_insert_new [OF evictsD(1) [OF e], of nxt]
    by (intro publishesI [OF _ _ _ _ e])
       (auto simp: Let_def may_contain_mono publishable_def)
qed

lemma publishes_cancelled:
  assumes "state_inv st" "room_for st cap (snap_id nxt)" "publishable st nxt" "is_terminal (snap_state nxt)"
  shows "publishes cap st nxt (publish_cancelled st cap (snap_id nxt) nxt)"
proof -
  let ?st = "evict_terminal_until_fit st cap"
  note e = evict_evicts [OF assms(1), of cap]
  have "\<not> record_is_terminal ?st (snap_id nxt)"
    using evicted_lookup [OF assms(1,3), of cap] publishableD(2) [OF assms(3)]
    by (auto simp: record_is_terminal_def split: option.splits)
  then have "state_inv (publish_terminal (?st\<lparr>rs_seen := seen_insert (rs_seen ?st) (snap_id nxt)\<rparr>)
      (snap_id nxt) nxt)"
    using state_inv_remember [OF evictsD(1) [OF e]] assms(3,4)
    by (intro state_inv_publish_terminal) (auto simp: publishable_def record_is_terminal_def)
  then show ?thesis
    using evict_room_for [OF assms(1-3)] evictsD(2,3) [OF e]
    by (intro publishesI [OF _ _ _ _ e])
       (auto simp: publish_cancelled_def publish_terminal_def Let_def may_contain_mono)
qed


section \<open>The step relation\<close>

definition issues_lease :: "registry_state \<Rightarrow> uuid \<Rightarrow> authority_lease \<Rightarrow> bool" where
  "issues_lease st k l \<longleftrightarrow> (\<exists>s. map_of (rs_records st) k = Some s \<and> snap_state s = Accepted
     \<and> al_operation_id l = k \<and> al_argument_digest l = oi_argument_digest (snap_identity s)
     \<and> al_operation_generation l = oi_generation (snap_identity s))"

inductive registry_move :: "'j journal_append \<Rightarrow> 'j operation_registry \<Rightarrow> 'j operation_registry \<Rightarrow> bool"
  for jappend where
  move_fence: "rs_recovery_required (og_inner R) = None \<Longrightarrow>
    registry_move jappend R (R\<lparr>og_inner := (og_inner R)\<lparr>rs_recovery_required := Some e\<rparr>\<rparr>)"
| move_lease: "issues_lease (og_inner R) k l \<Longrightarrow>
    registry_move jappend R (R\<lparr>og_inner := (og_inner R)\<lparr>rs_leases := AList.update k l (rs_leases (og_inner R))\<rparr>\<rparr>)"
| move_epoch: "append_transition jappend R (EpochAdvanced a b) = (R', r) \<Longrightarrow> registry_move jappend R R'"
| move_unstored: "publishable (og_inner R) nxt \<Longrightarrow> append_snapshot jappend R nxt = (R', Inl e) \<Longrightarrow>
    publishes (og_capacity R) (og_inner R) nxt st' \<Longrightarrow> registry_move jappend R R'"
| move_publish: "publishable (og_inner R) nxt \<Longrightarrow> append_snapshot jappend R nxt = (R1, Inr ()) \<Longrightarrow>
    publishes (og_capacity R) (og_inner R) nxt st' \<Longrightarrow> registry_move jappend R (R1\<lparr>og_inner := st'\<rparr>)"

lemma append_transition_shape:
  assumes "append_transition jappend R t = (R', r)"
  obtains (stored) j where "R' = R\<lparr>og_journal := j\<rparr>" "r = Inr ()"
  | (fenced) j e where "R' = R\<lparr>og_journal := j, og_inner := (og_inner R)\<lparr>rs_recovery_required := Some e\<rparr>\<rparr>"
      "r = Inl (RecoveryRequired e)"
proof (cases "og_journal R")
  case None
  then have "R = R\<lparr>og_journal := None\<rparr>" by (cases R) simp
  then show ?thesis using stored [of None] assms None by (auto simp: append_transition_def)
next
  case (Some j)
  then show ?thesis using assms stored fenced
    by (auto simp: append_transition_def Let_def split: prod.splits sum.splits)
qed

lemma append_snapshot_stored:
  assumes "append_snapshot jappend R s = (R', Inr u)"
  shows "og_inner R' = og_inner R" "og_capacity R' = og_capacity R"
  using assms unfolding append_snapshot_def by (auto elim: append_transition_shape)

lemma move_append:
  assumes "publishable (og_inner R) nxt" "publishes (og_capacity R) (og_inner R) nxt st'"
    "\<And>R1. append_snapshot jappend R nxt = (R1, Inr ()) \<Longrightarrow> og_inner R1 = og_inner R \<Longrightarrow>
       og_capacity R1 = og_capacity R \<Longrightarrow> \<exists>r'. f R1 () = (R1\<lparr>og_inner := st'\<rparr>, r')"
    "and_then (append_snapshot jappend R nxt) f = (R', r)"
  shows "registry_move jappend R R'"
proof (cases "append_snapshot jappend R nxt")
  case (Pair R1 q)
  show ?thesis
  proof (cases q)
    case (Inl e)
    then show ?thesis using assms(1,2,4) Pair by (auto intro: move_unstored)
  next
    case (Inr u)
    then have a: "append_snapshot jappend R nxt = (R1, Inr ())" using Pair by simp
    obtain r' where "f R1 () = (R1\<lparr>og_inner := st'\<rparr>, r')"
      using assms(3) [OF a append_snapshot_stored [OF a]] by blast
    then show ?thesis using assms(1,2,4) a by (auto intro: move_publish)
  qed
qed

text \<open>One operation is no step, one step, or one step after a stored epoch advance.\<close>

definition op_move :: "'j journal_append \<Rightarrow> 'j operation_registry \<Rightarrow> 'j operation_registry \<Rightarrow> bool" where
  "op_move jappend R R' \<longleftrightarrow> R' = R \<or> registry_move jappend R R'
     \<or> (\<exists>a b R1. append_transition jappend R (EpochAdvanced a b) = (R1, Inr ()) \<and> registry_move jappend R1 R')"

lemma op_move_refl [simp]: "op_move jappend R R"
  by (simp add: op_move_def)

lemma op_moveI [intro]: "registry_move jappend R R' \<Longrightarrow> op_move jappend R R'"
  by (simp add: op_move_def)

lemma registry_wf_lookup:
  assumes "registry_wf R" "map_of (rs_records (og_inner R)) k = Some s"
  shows "snap_id s = k" "snapshot_validate s = Inr ()" "identity_validate (snap_identity s) = Inr ()"
    "may_contain (rs_seen (og_inner R)) k"
proof -
  have "s \<in> table_values (rs_records (og_inner R)) \<and> snap_id s = k"
    using assms table_lookup [of "rs_records (og_inner R)" k s] by (simp add: registry_wf_def state_inv_def)
  then show "snap_id s = k" "snapshot_validate s = Inr ()" "identity_validate (snap_identity s) = Inr ()"
    using assms by (auto simp: registry_wf_def state_inv_def snapshot_validate_def)
  show "may_contain (rs_seen (og_inner R)) k" using assms by (auto simp: registry_wf_def state_inv_def)
qed

lemma next_publishable:
  assumes "registry_wf R" "map_of (rs_records (og_inner R)) k = Some s" "\<not> is_terminal (snap_state s)"
    "valid_recovered_transition (snap_state s) q" "state_validate q = Inr ()"
  shows "publishable (og_inner R) \<lparr>snap_identity = snap_identity s, snap_state = q\<rparr>"
  using assms registry_wf_lookup [OF assms(1,2)] by (simp add: publishable_def snapshot_validate_def)


section \<open>Every operation refines the step relation\<close>

lemma transition_moves:
  assumes "registry_wf R"
    and mv: "\<And>s q. map_of (rs_records (og_inner R)) k = Some s \<Longrightarrow> move (snap_state s) = Inr q \<Longrightarrow>
      \<not> is_terminal (snap_state s) \<and> \<not> is_terminal q \<and> valid_recovered_transition (snap_state s) q
      \<and> state_validate q = Inr ()"
    and run: "transition jappend R k move = (R', r)"
  shows "op_move jappend R R'"
proof (cases "R' = R")
  case False
  then obtain s q where s: "map_of (rs_records (og_inner R)) k = Some s" "move (snap_state s) = Inr q"
    using run by (auto simp: transition_def ensure_healthy_def split: option.splits sum.splits)
  let ?n = "\<lparr>snap_identity = snap_identity s, snap_state = q\<rparr>"
  have "and_then (append_snapshot jappend R ?n) (\<lambda>R1 _. (R1\<lparr>og_inner := (og_inner R1)\<lparr>rs_records :=
          AList.update k ?n (rs_records (og_inner R1))\<rparr>\<rparr>, Inr ())) = (R', r)"
    using run s False by (auto simp: transition_def ensure_healthy_def Let_def split: option.splits)
  moreover have p: "publishable (og_inner R) ?n"
    using next_publishable [OF assms(1) s(1)] mv [OF s] by blast
  moreover have st: "publishes (og_capacity R) (og_inner R) ?n
      ((og_inner R)\<lparr>rs_records := AList.update k ?n (rs_records (og_inner R))\<rparr>)"
    using publishes_live [OF _ _ p, of _ s] assms(1) mv [OF s] s registry_wf_lookup(1) [OF assms(1) s(1)]
    by (simp add: registry_wf_def)
  ultimately have "registry_move jappend R R'" by (intro move_append [OF p st]) auto
  then show ?thesis by blast
qed simp

lemma publish_terminal_moves:
  assumes "registry_wf R" "map_of (rs_records (og_inner R)) k = Some s" "\<not> is_terminal (snap_state s)"
    and "valid_recovered_transition (snap_state s) (Terminal e t)" "state_validate (Terminal e t) = Inr ()"
    and "n = \<lparr>snap_identity = snap_identity s, snap_state = Terminal e t\<rparr>"
    and "and_then (append_snapshot jappend R n) (\<lambda>R1 _.
           (R1\<lparr>og_inner := publish_terminal (og_inner R1) k n\<rparr>, Inr ())) = (R', r)"
  shows "registry_move jappend R R'"
proof -
  have p: "publishable (og_inner R) n" using next_publishable [OF assms(1-3)] assms(4-6) by blast
  have "publishes (og_capacity R) (og_inner R) n (publish_terminal (og_inner R) k n)"
    using publishes_terminal [OF _ _ p, of _ s] assms(1,2,6) registry_wf_lookup(1) [OF assms(1,2)]
    by (simp add: registry_wf_def)
  from move_append [OF p this _ assms(7)] show ?thesis by auto
qed

lemma finish_terminal_moves:
  assumes "registry_wf R"
    and "\<And>s. map_of (rs_records (og_inner R)) k = Some s \<Longrightarrow> allowed (snap_state s) \<Longrightarrow>
      \<not> is_terminal (snap_state s) \<and> valid_recovered_transition (snap_state s) (Terminal e t)
      \<and> state_validate (Terminal e t) = Inr ()"
    and "finish_terminal jappend R k e t allowed = (R', r)"
  shows "op_move jappend R R'"
proof (cases "R' = R")
  case False
  then obtain s where s: "map_of (rs_records (og_inner R)) k = Some s" "allowed (snap_state s)"
    using assms(3) by (auto simp: finish_terminal_def ensure_healthy_def split: option.splits if_splits)
  note f = assms(2) [OF s]
  show ?thesis
    using assms(3) s False f
    by (intro op_moveI publish_terminal_moves [OF assms(1) s(1) _ _ _ refl, of e t])
       (auto simp: finish_terminal_def ensure_healthy_def Let_def split: option.splits)
qed simp

lemma accept_moves:
  assumes "registry_wf R" "accept jappend R i = (R', r)"
  shows "op_move jappend R R'"
proof (cases "R' = R")
  case False
  let ?n = "\<lparr>snap_identity = i, snap_state = Accepted\<rparr>"
  have c: "identity_validate i = Inr ()" "map_of (rs_records (og_inner R)) (oi_operation_id i) = None"
    "\<not> may_contain (rs_seen (og_inner R)) (oi_operation_id i)"
    "has_capacity_or_evictable_terminal (og_inner R) (og_capacity R)"
    using assms(2) False
    by (auto simp: accept_def ensure_healthy_def Let_def split: option.splits sum.splits if_splits)
  have p: "publishable (og_inner R) ?n" using c by (simp add: publishable_def snapshot_validate_def)
  have "room_for (og_inner R) (og_capacity R) (oi_operation_id i)"
    using assms(1) c by (simp add: room_for_def registry_wf_def)
  from publishes_new [OF _ _ p, of "og_capacity R"] this c assms(1)
  have "publishes (og_capacity R) (og_inner R) ?n
    (let st1 = evict_terminal_until_fit (og_inner R) (og_capacity R) in
     st1\<lparr>rs_seen := seen_insert (rs_seen st1) (oi_operation_id i),
         rs_records := AList.update (oi_operation_id i) ?n (rs_records st1)\<rparr>)"
    by (simp add: registry_wf_def)
  then show ?thesis
    using assms(2) False c p
    by (intro op_moveI move_append [OF p])
       (auto simp: accept_def ensure_healthy_def Let_def split: option.splits sum.splits if_splits)
qed simp

end
