(* ===== verification/Registry_Refines.thy ===== *)
theory Registry_Refines
  imports Registry_Moves
begin

text \<open>
  Every operation of \<open>Operation_Registry\<close> refines the step relation \<open>registry_move\<close>: admission and the
  forward transitions are in \<open>Registry_Moves\<close>, terminals, receipts and cancellation here.
\<close>

section \<open>Terminals and cancellation refine the step relation\<close>

lemma cancelled_moves:
  assumes "registry_wf R" "publishable (og_inner R) n" "is_terminal (snap_state n)" "snap_id n = k"
    and "map_of (rs_records (og_inner R)) k = None \<Longrightarrow>
           has_capacity_or_evictable_terminal (og_inner R) (og_capacity R)"
    and "and_then (append_snapshot jappend R n) (\<lambda>R1 _.
           (R1\<lparr>og_inner := publish_cancelled (og_inner R1) (og_capacity R1) k n\<rparr>, g R1)) = (R', r)"
  shows "registry_move jappend R R'"
proof -
  have "publishes (og_capacity R) (og_inner R) n (publish_cancelled (og_inner R) (og_capacity R) k n)"
    using publishes_cancelled [OF _ _ assms(2,3)] assms(1,4,5) by (auto simp: room_for_def registry_wf_def)
  from move_append [OF assms(2) this _ assms(6)] show ?thesis by auto
qed

lemma cancelled_snapshot_simps [simp]:
  "is_terminal (snap_state (cancelled_snapshot i e))" "snap_identity (cancelled_snapshot i e) = i"
  "snap_state (cancelled_snapshot i e) = Terminal e CancelledBeforeCommit"
  by (simp_all add: cancelled_snapshot_def)

lemma cancelled_existing_publishable:
  assumes "registry_wf R" "map_of (rs_records (og_inner R)) k = Some s"
    "snap_state s = Accepted \<and> e = None \<or> snap_state s = Executing e \<or> snap_state s = Prepared x \<and> e = Some x"
  shows "publishable (og_inner R) (cancelled_snapshot (snap_identity s) e)"
proof -
  have "state_validate (Terminal e CancelledBeforeCommit) = Inr ()"
    using registry_wf_lookup(2) [OF assms(1,2)] assms(3)
    by (cases e) (auto simp: snapshot_validate_def is_some_nil_def split: if_splits)
  then show ?thesis
    unfolding cancelled_snapshot_def
    using next_publishable [OF assms(1,2)] assms(3) valid_transition_moves by auto
qed

lemma cancelled_new_publishable:
  assumes "identity_validate i = Inr ()" "map_of (rs_records st) (oi_operation_id i) = None"
    "\<not> may_contain (rs_seen st) (oi_operation_id i)"
  shows "publishable st (cancelled_snapshot i None)"
  using assms by (simp add: publishable_def snapshot_validate_def is_some_nil_def cancelled_snapshot_def)

definition cancels :: "'j operation_registry \<Rightarrow> tool_operation_identity \<Rightarrow> operation_snapshot \<Rightarrow> bool" where
  "cancels R i n \<longleftrightarrow>
     (\<exists>s e x. map_of (rs_records (og_inner R)) (oi_operation_id i) = Some s \<and> snap_identity s = i
        \<and> n = cancelled_snapshot i e
        \<and> (snap_state s = Accepted \<and> e = None \<or> snap_state s = Executing e
            \<or> snap_state s = Prepared x \<and> e = Some x))
   \<or> (map_of (rs_records (og_inner R)) (oi_operation_id i) = None
        \<and> \<not> may_contain (rs_seen (og_inner R)) (oi_operation_id i)
        \<and> has_capacity_or_evictable_terminal (og_inner R) (og_capacity R)
        \<and> n = cancelled_snapshot i None)"

lemma choose_cancel_cancels: "choose_cancel R i = CancelWith n \<Longrightarrow> cancels R i n"
  unfolding choose_cancel_def cancels_def Let_def
  by (auto split: option.splits if_splits operation_state.splits operation_terminal.splits)

lemma choose_epoch_cancel_cancels: "choose_epoch_cancel R i = EpochCancelWith n \<Longrightarrow> cancels R i n"
  unfolding choose_epoch_cancel_def cancels_def Let_def
  by (auto split: option.splits if_splits operation_state.splits)

lemma cancels_publishable:
  assumes "registry_wf R" "identity_validate i = Inr ()" "cancels R i n"
  shows "publishable (og_inner R) n" "is_terminal (snap_state n)" "snap_id n = oi_operation_id i"
    "map_of (rs_records (og_inner R)) (oi_operation_id i) = None \<Longrightarrow>
       has_capacity_or_evictable_terminal (og_inner R) (og_capacity R)"
proof -
  show "publishable (og_inner R) n"
    using assms(3) cancelled_existing_publishable [OF assms(1)] cancelled_new_publishable [OF assms(2)]
    unfolding cancels_def by blast
qed (use assms(3) in \<open>auto simp: cancels_def\<close>)

lemma cancel_moves:
  assumes "registry_wf R" "cancel jappend R i = (R', r)"
  shows "op_move jappend R R'"
proof (cases "R' = R")
  case False
  then obtain n where c: "identity_validate i = Inr ()" "choose_cancel R i = CancelWith n"
    "and_then (append_snapshot jappend R n) (\<lambda>R1 _. (R1\<lparr>og_inner := publish_cancelled (og_inner R1)
        (og_capacity R1) (oi_operation_id i) n\<rparr>, Inr ())) = (R', r)"
    using assms(2)
    by (auto simp: cancel_def ensure_healthy_def split: option.splits sum.splits cancel_choice.splits)
  show ?thesis
    using cancels_publishable [OF assms(1) c(1) choose_cancel_cancels [OF c(2)]] c(3)
    by (intro op_moveI cancelled_moves [OF assms(1)])
qed simp

lemma append_epoch_keeps:
  assumes "append_transition jappend R (EpochAdvanced a b) = (R', Inr u)"
  shows "og_inner R' = og_inner R" "og_capacity R' = og_capacity R"
  using assms by (auto elim: append_transition_shape)

lemma cancel_and_persist_epoch_moves:
  assumes "registry_wf R" "cancel_and_persist_epoch jappend R i a b = (R', r)"
  shows "op_move jappend R R'"
proof (cases "R' = R")
  case False
  then obtain n where c: "identity_validate i = Inr ()" "choose_epoch_cancel R i = EpochCancelWith n"
    "and_then (append_transition jappend R (EpochAdvanced a b)) (\<lambda>R1 _.
       and_then (append_snapshot jappend R1 n) (\<lambda>R2 _. (R2\<lparr>og_inner := publish_cancelled (og_inner R2)
        (og_capacity R2) (oi_operation_id i) n\<rparr>, Inr (CancelledNow (Found n))))) = (R', r)"
    using assms(2)
    by (auto simp: cancel_and_persist_epoch_def ensure_healthy_def
          split: option.splits sum.splits epoch_cancel_choice.splits if_splits)
  note p = cancels_publishable [OF assms(1) c(1) choose_epoch_cancel_cancels [OF c(2)]]
  obtain R1 q where e: "append_transition jappend R (EpochAdvanced a b) = (R1, q)" by fastforce
  then have m: "registry_move jappend R R1" by (rule move_epoch)
  show ?thesis
  proof (cases q)
    case (Inl err)
    then show ?thesis using c(3) e m by auto
  next
    case (Inr u)
    then have k: "og_inner R1 = og_inner R" "og_capacity R1 = og_capacity R" using append_epoch_keeps e by auto
    then have "registry_wf R1" using assms(1) by (simp add: registry_wf_def)
    then have "registry_move jappend R1 R'"
      using p k c(3) e Inr by (intro cancelled_moves) auto
    then show ?thesis using e Inr by (auto simp: op_move_def)
  qed
qed simp

lemma abort_prepared_moves:
  assumes "registry_wf R" "abort_prepared jappend R k e d = (R', r)"
  shows "op_move jappend R R'"
proof (cases "R' = R")
  case False
  then obtain i where "cancel jappend R i = (R', r)"
    using assms(2) by (auto simp: abort_prepared_def split: operation_query_result.splits if_splits
      operation_state.splits option.splits operation_terminal.splits)
  then show ?thesis by (rule cancel_moves [OF assms(1)])
qed simp

lemma mark_executing_moves:
  assumes "registry_wf R" "mark_executing jappend R k e = (R', r)"
  shows "op_move jappend R R'"
proof (cases "is_some_nil e")
  case False
  have "state_validate (Executing e) = Inr ()" using False by (cases e) (auto simp: is_some_nil_def)
  then have "\<not> is_terminal p \<and> \<not> is_terminal q \<and> valid_recovered_transition p q \<and> state_validate q = Inr ()"
    if "move_executing e p = Inr q" for p q
    using that valid_transition_moves by (cases p) auto
  then show ?thesis
    using assms False by (intro transition_moves [OF assms(1), of k "move_executing e"])
      (auto simp: mark_executing_def)
qed (use assms in \<open>auto simp: mark_executing_def\<close>)

lemma mark_prepared_moves:
  assumes "registry_wf R" "mark_prepared jappend R k e = (R', r)"
  shows "op_move jappend R R'"
proof -
  have "p = Executing (Some e) \<and> q = Prepared e" if "move_prepared e p = Inr q" for p q
    using that by (cases "(e, p)" rule: move_prepared.cases) (auto split: if_splits)
  then show ?thesis
    using assms registry_wf_lookup(2) [OF assms(1)] valid_transition_moves(3)
    by (intro transition_moves [OF assms(1), of k "move_prepared e"])
       (fastforce simp: mark_prepared_def snapshot_validate_def)+
qed

lemma begin_commit_moves:
  assumes "registry_wf R" "begin_commit jappend R k e = (R', r)"
  shows "op_move jappend R R'"
proof -
  have "p = Prepared e \<and> q = CommitStarted e" if "move_commit e p = Inr q" for p q
    using that by (cases "(e, p)" rule: move_commit.cases) (auto split: if_splits)
  then show ?thesis
    using assms registry_wf_lookup(2) [OF assms(1)] valid_transition_moves(6)
    by (intro transition_moves [OF assms(1), of k "move_commit e"])
       (fastforce simp: begin_commit_def snapshot_validate_def)+
qed


lemma finish_value_moves:
  assumes "registry_wf R" "finish_value jappend R k d g = (R', r)"
  shows "op_move jappend R R'"
proof (cases "require_identity R k d (Some g)")
  case (Inr u)
  have "\<not> is_terminal p \<and> valid_recovered_transition p (Terminal None CompletedValue)" if "is_executing p" for p
    using that valid_transition_moves(4) by (cases p) auto
  then show ?thesis
    using assms Inr
    by (intro finish_terminal_moves [OF assms(1), of k is_executing None CompletedValue])
       (auto simp: finish_value_def is_some_nil_def)
qed (use assms in \<open>auto simp: finish_value_def\<close>)

lemma bounded_diagnostic_valid [simp]:
  "validate_bounded_text name (bounded_text v MAX_OPERATION_DIAGNOSTIC_BYTES) MAX_OPERATION_DIAGNOSTIC_BYTES = Inr ()"
  "validate_bounded_text name (bounded_text v MAX_OPERATION_EVIDENCE_BYTES) MAX_OPERATION_EVIDENCE_BYTES = Inr ()"
  by (simp_all add: bounded_text_validates MAX_OPERATION_DIAGNOSTIC_BYTES_def MAX_OPERATION_EVIDENCE_BYTES_def)

lemma receipt_terminal_valid: "terminal_validate (receipt_terminal receipt) = Inr ()"
  by (cases receipt) (auto simp: validate_durability_def validate_evidence_def
      split: option.splits effect_durability.splits)

lemma finish_refused_moves:
  assumes "registry_wf R" "finish_refused jappend R k e = (R', r)"
  shows "op_move jappend R R'"
  using assms valid_transition_moves(2)
  by (intro finish_terminal_moves [OF assms(1), of k "\<lambda>s. s = Accepted" None])
     (auto simp: finish_refused_def is_some_nil_def)

lemma finish_effect_moves:
  assumes "registry_wf R" "finish_effect jappend R k receipt = (R', r)"
  shows "op_move jappend R R'"
proof -
  let ?e = "case query R k of Found snapshot \<Rightarrow> (case snap_state snapshot of CommitStarted e \<Rightarrow> Some e | _ \<Rightarrow> None)
           | _ \<Rightarrow> None"
  have run: "finish_terminal jappend R k ?e (receipt_terminal receipt) is_commit_started = (R', r)"
    using assms(2) by (simp add: finish_effect_def Let_def receipt_terminal_valid)
  have "\<not> is_terminal (snap_state s) \<and> valid_recovered_transition (snap_state s) (Terminal ?e (receipt_terminal receipt))
      \<and> state_validate (Terminal ?e (receipt_terminal receipt)) = Inr ()"
    if s: "map_of (rs_records (og_inner R)) k = Some s" and c: "is_commit_started (snap_state s)" for s
  proof -
    obtain x where x: "snap_state s = CommitStarted x" using c by (cases "snap_state s") auto
    then have e: "?e = Some x" using s by (simp add: query_def)
    have "\<not> is_nil x" using registry_wf_lookup(2) [OF assms(1) s] x
      by (auto simp: snapshot_validate_def split: if_splits)
    then show ?thesis unfolding e x
      using valid_transition_moves(8) by (simp add: is_some_nil_def receipt_terminal_valid)
  qed
  then show ?thesis by (rule finish_terminal_moves [OF assms(1) _ run])
qed

lemma recover_terminal_moves:
  assumes "registry_wf R" "recover_terminal jappend R k expected e t = (R', r)"
  shows "op_move jappend R R'"
proof (cases "R' = R")
  case False
  then obtain s where c: "terminal_validate t = Inr ()" "expected_effect expected = Some e"
    "map_of (rs_records (og_inner R)) k = Some s" "snap_state s = expected"
    using assms(2)
    by (auto simp: recover_terminal_def split: sum.splits option.splits if_splits)
  have "\<not> is_terminal (snap_state s) \<and> valid_recovered_transition (snap_state s) (Terminal e t)
      \<and> state_validate (Terminal e t) = Inr ()"
    using c registry_wf_lookup(2) [OF assms(1) c(3)] valid_transition_moves
    by (cases expected; cases e) (auto simp: snapshot_validate_def is_some_nil_def split: if_splits)
  then show ?thesis
    using assms(2) c False
    by (intro op_moveI publish_terminal_moves [OF assms(1) c(3) _ _ _ refl, of e t])
       (auto simp: recover_terminal_def Let_def)
qed simp

lemma persist_epoch_advance_moves:
  assumes "persist_epoch_advance jappend R a b = (R', r)"
  shows "op_move jappend R R'"
  using assms by (auto simp: persist_epoch_advance_def split: sum.splits intro: move_epoch)

lemma require_recovery_moves: "op_move jappend R (require_recovery R reason)"
  by (auto simp: require_recovery_def Let_def intro: move_fence)

lemma record_lease_moves:
  assumes "record_lease R k l = (R', r)"
  shows "op_move jappend R R'"
  using assms
  by (auto simp: record_lease_def ensure_healthy_def issues_lease_def split: option.splits if_splits
        intro!: op_moveI move_lease)

end
