(* ===== verification/Registry_Runs.thy ===== *)
theory Registry_Runs
  imports Registry_Refines
begin

text \<open>
  Runs of the registry: any sequence of its operations, in any order, over any journal. \<open>registry_step\<close> is
  one call by the kernel, \<open>registry_run\<close> a sequence of calls (the transition gate of the source serialises
  them). The invariant, the evolution of every record and the agreement with the journal's truth are proved
  by rule inversion on the step relation.
\<close>

section \<open>Calls and runs\<close>

datatype registry_op =
    CallAccept tool_operation_identity
  | CallExecuting uuid "uuid option"
  | CallLease uuid authority_lease
  | CallPrepared uuid uuid
  | CallCommit uuid uuid
  | CallValue uuid digest nat
  | CallRefused uuid rust_str
  | CallEffect uuid effect_receipt
  | CallCancel tool_operation_identity
  | CallCancelEpoch tool_operation_identity nat nat
  | CallAbort uuid uuid digest
  | CallRecoverTerminal uuid operation_state "uuid option" operation_terminal
  | CallRequireRecovery rust_str
  | CallEpoch nat nat

fun registry_step :: "'j journal_append \<Rightarrow> 'j operation_registry \<Rightarrow> registry_op \<Rightarrow> 'j operation_registry" where
  "registry_step jappend R (CallAccept i) = fst (accept jappend R i)"
| "registry_step jappend R (CallExecuting k e) = fst (mark_executing jappend R k e)"
| "registry_step jappend R (CallLease k l) = fst (record_lease R k l)"
| "registry_step jappend R (CallPrepared k e) = fst (mark_prepared jappend R k e)"
| "registry_step jappend R (CallCommit k e) = fst (begin_commit jappend R k e)"
| "registry_step jappend R (CallValue k d g) = fst (finish_value jappend R k d g)"
| "registry_step jappend R (CallRefused k m) = fst (finish_refused jappend R k m)"
| "registry_step jappend R (CallEffect k rc) = fst (finish_effect jappend R k rc)"
| "registry_step jappend R (CallCancel i) = fst (cancel jappend R i)"
| "registry_step jappend R (CallCancelEpoch i a b) = fst (cancel_and_persist_epoch jappend R i a b)"
| "registry_step jappend R (CallAbort k e d) = fst (abort_prepared jappend R k e d)"
| "registry_step jappend R (CallRecoverTerminal k s e t) = fst (recover_terminal jappend R k s e t)"
| "registry_step jappend R (CallRequireRecovery m) = require_recovery R m"
| "registry_step jappend R (CallEpoch a b) = fst (persist_epoch_advance jappend R a b)"

definition registry_run :: "'j journal_append \<Rightarrow> 'j operation_registry \<Rightarrow> registry_op list \<Rightarrow> 'j operation_registry" where
  "registry_run jappend R calls = foldl (registry_step jappend) R calls"

lemma registry_run_Nil [simp]: "registry_run jappend R [] = R"
  by (simp add: registry_run_def)

lemma registry_run_Cons [simp]:
  "registry_run jappend R (c # cs) = registry_run jappend (registry_step jappend R c) cs"
  by (simp add: registry_run_def)

lemmas as_pair = prod.collapse [symmetric]

lemma registry_step_moves: "registry_wf R \<Longrightarrow> op_move jappend R (registry_step jappend R c)"
  by (cases c)
     (simp_all add: accept_moves [OF _ as_pair] mark_executing_moves [OF _ as_pair]
       record_lease_moves [OF as_pair] mark_prepared_moves [OF _ as_pair] begin_commit_moves [OF _ as_pair]
       finish_value_moves [OF _ as_pair] finish_refused_moves [OF _ as_pair] finish_effect_moves [OF _ as_pair]
       cancel_moves [OF _ as_pair] cancel_and_persist_epoch_moves [OF _ as_pair]
       abort_prepared_moves [OF _ as_pair] recover_terminal_moves [OF _ as_pair]
       require_recovery_moves persist_epoch_advance_moves [OF as_pair])

section \<open>The invariant\<close>

lemma state_inv_fence [simp]: "state_inv (st\<lparr>rs_recovery_required := e\<rparr>) = state_inv st"
  by (simp add: state_inv_def record_is_terminal_def leases_ok_def)

lemma state_inv_lease:
  assumes "state_inv st" "issues_lease st k l"
  shows "state_inv (st\<lparr>rs_leases := AList.update k l (rs_leases st)\<rparr>)"
proof -
  have "leases_ok (st\<lparr>rs_leases := AList.update k l (rs_leases st)\<rparr>)"
    using assms unfolding state_inv_def leases_ok_def issues_lease_def by (auto split: if_splits)
  then show ?thesis using assms(1) by (simp add: state_inv_def record_is_terminal_def)
qed

lemma append_transition_inner:
  assumes "append_transition jappend R t = (R', r)"
  shows "rs_records (og_inner R') = rs_records (og_inner R)" "rs_seen (og_inner R') = rs_seen (og_inner R)"
    "og_capacity R' = og_capacity R" "registry_wf R' = registry_wf R"
    "rs_recovery_required (og_inner R) \<noteq> None \<Longrightarrow> rs_recovery_required (og_inner R') \<noteq> None"
  using assms by (auto elim!: append_transition_shape simp: registry_wf_def)

lemmas append_snapshot_inner = append_transition_inner [where t = "OperationUpsert s" for s, folded append_snapshot_def]

lemma registry_wf_move:
  assumes "registry_move jappend R R'" "registry_wf R"
  shows "registry_wf R'"
  using assms(1)
proof (cases rule: registry_move.cases)
  case (move_epoch a b r)
  then show ?thesis using assms(2) append_transition_inner(4) by blast
next
  case (move_unstored n e)
  then show ?thesis using assms(2) append_snapshot_inner(4) by blast
next
  case (move_publish n R1 st')
  then show ?thesis
    using assms(2) append_snapshot_inner(3) [OF move_publish(3)] by (simp add: registry_wf_def publishes_def)
qed (use assms(2) state_inv_lease in \<open>simp_all add: registry_wf_def\<close>)

text \<open>A run is a sequence of steps, each from a well-formed registry.\<close>

abbreviation wf_moves :: "'j journal_append \<Rightarrow> 'j operation_registry \<Rightarrow> 'j operation_registry \<Rightarrow> bool" where
  "wf_moves jappend \<equiv> (\<lambda>R R'. registry_move jappend R R' \<and> registry_wf R)\<^sup>*\<^sup>*"

lemma wf_moves_wf: "wf_moves jappend R R' \<Longrightarrow> registry_wf R \<Longrightarrow> registry_wf R'"
  by (induction rule: rtranclp_induct) (auto intro: registry_wf_move)

lemma op_move_wf_moves:
  assumes "op_move jappend R R'" "registry_wf R"
  shows "wf_moves jappend R R'"
proof -
  consider "R' = R" | "registry_move jappend R R'" | R1 where "registry_move jappend R R1" "registry_move jappend R1 R'"
    using assms(1) unfolding op_move_def by (blast intro: move_epoch)
  then show ?thesis
  proof cases
    case (3 R1)
    then have "wf_moves jappend R R1" "wf_moves jappend R1 R'"
      using assms(2) registry_wf_move [OF 3(1)] by (simp_all add: r_into_rtranclp)
    then show ?thesis by (rule rtranclp_trans)
  qed (use assms(2) in auto)
qed

lemma registry_step_capacity:
  assumes "registry_wf R"
  shows "og_capacity (registry_step jappend R c) = og_capacity R"
proof -
  have move: "og_capacity R2 = og_capacity R1" if "registry_move jappend R1 R2" for R1 R2 :: "'a operation_registry"
    using that by (cases rule: registry_move.cases) (auto simp: append_snapshot_def dest: append_transition_inner(3))
  show ?thesis using registry_step_moves [OF assms, of jappend c] move append_transition_inner(3)
    unfolding op_move_def by metis
qed

lemma registry_run_moves: "registry_wf R \<Longrightarrow> wf_moves jappend R (registry_run jappend R calls)"
proof (induction calls arbitrary: R)
  case (Cons c cs)
  have s: "wf_moves jappend R (registry_step jappend R c)"
    by (rule op_move_wf_moves [OF registry_step_moves [OF Cons.prems] Cons.prems])
  show ?case
    using rtranclp_trans [OF s Cons.IH [OF wf_moves_wf [OF s Cons.prems]]] by simp
qed simp

lemma registry_run_wf: "registry_wf R \<Longrightarrow> registry_wf (registry_run jappend R calls)"
  by (rule wf_moves_wf [OF registry_run_moves])

section \<open>The evolution of a record\<close>

definition evolves :: "registry_state \<Rightarrow> registry_state \<Rightarrow> bool" where
  "evolves st st' \<longleftrightarrow>
     (\<forall>k. may_contain (rs_seen st) k \<longrightarrow> may_contain (rs_seen st') k
        \<and> (map_of (rs_records st) k = None \<longrightarrow> map_of (rs_records st') k = None))
   \<and> (\<forall>k s s'. map_of (rs_records st) k = Some s \<longrightarrow> map_of (rs_records st') k = Some s' \<longrightarrow>
        snap_identity s' = snap_identity s \<and> valid_recovered_transition\<^sup>*\<^sup>* (snap_state s) (snap_state s'))
   \<and> (\<forall>k s. map_of (rs_records st) k = Some s \<longrightarrow> may_contain (rs_seen st') k)
   \<and> (rs_recovery_required st \<noteq> None \<longrightarrow> rs_recovery_required st' \<noteq> None)"

lemma evolvesD:
  assumes "evolves st st'"
  shows "may_contain (rs_seen st) k \<Longrightarrow> may_contain (rs_seen st') k"
    "may_contain (rs_seen st) k \<Longrightarrow> map_of (rs_records st) k = None \<Longrightarrow> map_of (rs_records st') k = None"
    "map_of (rs_records st) k = Some s \<Longrightarrow> map_of (rs_records st') k = Some s' \<Longrightarrow>
       snap_identity s' = snap_identity s \<and> valid_recovered_transition\<^sup>*\<^sup>* (snap_state s) (snap_state s')"
    "map_of (rs_records st) k = Some s \<Longrightarrow> may_contain (rs_seen st') k"
    "rs_recovery_required st \<noteq> None \<Longrightarrow> rs_recovery_required st' \<noteq> None"
  using assms unfolding evolves_def by blast+

lemma evolves_same:
  assumes "rs_records st' = rs_records st" "rs_seen st' = rs_seen st" "state_inv st"
    "rs_recovery_required st \<noteq> None \<Longrightarrow> rs_recovery_required st' \<noteq> None"
  shows "evolves st st'"
  using assms unfolding evolves_def state_inv_def by auto

lemma evolves_trans:
  assumes ab: "evolves a b" and bc: "evolves b c"
  shows "evolves a c"
  unfolding evolves_def
proof (intro conjI allI impI)
  fix k s s'
  assume s: "map_of (rs_records a) k = Some s" "map_of (rs_records c) k = Some s'"
  then have "may_contain (rs_seen b) k" using evolvesD(4) [OF ab] by blast
  then obtain t where t: "map_of (rs_records b) k = Some t"
    using evolvesD(2) [OF bc, of k] s(2) by (cases "map_of (rs_records b) k") auto
  note tr = evolvesD(3) [OF ab s(1) t] evolvesD(3) [OF bc t s(2)]
  show "snap_identity s' = snap_identity s" using tr by simp
  show "valid_recovered_transition\<^sup>*\<^sup>* (snap_state s) (snap_state s')" using tr by (meson rtranclp_trans)
next
  assume "rs_recovery_required a \<noteq> None"
  then show "rs_recovery_required c \<noteq> None" using evolvesD(5) [OF bc] evolvesD(5) [OF ab] by metis
qed (blast intro: evolvesD(1,2,4) [OF ab] evolvesD(1,2,4) [OF bc])+

lemma publish_evolves:
  assumes "publishable st n" "publishes cap st n st'" "state_inv st"
  shows "evolves st st'"
proof -
  note p = assms(2) [unfolded publishes_def]
  have other: "map_of (rs_records st') k = Some s' \<Longrightarrow> k \<noteq> snap_id n \<Longrightarrow> map_of (rs_records st) k = Some s'" for k s'
    using p by blast
  have seen: "map_of (rs_records st) k = Some s \<Longrightarrow> may_contain (rs_seen st) k" for k s
    using assms(3) by (auto simp: state_inv_def)
  have step: "snap_identity s' = snap_identity s \<and> valid_recovered_transition\<^sup>*\<^sup>* (snap_state s) (snap_state s')"
    if s: "map_of (rs_records st) k = Some s" "map_of (rs_records st') k = Some s'" for k s s'
  proof (cases "k = snap_id n")
    case True
    then have "s' = n" "map_of (rs_records st) (snap_id n) = Some s" using s p by simp_all
    then show ?thesis using publishableD [OF assms(1)] by (metis r_into_rtranclp)
  next
    case False
    then show ?thesis using other [OF s(2)] s(1) by simp
  qed
  have new: "map_of (rs_records st') k = None"
    if k: "may_contain (rs_seen st) k" "map_of (rs_records st) k = None" for k
  proof -
    have "k \<noteq> snap_id n" using k assms(1) by (auto simp: publishable_def)
    then show ?thesis using other [of k] k(2) by (cases "map_of (rs_records st') k") auto
  qed
  show ?thesis
    unfolding evolves_def
  proof (intro conjI allI impI)
    show "rs_recovery_required st' \<noteq> None" if "rs_recovery_required st \<noteq> None" using that p by simp
  qed (use p in blast, blast intro: new, use step in blast, use step in blast, use p seen in blast)
qed

lemma move_evolves:
  assumes "registry_move jappend R R'" "registry_wf R"
  shows "evolves (og_inner R) (og_inner R')"
  using assms(1)
proof (cases rule: registry_move.cases)
  case (move_epoch a b r)
  then show ?thesis
    using assms(2) append_transition_inner [OF move_epoch] by (intro evolves_same) (auto simp: registry_wf_def)
next
  case (move_unstored n e)
  then show ?thesis
    using assms(2) append_snapshot_inner [OF move_unstored(2)] by (intro evolves_same) (auto simp: registry_wf_def)
next
  case (move_publish n R1 st')
  then show ?thesis using assms(2) publish_evolves by (auto simp: registry_wf_def)
qed (use assms(2) in \<open>auto simp: registry_wf_def intro!: evolves_same\<close>)

lemma run_evolves:
  assumes "registry_wf R"
  shows "evolves (og_inner R) (og_inner (registry_run jappend R calls))"
  using registry_run_moves [OF assms]
proof (induction rule: rtranclp_induct)
  case base
  show ?case using assms by (intro evolves_same) (simp_all add: registry_wf_def)
next
  case (step R1 R2)
  then show ?case using evolves_trans move_evolves by blast
qed

section \<open>Unresolved records stay\<close>

lemma move_keeps_unresolved:
  assumes "registry_move jappend R R'" "registry_wf R"
    "map_of (rs_records (og_inner R)) k = Some s" "\<not> is_terminal (snap_state s)"
  shows "\<exists>s'. map_of (rs_records (og_inner R')) k = Some s' \<and> snap_identity s' = snap_identity s
     \<and> valid_recovered_transition (snap_state s) (snap_state s')"
  using assms(1)
proof (cases rule: registry_move.cases)
  case (move_publish n R1 st')
  show ?thesis
  proof (cases "k = snap_id n")
    case True
    then have "map_of (rs_records (og_inner R)) (snap_id n) = Some s" using assms(3) by simp
    note t = publishableD [OF move_publish(2) this]
    have "map_of (rs_records (og_inner R')) k = Some n" using move_publish(1,4) True by (simp add: publishes_def)
    then show ?thesis using t by simp
  next
    case False
    then have "map_of (rs_records st') k = Some s" using move_publish(4) assms(3,4) unfolding publishes_def by blast
    then show ?thesis using move_publish(1) by (simp add: valid_recovered_transition_def)
  qed
next
  case (move_epoch a b r)
  then show ?thesis using assms(3) append_transition_inner(1) [OF move_epoch] by (simp add: valid_recovered_transition_def)
next
  case (move_unstored n e)
  then show ?thesis
    using assms(3) append_snapshot_inner(1) [OF move_unstored(2)] by (simp add: valid_recovered_transition_def)
qed (use assms(3) in \<open>simp_all add: valid_recovered_transition_def\<close>)

lemma step_keeps_unresolved:
  assumes "registry_wf R" "map_of (rs_records (og_inner R)) k = Some s" "\<not> is_terminal (snap_state s)"
  shows "\<exists>s'. map_of (rs_records (og_inner (registry_step jappend R c))) k = Some s'
     \<and> snap_identity s' = snap_identity s \<and> valid_recovered_transition (snap_state s) (snap_state s')"
proof -
  consider "registry_step jappend R c = R" | "registry_move jappend R (registry_step jappend R c)"
    | a b R1 where "append_transition jappend R (EpochAdvanced a b) = (R1, Inr ())"
        "registry_move jappend R1 (registry_step jappend R c)"
    using registry_step_moves [OF assms(1), of jappend c] unfolding op_move_def by blast
  then show ?thesis
  proof cases
    case 1
    then show ?thesis using assms(2) by (simp add: valid_recovered_transition_def)
  next
    case 2
    then show ?thesis by (rule move_keeps_unresolved [OF _ assms])
  next
    case (3 a b R1)
    note i = append_transition_inner [OF 3(1)]
    show ?thesis by (rule move_keeps_unresolved [OF 3(2)]) (use i assms in auto)
  qed
qed

end
