(* ===== verification/Registry_Truth.thy ===== *)
theory Registry_Truth
  imports Registry_Runs
begin

text \<open>
  The registry over a journal that keeps its contract (locale \<open>operation_journal\<close>): \<open>synced\<close> says that the
  in-memory table and the durable truth agree, and every call keeps it. A restart builds a registry from the
  truth; it has the same unresolved operations, and refuses every operation id that was ever admitted.
\<close>

section \<open>Recovery\<close>

lemma recover_insert_inv:
  assumes "recover_insert st ops = Inr st'" "state_inv st" "rs_leases st = []"
    "distinct (map snap_id ops)" "\<forall>s \<in> set ops. map_of (rs_records st) (snap_id s) = None"
  shows "state_inv st' \<and> rs_leases st' = []
    \<and> table_values (rs_records st') = table_values (rs_records st) \<union> set ops
    \<and> rs_recovery_required st' = rs_recovery_required st"
  using assms
proof (induction st ops rule: recover_insert.induct)
  case (2 st s ss)
  let ?st = "st\<lparr>rs_seen := seen_insert (rs_seen st) (snap_id s),
     rs_terminal_order := (if is_terminal (snap_state s) then rs_terminal_order st @ [snap_id s] else rs_terminal_order st),
     rs_records := AList.update (snap_id s) s (rs_records st)\<rparr>"
  have v: "snapshot_validate s = Inr ()" and run: "recover_insert ?st ss = Inr st'"
    using "2.prems"(1) by (auto split: sum.splits)
  have wf: "table_wf (rs_records st)" and new: "map_of (rs_records st) (snap_id s) = None"
    using "2.prems" by (simp_all add: state_inv_def)
  have vals: "table_values (AList.update (snap_id s) s (rs_records st)) = insert s (table_values (rs_records st))"
    using table_values_update [OF wf, of s] table_lookup [OF wf, of "snap_id s"] new by auto
  have "state_inv ?st"
    using "2.prems"(2,3) v new vals table_wf_update [OF wf, of s]
    by (auto simp: state_inv_def record_is_terminal_def leases_ok_def may_contain_mono split: option.splits if_splits)
  moreover have "\<forall>s' \<in> set ss. map_of (rs_records ?st) (snap_id s') = None"
    using "2.prems"(4,5) by (auto simp: image_iff)
  ultimately show ?case
    using "2.IH" [OF v refl run] "2.prems"(3,4) vals by simp
qed simp

lemma recover_insert_total:
  "\<forall>s \<in> set ops. snapshot_validate s = Inr () \<Longrightarrow> \<exists>st'. recover_insert st ops = Inr st'"
  by (induction st ops rule: recover_insert.induct) auto

lemma state_inv_default: "state_inv registry_state_default"
  by (simp add: state_inv_def registry_state_default_def record_is_terminal_def leases_ok_def table_values_def)

definition unresolved :: "registry_state \<Rightarrow> operation_snapshot set" where
  "unresolved st = {s \<in> table_values (rs_records st). \<not> is_terminal (snap_state s)}"

lemma unresolved_lookup:
  assumes "state_inv st"
  shows "s \<in> unresolved st \<longleftrightarrow> map_of (rs_records st) (snap_id s) = Some s \<and> \<not> is_terminal (snap_state s)"
  using assms table_lookup [of "rs_records st" "snap_id s" s] by (auto simp: unresolved_def state_inv_def)

lemma all_unresolved_length:
  assumes "state_inv st" "rs_terminal_order st = []"
  shows "length (rs_records st) = card (unresolved st)"
proof -
  have d: "distinct (map fst (rs_records st))" "\<forall>(k, s) \<in> set (rs_records st). snap_id s = k"
    using assms(1) by (simp_all add: state_inv_def table_wf_def)
  have "inj_on snd (set (rs_records st))"
  proof (rule inj_onI)
    fix p q assume "p \<in> set (rs_records st)" "q \<in> set (rs_records st)" "snd p = snd q"
    moreover from this have "fst p = snap_id (snd p)" "fst q = snap_id (snd q)" using d(2) by auto
    ultimately show "p = q" by (simp add: prod_eq_iff)
  qed
  moreover have "distinct (rs_records st)" using d(1) by (simp add: distinct_map)
  ultimately have "card (table_values (rs_records st)) = length (rs_records st)"
    by (simp add: table_values_def card_image distinct_card)
  moreover have "\<not> is_terminal (snap_state s)" if "s \<in> table_values (rs_records st)" for s
  proof -
    have "\<not> record_is_terminal st (snap_id s)" using assms by (auto simp: state_inv_def)
    moreover have "map_of (rs_records st) (snap_id s) = Some s"
      using table_lookup [of "rs_records st"] assms(1) that by (simp add: state_inv_def)
    ultimately show ?thesis by (simp add: record_is_terminal_def)
  qed
  ultimately show ?thesis unfolding unresolved_def by (metis (no_types, lifting) Collect_cong Collect_mem_eq)
qed

lemma evict_unresolved:
  assumes "state_inv st"
  shows "unresolved (evict_terminal_until_fit st c) = unresolved st"
proof -
  note e = evict_evicts [OF assms, of c]
  have "s \<in> unresolved (evict_terminal_until_fit st c) \<longleftrightarrow> s \<in> unresolved st" for s
    unfolding unresolved_lookup [OF assms] unresolved_lookup [OF evictsD(1) [OF e]]
    using evictsD(4,5) [OF e] by blast
  then show ?thesis by blast
qed

lemma registry_recover_ok:
  assumes "0 < cap" "distinct (map snap_id (rv_operations rv))"
    "\<forall>s \<in> set (rv_operations rv). snapshot_validate s = Inr ()"
    "card {s \<in> set (rv_operations rv). \<not> is_terminal (snap_state s)} \<le> cap"
  obtains R where "registry_recover cap j rv = Inr R" "registry_wf R" "og_capacity R = cap" "og_journal R = j"
    "rs_recovery_required (og_inner R) = None"
    "unresolved (og_inner R) = {s \<in> set (rv_operations rv). \<not> is_terminal (snap_state s)}"
    "table_values (rs_records (og_inner R)) \<subseteq> set (rv_operations rv)"
    "\<forall>s \<in> set (rv_operations rv). may_contain (rs_seen (og_inner R)) (snap_id s)"
proof -
  let ?u = "{s \<in> set (rv_operations rv). \<not> is_terminal (snap_state s)}"
  obtain st where st: "recover_insert registry_state_default (rv_operations rv) = Inr st"
    using recover_insert_total [OF assms(3)] by blast
  have i: "state_inv st" "table_values (rs_records st) = set (rv_operations rv)"
    "rs_recovery_required st = None"
    using recover_insert_inv [OF st state_inv_default _ assms(2)]
    by (simp_all add: registry_state_default_def table_values_def)
  let ?st = "evict_terminal_until_fit st cap"
  note e = evict_evicts [OF i(1), of cap]
  have u: "unresolved ?st = ?u" using evict_unresolved [OF i(1)] i(2) by (simp add: unresolved_def)
  have len: "length (rs_records ?st) \<le> cap"
    using evict_full_or_resolved [OF i(1), of cap] all_unresolved_length [OF evictsD(1) [OF e]] u assms(4) by auto
  have "length (filter (\<lambda>s. \<not> is_terminal (snap_state s)) (rv_operations rv)) = card ?u"
    using assms(2) by (metis distinct_card distinct_filter distinct_map set_filter)
  then have "registry_recover cap j rv = Inr \<lparr>og_capacity = cap, og_journal = j, og_inner = ?st\<rparr>"
    using st assms(4) by (simp add: registry_recover_def Let_def)
  moreover have "table_values (rs_records ?st) \<subseteq> set (rv_operations rv)"
  proof
    fix s assume "s \<in> table_values (rs_records ?st)"
    then have "map_of (rs_records ?st) (snap_id s) = Some s"
      using table_lookup evictsD(1) [OF e] by (simp add: state_inv_def)
    then have "map_of (rs_records st) (snap_id s) = Some s" by (rule evictsD(4) [OF e])
    then show "s \<in> set (rv_operations rv)"
      using table_lookup [of "rs_records st"] i(1,2) by (simp add: state_inv_def)
  qed
  moreover have "may_contain (rs_seen ?st) (snap_id s)" if "s \<in> set (rv_operations rv)" for s
  proof -
    have "map_of (rs_records st) (snap_id s) = Some s"
      using table_lookup [of "rs_records st"] i(1,2) that by (simp add: state_inv_def)
    then show ?thesis using i(1) evictsD(2) [OF e] by (auto simp: state_inv_def)
  qed
  ultimately show ?thesis
    using that [of "\<lparr>og_capacity = cap, og_journal = j, og_inner = ?st\<rparr>"] evictsD(1,3) [OF e] i(3) u len assms(1)
    by (simp add: registry_wf_def)
qed


section \<open>The table and the truth\<close>

definition synced :: "('j \<Rightarrow> authority_truth) \<Rightarrow> ('j \<Rightarrow> bool) \<Rightarrow> 'j operation_registry \<Rightarrow> bool" where
  "synced truth ok R \<longleftrightarrow> registry_wf R \<and> (\<exists>j. og_journal R = Some j \<and> ok j
   \<and> table_values (rs_records (og_inner R)) \<subseteq> snd (truth j)
   \<and> {s \<in> snd (truth j). \<not> is_terminal (snap_state s)} \<subseteq> table_values (rs_records (og_inner R))
   \<and> (\<forall>s \<in> snd (truth j). may_contain (rs_seen (og_inner R)) (snap_id s)))"

lemma publishes_values:
  assumes "publishes cap st n st'" "state_inv st"
  shows "table_values (rs_records st') \<subseteq> insert n {s \<in> table_values (rs_records st). snap_id s \<noteq> snap_id n}"
    "s \<in> table_values (rs_records st) \<Longrightarrow> snap_id s \<noteq> snap_id n \<Longrightarrow> \<not> is_terminal (snap_state s) \<Longrightarrow>
     s \<in> table_values (rs_records st')"
    "n \<in> table_values (rs_records st')" "may_contain (rs_seen st') (snap_id n)"
    "may_contain (rs_seen st) k \<Longrightarrow> may_contain (rs_seen st') k"
proof -
  have inv: "state_inv st'" and upd: "map_of (rs_records st') (snap_id n) = Some n"
    and sub: "\<And>k s. k \<noteq> snap_id n \<Longrightarrow> map_of (rs_records st') k = Some s \<Longrightarrow> map_of (rs_records st) k = Some s"
    and keep: "\<And>k s. k \<noteq> snap_id n \<Longrightarrow> map_of (rs_records st) k = Some s \<Longrightarrow> \<not> is_terminal (snap_state s)
        \<Longrightarrow> map_of (rs_records st') k = Some s"
    and seen: "\<And>k. may_contain (rs_seen st) k \<Longrightarrow> may_contain (rs_seen st') k"
    using assms(1) unfolding publishes_def by blast+
  have tab: "s \<in> table_values (rs_records st) \<longleftrightarrow> map_of (rs_records st) (snap_id s) = Some s"
    "s \<in> table_values (rs_records st') \<longleftrightarrow> map_of (rs_records st') (snap_id s) = Some s" for s
    using table_lookup [of "rs_records st"] table_lookup [of "rs_records st'"] assms(2) inv
    by (auto simp: state_inv_def)
  show "table_values (rs_records st') \<subseteq> insert n {s \<in> table_values (rs_records st). snap_id s \<noteq> snap_id n}"
  proof
    fix s assume "s \<in> table_values (rs_records st')"
    then have s: "map_of (rs_records st') (snap_id s) = Some s" using tab(2) by blast
    show "s \<in> insert n {s \<in> table_values (rs_records st). snap_id s \<noteq> snap_id n}"
    proof (cases "snap_id s = snap_id n")
      case True
      then have "s = n" using s upd by (metis option.inject)
      then show ?thesis by simp
    next
      case False
      then show ?thesis using sub [OF False s] tab(1) by blast
    qed
  qed
  show "s \<in> table_values (rs_records st')"
    if "s \<in> table_values (rs_records st)" "snap_id s \<noteq> snap_id n" "\<not> is_terminal (snap_state s)"
    using that tab(1) tab(2) [of s] keep [of "snap_id s" s] by simp
  show "n \<in> table_values (rs_records st')" using upd tab(2) by blast
  show "may_contain (rs_seen st') (snap_id n)" using inv upd unfolding state_inv_def by blast
  show "may_contain (rs_seen st) k \<Longrightarrow> may_contain (rs_seen st') k" by (rule seen)
qed

context operation_journal
begin

lemma append_transition_synced:
  assumes "synced truth ok R" "append_transition jappend R t = (R', r)"
  shows "\<exists>j j'. og_journal R = Some j \<and> og_journal R' = Some j' \<and> ok j' \<and>
    (case r of Inr _ \<Rightarrow> truth j' = apply_truth (truth j) t | Inl _ \<Rightarrow> truth j' = truth j)"
proof -
  obtain j where j: "og_journal R = Some j" "ok j" using assms(1) by (auto simp: synced_def)
  obtain j' q where q: "jappend j t = (j', q)" by fastforce
  then show ?thesis
    using assms(2) j append_stored [OF j(2)] append_failed [OF j(2)]
    by (cases q) (auto simp: append_transition_def Let_def)
qed

lemma synced_same_table:
  assumes "synced truth ok R" "og_journal R = Some j" "og_journal R' = Some j'" "ok j'" "snd (truth j') = snd (truth j)"
    "rs_records (og_inner R') = rs_records (og_inner R)" "rs_seen (og_inner R') = rs_seen (og_inner R)"
    "registry_wf R'"
  shows "synced truth ok R'"
  using assms unfolding synced_def by auto

lemma publishable_admitted:
  assumes "synced truth ok R" "publishable (og_inner R) n" "og_journal R = Some j"
  shows "transition_admitted (truth j) (OperationUpsert n)"
proof -
  have s: "ok j" "state_inv (og_inner R)" "table_values (rs_records (og_inner R)) \<subseteq> snd (truth j)"
    "\<forall>s \<in> snd (truth j). may_contain (rs_seen (og_inner R)) (snap_id s)"
    using assms(1,3) by (auto simp: synced_def registry_wf_def)
  have tab: "map_of (rs_records (og_inner R)) (snap_id n) = Some p \<longleftrightarrow>
      p \<in> table_values (rs_records (og_inner R)) \<and> snap_id p = snap_id n" for p
    using table_lookup [of "rs_records (og_inner R)"] s(2) by (simp add: state_inv_def)
  have "upsert_admitted (snd (truth j)) n"
  proof (cases "map_of (rs_records (og_inner R)) (snap_id n)")
    case None
    then show ?thesis using assms(2) s(4) by (auto simp: publishable_def upsert_admitted_def)
  next
    case (Some p)
    then have p: "p \<in> snd (truth j)" "snap_id p = snap_id n" using tab s(3) by blast+
    then have "q = p" if "q \<in> snd (truth j)" "snap_id q = snap_id n" for q
      using inj_onD [OF truth_ids [OF s(1)], of q p] that by simp
    then show ?thesis
      unfolding upsert_admitted_def using p publishableD [OF assms(2) Some] by blast
  qed
  then show ?thesis by (cases "truth j") simp
qed

lemma synced_publish:
  assumes "synced truth ok R" "append_snapshot jappend R n = (R1, Inr ())"
    "publishes (og_capacity R) (og_inner R) n st'"
  shows "synced truth ok (R1\<lparr>og_inner := st'\<rparr>)"
proof -
  obtain j j' where j: "og_journal R = Some j" "og_journal R1 = Some j'" "ok j'"
    "truth j' = apply_truth (truth j) (OperationUpsert n)"
    using append_transition_synced [OF assms(1) assms(2) [unfolded append_snapshot_def]] by auto
  then have tr: "snd (truth j') = insert n {s \<in> snd (truth j). snap_id s \<noteq> snap_id n}"
    by (cases "truth j") simp
  have s: "state_inv (og_inner R)" "table_values (rs_records (og_inner R)) \<subseteq> snd (truth j)"
    "{s \<in> snd (truth j). \<not> is_terminal (snap_state s)} \<subseteq> table_values (rs_records (og_inner R))"
    "\<forall>s \<in> snd (truth j). may_contain (rs_seen (og_inner R)) (snap_id s)" "0 < og_capacity R"
    using assms(1) j(1) by (auto simp: synced_def registry_wf_def)
  note p = publishes_values [OF assms(3) s(1)]
  have "registry_wf (R1\<lparr>og_inner := st'\<rparr>)"
    using assms(3) append_snapshot_stored(2) [OF assms(2)] s(5) by (simp add: registry_wf_def publishes_def)
  moreover have "table_values (rs_records st') \<subseteq> snd (truth j')" unfolding tr using p(1) s(2) by blast
  moreover have "{s \<in> snd (truth j'). \<not> is_terminal (snap_state s)} \<subseteq> table_values (rs_records st')"
    unfolding tr using p(2,3) s(3) by blast
  moreover have "\<forall>s \<in> snd (truth j'). may_contain (rs_seen st') (snap_id s)"
    unfolding tr using p(4,5) s(4) by blast
  ultimately show ?thesis using j unfolding synced_def by simp
qed

lemma synced_move:
  assumes "registry_move jappend R R'" "synced truth ok R"
  shows "synced truth ok R'"
  using assms(1)
proof (cases rule: registry_move.cases)
  case (move_epoch a b r)
  obtain j j' where j: "og_journal R = Some j" "og_journal R' = Some j'" "ok j'"
    "case r of Inr _ \<Rightarrow> truth j' = apply_truth (truth j) (EpochAdvanced a b) | Inl _ \<Rightarrow> truth j' = truth j"
    using append_transition_synced [OF assms(2) move_epoch] by blast
  then have "snd (truth j') = snd (truth j)" by (cases r; cases "truth j") simp_all
  then show ?thesis
    using synced_same_table [OF assms(2) j(1-3)] append_transition_inner [OF move_epoch] assms(2)
    by (simp add: synced_def)
next
  case (move_unstored n e)
  obtain j j' where j: "og_journal R = Some j" "og_journal R' = Some j'" "ok j'" "truth j' = truth j"
    using append_transition_synced [OF assms(2) move_unstored(2) [unfolded append_snapshot_def]] by auto
  then show ?thesis
    using synced_same_table [OF assms(2) j(1-3)] append_snapshot_inner [OF move_unstored(2)] assms(2)
    by (simp add: synced_def)
next
  case (move_publish n R1 st')
  then show ?thesis using synced_publish [OF assms(2)] by simp
next
  case move_fence
  then show ?thesis using assms(2) by (auto simp: synced_def registry_wf_def)
next
  case move_lease
  then show ?thesis using assms(2) by (auto simp: synced_def registry_wf_def intro: state_inv_lease)
qed

lemma synced_run:
  assumes "synced truth ok R"
  shows "synced truth ok (registry_run jappend R calls)"
proof -
  have "registry_wf R" using assms by (simp add: synced_def)
  from registry_run_moves [OF this] assms show ?thesis
    by (induction rule: rtranclp_induct) (auto intro: synced_move)
qed

text \<open>What a process builds from a recovery that holds the journal's truth, and a restart of a running one.\<close>

lemma synced_recover:
  assumes "0 < cap" "ok j" "set (rv_operations rv) = snd (truth j)" "distinct (map snap_id (rv_operations rv))"
    "\<forall>s \<in> set (rv_operations rv). snapshot_validate s = Inr ()"
    "card {s \<in> snd (truth j). \<not> is_terminal (snap_state s)} \<le> cap"
  shows "\<exists>R. registry_recover cap (Some j) rv = Inr R \<and> synced truth ok R \<and> og_capacity R = cap
    \<and> og_journal R = Some j \<and> rs_recovery_required (og_inner R) = None
    \<and> unresolved (og_inner R) = {s \<in> snd (truth j). \<not> is_terminal (snap_state s)}"
proof -
  obtain R where R: "registry_recover cap (Some j) rv = Inr R" "registry_wf R"
    "og_capacity R = cap" "og_journal R = Some j" "rs_recovery_required (og_inner R) = None"
    "unresolved (og_inner R) = {s \<in> set (rv_operations rv). \<not> is_terminal (snap_state s)}"
    "table_values (rs_records (og_inner R)) \<subseteq> set (rv_operations rv)"
    "\<forall>s \<in> set (rv_operations rv). may_contain (rs_seen (og_inner R)) (snap_id s)"
    using registry_recover_ok [OF assms(1,4,5) assms(6) [folded assms(3)], of "Some j"] .
  then have "synced truth ok R" using assms(2,3) unfolding synced_def unresolved_def by auto
  then show ?thesis using R assms(3) by auto
qed

lemma synced_unresolved:
  assumes "synced truth ok R" "og_journal R = Some j"
  shows "{s \<in> snd (truth j). \<not> is_terminal (snap_state s)} = unresolved (og_inner R)"
    "card (unresolved (og_inner R)) \<le> og_capacity R" "0 < og_capacity R"
proof -
  show "{s \<in> snd (truth j). \<not> is_terminal (snap_state s)} = unresolved (og_inner R)"
    using assms unfolding unresolved_def synced_def by auto
  have wf: "registry_wf R" using assms(1) by (simp add: synced_def)
  have "card (unresolved (og_inner R)) \<le> card (table_values (rs_records (og_inner R)))"
    by (rule card_mono) (auto simp: unresolved_def table_values_def)
  also have "\<dots> \<le> length (rs_records (og_inner R))"
    unfolding table_values_def by (metis card_length length_map list.set_map)
  also have "\<dots> \<le> og_capacity R" using wf by (simp add: registry_wf_def)
  finally show "card (unresolved (og_inner R)) \<le> og_capacity R" .
  show "0 < og_capacity R" using wf by (simp add: registry_wf_def)
qed

text \<open>A snapshot that the registry offered to the journal fits its capacity, whether or not it learned that it was stored.\<close>

lemma offered_fits:
  assumes "synced truth ok R" "og_journal R = Some j" "publishes (og_capacity R) (og_inner R) n st'"
  shows "card {s \<in> insert n {s \<in> snd (truth j). snap_id s \<noteq> snap_id n}. \<not> is_terminal (snap_state s)} \<le> og_capacity R"
proof -
  have s: "state_inv (og_inner R)" "{s \<in> snd (truth j). \<not> is_terminal (snap_state s)} \<subseteq> table_values (rs_records (og_inner R))"
    using assms(1,2) by (auto simp: synced_def registry_wf_def)
  note p = publishes_values [OF assms(3) s(1)]
  have "card {s \<in> insert n {s \<in> snd (truth j). snap_id s \<noteq> snap_id n}. \<not> is_terminal (snap_state s)}
      \<le> card (table_values (rs_records st'))"
  proof (rule card_mono)
    show "{s \<in> insert n {s \<in> snd (truth j). snap_id s \<noteq> snap_id n}. \<not> is_terminal (snap_state s)} \<subseteq> table_values (rs_records st')"
      using p(2,3) s(2) by blast
  qed (simp add: table_values_def)
  also have "\<dots> \<le> length (rs_records st')"
    unfolding table_values_def by (metis card_length length_map list.set_map)
  also have "\<dots> \<le> og_capacity R" using assms(3) by (simp add: publishes_def)
  finally show ?thesis .
qed

lemma synced_restart:
  assumes "synced truth ok R" "og_journal R = Some j" "ok j'" "truth j' = truth j" "set (rv_operations rv) = snd (truth j)"
    "distinct (map snap_id (rv_operations rv))" "\<forall>s \<in> set (rv_operations rv). snapshot_validate s = Inr ()"
  shows "\<exists>R'. registry_recover (og_capacity R) (Some j') rv = Inr R' \<and> synced truth ok R'
    \<and> og_journal R' = Some j' \<and> rs_recovery_required (og_inner R') = None
    \<and> unresolved (og_inner R') = unresolved (og_inner R)"
  using synced_recover [OF synced_unresolved(3) [OF assms(1,2)] assms(3) _ assms(6,7)]
    synced_unresolved(1,2) [OF assms(1,2)] assms(4,5) by fastforce

lemma synced_seen:
  assumes "synced truth ok R" "og_journal R = Some j" "s \<in> snd (truth j)"
  shows "query R (snap_id s) \<noteq> NotFound"
  using assms by (auto simp: synced_def query_def split: option.splits)

end

end
