(* ===== verification/Registry_Properties.thy ===== *)
theory Registry_Properties
  imports Registry_Truth Journal_Properties
begin

text \<open>
  The properties of the operation registry, and of the registry over the file journal. The file journal is an
  instance of the locale \<open>operation_journal\<close>: a port carries the journal with the answers the operating system
  will give to each append (\<open>fp_envs\<close>, read at \<open>fp_clock\<close>), so that the theorems hold for every sequence of
  input-output failures.
\<close>

section \<open>The file journal as an operation journal\<close>

record file_port =
  fp_envs :: "nat \<Rightarrow> append_env"
  fp_clock :: nat
  fp_journal :: file_operation_journal

definition port_append ::
  "journal_codec \<Rightarrow> file_port \<Rightarrow> operation_journal_transition \<Rightarrow> file_port \<times> operation_journal_record agent_result" where
  "port_append C P t = (case append_and_sync C (fp_envs P (fp_clock P)) (fp_journal P) t of
     (J, res) \<Rightarrow> (P\<lparr>fp_clock := Suc (fp_clock P), fp_journal := J\<rparr>, res))"

definition port_truth :: "file_port \<Rightarrow> authority_truth" where
  "port_truth P = journal_truth (fp_journal P)"

definition port_ok :: "journal_codec \<Rightarrow> file_port \<Rightarrow> bool" where
  "port_ok C P \<longleftrightarrow> codec_ok C \<and> inj_on snap_id (snd (port_truth P))
     \<and> (ow_failed (fj_writer (fp_journal P)) = None \<longrightarrow> journal_ok C (fp_journal P))"

lemma fenced_append:
  assumes "ow_failed (fj_writer J) = Some m"
  shows "\<exists>e. append_and_sync C env J t = (J, Inl e)"
  using assms by (auto simp: append_and_sync_def split: sum.splits)

lemma journal_ok_ids: "journal_ok C J \<Longrightarrow> inj_on snap_id (snd (journal_truth J))"
  using journal_ok_wf [of C J] by (simp add: writer_wf_def Let_def indexes_ok_def distinct_map truth_of_def)

lemma append_admits_epoch:
  assumes "codec_ok C" "journal_ok C J" "ow_failed (fj_writer J) = None"
    "append_and_sync C env J (EpochAdvanced a b) = (J', Inr r)"
  shows "fst (journal_truth J) = a"
proof -
  obtain J1 io J2 where J1: "journal_ok C J1" "journal_truth J1 = journal_truth J"
    "stage_and_append C io J1 (EpochAdvanced a b) = (J2, Inr (Inr r))"
    "transition_validate (EpochAdvanced a b) = Inr ()"
    using append_stored_stage [OF assms] .
  have "validate_cached_record (ow_recovery (fj_writer J1)) (ow_indexes (fj_writer J1)) r = Inr ()"
    by (rule stage_stored [OF assms(1) J1(1,4,3)])
  moreover have "jr_transition r = EpochAdvanced a b"
    by (rule stage_and_append_cases [OF assms(1) J1(1,4,3)]) simp_all
  ultimately have "fst (journal_truth J1) = a"
    by (auto simp: validate_cached_record_def truth_of_def split: if_splits)
  then show ?thesis using J1(2) by simp
qed

lemma append_admitted:
  assumes "codec_ok C" "journal_ok C J" "ow_failed (fj_writer J) = None" "append_and_sync C env J t = (J', Inr r)"
  shows "transition_admitted (journal_truth J) t"
proof (cases t)
  case (EpochAdvanced a b)
  then show ?thesis using append_admits_epoch [OF assms(1-3)] assms(4) by (cases "journal_truth J") auto
next
  case (OperationUpsert s)
  then show ?thesis using append_admits_upsert [OF assms(1-3)] assms(4) by (cases "journal_truth J") auto
next
  case (Compacted m)
  then show ?thesis using assms(4) append_refused_early [of t J C env] by auto
qed

lemma port_append_cases:
  assumes "port_ok C P" "port_append C P t = (P', res)"
  shows "port_ok C P' \<and> (case res of
      Inr r \<Rightarrow> port_truth P' = apply_truth (port_truth P) t \<and> transition_admitted (port_truth P) t
    | Inl e \<Rightarrow> port_truth P' = port_truth P)"
proof -
  let ?J = "fp_journal P"
  obtain J' where ap: "append_and_sync C (fp_envs P (fp_clock P)) ?J t = (J', res)"
    and P': "P' = P\<lparr>fp_clock := Suc (fp_clock P), fp_journal := J'\<rparr>"
    using assms(2) by (auto simp: port_append_def split: prod.splits)
  have C: "codec_ok C" using assms(1) by (simp add: port_ok_def)
  show ?thesis
  proof (cases "ow_failed (fj_writer ?J)")
    case None
    then have J: "journal_ok C ?J" using assms(1) by (simp add: port_ok_def)
    have oc: "append_outcome C ?J t J' res" by (rule append_and_sync_ok [OF C J None ap])
    show ?thesis
    proof (cases res)
      case (Inl e)
      then show ?thesis
        using oc assms(1) P' by (simp add: append_outcome_def port_ok_def port_truth_def)
    next
      case (Inr r)
      then show ?thesis
        using oc P' C journal_ok_ids [of C J'] append_admitted [OF C J None] ap
        by (auto simp: append_outcome_def port_ok_def port_truth_def)
    qed
  next
    case (Some m)
    then show ?thesis
      using fenced_append [OF Some, of C "fp_envs P (fp_clock P)" t] ap P' assms(1)
      by (auto simp: port_ok_def port_truth_def)
  qed
qed

interpretation fp: operation_journal "port_append C" port_truth "port_ok C" for C
proof unfold_locales
  fix j t j' r assume "port_ok C j" "port_append C j t = (j', Inr r)"
  then show "port_ok C j' \<and> port_truth j' = apply_truth (port_truth j) t \<and> transition_admitted (port_truth j) t"
    using port_append_cases by fastforce
next
  fix j t j' e assume "port_ok C j" "port_append C j t = (j', Inl e)"
  then show "port_ok C j' \<and> port_truth j' = port_truth j" using port_append_cases by fastforce
qed (simp add: port_ok_def)

section \<open>What the calls establish\<close>

lemma accept_accepted:
  assumes "accept jappend R i = (R', Inr AdmissionAccepted)"
  shows "map_of (rs_records (og_inner R')) (oi_operation_id i) = Some \<lparr>snap_identity = i, snap_state = Accepted\<rparr>"
  using assms
  by (auto simp: accept_def Let_def ensure_healthy_def and_then_Inr split: sum.splits option.splits if_splits)

lemma transition_stored:
  assumes "transition jappend R k mv = (R', Inr ())"
  obtains s q where "map_of (rs_records (og_inner R)) k = Some s" "mv (snap_state s) = Inr q"
    "rs_recovery_required (og_inner R) = None"
    "map_of (rs_records (og_inner R')) k = Some \<lparr>snap_identity = snap_identity s, snap_state = q\<rparr>"
  using assms
  by (auto simp: transition_def Let_def ensure_healthy_def and_then_Inr split: sum.splits option.splits if_splits)

lemma begin_commit_committed:
  assumes "begin_commit jappend R k e = (R', Inr ())"
  obtains s s' where "map_of (rs_records (og_inner R)) k = Some s" "snap_state s = Prepared e"
    "map_of (rs_records (og_inner R')) k = Some s'" "snap_state s' = CommitStarted e"
proof -
  obtain s q where s: "map_of (rs_records (og_inner R)) k = Some s" "move_commit e (snap_state s) = Inr q"
    "map_of (rs_records (og_inner R')) k = Some \<lparr>snap_identity = snap_identity s, snap_state = q\<rparr>"
    using assms unfolding begin_commit_def by (rule transition_stored)
  then have "snap_state s = Prepared e" "q = CommitStarted e"
    by (cases "snap_state s"; auto split: if_splits)+
  then show ?thesis using that s by auto
qed

lemma cancel_cancelled:
  assumes "cancel jappend R i = (R', Inr ())"
  shows "\<exists>s. map_of (rs_records (og_inner R')) (oi_operation_id i) = Some s \<and> is_terminal (snap_state s)"
proof (cases "choose_cancel R i")
  case CancelDone
  then have "R' = R" "\<exists>s. map_of (rs_records (og_inner R)) (oi_operation_id i) = Some s \<and> is_terminal (snap_state s)"
    using assms
    by (auto simp: cancel_def choose_cancel_def Let_def ensure_healthy_def
        split: sum.splits option.splits if_splits operation_state.splits operation_terminal.splits)
  then show ?thesis by simp
next
  case (CancelWith n)
  have "cancels R i n" by (rule choose_cancel_cancels [OF CancelWith])
  then have "is_terminal (snap_state n)" by (auto simp: cancels_def)
  then show ?thesis
    using assms CancelWith
    by (auto simp: cancel_def ensure_healthy_def and_then_Inr publish_cancelled_def publish_terminal_def Let_def
        split: sum.splits option.splits)
next
  case (CancelRefused e)
  then show ?thesis using assms by (auto simp: cancel_def ensure_healthy_def split: sum.splits option.splits)
qed

lemma terminal_step: "valid_recovered_transition p q \<Longrightarrow> is_terminal p \<Longrightarrow> q = p"
  by (cases p) (auto simp: valid_recovered_transition_def)

lemma commit_step: "valid_recovered_transition (CommitStarted e) q \<Longrightarrow> q = CommitStarted e \<or> is_terminal q"
  by (cases q) (auto simp: valid_recovered_transition_def)

lemma terminal_reach: "valid_recovered_transition\<^sup>*\<^sup>* p q \<Longrightarrow> is_terminal p \<Longrightarrow> q = p"
  by (induction rule: rtranclp_induct) (auto dest: terminal_step)

lemma commit_reach:
  "valid_recovered_transition\<^sup>*\<^sup>* p q \<Longrightarrow> p = CommitStarted e \<or> is_terminal p \<Longrightarrow> q = CommitStarted e \<or> is_terminal q"
  by (induction rule: rtranclp_induct) (auto dest: terminal_step commit_step)

text \<open>Once a record is committing or terminal, no later \<open>begin_commit\<close> of that operation succeeds.\<close>

lemma no_commit_after:
  assumes "registry_wf R" "map_of (rs_records (og_inner R)) k = Some s"
    "snap_state s = CommitStarted e \<or> is_terminal (snap_state s)"
  shows "snd (begin_commit jappend (registry_run jappend R calls) k e') \<noteq> Inr ()"
proof
  let ?R = "registry_run jappend R calls"
  assume "snd (begin_commit jappend ?R k e') = Inr ()"
  then obtain R' where "begin_commit jappend ?R k e' = (R', Inr ())" by (metis prod.collapse)
  then obtain s' where s': "map_of (rs_records (og_inner ?R)) k = Some s'" "snap_state s' = Prepared e'"
    by (rule begin_commit_committed)
  have "valid_recovered_transition\<^sup>*\<^sup>* (snap_state s) (snap_state s')"
    using evolvesD(3) [OF run_evolves [OF assms(1)] assms(2) s'(1)] by blast
  from commit_reach [OF this assms(3)] s'(2) show False by simp
qed

lemma step_wf: "registry_wf R \<Longrightarrow> registry_wf (registry_step jappend R c)"
  using registry_run_wf [of R jappend "[c]"] by simp


lemma query_Found: "query R k = Found s \<longleftrightarrow> map_of (rs_records (og_inner R)) k = Some s"
  by (auto simp: query_def split: option.splits)

lemma registry_step_wf_query:
  assumes "registry_wf R" "map_of (rs_records (og_inner R)) k = Some s"
  shows "case query (registry_run jappend R calls) k of
      Found s' \<Rightarrow> snap_identity s' = snap_identity s \<and> valid_recovered_transition\<^sup>*\<^sup>* (snap_state s) (snap_state s')
    | ExpiredOrPossiblySeen \<Rightarrow> True | NotFound \<Rightarrow> False"
  using evolvesD(3,4) [OF run_evolves [OF assms(1)] assms(2)]
  by (auto simp: query_def split: option.splits)

section \<open>A sample registry\<close>

definition no_journal :: "unit journal_append" where
  "no_journal j t = (j, Inl Cancelled)"

definition sample_registry :: "unit operation_registry" where
  "sample_registry = \<lparr>og_capacity = 2, og_journal = None, og_inner = registry_state_default\<rparr>"

definition accepted_registry :: "unit operation_registry" where
  "accepted_registry = fst (accept no_journal sample_registry sample_identity)"

lemma sample_registry_wf: "registry_wf sample_registry"
  using state_inv_default by (simp add: registry_wf_def sample_registry_def registry_state_default_def)

lemma sample_identity_valid: "identity_validate sample_identity = Inr ()"
  by code_simp

lemma sample_accept: "accept no_journal sample_registry sample_identity = (accepted_registry, Inr AdmissionAccepted)"
proof -
  have "snd (accept no_journal sample_registry sample_identity) = Inr AdmissionAccepted"
    by (simp add: accept_def sample_identity_valid ensure_healthy_def sample_registry_def Let_def
        registry_state_default_def may_contain_default has_capacity_or_evictable_terminal_def
        append_snapshot_def append_transition_def)
  then show ?thesis by (simp add: accepted_registry_def prod_eq_iff)
qed

lemma accepted_registry_wf: "registry_wf accepted_registry"
  using registry_run_wf [OF sample_registry_wf, of no_journal "[CallAccept sample_identity]"]
  by (simp add: accepted_registry_def)

lemma accepted_query: "query accepted_registry 3 = Found \<lparr>snap_identity = sample_identity, snap_state = Accepted\<rparr>"
  using accept_accepted [OF sample_accept] by (simp add: query_Found sample_identity_def)

lemma in_memory_transition:
  assumes "og_journal R = None" "rs_recovery_required (og_inner R) = None"
    "map_of (rs_records (og_inner R)) k = Some s" "mv (snap_state s) = Inr q"
  shows "transition jappend R k mv = (R\<lparr>og_inner := (og_inner R)\<lparr>rs_records :=
     AList.update k \<lparr>snap_identity = snap_identity s, snap_state = q\<rparr> (rs_records (og_inner R))\<rparr>\<rparr>, Inr ())"
  using assms by (simp add: transition_def ensure_healthy_def append_snapshot_def append_transition_def Let_def)

lemma accepted_in_memory: "og_journal accepted_registry = None" "rs_recovery_required (og_inner accepted_registry) = None"
  by (simp_all add: accepted_registry_def accept_def sample_identity_valid ensure_healthy_def sample_registry_def Let_def
        registry_state_default_def may_contain_default has_capacity_or_evictable_terminal_def
        append_snapshot_def append_transition_def evict_done)

definition prepared_registry :: "unit operation_registry" where
  "prepared_registry = registry_run no_journal accepted_registry [CallExecuting 3 (Some 5), CallPrepared 3 5]"

lemma prepared_registry_facts:
  "registry_wf prepared_registry" "og_journal prepared_registry = None"
  "rs_recovery_required (og_inner prepared_registry) = None"
  "query prepared_registry 3 = Found \<lparr>snap_identity = sample_identity, snap_state = Prepared 5\<rparr>"
proof -
  let ?s = "\<lparr>snap_identity = sample_identity, snap_state = Accepted\<rparr>"
  have a: "map_of (rs_records (og_inner accepted_registry)) 3 = Some ?s" using accepted_query by (simp add: query_Found)
  have m: "\<not> is_some_nil (Some 5)" by (simp add: is_some_nil_def is_nil_def)
  note ex = in_memory_transition [OF accepted_in_memory a, of "move_executing (Some 5)" "Executing (Some 5)" no_journal]
  show "registry_wf prepared_registry"
    unfolding prepared_registry_def by (rule registry_run_wf [OF accepted_registry_wf])
  show "og_journal prepared_registry = None" "rs_recovery_required (og_inner prepared_registry) = None"
    "query prepared_registry 3 = Found \<lparr>snap_identity = sample_identity, snap_state = Prepared 5\<rparr>"
    using a m ex accepted_in_memory
    by (simp_all add: prepared_registry_def mark_executing_def mark_prepared_def in_memory_transition query_Found)
qed


lemma prepared_commit: "\<exists>R. begin_commit no_journal prepared_registry 3 5 = (R, Inr ())"
  using prepared_registry_facts
  by (simp add: begin_commit_def query_Found in_memory_transition)

lemma prepared_cancel: "\<exists>R. cancel no_journal prepared_registry sample_identity = (R, Inr ())"
  using prepared_registry_facts
  by (simp add: cancel_def choose_cancel_def ensure_healthy_def sample_identity_valid query_Found Let_def
      append_snapshot_def append_transition_def sample_identity_def [THEN arg_cong [where f = oi_operation_id]])

section \<open>Properties of the registry\<close>

text \<open>
  C26. The registry keeps its invariant under any sequence of calls, over any journal: at most \<open>capacity\<close>
  records, keyed by the operation id of a snapshot that validates, the eviction queue lists exactly the
  terminal records and each once, every recorded id is in the tombstone filter, and a lease belongs to an
  unresolved record with its digest and generation.
\<close>
theorem registry_invariant:
  assumes "registry_wf R"
  shows "registry_wf (registry_run jappend R calls)"
  by (rule registry_run_wf [OF assms])

theorem registry_invariant_witness:
  "registry_wf (registry_run no_journal sample_registry [CallAccept sample_identity, CallCancel sample_identity])"
  by (rule registry_invariant [OF sample_registry_wf])

lemma unresolved_run:
  assumes "registry_wf R" "map_of (rs_records (og_inner R)) k = Some s"
    "query (registry_run jappend R calls) k = ExpiredOrPossiblySeen" "\<not> is_terminal (snap_state s)"
  shows "\<exists>pre post t. calls = pre @ post \<and> query (registry_run jappend R pre) k = Found t \<and> snap_identity t = snap_identity s
     \<and> valid_recovered_transition\<^sup>*\<^sup>* (snap_state s) (snap_state t) \<and> is_terminal (snap_state t)"
  using assms
proof (induction calls arbitrary: R s)
  case Nil
  then show ?case by (simp add: query_def)
next
  case (Cons c calls)
  let ?R = "registry_step jappend R c"
  obtain s1 where s1: "map_of (rs_records (og_inner ?R)) k = Some s1" "snap_identity s1 = snap_identity s"
    "valid_recovered_transition (snap_state s) (snap_state s1)"
    using step_keeps_unresolved [OF Cons.prems(1,2,4)] by blast
  show ?case
  proof (cases "is_terminal (snap_state s1)")
    case True
    then show ?thesis using s1 by (intro exI [of _ "[c]"] exI [of _ calls] exI [of _ s1]) (auto simp: query_Found)
  next
    case False
    obtain pre post t where "calls = pre @ post" "query (registry_run jappend ?R pre) k = Found t" "snap_identity t = snap_identity s1"
      "valid_recovered_transition\<^sup>*\<^sup>* (snap_state s1) (snap_state t)" "is_terminal (snap_state t)"
      using Cons.IH [OF step_wf [OF Cons.prems(1)] s1(1) _ False] Cons.prems(3) by auto
    then show ?thesis using s1(2,3)
      by (intro exI [of _ "c # pre"] exI [of _ post] exI [of _ t]) (auto intro: converse_rtranclp_into_rtranclp)
  qed
qed

text \<open>
  C27. No sequence of calls loses an unresolved operation, whatever the calls do and whatever the journal answers. After any
  sequence the operation is found under the same identity, in a state that the transition order allows from the one it was
  in; or it was settled on the way (after some prefix of the calls it was found under the same identity with a terminal that
  the order allows) and evicted afterwards, and is reported as possibly seen. It is never reported as not found, and eviction
  to make room never takes it while it is unresolved.
\<close>
theorem unresolved_never_lost:
  assumes "registry_wf R" "query R k = Found s" "\<not> is_terminal (snap_state s)"
  shows "(\<exists>t. query (registry_run jappend R calls) k = Found t \<and> snap_identity t = snap_identity s
       \<and> valid_recovered_transition\<^sup>*\<^sup>* (snap_state s) (snap_state t))
     \<or> (query (registry_run jappend R calls) k = ExpiredOrPossiblySeen
       \<and> (\<exists>pre post t. calls = pre @ post \<and> query (registry_run jappend R pre) k = Found t \<and> snap_identity t = snap_identity s
            \<and> valid_recovered_transition\<^sup>*\<^sup>* (snap_state s) (snap_state t) \<and> is_terminal (snap_state t)))"
proof -
  have s: "map_of (rs_records (og_inner R)) k = Some s" using assms(2) by (simp add: query_Found)
  show ?thesis
    using registry_step_wf_query [OF assms(1) s, of jappend calls] unresolved_run [OF assms(1) s _ assms(3), of jappend calls]
    by (cases "query (registry_run jappend R calls) k") auto
qed

theorem unresolved_never_lost_witness:
  "\<exists>t. query (registry_run no_journal accepted_registry [CallExecuting 3 (Some 5), CallPrepared 3 5]) 3 = Found t
     \<and> snap_identity t = sample_identity \<and> valid_recovered_transition\<^sup>*\<^sup>* Accepted (snap_state t)"
  using unresolved_never_lost [OF accepted_registry_wf accepted_query, of no_journal "[CallExecuting 3 (Some 5), CallPrepared 3 5]"]
    prepared_registry_facts(4) unfolding prepared_registry_def by auto

text \<open>
  C28. A terminal is final: after any sequence of calls the operation is found with the same snapshot, or was
  evicted and is reported as possibly seen. It is never reported as not found, and never in another state.
\<close>
theorem terminal_is_final:
  assumes "registry_wf R" "query R k = Found s" "is_terminal (snap_state s)"
  shows "query (registry_run jappend R calls) k \<in> {Found s, ExpiredOrPossiblySeen}"
proof -
  have s: "map_of (rs_records (og_inner R)) k = Some s" using assms(2) by (simp add: query_Found)
  show ?thesis
    using registry_step_wf_query [OF assms(1) s, of jappend calls] terminal_reach assms(3)
    by (auto split: operation_query_result.splits)
qed

theorem terminal_is_final_witness:
  "query (registry_run no_journal (fst (cancel no_journal prepared_registry sample_identity)) [CallCommit 3 5]) 3
     \<in> {Found (cancelled_snapshot sample_identity (Some 5)), ExpiredOrPossiblySeen}"
proof -
  have q: "query (fst (cancel no_journal prepared_registry sample_identity)) 3
      = Found (cancelled_snapshot sample_identity (Some 5))"
    using prepared_registry_facts
    by (simp add: cancel_def choose_cancel_def ensure_healthy_def sample_identity_valid query_Found Let_def
        append_snapshot_def append_transition_def sample_identity_def [THEN arg_cong [where f = oi_operation_id]]
        publish_cancelled_def publish_terminal_def)
  have "registry_wf (fst (cancel no_journal prepared_registry sample_identity))"
    using step_wf [OF prepared_registry_facts(1), of no_journal "CallCancel sample_identity"] by simp
  then show ?thesis by (rule terminal_is_final [OF _ q]) simp
qed

text \<open>
  C21. An operation id is admitted at most once. After \<open>accept\<close> admitted an operation, no later \<open>accept\<close> with
  the same operation id is answered with an admission, in whatever state the operation is by then, evicted
  included.
\<close>
theorem admitted_at_most_once:
  assumes "registry_wf R" "accept jappend R i = (R', Inr AdmissionAccepted)"
    "oi_operation_id i' = oi_operation_id i"
  shows "snd (accept jappend (registry_run jappend R' calls) i') \<noteq> Inr AdmissionAccepted"
proof -
  let ?R = "registry_run jappend R' calls"
  have "registry_wf R'" using step_wf [OF assms(1), of jappend "CallAccept i"] assms(2) by simp
  then have "may_contain (rs_seen (og_inner ?R)) (oi_operation_id i')"
    using evolvesD(4) [OF run_evolves accept_accepted [OF assms(2)]] assms(3) by simp
  then show ?thesis
    by (auto simp: accept_def Let_def ensure_healthy_def split: sum.splits option.splits)
qed

theorem admitted_at_most_once_witness:
  "snd (accept no_journal (registry_run no_journal accepted_registry [CallCancel sample_identity]) sample_identity)
     \<noteq> Inr AdmissionAccepted"
  by (rule admitted_at_most_once [OF sample_registry_wf sample_accept refl])

text \<open>
  An operation enters its commit at most once. After \<open>begin_commit\<close> succeeded, no later \<open>begin_commit\<close> of
  the operation succeeds, for any effect id and after any sequence of calls.
\<close>
theorem committed_at_most_once:
  assumes "registry_wf R" "begin_commit jappend R k e = (R', Inr ())"
  shows "snd (begin_commit jappend (registry_run jappend R' calls) k e') \<noteq> Inr ()"
proof -
  have wf: "registry_wf R'" using step_wf [OF assms(1), of jappend "CallCommit k e"] assms(2) by simp
  obtain s' where "map_of (rs_records (og_inner R')) k = Some s'" "snap_state s' = CommitStarted e"
    using begin_commit_committed [OF assms(2)] .
  then show ?thesis using no_commit_after [OF wf] by blast
qed

theorem committed_at_most_once_witness:
  "snd (begin_commit no_journal (fst (begin_commit no_journal prepared_registry 3 5)) 3 5) \<noteq> Inr ()"
proof -
  obtain R where R: "begin_commit no_journal prepared_registry 3 5 = (R, Inr ())" using prepared_commit by blast
  show ?thesis using committed_at_most_once [OF prepared_registry_facts(1) R, of "[]" 5] R by simp
qed

text \<open>
  Cancellation wins over a later commit: after \<open>cancel\<close> reported success, no \<open>begin_commit\<close> of the
  operation succeeds any more.
\<close>
theorem cancelled_never_commits:
  assumes "registry_wf R" "cancel jappend R i = (R', Inr ())"
  shows "snd (begin_commit jappend (registry_run jappend R' calls) (oi_operation_id i) e) \<noteq> Inr ()"
proof -
  have wf: "registry_wf R'" using step_wf [OF assms(1), of jappend "CallCancel i"] assms(2) by simp
  show ?thesis using cancel_cancelled [OF assms(2)] no_commit_after [OF wf] by blast
qed

theorem cancelled_never_commits_witness:
  "snd (begin_commit no_journal (fst (cancel no_journal prepared_registry sample_identity)) 3 5) \<noteq> Inr ()"
proof -
  obtain R where R: "cancel no_journal prepared_registry sample_identity = (R, Inr ())" using prepared_cancel by blast
  show ?thesis
    using cancelled_never_commits [OF prepared_registry_facts(1) R, of "[]" 5] R by (simp add: sample_identity_def)
qed


text \<open>
  A registry that requires recovery is closed: every call but the startup reconciliation
  (\<open>recover_terminal\<close>) leaves it exactly as it is, and no sequence of calls opens it again.
\<close>
theorem fenced_registry_is_closed:
  assumes "registry_wf R" "rs_recovery_required (og_inner R) = Some m"
  shows "((\<forall>k s e t. c \<noteq> CallRecoverTerminal k s e t) \<longrightarrow> registry_step jappend R c = R)
     \<and> rs_recovery_required (og_inner (registry_run jappend R calls)) \<noteq> None"
proof
  show "(\<forall>k s e t. c \<noteq> CallRecoverTerminal k s e t) \<longrightarrow> registry_step jappend R c = R"
    using assms(2)
    by (cases c) (auto simp: accept_def mark_executing_def mark_prepared_def begin_commit_def transition_def
      record_lease_def finish_value_def finish_refused_def finish_effect_def finish_terminal_def cancel_def
      cancel_and_persist_epoch_def abort_prepared_def require_recovery_def persist_epoch_advance_def
      ensure_healthy_def Let_def receipt_terminal_valid
      split: sum.splits operation_query_result.splits operation_state.splits option.splits operation_terminal.splits)
  show "rs_recovery_required (og_inner (registry_run jappend R calls)) \<noteq> None"
    using evolvesD(5) [OF run_evolves [OF assms(1)]] assms(2) by simp
qed

theorem fenced_registry_is_closed_witness:
  "rs_recovery_required (og_inner (registry_run no_journal (require_recovery accepted_registry (lit ''x''))
     [CallAccept sample_identity])) \<noteq> None"
proof -
  have "rs_recovery_required (og_inner (require_recovery accepted_registry (lit ''x'')))
      = Some (bounded_text (lit ''x'') MAX_OPERATION_DIAGNOSTIC_BYTES)"
    by (simp add: require_recovery_def Let_def accepted_in_memory(2))
  moreover have "registry_wf (require_recovery accepted_registry (lit ''x''))"
    using step_wf [OF accepted_registry_wf, of no_journal "CallRequireRecovery (lit ''x'')"] by simp
  ultimately show ?thesis using fenced_registry_is_closed [of "require_recovery accepted_registry (lit ''x'')"] by blast
qed

lemma move_fencing_keeps:
  assumes "registry_move jappend R R'" "rs_recovery_required (og_inner R) = None"
    "rs_recovery_required (og_inner R') \<noteq> None"
  shows "rs_records (og_inner R') = rs_records (og_inner R) \<and> rs_seen (og_inner R') = rs_seen (og_inner R)
     \<and> rs_terminal_order (og_inner R') = rs_terminal_order (og_inner R) \<and> rs_leases (og_inner R') = rs_leases (og_inner R)"
  using assms(1)
proof (cases rule: registry_move.cases)
  case (move_epoch a b r)
  then show ?thesis by (auto elim!: append_transition_shape)
next
  case (move_unstored n e)
  then show ?thesis unfolding append_snapshot_def by (auto elim!: append_transition_shape)
next
  case (move_publish n R1 st')
  then show ?thesis using assms(2,3) by (simp add: publishes_def)
qed (use assms(2,3) in simp_all)



text \<open>
  An issued lease is always bound: a lease the registry answers for names the operation it was issued
  for, which is still unresolved, and carries that operation's argument digest and generation. A terminal
  operation has no lease.
\<close>
theorem issued_lease_is_bound:
  assumes "registry_wf R" "issued_lease_matches (registry_run jappend R calls) k l"
  shows "\<exists>s. query (registry_run jappend R calls) k = Found s \<and> \<not> is_terminal (snap_state s)
     \<and> al_operation_id l = k \<and> al_argument_digest l = oi_argument_digest (snap_identity s)
     \<and> al_operation_generation l = oi_generation (snap_identity s)"
proof -
  have "leases_ok (og_inner (registry_run jappend R calls))"
    using registry_run_wf [OF assms(1)] by (auto simp: registry_wf_def state_inv_def)
  then show ?thesis
    using assms(2) by (auto simp: issued_lease_matches_def leases_ok_def query_Found split: option.splits)
qed

definition sample_lease :: authority_lease where
  "sample_lease = \<lparr>al_lease_id = lit ''l'', al_operation_id = 3, al_argument_digest = replicate 32 0,
     al_operation_generation = 1, al_intent = IntentReadOnly, al_grant_id = None, al_decision = Allow,
     al_issued_at_ms = 0, al_expires_at_ms = 10, al_policy_revision = None, al_binding_epoch = None\<rparr>"

theorem issued_lease_is_bound_witness:
  "\<exists>s. query (registry_run no_journal accepted_registry [CallLease 3 sample_lease]) 3 = Found s
     \<and> \<not> is_terminal (snap_state s)"
proof -
  have "issued_lease_matches (registry_run no_journal accepted_registry [CallLease 3 sample_lease]) 3 sample_lease"
    using accepted_query accepted_in_memory(2)
    by (simp add: record_lease_def ensure_healthy_def query_Found sample_lease_def sample_identity_def
        issued_lease_matches_def)
  from issued_lease_is_bound [OF accepted_registry_wf this] show ?thesis by blast
qed


section \<open>The registry over the file journal\<close>

definition sample_port :: file_port where
  "sample_port = \<lparr>fp_envs = (\<lambda>_. append_with None), fp_clock = 0, fp_journal = sample_journal\<rparr>"

definition durable_registry :: "file_port operation_registry" where
  "durable_registry = projr (registry_recover 4 (Some sample_port) recovery_default)"

lemma sample_port_ok: "port_ok decimal_codec sample_port" "port_truth sample_port = (1, {})"
  using decimal_codec_ok sample_journal_ok by (simp_all add: port_ok_def port_truth_def sample_port_def)

lemma durable_registry_facts:
  "synced port_truth (port_ok decimal_codec) durable_registry" "og_journal durable_registry = Some sample_port"
  "rs_recovery_required (og_inner durable_registry) = None" "og_capacity durable_registry = 4"
  "unresolved (og_inner durable_registry) = {}"
proof -
  have "\<exists>R. registry_recover 4 (Some sample_port) recovery_default = Inr R
      \<and> synced port_truth (port_ok decimal_codec) R \<and> og_capacity R = 4 \<and> og_journal R = Some sample_port
      \<and> rs_recovery_required (og_inner R) = None
      \<and> unresolved (og_inner R) = {s \<in> snd (port_truth sample_port). \<not> is_terminal (snap_state s)}"
    by (rule fp.synced_recover) (simp_all add: sample_port_ok recovery_default_def)
  then show "synced port_truth (port_ok decimal_codec) durable_registry"
    "og_journal durable_registry = Some sample_port" "rs_recovery_required (og_inner durable_registry) = None"
    "og_capacity durable_registry = 4" "unresolved (og_inner durable_registry) = {}"
    by (auto simp: durable_registry_def sample_port_ok(2))
qed

text \<open>
  C3. The registry refines the durable truth of the file journal. Under any sequence of calls, and any answers
  of the operating system to the appends, every record in memory is in the journal's truth, every unresolved
  operation of the truth is in memory, and every operation the truth knows is in the tombstone filter.
\<close>
theorem registry_refines_journal:
  assumes "synced port_truth (port_ok C) R"
  shows "synced port_truth (port_ok C) (registry_run (port_append C) R calls)"
  by (rule fp.synced_run [OF assms])

theorem registry_refines_journal_witness:
  "synced port_truth (port_ok decimal_codec) (registry_run (port_append decimal_codec) durable_registry
     [CallAccept sample_identity, CallExecuting 3 (Some 5)])"
  by (rule registry_refines_journal [OF durable_registry_facts(1)])

lemma journal_ok_recovery:
  assumes "journal_ok C J"
  shows "distinct (map snap_id (rv_operations (ow_recovery (fj_writer J))))"
    "\<forall>s \<in> set (rv_operations (ow_recovery (fj_writer J))). snapshot_validate s = Inr ()"
  using journal_ok_wf [OF assms] by (simp_all add: writer_wf_def Let_def indexes_ok_def)

lemma append_transition_disk:
  assumes "synced port_truth (port_ok C) R" "og_journal R = Some P" "ow_failed (fj_writer (fp_journal P)) = None"
    "last_seq_of (fp_journal P) \<le> MAX_OPERATION_JOURNAL_RECOVERY_RECORDS"
    "length (journal_ops (fp_journal P)) + 2 \<le> MAX_OPERATION_JOURNAL_RECOVERY_RECORDS"
    "append_transition (port_append C) R t = (R1, r)"
  shows "\<exists>P1 T. og_journal R1 = Some P1 \<and> disk_holds C (fj_base (fp_journal P)) (fj_disk (fp_journal P1)) T
     \<and> T \<in> {port_truth P, apply_truth (port_truth P) t}
     \<and> (ow_failed (fj_writer (fp_journal P1)) = None \<longrightarrow> T = port_truth P1)
     \<and> (r = Inr () \<longrightarrow> T = port_truth P1 \<and> ow_failed (fj_writer (fp_journal P1)) = None
          \<and> fj_base (fp_journal P1) = fj_base (fp_journal P)
          \<and> last_seq_of (fp_journal P1) \<le> MAX_OPERATION_JOURNAL_RECOVERY_RECORDS)"
proof -
  obtain J1 res where a: "append_and_sync C (fp_envs P (fp_clock P)) (fp_journal P) t = (J1, res)" by fastforce
  have ok: "codec_ok C" "journal_ok C (fp_journal P)" using assms(1-3) by (auto simp: synced_def port_ok_def)
  have R1: "og_journal R1 = Some (P\<lparr>fp_clock := Suc (fp_clock P), fp_journal := J1\<rparr>)" "r = Inr () \<longleftrightarrow> (\<exists>x. res = Inr x)"
    using assms(2,6) a by (auto simp: append_transition_def port_append_def Let_def split: sum.splits)
  note oc = append_and_sync_ok [OF ok assms(3) a]
  obtain T where T: "disk_holds C (fj_base (fp_journal P)) (fj_disk J1) T" "T \<in> {port_truth P, apply_truth (port_truth P) t}"
    "ow_failed (fj_writer J1) = None \<longrightarrow> T = journal_truth J1"
    using append_reopen_truth [OF ok assms(3-5) a] unfolding port_truth_def by metis
  have stored: "ow_failed (fj_writer J1) = None \<and> fj_base J1 = fj_base (fp_journal P)
      \<and> last_seq_of J1 \<le> MAX_OPERATION_JOURNAL_RECOVERY_RECORDS" if "r = Inr ()"
    using that R1(2) oc assms(5) by (auto simp: append_outcome_def)
  show ?thesis
    by (rule exI [of _ "P\<lparr>fp_clock := Suc (fp_clock P), fp_journal := J1\<rparr>"], rule exI [of _ T])
       (use T R1(1) stored in \<open>auto simp: port_truth_def\<close>)
qed

definition with_offer :: "operation_snapshot \<Rightarrow> operation_snapshot set \<Rightarrow> operation_snapshot set" where
  "with_offer n S = insert n {s \<in> S. snap_id s \<noteq> snap_id n}"

lemma snd_apply_upsert: "snd (apply_truth T (OperationUpsert n)) = with_offer n (snd T)"
  by (cases T) (simp add: with_offer_def)

lemma snd_apply_epoch: "snd (apply_truth T (EpochAdvanced a b)) = snd T"
  by (cases T) simp

lemma with_offer_ids: "snap_id ` S \<subseteq> snap_id ` with_offer n S"
  by (auto simp: with_offer_def)

definition resumes :: "journal_codec \<Rightarrow> file_port operation_registry \<Rightarrow> file_port \<Rightarrow> file_port \<Rightarrow> authority_truth \<Rightarrow> bool" where
  "resumes C R P P1 T \<longleftrightarrow> disk_holds C (fj_base (fp_journal P)) (fj_disk (fp_journal P1)) T
     \<and> snap_id ` snd (port_truth P) \<subseteq> snap_id ` snd T
     \<and> (snd T = snd (port_truth P1)
        \<or> ow_failed (fj_writer (fp_journal P1)) \<noteq> None \<and> (\<exists>n st'. publishable (og_inner R) n
             \<and> publishes (og_capacity R) (og_inner R) n st' \<and> snd T = with_offer n (snd (port_truth P))))"

lemma move_disk:
  assumes "registry_move (port_append C) R R1" "synced port_truth (port_ok C) R" "og_journal R = Some P"
    "ow_failed (fj_writer (fp_journal P)) = None" "last_seq_of (fp_journal P) \<le> MAX_OPERATION_JOURNAL_RECOVERY_RECORDS"
    "length (journal_ops (fp_journal P)) + 2 \<le> MAX_OPERATION_JOURNAL_RECOVERY_RECORDS"
  shows "\<exists>P1 T. og_journal R1 = Some P1 \<and> resumes C R P P1 T"
proof -
  have ok: "codec_ok C" "journal_ok C (fp_journal P)" "port_ok C P" using assms(2-4) by (auto simp: synced_def port_ok_def)
  have same: "resumes C R P P (port_truth P)"
    using journal_ok_disk_holds [OF ok(2) assms(5)] by (simp add: resumes_def port_truth_def)
  note disk = append_transition_disk [OF assms(2-6)]
  show ?thesis
    using assms(1)
  proof (cases rule: registry_move.cases)
    case (move_epoch a b r)
    obtain P1 where P1: "og_journal R1 = Some P1" "snd (port_truth P1) = snd (port_truth P)"
      using fp.append_transition_synced [OF assms(2) move_epoch] assms(3) by (cases r) (auto simp: snd_apply_epoch)
    obtain T where T: "disk_holds C (fj_base (fp_journal P)) (fj_disk (fp_journal P1)) T"
      "T \<in> {port_truth P, apply_truth (port_truth P) (EpochAdvanced a b)}"
      using disk [OF move_epoch] P1(1) by auto
    then have "snd T = snd (port_truth P)" by (auto simp: snd_apply_epoch)
    then show ?thesis using P1 T(1) unfolding resumes_def by (intro exI [of _ P1] exI [of _ T]) simp
  next
    case (move_unstored n e st')
    obtain P1 T where T: "og_journal R1 = Some P1" "disk_holds C (fj_base (fp_journal P)) (fj_disk (fp_journal P1)) T"
      "T \<in> {port_truth P, apply_truth (port_truth P) (OperationUpsert n)}" "ow_failed (fj_writer (fp_journal P1)) = None \<longrightarrow> T = port_truth P1"
      using disk [OF move_unstored(2) [unfolded append_snapshot_def]] by metis
    have "port_truth P1 = port_truth P"
      using fp.append_transition_synced [OF assms(2) move_unstored(2) [unfolded append_snapshot_def]] assms(3) T(1) by auto
    then have "resumes C R P P1 T" using T move_unstored(1,3) with_offer_ids [of "snd (port_truth P)" n]
      by (auto simp: resumes_def snd_apply_upsert)
    then show ?thesis using T(1) by blast
  next
    case (move_publish n R2 st')
    obtain P1 T where T: "og_journal R2 = Some P1" "disk_holds C (fj_base (fp_journal P)) (fj_disk (fp_journal P1)) T"
      "T \<in> {port_truth P, apply_truth (port_truth P) (OperationUpsert n)}" "T = port_truth P1"
      using disk [OF move_publish(3) [unfolded append_snapshot_def]] by metis
    then have "resumes C R P P1 T" using with_offer_ids [of "snd (port_truth P)" n] by (auto simp: resumes_def snd_apply_upsert)
    moreover have "og_journal R1 = Some P1" using T(1) move_publish(1) by simp
    ultimately show ?thesis by blast
  qed (use same assms(3) in \<open>auto intro!: exI [of _ "port_truth P"] simp del: split_paired_Ex\<close>)
qed

lemma step_disk:
  assumes "synced port_truth (port_ok C) R" "og_journal R = Some P"
    "ow_failed (fj_writer (fp_journal P)) = None" "last_seq_of (fp_journal P) \<le> MAX_OPERATION_JOURNAL_RECOVERY_RECORDS"
    "length (journal_ops (fp_journal P)) + 2 \<le> MAX_OPERATION_JOURNAL_RECOVERY_RECORDS"
  shows "\<exists>P1 T. og_journal (registry_step (port_append C) R c) = Some P1 \<and> resumes C R P P1 T"
proof -
  have wf: "registry_wf R" and ok: "codec_ok C" "journal_ok C (fp_journal P)" using assms(1-3) by (auto simp: synced_def port_ok_def)
  consider (none) "registry_step (port_append C) R c = R"
    | (one) "registry_move (port_append C) R (registry_step (port_append C) R c)"
    | (two) a b R1 where "append_transition (port_append C) R (EpochAdvanced a b) = (R1, Inr ())"
        "registry_move (port_append C) R1 (registry_step (port_append C) R c)"
    using registry_step_moves [OF wf, of "port_append C" c] unfolding op_move_def by blast
  then show ?thesis
  proof cases
    case none
    then show ?thesis using assms(2) journal_ok_disk_holds [OF ok(2) assms(4)]
      by (intro exI [of _ P] exI [of _ "port_truth P"]) (simp add: resumes_def port_truth_def)
  next
    case one
    then show ?thesis using move_disk [OF _ assms] by blast
  next
    case two
    have s1: "synced port_truth (port_ok C) R1" by (rule fp.synced_move [OF move_epoch [OF two(1)] assms(1)])
    obtain P1 where P1: "og_journal R1 = Some P1" "ow_failed (fj_writer (fp_journal P1)) = None"
      "fj_base (fp_journal P1) = fj_base (fp_journal P)" "last_seq_of (fp_journal P1) \<le> MAX_OPERATION_JOURNAL_RECOVERY_RECORDS"
      using append_transition_disk [OF assms two(1)] by auto
    have t: "snd (port_truth P1) = snd (port_truth P)"
      using fp.append_transition_synced [OF assms(1) two(1)] assms(2) P1(1) by (auto simp: snd_apply_epoch)
    have "journal_ok C (fp_journal P1)" using s1 P1(1,2) by (auto simp: synced_def port_ok_def)
    then have "length (journal_ops (fp_journal P1)) = length (journal_ops (fp_journal P))"
      using t journal_ok_recovery(1) [of C "fp_journal P1"] journal_ok_recovery(1) [OF ok(2)]
      by (simp add: port_truth_def truth_of_def distinct_map) (metis distinct_card)
    then obtain P2 T where "og_journal (registry_step (port_append C) R c) = Some P2" "resumes C R1 P1 P2 T"
      using move_disk [OF two(2) s1 P1(1,2,4)] assms(5) by auto
    moreover have "og_inner R1 = og_inner R" "og_capacity R1 = og_capacity R"
      by (rule append_transition_shape [OF two(1)]; simp)+
    then have "resumes C R1 P1 P2 T = resumes C R P P2 T" using P1(3) t by (simp add: resumes_def)
    ultimately show ?thesis by blast
  qed
qed


text \<open>
  Admission makes progress over the file journal: a fresh operation with a valid identity is admitted
  when the registry is healthy and has room, the journal's writer is healthy, the operating system reports no
  error and the frame fits the limits.
\<close>
theorem accept_makes_progress:
  assumes "synced port_truth (port_ok C) R" "og_journal R = Some P" "rs_recovery_required (og_inner R) = None"
    "identity_validate i = Inr ()" "query R (oi_operation_id i) = NotFound"
    "has_capacity_or_evictable_terminal (og_inner R) (og_capacity R)"
    "ow_failed (fj_writer (fp_journal P)) = None"
    "ow_next_seq (fj_writer (fp_journal P)) \<le> MAX_OPERATION_JOURNAL_RECOVERY_RECORDS"
    "ae_io (fp_envs P (fp_clock P)) = \<lparr>io_stat_ok = True, io_write_fault = None\<rparr>"
    "encode_operation_frame C \<lparr>jr_version = OPERATION_JOURNAL_VERSION, jr_seq = ow_next_seq (fj_writer (fp_journal P)),
        jr_transition = OperationUpsert \<lparr>snap_identity = i, snap_state = Accepted\<rparr>\<rparr> = Inr b"
    "length b \<le> MAX_OPERATION_JOURNAL_FRAME_BYTES"
    "length (journal_bytes (fp_journal P)) + length b + 1 \<le> MAX_OPERATION_JOURNAL_FILE_BYTES"
  shows "\<exists>R'. accept (port_append C) R i = (R', Inr AdmissionAccepted)"
proof -
  let ?n = "\<lparr>snap_identity = i, snap_state = Accepted\<rparr>"
  have q: "map_of (rs_records (og_inner R)) (oi_operation_id i) = None"
    "\<not> may_contain (rs_seen (og_inner R)) (oi_operation_id i)"
    using assms(5) by (auto simp: query_def split: option.splits if_splits)
  have "publishable (og_inner R) ?n" using assms(4) q by (simp add: publishable_def snapshot_validate_def)
  then have adm: "transition_admitted (journal_truth (fp_journal P)) (OperationUpsert ?n)"
    using fp.publishable_admitted [OF assms(1) _ assms(2)] by (simp add: port_truth_def)
  have ok: "codec_ok C" "journal_ok C (fp_journal P)"
    using assms(1,2,7) by (auto simp: synced_def port_ok_def)
  have v: "transition_validate (OperationUpsert ?n) = Inr ()" using assms(4) by (simp add: snapshot_validate_def)
  obtain J r where "append_and_sync C (fp_envs P (fp_clock P)) (fp_journal P) (OperationUpsert ?n) = (J, Inr r)"
    using append_progress_helper [OF ok assms(7,8) v adm assms(9-12)] by blast
  then show ?thesis
    using assms(2,3,4,6) q
    by (simp add: accept_def ensure_healthy_def Let_def append_snapshot_def append_transition_def port_append_def)
qed

lemma durable_registry_empty:
  "durable_registry = \<lparr>og_capacity = 4, og_journal = Some sample_port, og_inner = registry_state_default\<rparr>"
  by (simp add: durable_registry_def registry_recover_def recovery_default_def evict_done registry_state_default_def)

theorem accept_makes_progress_witness:
  "\<exists>R'. accept (port_append decimal_codec) durable_registry sample_identity = (R', Inr AdmissionAccepted)"
proof -
  obtain b where b: "encode_operation_frame decimal_codec sample_record = Inr b" "length b = 313"
    by (rule sample_frame_encodes)
  have p: "fp_journal sample_port = sample_journal" "fp_envs sample_port k = append_with None" for k
    by (simp_all add: sample_port_def)
  show ?thesis
    by (rule accept_makes_progress [OF durable_registry_facts(1-3) sample_identity_valid, where b = b])
       (use b in \<open>simp_all add: p sample_append_ready sample_journal_ok append_with_def sample_record_def
          sample_upsert_def query_def durable_registry_empty registry_state_default_def may_contain_default
          has_capacity_or_evictable_terminal_def MAX_OPERATION_JOURNAL_RECOVERY_RECORDS_def
          MAX_OPERATION_JOURNAL_FRAME_BYTES_def MAX_OPERATION_JOURNAL_FILE_BYTES_def\<close>)
qed


section \<open>Diagnostics\<close>

lemma floor_char_boundary_full: "is_char_boundary s n \<Longrightarrow> floor_char_boundary s n = n"
  by (cases n) auto

text \<open>
  Diagnostics never poison the authority: \<open>bounded_text\<close> turns any text into one that the contract's
  validation accepts, for every limit of at least 11 bytes (the length of its placeholder), and leaves a text
  that is valid and trimmed already as it is.
\<close>
theorem bounded_text_is_valid:
  assumes "11 \<le> max_bytes"
  shows "validate_bounded_text name (bounded_text v max_bytes) max_bytes = Inr ()
     \<and> (validate_bounded_text name v max_bytes = Inr () \<longrightarrow> trim v = v \<longrightarrow> bounded_text v max_bytes = v)"
proof (intro conjI impI)
  assume v: "validate_bounded_text name v max_bytes = Inr ()" "trim v = v"
  then have c: "v \<noteq> []" "str_len v \<le> max_bytes" "\<forall>c \<in> set v. \<not> is_control c"
    by (auto simp: validate_bounded_text_def list_ex_iff split: if_splits)
  then have "map (\<lambda>c. if is_control c then 32 else c) v = v" by (simp add: map_idI)
  then show "bounded_text v max_bytes = v"
    using v(2) c(1,2) floor_char_boundary_full [OF is_char_boundary_full, of v]
    by (simp add: bounded_text_def Let_def min_absorb1 take_bytes_full)
qed (rule bounded_text_validates [OF assms])

theorem bounded_text_is_valid_witness:
  "validate_bounded_text (lit ''e'') (bounded_text (lit ''disk full'') 11) 11 = Inr ()"
  using bounded_text_is_valid [of 11] by simp

end
