(* ===== verification/Json_Canonical.thy ===== *)
theory Json_Canonical
  imports Operation_Contracts "HOL-Library.List_Lexorder" "HOL-Library.Multiset"
begin

text \<open>
  JSON values and their canonical form, \<^verbatim>\<open>crates/agent-contracts/src/jcs.rs\<close> (RFC 8785): what argument
  digests are taken over. A number is what \<open>serde_json\<close> keeps of it; a double is its 64 bits. Two functions
  of third-party crates are parameters (\<open>jcs_env\<close>): \<open>Number::as_f64\<close> and the shortest-digits printer of
  \<open>ryu\<close>; the layout of those digits after the rules of ECMA-262 is modelled.

  The lemmas show that the canonical text does not depend on the order of object keys, and that it is
  injective up to that order: two values with the same text are the same value.
\<close>

unbundle bit_operations_syntax

section \<open>Values\<close>

datatype json_number = PosInt nat | NegInt int | Float "64 word"

datatype json =
    JNull
  | JBool bool
  | JNumber json_number
  | JString rust_str
  | JArray "json list"
  | JObject "(rust_str \<times> json) list"

record jcs_env =
  je_as_f64 :: "json_number \<Rightarrow> 64 word option"
  je_ryu :: "64 word \<Rightarrow> rust_str"

section \<open>Doubles\<close>

definition f64_is_zero :: "64 word \<Rightarrow> bool" where
  "f64_is_zero v \<longleftrightarrow> v AND 0x7FFFFFFFFFFFFFFF = 0"

definition f64_is_sign_negative :: "64 word \<Rightarrow> bool" where
  "f64_is_sign_negative v \<longleftrightarrow> bit v 63"

definition f64_is_finite :: "64 word \<Rightarrow> bool" where
  "f64_is_finite v \<longleftrightarrow> drop_bit 52 v AND 0x7FF \<noteq> 0x7FF"

definition f64_neg :: "64 word \<Rightarrow> 64 word" where
  "f64_neg v = v XOR 0x8000000000000000"

section \<open>Numbers\<close>

text \<open>\<open>split_once c s\<close> is \<open>str::split_once\<close>; \<open>parse_i32\<close> is \<open>str::parse\<close> at \<open>i32\<close>, \<open>show_int\<close> its \<open>Display\<close>.\<close>

fun split_once :: "nat \<Rightarrow> rust_str \<Rightarrow> (rust_str \<times> rust_str) option" where
  "split_once c [] = None"
| "split_once c (x # s) =
     (if x = c then Some ([], s) else map_option (\<lambda>(a, b). (x # a, b)) (split_once c s))"

definition digits_value :: "rust_str \<Rightarrow> nat option" where
  "digits_value s =
     (if s = [] \<or> \<not> list_all (\<lambda>c. 48 \<le> c \<and> c \<le> 57) s then None
      else Some (foldl (\<lambda>n c. 10 * n + (c - 48)) 0 s))"

definition parse_i32 :: "rust_str \<Rightarrow> int option" where
  "parse_i32 s =
     (let v = (case s of
          [] \<Rightarrow> None
        | c # t \<Rightarrow> if c = 45 then map_option (\<lambda>n. - int n) (digits_value t)
                  else if c = 43 then map_option int (digits_value t)
                  else map_option int (digits_value s))
      in case v of None \<Rightarrow> None
         | Some n \<Rightarrow> if - 2147483648 \<le> n \<and> n \<le> 2147483647 then Some n else None)"

definition show_int :: "int \<Rightarrow> rust_str" where
  "show_int n = (if n < 0 then 45 # dec (nat (- n)) else dec (nat n))"

definition decimal_from_ryu :: "rust_str \<Rightarrow> rust_str" where
  "decimal_from_ryu printed =
     (if 2 \<le> length printed \<and> drop (length printed - 2) printed = [46, 48]
      then take (length printed - 2) printed else printed)"

definition trim_trailing_zeros :: "rust_str \<Rightarrow> rust_str" where
  "trim_trailing_zeros v =
     (if 46 \<in> set v
      then (let w = rev (dropWhile (\<lambda>c. c = 48) (rev v)) in
            if w \<noteq> [] \<and> last w = 46 then butlast w else w)
      else v)"

text \<open>\<open>None\<close> is the panic of \<open>digits.as_bytes()[0]\<close> on a mantissa with no digit.\<close>

definition scientific_from_ryu :: "rust_str \<Rightarrow> rust_str \<Rightarrow> rust_str option" where
  "scientific_from_ryu mantissa exponent_text =
     (let exponent = (case parse_i32 exponent_text of Some e \<Rightarrow> e | None \<Rightarrow> 0);
          digits = filter (\<lambda>c. c \<noteq> 46) mantissa;
          k = int (str_len digits);
          point = exponent + 1
      in if k \<le> point \<and> point \<le> 21
         then Some (digits @ replicate (nat (point - k)) 48)
         else if 1 \<le> point \<and> point \<le> 21
         then Some (trim_trailing_zeros (take (nat point) digits @ [46] @ drop (nat point) digits))
         else if - 5 \<le> point \<and> point \<le> 0
         then Some (trim_trailing_zeros ([48, 46] @ replicate (nat (- point)) 48 @ digits))
         else if digits = [] then None
         else
          (let exp = point - 1;
               out = [hd digits];
               out1 = (if 1 < length digits
                       then (let t = trim_trailing_zeros (out @ [46] @ drop 1 digits) in
                             if t \<noteq> [] \<and> last t = 46 then butlast t else t)
                       else out)
           in Some (out1 @ [101] @ (if 0 \<le> exp then [43] else []) @ show_int exp)))"

definition es_number_to_string :: "jcs_env \<Rightarrow> 64 word \<Rightarrow> rust_str option" where
  "es_number_to_string E value =
     (if f64_is_zero value then Some [48]
      else
       (let negative = f64_is_sign_negative value;
            abs = (if negative then f64_neg value else value);
            printed = je_ryu E abs;
            formatted = (case split_once 101 printed of
                Some (mantissa, exponent) \<Rightarrow> scientific_from_ryu mantissa exponent
              | None \<Rightarrow> Some (decimal_from_ryu printed))
        in map_option (\<lambda>f. if negative then 45 # f else f) formatted))"

text \<open>The writers return \<open>Inl reason\<close> for \<open>JcsError\<close> and push onto nothing: the text is the result.\<close>

definition write_number :: "jcs_env \<Rightarrow> json_number \<Rightarrow> rust_str + rust_str" where
  "write_number E number =
     (case je_as_f64 E number of
        None \<Rightarrow> Inl (lit ''JSON number is not an IEEE 754 double'')
      | Some value \<Rightarrow>
          if \<not> f64_is_finite value
          then Inl (lit ''NaN and Infinity are not permitted in JCS'')
          else (case es_number_to_string E value of
                  None \<Rightarrow> Inl (lit ''index out of bounds'')
                | Some text \<Rightarrow> Inr text))"

section \<open>Strings\<close>

definition hex_digit :: "nat \<Rightarrow> nat" where
  "hex_digit n = (if n < 10 then 48 + n else 87 + n)"

definition escape_char :: "nat \<Rightarrow> rust_str" where
  "escape_char ch =
     (if ch = 34 then [92, 34]
      else if ch = 92 then [92, 92]
      else if ch = 8 then [92, 98]
      else if ch = 9 then [92, 116]
      else if ch = 10 then [92, 110]
      else if ch = 12 then [92, 102]
      else if ch = 13 then [92, 114]
      else if ch \<le> 31 then [92, 117, 48, 48] @ [hex_digit (ch div 16), hex_digit (ch mod 16)]
      else [ch])"

definition write_string :: "rust_str \<Rightarrow> rust_str" where
  "write_string text = [34] @ concat (map escape_char text) @ [34]"

section \<open>Objects and values\<close>

definition utf16_char :: "nat \<Rightarrow> nat list" where
  "utf16_char c =
     (if c < 65536 then [c] else [55296 + (c - 65536) div 1024, 56320 + (c - 65536) mod 1024])"

definition encode_utf16 :: "rust_str \<Rightarrow> nat list" where
  "encode_utf16 s = concat (map utf16_char s)"

definition sort_members :: "(rust_str \<times> 'a) list \<Rightarrow> (rust_str \<times> 'a) list" where
  "sort_members ms = sort_key (\<lambda>m. encode_utf16 (fst m)) ms"

fun join_comma :: "rust_str list \<Rightarrow> rust_str" where
  "join_comma [] = []"
| "join_comma [x] = x"
| "join_comma (x # y # xs) = x @ [44] @ join_comma (y # xs)"

fun sequence_results :: "('e + 'a) list \<Rightarrow> 'e + 'a list" where
  "sequence_results [] = Inr []"
| "sequence_results (r # rs) = result_bind r (\<lambda>a. result_bind (sequence_results rs) (\<lambda>as. Inr (a # as)))"

fun write_value :: "jcs_env \<Rightarrow> json \<Rightarrow> rust_str + rust_str" where
  "write_value E JNull = Inr (lit ''null'')"
| "write_value E (JBool True) = Inr (lit ''true'')"
| "write_value E (JBool False) = Inr (lit ''false'')"
| "write_value E (JNumber n) = write_number E n"
| "write_value E (JString t) = Inr (write_string t)"
| "write_value E (JArray items) =
     result_bind (sequence_results (map (write_value E) items)) (\<lambda>ts. Inr ([91] @ join_comma ts @ [93]))"
| "write_value E (JObject members) =
     result_bind (sequence_results (map snd (sort_members
         (map (\<lambda>m. (fst m, result_bind (write_value E (snd m)) (\<lambda>t. Inr (write_string (fst m) @ [58] @ t))))
            members))))
       (\<lambda>ts. Inr ([123] @ join_comma ts @ [125]))"

definition jcs_serialize :: "jcs_env \<Rightarrow> json \<Rightarrow> rust_str + rust_str" where
  "jcs_serialize E value = write_value E value"


section \<open>The canonical value\<close>

text \<open>
  The specification the writer implements: a value with its numbers as their texts and its members in key
  order, and the text of such a value.
\<close>

datatype canonical =
    CNull
  | CBool bool
  | CNumber rust_str
  | CString rust_str
  | CArray "canonical list"
  | CObject "(rust_str \<times> canonical) list"

fun canonical_of :: "jcs_env \<Rightarrow> json \<Rightarrow> rust_str + canonical" where
  "canonical_of E JNull = Inr CNull"
| "canonical_of E (JBool b) = Inr (CBool b)"
| "canonical_of E (JNumber n) = result_bind (write_number E n) (\<lambda>t. Inr (CNumber t))"
| "canonical_of E (JString t) = Inr (CString t)"
| "canonical_of E (JArray items) =
     result_bind (sequence_results (map (canonical_of E) items)) (\<lambda>cs. Inr (CArray cs))"
| "canonical_of E (JObject members) =
     result_bind (sequence_results (map snd (sort_members
         (map (\<lambda>m. (fst m, result_bind (canonical_of E (snd m)) (\<lambda>c. Inr (fst m, c)))) members))))
       (\<lambda>ms. Inr (CObject ms))"

fun canonical_text :: "canonical \<Rightarrow> rust_str" where
  "canonical_text CNull = lit ''null''"
| "canonical_text (CBool b) = (if b then lit ''true'' else lit ''false'')"
| "canonical_text (CNumber t) = t"
| "canonical_text (CString t) = write_string t"
| "canonical_text (CArray cs) = [91] @ join_comma (map canonical_text cs) @ [93]"
| "canonical_text (CObject ms) =
     [123] @ join_comma (map (\<lambda>m. write_string (fst m) @ [58] @ canonical_text (snd m)) ms) @ [125]"

section \<open>The writer implements it\<close>

lemma sequence_results_map:
  "sequence_results (map (\<lambda>x. result_bind (f x) (\<lambda>a. Inr (g a))) xs) =
   result_bind (sequence_results (map f xs)) (\<lambda>as. Inr (map g as))"
proof (induction xs)
  case (Cons x xs)
  then show ?case by (cases "f x"; cases "sequence_results (map f xs)") simp_all
qed simp

lemma sequence_results_Inr: "sequence_results rs = Inr as \<longleftrightarrow> rs = map Inr as"
  by (induction rs arbitrary: "as") auto

lemma insort_key_map: "insort_key f (g x) (map g xs) = map g (insort_key (\<lambda>y. f (g y)) x xs)"
  by (induction xs) simp_all

lemma sort_key_map: "sort_key f (map g xs) = map g (sort_key (\<lambda>x. f (g x)) xs)"
  by (induction xs) (simp_all add: insort_key_map)

lemma sort_members_map: "sort_members (map (\<lambda>m. (fst m, h m)) ms) = map (\<lambda>m. (fst m, h m)) (sort_members ms)"
  by (simp add: sort_members_def sort_key_map)

lemma set_sort_members [simp]: "set (sort_members ms) = set ms"
  by (simp add: sort_members_def)

text \<open>The writer prints the canonical value.\<close>

lemma write_value_canonical: "write_value E v = result_bind (canonical_of E v) (\<lambda>c. Inr (canonical_text c))"
proof (induction v)
  case (JBool b)
  then show ?case by (cases b) simp_all
next
  case (JArray items)
  then have eq: "map (write_value E) items = map (\<lambda>v. result_bind (canonical_of E v) (\<lambda>c. Inr (canonical_text c))) items"
    by simp
  show ?case unfolding write_value.simps canonical_of.simps eq by (simp add: sequence_results_map result_bind_assoc)
next
  case (JObject ms)
  let ?g = "\<lambda>m. write_string (fst m) @ [58] @ canonical_text (snd m)"
  have "result_bind (write_value E (snd m)) (\<lambda>t. Inr (write_string (fst m) @ [58] @ t))
      = result_bind (result_bind (canonical_of E (snd m)) (\<lambda>c. Inr (fst m, c))) (\<lambda>c. Inr (?g c))"
    if "m \<in> set ms" for m
    using JObject [of m "snd m"] that by (cases m) (auto simp: result_bind_assoc snds.simps)
  then have eq: "map (\<lambda>m. result_bind (write_value E (snd m)) (\<lambda>t. Inr (write_string (fst m) @ [58] @ t))) (sort_members ms)
      = map (\<lambda>m. result_bind (result_bind (canonical_of E (snd m)) (\<lambda>c. Inr (fst m, c))) (\<lambda>c. Inr (?g c))) (sort_members ms)"
    by simp
  show ?case
    unfolding write_value.simps canonical_of.simps sort_members_map map_map comp_def snd_conv eq
    unfolding sequence_results_map by (simp add: result_bind_assoc)
qed (simp_all add: result_bind_assoc)

section \<open>The text is injective\<close>

definition hex_value :: "nat \<Rightarrow> nat" where
  "hex_value c = (if c < 58 then c - 48 else c - 87)"

lemma hex_value_digit: "n < 16 \<Longrightarrow> hex_value (hex_digit n) = n"
  by (simp add: hex_value_def hex_digit_def)

definition unescape :: "rust_str \<Rightarrow> nat \<times> rust_str" where
  "unescape s =
     (if hd s \<noteq> 92 then (hd s, tl s)
      else (let k = s ! 1; r = drop 2 s in
        if k = 117 then (16 * hex_value (r ! 2) + hex_value (r ! 3), drop 4 r)
        else ((if k = 98 then 8 else if k = 116 then 9 else if k = 110 then 10
               else if k = 102 then 12 else if k = 114 then 13 else k), r)))"

lemma unescape_escape: "unescape (escape_char c @ x) = (c, x)"
proof (cases "c \<le> 31 \<and> c \<notin> {8, 9, 10, 12, 13}")
  case True
  then have "c div 16 < 16" by (simp add: less_mult_imp_div_less)
  then have "16 * hex_value (hex_digit (c div 16)) + hex_value (hex_digit (c mod 16)) = c"
    by (simp add: hex_value_digit)
  then show ?thesis using True by (simp add: escape_char_def unescape_def)
next
  case False
  then show ?thesis by (auto simp: escape_char_def unescape_def)
qed

lemma escape_char_inj: "escape_char c @ x = escape_char d @ y \<Longrightarrow> c = d \<and> x = y"
  by (metis unescape_escape prod.inject)

lemma escape_char_start: "escape_char c \<noteq> [] \<and> hd (escape_char c) \<noteq> 34"
  by (simp add: escape_char_def)

lemma write_string_inj:
  assumes "write_string s @ x = write_string t @ y"
  shows "s = t \<and> x = y"
proof -
  have "concat (map escape_char s) @ 34 # x = concat (map escape_char t) @ 34 # y \<Longrightarrow> s = t \<and> x = y"
  proof (induction s arbitrary: t)
    case Nil
    then show ?case using escape_char_start by (cases t) (auto, metis hd_append2 list.sel(1))
  next
    case (Cons c s)
    then obtain d u where t: "t = d # u"
      using escape_char_start [of c] by (cases t) (auto, metis hd_append2 list.sel(1))
    then show ?case using Cons escape_char_inj [of c "concat (map escape_char s) @ 34 # x" d] by auto
  qed
  then show ?thesis using assms by (simp add: write_string_def)
qed


definition at_end :: "rust_str \<Rightarrow> bool" where
  "at_end r \<longleftrightarrow> r = [] \<or> hd r \<in> {44, 93, 125}"

lemma at_end_Cons [simp]: "at_end (c # r) \<longleftrightarrow> c \<in> {44, 93, 125}"
  by (simp add: at_end_def)

definition token_char :: "nat \<Rightarrow> bool" where
  "token_char c \<longleftrightarrow> c = 43 \<or> c = 45 \<or> c = 46 \<or> c = 101 \<or> (48 \<le> c \<and> c \<le> 57)"

definition number_token :: "rust_str \<Rightarrow> bool" where
  "number_token t \<longleftrightarrow> t \<noteq> [] \<and> list_all token_char t"

fun canonical_wf :: "canonical \<Rightarrow> bool" where
  "canonical_wf (CNumber t) = number_token t"
| "canonical_wf (CArray cs) = list_all canonical_wf cs"
| "canonical_wf (CObject ms) = list_all (\<lambda>m. canonical_wf (snd m)) ms"
| "canonical_wf _ = True"

fun lead :: "canonical \<Rightarrow> nat" where
  "lead CNull = 110"
| "lead (CBool b) = (if b then 116 else 102)"
| "lead (CNumber t) = hd t"
| "lead (CString t) = 34"
| "lead (CArray cs) = 91"
| "lead (CObject ms) = 123"

lemma canonical_text_lead: "canonical_wf c \<Longrightarrow> \<exists>r. canonical_text c = lead c # r"
  by (cases c) (auto simp: lit_def write_string_def number_token_def neq_Nil_conv)

lemma canonical_lead: "canonical_wf c \<Longrightarrow> lead c \<in> {110, 116, 102, 34, 91, 123} \<or> token_char (lead c)"
  by (cases c) (auto simp: number_token_def neq_Nil_conv)

lemma number_token_split:
  assumes "number_token s" "number_token t" "s @ x = t @ y" "at_end x" "at_end y"
  shows "s = t \<and> x = y"
proof -
  have tok: "takeWhile token_char (s @ x) = s" if "number_token s" "at_end x" for s x
  proof -
    have "takeWhile token_char x = []" using that(2) by (cases x) (auto simp: token_char_def)
    then show ?thesis using that(1) by (simp add: number_token_def list_all_iff takeWhile_append2)
  qed
  then have "s = t" using assms by metis
  then show ?thesis using assms(3) by simp
qed

lemma join_comma_Cons: "join_comma (x # xs) = x @ concat (map (\<lambda>y. 44 # y) xs)"
  by (induction xs arbitrary: x) simp_all

lemma items_inj:
  assumes item: "\<And>a b x y. a \<in> set as \<Longrightarrow> b \<in> set bs \<Longrightarrow> p a @ x = p b @ y \<Longrightarrow> at_end x \<Longrightarrow> at_end y \<Longrightarrow> a = b \<and> x = y"
    and close: "close \<in> {93, 125}"
    and eq: "concat (map (\<lambda>a. 44 # p a) as) @ close # x = concat (map (\<lambda>a. 44 # p a) bs) @ close # y"
  shows "as = bs \<and> x = y"
  using item eq
proof (induction "as" arbitrary: bs)
  case Nil
  then show ?case using close by (cases bs) auto
next
  case (Cons a as')
  then obtain b bs' where bs: "bs = b # bs'" using close by (cases bs) auto
  have e: "at_end (concat (map (\<lambda>a. 44 # p a) cs) @ close # z)" for cs z
    using close by (cases cs) auto
  have ab: "a = b \<and> concat (map (\<lambda>a. 44 # p a) as') @ close # x = concat (map (\<lambda>a. 44 # p a) bs') @ close # y"
    using Cons.prems(1) [of a b] Cons.prems(2) e bs by simp
  then have "as' = bs' \<and> x = y" using Cons.prems(1) bs by (intro Cons.IH) auto
  then show ?case using ab bs by simp
qed

lemma join_inj:
  assumes item: "\<And>a b x y. a \<in> set as \<Longrightarrow> b \<in> set bs \<Longrightarrow> p a @ x = p b @ y \<Longrightarrow> at_end x \<Longrightarrow> at_end y \<Longrightarrow> a = b \<and> x = y"
    and start: "\<And>a. a \<in> set as \<union> set bs \<Longrightarrow> \<not> at_end (p a)"
    and close: "close \<in> {93, 125}"
    and eq: "join_comma (map p as) @ close # x = join_comma (map p bs) @ close # y"
  shows "as = bs \<and> x = y"
proof -
  have first: "p a @ z \<noteq> close # w" if "a \<in> set as \<union> set bs" for a z w
    using start [OF that] close by (cases "p a") (auto simp: at_end_def)
  show ?thesis
  proof (cases "as")
    case Nil
    then show ?thesis
      using eq first by (cases bs) (auto simp: join_comma_Cons dest: sym)
  next
    case (Cons a as')
    then obtain b bs' where bs: "bs = b # bs'"
      using eq first by (cases bs) (auto simp: join_comma_Cons)
    have e: "at_end (concat (map (\<lambda>a. 44 # p a) cs) @ close # z)" for cs z
      using close by (cases cs) auto
    have "a = b \<and> concat (map (\<lambda>a. 44 # p a) as') @ close # x = concat (map (\<lambda>a. 44 # p a) bs') @ close # y"
      using item [of a b] eq e Cons bs by (simp add: join_comma_Cons comp_def)
    moreover from this have "as' = bs' \<and> x = y"
      using item close Cons bs by (intro items_inj [of as' bs' p close x y]) auto
    ultimately show ?thesis using Cons bs by simp
  qed
qed

lemma canonical_not_at_end: "canonical_wf c \<Longrightarrow> \<not> at_end (canonical_text c)"
  using canonical_text_lead [of c] canonical_lead [of c] by (auto simp: at_end_def token_char_def)

lemma lead_eq:
  assumes "canonical_wf c" "canonical_wf d" "canonical_text c @ x = canonical_text d @ y"
  shows "lead d = lead c"
proof -
  obtain r r' where "canonical_text c = lead c # r" "canonical_text d = lead d # r'"
    using assms canonical_text_lead by blast
  then show ?thesis using assms(3) by simp
qed

lemma canonical_text_inj:
  assumes "canonical_wf c" "canonical_wf d" "canonical_text c @ x = canonical_text d @ y" "at_end x" "at_end y"
  shows "c = d \<and> x = y"
  using assms
proof (induction c arbitrary: d x y)
  case (CArray as)
  have "lead d = 91" using lead_eq [OF CArray.prems(1-3)] by simp
  then obtain bs where d: "d = CArray bs"
    using CArray.prems(2) by (cases d) (auto simp: number_token_def neq_Nil_conv token_char_def split: if_splits)
  have "as = bs \<and> x = y"
    using CArray.prems CArray.IH d canonical_not_at_end
    by (intro join_inj [of as bs canonical_text 93]) (auto simp: list_all_iff)
  then show ?case using d by simp
next
  case (CObject as)
  have "lead d = 123" using lead_eq [OF CObject.prems(1-3)] by simp
  then obtain bs where d: "d = CObject bs"
    using CObject.prems(2) by (cases d) (auto simp: number_token_def neq_Nil_conv token_char_def split: if_splits)
  let ?p = "\<lambda>m. write_string (fst m) @ [58] @ canonical_text (snd m)"
  have "as = bs \<and> x = y"
  proof (rule join_inj [of as bs ?p 125])
    fix a b z w
    assume ab: "a \<in> set as" "b \<in> set bs" "?p a @ z = ?p b @ w" "at_end z" "at_end w"
    have "fst a = fst b \<and> [58] @ canonical_text (snd a) @ z = [58] @ canonical_text (snd b) @ w"
      by (rule write_string_inj) (use ab(3) in simp)
    then have "fst a = fst b" "canonical_text (snd a) @ z = canonical_text (snd b) @ w" by simp_all
    moreover have "canonical_wf (snd a)" "canonical_wf (snd b)"
      using ab CObject.prems(1,2) d by (auto simp: list_all_iff)
    moreover have "snd a \<in> Basic_BNFs.snds a" by (simp add: snds.simps prod_eq_iff)
    ultimately have "snd a = snd b \<and> z = w" using CObject.IH [OF ab(1)] ab(4,5) by blast
    then show "a = b \<and> z = w" using \<open>fst a = fst b\<close> by (simp add: prod_eq_iff)
  qed (use CObject.prems(3) d in \<open>auto simp: at_end_def write_string_def\<close>)
  then show ?case using d by simp
next
  case (CNumber s)
  have "lead d = hd s" using lead_eq [OF CNumber.prems(1-3)] by simp
  then have "token_char (lead d)" using CNumber.prems(1) by (cases s) (auto simp: number_token_def)
  then obtain t where d: "d = CNumber t" by (cases d) (auto simp: token_char_def split: if_splits)
  have "s = t \<and> x = y"
    by (rule number_token_split) (use CNumber.prems d in simp_all)
  then show ?case using d by simp
next
  case (CString s)
  have "lead d = 34" using lead_eq [OF CString.prems(1-3)] by simp
  then obtain t where d: "d = CString t"
    using CString.prems(2) by (cases d) (auto simp: number_token_def neq_Nil_conv token_char_def split: if_splits)
  have "s = t \<and> x = y"
    by (rule write_string_inj) (use CString.prems d in simp)
  then show ?case using d by simp
next
  case CNull
  have "lead d = 110" using lead_eq [OF CNull.prems(1-3)] by simp
  then have "d = CNull"
    using CNull.prems(2) by (cases d) (auto simp: number_token_def neq_Nil_conv token_char_def split: if_splits)
  then show ?case using CNull.prems by simp
next
  case (CBool b)
  have "lead d = (if b then 116 else 102)"
    using lead_eq [OF CBool.prems(1-3)] by simp
  then have "d = CBool b"
    using CBool.prems(2) by (cases d) (auto simp: number_token_def neq_Nil_conv token_char_def split: if_splits)
  then show ?case using CBool.prems by simp
qed


section \<open>Numbers are tokens\<close>

text \<open>
  What the layout relies on of \<open>ryu::Buffer::format_finite\<close>: the text starts with a digit and has only
  digits, dots, minus signs and an exponent mark.
\<close>

definition ryu_ok :: "jcs_env \<Rightarrow> bool" where
  "ryu_ok E \<longleftrightarrow> (\<forall>v. je_ryu E v \<noteq> [] \<and> 48 \<le> hd (je_ryu E v) \<and> hd (je_ryu E v) \<le> 57
     \<and> list_all (\<lambda>c. c = 45 \<or> c = 46 \<or> c = 101 \<or> (48 \<le> c \<and> c \<le> 57)) (je_ryu E v))"

lemma dec_token: "list_all token_char (dec n)" "dec n \<noteq> []"
proof (induction n rule: dec.induct)
  case (1 n)
  have d: "token_char (48 + m)" if "m < 10" for m using that by (simp add: token_char_def)
  show "list_all token_char (dec n)" "dec n \<noteq> []"
    unfolding dec.simps [of n] using 1 by (simp_all add: d)
qed

lemma trim_trailing_zeros_set: "set (trim_trailing_zeros v) \<subseteq> set v"
proof -
  let ?w = "rev (dropWhile (\<lambda>c. c = 48) (rev v))"
  have "set ?w \<subseteq> set v" by (auto dest: set_dropWhileD)
  moreover have "set (butlast ?w) \<subseteq> set ?w" by (meson in_set_butlastD subsetI)
  ultimately show ?thesis unfolding trim_trailing_zeros_def Let_def by (simp split: if_split) blast
qed

lemma split_once_set: "split_once c s = Some (a, b) \<Longrightarrow> s = a @ c # b"
  by (induction s arbitrary: a) (auto split: if_splits)

lemma dropWhile_stop: "\<not> P c \<Longrightarrow> dropWhile P (xs @ c # ys) = dropWhile P xs @ c # ys"
  by (induction xs) simp_all

lemma trim_trailing_zeros_keeps:
  assumes "p \<noteq> []"
  shows "trim_trailing_zeros (p @ 46 # v) \<noteq> []"
proof -
  have "rev (dropWhile (\<lambda>c. c = 48) (rev (p @ 46 # v))) = p @ 46 # rev (dropWhile (\<lambda>c. c = 48) (rev v))"
    by (simp add: dropWhile_stop)
  then show ?thesis using assms by (simp add: trim_trailing_zeros_def Let_def butlast_append)
qed


lemma trimmed_token:
  assumes "p \<noteq> []" "list_all token_char (p @ 46 # v)"
  shows "number_token (trim_trailing_zeros (p @ 46 # v))"
  using trim_trailing_zeros_keeps [OF assms(1)] trim_trailing_zeros_set [of "p @ 46 # v"] assms(2)
  unfolding number_token_def list_all_iff by blast

lemma scientific_token:
  assumes "mantissa \<noteq> []" "hd mantissa \<noteq> 46" "list_all token_char mantissa"
  shows "\<exists>t. scientific_from_ryu mantissa e = Some t \<and> number_token t"
proof -
  let ?d = "filter (\<lambda>c. c \<noteq> 46) mantissa"
  have d: "?d \<noteq> []" "list_all token_char ?d" "token_char (hd ?d)" "list_all token_char (tl ?d)"
    using assms by (cases mantissa; auto simp: list_all_iff)+
  have i: "list_all token_char (show_int n)" for n using dec_token by (simp add: show_int_def token_char_def)
  have z: "list_all token_char (replicate n 48)" for n by (simp add: list_all_iff token_char_def)
  have t: "list_all token_char (take n ?d)" "list_all token_char (drop n ?d)" for n
    using d(2) by (auto simp: list_all_iff dest: in_set_takeD in_set_dropD)
  have b: "list_all token_char (butlast w)" if "list_all token_char w" for w
    using that by (auto simp: list_all_iff dest: in_set_butlastD)
  have tr: "list_all token_char (trim_trailing_zeros ([hd ?d] @ [46] @ drop 1 ?d))"
    using trimmed_token [of "[hd ?d]" "drop 1 ?d"] d(3) t by (simp add: number_token_def token_char_def)
  have two: "number_token (trim_trailing_zeros (take (nat p) ?d @ [46] @ drop (nat p) ?d))" if "1 \<le> p" for p
    using trimmed_token [of "take (nat p) ?d" "drop (nat p) ?d"] t d(1) that by (simp add: token_char_def)
  have three: "number_token (trim_trailing_zeros ([48, 46] @ replicate n 48 @ ?d))" for n
    using trimmed_token [of "[48]" "replicate n 48 @ ?d"] z d(2) by (simp add: token_char_def)
  show ?thesis
    unfolding scientific_from_ryu_def Let_def
    using d(1,2,3) z i tr b two three by (auto simp: number_token_def token_char_def)
qed

lemma es_number_token:
  assumes "ryu_ok E"
  shows "\<exists>t. es_number_to_string E v = Some t \<and> number_token t"
proof -
  let ?a = "if f64_is_sign_negative v then f64_neg v else v"
  let ?p = "je_ryu E ?a"
  have p: "?p \<noteq> []" "48 \<le> hd ?p" "hd ?p \<le> 57" "list_all token_char ?p"
    using assms by (auto simp: ryu_ok_def list_all_iff token_char_def)
  have "\<exists>t. (case split_once 101 ?p of Some (m, e) \<Rightarrow> scientific_from_ryu m e
      | None \<Rightarrow> Some (decimal_from_ryu ?p)) = Some t \<and> number_token t"
  proof (cases "split_once 101 ?p")
    case None
    have "number_token (decimal_from_ryu ?p)"
    proof -
      have "\<not> (2 \<le> length ?p \<and> drop (length ?p - 2) ?p = [46, 48] \<and> take (length ?p - 2) ?p = [])"
      proof
        assume a: "2 \<le> length ?p \<and> drop (length ?p - 2) ?p = [46, 48] \<and> take (length ?p - 2) ?p = []"
        then have "?p = [46, 48]" by (metis append_Nil append_take_drop_id)
        then show False using p(2) by simp
      qed
      moreover have "list_all token_char (take k ?p)" for k
        using p(4) unfolding list_all_iff by (meson in_set_takeD)
      ultimately show ?thesis using p(1,4) unfolding decimal_from_ryu_def number_token_def by presburger
    qed
    then show ?thesis using None by simp
  next
    case (Some me)
    obtain m e where me: "me = (m, e)" by fastforce
    have s: "?p = m @ 101 # e" using split_once_set Some me by blast
    then have "m \<noteq> []" "hd m \<noteq> 46" "list_all token_char m" using p by (cases m; auto)+
    from scientific_token [OF this, of e] show ?thesis using Some me by simp
  qed
  then obtain t where t: "(case split_once 101 ?p of Some (m, e) \<Rightarrow> scientific_from_ryu m e
      | None \<Rightarrow> Some (decimal_from_ryu ?p)) = Some t" "number_token t" by blast
  show ?thesis
    unfolding es_number_to_string_def Let_def t(1) using t(2) by (auto simp: number_token_def token_char_def)
qed

lemma write_number_token:
  assumes "ryu_ok E" "write_number E n = Inr t"
  shows "number_token t"
proof -
  obtain v where "es_number_to_string E v = Some t"
    using assms(2) by (auto simp: write_number_def split: option.splits if_splits)
  then show ?thesis using es_number_token [OF assms(1), of v] by simp
qed

lemma sequence_results_set:
  "sequence_results (map f xs) = Inr as \<Longrightarrow> a \<in> set as \<Longrightarrow> \<exists>x \<in> set xs. f x = Inr a"
  by (induction xs arbitrary: "as") auto

lemma canonical_of_wf: "ryu_ok E \<Longrightarrow> canonical_of E v = Inr c \<Longrightarrow> canonical_wf c"
proof (induction v arbitrary: c)
  case (JNumber n)
  then show ?case using write_number_token by auto
next
  case (JArray items)
  then obtain cs where cs: "sequence_results (map (canonical_of E) items) = Inr cs" "c = CArray cs" by auto
  then show ?case using sequence_results_set [OF cs(1)] JArray by (fastforce simp: list_all_iff)
next
  case (JObject ms)
  let ?f = "\<lambda>m. result_bind (canonical_of E (snd m)) (\<lambda>c. Inr (fst m, c))"
  obtain cs where cs: "sequence_results (map ?f (sort_members ms)) = Inr cs" "c = CObject cs"
    using JObject.prems(2) by (auto simp: sort_members_map comp_def)
  have "canonical_wf (snd a)" if a: "a \<in> set cs" for a
  proof -
    obtain m where m: "m \<in> set ms" "?f m = Inr a" using sequence_results_set [OF cs(1) a] by auto
    then have "canonical_of E (snd m) = Inr (snd a)" by auto
    then show ?thesis using JObject.IH [of m "snd m"] JObject.prems(1) m(1) by (auto simp: snds.simps prod_eq_iff)
  qed
  then show ?case using cs(2) by (simp add: list_all_iff)
qed auto

lemma canonical_texts_agree:
  assumes "ryu_ok E" "jcs_serialize E v = Inr t"
  shows "jcs_serialize E w = Inr t \<longleftrightarrow> canonical_of E w = canonical_of E v"
proof -
  obtain c where c: "canonical_of E v = Inr c" "t = canonical_text c"
    using assms(2) by (auto simp: jcs_serialize_def write_value_canonical)
  have "d = c" if "canonical_of E w = Inr d" "canonical_text d = t" for d
    using canonical_text_inj [of d c "[]" "[]"] canonical_of_wf [OF assms(1)] that c by (simp add: at_end_def)
  then show ?thesis using c by (auto simp: jcs_serialize_def write_value_canonical)
qed

section \<open>The order of keys\<close>

definition scalar :: "nat \<Rightarrow> bool" where
  "scalar c \<longleftrightarrow> c < 55296 \<or> (57344 \<le> c \<and> c < 1114112)"

lemma utf16_char_inj:
  assumes "scalar c" "scalar d" "utf16_char c @ x = utf16_char d @ y"
  shows "c = d \<and> x = y"
proof (cases "c < 65536 \<or> d < 65536")
  case True
  have "55296 + n div 1024 \<le> 56319" if "n < 1048576" for n :: nat using that by auto
  then show ?thesis using assms True by (auto simp: utf16_char_def scalar_def split: if_splits)
next
  case False
  then have "(c - 65536) div 1024 = (d - 65536) div 1024" "(c - 65536) mod 1024 = (d - 65536) mod 1024" "x = y"
    using assms(3) by (simp_all add: utf16_char_def)
  then have "c - 65536 = d - 65536" by (metis div_mult_mod_eq)
  then have "c = d" using False by linarith
  then show ?thesis using \<open>x = y\<close> by blast
qed

lemma encode_utf16_inj:
  "\<forall>c \<in> set s. scalar c \<Longrightarrow> \<forall>c \<in> set t. scalar c \<Longrightarrow> encode_utf16 s = encode_utf16 t \<Longrightarrow> s = t"
proof (induction s arbitrary: t)
  case Nil
  then show ?case by (cases t) (auto simp: encode_utf16_def utf16_char_def split: if_splits)
next
  case (Cons c s)
  then obtain d u where t: "t = d # u" by (cases t) (auto simp: encode_utf16_def utf16_char_def split: if_splits)
  have "c = d \<and> encode_utf16 s = encode_utf16 u"
    by (rule utf16_char_inj) (use Cons.prems t in \<open>simp_all add: encode_utf16_def\<close>)
  then show ?case using Cons.IH [of u] Cons.prems t by simp
qed

lemma sort_members_perm:
  assumes "mset ms = mset ns" "distinct (map fst ms)" "\<forall>m \<in> set ms. \<forall>c \<in> set (fst m). scalar c"
  shows "sort_members ms = sort_members ns"
proof -
  have "inj_on (\<lambda>m. encode_utf16 (fst m)) (set ms)"
  proof (rule inj_onI)
    fix m n assume mn: "m \<in> set ms" "n \<in> set ms" "encode_utf16 (fst m) = encode_utf16 (fst n)"
    then have "fst m = fst n" using encode_utf16_inj assms(3) by blast
    then show "m = n" using assms(2) mn(1,2) by (auto simp: distinct_map inj_on_def)
  qed
  moreover have "mset ms = mset (sort_key (\<lambda>m. encode_utf16 (fst m)) ns)" using assms(1) by simp
  ultimately show ?thesis unfolding sort_members_def by (intro sort_key_inj_key_eq) simp_all
qed

lemma object_order_irrelevant:
  assumes "mset ms = mset ns" "distinct (map fst ms)" "\<forall>m \<in> set ms. \<forall>c \<in> set (fst m). scalar c"
  shows "jcs_serialize E (JObject ms) = jcs_serialize E (JObject ns)"
  using sort_members_perm [OF assms] by (simp add: jcs_serialize_def sort_members_map)

end
