(* ===== verification/Host_Policy.thy ===== *)
theory Host_Policy
  imports Effect_Intent Json_Canonical
begin

text \<open>
  From a tool call to what it would do: \<^verbatim>\<open>crates/agent-contracts/src/host_policy.rs\<close> (the host's binding of
  tool arguments to effects, and the one derivation of an effect intent every consumer uses) with the shell
  digest and the spawn check of \<^verbatim>\<open>tool.rs\<close>. \<open>HostToolPolicies\<close> is an interface of the source; it is the
  record \<open>host_tool_policies\<close> of its three methods. SHA-256 is a parameter (\<open>digest_env\<close>).
\<close>

section \<open>Calls, specifications, digests\<close>

datatype tool_semantic_role = ReadResource | Search | InspectDiff | Verify | Mutate | EscapeHatch

record tool_spec =
  ts_name :: rust_str
  ts_description :: rust_str
  ts_input_schema :: json
  ts_risk :: tool_risk
  ts_output_budget :: "nat option"
  ts_roles :: "tool_semantic_role list"

record tool_call =
  tc_id :: rust_str
  tc_name :: rust_str
  tc_arguments :: json

record digest_env =
  de_jcs :: jcs_env
  de_sha256 :: "byte list \<Rightarrow> digest"

text \<open>\<open>ArgumentDigest::from_json\<close>; \<open>None\<close> is the panic of its \<open>expect\<close>.\<close>

definition digest_from_json :: "digest_env \<Rightarrow> json \<Rightarrow> digest option" where
  "digest_from_json D value =
     (case jcs_serialize (de_jcs D) value of
        Inr canonical \<Rightarrow> Some (de_sha256 D (utf8_bytes canonical))
      | Inl _ \<Rightarrow> None)"

text \<open>
  The value here is an object with one string member, which always serialises (\<open>command_digest_exists\<close>
  below), so the second branch stands for the unreachable panic.
\<close>

definition shell_command_digest :: "digest_env \<Rightarrow> rust_str \<Rightarrow> rust_str" where
  "shell_command_digest D command =
     (let command = trim command in
      if command = [] then []
      else (case digest_from_json D (JObject [(lit ''command'', JString command)]) of
              Some d \<Rightarrow> digest_to_string d | None \<Rightarrow> []))"

definition shell_exec_intent :: "digest_env \<Rightarrow> rust_str \<Rightarrow> rust_str \<Rightarrow> effect_intent" where
  "shell_exec_intent D dialect command = IntentShellExec (trim dialect) (shell_command_digest D command)"

section \<open>Policies\<close>

record host_exec_recipe =
  hr_id :: rust_str
  hr_argv :: "rust_str list"

datatype host_effect_binding =
    BindReadOnly
  | BindWorkspaceWrite rust_str "rust_str list"
  | BindExecArgv rust_str
  | BindExecRecipe rust_str "host_exec_recipe list"
  | BindShellExec rust_str rust_str
  | BindSessionExec rust_str rust_str

record host_tool_policy =
  hp_tool_name :: rust_str
  hp_binding :: host_effect_binding

record host_tool_policies =
  ps_policy_for :: "rust_str \<Rightarrow> host_tool_policy option"
  ps_policy_revision :: "nat option"
  ps_binding_epoch :: "rust_str \<Rightarrow> nat option"

section \<open>Arguments\<close>

fun json_get :: "json \<Rightarrow> rust_str \<Rightarrow> json option" where
  "json_get (JObject ms) key = map_of ms key"
| "json_get _ key = None"

fun as_str :: "json \<Rightarrow> rust_str option" where
  "as_str (JString s) = Some s"
| "as_str _ = None"

fun as_array :: "json \<Rightarrow> json list option" where
  "as_array (JArray items) = Some items"
| "as_array _ = None"

definition get_str :: "json \<Rightarrow> rust_str \<Rightarrow> rust_str option" where
  "get_str v key = Option.bind (json_get v key) as_str"

definition get_array :: "json \<Rightarrow> rust_str \<Rightarrow> json list option" where
  "get_array v key = Option.bind (json_get v key) as_array"

definition string_arg :: "json \<Rightarrow> rust_str \<Rightarrow> rust_str" where
  "string_arg arguments key = (case get_str arguments key of Some v \<Rightarrow> trim v | None \<Rightarrow> [])"

fun collect_tokens :: "json list \<Rightarrow> rust_str list option" where
  "collect_tokens [] = Some []"
| "collect_tokens (item # items) =
     (case as_str item of
        None \<Rightarrow> None
      | Some token \<Rightarrow> if token = [] then None else map_option (\<lambda>ts. token # ts) (collect_tokens items))"

definition string_list :: "json \<Rightarrow> rust_str \<Rightarrow> rust_str list" where
  "string_list arguments key =
     (case get_array arguments key of
        None \<Rightarrow> []
      | Some items \<Rightarrow> (case collect_tokens items of Some out \<Rightarrow> out | None \<Rightarrow> []))"

section \<open>The intent of a write\<close>

definition patch_hunk_bytes :: "json \<Rightarrow> nat" where
  "patch_hunk_bytes hunks =
     (case as_array hunks of
        None \<Rightarrow> 0
      | Some items \<Rightarrow> foldl (\<lambda>total hunk. saturating_add_u64 total
            (case get_str hunk (lit ''new'') of Some text \<Rightarrow> str_len text | None \<Rightarrow> 0)) 0 items)"

definition patch_file_bytes :: "json \<Rightarrow> nat" where
  "patch_file_bytes f = (case json_get f (lit ''hunks'') of Some hunks \<Rightarrow> patch_hunk_bytes hunks | None \<Rightarrow> 0)"

fun add_write :: "rust_str \<Rightarrow> nat \<Rightarrow> workspace_write_bound list \<Rightarrow> workspace_write_bound list" where
  "add_write path bytes [] = [\<lparr>wb_path = path, wb_max_bytes = bytes\<rparr>]"
| "add_write path bytes (b # bs) =
     (if wb_path b = path then b\<lparr>wb_max_bytes := saturating_add_u64 (wb_max_bytes b) bytes\<rparr> # bs
      else b # add_write path bytes bs)"

text \<open>
  One turn of the loop over \<open>files\<close>: the targets so far and the byte count so far. An entry whose path is
  blank is skipped with its bytes; one that has no path still counts its bytes.
\<close>

definition collect_file ::
  "workspace_write_bound list \<times> nat \<Rightarrow> json \<Rightarrow> workspace_write_bound list \<times> nat" where
  "collect_file acc f =
     (case acc of (writes, content_bytes) \<Rightarrow>
        (case get_str f (lit ''path'') of
           Some p \<Rightarrow>
             (let path = trim p in
              if path = [] then (writes, content_bytes)
              else (add_write path (patch_file_bytes f) writes,
                    saturating_add_u64 content_bytes (patch_file_bytes f)))
         | None \<Rightarrow> (writes, saturating_add_u64 content_bytes (patch_file_bytes f))))"

definition content_arg_bytes :: "json \<Rightarrow> rust_str list \<Rightarrow> nat" where
  "content_arg_bytes arguments content_args =
     foldl (\<lambda>total key. case get_str arguments key of
        Some content \<Rightarrow> saturating_add_u64 total (str_len content) | None \<Rightarrow> total) 0 content_args"

definition workspace_write_intent :: "json \<Rightarrow> rust_str \<Rightarrow> rust_str list \<Rightarrow> effect_intent" where
  "workspace_write_intent arguments path_arg content_args =
     (let path = string_arg arguments path_arg;
          content_bytes = content_arg_bytes arguments content_args
      in case get_array arguments (lit ''files'') of
           Some files \<Rightarrow>
             (case foldl collect_file ([], content_bytes) files of (all_writes, total_bytes) \<Rightarrow>
                (case take MAX_WORKSPACE_WRITE_SET all_writes of
                   [] \<Rightarrow> IntentWorkspaceWrite path total_bytes
                 | [b] \<Rightarrow> IntentWorkspaceWrite (wb_path b) total_bytes
                 | writes \<Rightarrow> IntentWorkspaceWriteSet writes))
         | None \<Rightarrow>
             IntentWorkspaceWrite path
               (case json_get arguments (lit ''hunks'') of
                  Some hunks \<Rightarrow> saturating_add_u64 content_bytes (patch_hunk_bytes hunks)
                | None \<Rightarrow> content_bytes))"

section \<open>The intent of a call\<close>

definition recipe_argv :: "host_exec_recipe list \<Rightarrow> rust_str \<Rightarrow> rust_str list" where
  "recipe_argv recipes recipe_id = (case find (\<lambda>r. hr_id r = recipe_id) recipes of
     Some r \<Rightarrow> hr_argv r | None \<Rightarrow> [])"

fun intent_from :: "digest_env \<Rightarrow> host_effect_binding \<Rightarrow> json \<Rightarrow> effect_intent" where
  "intent_from D BindReadOnly arguments = IntentReadOnly"
| "intent_from D (BindWorkspaceWrite path_arg content_args) arguments =
     workspace_write_intent arguments path_arg content_args"
| "intent_from D (BindExecArgv argv_arg) arguments = exec_argv_intent (string_list arguments argv_arg)"
| "intent_from D (BindExecRecipe recipe_arg recipes) arguments =
     exec_argv_intent (recipe_argv recipes (string_arg arguments recipe_arg))"
| "intent_from D (BindShellExec command_arg dialect_arg) arguments =
     shell_exec_intent D (string_arg arguments dialect_arg) (string_arg arguments command_arg)"
| "intent_from D (BindSessionExec argv_arg action_arg) arguments =
     (let action = string_arg arguments action_arg in
      if action = lit ''poll'' \<or> action = lit ''stop'' then IntentReadOnly
      else if action = lit ''start'' then exec_argv_intent (string_list arguments argv_arg)
      else exec_argv_intent [])"

definition unbound_effect_intent :: "tool_spec \<Rightarrow> effect_intent" where
  "unbound_effect_intent spec = (case ts_risk spec of
     RiskReadOnly \<Rightarrow> IntentReadOnly
   | RiskWorkspaceWrite \<Rightarrow> IntentWorkspaceWrite [] 0
   | RiskProcessExecution \<Rightarrow> exec_argv_intent [])"

definition effect_intent_of ::
  "digest_env \<Rightarrow> host_tool_policies \<Rightarrow> tool_call \<Rightarrow> tool_spec \<Rightarrow> effect_intent" where
  "effect_intent_of D policies call spec =
     (case ps_policy_for policies (tc_name call) of
        Some policy \<Rightarrow> intent_from D (hp_binding policy) (tc_arguments call)
      | None \<Rightarrow> (case ts_risk spec of
            RiskReadOnly \<Rightarrow> IntentReadOnly
          | RiskWorkspaceWrite \<Rightarrow> IntentWorkspaceWrite [] 0
          | RiskProcessExecution \<Rightarrow> exec_argv_intent []))"

definition process_spawn_is_covered ::
  "digest_env \<Rightarrow> host_tool_policies \<Rightarrow> rust_str \<Rightarrow> json \<Rightarrow> effect_intent \<Rightarrow> bool" where
  "process_spawn_is_covered D policies tool_name arguments actual =
     (let spec = \<lparr>ts_name = tool_name, ts_description = [],
            ts_input_schema = JObject [(lit ''type'', JString (lit ''object''))],
            ts_risk = RiskProcessExecution, ts_output_budget = None, ts_roles = []\<rparr>
      in intent_covers (effect_intent_of D policies
           \<lparr>tc_id = [], tc_name = tool_name, tc_arguments = arguments\<rparr> spec) actual)"

section \<open>Policy snapshots\<close>

definition json_strings :: "rust_str list \<Rightarrow> json" where
  "json_strings ss = JArray (map JString ss)"

definition recipe_value :: "host_exec_recipe \<Rightarrow> json" where
  "recipe_value r = JObject [(lit ''id'', JString (hr_id r)), (lit ''argv'', json_strings (hr_argv r))]"

fun binding_value :: "host_effect_binding \<Rightarrow> json" where
  "binding_value BindReadOnly = JString (lit ''ReadOnly'')"
| "binding_value (BindWorkspaceWrite path_arg content_args) =
     JObject [(lit ''WorkspaceWrite'', JObject [(lit ''path_arg'', JString path_arg),
        (lit ''content_args'', json_strings content_args)])]"
| "binding_value (BindExecArgv argv_arg) =
     JObject [(lit ''ExecArgv'', JObject [(lit ''argv_arg'', JString argv_arg)])]"
| "binding_value (BindExecRecipe recipe_arg recipes) =
     JObject [(lit ''ExecRecipe'', JObject [(lit ''recipe_arg'', JString recipe_arg),
        (lit ''recipes'', JArray (map recipe_value recipes))])]"
| "binding_value (BindShellExec command_arg dialect_arg) =
     JObject [(lit ''ShellExec'', JObject [(lit ''command_arg'', JString command_arg),
        (lit ''dialect_arg'', JString dialect_arg)])]"
| "binding_value (BindSessionExec argv_arg action_arg) =
     JObject [(lit ''SessionExec'', JObject [(lit ''argv_arg'', JString argv_arg),
        (lit ''action_arg'', JString action_arg)])]"

definition policy_value :: "host_tool_policy \<Rightarrow> json" where
  "policy_value p = JObject [(lit ''tool_name'', JString (hp_tool_name p)),
     (lit ''binding'', binding_value (hp_binding p))]"

definition fnv1a_64 :: "byte list \<Rightarrow> 64 word" where
  "fnv1a_64 bytes = foldl (\<lambda>hash b. (hash XOR ucast b) * 0x100000001b3) 0xcbf29ce484222325 bytes"

definition hex16 :: "64 word \<Rightarrow> rust_str" where
  "hex16 w = map (\<lambda>i. hex_digit (unat (drop_bit (4 * (15 - i)) w AND 15))) [0..<16]"

record host_policy_snapshot =
  sn_entries :: "host_tool_policy list"
  sn_revision :: nat
  sn_digest :: rust_str

definition str_order :: "rust_str \<Rightarrow> nat list" where
  "str_order s = map unat (utf8_bytes s)"

definition snapshot_resolve :: "jcs_env \<Rightarrow> host_tool_policy list \<Rightarrow> nat \<Rightarrow> host_policy_snapshot" where
  "snapshot_resolve E entries revision =
     (let sorted = sort_key (\<lambda>p. str_order (hp_tool_name p)) entries;
          canonical = (case jcs_serialize E (JArray (map policy_value sorted)) of Inr t \<Rightarrow> t | Inl _ \<Rightarrow> [])
      in \<lparr>sn_entries = sorted, sn_revision = revision,
          sn_digest = lit ''fnv1a-'' @ hex16 (fnv1a_64 (utf8_bytes canonical))\<rparr>)"

definition snapshot_policies :: "host_policy_snapshot \<Rightarrow> host_tool_policies" where
  "snapshot_policies s = \<lparr>ps_policy_for = (\<lambda>tool_name. find (\<lambda>p. hp_tool_name p = tool_name) (sn_entries s)),
     ps_policy_revision = Some (sn_revision s), ps_binding_epoch = (\<lambda>_. None)\<rparr>"


section \<open>Lemmas\<close>

lemma command_digest_exists: "\<exists>d. digest_from_json D (JObject [(k, JString c)]) = Some d"
  by (simp add: digest_from_json_def jcs_serialize_def sort_members_def)

lemma empty_bounds_cover_nothing:
  "\<not> intent_covers (IntentWorkspaceWrite [] n) actual" "\<not> intent_covers (exec_argv_intent []) actual"
  by (cases actual; simp add: canonical_workspace_relative_path_def)+

text \<open>The targets of the entries of \<open>files\<close>.\<close>

definition file_target :: "json \<Rightarrow> rust_str option" where
  "file_target f = (case get_str f (lit ''path'') of
     Some p \<Rightarrow> if trim p = [] then None else Some (trim p) | None \<Rightarrow> None)"

lemma add_write_paths: "wb_path ` set (add_write p n ws) = insert p (wb_path ` set ws)"
  by (induction ws) auto

lemma add_write_distinct: "distinct (map wb_path ws) \<Longrightarrow> distinct (map wb_path (add_write p n ws))"
proof (induction ws)
  case (Cons w ws)
  have "wb_path ` set (add_write p n ws) = insert p (wb_path ` set ws)" by (rule add_write_paths)
  then show ?case using Cons by auto
qed simp

lemma collect_file_paths:
  "wb_path ` set (fst (collect_file acc f)) = wb_path ` set (fst acc) \<union> set_option (file_target f)"
  by (cases acc) (auto simp: collect_file_def file_target_def Let_def add_write_paths split: option.splits)

lemma collect_files_paths:
  "wb_path ` set (fst (foldl collect_file acc files)) = wb_path ` set (fst acc) \<union> (\<Union>f \<in> set files. set_option (file_target f))"
  by (induction files arbitrary: acc) (auto simp: collect_file_paths)

lemma collect_files_distinct:
  "distinct (map wb_path (fst acc)) \<Longrightarrow> distinct (map wb_path (fst (foldl collect_file acc files)))"
proof (induction files arbitrary: acc)
  case (Cons f files)
  have "distinct (map wb_path (fst (collect_file acc f)))"
    using Cons.prems by (cases acc)
      (auto simp: collect_file_def Let_def intro: add_write_distinct split: option.splits)
  then show ?case using Cons.IH by simp
qed simp

fun intent_paths :: "effect_intent \<Rightarrow> rust_str set" where
  "intent_paths (IntentWorkspaceWrite p _) = {p}"
| "intent_paths (IntentWorkspaceWriteSet ws) = wb_path ` set ws"
| "intent_paths _ = {}"

lemma write_intent_paths:
  assumes "get_array arguments (lit ''files'') = Some files"
    "card (\<Union>f \<in> set files. set_option (file_target f)) \<le> MAX_WORKSPACE_WRITE_SET"
    "(\<Union>f \<in> set files. set_option (file_target f)) \<noteq> {}"
  shows "intent_paths (workspace_write_intent arguments path_arg content_args)
       = (\<Union>f \<in> set files. set_option (file_target f))"
proof -
  obtain ws t where ws: "foldl collect_file ([], content_arg_bytes arguments content_args) files = (ws, t)" by fastforce
  have p: "wb_path ` set ws = (\<Union>f \<in> set files. set_option (file_target f))"
    using collect_files_paths [of "([], content_arg_bytes arguments content_args)" files] ws by simp
  have "distinct (map wb_path ws)"
    using collect_files_distinct [of "([], content_arg_bytes arguments content_args)" files] ws by simp
  then have "length ws = card (wb_path ` set ws)" by (metis distinct_card length_map list.set_map)
  then have tk: "take MAX_WORKSPACE_WRITE_SET ws = ws" using assms(2) p by simp
  have "ws \<noteq> []" using p assms(3) by auto
  then have "intent_paths (workspace_write_intent arguments path_arg content_args) = wb_path ` set ws"
    using assms(1) ws tk by (auto simp: workspace_write_intent_def Let_def split: list.splits)
  then show ?thesis using p by simp
qed

end
