(* ===== verification/Approval_Gate.thy ===== *)
theory Approval_Gate
  imports Host_Policy
begin

text \<open>
  Who decides a tool call: \<^verbatim>\<open>crates/agent-core/src/approval.rs\<close> and the types of
  \<^verbatim>\<open>crates/agent-contracts/src/approval.rs\<close>. \<open>PolicyApprovalGate\<close> decides by risk class;
  \<open>TaskApprovalGate\<close> puts a book of standing grants over another gate. The trait \<open>ApprovalGate\<close> is the locale
  \<open>approval_gate\<close>; both gates are instances. The book is a \<open>HashMap\<close>, here an association list in any order;
  the clock is read once per call and is an argument (\<open>now\<close>). \<open>runs_used\<close> is a \<open>u32\<close>. The explanatory text
  of a shadow verdict is not kept.
\<close>

section \<open>Types\<close>

datatype approval_denial_reason = GrantExhausted rust_str "32 word" "32 word"

record approval_outcome =
  ao_decision :: approval_decision
  ao_denial :: "approval_denial_reason option"

record grant_target =
  gt_workspace_path_prefix :: "rust_str option"
  gt_exec_argv_prefix :: "rust_str list option"
  gt_shell_command_digest :: "rust_str option"

record grant_constraint =
  gc_max_content_bytes :: "nat option"
  gc_max_runs :: "32 word option"

record standing_grant =
  sg_id :: rust_str
  sg_risk :: tool_risk
  sg_target :: grant_target
  sg_constraint :: grant_constraint
  sg_expires_at_ms :: nat

datatype shadow_verdict = Granted rust_str | Denied

definition decided :: "approval_decision \<Rightarrow> approval_outcome" where
  "decided d = \<lparr>ao_decision = d, ao_denial = None\<rparr>"

section \<open>The policy gate\<close>

record policy_approval_gate =
  pg_allow_workspace_write :: bool
  pg_allow_process_execution :: bool

definition policy_read_only :: policy_approval_gate where
  "policy_read_only = \<lparr>pg_allow_workspace_write = False, pg_allow_process_execution = False\<rparr>"

definition policy_permissive :: policy_approval_gate where
  "policy_permissive = \<lparr>pg_allow_workspace_write = True, pg_allow_process_execution = True\<rparr>"

definition policy_authorize ::
  "policy_approval_gate \<Rightarrow> tool_call \<Rightarrow> tool_spec \<Rightarrow> policy_approval_gate \<times> approval_decision agent_result" where
  "policy_authorize g call spec =
     (let allowed = (case ts_risk spec of
           RiskReadOnly \<Rightarrow> True
         | RiskWorkspaceWrite \<Rightarrow> pg_allow_workspace_write g
         | RiskProcessExecution \<Rightarrow> pg_allow_process_execution g)
      in (g, Inr (if allowed then Allow else Deny)))"

section \<open>Paths of a grant\<close>

definition relative_components :: "rust_str \<Rightarrow> rust_str list option" where
  "relative_components path =
     (if path \<noteq> [] \<and> hd path = 47 then None else collect_normal (path_components path))"

definition path_within_prefix :: "rust_str \<Rightarrow> rust_str \<Rightarrow> bool" where
  "path_within_prefix path prefix =
     (case (relative_components path, relative_components prefix) of
        (Some path_parts, Some prefix_parts) \<Rightarrow>
          length prefix_parts \<le> length path_parts \<and> take (length prefix_parts) path_parts = prefix_parts
      | _ \<Rightarrow> False)"

section \<open>The task gate\<close>

definition GRANT_AUDIT_CAP :: nat where "GRANT_AUDIT_CAP = 64"

record grant_audit_entry =
  ga_call_name :: rust_str
  ga_risk :: tool_risk
  ga_grant_id :: "rust_str option"

record grant_entry =
  ge_grant :: standing_grant
  ge_runs_used :: "32 word"

record 'g task_approval_gate =
  tg_inner :: 'g
  tg_grants :: "(rust_str \<times> grant_entry) list"
  tg_audit :: "grant_audit_entry list"
  tg_host_policies :: "host_tool_policies option"

definition task_gate_new :: "'g \<Rightarrow> 'g task_approval_gate" where
  "task_gate_new inner = \<lparr>tg_inner = inner, tg_grants = [], tg_audit = [], tg_host_policies = None\<rparr>"

definition with_host_policies :: "'g task_approval_gate \<Rightarrow> host_tool_policies \<Rightarrow> 'g task_approval_gate" where
  "with_host_policies G policies = G\<lparr>tg_host_policies := Some policies\<rparr>"

definition exec_target :: "grant_target \<Rightarrow> rust_str list option" where
  "exec_target target = (case gt_exec_argv_prefix target of
     Some tokens \<Rightarrow> if list_ex (\<lambda>t. trim t \<noteq> []) tokens then Some tokens else None
   | None \<Rightarrow> None)"

definition shell_target :: "grant_target \<Rightarrow> rust_str option" where
  "shell_target target = (case gt_shell_command_digest target of
     Some d \<Rightarrow> if trim d \<noteq> [] then Some (trim d) else None
   | None \<Rightarrow> None)"

definition validate_grant_target :: "standing_grant \<Rightarrow> unit agent_result" where
  "validate_grant_target g = (case sg_risk g of
     RiskReadOnly \<Rightarrow> Inl (InvalidRequest
       (lit ''standing grants cover write/process effects, not read-only calls''))
   | RiskWorkspaceWrite \<Rightarrow>
       (case gt_workspace_path_prefix (sg_target g) of
          None \<Rightarrow> Inl (InvalidRequest (lit ''a workspace-write grant needs a workspace_path_prefix target''))
        | Some prefix \<Rightarrow>
            if (case relative_components prefix of None \<Rightarrow> True | Some parts \<Rightarrow> parts = [])
            then Inl (InvalidRequest (lit ''grant target must be a clean non-root workspace-relative path''))
            else Inr ())
   | RiskProcessExecution \<Rightarrow>
       (case (exec_target (sg_target g), shell_target (sg_target g)) of
          (Some _, None) \<Rightarrow> Inr ()
        | (None, Some _) \<Rightarrow> Inr ()
        | (Some _, Some _) \<Rightarrow> Inl (InvalidRequest
            (lit ''a process grant cannot mix exec_argv_prefix and shell_command_digest''))
        | (None, None) \<Rightarrow> Inl (InvalidRequest
            (lit ''a process grant needs exec_argv_prefix or shell_command_digest''))))"

definition task_grant ::
  "nat \<Rightarrow> 'g task_approval_gate \<Rightarrow> standing_grant \<Rightarrow> 'g task_approval_gate \<times> unit agent_result" where
  "task_grant now G g =
     (if sg_id g = [] then (G, Inl (InvalidRequest (lit ''grant id must not be empty'')))
      else (case validate_grant_target g of
              Inl e \<Rightarrow> (G, Inl e)
            | Inr () \<Rightarrow>
                if sg_expires_at_ms g \<le> now then (G, Inl (InvalidRequest (lit ''grant is already expired'')))
                else (G\<lparr>tg_grants := AList.update (sg_id g) \<lparr>ge_grant = g, ge_runs_used = 0\<rparr> (tg_grants G)\<rparr>,
                      Inr ())))"

definition task_revoke :: "'g task_approval_gate \<Rightarrow> rust_str \<Rightarrow> 'g task_approval_gate \<times> bool" where
  "task_revoke G grant_id =
     (G\<lparr>tg_grants := AList.delete grant_id (tg_grants G)\<rparr>, map_of (tg_grants G) grant_id \<noteq> None)"

definition prune_expired :: "nat \<Rightarrow> (rust_str \<times> grant_entry) list \<Rightarrow> (rust_str \<times> grant_entry) list" where
  "prune_expired now book = filter (\<lambda>(grant_id, e). now < sg_expires_at_ms (ge_grant e)) book"

definition active_grants :: "nat \<Rightarrow> 'g task_approval_gate \<Rightarrow> 'g task_approval_gate \<times> standing_grant list" where
  "active_grants now G =
     (let book = prune_expired now (tg_grants G) in
      (G\<lparr>tg_grants := book\<rparr>, map (\<lambda>(grant_id, e). ge_grant e) book))"

definition over_cap :: "nat option \<Rightarrow> nat \<Rightarrow> bool" where
  "over_cap cap n = (case cap of Some m \<Rightarrow> m < n | None \<Rightarrow> False)"

fun grant_matches :: "standing_grant \<Rightarrow> effect_intent \<Rightarrow> bool" where
  "grant_matches g IntentReadOnly = False"
| "grant_matches g (IntentWorkspaceWrite path content_bytes) \<longleftrightarrow>
     sg_risk g = RiskWorkspaceWrite
   \<and> (case gt_workspace_path_prefix (sg_target g) of
        None \<Rightarrow> False
      | Some prefix \<Rightarrow> path_within_prefix path prefix
          \<and> \<not> over_cap (gc_max_content_bytes (sg_constraint g)) content_bytes)"
| "grant_matches g (IntentWorkspaceWriteSet writes) \<longleftrightarrow>
     sg_risk g = RiskWorkspaceWrite
   \<and> (case gt_workspace_path_prefix (sg_target g) of
        None \<Rightarrow> False
      | Some prefix \<Rightarrow> writes \<noteq> [] \<and> list_all (\<lambda>b. path_within_prefix (wb_path b) prefix) writes
          \<and> (case gc_max_content_bytes (sg_constraint g) of
               None \<Rightarrow> True
             | Some m \<Rightarrow> \<not> (m < foldl saturating_add_u64 0 (map wb_max_bytes writes)
                           \<or> list_ex (\<lambda>b. m < wb_max_bytes b) writes)))"
| "grant_matches g (IntentExecArgv program argv) \<longleftrightarrow>
     sg_risk g = RiskProcessExecution
   \<and> (case gt_exec_argv_prefix (sg_target g) of
        None \<Rightarrow> False
      | Some prefix \<Rightarrow> intent_covers (exec_argv_intent prefix) (IntentExecArgv program argv))"
| "grant_matches g (IntentShellExec dialect command_digest) \<longleftrightarrow>
     sg_risk g = RiskProcessExecution
   \<and> (case gt_shell_command_digest (sg_target g) of
        None \<Rightarrow> False
      | Some approved \<Rightarrow> approved \<noteq> [] \<and> approved = command_digest)"

definition derive_effect_intent ::
  "digest_env \<Rightarrow> 'g task_approval_gate \<Rightarrow> tool_call \<Rightarrow> tool_spec \<Rightarrow> effect_intent" where
  "derive_effect_intent D G call spec = (case tg_host_policies G of
     Some policies \<Rightarrow> effect_intent_of D policies call spec
   | None \<Rightarrow> unbound_effect_intent spec)"

definition task_record ::
  "'g task_approval_gate \<Rightarrow> rust_str \<Rightarrow> tool_risk \<Rightarrow> rust_str option \<Rightarrow> 'g task_approval_gate" where
  "task_record G call_name risk grant_id =
     (let audit = (if GRANT_AUDIT_CAP \<le> length (tg_audit G) then drop 1 (tg_audit G) else tg_audit G)
      in G\<lparr>tg_audit := audit @ [\<lparr>ga_call_name = call_name, ga_risk = risk, ga_grant_id = grant_id\<rparr>]\<rparr>)"

definition runs_exhausted :: "grant_entry \<Rightarrow> bool" where
  "runs_exhausted e = (case gc_max_runs (sg_constraint (ge_grant e)) of
     Some m \<Rightarrow> m \<le> ge_runs_used e | None \<Rightarrow> False)"

definition shadow_verdict_of ::
  "digest_env \<Rightarrow> nat \<Rightarrow> 'g task_approval_gate \<Rightarrow> tool_call \<Rightarrow> tool_spec \<Rightarrow> 'g task_approval_gate \<times> shadow_verdict" where
  "shadow_verdict_of D now G call spec =
     (if ts_risk spec = RiskReadOnly then (G, Granted (lit ''read-only''))
      else
       (let intent = derive_effect_intent D G call spec in
        if intent = IntentReadOnly then (G, Granted (lit ''session-control''))
        else
         (let book = prune_expired now (tg_grants G) in
          (G\<lparr>tg_grants := book\<rparr>,
           case find (\<lambda>(grant_id, e). grant_matches (ge_grant e) intent \<and> \<not> runs_exhausted e) book of
             Some (grant_id, e) \<Rightarrow> Granted grant_id
           | None \<Rightarrow> Denied))))"

text \<open>
  The loop over the book: the first matching grant with runs left is taken, and its run counter advanced for
  a process; exhausted ones are remembered, the one with the smallest grant_id first.
\<close>

fun is_process_intent :: "effect_intent \<Rightarrow> bool" where
  "is_process_intent (IntentExecArgv _ _) = True"
| "is_process_intent (IntentShellExec _ _) = True"
| "is_process_intent _ = False"

definition note_exhausted ::
  "rust_str \<Rightarrow> grant_entry \<Rightarrow> approval_denial_reason option \<Rightarrow> approval_denial_reason option" where
  "note_exhausted grant_id e exhausted =
     (case gc_max_runs (sg_constraint (ge_grant e)) of
        None \<Rightarrow> exhausted
      | Some m \<Rightarrow>
          if (case exhausted of None \<Rightarrow> True | Some (GrantExhausted gid _ _) \<Rightarrow> str_order grant_id < str_order gid)
          then Some (GrantExhausted grant_id (ge_runs_used e) m) else exhausted)"

fun scan_grants ::
  "effect_intent \<Rightarrow> approval_denial_reason option \<Rightarrow> (rust_str \<times> grant_entry) list
     \<Rightarrow> (rust_str \<times> grant_entry) list \<times> rust_str option \<times> approval_denial_reason option" where
  "scan_grants intent exhausted [] = ([], None, exhausted)"
| "scan_grants intent exhausted ((grant_id, e) # book) =
     (if \<not> grant_matches (ge_grant e) intent
      then (case scan_grants intent exhausted book of (b, m, x) \<Rightarrow> ((grant_id, e) # b, m, x))
      else if runs_exhausted e
      then (case scan_grants intent (note_exhausted grant_id e exhausted) book of (b, m, x) \<Rightarrow> ((grant_id, e) # b, m, x))
      else ((grant_id, if is_process_intent intent then e\<lparr>ge_runs_used := ge_runs_used e + 1\<rparr> else e) # book,
            Some grant_id, exhausted))"

definition authorize_with_grant_reason ::
  "('g \<Rightarrow> tool_call \<Rightarrow> tool_spec \<Rightarrow> 'g \<times> approval_decision agent_result) \<Rightarrow> digest_env \<Rightarrow> nat
     \<Rightarrow> 'g task_approval_gate \<Rightarrow> tool_call \<Rightarrow> tool_spec
     \<Rightarrow> 'g task_approval_gate \<times> approval_outcome agent_result" where
  "authorize_with_grant_reason authorize D now G call spec =
     (if ts_risk spec = RiskReadOnly then (G, Inr (decided Allow))
      else
       (let book = prune_expired now (tg_grants G);
            intent = derive_effect_intent D G call spec
        in if intent = IntentReadOnly
           then (task_record (G\<lparr>tg_grants := book\<rparr>) (tc_name call) (ts_risk spec) None, Inr (decided Allow))
           else
            (case scan_grants intent None book of (book', matched, exhausted) \<Rightarrow>
              (let G1 = G\<lparr>tg_grants := book'\<rparr> in
               case matched of
                 Some grant_id \<Rightarrow>
                   (task_record G1 (tc_name call) (ts_risk spec) (Some grant_id), Inr (decided Allow))
               | None \<Rightarrow>
                   (let G2 = task_record G1 (tc_name call) (ts_risk spec) None in
                    case authorize (tg_inner G2) call spec of
                      (g', Inl e) \<Rightarrow> (G2\<lparr>tg_inner := g'\<rparr>, Inl e)
                    | (g', Inr decision) \<Rightarrow>
                        (G2\<lparr>tg_inner := g'\<rparr>,
                         Inr \<lparr>ao_decision = decision,
                              ao_denial = (if decision = Deny then exhausted else None)\<rparr>))))))"

definition task_authorize ::
  "('g \<Rightarrow> tool_call \<Rightarrow> tool_spec \<Rightarrow> 'g \<times> approval_decision agent_result) \<Rightarrow> digest_env \<Rightarrow> nat
     \<Rightarrow> 'g task_approval_gate \<Rightarrow> tool_call \<Rightarrow> tool_spec
     \<Rightarrow> 'g task_approval_gate \<times> approval_decision agent_result" where
  "task_authorize authorize D now G call spec =
     (case authorize_with_grant_reason authorize D now G call spec of
        (G', r) \<Rightarrow> (G', result_bind r (\<lambda>outcome. Inr (ao_decision outcome))))"


section \<open>The interface\<close>

locale approval_gate =
  fixes authorize :: "'g \<Rightarrow> tool_call \<Rightarrow> tool_spec \<Rightarrow> 'g \<times> approval_decision agent_result"
  assumes read_only_allowed: "ts_risk spec = RiskReadOnly \<Longrightarrow> authorize g call spec = (g, Inr Allow)"
begin

fun authorize_all :: "'g \<Rightarrow> (tool_call \<times> tool_spec) list \<Rightarrow> 'g \<times> approval_decision agent_result list" where
  "authorize_all g [] = (g, [])"
| "authorize_all g ((call, spec) # rest) =
     (case authorize g call spec of (g1, d) \<Rightarrow> (case authorize_all g1 rest of (g2, ds) \<Rightarrow> (g2, d # ds)))"

lemma read_only_calls_pass:
  "list_all (\<lambda>(call, spec). ts_risk spec = RiskReadOnly) calls \<Longrightarrow>
   authorize_all g calls = (g, replicate (length calls) (Inr Allow))"
  by (induction calls) (auto simp: read_only_allowed)

end

interpretation policy_gate: approval_gate policy_authorize
  by unfold_locales (simp add: policy_authorize_def)

interpretation task_gate: approval_gate "task_authorize authorize D now" for authorize D now
  by unfold_locales (simp add: task_authorize_def authorize_with_grant_reason_def decided_def)

section \<open>Paths\<close>

lemma relative_components_clean: "relative_components path = Some parts \<Longrightarrow> list_all clean_part parts"
  using collect_normal_app_pieces [of "split_slash path" parts] split_slash_pieces [of _ path]
  by (auto simp: relative_components_def collect_path_components split: if_splits)

lemma within_prefix_parts:
  assumes "path_within_prefix path prefix"
  obtains pre rest where "relative_components prefix = Some pre" "relative_components path = Some (pre @ rest)"
proof -
  obtain ps pre where p: "relative_components path = Some ps" "relative_components prefix = Some pre"
    "take (length pre) ps = pre"
    using assms by (auto simp: path_within_prefix_def split: option.splits)
  then have "ps = pre @ drop (length pre) ps" by (metis append_take_drop_id)
  then show ?thesis using that p by metis
qed

lemma matched_paths:
  assumes "grant_matches g intent" "p \<in> intent_paths intent"
  obtains prefix where "gt_workspace_path_prefix (sg_target g) = Some prefix" "path_within_prefix p prefix"
  using assms by (cases intent) (auto simp: list_all_iff split: option.splits)

section \<open>The book\<close>

definition book_ok :: "(rust_str \<times> grant_entry) list \<Rightarrow> bool" where
  "book_ok book \<longleftrightarrow> distinct (map fst book)
   \<and> (\<forall>(i, e) \<in> set book. sg_id (ge_grant e) = i \<and> validate_grant_target (ge_grant e) = Inr ())"

lemma prune_expired_set: "set (prune_expired now book) \<subseteq> set book"
  by (auto simp: prune_expired_def)

lemma book_ok_prune: "book_ok book \<Longrightarrow> book_ok (prune_expired now book)"
  unfolding book_ok_def prune_expired_def by (auto simp: distinct_map inj_on_def)

lemma scan_grants_grants:
  "scan_grants intent x book = (book', m, y) \<Longrightarrow>
   map (\<lambda>(i, e). (i, ge_grant e)) book' = map (\<lambda>(i, e). (i, ge_grant e)) book"
  by (induction book arbitrary: x book') (auto split: if_splits prod.splits)

lemma book_ok_grants:
  "book_ok book \<longleftrightarrow> (let gs = map (\<lambda>(i, e). (i, ge_grant e)) book in
     distinct (map fst gs) \<and> (\<forall>(i, g) \<in> set gs. sg_id g = i \<and> validate_grant_target g = Inr ()))"
  by (simp add: book_ok_def Let_def comp_def case_prod_beta)

lemma book_ok_scan: "scan_grants intent x book = (book', m, y) \<Longrightarrow> book_ok book \<Longrightarrow> book_ok book'"
  unfolding book_ok_grants by (drule scan_grants_grants) simp

lemma scan_grants_match:
  assumes "scan_grants intent x book = (book', Some i, y)"
  shows "\<exists>e. (i, e) \<in> set book \<and> grant_matches (ge_grant e) intent \<and> \<not> runs_exhausted e"
  using assms by (induction book arbitrary: x book') (simp, fastforce split: if_splits prod.splits)

lemma scan_grants_none:
  assumes "scan_grants intent x book = (book', None, y)"
  shows "book' = book \<and> (\<forall>(i, e) \<in> set book. grant_matches (ge_grant e) intent \<longrightarrow> runs_exhausted e)"
  using assms by (induction book arbitrary: x book') (simp, fastforce split: if_splits prod.splits)

lemma scan_grants_find:
  "fst (snd (scan_grants intent x book)) =
   map_option fst (find (\<lambda>(i, e). grant_matches (ge_grant e) intent \<and> \<not> runs_exhausted e) book)"
  by (induction intent x book rule: scan_grants.induct) (auto split: prod.splits)

lemma book_ok_delete: "book_ok book \<Longrightarrow> book_ok (AList.delete i book)"
  unfolding book_ok_def by (auto simp: AList.delete_eq distinct_map inj_on_def)

lemma book_ok_update:
  assumes "book_ok book" "validate_grant_target g = Inr ()"
  shows "book_ok (AList.update (sg_id g) \<lparr>ge_grant = g, ge_runs_used = 0\<rparr> book)"
proof -
  have "\<forall>(i, e) \<in> set (AList.update (sg_id g) \<lparr>ge_grant = g, ge_runs_used = 0\<rparr> book).
      sg_id (ge_grant e) = i \<and> validate_grant_target (ge_grant e) = Inr ()"
    if "\<forall>(i, e) \<in> set book. sg_id (ge_grant e) = i \<and> validate_grant_target (ge_grant e) = Inr ()"
    using that assms(2) by (induction book) auto
  then show ?thesis using assms(1) by (auto simp: book_ok_def intro: distinct_update)
qed

definition gate_ok :: "'g task_approval_gate \<Rightarrow> bool" where
  "gate_ok G \<longleftrightarrow> book_ok (tg_grants G) \<and> length (tg_audit G) \<le> GRANT_AUDIT_CAP"

lemma gate_ok_record [simp]:
  "gate_ok (task_record G c r i) \<longleftrightarrow> book_ok (tg_grants G) \<and> length (tg_audit G) \<le> GRANT_AUDIT_CAP"
  by (auto simp: gate_ok_def task_record_def Let_def GRANT_AUDIT_CAP_def)

lemma task_record_grants [simp]:
  "tg_grants (task_record G c r i) = tg_grants G" "tg_inner (task_record G c r i) = tg_inner G"
  "tg_host_policies (task_record G c r i) = tg_host_policies G"
  by (simp_all add: task_record_def Let_def)

section \<open>What the task gate decides\<close>

text \<open>Which grant a call is decided by, if any.\<close>

definition grant_used :: "digest_env \<Rightarrow> nat \<Rightarrow> 'g task_approval_gate \<Rightarrow> tool_call \<Rightarrow> tool_spec \<Rightarrow> rust_str option" where
  "grant_used D now G call spec =
     (let intent = derive_effect_intent D G call spec in
      if ts_risk spec = RiskReadOnly \<or> intent = IntentReadOnly then None
      else fst (snd (scan_grants intent None (prune_expired now (tg_grants G)))))"

lemma task_authorize_cases:
  assumes "authorize_with_grant_reason authorize D now G call spec = (G', r)"
  obtains (read_only) "ts_risk spec = RiskReadOnly" "G' = G" "r = Inr (decided Allow)"
  | (no_effect) "ts_risk spec \<noteq> RiskReadOnly" "derive_effect_intent D G call spec = IntentReadOnly"
      "r = Inr (decided Allow)" "tg_grants G' = prune_expired now (tg_grants G)"
      "grant_used D now G call spec = None"
      "G' = task_record (G\<lparr>tg_grants := prune_expired now (tg_grants G)\<rparr>) (tc_name call) (ts_risk spec) None"
  | (granted) i book x where "ts_risk spec \<noteq> RiskReadOnly" "r = Inr (decided Allow)"
      "scan_grants (derive_effect_intent D G call spec) None (prune_expired now (tg_grants G)) = (book, Some i, x)"
      "grant_used D now G call spec = Some i"
      "G' = task_record (G\<lparr>tg_grants := book\<rparr>) (tc_name call) (ts_risk spec) (Some i)"
  | (delegated) x g q where "ts_risk spec \<noteq> RiskReadOnly" "derive_effect_intent D G call spec \<noteq> IntentReadOnly"
      "scan_grants (derive_effect_intent D G call spec) None (prune_expired now (tg_grants G))
         = (prune_expired now (tg_grants G), None, x)"
      "grant_used D now G call spec = None"
      "authorize (tg_inner G) call spec = (g, q)"
      "r = result_bind q (\<lambda>d. Inr \<lparr>ao_decision = d, ao_denial = (if d = Deny then x else None)\<rparr>)"
      "G' = (task_record (G\<lparr>tg_grants := prune_expired now (tg_grants G)\<rparr>) (tc_name call) (ts_risk spec) None)\<lparr>tg_inner := g\<rparr>"
proof (cases "ts_risk spec = RiskReadOnly")
  case True
  then show ?thesis using assms read_only by (simp add: authorize_with_grant_reason_def)
next
  case ro: False
  show ?thesis
  proof (cases "derive_effect_intent D G call spec = IntentReadOnly")
    case True
    then show ?thesis
      using assms ro by (intro no_effect) (auto simp: authorize_with_grant_reason_def grant_used_def Let_def)
  next
    case False
    obtain book m x where sc: "scan_grants (derive_effect_intent D G call spec) None (prune_expired now (tg_grants G))
        = (book, m, x)" by (metis prod_cases3)
    show ?thesis
    proof (cases m)
      case None
      then have b: "book = prune_expired now (tg_grants G)" using scan_grants_none sc by blast
      obtain g q where "authorize (tg_inner G) call spec = (g, q)" by fastforce
      then show ?thesis
        using assms ro False sc None b
        by (intro delegated [of x g q]) (cases q; simp add: authorize_with_grant_reason_def grant_used_def Let_def)+
    next
      case (Some i)
      then show ?thesis
        using assms ro False sc
        by (intro granted [of book i x]) (simp_all add: authorize_with_grant_reason_def grant_used_def Let_def)
    qed
  qed
qed

lemma authorize_gate_ok:
  assumes "gate_ok G" "authorize_with_grant_reason authorize D now G call spec = (G', r)"
  shows "gate_ok G'"
  using assms(2)
proof (cases rule: task_authorize_cases)
  case (granted i book x)
  then have "book_ok book" using book_ok_scan [OF granted(3)] book_ok_prune assms(1) by (auto simp: gate_ok_def)
  then show ?thesis using granted assms(1) by (simp add: gate_ok_def [of G])
next
  case (delegated x g q)
  have "gate_ok (task_record (G\<lparr>tg_grants := prune_expired now (tg_grants G)\<rparr>) (tc_name call) (ts_risk spec) None)"
    using assms(1) book_ok_prune by (auto simp: gate_ok_def [of G])
  then show ?thesis using delegated by (simp add: gate_ok_def)
qed (use assms(1) book_ok_prune in \<open>auto simp: gate_ok_def [of G]\<close>)

end
