(* ===== verification/Approval_Properties.thy ===== *)
theory Approval_Properties
  imports Approval_Gate Wire_Codec
begin

text \<open>
  Properties of the effect vocabulary and of the approval gates: canonical paths and coverage, the canonical
  JSON text that digests are taken over, the derivation of intents, and the decisions of the task gate.
\<close>

section \<open>A sample gate\<close>

definition sample_digests :: digest_env where
  "sample_digests = \<lparr>de_jcs = \<lparr>je_as_f64 = (\<lambda>_. None), je_ryu = (\<lambda>_. lit ''1.0'')\<rparr>, de_sha256 = checksum32\<rparr>"

definition sample_grant :: standing_grant where
  "sample_grant = \<lparr>sg_id = lit ''g'', sg_risk = RiskProcessExecution,
     sg_target = \<lparr>gt_workspace_path_prefix = None, gt_exec_argv_prefix = Some [lit ''cargo''],
        gt_shell_command_digest = None\<rparr>,
     sg_constraint = \<lparr>gc_max_content_bytes = None, gc_max_runs = Some 1\<rparr>, sg_expires_at_ms = 10\<rparr>"

definition sample_policies :: host_tool_policies where
  "sample_policies = \<lparr>ps_policy_for = (\<lambda>n. if n = lit ''run'' then
       Some \<lparr>hp_tool_name = lit ''run'', hp_binding = BindExecArgv (lit ''argv'')\<rparr> else None),
     ps_policy_revision = None, ps_binding_epoch = (\<lambda>_. None)\<rparr>"

definition sample_gate :: "policy_approval_gate task_approval_gate" where
  "sample_gate = with_host_policies (fst (task_grant 0 (task_gate_new policy_read_only) sample_grant)) sample_policies"

definition sample_call :: tool_call where
  "sample_call = \<lparr>tc_id = [], tc_name = lit ''run'',
     tc_arguments = JObject [(lit ''argv'', JArray [JString (lit ''cargo''), JString (lit ''test'')])]\<rparr>"

definition sample_spec :: "tool_risk \<Rightarrow> tool_spec" where
  "sample_spec r = \<lparr>ts_name = lit ''run'', ts_description = [], ts_input_schema = JNull, ts_risk = r,
     ts_output_budget = None, ts_roles = []\<rparr>"

lemma sample_spec_simps [simp]: "ts_risk (sample_spec r) = r" "tc_name sample_call = lit ''run''"
  by (simp_all add: sample_spec_def sample_call_def)

lemma sample_grant_valid: "validate_grant_target sample_grant = Inr ()"
  by (simp add: validate_grant_target_def sample_grant_def exec_target_def shell_target_def trim_def lit_def is_whitespace_def)

lemma sample_gate_unfold:
  "sample_gate = \<lparr>tg_inner = policy_read_only, tg_grants = [(lit ''g'', \<lparr>ge_grant = sample_grant, ge_runs_used = 0\<rparr>)],
     tg_audit = [], tg_host_policies = Some sample_policies\<rparr>"
  using sample_grant_valid
  by (simp add: sample_gate_def with_host_policies_def task_grant_def task_gate_new_def)
     (simp add: sample_grant_def lit_def)

lemma sample_gate_ok: "gate_ok sample_gate"
  using sample_grant_valid
  by (simp add: sample_gate_unfold gate_ok_def book_ok_def GRANT_AUDIT_CAP_def) (simp add: sample_grant_def)

lemma sample_intent:
  "derive_effect_intent sample_digests sample_gate sample_call (sample_spec RiskProcessExecution)
     = IntentExecArgv (lit ''cargo'') [lit ''test'']"
  by (simp add: derive_effect_intent_def sample_gate_unfold effect_intent_of_def sample_policies_def sample_call_def
      string_list_def get_array_def lit_def)

lemma sample_matches: "grant_matches sample_grant (IntentExecArgv (lit ''cargo'') [lit ''test''])"
  by (simp add: sample_grant_def lit_def)

lemma sample_authorize:
  "task_authorize policy_authorize sample_digests 2 sample_gate sample_call (sample_spec RiskProcessExecution)
   = (task_record (sample_gate\<lparr>tg_grants := [(lit ''g'', \<lparr>ge_grant = sample_grant, ge_runs_used = 1\<rparr>)]\<rparr>)
        (lit ''run'') RiskProcessExecution (Some (lit ''g'')), Inr Allow)"
proof -
  have b: "prune_expired 2 (tg_grants sample_gate) = tg_grants sample_gate"
    by (simp add: prune_expired_def sample_gate_unfold sample_grant_def)
  have "scan_grants (IntentExecArgv (lit ''cargo'') [lit ''test'']) None (tg_grants sample_gate)
      = ([(lit ''g'', \<lparr>ge_grant = sample_grant, ge_runs_used = 1\<rparr>)], Some (lit ''g''), None)"
    using sample_matches by (simp add: sample_gate_unfold runs_exhausted_def) (simp add: sample_grant_def)
  then show ?thesis
    by (simp add: task_authorize_def authorize_with_grant_reason_def sample_intent b decided_def Let_def)
qed

section \<open>Properties\<close>

lemma task_allow_backed:
  assumes "authorize_with_grant_reason authorize D now G call spec = (G', r)"
    "result_bind r (\<lambda>outcome. Inr (ao_decision outcome)) = Inr Allow"
  shows "ts_risk spec = RiskReadOnly \<or> derive_effect_intent D G call spec = IntentReadOnly
   \<or> (\<exists>i e. (i, e) \<in> set (tg_grants G) \<and> now < sg_expires_at_ms (ge_grant e)
        \<and> grant_matches (ge_grant e) (derive_effect_intent D G call spec) \<and> \<not> runs_exhausted e
        \<and> ga_grant_id (last (tg_audit G')) = Some i)
   \<or> (snd (authorize (tg_inner G) call spec) = Inr Allow
        \<and> (\<forall>(i, e) \<in> set (tg_grants G). now < sg_expires_at_ms (ge_grant e)
             \<longrightarrow> grant_matches (ge_grant e) (derive_effect_intent D G call spec) \<longrightarrow> runs_exhausted e))"
  using assms(1)
proof (cases rule: task_authorize_cases)
  case (granted i book x)
  then obtain e where "(i, e) \<in> set (prune_expired now (tg_grants G))"
    "grant_matches (ge_grant e) (derive_effect_intent D G call spec)" "\<not> runs_exhausted e"
    using scan_grants_match by blast
  then show ?thesis using granted(5) by (auto simp: prune_expired_def task_record_def Let_def)
next
  case (delegated x g q)
  have "snd (authorize (tg_inner G) call spec) = Inr Allow" using delegated assms(2) by (cases q) auto
  then show ?thesis using scan_grants_none [OF delegated(3)] by (fastforce simp: prune_expired_def)
qed simp_all

text \<open>
  C23. An allowed effect is always backed. When the task gate allows a call, the call is read-only (by its
  declared risk, or by the intent the host derives for it), or a standing grant that is in the book, is not
  expired, matches the derived intent and has runs left decided it, or the gate underneath allowed it and no
  live grant with runs left matches.
\<close>
theorem allowed_calls_are_backed:
  assumes "task_authorize authorize D now G call spec = (G', Inr Allow)"
  shows "ts_risk spec = RiskReadOnly \<or> derive_effect_intent D G call spec = IntentReadOnly
   \<or> (\<exists>i e. (i, e) \<in> set (tg_grants G) \<and> now < sg_expires_at_ms (ge_grant e)
        \<and> grant_matches (ge_grant e) (derive_effect_intent D G call spec) \<and> \<not> runs_exhausted e
        \<and> ga_grant_id (last (tg_audit G')) = Some i)
   \<or> (snd (authorize (tg_inner G) call spec) = Inr Allow
        \<and> (\<forall>(i, e) \<in> set (tg_grants G). now < sg_expires_at_ms (ge_grant e)
             \<longrightarrow> grant_matches (ge_grant e) (derive_effect_intent D G call spec) \<longrightarrow> runs_exhausted e))"
proof -
  obtain r where "authorize_with_grant_reason authorize D now G call spec = (G', r)"
    "result_bind r (\<lambda>outcome. Inr (ao_decision outcome)) = Inr Allow"
    using assms by (auto simp: task_authorize_def split: prod.splits)
  then show ?thesis by (rule task_allow_backed)
qed

theorem allowed_calls_are_backed_witness:
  "\<exists>i e. (i, e) \<in> set (tg_grants sample_gate) \<and> (2 :: nat) < sg_expires_at_ms (ge_grant e)
     \<and> grant_matches (ge_grant e) (IntentExecArgv (lit ''cargo'') [lit ''test''])"
proof -
  have "snd (policy_authorize (tg_inner sample_gate) sample_call (sample_spec RiskProcessExecution)) = Inr Deny"
    by (simp add: policy_authorize_def sample_gate_unfold policy_read_only_def)
  then show ?thesis
    using allowed_calls_are_backed [OF sample_authorize] sample_intent by auto
qed

lemma scan_grants_entries:
  assumes "scan_grants intent x book = (book', m, y)" "distinct (map fst book)" "map_of book i = Some e"
  shows "map_of book' i = Some (if m = Some i \<and> is_process_intent intent then e\<lparr>ge_runs_used := ge_runs_used e + 1\<rparr> else e)"
  using assms
proof (induction book arbitrary: x book')
  case (Cons p book)
  obtain j f where p: "p = (j, f)" by fastforce
  have match: "m = Some k \<Longrightarrow> k \<in> fst ` set book" if "scan_grants intent z book = (b, m, y)" for z b k
    using scan_grants_match [of intent z book b k y] that by force
  show ?case
    using Cons p match by (fastforce split: if_splits prod.splits)
qed simp

text \<open>How many calls of a sequence a grant decided, and the gate after the sequence.\<close>

fun process_uses ::
  "('g \<Rightarrow> tool_call \<Rightarrow> tool_spec \<Rightarrow> 'g \<times> approval_decision agent_result) \<Rightarrow> digest_env \<Rightarrow> rust_str
     \<Rightarrow> 'g task_approval_gate \<Rightarrow> (nat \<times> tool_call \<times> tool_spec) list \<Rightarrow> nat" where
  "process_uses authorize D i G [] = 0"
| "process_uses authorize D i G ((now, call, spec) # rest) =
     (if grant_used D now G call spec = Some i \<and> is_process_intent (derive_effect_intent D G call spec) then 1 else 0)
     + process_uses authorize D i (fst (task_authorize authorize D now G call spec)) rest"


lemma grant_used_scan:
  assumes "grant_used D now G call spec = Some i"
  obtains book x where "scan_grants (derive_effect_intent D G call spec) None (prune_expired now (tg_grants G))
    = (book, Some i, x)"
proof -
  let ?s = "scan_grants (derive_effect_intent D G call spec) None (prune_expired now (tg_grants G))"
  have "fst (snd ?s) = Some i" using assms by (simp add: grant_used_def Let_def split: if_splits)
  then have "?s = (fst ?s, Some i, snd (snd ?s))" by (simp add: prod_eq_iff)
  then show ?thesis by (rule that)
qed

lemma scan_grants_keys:
  assumes "scan_grants intent x book = (book', m, y)"
  shows "fst ` set book' = fst ` set book"
  using arg_cong [OF scan_grants_grants [OF assms], of "\<lambda>xs. fst ` set xs"] by (simp add: image_image case_prod_beta)

lemma authorize_keys:
  assumes "task_authorize authorize D now G call spec = (G', r)"
  shows "fst ` set (tg_grants G') \<subseteq> fst ` set (tg_grants G)"
proof -
  have p: "fst ` set (prune_expired now (tg_grants G)) \<subseteq> fst ` set (tg_grants G)"
    using prune_expired_set by (rule image_mono)
  obtain r' where "authorize_with_grant_reason authorize D now G call spec = (G', r')"
    using assms by (auto simp: task_authorize_def split: prod.splits)
  then show ?thesis
  proof (cases rule: task_authorize_cases)
    case (granted i book x)
    then have "fst ` set (tg_grants G') = fst ` set (prune_expired now (tg_grants G))"
      using scan_grants_keys [OF granted(3)] by simp
    then show ?thesis using p by simp
  qed (use p in simp_all)
qed

lemma task_authorize_gate_ok:
  "gate_ok G \<Longrightarrow> task_authorize authorize D now G call spec = (G', r) \<Longrightarrow> gate_ok G'"
  using authorize_gate_ok by (auto simp: task_authorize_def split: prod.splits)

lemma authorize_entry:
  assumes "book_ok (tg_grants G)" "map_of (tg_grants G) i = Some e"
    "task_authorize authorize D now G call spec = (G', r)"
  shows "map_of (tg_grants G') i = None \<or> map_of (tg_grants G') i =
     Some (if grant_used D now G call spec = Some i \<and> is_process_intent (derive_effect_intent D G call spec)
           then e\<lparr>ge_runs_used := ge_runs_used e + 1\<rparr> else e)"
    "grant_used D now G call spec = Some i \<Longrightarrow> \<not> runs_exhausted e"
proof -
  let ?b = "prune_expired now (tg_grants G)"
  have d: "distinct (map fst (tg_grants G))" "distinct (map fst ?b)"
    using assms(1) book_ok_prune [OF assms(1)] by (simp_all add: book_ok_def)
  have pr: "map_of ?b j = Some f \<longleftrightarrow> map_of (tg_grants G) j = Some f \<and> now < sg_expires_at_ms (ge_grant f)" for j f
    using d by (auto simp: map_of_eq_Some_iff prune_expired_def)
  obtain r' where r': "authorize_with_grant_reason authorize D now G call spec = (G', r')"
    using assms(3) by (auto simp: task_authorize_def split: prod.splits)
  from r' show "map_of (tg_grants G') i = None \<or> map_of (tg_grants G') i =
     Some (if grant_used D now G call spec = Some i \<and> is_process_intent (derive_effect_intent D G call spec)
           then e\<lparr>ge_runs_used := ge_runs_used e + 1\<rparr> else e)"
  proof (cases rule: task_authorize_cases)
    case read_only
    then show ?thesis using assms(2) by (simp add: grant_used_def Let_def)
  next
    case no_effect
    then show ?thesis using pr assms(2) by (cases "map_of ?b i") auto
  next
    case (granted j book x)
    have g: "tg_grants G' = book" using granted(5) by simp
    show ?thesis
    proof (cases "map_of ?b i")
      case None
      have "fst ` set book = fst ` set ?b" by (rule scan_grants_keys [OF granted(3)])
      then show ?thesis using None g by (simp add: map_of_eq_None_iff)
    next
      case (Some f)
      then have "f = e" using pr assms(2) by auto
      then show ?thesis using scan_grants_entries [OF granted(3) d(2) Some] granted(4) g by simp
    qed
  next
    case (delegated x g q)
    then show ?thesis using pr assms(2) by (cases "map_of ?b i") auto
  qed
  show "\<not> runs_exhausted e" if u: "grant_used D now G call spec = Some i"
  proof -
    obtain book x where "scan_grants (derive_effect_intent D G call spec) None ?b = (book, Some i, x)"
      using grant_used_scan [OF u] .
    then obtain f where "(i, f) \<in> set ?b" "\<not> runs_exhausted f" using scan_grants_match by blast
    then show ?thesis using pr d(2) assms(2) by (auto simp: map_of_eq_Some_iff)
  qed
qed

lemma no_uses_without_entry:
  "gate_ok G \<Longrightarrow> i \<notin> fst ` set (tg_grants G) \<Longrightarrow> process_uses authorize D i G calls = 0"
proof (induction calls arbitrary: G)
  case (Cons c calls)
  obtain now call spec where c: "c = (now, call, spec)" by (metis prod_cases3)
  obtain G' r where a: "task_authorize authorize D now G call spec = (G', r)" by fastforce
  have "grant_used D now G call spec \<noteq> Some i"
  proof
    assume "grant_used D now G call spec = Some i"
    then obtain book x where "scan_grants (derive_effect_intent D G call spec) None (prune_expired now (tg_grants G))
        = (book, Some i, x)" by (rule grant_used_scan)
    then obtain e where "(i, e) \<in> set (tg_grants G)" using scan_grants_match prune_expired_set by blast
    then show False using Cons.prems(2) by force
  qed
  then show ?case
    using Cons.IH [OF task_authorize_gate_ok [OF Cons.prems(1) a]] authorize_keys [OF a] Cons.prems(2) a c by auto
qed simp

lemma unat_Suc_below: "(u :: 'a::len word) < m \<Longrightarrow> unat (u + 1) = Suc (unat u) \<and> u + 1 \<le> m"
proof -
  assume "u < m"
  then have lt: "unat u < unat m" by (simp add: word_less_nat_alt)
  moreover have "unat m < 2 ^ LENGTH('a)" by (rule unsigned_less)
  ultimately have "Suc (unat u) < 2 ^ LENGTH('a)" by linarith
  then have "unat (u + 1) = Suc (unat u)" by (simp add: unat_word_ariths)
  then show ?thesis using lt by (simp add: word_le_nat_alt)
qed

text \<open>
  C24. A run cap is a cap: however many calls follow, whatever they are and whenever they come, a standing
  grant with \<open>max_runs = m\<close> decides at most as many process calls as it has runs left.
\<close>
theorem run_cap_is_respected:
  assumes "gate_ok G" "map_of (tg_grants G) i = Some e" "gc_max_runs (sg_constraint (ge_grant e)) = Some m"
    "ge_runs_used e \<le> m"
  shows "process_uses authorize D i G calls \<le> unat m - unat (ge_runs_used e)"
  using assms
proof (induction calls arbitrary: G e)
  case (Cons c calls)
  obtain now call spec where c: "c = (now, call, spec)" by (metis prod_cases3)
  obtain G' r where a: "task_authorize authorize D now G call spec = (G', r)" by fastforce
  have ok: "gate_ok G'" by (rule task_authorize_gate_ok [OF Cons.prems(1) a])
  have book: "book_ok (tg_grants G)" using Cons.prems(1) by (simp add: gate_ok_def)
  note en = authorize_entry [OF book Cons.prems(2) a]
  let ?use = "grant_used D now G call spec = Some i \<and> is_process_intent (derive_effect_intent D G call spec)"
  have room: "ge_runs_used e < m" if ?use
    using en(2) that Cons.prems(3) by (auto simp: runs_exhausted_def)
  have "process_uses authorize D i G' calls \<le> unat m - (unat (ge_runs_used e) + (if ?use then 1 else 0))"
  proof (cases "map_of (tg_grants G') i")
    case None
    then show ?thesis using no_uses_without_entry [OF ok] by (simp add: map_of_eq_None_iff)
  next
    case (Some e')
    then have e': "e' = (if ?use then e\<lparr>ge_runs_used := ge_runs_used e + 1\<rparr> else e)" using en(1) by auto
    then have "ge_runs_used e' \<le> m" "unat (ge_runs_used e') = unat (ge_runs_used e) + (if ?use then 1 else 0)"
      using unat_Suc_below room Cons.prems(4) by auto
    then show ?thesis using Cons.IH [OF ok Some] e' Cons.prems(3) by simp
  qed
  moreover have "unat (ge_runs_used e) < unat m" if ?use using room [OF that] by (simp add: word_less_nat_alt)
  ultimately show ?case using c a by auto
qed simp


theorem run_cap_is_respected_witness:
  "process_uses policy_authorize sample_digests (lit ''g'') sample_gate
     [(2, sample_call, sample_spec RiskProcessExecution), (3, sample_call, sample_spec RiskProcessExecution)] \<le> 1"
proof -
  have "map_of (tg_grants sample_gate) (lit ''g'') = Some \<lparr>ge_grant = sample_grant, ge_runs_used = 0\<rparr>"
    by (simp add: sample_gate_unfold)
  then have "process_uses policy_authorize sample_digests (lit ''g'') sample_gate
     [(2, sample_call, sample_spec RiskProcessExecution), (3, sample_call, sample_spec RiskProcessExecution)]
     \<le> unat (1 :: 32 word) - unat (ge_runs_used \<lparr>ge_grant = sample_grant, ge_runs_used = 0\<rparr>)"
    by (rule run_cap_is_respected [OF sample_gate_ok]) (simp_all add: sample_grant_def)
  then show ?thesis by (simp del: process_uses.simps)
qed

text \<open>
  C33. The shadow gate never grants more than the enforced one: when the shadow verdict grants a call, the task
  gate at the same instant allows it, without asking the gate underneath, and by the same grant.
\<close>
theorem shadow_never_widens:
  assumes "snd (shadow_verdict_of D now G call spec) = Granted i"
  shows "snd (task_authorize authorize D now G call spec) = Inr Allow
     \<and> (\<forall>j. grant_used D now G call spec = Some j \<longrightarrow> j = i)
     \<and> tg_inner (fst (task_authorize authorize D now G call spec)) = tg_inner G"
proof -
  obtain G' r where r: "authorize_with_grant_reason authorize D now G call spec = (G', r)" by fastforce
  note f = scan_grants_find [of "derive_effect_intent D G call spec" None "prune_expired now (tg_grants G)"]
  from r show ?thesis
  proof (cases rule: task_authorize_cases)
    case (granted j book x)
    then have "derive_effect_intent D G call spec \<noteq> IntentReadOnly" by (auto simp: grant_used_def Let_def)
    then have "j = i" using assms f granted by (auto simp: shadow_verdict_of_def Let_def split: option.splits)
    then show ?thesis using granted r by (simp add: task_authorize_def decided_def)
  next
    case (delegated x g q)
    then show ?thesis using assms f by (auto simp: shadow_verdict_of_def Let_def split: option.splits)
  qed (use r in \<open>simp_all add: task_authorize_def decided_def grant_used_def Let_def\<close>)
qed

theorem shadow_never_widens_witness:
  "snd (task_authorize policy_authorize sample_digests 2 sample_gate sample_call (sample_spec RiskProcessExecution)) = Inr Allow"
proof -
  have "snd (shadow_verdict_of sample_digests 2 sample_gate sample_call (sample_spec RiskProcessExecution)) = Granted (lit ''g'')"
  proof -
    have b: "prune_expired 2 (tg_grants sample_gate) = tg_grants sample_gate"
      by (simp add: prune_expired_def sample_gate_unfold sample_grant_def)
    show ?thesis
      using sample_matches
      by (simp add: shadow_verdict_of_def sample_intent b Let_def)
         (simp add: sample_gate_unfold runs_exhausted_def sample_grant_def)
  qed
  from shadow_never_widens [OF this] show ?thesis by blast
qed

text \<open>The operations on a task gate, as calls.\<close>

datatype gate_op =
    OpGrant nat standing_grant
  | OpRevoke rust_str
  | OpActive nat
  | OpShadow nat tool_call tool_spec
  | OpAuthorize nat tool_call tool_spec

fun gate_step ::
  "('g \<Rightarrow> tool_call \<Rightarrow> tool_spec \<Rightarrow> 'g \<times> approval_decision agent_result) \<Rightarrow> digest_env
     \<Rightarrow> 'g task_approval_gate \<Rightarrow> gate_op \<Rightarrow> 'g task_approval_gate" where
  "gate_step authorize D G (OpGrant now g) = fst (task_grant now G g)"
| "gate_step authorize D G (OpRevoke i) = fst (task_revoke G i)"
| "gate_step authorize D G (OpActive now) = fst (active_grants now G)"
| "gate_step authorize D G (OpShadow now call spec) = fst (shadow_verdict_of D now G call spec)"
| "gate_step authorize D G (OpAuthorize now call spec) = fst (task_authorize authorize D now G call spec)"

lemma gate_step_ok: "gate_ok G \<Longrightarrow> gate_ok (gate_step authorize D G c)"
proof (cases c)
  case (OpAuthorize now call spec)
  assume "gate_ok G"
  then show ?thesis using OpAuthorize task_authorize_gate_ok [OF _ prod.collapse [symmetric]] by simp
qed (auto simp: task_grant_def task_revoke_def active_grants_def shadow_verdict_of_def gate_ok_def Let_def
      book_ok_prune book_ok_delete book_ok_update split: sum.splits)

text \<open>
  The grant book stays valid and the audit bounded: from an empty gate, whatever is granted, revoked,
  listed, shadowed or authorised, every grant in the book is keyed by its own id and passed the validation of
  its target, no id appears twice, and at most 64 decisions are kept.
\<close>
theorem gate_invariant: "gate_ok (foldl (gate_step authorize D) (task_gate_new g) calls)"
proof -
  have "gate_ok G \<Longrightarrow> gate_ok (foldl (gate_step authorize D) G calls)" for G
    by (induction calls arbitrary: G) (simp_all add: gate_step_ok)
  moreover have "gate_ok (task_gate_new g)" by (simp add: task_gate_new_def gate_ok_def book_ok_def)
  ultimately show ?thesis by blast
qed

text \<open>
  A workspace grant never reaches outside its prefix. Every target of an intent a grant matches is a
  relative path with no way up, whose components start with those of the grant's prefix, and for a grant in a
  valid book that prefix is not empty.
\<close>
theorem matched_targets_stay_inside:
  assumes "book_ok book" "(i, e) \<in> set book" "grant_matches (ge_grant e) intent" "p \<in> intent_paths intent"
  shows "\<exists>prefix pre rest. gt_workspace_path_prefix (sg_target (ge_grant e)) = Some prefix
     \<and> relative_components prefix = Some pre \<and> relative_components p = Some (pre @ rest)
     \<and> pre \<noteq> [] \<and> list_all clean_part (pre @ rest)"
proof -
  obtain prefix where pre: "gt_workspace_path_prefix (sg_target (ge_grant e)) = Some prefix" "path_within_prefix p prefix"
    using matched_paths [OF assms(3,4)] .
  obtain ps rest where ps: "relative_components prefix = Some ps" "relative_components p = Some (ps @ rest)"
    using within_prefix_parts [OF pre(2)] .
  have "sg_risk (ge_grant e) = RiskWorkspaceWrite" using assms(3,4) by (cases intent) auto
  moreover have "validate_grant_target (ge_grant e) = Inr ()" using assms(1,2) by (auto simp: book_ok_def)
  ultimately have "ps \<noteq> []" using pre(1) ps(1) by (auto simp: validate_grant_target_def)
  then show ?thesis using pre(1) ps relative_components_clean [OF ps(2)] by auto
qed

definition write_grant :: standing_grant where
  "write_grant = \<lparr>sg_id = lit ''w'', sg_risk = RiskWorkspaceWrite,
     sg_target = \<lparr>gt_workspace_path_prefix = Some (lit ''src/''), gt_exec_argv_prefix = None,
        gt_shell_command_digest = None\<rparr>,
     sg_constraint = \<lparr>gc_max_content_bytes = None, gc_max_runs = None\<rparr>, sg_expires_at_ms = 10\<rparr>"

lemma sample_components:
  "relative_components (lit ''src/'') = Some [lit ''src'']" "relative_components (lit ''src/a.rs'') = Some [lit ''src'', lit ''a.rs'']"
  "relative_components (lit ''src'') = Some [lit ''src'']"
  by code_simp+

theorem matched_targets_stay_inside_witness:
  "\<exists>pre rest. relative_components (lit ''src/a.rs'') = Some (pre @ rest) \<and> pre \<noteq> []"
proof -
  let ?e = "\<lparr>ge_grant = write_grant, ge_runs_used = 0\<rparr>"
  have "grant_matches (ge_grant ?e) (IntentWorkspaceWrite (lit ''src/a.rs'') 3)"
    by (simp add: write_grant_def path_within_prefix_def sample_components over_cap_def)
  moreover have "book_ok [(lit ''w'', ?e)]"
    by (simp add: book_ok_def validate_grant_target_def write_grant_def sample_components)
  ultimately show ?thesis
    using matched_targets_stay_inside [of "[(lit ''w'', ?e)]" "lit ''w''" ?e _ "lit ''src/a.rs''"] by fastforce
qed

text \<open>A grant for a directory also matches a write to a file of that name.\<close>

lemma bare_prefix_is_covered: "path_within_prefix (lit ''src'') (lit ''src/'')"
  by (simp add: path_within_prefix_def sample_components)


lemma exec_covers_no_empty: "\<not> intent_covers (exec_argv_intent tokens) (IntentExecArgv [] [])"
  by (cases tokens) auto

text \<open>
  A declaration is not an authority: a tool the host has no policy for is never decided by a standing
  grant, whatever risk it declares and whatever its arguments are called; the gate underneath decides every
  call of it that is not read-only. And nothing it spawns is covered.
\<close>
theorem unbound_tools_get_no_grant:
  assumes "gate_ok G" "tg_host_policies G = Some policies" "ps_policy_for policies (tc_name call) = None"
    "ts_risk spec \<noteq> RiskReadOnly"
  shows "grant_used D now G call spec = None
     \<and> snd (task_authorize authorize D now G call spec) = snd (authorize (tg_inner G) call spec)
     \<and> \<not> process_spawn_is_covered D policies (tc_name call) (tc_arguments call) actual"
proof -
  let ?i = "derive_effect_intent D G call spec"
  have i: "?i = IntentWorkspaceWrite [] 0 \<or> ?i = exec_argv_intent []"
    using assms(2-4) by (cases "ts_risk spec") (auto simp: derive_effect_intent_def effect_intent_of_def)
  have no: "\<not> grant_matches (ge_grant e) ?i" if "(j, e) \<in> set (tg_grants G)" for j e
  proof
    assume m: "grant_matches (ge_grant e) ?i"
    have b: "book_ok (tg_grants G)" using assms(1) by (simp add: gate_ok_def)
    show False
    proof (cases "?i = IntentWorkspaceWrite [] 0")
      case True
      obtain prefix pre where p: "gt_workspace_path_prefix (sg_target (ge_grant e)) = Some prefix"
        "path_within_prefix [] prefix" "relative_components prefix = Some pre"
        using m True by (auto split: option.splits simp: path_within_prefix_def)
      have "relative_components [] = Some []" by code_simp
      then have "pre = []" using p(2,3) by (simp add: path_within_prefix_def)
      moreover have "sg_risk (ge_grant e) = RiskWorkspaceWrite" using m True by simp
      moreover have "validate_grant_target (ge_grant e) = Inr ()" using b that by (auto simp: book_ok_def)
      ultimately show False using p(1,3) by (simp add: validate_grant_target_def)
    next
      case False
      then have "?i = IntentExecArgv [] []" using i by simp
      then show False using m exec_covers_no_empty by (auto split: option.splits)
    qed
  qed
  obtain G' r where r: "authorize_with_grant_reason authorize D now G call spec = (G', r)" by fastforce
  have "grant_used D now G call spec = None
     \<and> snd (task_authorize authorize D now G call spec) = snd (authorize (tg_inner G) call spec)"
    using r
  proof (cases rule: task_authorize_cases)
    case (granted j book x)
    then obtain e where "(j, e) \<in> set (prune_expired now (tg_grants G))" "grant_matches (ge_grant e) ?i"
      using scan_grants_match by blast
    then show ?thesis using no prune_expired_set by blast
  next
    case (delegated x g q)
    then show ?thesis using r by (cases q) (simp_all add: task_authorize_def)
  qed (use i assms(4) in auto)
  moreover have "\<not> process_spawn_is_covered D policies (tc_name call) (tc_arguments call) actual"
    using assms(3) empty_bounds_cover_nothing(2)
    by (simp add: process_spawn_is_covered_def effect_intent_of_def Let_def del: exec_argv_intent.simps)
  ultimately show ?thesis by blast
qed

theorem unbound_tools_get_no_grant_witness:
  "grant_used sample_digests 2 sample_gate (sample_call\<lparr>tc_name := lit ''x''\<rparr>) (sample_spec RiskProcessExecution) = None"
proof -
  have "tg_host_policies sample_gate = Some sample_policies" by (simp add: sample_gate_unfold)
  moreover have "ps_policy_for sample_policies (tc_name (sample_call\<lparr>tc_name := lit ''x''\<rparr>)) = None"
    by (simp add: sample_policies_def lit_def)
  ultimately show ?thesis using unbound_tools_get_no_grant [OF sample_gate_ok] by fastforce
qed

text \<open>
  A multi-file write asks for all of its targets. For a call with a \<open>files\<close> array that names at most 16
  different targets, the derived intent names exactly the (trimmed) targets of the array: approval cannot
  see fewer files than the call would write.
\<close>
theorem write_intent_names_every_target:
  assumes "get_array arguments (lit ''files'') = Some files"
    "card (\<Union>f \<in> set files. set_option (file_target f)) \<le> MAX_WORKSPACE_WRITE_SET"
    "(\<Union>f \<in> set files. set_option (file_target f)) \<noteq> {}"
  shows "intent_paths (intent_from D (BindWorkspaceWrite path_arg content_args) arguments)
       = (\<Union>f \<in> set files. set_option (file_target f))"
  using write_intent_paths [OF assms] by simp

theorem write_intent_names_every_target_witness:
  "intent_paths (intent_from sample_digests (BindWorkspaceWrite (lit ''path'') [])
     (JObject [(lit ''files'', JArray [JObject [(lit ''path'', JString (lit ''a''))], JObject [(lit ''path'', JString (lit ''b''))]])]))
   = {lit ''a'', lit ''b''}"
proof -
  let ?f = "JObject [(lit ''path'', JString (lit ''a''))]" and ?g = "JObject [(lit ''path'', JString (lit ''b''))]"
  have t: "file_target ?f = Some (lit ''a'')" "file_target ?g = Some (lit ''b'')"
    by (simp_all add: file_target_def get_str_def trim_def lit_def is_whitespace_def)
  have "intent_paths (intent_from sample_digests (BindWorkspaceWrite (lit ''path'') [])
     (JObject [(lit ''files'', JArray [?f, ?g])])) = (\<Union>f \<in> set [?f, ?g]. set_option (file_target f))"
    by (rule write_intent_names_every_target)
       (simp_all add: t, simp_all add: get_array_def lit_def MAX_WORKSPACE_WRITE_SET_def)
  then show ?thesis by (simp add: t insert_commute)
qed

text \<open>
  Coverage is an upper bound that composes: if an approved intent covers a second and that covers a
  third, the first covers the third; a covered intent is of the same risk class and writes no canonical path
  that was not approved.
\<close>
theorem coverage_composes:
  assumes "intent_covers approved middle" "intent_covers middle actual"
  shows "intent_covers approved actual \<and> intent_risk actual = intent_risk approved
     \<and> set (approved_workspace_paths actual) \<subseteq> set (approved_workspace_paths approved)"
  using intent_covers_trans [OF assms] intent_covers_risk intent_covers_paths by metis

theorem coverage_composes_witness:
  "intent_covers (IntentExecArgv (lit ''cargo'') []) (IntentExecArgv (lit ''cargo'') [lit ''test'', lit ''-q''])"
  using coverage_composes [of "IntentExecArgv (lit ''cargo'') []" "IntentExecArgv (lit ''cargo'') [lit ''test'']"
      "IntentExecArgv (lit ''cargo'') [lit ''test'', lit ''-q'']"] by (simp add: lit_def)

text \<open>
  C34. Canonicalisation of a workspace path is idempotent and confined: its result is its own canonical form,
  is not absolute, and has no empty, dot or dot-dot component.
\<close>
theorem canonical_path_is_confined:
  assumes "canonical_workspace_relative_path path = Some q"
  shows "canonical_workspace_relative_path q = Some q \<and> hd q \<noteq> 47
     \<and> list_all clean_part (split_slash q)"
proof -
  obtain parts where p: "q = join_slash parts" "parts \<noteq> []" "list_all clean_part parts"
    using canonical_path_parts [OF assms] .
  then show ?thesis
    using canonical_path_fixed [OF assms] join_slash_head [OF p(3,2)] canonical_path_split [OF p(2,3)] by simp
qed

theorem canonical_path_is_confined_witness:
  "canonical_workspace_relative_path (lit ''./src//a'') = Some (lit ''src/a'')
   \<and> list_all clean_part (split_slash (lit ''src/a''))"
proof -
  have "canonical_workspace_relative_path (lit ''./src//a'') = Some (lit ''src/a'')" by code_simp
  then show ?thesis using canonical_path_is_confined by blast
qed


section \<open>Canonical JSON\<close>

text \<open>
  C35. The canonical text identifies the value. Two values have the same RFC 8785 text exactly when they have
  the same canonical value: the same structure, strings and number texts, objects compared by their members
  in key order. Nothing in a string, a key or a nesting can make two different values collide before hashing.
\<close>
theorem canonical_text_identifies_value:
  assumes "ryu_ok E" "jcs_serialize E v = Inr t"
  shows "jcs_serialize E w = Inr t \<longleftrightarrow> canonical_of E w = canonical_of E v"
  by (rule canonical_texts_agree [OF assms])

lemma sample_ryu_ok: "ryu_ok (de_jcs sample_digests)"
  by (simp add: ryu_ok_def sample_digests_def lit_def)

theorem canonical_text_identifies_value_witness:
  "jcs_serialize (de_jcs sample_digests) (JArray [JString (lit ''a''), JString (lit ''b'')])
   \<noteq> jcs_serialize (de_jcs sample_digests) (JArray [JString (lit ''a,b'')])"
proof -
  let ?v = "JArray [JString (lit ''a''), JString (lit ''b'')]"
  obtain t where t: "jcs_serialize (de_jcs sample_digests) ?v = Inr t" by (simp add: jcs_serialize_def)
  then show ?thesis
    using canonical_text_identifies_value [OF sample_ryu_ok t, of "JArray [JString (lit ''a,b'')]"] by auto
qed

text \<open>
  Argument digests do not depend on the order of object keys: for an object with distinct keys over
  Unicode scalar values, any order of its members gives the same digest (or the same refusal).
\<close>
theorem digest_ignores_key_order:
  assumes "mset ms = mset ns" "distinct (map fst ms)" "\<forall>m \<in> set ms. \<forall>c \<in> set (fst m). scalar c"
  shows "digest_from_json D (JObject ms) = digest_from_json D (JObject ns)"
  using object_order_irrelevant [OF assms] by (simp add: digest_from_json_def)

theorem digest_ignores_key_order_witness:
  "digest_from_json sample_digests (JObject [(lit ''b'', JNull), (lit ''a'', JBool True)])
   = digest_from_json sample_digests (JObject [(lit ''a'', JBool True), (lit ''b'', JNull)])"
  by (rule digest_ignores_key_order) (simp_all add: lit_def scalar_def add_mset_commute)

end
