(* ===== verification/Approval_Hub.thy ===== *)
theory Approval_Hub
  imports Approval_Gate
begin

text \<open>
  The interactive approval gate of \<^verbatim>\<open>crates/agent-core/src/approval.rs\<close>: \<open>ApprovalBroker\<close> (the queue a user interface reads)
  and \<open>InteractiveApprovalGate\<close> (\<open>authorize\<close> on the kernel side, \<open>respond\<close> on the interface side). Both run as tasks that
  interleave at every lock, so they are a step relation: one rule for each critical section, and for each way the
  \<open>select!\<close> can go. A request id is a fresh UUID, so it names its task; a response is a task with a number. The value of a
  \<open>decisions\<close> entry is the sender of that request's channel, so the map is its set of keys. A response whose future is
  dropped between two locks drops the sender. The future of \<open>authorize\<close> runs to its end. Time is a clock in
  milliseconds that any step may advance: the timer of a wait is set when the \<open>select!\<close> begins and fires when the clock has
  reached it, and the arm of the cancellation token can be taken once the token is cancelled. When several arms are ready
  any of them may be taken, as \<open>select!\<close> does. The broadcast keeps 128 requests for a slow subscriber; here it keeps all of them.
\<close>

section \<open>State\<close>

record approval_request =
  ap_request_id :: rust_str
  ap_call :: tool_call
  ap_spec :: tool_spec

datatype answer_channel = NoChannel | SenderLive | Sent approval_decision | SenderDropped

datatype authorize_task =
    NotCalled
  | Registered
  | Notified
  | Waiting
  | Unregistering agent_error
  | Clearing "approval_decision agent_result"
  | Returned "approval_decision agent_result"

datatype respond_task =
    NotResponding
  | Taken rust_str approval_decision
  | Cleared rust_str approval_decision
  | Abandoned rust_str approval_decision
  | Answered rust_str approval_decision bool

record approval_hub =
  hb_pending :: "approval_request list"
  hb_notified :: "approval_request list"
  hb_decisions :: "rust_str set"
  hb_channel :: "rust_str \<Rightarrow> answer_channel"
  hb_request :: "rust_str \<Rightarrow> approval_request"
  hb_authorize :: "rust_str \<Rightarrow> authorize_task"
  hb_respond :: "nat \<Rightarrow> respond_task"
  hb_cancelled :: "rust_str set"
  hb_clock :: nat
  hb_deadline :: "rust_str \<Rightarrow> nat"
  hb_answer_timeout :: nat

section \<open>The broker\<close>

definition broker_notify :: "approval_hub \<Rightarrow> approval_request \<Rightarrow> approval_hub" where
  "broker_notify H request = H\<lparr>hb_notified := hb_notified H @ [request]\<rparr>"

definition broker_enqueue :: "approval_hub \<Rightarrow> approval_request \<Rightarrow> approval_hub" where
  "broker_enqueue H request = H\<lparr>hb_pending := hb_pending H @ [request]\<rparr>"

definition broker_remove :: "approval_hub \<Rightarrow> rust_str \<Rightarrow> approval_hub" where
  "broker_remove H request_id = H\<lparr>hb_pending := filter (\<lambda>request. ap_request_id request \<noteq> request_id) (hb_pending H)\<rparr>"

section \<open>The gate\<close>

definition at_authorize :: "approval_hub \<Rightarrow> rust_str \<Rightarrow> authorize_task \<Rightarrow> approval_hub" where
  "at_authorize H request_id pc = H\<lparr>hb_authorize := (hb_authorize H)(request_id := pc)\<rparr>"

definition at_respond :: "approval_hub \<Rightarrow> nat \<Rightarrow> respond_task \<Rightarrow> approval_hub" where
  "at_respond H n pc = H\<lparr>hb_respond := (hb_respond H)(n := pc)\<rparr>"

definition set_channel :: "approval_hub \<Rightarrow> rust_str \<Rightarrow> answer_channel \<Rightarrow> approval_hub" where
  "set_channel H request_id ch = H\<lparr>hb_channel := (hb_channel H)(request_id := ch)\<rparr>"

definition request_dropped :: agent_error where
  "request_dropped = ApprovalDenied (lit ''approval request dropped (no responder)'')"

definition request_timed_out :: agent_error where
  "request_timed_out = ApprovalDenied (lit ''approval request timed out (no response)'')"

datatype hub_task = AuthorizeTask rust_str | RespondTask nat | CancelTask rust_str | ClockTask

inductive hub_step :: "approval_hub \<Rightarrow> hub_task \<Rightarrow> approval_hub \<Rightarrow> bool" where
  read_only: "hb_authorize H i = NotCalled \<Longrightarrow> ap_request_id request = i \<Longrightarrow> ts_risk (ap_spec request) = RiskReadOnly \<Longrightarrow>
    hub_step H (AuthorizeTask i)
      (at_authorize (H\<lparr>hb_request := (hb_request H)(i := request)\<rparr>) i (Returned (Inr Allow)))"
| register: "hb_authorize H i = NotCalled \<Longrightarrow> ap_request_id request = i \<Longrightarrow> ts_risk (ap_spec request) \<noteq> RiskReadOnly \<Longrightarrow>
    hub_step H (AuthorizeTask i)
      (at_authorize (set_channel (H\<lparr>hb_request := (hb_request H)(i := request), hb_decisions := insert i (hb_decisions H)\<rparr>)
         i SenderLive) i Registered)"
| notify: "hb_authorize H i = Registered \<Longrightarrow>
    hub_step H (AuthorizeTask i) (at_authorize (broker_notify H (hb_request H i)) i Notified)"
| enqueue: "hb_authorize H i = Notified \<Longrightarrow>
    hub_step H (AuthorizeTask i) (at_authorize ((broker_enqueue H (hb_request H i))
      \<lparr>hb_deadline := (hb_deadline H)(i := hb_clock H + hb_answer_timeout H)\<rparr>) i Waiting)"
| decided: "hb_authorize H i = Waiting \<Longrightarrow> hb_channel H i = Sent decision \<Longrightarrow>
    hub_step H (AuthorizeTask i) (at_authorize H i (Clearing (Inr decision)))"
| undecided: "hb_authorize H i = Waiting \<Longrightarrow> hb_channel H i = SenderDropped \<Longrightarrow>
    hub_step H (AuthorizeTask i) (at_authorize H i (Clearing (Inl request_dropped)))"
| cancelled: "hb_authorize H i = Waiting \<Longrightarrow> i \<in> hb_cancelled H \<Longrightarrow>
    hub_step H (AuthorizeTask i) (at_authorize H i (Unregistering Cancelled))"
| timed_out: "hb_authorize H i = Waiting \<Longrightarrow> hb_deadline H i \<le> hb_clock H \<Longrightarrow>
    hub_step H (AuthorizeTask i) (at_authorize H i (Unregistering request_timed_out))"
| unregister: "hb_authorize H i = Unregistering e \<Longrightarrow>
    hub_step H (AuthorizeTask i)
      (at_authorize (set_channel (H\<lparr>hb_decisions := hb_decisions H - {i}\<rparr>) i
         (if i \<in> hb_decisions H then SenderDropped else hb_channel H i)) i (Clearing (Inl e)))"
| clear: "hb_authorize H i = Clearing r \<Longrightarrow>
    hub_step H (AuthorizeTask i) (at_authorize (broker_remove H i) i (Returned r))"
| respond_unknown: "hb_respond H n = NotResponding \<Longrightarrow> i \<notin> hb_decisions H \<Longrightarrow>
    hub_step H (RespondTask n) (at_respond H n (Answered i decision False))"
| respond_take: "hb_respond H n = NotResponding \<Longrightarrow> i \<in> hb_decisions H \<Longrightarrow>
    hub_step H (RespondTask n) (at_respond (H\<lparr>hb_decisions := hb_decisions H - {i}\<rparr>) n (Taken i decision))"
| respond_clear: "hb_respond H n = Taken i decision \<Longrightarrow>
    hub_step H (RespondTask n) (at_respond (broker_remove H i) n (Cleared i decision))"
| respond_send: "hb_respond H n = Cleared i decision \<Longrightarrow>
    hub_step H (RespondTask n) (at_respond (set_channel H i (Sent decision)) n (Answered i decision True))"
| respond_abandon: "hb_respond H n = Taken i decision \<or> hb_respond H n = Cleared i decision \<Longrightarrow>
    hub_step H (RespondTask n) (at_respond (set_channel H i SenderDropped) n (Abandoned i decision))"
| cancel_token: "hub_step H (CancelTask i) (H\<lparr>hb_cancelled := insert i (hb_cancelled H)\<rparr>)"
| time_passes: "hub_step H ClockTask (H\<lparr>hb_clock := hb_clock H + ms\<rparr>)"

text \<open>The answer timeout that \<open>InteractiveApprovalGate::new\<close> sets; \<open>with_answer_timeout\<close> overrides it.\<close>

definition DEFAULT_ANSWER_TIMEOUT_MS :: nat where "DEFAULT_ANSWER_TIMEOUT_MS = 300000"

definition hub_new :: "(rust_str \<Rightarrow> approval_request) \<Rightarrow> nat \<Rightarrow> approval_hub" where
  "hub_new requests answer_timeout = \<lparr>hb_pending = [], hb_notified = [], hb_decisions = {}, hb_channel = (\<lambda>_. NoChannel),
     hb_request = requests, hb_authorize = (\<lambda>_. NotCalled), hb_respond = (\<lambda>_. NotResponding),
     hb_cancelled = {}, hb_clock = 0, hb_deadline = (\<lambda>_. 0), hb_answer_timeout = answer_timeout\<rparr>"

inductive hub_reachable :: "approval_hub \<Rightarrow> bool" where
  new: "hub_reachable (hub_new requests answer_timeout)"
| step: "hub_reachable H \<Longrightarrow> hub_step H t H' \<Longrightarrow> hub_reachable H'"

lemmas hub_ops = broker_notify_def broker_enqueue_def broker_remove_def at_authorize_def at_respond_def set_channel_def

section \<open>The invariant of a request\<close>

text \<open>The response that took the sender of a request, at any time.\<close>

fun took :: "respond_task \<Rightarrow> rust_str \<Rightarrow> bool" where
  "took (Taken j _) i = (j = i)"
| "took (Cleared j _) i = (j = i)"
| "took (Abandoned j _) i = (j = i)"
| "took (Answered j _ b) i = (b \<and> j = i)"
| "took NotResponding i = False"

fun holds :: "respond_task \<Rightarrow> rust_str \<Rightarrow> bool" where
  "holds (Taken j _) i = (j = i)"
| "holds (Cleared j _) i = (j = i)"
| "holds _ i = False"

fun registered :: "authorize_task \<Rightarrow> bool" where
  "registered Registered = True"
| "registered Notified = True"
| "registered Waiting = True"
| "registered (Unregistering _) = True"
| "registered _ = False"

fun queued :: "authorize_task \<Rightarrow> bool" where
  "queued Waiting = True"
| "queued (Unregistering _) = True"
| "queued (Clearing _) = True"
| "queued _ = False"

fun outcome :: "authorize_task \<Rightarrow> approval_decision agent_result option" where
  "outcome (Clearing r) = Some r"
| "outcome (Returned r) = Some r"
| "outcome _ = None"

definition request_inv :: "approval_hub \<Rightarrow> rust_str \<Rightarrow> bool" where
  "request_inv H i \<longleftrightarrow>
     (hb_authorize H i = NotCalled \<longrightarrow> hb_channel H i = NoChannel \<and> (\<forall>n. \<not> took (hb_respond H n) i))
   \<and> (i \<in> hb_decisions H \<longrightarrow> hb_channel H i = SenderLive \<and> registered (hb_authorize H i) \<and> (\<forall>n. \<not> took (hb_respond H n) i))
   \<and> (\<forall>n. holds (hb_respond H n) i \<longrightarrow> hb_channel H i = SenderLive)
   \<and> (\<forall>n m. took (hb_respond H n) i \<longrightarrow> took (hb_respond H m) i \<longrightarrow> n = m)"

definition answer_inv :: "approval_hub \<Rightarrow> rust_str \<Rightarrow> bool" where
  "answer_inv H i \<longleftrightarrow>
     (\<forall>d. hb_channel H i = Sent d \<longrightarrow> (\<exists>n. hb_respond H n = Answered i d True))
   \<and> (i \<in> ap_request_id ` set (hb_pending H) \<longrightarrow> queued (hb_authorize H i))
   \<and> (hb_authorize H i \<noteq> NotCalled \<longrightarrow> ap_request_id (hb_request H i) = i)
   \<and> (\<forall>d. outcome (hb_authorize H i) = Some (Inr d) \<longrightarrow>
        hb_channel H i = Sent d \<or> ts_risk (ap_spec (hb_request H i)) = RiskReadOnly \<and> d = Allow)"

lemma holds_took: "holds p i \<Longrightarrow> took p i"
  by (cases p) simp_all

lemma holder:
  assumes "request_inv H j" "holds (hb_respond H n) j"
  shows "hb_channel H j = SenderLive" "j \<notin> hb_decisions H" "hb_authorize H j \<noteq> NotCalled"
    "\<forall>m. took (hb_respond H m) j \<longrightarrow> m = n"
  using assms holds_took [OF assms(2)] by (auto simp: request_inv_def)

lemma request_inv_step:
  assumes "hub_step H t H'" "\<forall>i. request_inv H i"
  shows "request_inv H' i"
  using assms(1)
proof cases
  case (register j request)
  then show ?thesis using spec [OF assms(2), of i] by (cases "i = j") (auto simp: request_inv_def hub_ops)
next
  case (unregister j e)
  then show ?thesis using spec [OF assms(2), of i]
    by (cases "i = j") (auto simp: request_inv_def hub_ops dest: holds_took)
next
  case (respond_take n j decision)
  then show ?thesis using spec [OF assms(2), of i] by (cases "i = j") (auto simp: request_inv_def hub_ops)
next
  case (respond_send n j decision)
  then have "holds (hb_respond H n) j" by simp
  from holder [OF spec [OF assms(2)] this] spec [OF assms(2), of i] respond_send show ?thesis
    by (cases "i = j") (auto simp: request_inv_def hub_ops dest: holds_took)
next
  case (respond_abandon n j decision)
  then have "holds (hb_respond H n) j" by auto
  from holder [OF spec [OF assms(2)] this] spec [OF assms(2), of i] respond_abandon show ?thesis
    by (cases "i = j") (auto simp: request_inv_def hub_ops dest: holds_took)
next
  case (respond_clear n j decision)
  then have "holds (hb_respond H n) j" by simp
  from holder [OF spec [OF assms(2)] this] spec [OF assms(2), of i] respond_clear show ?thesis
    by (cases "i = j") (auto simp: request_inv_def hub_ops dest: holds_took)
qed (use spec [OF assms(2), of i] in \<open>auto simp: request_inv_def hub_ops\<close>)

lemma answered_upd:
  "\<exists>m. f m = Answered i d True \<Longrightarrow> f n \<noteq> Answered i d True \<Longrightarrow> \<exists>m. (f(n := p)) m = Answered i d True"
  by (metis fun_upd_other)

text \<open>A response keeps the answers, and the queue and the tasks of the requests.\<close>

lemma answer_inv_respond:
  assumes "answer_inv H i" "\<forall>d. hb_respond H n \<noteq> Answered i d True"
    "hb_channel H' i = hb_channel H i \<or> (\<exists>d. hb_channel H' i = Sent d \<and> p = Answered i d True \<and> hb_channel H i = SenderLive)
     \<or> hb_channel H' i = SenderDropped \<and> hb_channel H i = SenderLive"
    "hb_respond H' = (hb_respond H)(n := p)" "hb_authorize H' = hb_authorize H" "hb_request H' = hb_request H"
    "set (hb_pending H') \<subseteq> set (hb_pending H)"
  shows "answer_inv H' i"
proof -
  have "\<exists>m. hb_respond H' m = Answered i d True" if d: "hb_channel H' i = Sent d" for d
  proof (cases "hb_channel H i = Sent d")
    case True
    then show ?thesis using answered_upd [of "hb_respond H" i d n p] assms(1,2,4) unfolding answer_inv_def by auto
  next
    case False
    then have "hb_respond H' n = Answered i d True" using assms(3,4) d by auto
    then show ?thesis by blast
  qed
  moreover have "i \<in> ap_request_id ` set (hb_pending H') \<longrightarrow> queued (hb_authorize H' i)"
    using assms(1,5,7) unfolding answer_inv_def by auto
  moreover have "hb_channel H' i = Sent d" if "hb_channel H i = Sent d" for d using assms(3) that by auto
  ultimately show ?thesis using assms(1,5,6) unfolding answer_inv_def by auto
qed

lemma answer_inv_step:
  assumes "hub_step H t H'" "\<forall>i. request_inv H i" "\<forall>i. answer_inv H i"
  shows "answer_inv H' i"
proof -
  note inv = spec [OF assms(2), of i] spec [OF assms(3), of i]
  note req = spec [OF assms(2)]
  show ?thesis
    using assms(1)
  proof cases
    case (enqueue j)
    then show ?thesis using inv spec [OF assms(3), of j] by (cases "i = j") (auto simp: answer_inv_def hub_ops)
  next
    case (unregister j e)
    then show ?thesis using inv by (cases "i = j") (auto simp: answer_inv_def request_inv_def hub_ops)
  next
    case (respond_unknown n j decision)
    then show ?thesis by (intro answer_inv_respond [OF inv(2), of n H' "Answered j decision False"]) (auto simp: hub_ops)
  next
    case (respond_take n j decision)
    then show ?thesis by (intro answer_inv_respond [OF inv(2), of n H' "Taken j decision"]) (auto simp: hub_ops)
  next
    case (respond_clear n j decision)
    then show ?thesis by (intro answer_inv_respond [OF inv(2), of n H' "Cleared j decision"]) (auto simp: hub_ops)
  next
    case (respond_send n j decision)
    then have "holds (hb_respond H n) j" by simp
    from holder [OF req this] respond_send show ?thesis
      by (intro answer_inv_respond [OF inv(2), of n H' "Answered j decision True"]) (auto simp: hub_ops)
  next
    case (respond_abandon n j decision)
    then have "holds (hb_respond H n) j" by auto
    from holder [OF req this] respond_abandon show ?thesis
      by (intro answer_inv_respond [OF inv(2), of n H' "Abandoned j decision"]) (auto simp: hub_ops)
  qed (use inv in \<open>auto simp: answer_inv_def request_inv_def hub_ops\<close>)
qed

lemma hub_reachable_inv: "hub_reachable H \<Longrightarrow> request_inv H i \<and> answer_inv H i"
proof (induction arbitrary: i rule: hub_reachable.induct)
  case (new requests answer_timeout)
  show ?case by (simp add: request_inv_def answer_inv_def hub_new_def)
next
  case (step H t H')
  then show ?case using request_inv_step answer_inv_step by blast
qed

section \<open>The wait\<close>

text \<open>
  The time of a wait, and why it ended: a cancellation was asked for, or the timer was due, or a response took the sender.
\<close>

definition ended_by :: "approval_hub \<Rightarrow> rust_str \<Rightarrow> agent_error \<Rightarrow> bool" where
  "ended_by H i e \<longleftrightarrow> e = Cancelled \<and> i \<in> hb_cancelled H \<or> e = request_timed_out \<and> hb_deadline H i \<le> hb_clock H"

definition wait_inv :: "approval_hub \<Rightarrow> rust_str \<Rightarrow> bool" where
  "wait_inv H i \<longleftrightarrow>
     (hb_authorize H i = Waiting \<longrightarrow> hb_deadline H i \<le> hb_clock H + hb_answer_timeout H)
   \<and> (hb_channel H i = SenderDropped \<longrightarrow> (\<exists>n. took (hb_respond H n) i) \<or> outcome (hb_authorize H i) \<noteq> None)
   \<and> (\<forall>e. hb_authorize H i = Unregistering e \<longrightarrow> ended_by H i e)
   \<and> (\<forall>e. outcome (hb_authorize H i) = Some (Inl e) \<longrightarrow> ended_by H i e \<or> e = request_dropped \<and> (\<exists>n. took (hb_respond H n) i))"

lemma took_upd:
  "\<exists>m. took (f m) i \<Longrightarrow> took (f n) i \<longrightarrow> took p i \<Longrightarrow> \<exists>m. took ((f(n := p)) m) i"
  by (metis fun_upd_apply)

lemma wait_inv_respond:
  assumes "wait_inv H i" "took (hb_respond H n) i \<longrightarrow> took p i"
    "hb_channel H' i = SenderDropped \<longrightarrow> hb_channel H i = SenderDropped \<or> took p i"
    "hb_respond H' = (hb_respond H)(n := p)" "hb_authorize H' = hb_authorize H" "hb_deadline H' = hb_deadline H"
    "hb_clock H' = hb_clock H" "hb_answer_timeout H' = hb_answer_timeout H" "hb_cancelled H' = hb_cancelled H"
  shows "wait_inv H' i"
proof -
  have up: "\<exists>m. took (hb_respond H' m) i" if "\<exists>m. took (hb_respond H m) i \<or> took p i"
    using that assms(2) took_upd [of "hb_respond H" i n p] unfolding assms(4) by (metis fun_upd_same)
  show ?thesis using assms(1,3,5-9) up unfolding wait_inv_def ended_by_def by metis
qed

lemma wait_inv_step:
  assumes "hub_step H t H'" "wait_inv H i" "request_inv H i"
  shows "wait_inv H' i"
  using assms(1)
proof cases
  case (respond_unknown n j decision)
  then show ?thesis by (intro wait_inv_respond [OF assms(2), of n "Answered j decision False"]) (auto simp: hub_ops)
next
  case (respond_take n j decision)
  then show ?thesis by (intro wait_inv_respond [OF assms(2), of n "Taken j decision"]) (auto simp: hub_ops)
next
  case (respond_clear n j decision)
  then show ?thesis by (intro wait_inv_respond [OF assms(2), of n "Cleared j decision"]) (auto simp: hub_ops)
next
  case (respond_send n j decision)
  then show ?thesis by (intro wait_inv_respond [OF assms(2), of n "Answered j decision True"]) (auto simp: hub_ops)
next
  case (respond_abandon n j decision)
  then show ?thesis by (intro wait_inv_respond [OF assms(2), of n "Abandoned j decision"]) (auto simp: hub_ops)
next
  case (register j request)
  then show ?thesis using assms(2) by (cases "i = j") (auto simp: wait_inv_def ended_by_def hub_ops)
next
  case (unregister j e)
  then show ?thesis using assms(2) by (cases "i = j") (auto simp: wait_inv_def ended_by_def hub_ops)
next
  case (undecided j)
  then show ?thesis using assms(2) by (cases "i = j") (auto simp: wait_inv_def ended_by_def hub_ops)
next
  case (time_passes ms)
  then show ?thesis using assms(2) by (auto simp: wait_inv_def ended_by_def)
next
  case (read_only j request)
  then show ?thesis using assms(2,3) by (cases "i = j") (auto simp: wait_inv_def ended_by_def request_inv_def hub_ops)
next
  case (notify j)
  then show ?thesis using assms(2,3) by (cases "i = j") (auto simp: wait_inv_def ended_by_def request_inv_def hub_ops)
next
  case (enqueue j)
  then show ?thesis using assms(2,3) by (cases "i = j") (auto simp: wait_inv_def ended_by_def request_inv_def hub_ops)
next
  case (decided j decision)
  then show ?thesis using assms(2,3) by (cases "i = j") (auto simp: wait_inv_def ended_by_def request_inv_def hub_ops)
next
  case (cancelled j)
  then show ?thesis using assms(2,3) by (cases "i = j") (auto simp: wait_inv_def ended_by_def request_inv_def hub_ops)
next
  case (timed_out j)
  then show ?thesis using assms(2,3) by (cases "i = j") (auto simp: wait_inv_def ended_by_def request_inv_def hub_ops)
next
  case (clear j r)
  then show ?thesis using assms(2,3) by (cases "i = j") (auto simp: wait_inv_def ended_by_def request_inv_def hub_ops)
next
  case (cancel_token j)
  then show ?thesis using assms(2) by (auto simp: wait_inv_def ended_by_def)
qed

lemma hub_reachable_wait: "hub_reachable H \<Longrightarrow> wait_inv H i"
proof (induction rule: hub_reachable.induct)
  case (new requests answer_timeout)
  show ?case by (simp add: wait_inv_def hub_new_def)
next
  case (step H t H')
  then show ?case using wait_inv_step hub_reachable_inv by blast
qed

text \<open>How many of its own steps an \<open>authorize\<close> has left at most.\<close>

fun steps_left :: "authorize_task \<Rightarrow> nat" where
  "steps_left NotCalled = 6"
| "steps_left Registered = 5"
| "steps_left Notified = 4"
| "steps_left Waiting = 3"
| "steps_left (Unregistering _) = 2"
| "steps_left (Clearing _) = 1"
| "steps_left (Returned _) = 0"

inductive hub_run :: "approval_hub \<Rightarrow> hub_task list \<Rightarrow> approval_hub \<Rightarrow> bool" where
  run_end: "hub_run H [] H"
| run_step: "hub_step H t H' \<Longrightarrow> hub_run H' ts H'' \<Longrightarrow> hub_run H (t # ts) H''"

lemma hub_run_reachable: "hub_run H ts H' \<Longrightarrow> hub_reachable H \<Longrightarrow> hub_reachable H'"
  by (induction rule: hub_run.induct) (auto intro: hub_reachable.step)

lemma own_step_counts:
  "hub_step H t H' \<Longrightarrow> steps_left (hb_authorize H' i) + (if t = AuthorizeTask i then 1 else 0) \<le> steps_left (hb_authorize H i)"
  by (erule hub_step.cases; cases "t = AuthorizeTask i") (auto simp: hub_ops)

lemma run_counts: "hub_run H ts H' \<Longrightarrow> steps_left (hb_authorize H' i) + count_list ts (AuthorizeTask i) \<le> steps_left (hb_authorize H i)"
proof (induction rule: hub_run.induct)
  case (run_step H t H' ts H'')
  then show ?case using own_step_counts [OF run_step.hyps(1), of i] by auto
qed simp

lemma step_keeps_timer:
  assumes "hub_step H t H'" "steps_left (hb_authorize H i) \<le> 3"
  shows "hb_deadline H' i = hb_deadline H i" "hb_clock H \<le> hb_clock H'"
  using assms(1) by (cases; use assms(2) in \<open>auto simp: hub_ops\<close>)+

lemma run_keeps_timer:
  "hub_run H ts H' \<Longrightarrow> steps_left (hb_authorize H i) \<le> 3 \<Longrightarrow> hb_deadline H' i = hb_deadline H i \<and> hb_clock H \<le> hb_clock H'"
proof (induction rule: hub_run.induct)
  case (run_step H t H' ts H'')
  then show ?case using step_keeps_timer [OF run_step.hyps(1)] own_step_counts [OF run_step.hyps(1), of i] by fastforce
qed simp

lemma steps_left_3: "steps_left p \<le> 3 \<Longrightarrow> p = Waiting \<or> (\<exists>e. p = Unregistering e) \<or> (\<exists>r. p = Clearing r) \<or> (\<exists>r. p = Returned r)"
  by (cases p) simp_all

lemma due_step_possible:
  assumes "steps_left (hb_authorize H i) \<le> 3" "hb_deadline H i \<le> hb_clock H" "\<forall>r. hb_authorize H i \<noteq> Returned r"
  shows "\<exists>H'. hub_step H (AuthorizeTask i) H'"
  using steps_left_3 [OF assms(1)] assms(2,3) timed_out [of H i] unregister [of H i] clear [of H i] by blast

lemma due_run_returns:
  assumes "steps_left (hb_authorize H i) \<le> 3" "hb_deadline H i \<le> hb_clock H"
  shows "\<exists>n H' r. n \<le> 3 \<and> hub_run H (replicate n (AuthorizeTask i)) H' \<and> hb_authorize H' i = Returned r"
proof -
  have "\<exists>n H' r. n \<le> steps_left (hb_authorize H i) \<and> hub_run H (replicate n (AuthorizeTask i)) H' \<and> hb_authorize H' i = Returned r"
    using assms
  proof (induction "steps_left (hb_authorize H i)" arbitrary: H rule: less_induct)
    case less
    show ?case
    proof (cases "\<exists>r. hb_authorize H i = Returned r")
      case True
      then show ?thesis using hub_run.run_end [of H] by (intro exI [of _ 0]) auto
    next
      case False
      then obtain H1 where H1: "hub_step H (AuthorizeTask i) H1" using due_step_possible less.prems by blast
      have l: "steps_left (hb_authorize H1 i) < steps_left (hb_authorize H i)" using own_step_counts [OF H1(1), of i] by simp
      have "hb_deadline H1 i \<le> hb_clock H1" "steps_left (hb_authorize H1 i) \<le> 3"
        using step_keeps_timer [OF H1 less.prems(1)] less.prems l by auto
      then obtain n H' r where n: "n \<le> steps_left (hb_authorize H1 i)" "hub_run H1 (replicate n (AuthorizeTask i)) H'" "hb_authorize H' i = Returned r"
        using less.hyps [OF l] by blast
      then have "hub_run H (replicate (Suc n) (AuthorizeTask i)) H'" using hub_run.run_step [OF H1] by simp
      then show ?thesis using n(1,3) l by (meson Suc_leI le_less_trans)
    qed
  qed
  then show ?thesis using assms(1) by (meson order_trans)
qed

section \<open>Properties\<close>

text \<open>
  C25. An interactive approval is an answer to this very request, given once, and leaves nothing behind. In every
  reachable state of the hub, under any interleaving of requests, responses, cancellations and timeouts: when
  \<open>authorize\<close> returned a decision for a call that is not read-only, exactly one response took this request and it was
  answered with this decision; and once \<open>authorize\<close> returned at all, neither the queue nor the map of open
  decisions has the request any more.
\<close>
theorem approval_is_answered_once:
  assumes "hub_reachable H" "hb_authorize H i = Returned r"
  shows "(\<forall>d. r = Inr d \<longrightarrow> ts_risk (ap_spec (hb_request H i)) \<noteq> RiskReadOnly \<longrightarrow>
            (\<exists>n. hb_respond H n = Answered i d True \<and> (\<forall>m d'. hb_respond H m = Answered i d' True \<longrightarrow> m = n)))
       \<and> i \<notin> hb_decisions H \<and> i \<notin> ap_request_id ` set (hb_pending H)"
proof -
  have inv: "request_inv H i" "answer_inv H i" using hub_reachable_inv [OF assms(1)] by blast+
  have "i \<notin> hb_decisions H" using inv(1) assms(2) by (auto simp: request_inv_def)
  moreover have "i \<notin> ap_request_id ` set (hb_pending H)" using inv(2) assms(2) by (auto simp: answer_inv_def)
  moreover have "\<exists>n. hb_respond H n = Answered i d True \<and> (\<forall>m d'. hb_respond H m = Answered i d' True \<longrightarrow> m = n)"
    if d: "r = Inr d" "ts_risk (ap_spec (hb_request H i)) \<noteq> RiskReadOnly" for d
  proof -
    have "hb_channel H i = Sent d" using inv(2) assms(2) d by (auto simp: answer_inv_def)
    then obtain n where n: "hb_respond H n = Answered i d True" using inv(2) by (auto simp: answer_inv_def)
    have "took (hb_respond H n) i" using n by simp
    moreover have "took (hb_respond H m) i" if "hb_respond H m = Answered i d' True" for m d' using that by simp
    ultimately have "\<forall>m d'. hb_respond H m = Answered i d' True \<longrightarrow> m = n"
      using inv(1) unfolding request_inv_def by blast
    then show ?thesis using n by blast
  qed
  ultimately show ?thesis by blast
qed

definition sample_approval :: "rust_str \<Rightarrow> approval_request" where
  "sample_approval i = \<lparr>ap_request_id = i, ap_call = \<lparr>tc_id = [], tc_name = lit ''edit'', tc_arguments = JNull\<rparr>,
     ap_spec = \<lparr>ts_name = lit ''edit'', ts_description = [], ts_input_schema = JNull, ts_risk = RiskWorkspaceWrite,
       ts_output_budget = None, ts_roles = []\<rparr>\<rparr>"

text \<open>A request that is answered before it is queued, and returns.\<close>

definition sample_hub :: "approval_request list \<Rightarrow> rust_str set \<Rightarrow> answer_channel \<Rightarrow> authorize_task \<Rightarrow> respond_task \<Rightarrow> approval_hub" where
  "sample_hub pending open_ids ch a r = \<lparr>hb_pending = pending, hb_notified = [sample_approval [7]], hb_decisions = open_ids,
     hb_channel = (\<lambda>_. NoChannel)([7] := ch), hb_request = sample_approval,
     hb_authorize = (\<lambda>_. NotCalled)([7] := a), hb_respond = (\<lambda>_. NotResponding)(0 := r), hb_cancelled = {}, hb_clock = 0,
     hb_deadline = (\<lambda>_. 0)([7] := if a \<in> {Registered, Notified} then 0 else DEFAULT_ANSWER_TIMEOUT_MS),
     hb_answer_timeout = DEFAULT_ANSWER_TIMEOUT_MS\<rparr>"

lemma sample_notified: "hub_reachable (sample_hub [] {[7]} SenderLive Notified NotResponding)"
proof -
  have risk: "ap_request_id (sample_approval [7]) = [7]" "ts_risk (ap_spec (sample_approval [7])) \<noteq> RiskReadOnly"
    by (simp_all add: sample_approval_def)
  have "hub_reachable (at_authorize (set_channel ((hub_new sample_approval DEFAULT_ANSWER_TIMEOUT_MS)\<lparr>hb_request := (hb_request (hub_new sample_approval DEFAULT_ANSWER_TIMEOUT_MS))
      ([7] := sample_approval [7]), hb_decisions := insert [7] (hb_decisions (hub_new sample_approval DEFAULT_ANSWER_TIMEOUT_MS))\<rparr>) [7] SenderLive) [7] Registered)"
    by (rule hub_reachable.step [OF hub_reachable.new register]) (simp_all add: hub_new_def risk)
  from hub_reachable.step [OF this notify [of _ "[7]"]]
  show ?thesis
    by (simp add: hub_ops hub_new_def sample_hub_def fun_upd_idem)
qed

lemma sample_answered: "hub_reachable (sample_hub [] {} (Sent Allow) (Returned (Inr Allow)) (Answered [7] Allow True))"
proof -
  have risk: "ap_request_id (sample_approval [7]) = [7]" by (simp add: sample_approval_def)
  from hub_reachable.step [OF sample_notified respond_take [of _ 0 "[7]" Allow]]
  have "hub_reachable (sample_hub [] {} SenderLive Notified (Taken [7] Allow))" by (simp add: hub_ops sample_hub_def)
  from hub_reachable.step [OF this respond_clear [of _ 0 "[7]" Allow]]
  have "hub_reachable (sample_hub [] {} SenderLive Notified (Cleared [7] Allow))" by (simp add: hub_ops sample_hub_def)
  from hub_reachable.step [OF this respond_send [of _ 0 "[7]" Allow]]
  have "hub_reachable (sample_hub [] {} (Sent Allow) Notified (Answered [7] Allow True))" by (simp add: hub_ops sample_hub_def)
  from hub_reachable.step [OF this enqueue [of _ "[7]"]]
  have "hub_reachable (sample_hub [sample_approval [7]] {} (Sent Allow) Waiting (Answered [7] Allow True))"
    by (simp add: hub_ops sample_hub_def)
  from hub_reachable.step [OF this decided [of _ "[7]" Allow]]
  have "hub_reachable (sample_hub [sample_approval [7]] {} (Sent Allow) (Clearing (Inr Allow)) (Answered [7] Allow True))"
    by (simp add: hub_ops sample_hub_def)
  from hub_reachable.step [OF this clear [of _ "[7]" "Inr Allow"]]
  show ?thesis by (simp add: hub_ops sample_hub_def risk)
qed

theorem approval_is_answered_once_witness:
  "\<exists>n. hb_respond (sample_hub [] {} (Sent Allow) (Returned (Inr Allow)) (Answered [7] Allow True)) n = Answered [7] Allow True"
  using approval_is_answered_once [OF sample_answered, of "[7]" "Inr Allow"]
  by (simp add: sample_hub_def sample_approval_def)

text \<open>
  C39. The wait for an approval ends by its timeout. Take any reachable state in which a call of \<open>authorize\<close> waits, and any
  continuation of any tasks after which at least the answer timeout has passed on the clock. From then on the call is
  never stuck: whatever the other tasks have done and do next, it has returned or a step of its own is possible, three
  of its steps always make it return, and alone it returns within three. And the timeout is what ended it when nothing else
  did: if no response ever took the request and its cancellation was not asked for, the result is the timeout error, never an
  approval.
\<close>
theorem approval_wait_ends:
  assumes "hub_reachable H" "hb_authorize H i = Waiting" "hub_run H ts H1" "hb_clock H + hb_answer_timeout H \<le> hb_clock H1"
  shows "(\<exists>n H2 r. n \<le> 3 \<and> hub_run H1 (replicate n (AuthorizeTask i)) H2 \<and> hb_authorize H2 i = Returned r)
    \<and> (\<forall>us H2. hub_run H1 us H2 \<longrightarrow>
         ((\<exists>r. hb_authorize H2 i = Returned r) \<or> (\<exists>H3. hub_step H2 (AuthorizeTask i) H3) \<and> count_list us (AuthorizeTask i) < 3)
       \<and> (\<forall>r. hb_authorize H2 i = Returned r \<longrightarrow> (\<forall>m. \<not> took (hb_respond H2 m) i) \<longrightarrow> i \<notin> hb_cancelled H2
            \<longrightarrow> ts_risk (ap_spec (hb_request H2 i)) \<noteq> RiskReadOnly \<longrightarrow> r = Inl request_timed_out))"
proof -
  have w: "steps_left (hb_authorize H i) \<le> 3" "hb_deadline H i \<le> hb_clock H + hb_answer_timeout H"
    using assms(2) hub_reachable_wait [OF assms(1), of i] by (simp_all add: wait_inv_def)
  have H1: "steps_left (hb_authorize H1 i) \<le> 3" "hb_deadline H1 i \<le> hb_clock H1"
    using run_counts [OF assms(3), of i] run_keeps_timer [OF assms(3) w(1)] w assms(4) by auto
  have reach: "hub_reachable H1" by (rule hub_run_reachable [OF assms(3,1)])
  have progress: "(\<exists>r. hb_authorize H2 i = Returned r) \<or> (\<exists>H3. hub_step H2 (AuthorizeTask i) H3) \<and> count_list us (AuthorizeTask i) < 3"
    if run: "hub_run H1 us H2" for us H2
  proof (cases "\<exists>r. hb_authorize H2 i = Returned r")
    case False
    have l: "steps_left (hb_authorize H2 i) \<le> 3" "hb_deadline H2 i \<le> hb_clock H2"
      using run_counts [OF run, of i] run_keeps_timer [OF run H1(1)] H1 by auto
    have "0 < steps_left (hb_authorize H2 i)" using False by (cases "hb_authorize H2 i") auto
    then have "count_list us (AuthorizeTask i) < 3" using run_counts [OF run, of i] H1(1) by simp
    then show ?thesis using due_step_possible [OF l] False by blast
  qed simp
  have timeout: "r = Inl request_timed_out"
    if run: "hub_run H1 us H2" and ret: "hb_authorize H2 i = Returned r" and free: "\<forall>m. \<not> took (hb_respond H2 m) i" "i \<notin> hb_cancelled H2"
      and risk: "ts_risk (ap_spec (hb_request H2 i)) \<noteq> RiskReadOnly" for us H2 r
  proof (cases r)
    case (Inl e)
    then show ?thesis using hub_reachable_wait [OF hub_run_reachable [OF run reach], of i] ret free
      by (auto simp: wait_inv_def ended_by_def)
  next
    case (Inr d)
    then have "hb_channel H2 i = Sent d" using hub_reachable_inv [OF hub_run_reachable [OF run reach], of i] ret risk
      by (auto simp: answer_inv_def)
    then obtain n where "hb_respond H2 n = Answered i d True"
      using hub_reachable_inv [OF hub_run_reachable [OF run reach], of i] by (auto simp: answer_inv_def)
    then have "took (hb_respond H2 n) i" by simp
    then show ?thesis using free(1) by blast
  qed
  show ?thesis using due_run_returns [OF H1] progress timeout by blast
qed

lemma own_step_keeps:
  assumes "hub_step H (AuthorizeTask i) H'" "hb_authorize H i \<noteq> NotCalled"
  shows "hb_respond H' = hb_respond H \<and> hb_cancelled H' = hb_cancelled H \<and> hb_request H' = hb_request H \<and> hb_authorize H' i \<noteq> NotCalled"
  using assms(1) by (cases; use assms(2) in \<open>auto simp: hub_ops\<close>)

lemma own_run_keeps:
  assumes "hub_run H (replicate n (AuthorizeTask i)) H'" "hb_authorize H i \<noteq> NotCalled"
  shows "hb_respond H' = hb_respond H \<and> hb_cancelled H' = hb_cancelled H \<and> hb_request H' = hb_request H"
  using assms
proof (induction n arbitrary: H)
  case (Suc n)
  then obtain H1 where "hub_step H (AuthorizeTask i) H1" "hub_run H1 (replicate n (AuthorizeTask i)) H'"
    by (auto elim: hub_run.cases)
  then show ?case using Suc.IH [of H1] own_step_keeps [of H i H1] Suc.prems(2) by simp
qed (auto elim: hub_run.cases)

text \<open>A request that nobody answers: after five minutes it returns the timeout error.\<close>

lemma sample_waiting: "hub_reachable (sample_hub [sample_approval [7]] {[7]} SenderLive Waiting NotResponding)"
proof -
  have risk: "ap_request_id (sample_approval [7]) = [7]" "ts_risk (ap_spec (sample_approval [7])) \<noteq> RiskReadOnly"
    by (simp_all add: sample_approval_def)
  from hub_reachable.step [OF sample_notified enqueue [of _ "[7]"]] show ?thesis
    by (simp add: hub_ops sample_hub_def)
qed

theorem approval_wait_ends_witness:
  "\<exists>n H2. hub_run ((sample_hub [sample_approval [7]] {[7]} SenderLive Waiting NotResponding)\<lparr>hb_clock := 300000\<rparr>)
      (replicate n (AuthorizeTask [7])) H2 \<and> hb_authorize H2 [7] = Returned (Inl request_timed_out)"
proof -
  let ?H = "sample_hub [sample_approval [7]] {[7]} SenderLive Waiting NotResponding"
  have w: "hb_authorize ?H [7] = Waiting" by (simp add: sample_hub_def)
  have "hub_step ?H ClockTask (?H\<lparr>hb_clock := hb_clock ?H + 300000\<rparr>)" by (rule time_passes)
  then have run: "hub_run ?H [ClockTask] (?H\<lparr>hb_clock := 300000\<rparr>)"
    using run_step [OF _ run_end] by (simp add: sample_hub_def)
  note ends = approval_wait_ends [OF sample_waiting w run]
  have "hb_clock ?H + hb_answer_timeout ?H \<le> hb_clock (?H\<lparr>hb_clock := 300000\<rparr>)"
    by (simp add: sample_hub_def DEFAULT_ANSWER_TIMEOUT_MS_def)
  note ends = ends [OF this]
  obtain n H2 r where r: "hub_run (?H\<lparr>hb_clock := 300000\<rparr>) (replicate n (AuthorizeTask [7])) H2" "hb_authorize H2 [7] = Returned r"
    using ends by blast
  have "hb_respond H2 = hb_respond ?H \<and> hb_cancelled H2 = {} \<and> hb_request H2 = hb_request ?H"
    using own_run_keeps [OF r(1)] w by (simp add: sample_hub_def)
  then have "r = Inl request_timed_out" using ends r by (simp add: sample_hub_def sample_approval_def)
  then show ?thesis using r by blast
qed

end
