(* ===== verification/Event_Authority.thy ===== *)
theory Event_Authority
  imports Approval_Gate "HOL-Library.Sublist"
begin

text \<open>
  The event authority of \<^verbatim>\<open>crates/agent-core/src/authority.rs\<close>: the one path on which runtime events get their
  sequence number and are appended to the event journal. The journal is an interface of the source
  (\<open>EventJournal\<close>); its \<open>append\<close> and \<open>flush\<close> are parameters. \<open>emit\<close> and the durable batch hold \<open>emit_gate\<close> to their end, so each
  is one step; \<open>flush\<close> does not take it, but reaches nothing except the journal, which is arbitrary. \<open>ea_sent\<close> is everything
  handed to the broadcast channel, by these methods or by the live sinks of \<open>Live_Events\<close>, which hold a clone of the sender
  (\<open>EventAuthority::sender\<close>) and send without a number of their own. A mint reads the clock, so an event comes with the
  reading at its mint. The sequence is an \<open>AtomicU64\<close>; its overflow after \<open>2\<^sup>6\<^sup>4\<close> events is not modelled.
\<close>

section \<open>State\<close>

record 'e runtime_event_envelope =
  ev_run_id :: uuid
  ev_seq :: nat
  ev_timestamp_ms :: nat
  ev_event :: 'e

record ('k, 'e) event_authority =
  ea_journal :: "'k option"
  ea_sent :: "'e runtime_event_envelope list"
  ea_seq :: nat

type_synonym ('k, 'e) event_append = "'k \<Rightarrow> 'e runtime_event_envelope \<Rightarrow> 'k \<times> unit agent_result"

type_synonym 'k event_flush = "'k \<Rightarrow> 'k \<times> unit agent_result"

definition event_authority_new :: "'k option \<Rightarrow> ('k, 'e) event_authority" where
  "event_authority_new journal = \<lparr>ea_journal = journal, ea_sent = [], ea_seq = 0\<rparr>"

definition sequence_cursor :: "('k, 'e) event_authority \<Rightarrow> nat" where
  "sequence_cursor A = ea_seq A"

section \<open>Emitting\<close>

definition envelope :: "('k, 'e) event_authority \<Rightarrow> uuid \<Rightarrow> nat \<Rightarrow> 'e \<Rightarrow> 'e runtime_event_envelope" where
  "envelope A run_id now event =
     \<lparr>ev_run_id = run_id, ev_seq = ea_seq A + 1, ev_timestamp_ms = now, ev_event = event\<rparr>"

text \<open>The \<open>if let Some(journal)\<close> of every emit: without a journal there is nothing to append.\<close>

definition journal_event ::
  "('k, 'e) event_append \<Rightarrow> ('k, 'e) event_authority \<Rightarrow> 'e runtime_event_envelope
     \<Rightarrow> ('k, 'e) event_authority \<times> unit agent_result" where
  "journal_event append_event A env =
     (case ea_journal A of
        None \<Rightarrow> (A, Inr ())
      | Some k \<Rightarrow> (case append_event k env of (k', res) \<Rightarrow> (A\<lparr>ea_journal := Some k'\<rparr>, res)))"

definition flush_journal ::
  "'k event_flush \<Rightarrow> ('k, 'e) event_authority \<Rightarrow> ('k, 'e) event_authority \<times> unit agent_result" where
  "flush_journal flush A =
     (case ea_journal A of
        None \<Rightarrow> (A, Inr ())
      | Some k \<Rightarrow> (case flush k of (k', res) \<Rightarrow> (A\<lparr>ea_journal := Some k'\<rparr>, res)))"

definition emit ::
  "('k, 'e) event_append \<Rightarrow> ('k, 'e) event_authority \<Rightarrow> uuid \<Rightarrow> nat \<Rightarrow> 'e
     \<Rightarrow> ('k, 'e) event_authority \<times> unit agent_result" where
  "emit append_event A run_id now event =
     (let env = envelope A run_id now event in
      and_then (journal_event append_event A env) (\<lambda>A1 _.
        (A1\<lparr>ea_seq := ev_seq env, ea_sent := ea_sent A1 @ [env]\<rparr>, Inr ())))"

definition MAX_DURABLE_BATCH_EVENTS :: nat where "MAX_DURABLE_BATCH_EVENTS = 64"

fun append_batch ::
  "('k, 'e) event_append \<Rightarrow> ('k, 'e) event_authority \<Rightarrow> uuid \<Rightarrow> (nat \<times> 'e) list
     \<Rightarrow> ('k, 'e) event_authority \<times> 'e runtime_event_envelope list agent_result" where
  "append_batch append_event A run_id [] = (A, Inr [])"
| "append_batch append_event A run_id ((now, event) # events) =
     (let env = envelope A run_id now event in
      and_then (journal_event append_event A env) (\<lambda>A1 _.
      and_then (append_batch append_event (A1\<lparr>ea_seq := ev_seq env\<rparr>) run_id events) (\<lambda>A2 envs.
        (A2, Inr (env # envs)))))"

definition emit_batch_durable ::
  "('k, 'e) event_append \<Rightarrow> 'k event_flush \<Rightarrow> ('k, 'e) event_authority \<Rightarrow> uuid \<Rightarrow> (nat \<times> 'e) list
     \<Rightarrow> ('k, 'e) event_authority \<times> unit agent_result" where
  "emit_batch_durable append_event flush A run_id events =
     (if events = [] then (A, Inr ())
      else if MAX_DURABLE_BATCH_EVENTS < length events
      then (A, Inl (InvalidRequest (lit ''durable event batch has '' @ dec (length events)
             @ lit '' members, above the '' @ dec MAX_DURABLE_BATCH_EVENTS @ lit '' cap'')))
      else
       and_then (append_batch append_event A run_id events) (\<lambda>A1 envs.
       and_then (flush_journal flush A1) (\<lambda>A2 _.
         (A2\<lparr>ea_sent := ea_sent A2 @ envs\<rparr>, Inr ()))))"

definition emit_durable ::
  "('k, 'e) event_append \<Rightarrow> 'k event_flush \<Rightarrow> ('k, 'e) event_authority \<Rightarrow> uuid \<Rightarrow> nat \<Rightarrow> 'e
     \<Rightarrow> ('k, 'e) event_authority \<times> unit agent_result" where
  "emit_durable append_event flush A run_id now event =
     emit_batch_durable append_event flush A run_id [(now, event)]"

section \<open>Calls, and what a journal saw\<close>

text \<open>
  \<open>recorded\<close> wraps any journal so that it keeps what it accepted and each flush that succeeded; the authority cannot tell
  the difference.
\<close>

datatype 'e journal_seen = SeenAppend "'e runtime_event_envelope" | SeenFlush

type_synonym ('k, 'e) recording = "'k \<times> 'e journal_seen list"

definition recorded_append :: "('k, 'e) event_append \<Rightarrow> (('k, 'e) recording, 'e) event_append" where
  "recorded_append append_event kl env =
     (case append_event (fst kl) env of
        (k', Inr ()) \<Rightarrow> ((k', snd kl @ [SeenAppend env]), Inr ())
      | (k', Inl e) \<Rightarrow> ((k', snd kl), Inl e))"

definition recorded_flush :: "'k event_flush \<Rightarrow> ('k, 'e) recording event_flush" where
  "recorded_flush flush kl =
     (case flush (fst kl) of
        (k', Inr ()) \<Rightarrow> ((k', snd kl @ [SeenFlush]), Inr ())
      | (k', Inl e) \<Rightarrow> ((k', snd kl), Inl e))"

datatype 'e event_call =
    CallEmit uuid nat 'e
  | CallBatch uuid "(nat \<times> 'e) list"
  | CallFlush

fun event_step ::
  "('k, 'e) event_append \<Rightarrow> 'k event_flush \<Rightarrow> ('k, 'e) event_authority \<Rightarrow> 'e event_call \<Rightarrow> ('k, 'e) event_authority" where
  "event_step append_event flush A (CallEmit run_id now event) = fst (emit append_event A run_id now event)"
| "event_step append_event flush A (CallBatch run_id events) = fst (emit_batch_durable append_event flush A run_id events)"
| "event_step append_event flush A CallFlush = fst (flush_journal flush A)"

fun appended :: "'e journal_seen list \<Rightarrow> 'e runtime_event_envelope list" where
  "appended [] = []"
| "appended (SeenAppend env # seen) = env # appended seen"
| "appended (SeenFlush # seen) = appended seen"

lemma appended_append [simp]: "appended (xs @ ys) = appended xs @ appended ys"
  by (induction xs rule: appended.induct) simp_all

text \<open>
  The invariant: what the journal accepted is numbered \<open>1, 2, \<dots>, ea_seq\<close>, and what was broadcast is a subsequence of it.
\<close>

definition event_ok :: "(('k, 'e) recording, 'e) event_authority \<Rightarrow> bool" where
  "event_ok A \<longleftrightarrow> (\<exists>k log. ea_journal A = Some (k, log) \<and> map ev_seq (appended log) = [1..<Suc (ea_seq A)]
     \<and> subseq (ea_sent A) (appended log))"

lemma event_okI:
  assumes "ea_journal A = Some (k, log)" "map ev_seq (appended log) = [1..<Suc (ea_seq A)]"
    "subseq (ea_sent A) (appended log)"
  shows "event_ok A"
  using assms by (auto simp: event_ok_def)

lemma flush_journal_recorded:
  assumes "flush_journal (recorded_flush flush) A = (A', res)" "ea_journal A = Some (k, log)"
  shows "\<exists>k'. ea_journal A' = Some (k', case res of Inr _ \<Rightarrow> log @ [SeenFlush] | Inl _ \<Rightarrow> log)
     \<and> ea_seq A' = ea_seq A \<and> ea_sent A' = ea_sent A"
  using assms by (auto simp: flush_journal_def recorded_flush_def split: prod.splits sum.splits)

lemma journal_event_recorded:
  assumes "journal_event (recorded_append append_event) A env = (A', res)" "ea_journal A = Some (k, log)"
  shows "\<exists>k'. ea_journal A' = Some (k', case res of Inr _ \<Rightarrow> log @ [SeenAppend env] | Inl _ \<Rightarrow> log)
     \<and> ea_seq A' = ea_seq A \<and> ea_sent A' = ea_sent A"
  using assms by (auto simp: journal_event_def recorded_append_def split: prod.splits sum.splits)

lemma append_batch_recorded:
  assumes "append_batch (recorded_append append_event) A run_id events = (A', res)" "ea_journal A = Some (k, log)"
    "map ev_seq (appended log) = [1..<Suc (ea_seq A)]"
  shows "\<exists>k' envs. ea_journal A' = Some (k', log @ map SeenAppend envs) \<and> ea_sent A' = ea_sent A
     \<and> map ev_seq (appended log @ envs) = [1..<Suc (ea_seq A')]
     \<and> (\<forall>es. res = Inr es \<longrightarrow> es = envs \<and> map ev_event es = map snd events \<and> (\<forall>e \<in> set es. ev_run_id e = run_id))"
  using assms
proof (induction events arbitrary: A A' res k log)
  case (Cons ne events)
  obtain now event where ne: "ne = (now, event)" by fastforce
  let ?env = "envelope A run_id now event"
  obtain A1 r1 where j: "journal_event (recorded_append append_event) A ?env = (A1, r1)" by fastforce
  obtain k1 where k1: "ea_journal A1 = Some (k1, case r1 of Inr _ \<Rightarrow> log @ [SeenAppend ?env] | Inl _ \<Rightarrow> log)"
    "ea_seq A1 = ea_seq A" "ea_sent A1 = ea_sent A"
    using journal_event_recorded [OF j Cons.prems(2)] by blast
  show ?case
  proof (cases r1)
    case (Inl e)
    then show ?thesis using Cons.prems j k1 ne by (auto simp: Let_def intro!: exI [of _ k1] exI [of _ "[]"])
  next
    case (Inr u)
    let ?A1 = "A1\<lparr>ea_seq := ev_seq ?env\<rparr>" and ?log = "log @ [SeenAppend ?env]"
    obtain A2 r2 where b: "append_batch (recorded_append append_event) ?A1 run_id events = (A2, r2)" by fastforce
    have q: "map ev_seq (appended ?log) = [1..<Suc (ea_seq ?A1)]" "ea_journal ?A1 = Some (k1, ?log)"
      using Cons.prems(3) k1 Inr by (simp_all add: envelope_def)
    obtain k' envs where ih: "ea_journal A2 = Some (k', ?log @ map SeenAppend envs)"
      "ea_sent A2 = ea_sent A" "map ev_seq (appended ?log @ envs) = [1..<Suc (ea_seq A2)]"
      "\<forall>es. r2 = Inr es \<longrightarrow> es = envs \<and> map ev_event es = map snd events \<and> (\<forall>e \<in> set es. ev_run_id e = run_id)"
      using Cons.IH [OF b q(2,1)] k1(3) by auto
    have step: "append_batch (recorded_append append_event) A run_id (ne # events)
        = (A2, case r2 of Inr es \<Rightarrow> Inr (?env # es) | Inl e \<Rightarrow> Inl e)"
      unfolding ne using j b Inr by (simp add: Let_def split: sum.splits)
    have A': "A' = A2" "res = (case r2 of Inr es \<Rightarrow> Inr (?env # es) | Inl e \<Rightarrow> Inl e)"
      using Cons.prems(1) unfolding step by simp_all
    show ?thesis
      using ih ne unfolding A'
      by (intro exI [of _ k'] exI [of _ "?env # envs"]) (auto simp: envelope_def split: sum.splits)
  qed
qed (auto intro!: exI [of _ "[]"])

lemma emit_ok:
  assumes "event_ok A" "emit (recorded_append append_event) A run_id now event = (A', res)"
  shows "event_ok A'"
proof -
  obtain k log where A: "ea_journal A = Some (k, log)" "map ev_seq (appended log) = [1..<Suc (ea_seq A)]"
    "subseq (ea_sent A) (appended log)" using assms(1) by (auto simp: event_ok_def)
  let ?env = "envelope A run_id now event"
  obtain A1 r1 where j: "journal_event (recorded_append append_event) A ?env = (A1, r1)" by fastforce
  obtain k1 where k1: "ea_journal A1 = Some (k1, case r1 of Inr _ \<Rightarrow> log @ [SeenAppend ?env] | Inl _ \<Rightarrow> log)"
    "ea_seq A1 = ea_seq A" "ea_sent A1 = ea_sent A"
    using journal_event_recorded [OF j A(1)] by blast
  show ?thesis
  proof (cases r1)
    case (Inl e)
    then show ?thesis using assms(2) j k1 A by (auto simp: emit_def Let_def intro: event_okI)
  next
    case (Inr u)
    then have "A' = A1\<lparr>ea_seq := ev_seq ?env, ea_sent := ea_sent A1 @ [?env]\<rparr>"
      using assms(2) j by (simp add: emit_def Let_def)
    then show ?thesis
      using k1 A Inr by (intro event_okI [of _ k1 "log @ [SeenAppend ?env]"])
        (auto simp: envelope_def intro: list_emb_append_mono)
  qed
qed

lemma emit_batch_ok:
  assumes "event_ok A" "emit_batch_durable (recorded_append append_event) (recorded_flush flush) A run_id events = (A', res)"
  shows "event_ok A'"
proof -
  obtain k log where A: "ea_journal A = Some (k, log)" "map ev_seq (appended log) = [1..<Suc (ea_seq A)]"
    "subseq (ea_sent A) (appended log)" using assms(1) by (auto simp: event_ok_def)
  show ?thesis
  proof (cases "events = [] \<or> MAX_DURABLE_BATCH_EVENTS < length events")
    case True
    then show ?thesis using assms by (simp add: emit_batch_durable_def split: if_splits)
  next
    case False
    obtain A1 r1 where b: "append_batch (recorded_append append_event) A run_id events = (A1, r1)" by fastforce
    obtain k1 envs where k1: "ea_journal A1 = Some (k1, log @ map SeenAppend envs)" "ea_sent A1 = ea_sent A"
      "map ev_seq (appended log @ envs) = [1..<Suc (ea_seq A1)]" "\<forall>es. r1 = Inr es \<longrightarrow> es = envs"
      using append_batch_recorded [OF b A(1,2)] by auto
    have ap: "appended (map SeenAppend envs) = envs" by (induction envs) simp_all
    have A1: "event_ok A1"
      using k1 A ap by (intro event_okI [of _ k1 "log @ map SeenAppend envs"]) (auto intro: subseq_rev_drop_many)
    show ?thesis
    proof (cases r1)
      case (Inl e)
      then show ?thesis using assms(2) False b A1 by (auto simp: emit_batch_durable_def)
    next
      case (Inr es)
      obtain A2 r2 where f: "flush_journal (recorded_flush flush) A1 = (A2, r2)" by fastforce
      obtain k2 where k2: "ea_journal A2 = Some (k2, case r2 of Inr _ \<Rightarrow> (log @ map SeenAppend envs) @ [SeenFlush]
          | Inl _ \<Rightarrow> log @ map SeenAppend envs)" "ea_seq A2 = ea_seq A1" "ea_sent A2 = ea_sent A1"
        using flush_journal_recorded [OF f k1(1)] by blast
      have A': "A' = (case r2 of Inr _ \<Rightarrow> A2\<lparr>ea_sent := ea_sent A2 @ envs\<rparr> | Inl _ \<Rightarrow> A2)"
        using assms(2) False b Inr f k1(4) by (cases r2) (auto simp: emit_batch_durable_def)
      have sub: "subseq (ea_sent A) (appended log @ envs)" "subseq (ea_sent A @ envs) (appended log @ envs)"
        using A(3) by (auto intro: subseq_rev_drop_many list_emb_append_mono)
      show ?thesis
      proof (cases r2)
        case (Inl e)
        then show ?thesis using k2 k1 ap sub A' by (intro event_okI [of _ k2 "log @ map SeenAppend envs"]) simp_all
      next
        case (Inr u)
        then show ?thesis
          using k2 k1 ap sub A' by (intro event_okI [of _ k2 "(log @ map SeenAppend envs) @ [SeenFlush]"]) simp_all
      qed
    qed
  qed
qed

lemma flush_ok:
  assumes "event_ok A"
  shows "event_ok (fst (flush_journal (recorded_flush flush) A))"
proof -
  obtain k log where A: "ea_journal A = Some (k, log)" "map ev_seq (appended log) = [1..<Suc (ea_seq A)]"
    "subseq (ea_sent A) (appended log)" using assms by (auto simp: event_ok_def)
  obtain A2 r2 where f: "flush_journal (recorded_flush flush) A = (A2, r2)" by fastforce
  obtain k2 where k2: "ea_journal A2 = Some (k2, case r2 of Inr _ \<Rightarrow> log @ [SeenFlush] | Inl _ \<Rightarrow> log)"
    "ea_seq A2 = ea_seq A" "ea_sent A2 = ea_sent A"
    using flush_journal_recorded [OF f A(1)] by blast
  show ?thesis using f k2 A by (cases r2) (auto intro: event_okI)
qed

lemma event_step_ok:
  assumes "event_ok A"
  shows "event_ok (event_step (recorded_append append_event) (recorded_flush flush) A c)"
  using emit_ok [OF assms prod.collapse [symmetric]] emit_batch_ok [OF assms prod.collapse [symmetric]] flush_ok [OF assms]
  by (cases c) simp_all

lemma event_run_ok:
  "event_ok A \<Longrightarrow> event_ok (foldl (event_step (recorded_append append_event) (recorded_flush flush)) A calls)"
  by (induction calls arbitrary: A) (simp_all add: event_step_ok)

end
