(* ===== verification/Core_Authority.thy ===== *)
theory Core_Authority
  imports Registry_Truth Approval_Gate Event_Authority
begin

text \<open>
  The kernel \<open>CoreAuthority\<close> of \<^verbatim>\<open>crates/agent-core/src/kernel/mod.rs\<close>: its state, the methods that run to the end under
  the authority gate (epoch changes, admission, commit admission, cancellation, settlement), and startup, which fences
  the previous process with a new epoch and settles what it left. Interfaces of the source are parameters: the operation
  journal (\<open>jappend\<close>, \<open>jrecover\<close>), the event journal, the effect reconciler and the broker's reservations. Error texts
  leave out interpolated ids.
\<close>

section \<open>State\<close>

datatype runtime_commit_kind = RunStart | TurnCommit | TaskCompletion

record context_consumption_ack =
  cc_turn_id :: uuid
  cc_operation_id :: uuid
  cc_model_round :: nat
  cc_materialization_id :: nat
  cc_item_ids :: "uuid list"
  cc_external_item_ids :: "uuid list"
  cc_foreground_item_ids :: "uuid list"

text \<open>The events the kernel itself emits, and the two live-only ones; the others are the runtime's and only pass through.\<close>

datatype runtime_event =
    RunStarted
  | RunCompleted
  | WarningEvent rust_str
  | RecoveryRequiredEvent
  | RuntimeCommitBarrier runtime_commit_kind "nat option"
  | OperationAccepted operation_snapshot
  | ToolStarted tool_call
  | ShadowDecision rust_str bool shadow_verdict
  | LeaseIssued rust_str rust_str "rust_str option" nat
  | ContextConsumed context_consumption_ack
  | ModelDelta uuid uuid nat rust_str
  | ModelRetrying uuid uuid nat nat nat

record ('j, 'g, 'k) core_authority =
  ca_run_id :: uuid
  ca_authority_epoch :: nat
  ca_operations :: "'j operation_registry"
  ca_lease_ttl_ms :: "nat option"
  ca_host_policies :: "host_tool_policies option"
  ca_gate :: 'g
  ca_event :: "('k, runtime_event) event_authority"

definition DEFAULT_LEASE_TTL_MS :: nat where "DEFAULT_LEASE_TTL_MS = 120000"

text \<open>A call of a registry method through the kernel.\<close>

definition on_operations ::
  "('j operation_registry \<Rightarrow> 'j operation_registry \<times> 'r) \<Rightarrow> ('j, 'g, 'k) core_authority
     \<Rightarrow> ('j, 'g, 'k) core_authority \<times> 'r" where
  "on_operations f C = (case f (ca_operations C) of (R, r) \<Rightarrow> (C\<lparr>ca_operations := R\<rparr>, r))"

definition bound_utf8 :: "rust_str \<Rightarrow> nat \<Rightarrow> rust_str" where
  "bound_utf8 v max_bytes = take_bytes v (floor_char_boundary v (min (str_len v) max_bytes))"

section \<open>The epoch and the operations under the authority gate\<close>

definition core_mutation_allowed :: "('j, 'g, 'k) core_authority \<Rightarrow> unit agent_result" where
  "core_mutation_allowed C = ensure_mutation_allowed (ca_operations C)"

text \<open>The \<open>self.ensure_mutation_allowed()?\<close> at the head of a method.\<close>

definition if_allowed ::
  "('j, 'g, 'k) core_authority \<Rightarrow> ('j, 'g, 'k) core_authority \<times> 'a agent_result
     \<Rightarrow> ('j, 'g, 'k) core_authority \<times> 'a agent_result" where
  "if_allowed C rest = (case core_mutation_allowed C of Inl e \<Rightarrow> (C, Inl e) | Inr () \<Rightarrow> rest)"

definition advance_authority_epoch ::
  "'j journal_append \<Rightarrow> ('j, 'g, 'k) core_authority \<Rightarrow> nat \<Rightarrow> ('j, 'g, 'k) core_authority \<times> nat agent_result" where
  "advance_authority_epoch jappend C expected =
     if_allowed C
      (case checked_add_u64 expected 1 of
         None \<Rightarrow> (C, Inl (RecoveryRequired (lit ''Core authority epoch is exhausted'')))
       | Some n \<Rightarrow>
           if ca_authority_epoch C \<noteq> expected
           then (C, Inl (RecoveryRequired (lit ''Core authority epoch mismatch: Runtime expected ''
                  @ dec expected @ lit '', current epoch is '' @ dec (ca_authority_epoch C))))
           else and_then (on_operations (\<lambda>R. persist_epoch_advance jappend R expected n) C)
                  (\<lambda>C1 _. (C1\<lparr>ca_authority_epoch := n\<rparr>, Inr n)))"

lemmas mutation_guards = core_mutation_allowed_def ensure_mutation_allowed_def ensure_healthy_def

text \<open>\<open>if current != expected_epoch { return Err(StaleEpoch) }\<close>.\<close>

definition if_current ::
  "('j, 'g, 'k) core_authority \<Rightarrow> nat \<Rightarrow> ('j, 'g, 'k) core_authority \<times> 'a agent_result
     \<Rightarrow> ('j, 'g, 'k) core_authority \<times> 'a agent_result" where
  "if_current C expected_epoch rest =
     (if ca_authority_epoch C \<noteq> expected_epoch then (C, Inl (StaleEpoch expected_epoch (ca_authority_epoch C))) else rest)"

definition finish_value_operation_if_current ::
  "'j journal_append \<Rightarrow> ('j, 'g, 'k) core_authority \<Rightarrow> nat \<Rightarrow> uuid \<Rightarrow> digest
     \<Rightarrow> ('j, 'g, 'k) core_authority \<times> unit agent_result" where
  "finish_value_operation_if_current jappend C expected_epoch operation_id argument_digest =
     if_allowed C (if_current C expected_epoch
       (on_operations (\<lambda>R. finish_value jappend R operation_id argument_digest expected_epoch) C))"

definition cancel_operation ::
  "'j journal_append \<Rightarrow> ('j, 'g, 'k) core_authority \<Rightarrow> tool_operation_identity
     \<Rightarrow> ('j, 'g, 'k) core_authority \<times> unit agent_result" where
  "cancel_operation jappend C identity = if_allowed C (on_operations (\<lambda>R. cancel jappend R identity) C)"

datatype operation_cancel_disposition =
    CancelledAtEpoch nat operation_query_result
  | CancelAlreadySettled operation_query_result

definition cancel_operation_and_advance ::
  "'j journal_append \<Rightarrow> ('j, 'g, 'k) core_authority \<Rightarrow> tool_operation_identity \<Rightarrow> nat
     \<Rightarrow> ('j, 'g, 'k) core_authority \<times> operation_cancel_disposition agent_result" where
  "cancel_operation_and_advance jappend C identity expected_epoch =
     (case identity_validate identity of Inl m \<Rightarrow> (C, Inl (InvalidRequest m)) | Inr () \<Rightarrow>
      if_allowed C
       (if ca_authority_epoch C \<noteq> expected_epoch
        then (C, Inl (RecoveryRequired (lit ''Core authority epoch mismatch: Runtime expected ''
               @ dec expected_epoch @ lit '', current epoch is '' @ dec (ca_authority_epoch C))))
        else (case checked_add_u64 expected_epoch 1 of
           None \<Rightarrow> (C, Inl (RecoveryRequired (lit ''Core authority epoch is exhausted'')))
         | Some n \<Rightarrow>
             and_then (on_operations (\<lambda>R. cancel_and_persist_epoch jappend R identity expected_epoch n) C)
              (\<lambda>C1 transition. case transition of
                 CancelledNow result \<Rightarrow> (C1\<lparr>ca_authority_epoch := n\<rparr>, Inr (CancelledAtEpoch n result))
               | AlreadySettled result \<Rightarrow> (C1, Inr (CancelAlreadySettled result))))))"

definition begin_operation_commit ::
  "'j journal_append \<Rightarrow> ('j, 'g, 'k) core_authority \<Rightarrow> uuid \<Rightarrow> uuid \<Rightarrow> digest
     \<Rightarrow> ('j, 'g, 'k) core_authority \<times> unit agent_result" where
  "begin_operation_commit jappend C operation_id effect_id argument_digest =
     if_allowed C
      (case query (ca_operations C) operation_id of
         Found snapshot \<Rightarrow>
           if oi_argument_digest (snap_identity snapshot) \<noteq> argument_digest
           then (C, Inl (InvalidRequest (lit ''operation argument digest does not match admission'')))
           else on_operations (\<lambda>R. begin_commit jappend R operation_id effect_id) C
       | _ \<Rightarrow> (C, Inl (InvalidRequest (lit ''unknown or expired operation''))))"

definition begin_operation_commit_if_current ::
  "'j journal_append \<Rightarrow> ('j, 'g, 'k) core_authority \<Rightarrow> nat \<Rightarrow> uuid \<Rightarrow> uuid \<Rightarrow> digest
     \<Rightarrow> ('j, 'g, 'k) core_authority \<times> unit agent_result" where
  "begin_operation_commit_if_current jappend C expected_epoch operation_id effect_id argument_digest =
     if_allowed C (if_current C expected_epoch
       (begin_operation_commit jappend C operation_id effect_id argument_digest))"

definition mark_operation_executing_if_current ::
  "'j journal_append \<Rightarrow> ('j, 'g, 'k) core_authority \<Rightarrow> nat \<Rightarrow> uuid \<Rightarrow> uuid option
     \<Rightarrow> ('j, 'g, 'k) core_authority \<times> unit agent_result" where
  "mark_operation_executing_if_current jappend C expected_epoch operation_id effect_id =
     if_allowed C (if_current C expected_epoch
       (on_operations (\<lambda>R. mark_executing jappend R operation_id effect_id) C))"

definition finish_operation_effect ::
  "'j journal_append \<Rightarrow> ('j, 'g, 'k) core_authority \<Rightarrow> uuid \<Rightarrow> effect_receipt
     \<Rightarrow> ('j, 'g, 'k) core_authority \<times> unit agent_result" where
  "finish_operation_effect jappend C operation_id receipt =
     if_allowed C (on_operations (\<lambda>R. finish_effect jappend R operation_id receipt) C)"

definition require_operation_recovery ::
  "('j, 'g, 'k) core_authority \<Rightarrow> rust_str \<Rightarrow> ('j, 'g, 'k) core_authority" where
  "require_operation_recovery C reason = C\<lparr>ca_operations := require_recovery (ca_operations C) reason\<rparr>"

definition abort_prepared_operation ::
  "'j journal_append \<Rightarrow> ('j, 'g, 'k) core_authority \<Rightarrow> uuid \<Rightarrow> uuid \<Rightarrow> digest
     \<Rightarrow> ('j, 'g, 'k) core_authority \<times> unit agent_result" where
  "abort_prepared_operation jappend C operation_id effect_id argument_digest =
     if_allowed C (on_operations (\<lambda>R. abort_prepared jappend R operation_id effect_id argument_digest) C)"

definition core_lease_matches :: "('j, 'g, 'k) core_authority \<Rightarrow> uuid \<Rightarrow> authority_lease \<Rightarrow> bool" where
  "core_lease_matches C operation_id lease = issued_lease_matches (ca_operations C) operation_id lease"

definition operation_tool_name :: "('j, 'g, 'k) core_authority \<Rightarrow> uuid \<Rightarrow> rust_str option" where
  "operation_tool_name C operation_id = (case query (ca_operations C) operation_id of
     Found snapshot \<Rightarrow> Some (oi_tool_name (snap_identity snapshot)) | _ \<Rightarrow> None)"

definition current_binding_epoch :: "('j, 'g, 'k) core_authority \<Rightarrow> rust_str \<Rightarrow> nat option" where
  "current_binding_epoch C tool_name =
     Option.bind (ca_host_policies C) (\<lambda>policies. ps_binding_epoch policies tool_name)"

section \<open>Admission and publication\<close>

datatype tool_operation_admission =
    AdmissionGranted operation_snapshot tool_operation_identity
  | AlreadyKnown operation_snapshot

text \<open>
  \<open>identity_matches\<close> is the comparison of an admitted identity with a call that admission, publication and dispatch
  make. \<open>ArgumentDigest::from_json\<close> panics on a value that has no canonical form; with no digest nothing matches.
\<close>

definition identity_matches ::
  "digest_env \<Rightarrow> ('j, 'g, 'k) core_authority \<Rightarrow> tool_operation_identity \<Rightarrow> tool_call \<Rightarrow> bool" where
  "identity_matches D C identity call \<longleftrightarrow>
     oi_run_id identity = ca_run_id C \<and> oi_call_id identity = tc_id call \<and> oi_tool_name identity = tc_name call
   \<and> Some (oi_argument_digest identity) = digest_from_json D (tc_arguments call)"

definition admit_tool_operation ::
  "'j journal_append \<Rightarrow> digest_env \<Rightarrow> ('j, 'g, 'k) core_authority \<Rightarrow> tool_operation_identity \<Rightarrow> tool_call \<Rightarrow> nat
     \<Rightarrow> ('j, 'g, 'k) core_authority \<times> tool_operation_admission agent_result" where
  "admit_tool_operation jappend D C identity call generation =
     (case identity_validate identity of Inl m \<Rightarrow> (C, Inl (InvalidRequest m)) | Inr () \<Rightarrow>
      if_allowed C
       (if \<not> identity_matches D C identity call \<or> oi_generation identity \<noteq> generation
        then (C, Inl (InvalidRequest (lit ''tool admission rejected: operation identity does not match the request'')))
        else if generation \<noteq> ca_authority_epoch C
        then (C, case query (ca_operations C) (oi_operation_id identity) of
                Found snapshot \<Rightarrow>
                  if snap_identity snapshot = identity then Inr (AlreadyKnown snapshot)
                  else Inl (InvalidRequest (lit ''operation was reused with a different identity or argument digest''))
              | _ \<Rightarrow> Inl (InvalidRequest (lit ''tool admission rejected by the Core authority fence: operation epoch ''
                       @ dec generation @ lit '', current epoch '' @ dec (ca_authority_epoch C))))
        else and_then (on_operations (\<lambda>R. accept jappend R identity) C) (\<lambda>C1 admission.
               (C1, Inr (case admission of
                  AdmissionAccepted \<Rightarrow> AdmissionGranted \<lparr>snap_identity = identity, snap_state = Accepted\<rparr> identity
                | AdmissionDuplicate snapshot \<Rightarrow> AlreadyKnown snapshot)))))"

section \<open>Startup\<close>

record operation_effect_context =
  ec_identity :: tool_operation_identity
  ec_effect_id :: uuid

definition effect_context_validate :: "operation_effect_context \<Rightarrow> rust_str + unit" where
  "effect_context_validate c =
     result_bind (identity_validate (ec_identity c)) (\<lambda>_.
       if is_nil (ec_effect_id c) then Inl (lit ''operation effect context contains a nil effect id'') else Inr ())"

record effect_reconciler =
  er_reconcile :: "operation_effect_context \<Rightarrow> effect_reconciliation agent_result"
  er_recover_orphans :: "unit agent_result"

type_synonym reservation_query = "operation_effect_context \<Rightarrow> effect_reconciliation option agent_result"

text \<open>
  What startup knows about one unresolved effect: an answer of the workspace reconciler or of the broker, or (\<open>Inl\<close>) the
  reason why the kernel has to stay fenced.
\<close>

definition reconcile_answer ::
  "effect_reconciler option \<Rightarrow> reservation_query option \<Rightarrow> operation_effect_context \<Rightarrow> rust_str + effect_reconciliation" where
  "reconcile_answer reconciler broker ctx =
     (case map_option (\<lambda>r. er_reconcile r ctx) reconciler of
        Some (Inl e) \<Rightarrow> Inl (lit ''operation effect reconciliation failed: '' @ error_display e)
      | Some (Inr result) \<Rightarrow>
          if result = ReconcileNotManaged
          then (case broker of
              None \<Rightarrow> Inl (lit ''operation effect is not managed by the configured recovery adapter'')
            | Some reserved \<Rightarrow> (case reserved ctx of
                Inr None \<Rightarrow> Inl (lit ''operation effect is not managed by the configured recovery adapter'')
              | Inr (Some candidate) \<Rightarrow> (case reconciliation_validate candidate of
                  Inr () \<Rightarrow> Inr candidate
                | Inl m \<Rightarrow> Inl (lit ''operation broker reconciliation returned invalid evidence: '' @ m))
              | Inl e \<Rightarrow> Inl (lit ''operation effect reconciliation failed: '' @ error_display e)))
          else Inr result
      | None \<Rightarrow> (case broker of
              None \<Rightarrow> Inl (lit ''operation has unresolved effect and no recovery adapter'')
            | Some reserved \<Rightarrow> (case reserved ctx of
                Inr None \<Rightarrow> Inl (lit ''operation has unresolved effect and no recovery adapter'')
              | Inr (Some candidate) \<Rightarrow> (case reconciliation_validate candidate of
                  Inr () \<Rightarrow> Inr candidate
                | Inl m \<Rightarrow> Inl (lit ''operation broker reconciliation returned invalid evidence: '' @ m))
              | Inl e \<Rightarrow> Inl (lit ''operation effect reconciliation failed: '' @ error_display e))))"

fun is_executing_or_prepared :: "operation_state \<Rightarrow> bool" where
  "is_executing_or_prepared (Executing _) = True"
| "is_executing_or_prepared (Prepared _) = True"
| "is_executing_or_prepared _ = False"

fun is_durability_failed :: "effect_durability \<Rightarrow> bool" where
  "is_durability_failed (DurabilityFailed _) = True"
| "is_durability_failed Durable = False"

text \<open>The terminal an answer gives an operation in a state, and whether the kernel stays fenced with it.\<close>

fun reconciled_terminal :: "operation_state \<Rightarrow> effect_reconciliation \<Rightarrow> rust_str + operation_terminal \<times> bool" where
  "reconciled_terminal state ReconcileNotManaged =
     Inl (lit ''operation effect is not managed by the configured recovery adapter'')"
| "reconciled_terminal state (ReconcileAmbiguous reason) = Inl (lit ''operation effect is ambiguous: '' @ reason)"
| "reconciled_terminal state (ReconcileNotApplied evidence) =
     Inr (NotApplied (case evidence of
            Some e \<Rightarrow> lit ''startup reconciliation proved the effect was not applied ('' @ e @ lit '')''
          | None \<Rightarrow> lit ''startup reconciliation proved the effect was not applied''), False)"
| "reconciled_terminal state (ReconcileApplied durability evidence) =
     Inr (Applied (if is_executing_or_prepared state
            then DurabilityFailed (lit ''recovery evidence shows the effect applied before Core durably recorded CommitStarted'')
            else durability) evidence,
          is_executing_or_prepared state \<or> is_durability_failed durability)"
| "reconciled_terminal state (ReconcileCompletedValue evidence) =
     (if is_executing state then Inr (CompletedValue, False)
      else Inl (lit ''operation effect reported CompletedValue; that settlement is only valid from Executing for non-transactional process or remote tools''))"

definition reconcile_recovered_effect ::
  "'j journal_append \<Rightarrow> effect_reconciler option \<Rightarrow> reservation_query option \<Rightarrow> 'j operation_registry
     \<Rightarrow> operation_snapshot \<Rightarrow> uuid \<Rightarrow> 'j operation_registry \<times> bool" where
  "reconcile_recovered_effect jappend reconciler broker R snapshot effect_id =
     (case result_bind
             (reconcile_answer reconciler broker \<lparr>ec_identity = snap_identity snapshot, ec_effect_id = effect_id\<rparr>)
             (reconciled_terminal (snap_state snapshot)) of
        Inl reason \<Rightarrow> (require_recovery R reason, True)
      | Inr (terminal, keep_fenced) \<Rightarrow>
          (case recover_terminal jappend R (snap_id snapshot) (snap_state snapshot) (Some effect_id) terminal of
             (R1, Inl e) \<Rightarrow>
               (require_recovery R1 (lit ''operation reconciliation could not be recorded: '' @ error_display e), False)
           | (R1, Inr ()) \<Rightarrow>
               (if keep_fenced
                then require_recovery R1 (lit ''operation effect applied before the Core commit boundary'') else R1, True)))"

fun terminal_needs_recovery :: "operation_terminal \<Rightarrow> rust_str option" where
  "terminal_needs_recovery (OutcomeUnknown e) = Some e"
| "terminal_needs_recovery (Applied (DurabilityFailed e) _) = Some e"
| "terminal_needs_recovery _ = None"

text \<open>One turn of the loop over the recovered snapshots; the flag is false when the loop breaks.\<close>

definition reconcile_snapshot ::
  "'j journal_append \<Rightarrow> effect_reconciler option \<Rightarrow> reservation_query option \<Rightarrow> 'j operation_registry
     \<Rightarrow> operation_snapshot \<Rightarrow> 'j operation_registry \<times> bool" where
  "reconcile_snapshot jappend reconciler broker R snapshot =
     (let pre_commit =
            (case recover_terminal jappend R (snap_id snapshot) (snap_state snapshot) None CancelledBeforeCommit of
               (R1, Inr ()) \<Rightarrow> (R1, True)
             | (R1, Inl e) \<Rightarrow>
                 (require_recovery R1 (lit ''startup could not terminalize operation before commit: '' @ error_display e), False))
      in case snap_state snapshot of
           Terminal _ terminal \<Rightarrow>
             (case terminal_needs_recovery terminal of
                Some e \<Rightarrow> (require_recovery R (lit ''operation recovered terminal truth that still requires recovery: '' @ e), True)
              | None \<Rightarrow> (R, True))
         | Accepted \<Rightarrow> pre_commit
         | Executing None \<Rightarrow> pre_commit
         | Executing (Some effect_id) \<Rightarrow> reconcile_recovered_effect jappend reconciler broker R snapshot effect_id
         | Prepared effect_id \<Rightarrow> reconcile_recovered_effect jappend reconciler broker R snapshot effect_id
         | CommitStarted effect_id \<Rightarrow> reconcile_recovered_effect jappend reconciler broker R snapshot effect_id)"

fun reconcile_loop ::
  "'j journal_append \<Rightarrow> effect_reconciler option \<Rightarrow> reservation_query option \<Rightarrow> 'j operation_registry
     \<Rightarrow> operation_snapshot list \<Rightarrow> 'j operation_registry" where
  "reconcile_loop jappend reconciler broker R [] = R"
| "reconcile_loop jappend reconciler broker R (s # ss) =
     (case reconcile_snapshot jappend reconciler broker R s of
        (R1, True) \<Rightarrow> reconcile_loop jappend reconciler broker R1 ss
      | (R1, False) \<Rightarrow> R1)"

definition reconcile_recovered_operations ::
  "'j journal_append \<Rightarrow> effect_reconciler option \<Rightarrow> reservation_query option \<Rightarrow> 'j operation_registry
     \<Rightarrow> 'j operation_registry" where
  "reconcile_recovered_operations jappend reconciler broker R =
     (let R1 = reconcile_loop jappend reconciler broker R (recovered_snapshots R) in
      case map_option er_recover_orphans reconciler of
        Some (Inl e) \<Rightarrow> require_recovery R1 (lit ''startup could not contain leftover process trees: '' @ error_display e)
      | _ \<Rightarrow> R1)"

text \<open>
  \<open>try_new\<close>. The broker is the configured one or the local one, whose \<open>reconcile_reservation\<close> is the default of the trait
  (no reservation to ask), so there always is one.
\<close>

definition local_reservations :: reservation_query where
  "local_reservations ctx = Inr None"

definition try_new ::
  "'j journal_append \<Rightarrow> ('j \<Rightarrow> operation_journal_recovery agent_result) \<Rightarrow> uuid \<Rightarrow> nat option
     \<Rightarrow> host_tool_policies option \<Rightarrow> 'g \<Rightarrow> 'k option \<Rightarrow> 'j option \<Rightarrow> effect_reconciler option \<Rightarrow> reservation_query option
     \<Rightarrow> ('j, 'g, 'k) core_authority agent_result" where
  "try_new jappend jrecover run_id lease_ttl_ms host_policies gate event_journal wal reconciler broker =
     result_bind (case wal of Some j \<Rightarrow> jrecover j | None \<Rightarrow> Inr recovery_default) (\<lambda>recovery.
     result_bind (registry_recover DEFAULT_OPERATION_REGISTRY_CAPACITY wal recovery) (\<lambda>R.
     result_bind
       (if wal \<noteq> None
        then (case checked_add_u64 (rv_authority_epoch recovery) 1 of
            None \<Rightarrow> Inl (RecoveryRequired (lit ''Core authority epoch is exhausted''))
          | Some n \<Rightarrow>
              (case persist_epoch_advance jappend R (rv_authority_epoch recovery) n of
                 (R1, Inr ()) \<Rightarrow> Inr (R1, n) | (R1, Inl e) \<Rightarrow> Inl e))
        else Inr (R, rv_authority_epoch recovery)) (\<lambda>(R1, epoch).
     Inr \<lparr>ca_run_id = run_id, ca_authority_epoch = epoch,
          ca_operations = reconcile_recovered_operations jappend reconciler
            (Some (case broker of Some b \<Rightarrow> b | None \<Rightarrow> local_reservations)) R1,
          ca_lease_ttl_ms = lease_ttl_ms, ca_host_policies = host_policies, ca_gate = gate,
          ca_event = event_authority_new event_journal\<rparr>)))"

end
