(* ===== verification/Core_Startup.thy ===== *)
theory Core_Startup
  imports Core_Authority
begin

text \<open>
  Startup of the kernel: the pass over the recovered operations settles every one of them or leaves the kernel fenced, and
  is itself nothing but a sequence of registry calls, so that the agreement with the journal survives it.
\<close>

section \<open>One recovered operation\<close>

abbreviation healthy :: "'j operation_registry \<Rightarrow> bool" where
  "healthy R \<equiv> rs_recovery_required (og_inner R) = None"

abbreviation lookup :: "'j operation_registry \<Rightarrow> uuid \<Rightarrow> operation_snapshot option" where
  "lookup R k \<equiv> map_of (rs_records (og_inner R)) k"

definition settled :: "operation_snapshot \<Rightarrow> bool" where
  "settled s \<longleftrightarrow> (case snap_state s of Terminal _ t \<Rightarrow> terminal_needs_recovery t = None | _ \<Rightarrow> False)"

lemma require_recovery_simps [simp]:
  "rs_records (og_inner (require_recovery R m)) = rs_records (og_inner R)"
  "healthy (require_recovery R m) \<longleftrightarrow> False"
  "og_journal (require_recovery R m) = og_journal R" "og_capacity (require_recovery R m) = og_capacity R"
  by (simp_all add: require_recovery_def Let_def)

lemma recover_terminal_cases:
  assumes "recover_terminal jappend R k st e t = (R', res)"
  shows "(\<exists>err. res = Inl err \<and> rs_records (og_inner R') = rs_records (og_inner R) \<and> (healthy R' \<longrightarrow> healthy R))
     \<or> (res = Inr () \<and> (\<exists>rcd. lookup R k = Some rcd
          \<and> rs_records (og_inner R') = AList.update k \<lparr>snap_identity = snap_identity rcd, snap_state = Terminal e t\<rparr> (rs_records (og_inner R)))
        \<and> (healthy R' \<longleftrightarrow> healthy R))"
proof (cases "terminal_validate t")
  case (Inl m)
  then show ?thesis using assms by (auto simp: recover_terminal_def)
next
  case (Inr u)
  note tv = Inr
  show ?thesis
  proof (cases "expected_effect st = Some e \<and> (\<exists>rcd. lookup R k = Some rcd \<and> snap_state rcd = st)")
    case False
    then show ?thesis using assms tv
      by (auto simp: recover_terminal_def split: option.splits if_splits)
  next
    case True
    then obtain rcd where rcd: "lookup R k = Some rcd" "snap_state rcd = st" "expected_effect st = Some e" by blast
    let ?n = "\<lparr>snap_identity = snap_identity rcd, snap_state = Terminal e t\<rparr>"
    obtain R1 r1 where a: "append_snapshot jappend R ?n = (R1, r1)" by fastforce
    note i = append_snapshot_inner [OF a]
    have run: "recover_terminal jappend R k st e t
        = and_then (R1, r1) (\<lambda>R1 _. (R1\<lparr>og_inner := publish_terminal (og_inner R1) k ?n\<rparr>, Inr ()))"
      using rcd tv a by (simp add: recover_terminal_def Let_def)
    show ?thesis
    proof (cases r1)
      case (Inl err)
      then show ?thesis using assms i(1,5) unfolding run by (cases "healthy R") auto
    next
      case (Inr v)
      then have "og_inner R1 = og_inner R" using append_snapshot_stored(1) a by blast
      then show ?thesis using assms rcd Inr unfolding run by (auto simp: publish_terminal_def)
    qed
  qed
qed

text \<open>What one turn of the loop leaves: other records as they were, and its own settled unless the kernel is fenced.\<close>

definition turn_ok :: "'j operation_registry \<Rightarrow> operation_snapshot \<Rightarrow> 'j operation_registry \<times> bool \<Rightarrow> bool" where
  "turn_ok R s out \<longleftrightarrow>
     (\<forall>k. k \<noteq> snap_id s \<longrightarrow> lookup (fst out) k = lookup R k)
   \<and> (healthy (fst out) \<longrightarrow> healthy R \<and> snd out \<and> (\<exists>s'. lookup (fst out) (snap_id s) = Some s' \<and> settled s'))"

lemma turn_ok_fenced: "rs_records (og_inner R') = rs_records (og_inner R) \<Longrightarrow> turn_ok R s (require_recovery R' m, b)"
  by (simp add: turn_ok_def)

lemma turn_ok_terminal:
  assumes "recover_terminal jappend R (snap_id s) st e t = (R', res)" "terminal_needs_recovery t = None"
  shows "res = Inr () \<Longrightarrow> turn_ok R s (R', True)" "res = Inl err \<Longrightarrow> turn_ok R s (require_recovery R' m, b)"
    "turn_ok R s (require_recovery R' m, b)"
  using recover_terminal_cases [OF assms(1)] assms(2) by (auto simp: turn_ok_def settled_def)

lemma turn_ok_needs_fence:
  assumes "recover_terminal jappend R (snap_id s) st e t = (R', res)"
  shows "turn_ok R s (require_recovery R' m, b)"
  using recover_terminal_cases [OF assms] by (auto simp: turn_ok_def)

lemma reconciled_terminal_kept:
  assumes "reconciled_terminal st ans = Inr (t, keep_fenced)" "\<not> keep_fenced"
  shows "terminal_needs_recovery t = None"
  using assms by (cases "(st, ans)" rule: reconciled_terminal.cases)
    (auto split: if_splits elim: is_durability_failed.elims)

lemma reconcile_effect_turn: "turn_ok R s (reconcile_recovered_effect jappend reconciler broker R s e)"
proof -
  define R1 res where "R1 = (\<lambda>t. fst (recover_terminal jappend R (snap_id s) (snap_state s) (Some e) t))"
    and "res = (\<lambda>t. snd (recover_terminal jappend R (snap_id s) (snap_state s) (Some e) t))"
  then have rt: "recover_terminal jappend R (snap_id s) (snap_state s) (Some e) t = (R1 t, res t)" for t by simp
  let ?ans = "result_bind (reconcile_answer reconciler broker \<lparr>ec_identity = snap_identity s, ec_effect_id = e\<rparr>)
    (reconciled_terminal (snap_state s))"
  show ?thesis
  proof (cases ?ans)
    case (Inl reason)
    then show ?thesis by (simp add: reconcile_recovered_effect_def turn_ok_fenced)
  next
    case (Inr tk)
    then obtain t keep where tk: "?ans = Inr (t, keep)" by (cases tk) auto
    have run: "reconcile_recovered_effect jappend reconciler broker R s e =
        (case (R1 t, res t) of
           (R1, Inl e) \<Rightarrow> (require_recovery R1 (lit ''operation reconciliation could not be recorded: '' @ error_display e), False)
         | (R1, Inr ()) \<Rightarrow> (if keep
             then require_recovery R1 (lit ''operation effect applied before the Core commit boundary'') else R1, True))"
      unfolding reconcile_recovered_effect_def tk sum.case prod.case rt ..
    from tk have none: "\<not> keep \<Longrightarrow> terminal_needs_recovery t = None" using reconciled_terminal_kept by auto
    show ?thesis
    proof (cases "res t")
      case (Inl err)
      then show ?thesis using turn_ok_needs_fence [OF rt [of t]] unfolding run by simp
    next
      case ok: (Inr u)
      show ?thesis
      proof (cases keep)
        case True
        then show ?thesis using ok turn_ok_needs_fence [OF rt [of t]] unfolding run by simp
      next
        case False
        then have "turn_ok R s (R1 t, True)" using turn_ok_terminal(1) [OF rt [of t] none] ok by simp
        then show ?thesis using ok False unfolding run by simp
      qed
    qed
  qed
qed

lemma reconcile_snapshot_turn:
  assumes "lookup R (snap_id s) = Some s"
  shows "turn_ok R s (reconcile_snapshot jappend reconciler broker R s)"
proof -
  have pre: "turn_ok R s (case recover_terminal jappend R (snap_id s) (snap_state s) None CancelledBeforeCommit of
       (R1, Inr ()) \<Rightarrow> (R1, True)
     | (R1, Inl e) \<Rightarrow> (require_recovery R1 (lit ''startup could not terminalize operation before commit: '' @ error_display e), False))"
  proof (cases "recover_terminal jappend R (snap_id s) (snap_state s) None CancelledBeforeCommit")
    case (Pair R1 res)
    then show ?thesis
      using turn_ok_terminal [OF Pair] by (cases res) simp_all
  qed
  show ?thesis
  proof (cases "snap_state s")
    case (Executing e)
    then show ?thesis using pre reconcile_effect_turn
      by (cases e) (simp_all add: reconcile_snapshot_def Let_def)
  next
    case (Terminal e t)
    then show ?thesis
      using assms by (cases "terminal_needs_recovery t")
        (simp_all add: reconcile_snapshot_def Let_def turn_ok_def settled_def)
  qed (use pre reconcile_effect_turn in \<open>simp_all add: reconcile_snapshot_def Let_def\<close>)
qed

section \<open>The loop\<close>

lemma reconcile_loop_settles:
  assumes "distinct (map snap_id ss)" "\<forall>s \<in> set ss. lookup R (snap_id s) = Some s"
  shows "(\<forall>k. k \<notin> snap_id ` set ss \<longrightarrow> lookup (reconcile_loop jappend reconciler broker R ss) k = lookup R k)
     \<and> (healthy (reconcile_loop jappend reconciler broker R ss) \<longrightarrow> healthy R
        \<and> (\<forall>s \<in> set ss. \<exists>s'. lookup (reconcile_loop jappend reconciler broker R ss) (snap_id s) = Some s' \<and> settled s'))"
  using assms
proof (induction ss arbitrary: R)
  case (Cons s ss)
  obtain R1 go where r: "reconcile_snapshot jappend reconciler broker R s = (R1, go)" by fastforce
  have t: "turn_ok R s (R1, go)" using reconcile_snapshot_turn [of R s jappend reconciler broker] Cons.prems(2) r by simp
  then have other: "k \<noteq> snap_id s \<Longrightarrow> lookup R1 k = lookup R k" for k by (simp add: turn_ok_def)
  show ?case
  proof (cases go)
    case False
    then show ?thesis using t r by (auto simp: turn_ok_def)
  next
    case True
    have "\<forall>s' \<in> set ss. lookup R1 (snap_id s') = Some s'" using Cons.prems other by (auto simp: image_iff)
    note ih = Cons.IH [OF _ this]
    have "snap_id s \<notin> snap_id ` set ss" using Cons.prems(1) by simp
    then show ?thesis using ih t r True Cons.prems(1) other by (auto simp: turn_ok_def)
  qed
qed simp

lemma recovered_snapshots_cover:
  assumes "registry_wf R"
  shows "distinct (map snap_id (recovered_snapshots R))" "\<forall>s \<in> set (recovered_snapshots R). lookup R (snap_id s) = Some s"
    "lookup R k = Some s \<Longrightarrow> s \<in> set (recovered_snapshots R) \<and> snap_id s = k"
proof -
  have wf: "table_wf (rs_records (og_inner R))" using assms by (simp add: registry_wf_def state_inv_def)
  have keys: "map (snap_id \<circ> snd) (rs_records (og_inner R)) = map fst (rs_records (og_inner R))"
    using wf by (auto simp: table_wf_def)
  define vs where "vs = map snd (rs_records (og_inner R))"
  have "distinct (map snap_id vs)" unfolding vs_def map_map keys using wf by (simp add: table_wf_def)
  then have "distinct (map snap_id (sort_key snap_id vs))" by (simp add: distinct_map)
  then show "distinct (map snap_id (recovered_snapshots R))" by (simp add: recovered_snapshots_def vs_def)
  show "\<forall>s \<in> set (recovered_snapshots R). lookup R (snap_id s) = Some s"
    using table_lookup [OF wf] by (auto simp: recovered_snapshots_def table_values_def)
  show "lookup R k = Some s \<Longrightarrow> s \<in> set (recovered_snapshots R) \<and> snap_id s = k"
    using table_lookup [OF wf, of k s] by (auto simp: recovered_snapshots_def table_values_def)
qed

lemma reconcile_settles:
  assumes "registry_wf R" "healthy (reconcile_recovered_operations jappend reconciler broker R)"
    "lookup (reconcile_recovered_operations jappend reconciler broker R) k = Some s"
  shows "settled s"
proof -
  let ?R1 = "reconcile_loop jappend reconciler broker R (recovered_snapshots R)"
  note cov = recovered_snapshots_cover [OF assms(1)]
  have R1: "reconcile_recovered_operations jappend reconciler broker R = ?R1"
    using assms(2) by (auto simp: reconcile_recovered_operations_def Let_def split: option.splits sum.splits)
  note l = reconcile_loop_settles [OF cov(1,2), of jappend reconciler broker]
  have "k \<in> snap_id ` set (recovered_snapshots R)"
  proof (rule ccontr)
    assume "k \<notin> snap_id ` set (recovered_snapshots R)"
    moreover from this have "lookup R k = Some s" using l assms(3) unfolding R1 by auto
    ultimately show False using cov(3) by blast
  qed
  then show ?thesis using l assms(2,3) unfolding R1 by auto
qed

section \<open>The pass is a run of the registry\<close>

lemma run_append: "registry_run jappend R (xs @ ys) = registry_run jappend (registry_run jappend R xs) ys"
  by (simp add: registry_run_def)

definition runs_to :: "'j journal_append \<Rightarrow> 'j operation_registry \<Rightarrow> 'j operation_registry \<Rightarrow> bool" where
  "runs_to jappend R R' \<longleftrightarrow> (\<exists>calls. R' = registry_run jappend R calls)"

lemma runs_to_refl [simp]: "runs_to jappend R R"
  unfolding runs_to_def by (rule exI [of _ "[]"]) simp

lemma runs_to_trans: "runs_to jappend R R' \<Longrightarrow> runs_to jappend R' R'' \<Longrightarrow> runs_to jappend R R''"
  unfolding runs_to_def by (metis run_append)

lemma runs_to_step: "runs_to jappend R (registry_step jappend R c)"
  unfolding runs_to_def by (rule exI [of _ "[c]"]) simp

text \<open>The pass makes two of the calls only, and neither of them moves the epoch.\<close>

fun startup_call :: "registry_op \<Rightarrow> bool" where
  "startup_call (CallRecoverTerminal _ _ _ _) = True"
| "startup_call (CallRequireRecovery _) = True"
| "startup_call _ = False"

definition startup_to :: "'j journal_append \<Rightarrow> 'j operation_registry \<Rightarrow> 'j operation_registry \<Rightarrow> bool" where
  "startup_to jappend R R' \<longleftrightarrow> (\<exists>calls. list_all startup_call calls \<and> R' = registry_run jappend R calls)"

lemma startup_to_refl [simp]: "startup_to jappend R R"
  unfolding startup_to_def by (rule exI [of _ "[]"]) simp

lemma startup_to_trans: "startup_to jappend R R' \<Longrightarrow> startup_to jappend R' R'' \<Longrightarrow> startup_to jappend R R''"
  unfolding startup_to_def by (metis run_append list_all_append)

lemma startup_to_step: "startup_call c \<Longrightarrow> startup_to jappend R (registry_step jappend R c)"
  unfolding startup_to_def by (rule exI [of _ "[c]"]) simp

lemma startup_to_runs: "startup_to jappend R R' \<Longrightarrow> runs_to jappend R R'"
  unfolding startup_to_def runs_to_def by blast

lemma startup_to_require: "startup_to jappend R R' \<Longrightarrow> startup_to jappend R (require_recovery R' m)"
  using startup_to_trans [OF _ startup_to_step [of "CallRequireRecovery m" jappend R']] by simp

lemma startup_to_recover: "recover_terminal jappend R k st e t = (R', res) \<Longrightarrow> startup_to jappend R R'"
  using startup_to_step [of "CallRecoverTerminal k st e t" jappend R] by simp

lemma reconcile_snapshot_runs: "startup_to jappend R (fst (reconcile_snapshot jappend reconciler broker R s))"
proof -
  have eff: "startup_to jappend R (fst (reconcile_recovered_effect jappend reconciler broker R s e))" for e
    by (auto simp: reconcile_recovered_effect_def intro: startup_to_require startup_to_recover split: sum.splits prod.splits)
  have pre: "startup_to jappend R (fst (case recover_terminal jappend R (snap_id s) (snap_state s) None CancelledBeforeCommit of
       (R1, Inr ()) \<Rightarrow> (R1, True)
     | (R1, Inl e) \<Rightarrow> (require_recovery R1 (lit ''startup could not terminalize operation before commit: '' @ error_display e), False)))"
    by (auto intro: startup_to_require startup_to_recover split: sum.splits prod.splits)
  show ?thesis
    using eff pre by (auto simp: reconcile_snapshot_def Let_def intro: startup_to_require
        split: operation_state.splits option.splits)
qed

lemma reconcile_loop_runs: "startup_to jappend R (reconcile_loop jappend reconciler broker R ss)"
proof (induction ss arbitrary: R)
  case (Cons s ss)
  obtain R1 go where r: "reconcile_snapshot jappend reconciler broker R s = (R1, go)" by fastforce
  have "startup_to jappend R R1" using reconcile_snapshot_runs [of jappend R reconciler broker s] r by simp
  then show ?case using r Cons.IH [of R1] startup_to_trans by (cases go) auto
qed simp

lemma reconcile_runs: "startup_to jappend R (reconcile_recovered_operations jappend reconciler broker R)"
  by (auto simp: reconcile_recovered_operations_def Let_def
      intro: reconcile_loop_runs startup_to_require split: option.splits sum.splits)

end
