(* ===== verification/Tool_Failure.thy ===== *)
theory Tool_Failure
  imports Approval_Gate
begin

text \<open>
  Tool outputs and the failure diagnosis of \<^verbatim>\<open>crates/agent-contracts/src/tool.rs\<close>, with the output authority of
  \<^verbatim>\<open>crates/agent-core/src/authority.rs\<close>: what a producer wrote about its own failure is stripped from the metadata,
  the producer's fields are bounded by the output broker, and only then the runtime writes its own diagnosis. The output
  broker is an interface of the source and a parameter here.
\<close>

section \<open>Process tools and text\<close>

definition is_non_transactional_process_tool :: "rust_str \<Rightarrow> bool" where
  "is_non_transactional_process_tool name \<longleftrightarrow>
     name \<in> {lit ''shell.exec'', lit ''process.run'', lit ''process.session'', lit ''verify.run''}"

text \<open>\<open>contains s p\<close> is \<open>str::contains\<close>, \<open>starts_with s p\<close> is \<open>str::starts_with\<close>.\<close>

definition starts_with :: "rust_str \<Rightarrow> rust_str \<Rightarrow> bool" where
  "starts_with s p \<longleftrightarrow> take (length p) s = p"

fun contains :: "rust_str \<Rightarrow> rust_str \<Rightarrow> bool" where
  "contains [] p \<longleftrightarrow> p = []"
| "contains (c # s) p \<longleftrightarrow> starts_with (c # s) p \<or> contains s p"

definition to_ascii_lowercase :: "rust_str \<Rightarrow> rust_str" where
  "to_ascii_lowercase = map (\<lambda>c. if 65 \<le> c \<and> c \<le> 90 then c + 32 else c)"

section \<open>Failure classes\<close>

datatype tool_failure_class =
    ClassShellDialectMismatch | ClassCommandUnavailable | ClassMissingProjectMarker | ClassStaleRevision
  | ClassNoExactMatch | ClassAmbiguousMatch | ClassNoSearchMatch | ClassProcessExit
  | ClassVerificationFailure | ClassTimeout | ClassCancellation | ClassHiddenPath | ClassPathNotFound
  | ClassSurfaceUnavailable | ClassSchemaMismatch | ClassInvalidRequest | ClassDuplicateNoProgress
  | ClassApprovalDenied | ClassIo

datatype tool_failure_domain =
    ExecutableResolution | EditTarget | ResourcePath | ProjectMarker | NonDeterministic

fun proves_no_effect :: "tool_failure_class \<Rightarrow> bool" where
  "proves_no_effect c \<longleftrightarrow> c \<in> {ClassNoExactMatch, ClassAmbiguousMatch, ClassNoSearchMatch, ClassHiddenPath}"

fun class_as_str :: "tool_failure_class \<Rightarrow> rust_str" where
  "class_as_str ClassShellDialectMismatch = lit ''shell_dialect_mismatch''"
| "class_as_str ClassCommandUnavailable = lit ''command_unavailable''"
| "class_as_str ClassMissingProjectMarker = lit ''missing_project_marker''"
| "class_as_str ClassStaleRevision = lit ''stale_revision''"
| "class_as_str ClassNoExactMatch = lit ''no_exact_match''"
| "class_as_str ClassAmbiguousMatch = lit ''ambiguous_match''"
| "class_as_str ClassNoSearchMatch = lit ''no_search_match''"
| "class_as_str ClassProcessExit = lit ''process_exit''"
| "class_as_str ClassVerificationFailure = lit ''verification_failure''"
| "class_as_str ClassTimeout = lit ''timeout''"
| "class_as_str ClassCancellation = lit ''cancellation''"
| "class_as_str ClassHiddenPath = lit ''hidden_path''"
| "class_as_str ClassPathNotFound = lit ''path_not_found''"
| "class_as_str ClassSurfaceUnavailable = lit ''surface_unavailable''"
| "class_as_str ClassSchemaMismatch = lit ''schema_mismatch''"
| "class_as_str ClassInvalidRequest = lit ''invalid_request''"
| "class_as_str ClassDuplicateNoProgress = lit ''duplicate_no_progress''"
| "class_as_str ClassApprovalDenied = lit ''approval_denied''"
| "class_as_str ClassIo = lit ''io''"

fun default_recovery_hint :: "tool_failure_class \<Rightarrow> rust_str" where
  "default_recovery_hint ClassShellDialectMismatch =
     lit ''Use the selected shell dialect named in the shell.exec schema.''"
| "default_recovery_hint ClassCommandUnavailable =
     lit ''The command is not available in this shell; pick another command or process.run.''"
| "default_recovery_hint ClassMissingProjectMarker =
     lit ''The expected project manifest is absent; do not invent one.''"
| "default_recovery_hint ClassStaleRevision =
     lit ''Re-read the file and retry with the current revision. Matching stays exact.''"
| "default_recovery_hint ClassNoExactMatch =
     lit ''Re-read and supply an exact unique anchor. Matching stays exact.''"
| "default_recovery_hint ClassAmbiguousMatch =
     lit ''Supply occurrence or a unique exact anchor. Matching stays exact.''"
| "default_recovery_hint ClassNoSearchMatch =
     lit ''Broaden or change the query; do not invent missing files.''"
| "default_recovery_hint ClassProcessExit =
     lit ''Inspect the bounded output and fix the command or code.''"
| "default_recovery_hint ClassVerificationFailure =
     lit ''Hidden verification failed; inspect the remaining assertions.''"
| "default_recovery_hint ClassTimeout =
     lit ''Narrow the command or raise the timeout within the schema cap.''"
| "default_recovery_hint ClassCancellation =
     lit ''The operation was cancelled; do not assume it finished.''"
| "default_recovery_hint ClassHiddenPath =
     lit ''Use artifact.read or git.* instead of ordinary file tools.''"
| "default_recovery_hint ClassPathNotFound =
     lit ''Use a path that exists in the parent listing; do not invent manifests.''"
| "default_recovery_hint ClassSurfaceUnavailable =
     lit ''Discover or load the tool, then use only a schema present on the next captured surface.''"
| "default_recovery_hint ClassSchemaMismatch =
     lit ''Fix the arguments to match the tool schema exactly: keys, types, enums and bounds.''"
| "default_recovery_hint ClassInvalidRequest = lit ''Fix the arguments against the tool schema.''"
| "default_recovery_hint ClassDuplicateNoProgress =
     lit ''This exact call already failed deterministically and the files are unchanged. Change the arguments, re-read the target, or finish with the current state.''"
| "default_recovery_hint ClassApprovalDenied =
     lit ''The operator or policy denied this call. Request the grant or adjust the task; do not retry the same call.''"
| "default_recovery_hint ClassIo = lit ''Retry only after checking the path and workspace confinement.''"

definition class_parse :: "rust_str \<Rightarrow> tool_failure_class option" where
  "class_parse = map_of
     [(lit ''shell_dialect_mismatch'', ClassShellDialectMismatch),
      (lit ''command_unavailable'', ClassCommandUnavailable),
      (lit ''missing_project_marker'', ClassMissingProjectMarker),
      (lit ''stale_revision'', ClassStaleRevision),
      (lit ''no_exact_match'', ClassNoExactMatch),
      (lit ''ambiguous_match'', ClassAmbiguousMatch),
      (lit ''no_search_match'', ClassNoSearchMatch),
      (lit ''process_exit'', ClassProcessExit),
      (lit ''verification_failure'', ClassVerificationFailure),
      (lit ''timeout'', ClassTimeout),
      (lit ''cancellation'', ClassCancellation),
      (lit ''hidden_path'', ClassHiddenPath),
      (lit ''path_not_found'', ClassPathNotFound),
      (lit ''surface_unavailable'', ClassSurfaceUnavailable),
      (lit ''schema_mismatch'', ClassSchemaMismatch),
      (lit ''invalid_request'', ClassInvalidRequest),
      (lit ''duplicate_no_progress'', ClassDuplicateNoProgress),
      (lit ''approval_denied'', ClassApprovalDenied),
      (lit ''io'', ClassIo)]"

fun nothing_executed :: "tool_failure_class \<Rightarrow> bool" where
  "nothing_executed c \<longleftrightarrow> c \<in> {ClassShellDialectMismatch, ClassCommandUnavailable, ClassMissingProjectMarker,
     ClassStaleRevision, ClassNoExactMatch, ClassAmbiguousMatch, ClassPathNotFound, ClassSurfaceUnavailable,
     ClassSchemaMismatch, ClassInvalidRequest, ClassHiddenPath, ClassDuplicateNoProgress}"

fun failure_domain :: "tool_failure_class \<Rightarrow> tool_failure_domain" where
  "failure_domain c =
     (if c \<in> {ClassShellDialectMismatch, ClassCommandUnavailable} then ExecutableResolution
      else if c = ClassMissingProjectMarker then ProjectMarker
      else if c = ClassStaleRevision then EditTarget
      else if c \<in> {ClassNoExactMatch, ClassAmbiguousMatch, ClassNoSearchMatch, ClassHiddenPath, ClassPathNotFound}
      then ResourcePath
      else NonDeterministic)"

definition message_looks_like_not_found :: "rust_str \<Rightarrow> bool" where
  "message_looks_like_not_found message =
     (let m = to_ascii_lowercase message in
      contains m (lit ''not found'') \<or> contains m (lit ''no such file'') \<or> contains m (lit ''cannot find'')
    \<or> contains m (lit ''os error 2'') \<or> contains m (lit ''os error 3'')
    \<or> contains m (lit ''ntstatus 0xc0000034'') \<or> contains m (lit ''ntstatus 0xc000003a''))"

definition failure_class_from_message :: "rust_str \<Rightarrow> tool_failure_class" where
  "failure_class_from_message message =
     (let m = to_ascii_lowercase message in
      if contains m (lit ''cancelled'') then ClassCancellation
      else if contains m (lit ''timed out'') \<or> contains m (lit ''timeout'') then ClassTimeout
      else if contains m (lit ''base_revision'') \<or> contains m (lit ''stale_revision'') then ClassStaleRevision
      else if contains m (lit ''disambiguate'') \<or> contains m (lit ''ambiguous'') then ClassAmbiguousMatch
      else if contains m (lit ''appears 0'') \<or> contains m (lit ''no_exact_match'') \<or> contains m (lit ''no exact'')
      then ClassNoExactMatch
      else if contains m (lit ''hidden_path'') \<or> (contains m (lit ''.focus-agent'') \<and> contains m (lit ''not allowed''))
      then ClassHiddenPath
      else if message_looks_like_not_found message then ClassPathNotFound
      else if contains m (lit ''i/o error'') \<or> contains m (lit ''io error'') then ClassIo
      else ClassInvalidRequest)"

section \<open>Outputs and their metadata\<close>

record tool_output =
  to_call_id :: rust_str
  to_tool_name :: rust_str
  to_ok :: bool
  to_summary :: rust_str
  to_model_content :: rust_str
  to_artifact_ref :: "rust_str option"
  to_metadata :: json

definition TOOL_FAILURE_CLASS_KEY :: rust_str where "TOOL_FAILURE_CLASS_KEY = lit ''failure_class''"
definition TOOL_RECOVERY_HINT_KEY :: rust_str where "TOOL_RECOVERY_HINT_KEY = lit ''recovery_hint''"
definition TOOL_RECOVERY_HINT_MAX_CHARS :: nat where "TOOL_RECOVERY_HINT_MAX_CHARS = 256"
definition EXECUTION_FACTS_METADATA_KEY :: rust_str where "EXECUTION_FACTS_METADATA_KEY = lit ''_execution_facts''"
definition RUNTIME_METADATA_KEY :: rust_str where "RUNTIME_METADATA_KEY = lit ''_runtime''"

definition RESERVED_RUNTIME_METADATA_KEYS :: "rust_str list" where
  "RESERVED_RUNTIME_METADATA_KEYS =
     [RUNTIME_METADATA_KEY, EXECUTION_FACTS_METADATA_KEY, TOOL_FAILURE_CLASS_KEY, TOOL_RECOVERY_HINT_KEY,
      lit ''retryable'']"

definition PRODUCER_AUTHORITY_METADATA_KEYS :: "rust_str list" where
  "PRODUCER_AUTHORITY_METADATA_KEYS =
     [lit ''path'', lit ''revision'', lit ''files'', lit ''verification'', lit ''intent'',
      lit ''mutates_workspace'', lit ''start_line'', lit ''end_line'', lit ''covers_file'']"

text \<open>The members of a value that is an object, and the empty object otherwise (\<open>*metadata = json!({})\<close>).\<close>

fun object_members :: "json \<Rightarrow> (rust_str \<times> json) list" where
  "object_members (JObject ms) = ms"
| "object_members _ = []"

fun bound_hint :: "json option \<Rightarrow> json option" where
  "bound_hint (Some (JString hint)) = Some (JString (take TOOL_RECOVERY_HINT_MAX_CHARS hint))"
| "bound_hint v = v"

definition attach_failure_class :: "json \<Rightarrow> tool_failure_class \<Rightarrow> json" where
  "attach_failure_class metadata class =
     (let ms = AList.delete (lit ''retryable'')
                 (AList.update TOOL_FAILURE_CLASS_KEY (JString (class_as_str class)) (object_members metadata));
          ms = (case map_of ms TOOL_RECOVERY_HINT_KEY of
                  Some _ \<Rightarrow> ms
                | None \<Rightarrow> AList.update TOOL_RECOVERY_HINT_KEY (JString (default_recovery_hint class)) ms)
      in JObject (case bound_hint (map_of ms TOOL_RECOVERY_HINT_KEY) of
                    Some v \<Rightarrow> AList.update TOOL_RECOVERY_HINT_KEY v ms
                  | None \<Rightarrow> ms))"

definition tool_failure_output ::
  "rust_str \<Rightarrow> rust_str \<Rightarrow> tool_failure_class \<Rightarrow> rust_str \<Rightarrow> rust_str \<Rightarrow> json \<Rightarrow> tool_output" where
  "tool_failure_output call_id tool_name class summary model_content metadata =
     \<lparr>to_call_id = call_id, to_tool_name = tool_name, to_ok = False, to_summary = summary,
      to_model_content = model_content, to_artifact_ref = None,
      to_metadata = attach_failure_class metadata class\<rparr>"

section \<open>The runtime's diagnosis\<close>

record runtime_diagnosis =
  rd_class :: tool_failure_class
  rd_hint :: rust_str

fun strip_metadata_keys :: "json \<Rightarrow> rust_str list \<Rightarrow> json" where
  "strip_metadata_keys (JObject ms) keys = JObject (fold AList.delete keys ms)"
| "strip_metadata_keys v keys = v"

definition sanitize_untrusted_producer_output :: "tool_output \<Rightarrow> tool_output" where
  "sanitize_untrusted_producer_output out =
     out\<lparr>to_metadata := strip_metadata_keys (strip_metadata_keys (to_metadata out) RESERVED_RUNTIME_METADATA_KEYS)
                         PRODUCER_AUTHORITY_METADATA_KEYS\<rparr>"

definition prose_class :: "tool_output \<Rightarrow> tool_failure_class" where
  "prose_class out = failure_class_from_message (to_summary out @ [10] @ to_model_content out)"

definition take_runtime_diagnosis :: "tool_output \<Rightarrow> tool_output \<times> runtime_diagnosis option" where
  "take_runtime_diagnosis out =
     (let producer_class = Option.bind (get_str (to_metadata out) TOOL_FAILURE_CLASS_KEY) class_parse;
          producer_hint = (case get_str (to_metadata out) TOOL_RECOVERY_HINT_KEY of
             Some hint \<Rightarrow> (let h = take TOOL_RECOVERY_HINT_MAX_CHARS hint in if h = [] then None else Some h)
           | None \<Rightarrow> None);
          out' = out\<lparr>to_metadata := strip_metadata_keys (to_metadata out) RESERVED_RUNTIME_METADATA_KEYS\<rparr>;
          class = (case producer_class of
             Some c \<Rightarrow> Some c
           | None \<Rightarrow> if to_ok out then None else Some (prose_class out'))
      in (out', map_option (\<lambda>c. \<lparr>rd_class = c,
                  rd_hint = (case producer_hint of Some h \<Rightarrow> h | None \<Rightarrow> default_recovery_hint c)\<rparr>) class))"

definition runtime_value :: "tool_failure_class \<Rightarrow> rust_str \<Rightarrow> json" where
  "runtime_value class hint =
     JObject [(TOOL_FAILURE_CLASS_KEY, JString (class_as_str class)), (TOOL_RECOVERY_HINT_KEY, JString hint)]"

definition write_runtime_metadata :: "json \<Rightarrow> tool_failure_class \<Rightarrow> rust_str \<Rightarrow> json" where
  "write_runtime_metadata metadata class hint =
     JObject (AList.update RUNTIME_METADATA_KEY (runtime_value class (take TOOL_RECOVERY_HINT_MAX_CHARS hint))
                (object_members metadata))"

definition prepend_runtime_failure_header :: "rust_str \<Rightarrow> tool_failure_class \<Rightarrow> rust_str \<Rightarrow> rust_str" where
  "prepend_runtime_failure_header content class hint =
     (if starts_with content (lit ''runtime_failure:'') then content
      else lit ''runtime_failure:'' @ [10] @ lit ''class='' @ class_as_str class @ [10]
           @ lit ''hint='' @ take TOOL_RECOVERY_HINT_MAX_CHARS hint @ [10, 10] @ content)"

definition apply_runtime_diagnosis :: "tool_output \<Rightarrow> runtime_diagnosis option \<Rightarrow> tool_output" where
  "apply_runtime_diagnosis out diagnosis =
     (case (case diagnosis of
              Some d \<Rightarrow> Some d
            | None \<Rightarrow> if to_ok out then None
                      else Some \<lparr>rd_class = prose_class out,
                                 rd_hint = default_recovery_hint (prose_class out)\<rparr>) of
        None \<Rightarrow> out
      | Some d \<Rightarrow>
          out\<lparr>to_metadata := write_runtime_metadata (to_metadata out) (rd_class d) (rd_hint d),
              to_model_content := prepend_runtime_failure_header (to_model_content out) (rd_class d) (rd_hint d)\<rparr>)"

text \<open>\<open>OutputAuthority::bound\<close>; without a broker the output passes through.\<close>

type_synonym output_broker = "uuid \<Rightarrow> nat option \<Rightarrow> tool_output \<Rightarrow> tool_output"

definition output_bound :: "output_broker option \<Rightarrow> uuid \<Rightarrow> nat option \<Rightarrow> tool_output \<Rightarrow> tool_output" where
  "output_bound broker run_id budget out =
     (case take_runtime_diagnosis out of (out', diagnosis) \<Rightarrow>
        apply_runtime_diagnosis
          (case broker of Some bound \<Rightarrow> bound run_id budget out' | None \<Rightarrow> out') diagnosis)"

section \<open>Lemmas\<close>

lemma class_round_trip: "class_parse (class_as_str c) = Some c"
  by (cases c) (simp_all add: class_parse_def lit_def)

lemma map_of_fold_delete:
  "map_of (fold AList.delete keys ms) k = (if k \<in> set keys then None else map_of ms k)"
  by (induction keys arbitrary: ms) (simp_all add: AList.delete_conv')

lemma json_get_strip:
  "json_get (strip_metadata_keys v keys) k = (if k \<in> set keys then None else json_get v k)"
  by (cases v) (simp_all add: map_of_fold_delete)

lemma json_get_written:
  "json_get (write_runtime_metadata v c h) RUNTIME_METADATA_KEY
     = Some (runtime_value c (take TOOL_RECOVERY_HINT_MAX_CHARS h))"
  by (simp add: write_runtime_metadata_def AList.update_conv')

lemma header_starts: "starts_with (prepend_runtime_failure_header content c h) (lit ''runtime_failure:'')"
  by (simp add: prepend_runtime_failure_header_def starts_with_def)

lemma default_hint_short: "length (default_recovery_hint c) \<le> TOOL_RECOVERY_HINT_MAX_CHARS"
  by (cases c) (simp_all add: lit_def TOOL_RECOVERY_HINT_MAX_CHARS_def)

end
