(* ===== verification/Core_Dispatch.thy ===== *)
theory Core_Dispatch
  imports Core_Startup Tool_Failure
begin

text \<open>
  Publication and dispatch of an admitted tool operation: \<open>publish_tool_operation\<close> and \<open>execute_published_tool\<close> of
  \<^verbatim>\<open>crates/agent-core/src/kernel/mod.rs\<close>, with the approval authority of \<^verbatim>\<open>authority.rs\<close>. These methods are async: while
  one of them waits, other tasks may call the kernel. \<open>await\<close> models that: what the awaited call does is preceded and
  followed by what others do to the kernel meanwhile (\<open>aw_before\<close>, \<open>aw_after\<close>, any functions; the theorems say which
  interference they allow). The dispatcher, the output broker, the rollback of a staged effect and the compiled schema
  profiles are interfaces of the source and parameters.
\<close>

section \<open>Waiting\<close>

datatype await_point =
    AwaitAcceptedEvent | AwaitStartedEvent | AwaitApproval | AwaitShadow | AwaitShadowEvent | AwaitLeaseEvent
  | AwaitTool | AwaitRollback | AwaitOutput | AwaitReserve | AwaitBroker | AwaitAck

record 'c waits =
  aw_before :: "await_point \<Rightarrow> 'c \<Rightarrow> 'c"
  aw_after :: "await_point \<Rightarrow> 'c \<Rightarrow> 'c"

definition await :: "'c waits \<Rightarrow> await_point \<Rightarrow> ('c \<Rightarrow> 'c \<times> 'r) \<Rightarrow> 'c \<Rightarrow> 'c \<times> 'r" where
  "await W p f C = (case f (aw_before W p C) of (C', r) \<Rightarrow> (aw_after W p C', r))"

definition emit_event ::
  "('k, runtime_event) event_append \<Rightarrow> nat \<Rightarrow> runtime_event \<Rightarrow> ('j, 'g, 'k) core_authority
     \<Rightarrow> ('j, 'g, 'k) core_authority \<times> unit agent_result" where
  "emit_event append_event now event C =
     (case emit append_event (ca_event C) (ca_run_id C) now event of (A, r) \<Rightarrow> (C\<lparr>ca_event := A\<rparr>, r))"

section \<open>The approval authority\<close>

datatype approval_verdict =
    VerdictAllowed
  | VerdictDenied rust_str
  | VerdictDeniedDetailed rust_str approval_denial_reason
  | VerdictFailed rust_str

fun denial_detail :: "approval_denial_reason \<Rightarrow> rust_str" where
  "denial_detail (GrantExhausted grant_id used max_runs) =
     lit ''standing grant '' @ [39] @ take 80 grant_id @ [39] @ lit '' exhausted ('' @ dec (unat used) @ lit ''/'' @ dec (unat max_runs)
     @ lit '' executions); operator authorization is required before another matching call''"

definition verdict_of :: "tool_call \<Rightarrow> approval_outcome agent_result \<Rightarrow> approval_verdict" where
  "verdict_of call result =
     (case result of
        Inl e \<Rightarrow> VerdictFailed (lit ''approval check failed: '' @ error_display e)
      | Inr outcome \<Rightarrow>
          if ao_decision outcome = Allow then VerdictAllowed
          else (let message = lit ''tool denied by approval policy: '' @ tc_name call in
                case ao_denial outcome of
                  Some reason \<Rightarrow> VerdictDeniedDetailed (message @ lit '': '' @ denial_detail reason) reason
                | None \<Rightarrow> VerdictDenied message))"

section \<open>Surfaces, requests, outcomes\<close>

record schema_violation =
  sv_pointer :: rust_str
  sv_expected :: rust_str
  sv_actual :: rust_str

datatype tool_surface_omission_reason =
    KeepReady | SchemaBudget | ProviderInputBudget | Unavailable | CompletionFinalization
  | DecisionBudgetFinalization | AuthorityExhaustedFinalization

fun omission_as_str :: "tool_surface_omission_reason \<Rightarrow> rust_str" where
  "omission_as_str KeepReady = lit ''kept ready outside the prompt''"
| "omission_as_str SchemaBudget = lit ''round schema budget''"
| "omission_as_str ProviderInputBudget = lit ''provider input budget''"
| "omission_as_str Unavailable = lit ''not available at the safe point''"
| "omission_as_str CompletionFinalization = lit ''completion repair finalization''"
| "omission_as_str DecisionBudgetFinalization = lit ''decision budget finalization''"
| "omission_as_str AuthorityExhaustedFinalization = lit ''exhausted grant finalization''"

record tool_surface_snapshot =
  sf_specs :: "tool_spec list"
  sf_surface_revision :: nat
  sf_omissions :: "(rust_str \<times> tool_surface_omission_reason) list"
  sf_schema_profiles :: "rust_str \<Rightarrow> (json \<Rightarrow> schema_violation option) option"

record tool_execution_request =
  rq_run_id :: uuid
  rq_call :: tool_call
  rq_effect_context :: "operation_effect_context option"

definition request_validate :: "digest_env \<Rightarrow> tool_execution_request \<Rightarrow> rust_str + unit" where
  "request_validate D rq =
     (case rq_effect_context rq of
        None \<Rightarrow>
          if is_non_transactional_process_tool (tc_name (rq_call rq))
          then Inl (lit ''non-transactional process tools require a Core-issued effect context'') else Inr ()
      | Some ctx \<Rightarrow>
          result_bind (effect_context_validate ctx) (\<lambda>_.
            let i = ec_identity ctx in
            if oi_run_id i \<noteq> rq_run_id rq \<or> oi_call_id i \<noteq> tc_id (rq_call rq) \<or> oi_tool_name i \<noteq> tc_name (rq_call rq)
               \<or> Some (oi_argument_digest i) \<noteq> digest_from_json D (tc_arguments (rq_call rq))
            then Inl (lit ''operation effect context does not match the tool request'') else Inr ()))"

datatype ('f, 'd, 'q) tool_outcome =
    OutcomeValue tool_output
  | OutcomePrepared tool_output 'f
  | OutcomeDirective tool_output 'd
  | OutcomeQuery tool_output 'q

fun map_output :: "(tool_output \<Rightarrow> tool_output) \<Rightarrow> ('f, 'd, 'q) tool_outcome \<Rightarrow> ('f, 'd, 'q) tool_outcome" where
  "map_output h (OutcomeValue out) = OutcomeValue (h out)"
| "map_output h (OutcomePrepared out f) = OutcomePrepared (h out) f"
| "map_output h (OutcomeDirective out d) = OutcomeDirective (h out) d"
| "map_output h (OutcomeQuery out q) = OutcomeQuery (h out) q"

record ('f, 'd, 'q) core_tool_execution =
  cx_outcome :: "('f, 'd, 'q) tool_outcome"
  cx_lease :: "authority_lease option"
  cx_effect_id :: "uuid option"
  cx_argument_digest :: digest
  cx_value_completion_pending :: bool
  cx_recovery_required :: "rust_str option"

section \<open>Refusals\<close>

definition tool_error_output :: "tool_call \<Rightarrow> rust_str \<Rightarrow> tool_output" where
  "tool_error_output call message =
     \<lparr>to_call_id = tc_id call, to_tool_name = tc_name call, to_ok = False, to_summary = message,
      to_model_content = lit ''tool error: '' @ message, to_artifact_ref = None,
      to_metadata = attach_failure_class (JObject []) (failure_class_from_message message)\<rparr>"

definition not_executed :: "(rust_str \<times> json) list \<Rightarrow> json" where
  "not_executed extra = JObject ((lit ''executed'', JBool False) # extra)"

definition failure_of :: "tool_call \<Rightarrow> tool_failure_class \<Rightarrow> rust_str \<Rightarrow> json \<Rightarrow> tool_output" where
  "failure_of call class message metadata =
     tool_failure_output (tc_id call) (tc_name call) class message (lit ''tool error: '' @ message) metadata"

definition surface_unavailable_output :: "tool_call \<Rightarrow> rust_str \<Rightarrow> tool_output" where
  "surface_unavailable_output call message = failure_of call ClassSurfaceUnavailable message (not_executed [])"

definition schema_mismatch_message :: "tool_call \<Rightarrow> schema_violation \<Rightarrow> rust_str" where
  "schema_mismatch_message call v =
     lit ''tool dispatch rejected: arguments do not match the '' @ tc_name call @ lit '' schema ('' @ sv_pointer v
     @ lit ''): expected '' @ sv_expected v @ lit '', found '' @ sv_actual v"

definition schema_mismatch_output :: "tool_call \<Rightarrow> schema_violation \<Rightarrow> tool_output" where
  "schema_mismatch_output call v =
     failure_of call ClassSchemaMismatch (schema_mismatch_message call v)
       (not_executed [(lit ''schema'', JObject [(lit ''pointer'', JString (sv_pointer v)),
          (lit ''expected'', JString (sv_expected v)), (lit ''actual'', JString (sv_actual v))])])"

fun denial_value :: "approval_denial_reason \<Rightarrow> json" where
  "denial_value (GrantExhausted grant_id used max_runs) =
     JObject [(lit ''code'', JString (lit ''grant_exhausted'')), (lit ''grant_id'', JString grant_id),
       (lit ''used'', JNumber (PosInt (unat used))), (lit ''max_runs'', JNumber (PosInt (unat max_runs)))]"

definition tool_not_on_surface_message :: "tool_call \<Rightarrow> tool_surface_snapshot \<Rightarrow> rust_str" where
  "tool_not_on_surface_message call surface =
     (let captured = (if sf_surface_revision surface = 0 then lit ''this round's captured model surface''
            else lit ''model surface revision '' @ dec (sf_surface_revision surface));
          head = lit ''tool '' @ [39] @ tc_name call @ [39] @ lit '' was not exposed on '' @ captured
      in case map_of (sf_omissions surface) (tc_name call) of
           Some reason \<Rightarrow> head @ lit '': '' @ omission_as_str reason
         | None \<Rightarrow> head @ lit ''; only schemas in that captured surface may be called'')"

definition invalid_process_executable :: "tool_call \<Rightarrow> tool_spec \<Rightarrow> schema_violation option" where
  "invalid_process_executable call spec =
     (if tc_name call \<noteq> lit ''process.run'' \<or> ts_risk spec \<noteq> RiskProcessExecution then None
      else (case Option.bind (get_array (tc_arguments call) (lit ''argv''))
                   (\<lambda>items. case items of [] \<Rightarrow> None | v # _ \<Rightarrow> as_str v) of
          None \<Rightarrow> None
        | Some executable \<Rightarrow>
            (let trimmed = trim executable in
             if trimmed = []
             then Some \<lparr>sv_pointer = lit ''/argv/0'', sv_expected = lit ''a non-empty executable name'',
                        sv_actual = lit ''empty or whitespace-only string''\<rparr>
             else if 1 < str_len trimmed
                  \<and> ((hd trimmed = 34 \<and> last trimmed = 34) \<or> (hd trimmed = 39 \<and> last trimmed = 39))
             then Some \<lparr>sv_pointer = lit ''/argv/0'',
                        sv_expected = lit ''an executable name without surrounding shell quotes'',
                        sv_actual = lit ''shell-quoted executable string''\<rparr>
             else None)))"

section \<open>Publication\<close>

record ('j, 'g, 'k, 'f, 'd, 'q) dispatch_env =
  dv_waits :: "('j, 'g, 'k) core_authority waits"
  dv_event :: "('k, runtime_event) event_append"
  dv_clock :: "await_point \<Rightarrow> nat"
  dv_authorize :: "'g \<Rightarrow> tool_call \<Rightarrow> tool_spec \<Rightarrow> 'g \<times> approval_outcome agent_result"
  dv_shadow :: "('g \<Rightarrow> tool_call \<Rightarrow> tool_spec \<Rightarrow> 'g \<times> shadow_verdict) option"
  dv_shadow_cancelled :: bool
  dv_shadow_timed_out :: bool
  dv_issued_at :: nat
  dv_lease_id :: rust_str
  dv_effect_id :: uuid
  dv_execute :: "tool_execution_request \<Rightarrow> ('f, 'd, 'q) tool_outcome agent_result"
  dv_rollback :: "'f \<Rightarrow> rust_str \<Rightarrow> unit agent_result"
  dv_output_broker :: "output_broker option"

definition await_event ::
  "('j, 'g, 'k, 'f, 'd, 'q) dispatch_env \<Rightarrow> await_point \<Rightarrow> runtime_event \<Rightarrow> ('j, 'g, 'k) core_authority
     \<Rightarrow> ('j, 'g, 'k) core_authority \<times> unit agent_result" where
  "await_event E p event C = await (dv_waits E) p (emit_event (dv_event E) (dv_clock E p) event) C"

definition cancel_after_publication_failure ::
  "'j journal_append \<Rightarrow> ('j, 'g, 'k) core_authority \<Rightarrow> tool_operation_identity \<Rightarrow> rust_str \<Rightarrow> agent_error
     \<Rightarrow> ('j, 'g, 'k) core_authority \<times> agent_error" where
  "cancel_after_publication_failure jappend C identity event event_error =
     (case cancel_operation jappend C identity of
        (C1, Inr ()) \<Rightarrow> (C1, event_error)
      | (C1, Inl cancel_error) \<Rightarrow>
          (C1, RecoveryRequired (event @ lit '' publication failed for operation, and Core could not durably terminalize the undispatched operation: event=''
             @ error_display event_error @ lit ''; cancellation='' @ error_display cancel_error)))"

definition publish_tool_operation ::
  "'j journal_append \<Rightarrow> digest_env \<Rightarrow> ('j, 'g, 'k, 'f, 'd, 'q) dispatch_env \<Rightarrow> ('j, 'g, 'k) core_authority
     \<Rightarrow> tool_operation_identity \<Rightarrow> tool_call \<Rightarrow> ('j, 'g, 'k) core_authority \<times> tool_operation_identity agent_result" where
  "publish_tool_operation jappend D E C identity call =
     (let failed = (\<lambda>C event e. case cancel_after_publication_failure jappend C identity event e of (C', e') \<Rightarrow> (C', Inl e'))
      in if \<not> identity_matches D C identity call
         then failed C (lit ''tool-publication preflight'')
                (InvalidRequest (lit ''tool publication rejected: call does not match the admitted identity''))
         else (case query (ca_operations C) (oi_operation_id identity) of
            Found snapshot \<Rightarrow>
              if snap_identity snapshot = identity \<and> snap_state snapshot = Accepted
              then (case await_event E AwaitAcceptedEvent (OperationAccepted snapshot) C of
                      (C1, Inl e) \<Rightarrow> failed C1 (lit ''OperationAccepted'') e
                    | (C1, Inr ()) \<Rightarrow>
                        (case await_event E AwaitStartedEvent (ToolStarted call) C1 of
                           (C2, Inl e) \<Rightarrow> failed C2 (lit ''ToolStarted'') e
                         | (C2, Inr ()) \<Rightarrow> (C2, Inr identity)))
              else (C, Inl (RecoveryRequired (lit ''tool publication rejected: admitted operation is no longer exactly Accepted'')))
          | _ \<Rightarrow> (C, Inl (RecoveryRequired (lit ''tool publication rejected: admitted operation is no longer exactly Accepted'')))))"

section \<open>Dispatch: everything before the tool runs\<close>

record dispatch_ready =
  dr_spec :: tool_spec
  dr_lease :: "authority_lease option"
  dr_effect_id :: "uuid option"
  dr_request :: tool_execution_request

definition refused :: "digest \<Rightarrow> tool_output \<Rightarrow> ('f, 'd, 'q) core_tool_execution" where
  "refused argument_digest out =
     \<lparr>cx_outcome = OutcomeValue out, cx_lease = None, cx_effect_id = None, cx_argument_digest = argument_digest,
      cx_value_completion_pending = False, cx_recovery_required = None\<rparr>"

text \<open>\<open>finish_refused\<close> with its own failure, then the refusal.\<close>

definition refuse_operation ::
  "'j journal_append \<Rightarrow> ('j, 'g, 'k) core_authority \<Rightarrow> tool_operation_identity \<Rightarrow> tool_call \<Rightarrow> rust_str \<Rightarrow> tool_output
     \<Rightarrow> ('j, 'g, 'k) core_authority \<times> (tool_output + dispatch_ready)" where
  "refuse_operation jappend C identity call message out =
     (case on_operations (\<lambda>R. finish_refused jappend R (oi_operation_id identity) message) C of
        (C1, Inl e) \<Rightarrow> (C1, Inl (tool_error_output call (error_display e)))
      | (C1, Inr ()) \<Rightarrow> (C1, Inl out))"

text \<open>\<open>let _ = self.operations.cancel(identity)\<close>, then the refusal.\<close>

definition cancel_and_refuse ::
  "'j journal_append \<Rightarrow> ('j, 'g, 'k) core_authority \<Rightarrow> tool_operation_identity \<Rightarrow> tool_call \<Rightarrow> rust_str
     \<Rightarrow> ('j, 'g, 'k) core_authority \<times> (tool_output + dispatch_ready)" where
  "cancel_and_refuse jappend C identity call message =
     (fst (on_operations (\<lambda>R. cancel jappend R identity) C), Inl (tool_error_output call message))"

text \<open>The host-derived intent, and the lease minted for a call that is not read-only.\<close>

definition lease_intent :: "digest_env \<Rightarrow> ('j, 'g, 'k) core_authority \<Rightarrow> tool_call \<Rightarrow> tool_spec \<Rightarrow> effect_intent" where
  "lease_intent D C call spec = (case ca_host_policies C of
     Some policies \<Rightarrow> effect_intent_of D policies call spec | None \<Rightarrow> unbound_effect_intent spec)"

definition mint_lease ::
  "digest_env \<Rightarrow> ('j, 'g, 'k, 'f, 'd, 'q) dispatch_env \<Rightarrow> ('j, 'g, 'k) core_authority \<Rightarrow> tool_operation_identity
     \<Rightarrow> tool_call \<Rightarrow> tool_spec \<Rightarrow> shadow_verdict option \<Rightarrow> authority_lease" where
  "mint_lease D E C identity call spec shadow =
     \<lparr>al_lease_id = dv_lease_id E, al_operation_id = oi_operation_id identity,
      al_argument_digest = oi_argument_digest identity, al_operation_generation = oi_generation identity,
      al_intent = lease_intent D C call spec,
      al_grant_id = (case shadow of Some (Granted grant_id) \<Rightarrow> Some grant_id | _ \<Rightarrow> None),
      al_decision = Allow, al_issued_at_ms = dv_issued_at E,
      al_expires_at_ms = saturating_add_u64 (dv_issued_at E)
        (case ca_lease_ttl_ms C of Some ttl \<Rightarrow> ttl | None \<Rightarrow> DEFAULT_LEASE_TTL_MS),
      al_policy_revision = Option.bind (ca_host_policies C) ps_policy_revision,
      al_binding_epoch = current_binding_epoch C (tc_name call)\<rparr>"

text \<open>The last part, from the recheck of the epoch after approval to the validated request.\<close>

definition start_execution ::
  "'j journal_append \<Rightarrow> digest_env \<Rightarrow> ('j, 'g, 'k, 'f, 'd, 'q) dispatch_env \<Rightarrow> ('j, 'g, 'k) core_authority
     \<Rightarrow> tool_operation_identity \<Rightarrow> tool_call \<Rightarrow> tool_spec \<Rightarrow> shadow_verdict option
     \<Rightarrow> ('j, 'g, 'k) core_authority \<times> (tool_output + dispatch_ready)" where
  "start_execution jappend D E C identity call spec shadow =
     (if oi_generation identity \<noteq> ca_authority_epoch C
      then cancel_and_refuse jappend C identity call
             (lit ''tool dispatch rejected after approval because operation epoch '' @ dec (oi_generation identity)
              @ lit '' is stale; current Core epoch is '' @ dec (ca_authority_epoch C))
      else
       (let side_effect = (ts_risk spec \<noteq> RiskReadOnly);
            lease = (if side_effect then Some (mint_lease D E C identity call spec shadow) else None);
            effect_id = (if side_effect then Some (dv_effect_id E) else None)
        in case (case lease of
                   Some l \<Rightarrow> on_operations (\<lambda>R. record_lease R (oi_operation_id identity) l) C
                 | None \<Rightarrow> (C, Inr ())) of
             (C1, Inl e) \<Rightarrow> (C1, Inl (tool_error_output call (error_display e)))
           | (C1, Inr ()) \<Rightarrow>
             (case mark_operation_executing_if_current jappend C1 (oi_generation identity) (oi_operation_id identity) effect_id of
                (C2, Inl e) \<Rightarrow> cancel_and_refuse jappend C2 identity call (error_display e)
              | (C2, Inr ()) \<Rightarrow>
                (let C3 = (case lease of
                       Some l \<Rightarrow> fst (await_event E AwaitLeaseEvent
                                   (LeaseIssued (al_lease_id l) (tc_name call) (al_grant_id l) (al_expires_at_ms l)) C2)
                     | None \<Rightarrow> C2);
                     request = \<lparr>rq_run_id = ca_run_id C3, rq_call = call,
                       rq_effect_context = map_option (\<lambda>e. \<lparr>ec_identity = identity, ec_effect_id = e\<rparr>) effect_id\<rparr>
                 in case request_validate D request of
                      Inl m \<Rightarrow> cancel_and_refuse jappend C3 identity call (lit ''tool dispatch rejected: '' @ m)
                    | Inr () \<Rightarrow> (C3, Inr \<lparr>dr_spec = spec, dr_lease = lease, dr_effect_id = effect_id, dr_request = request\<rparr>)))))"

text \<open>The shadow verdict beside the enforced one: cancelled, timed out, or an answer that is also published.\<close>

definition evaluate_shadow ::
  "('j, 'g, 'k, 'f, 'd, 'q) dispatch_env \<Rightarrow> ('j, 'g, 'k) core_authority \<Rightarrow> tool_call \<Rightarrow> tool_spec
     \<Rightarrow> ('j, 'g, 'k) core_authority \<times> (unit + shadow_verdict option)" where
  "evaluate_shadow E C call spec =
     (case dv_shadow E of
        None \<Rightarrow> (C, Inr None)
      | Some shadow \<Rightarrow>
          if dv_shadow_cancelled E then (fst (await (dv_waits E) AwaitShadow (\<lambda>C. (C, ())) C), Inl ())
          else if dv_shadow_timed_out E
          then (fst (await_event E AwaitShadowEvent
                  (WarningEvent (lit ''shadow authorization for '' @ tc_name call @ lit '' exceeded 2s; legacy approval remains authoritative''))
                  (fst (await (dv_waits E) AwaitShadow (\<lambda>C. (C, ())) C))), Inr None)
          else (case await (dv_waits E) AwaitShadow
                       (\<lambda>C. case shadow (ca_gate C) call spec of (g, v) \<Rightarrow> (C\<lparr>ca_gate := g\<rparr>, v)) C of
                  (C1, v) \<Rightarrow> (fst (await_event E AwaitShadowEvent (ShadowDecision (tc_name call) True v) C1), Inr (Some v))))"

definition authorize_and_start ::
  "'j journal_append \<Rightarrow> digest_env \<Rightarrow> ('j, 'g, 'k, 'f, 'd, 'q) dispatch_env \<Rightarrow> ('j, 'g, 'k) core_authority
     \<Rightarrow> tool_operation_identity \<Rightarrow> tool_call \<Rightarrow> tool_spec
     \<Rightarrow> ('j, 'g, 'k) core_authority \<times> (tool_output + dispatch_ready)" where
  "authorize_and_start jappend D E C identity call spec =
     (case await (dv_waits E) AwaitApproval
             (\<lambda>C. case dv_authorize E (ca_gate C) call spec of (g, r) \<Rightarrow> (C\<lparr>ca_gate := g\<rparr>, verdict_of call r)) C of
        (C1, VerdictAllowed) \<Rightarrow>
          (case evaluate_shadow E C1 call spec of
             (C2, Inl ()) \<Rightarrow> cancel_and_refuse jappend C2 identity call
                 (lit ''tool dispatch cancelled while evaluating shadow authorization'')
           | (C2, Inr shadow) \<Rightarrow> start_execution jappend D E C2 identity call spec shadow)
      | (C1, VerdictDenied message) \<Rightarrow>
          refuse_operation jappend C1 identity call message (failure_of call ClassApprovalDenied message (not_executed []))
      | (C1, VerdictFailed message) \<Rightarrow>
          refuse_operation jappend C1 identity call message (failure_of call ClassApprovalDenied message (not_executed []))
      | (C1, VerdictDeniedDetailed message reason) \<Rightarrow>
          refuse_operation jappend C1 identity call message
            (failure_of call ClassApprovalDenied message (not_executed [(lit ''approval_denial'', denial_value reason)])))"

definition prepare_dispatch ::
  "'j journal_append \<Rightarrow> digest_env \<Rightarrow> ('j, 'g, 'k, 'f, 'd, 'q) dispatch_env \<Rightarrow> ('j, 'g, 'k) core_authority
     \<Rightarrow> tool_operation_identity \<Rightarrow> tool_call \<Rightarrow> tool_surface_snapshot
     \<Rightarrow> ('j, 'g, 'k) core_authority \<times> (tool_output + dispatch_ready)" where
  "prepare_dispatch jappend D E C identity call surface =
     (case core_mutation_allowed C of
        Inl e \<Rightarrow> (C, Inl (tool_error_output call (error_display e)))
      | Inr () \<Rightarrow>
         if \<not> identity_matches D C identity call
         then (let message = lit ''tool dispatch rejected: operation identity does not match the admitted request'' in
               refuse_operation jappend C identity call message (tool_error_output call message))
         else if oi_generation identity \<noteq> ca_authority_epoch C
         then cancel_and_refuse jappend C identity call
                (lit ''tool dispatch rejected by the Core authority fence: operation epoch '' @ dec (oi_generation identity)
                 @ lit '', current epoch '' @ dec (ca_authority_epoch C))
         else (case find (\<lambda>spec. ts_name spec = tc_name call) (sf_specs surface) of
            None \<Rightarrow>
              (let message = tool_not_on_surface_message call surface in
               refuse_operation jappend C identity call message (surface_unavailable_output call message))
          | Some spec \<Rightarrow>
              (case (case Option.bind (sf_schema_profiles surface (tc_name call)) (\<lambda>validate. validate (tc_arguments call)) of
                       Some v \<Rightarrow> Some v | None \<Rightarrow> invalid_process_executable call spec) of
                 Some v \<Rightarrow> refuse_operation jappend C identity call (schema_mismatch_message call v) (schema_mismatch_output call v)
               | None \<Rightarrow> authorize_and_start jappend D E C identity call spec)))"

section \<open>Dispatch: the tool and its outcome\<close>

text \<open>Core's own diagnostic cannot be forged by a producer: \<open>metadata.remove("approval_denial")\<close>.\<close>

definition drop_denial :: "tool_output \<Rightarrow> tool_output" where
  "drop_denial out = (case to_metadata out of
     JObject ms \<Rightarrow> out\<lparr>to_metadata := JObject (AList.delete (lit ''approval_denial'') ms)\<rparr> | _ \<Rightarrow> out)"

text \<open>The staged effect is registered, or rolled back when the registry refuses.\<close>

definition settle_prepared ::
  "'j journal_append \<Rightarrow> ('j, 'g, 'k, 'f, 'd, 'q) dispatch_env \<Rightarrow> ('j, 'g, 'k) core_authority
     \<Rightarrow> tool_operation_identity \<Rightarrow> tool_call \<Rightarrow> uuid option \<Rightarrow> tool_output \<Rightarrow> 'f
     \<Rightarrow> ('j, 'g, 'k) core_authority \<times> (('f, 'd, 'q) tool_outcome \<times> uuid option \<times> rust_str option)" where
  "settle_prepared jappend E C identity call reserved out eff =
     (case (case reserved of
              None \<Rightarrow> (C, Inl (InvalidRequest (lit ''read-only operation unexpectedly returned a prepared effect'')))
            | Some e \<Rightarrow> on_operations (\<lambda>R. mark_prepared jappend R (oi_operation_id identity) e) C) of
        (C1, Inr ()) \<Rightarrow> (C1, OutcomePrepared out eff, reserved, None)
      | (C1, Inl error) \<Rightarrow>
          (let failed = (\<lambda>C. (C, OutcomeValue (tool_error_output call (error_display error)), None, None));
               fenced = (\<lambda>C e.
                 (let message = bound_utf8 (lit ''operation preparation rollback could not be confirmed: '' @ error_display e)
                        MAX_OPERATION_DIAGNOSTIC_BYTES
                  in (require_operation_recovery C message,
                      OutcomeValue (tool_error_output call (error_display error)), None, Some message)))
           in case await (dv_waits E) AwaitRollback
                     (\<lambda>C. (C, dv_rollback E eff (lit ''operation registry rejected preparation: '' @ error_display error))) C1 of
                (C2, Inl e) \<Rightarrow> fenced C2 e
              | (C2, Inr ()) \<Rightarrow>
                  (case on_operations (\<lambda>R. cancel jappend R identity) C2 of
                     (C3, Inl e) \<Rightarrow> fenced C3 e
                   | (C3, Inr ()) \<Rightarrow> failed C3)))"

definition run_tool ::
  "'j journal_append \<Rightarrow> ('j, 'g, 'k, 'f, 'd, 'q) dispatch_env \<Rightarrow> ('j, 'g, 'k) core_authority
     \<Rightarrow> tool_operation_identity \<Rightarrow> tool_call \<Rightarrow> dispatch_ready
     \<Rightarrow> ('j, 'g, 'k) core_authority \<times> ('f, 'd, 'q) core_tool_execution" where
  "run_tool jappend E C identity call ready =
     (case await (dv_waits E) AwaitTool (\<lambda>C. (C, dv_execute E (dr_request ready))) C of
        (C1, res) \<Rightarrow>
         (case (case res of
                  Inr outcome \<Rightarrow> (C1, outcome, None)
                | Inl error \<Rightarrow>
                    (case error of
                       RecoveryRequired _ \<Rightarrow>
                         (let message = bound_utf8 (error_display error) MAX_OPERATION_DIAGNOSTIC_BYTES in
                          (require_operation_recovery C1 message, OutcomeValue (tool_error_output call message), Some message))
                     | _ \<Rightarrow> (C1, OutcomeValue (tool_error_output call (error_display error)), None))) of
            (C2, outcome, recovery) \<Rightarrow>
             (case (case map_output drop_denial outcome of
                      OutcomePrepared out eff \<Rightarrow>
                        (case settle_prepared jappend E C2 identity call (dr_effect_id ready) out eff of
                           (C3, outcome', effect_id, rollback_failed) \<Rightarrow>
                             (C3, outcome', effect_id, False, if rollback_failed = None then recovery else rollback_failed))
                    | outcome' \<Rightarrow> (C2, outcome', None, True, recovery)) of
                (C3, outcome', effect_id, pending, recovery') \<Rightarrow>
                  (case await (dv_waits E) AwaitOutput
                          (\<lambda>C. (C, map_output (output_bound (dv_output_broker E) (ca_run_id C) (ts_output_budget (dr_spec ready))) outcome')) C3 of
                     (C4, bounded) \<Rightarrow>
                       (C4, \<lparr>cx_outcome = bounded, cx_lease = dr_lease ready, cx_effect_id = effect_id,
                             cx_argument_digest = oi_argument_digest identity, cx_value_completion_pending = pending,
                             cx_recovery_required = recovery'\<rparr>)))))"

definition execute_published_tool ::
  "'j journal_append \<Rightarrow> digest_env \<Rightarrow> ('j, 'g, 'k, 'f, 'd, 'q) dispatch_env \<Rightarrow> ('j, 'g, 'k) core_authority
     \<Rightarrow> tool_operation_identity \<Rightarrow> tool_call \<Rightarrow> tool_surface_snapshot
     \<Rightarrow> ('j, 'g, 'k) core_authority \<times> ('f, 'd, 'q) core_tool_execution" where
  "execute_published_tool jappend D E C identity call surface =
     (case prepare_dispatch jappend D E C identity call surface of
        (C1, Inl out) \<Rightarrow> (C1, refused (oi_argument_digest identity) out)
      | (C1, Inr ready) \<Rightarrow> run_tool jappend E C1 identity call ready)"

end
