(* ===== verification/Core_Commit.thy ===== *)
theory Core_Commit
  imports Core_Dispatch
begin

text \<open>
  The commit and the rollback of a staged effect: \<open>commit_effect\<close> and \<open>rollback_effect\<close> of
  \<^verbatim>\<open>crates/agent-core/src/port.rs\<close>. The effect is a trait object of the source (its reported writes, its rollback), and
  so is the broker with its three phases; they are parameters. Waiting is modelled as in \<open>Core_Dispatch\<close>. Error texts leave
  out interpolated ids.
\<close>

section \<open>Requests and dispositions\<close>

record 'f effect_commit_request =
  cr_run_id :: uuid
  cr_turn_id :: uuid
  cr_operation_id :: uuid
  cr_effect_id :: uuid
  cr_argument_digest :: digest
  cr_generation :: nat
  cr_lease :: "authority_lease option"
  cr_effect :: 'f

record 'f effect_rollback_request =
  rr_run_id :: uuid
  rr_turn_id :: uuid
  rr_operation_id :: uuid
  rr_effect_id :: "uuid option"
  rr_argument_digest :: digest
  rr_generation :: nat
  rr_lease :: "authority_lease option"
  rr_effect :: 'f
  rr_reason :: rust_str

datatype effect_commit_rejection =
    ForeignRun | StaleEpochRejection | MissingLease | InvalidLease | InvalidOperation
  | ActualExceedsApproved | BrokerUnavailable | BindingRevoked

datatype effect_ack_settlement =
    SettledNotApplied
  | SettledApplied effect_durability
  | SettledUnknown

fun settlement_label :: "effect_ack_settlement \<Rightarrow> rust_str" where
  "settlement_label SettledNotApplied = lit ''not_applied''"
| "settlement_label (SettledApplied Durable) = lit ''applied_durable''"
| "settlement_label (SettledApplied (DurabilityFailed _)) = lit ''applied_durability_failed''"
| "settlement_label SettledUnknown = lit ''unknown''"

fun settlement_of :: "effect_receipt \<Rightarrow> effect_ack_settlement" where
  "settlement_of (ReceiptNotApplied _) = SettledNotApplied"
| "settlement_of (ReceiptApplied durability _) = SettledApplied durability"
| "settlement_of (ReceiptUnknown _) = SettledUnknown"

record effect_ack_debt =
  ad_operation_id :: uuid
  ad_effect_id :: uuid
  ad_reservation_id :: rust_str
  ad_settlement :: effect_ack_settlement
  ad_error :: rust_str

definition ack_debt_validate :: "effect_ack_debt \<Rightarrow> rust_str + unit" where
  "ack_debt_validate d =
     (if ad_reservation_id d = [] \<or> 256 < length (ad_reservation_id d)
      then Inl (lit ''ack debt reservation id is empty or oversized'')
      else validate_bounded_text (lit ''ack debt error'') (ad_error d) MAX_OPERATION_DIAGNOSTIC_BYTES)"

datatype effect_commit_disposition =
    CommitReceipt effect_receipt "effect_ack_debt option"
  | CommitRejected effect_commit_rejection
  | AuthorityRecordFailed effect_receipt rust_str

record effect_reservation =
  ev_reserved_run :: uuid
  ev_operation_id :: uuid
  ev_effect_id :: uuid
  ev_argument_digest :: digest
  ev_generation :: nat
  ev_intent :: "effect_intent option"

record effect_ack =
  ak_reservation_id :: rust_str
  ak_operation_id :: uuid
  ak_settlement :: effect_ack_settlement
  ak_receipt_summary :: rust_str

record ('c, 'f) commit_env =
  cv_waits :: "'c waits"
  cv_now :: nat
  cv_actual_writes :: "'f \<Rightarrow> (rust_str \<times> nat) list option"
  cv_rollback :: "'f \<Rightarrow> rust_str \<Rightarrow> unit agent_result"
  cv_reserve :: "effect_reservation \<Rightarrow> rust_str agent_result"
  cv_dispatch :: "effect_reservation \<Rightarrow> rust_str \<Rightarrow> 'f \<Rightarrow> effect_receipt"
  cv_ack :: "effect_ack \<Rightarrow> unit agent_result"

section \<open>Settling a rejected effect\<close>

definition bounded_effect_error :: "rust_str \<Rightarrow> rust_str" where
  "bounded_effect_error message =
     take_bytes message (floor_char_boundary message (min (str_len message) MAX_OPERATION_DIAGNOSTIC_BYTES))"

definition operation_needs_rollback_terminal ::
  "('j, 'g, 'k) core_authority \<Rightarrow> uuid \<Rightarrow> uuid \<Rightarrow> digest \<Rightarrow> bool" where
  "operation_needs_rollback_terminal C operation_id effect_id argument_digest =
     (case query (ca_operations C) operation_id of
        Found snapshot \<Rightarrow>
          oi_argument_digest (snap_identity snapshot) = argument_digest
        \<and> (case snap_state snapshot of
             Prepared recorded \<Rightarrow> recorded = effect_id
           | Terminal (Some recorded) CancelledBeforeCommit \<Rightarrow> recorded = effect_id
           | _ \<Rightarrow> False)
      | _ \<Rightarrow> False)"

definition await_rollback ::
  "(('j, 'g, 'k) core_authority, 'f) commit_env \<Rightarrow> 'f \<Rightarrow> rust_str \<Rightarrow> ('j, 'g, 'k) core_authority
     \<Rightarrow> ('j, 'g, 'k) core_authority \<times> unit agent_result" where
  "await_rollback E eff reason C = await (cv_waits E) AwaitRollback (\<lambda>C. (C, cv_rollback E eff reason)) C"

definition settle_rejected_effect ::
  "'j journal_append \<Rightarrow> (('j, 'g, 'k) core_authority, 'f) commit_env \<Rightarrow> ('j, 'g, 'k) core_authority
     \<Rightarrow> uuid \<Rightarrow> uuid \<Rightarrow> digest \<Rightarrow> 'f \<Rightarrow> rust_str \<Rightarrow> ('j, 'g, 'k) core_authority \<times> (rust_str + unit)" where
  "settle_rejected_effect jappend E C operation_id effect_id argument_digest eff reason =
     (let terminal_required = operation_needs_rollback_terminal C operation_id effect_id argument_digest;
          fenced = (\<lambda>C text e. let message = bounded_effect_error (text @ error_display e) in
                     (require_operation_recovery C message, Inl message))
      in case await_rollback E eff reason C of
           (C1, Inl e) \<Rightarrow> fenced C1 (lit ''prepared-effect rollback could not be confirmed: '') e
         | (C1, Inr ()) \<Rightarrow>
             if terminal_required
             then (case abort_prepared_operation jappend C1 operation_id effect_id argument_digest of
                     (C2, Inl e) \<Rightarrow> fenced C2 (lit ''rolled-back prepared operation could not be terminalized: '') e
                   | (C2, Inr ()) \<Rightarrow> (C2, Inr ()))
             else (C1, Inr ()))"

text \<open>A rejection, or the record failure that settling it ran into.\<close>

definition reject_commit ::
  "'j journal_append \<Rightarrow> (('j, 'g, 'k) core_authority, 'f) commit_env \<Rightarrow> ('j, 'g, 'k) core_authority
     \<Rightarrow> 'f effect_commit_request \<Rightarrow> effect_commit_rejection \<Rightarrow> rust_str \<Rightarrow> rust_str
     \<Rightarrow> ('j, 'g, 'k) core_authority \<times> effect_commit_disposition" where
  "reject_commit jappend E C rq rejection reason not_applied =
     (case settle_rejected_effect jappend E C (cr_operation_id rq) (cr_effect_id rq) (cr_argument_digest rq)
             (cr_effect rq) reason of
        (C1, Inl error) \<Rightarrow> (C1, AuthorityRecordFailed (ReceiptNotApplied not_applied) error)
      | (C1, Inr ()) \<Rightarrow> (C1, CommitRejected rejection))"

section \<open>Commit: the checks\<close>

definition binding_fenced :: "('j, 'g, 'k) core_authority \<Rightarrow> uuid \<Rightarrow> authority_lease \<Rightarrow> bool" where
  "binding_fenced C operation_id lease =
     (case al_binding_epoch lease of
        Some leased_epoch \<Rightarrow>
          (case operation_tool_name C operation_id of
             Some tool_name \<Rightarrow> current_binding_epoch C tool_name \<noteq> Some leased_epoch
           | None \<Rightarrow> True)
      | None \<Rightarrow> False)"

definition commit_refusal ::
  "(('j, 'g, 'k) core_authority, 'f) commit_env \<Rightarrow> ('j, 'g, 'k) core_authority \<Rightarrow> 'f effect_commit_request
     \<Rightarrow> effect_commit_rejection option" where
  "commit_refusal E C rq =
     (if cr_run_id rq \<noteq> ca_run_id C then Some ForeignRun
      else (case cr_lease rq of
          None \<Rightarrow> Some MissingLease
        | Some lease \<Rightarrow>
            if al_decision lease \<noteq> Allow \<or> \<not> core_lease_matches C (cr_operation_id rq) lease
               \<or> \<not> lease_valid_at lease (cv_now E) (cr_generation rq) (cr_operation_id rq) (cr_argument_digest rq)
            then Some InvalidLease
            else if binding_fenced C (cr_operation_id rq) lease then Some BindingRevoked
            else None))"

text \<open>The first reported write that the leased intent never approved.\<close>

definition stray_write ::
  "(('j, 'g, 'k) core_authority, 'f) commit_env \<Rightarrow> 'f effect_commit_request \<Rightarrow> rust_str option" where
  "stray_write E rq =
     (case cr_lease rq of
        None \<Rightarrow> None
      | Some lease \<Rightarrow>
          (let approved_paths = approved_workspace_paths (al_intent lease) in
           if approved_paths = [] then None
           else (case cv_actual_writes E (cr_effect rq) of
               None \<Rightarrow> None
             | Some actual \<Rightarrow>
                 map_option fst (find (\<lambda>(path, bytes). case canonical_workspace_relative_path path of
                    None \<Rightarrow> True | Some p \<Rightarrow> p \<notin> set approved_paths) actual))))"

fun is_stale_epoch :: "agent_error \<Rightarrow> bool" where
  "is_stale_epoch (StaleEpoch _ _) = True"
| "is_stale_epoch _ = False"

definition admit_commit ::
  "'j journal_append \<Rightarrow> (('j, 'g, 'k) core_authority, 'f) commit_env \<Rightarrow> ('j, 'g, 'k) core_authority
     \<Rightarrow> 'f effect_commit_request \<Rightarrow> ('j, 'g, 'k) core_authority \<times> (effect_commit_disposition + unit)" where
  "admit_commit jappend E C rq =
     (let rejected = (\<lambda>(C, disposition). (C, Inl disposition)) in
      case core_mutation_allowed C of
        Inl error \<Rightarrow>
          (case await_rollback E (cr_effect rq)
                  (lit ''effect commit blocked by Core recovery fence: '' @ error_display error) C of
             (C1, res) \<Rightarrow>
               (C1, Inl (AuthorityRecordFailed
                  (ReceiptNotApplied (lit ''effect commit was blocked by the Core recovery fence''))
                  (bounded_effect_error (error_display error
                     @ (case res of Inr () \<Rightarrow> [] | Inl rollback \<Rightarrow> lit ''; prepared-effect rollback failed: '' @ error_display rollback))))))
      | Inr () \<Rightarrow>
         (case commit_refusal E C rq of
            Some rejection \<Rightarrow>
              rejected (reject_commit jappend E C rq rejection (lit ''effect commit rejected'')
                          (lit ''effect commit was rejected before application''))
          | None \<Rightarrow>
             (case stray_write E rq of
                Some path \<Rightarrow>
                  rejected (reject_commit jappend E C rq ActualExceedsApproved
                    (lit ''actual workspace write '' @ [39] @ path @ [39] @ lit '' is outside the approved intent'')
                    (lit ''effect commit was rejected because its actual workspace write exceeded approved authority''))
              | None \<Rightarrow>
                 (case begin_operation_commit_if_current jappend C (cr_generation rq) (cr_operation_id rq)
                         (cr_effect_id rq) (cr_argument_digest rq) of
                    (C1, Inl error) \<Rightarrow>
                      rejected (reject_commit jappend E C1 rq
                        (if is_stale_epoch error then StaleEpochRejection else InvalidOperation)
                        (lit ''operation registry rejected commit: '' @ error_display error)
                        (lit ''effect commit was rejected before application: '' @ error_display error))
                  | (C1, Inr ()) \<Rightarrow> (C1, Inr ())))))"

section \<open>Commit: reserve, dispatch, acknowledge\<close>

definition reservation_of :: "'f effect_commit_request \<Rightarrow> effect_reservation" where
  "reservation_of rq =
     \<lparr>ev_reserved_run = cr_run_id rq, ev_operation_id = cr_operation_id rq, ev_effect_id = cr_effect_id rq,
      ev_argument_digest = cr_argument_digest rq, ev_generation = cr_generation rq,
      ev_intent = map_option al_intent (cr_lease rq)\<rparr>"

definition broker_commit ::
  "'j journal_append \<Rightarrow> (('j, 'g, 'k) core_authority, 'f) commit_env \<Rightarrow> ('j, 'g, 'k) core_authority
     \<Rightarrow> 'f effect_commit_request \<Rightarrow> ('j, 'g, 'k) core_authority \<times> effect_commit_disposition" where
  "broker_commit jappend E C rq =
     (case await (cv_waits E) AwaitReserve (\<lambda>C. (C, cv_reserve E (reservation_of rq))) C of
        (C1, Inl error) \<Rightarrow>
          reject_commit jappend E C1 rq BrokerUnavailable
            (lit ''broker could not reserve the approved effect: '' @ error_display error)
            (lit ''effect commit was rejected because its broker reservation failed'')
      | (C1, Inr reservation_id) \<Rightarrow>
         (case await (cv_waits E) AwaitBroker
                 (\<lambda>C. (C, cv_dispatch E (reservation_of rq) reservation_id (cr_effect rq))) C1 of
            (C2, receipt) \<Rightarrow>
             (let settlement = settlement_of receipt;
                  ack = \<lparr>ak_reservation_id = reservation_id, ak_operation_id = cr_operation_id rq,
                         ak_settlement = settlement,
                         ak_receipt_summary = lit ''settlement='' @ settlement_label settlement\<rparr>
              in case await (cv_waits E) AwaitAck (\<lambda>C. (C, cv_ack E ack)) C2 of
                   (C3, acked) \<Rightarrow>
                    (let ack_debt = (case acked of
                           Inr () \<Rightarrow> None
                         | Inl error \<Rightarrow> Some \<lparr>ad_operation_id = cr_operation_id rq, ad_effect_id = cr_effect_id rq,
                             ad_reservation_id = reservation_id, ad_settlement = settlement,
                             ad_error = bounded_effect_error (error_display error)\<rparr>)
                     in case finish_operation_effect jappend C3 (cr_operation_id rq) receipt of
                          (C4, Inl error) \<Rightarrow>
                            (C4, AuthorityRecordFailed receipt (lit ''operation terminal record failed: '' @ error_display error))
                        | (C4, Inr ()) \<Rightarrow> (C4, CommitReceipt receipt ack_debt)))))"

definition commit_effect ::
  "'j journal_append \<Rightarrow> (('j, 'g, 'k) core_authority, 'f) commit_env \<Rightarrow> ('j, 'g, 'k) core_authority
     \<Rightarrow> 'f effect_commit_request \<Rightarrow> ('j, 'g, 'k) core_authority \<times> effect_commit_disposition" where
  "commit_effect jappend E C rq =
     (case admit_commit jappend E C rq of
        (C1, Inl disposition) \<Rightarrow> (C1, disposition)
      | (C1, Inr ()) \<Rightarrow> broker_commit jappend E C1 rq)"

section \<open>Rollback\<close>

definition rollback_effect ::
  "'j journal_append \<Rightarrow> (('j, 'g, 'k) core_authority, 'f) commit_env \<Rightarrow> ('j, 'g, 'k) core_authority
     \<Rightarrow> 'f effect_rollback_request \<Rightarrow> ('j, 'g, 'k) core_authority \<times> unit agent_result" where
  "rollback_effect jappend E C rq =
     (let fenced = (\<lambda>C text e. let message = bounded_effect_error (text @ error_display e) in
                     (require_operation_recovery C message, Inl (RecoveryRequired message)));
          answer = (\<lambda>C'. (C', if rr_run_id rq \<noteq> ca_run_id C
                       then Inl (InvalidRequest (lit ''effect rollback run does not match Core run'')) else Inr ()))
      in case await_rollback E (rr_effect rq) (bounded_effect_error (rr_reason rq)) C of
           (C1, Inl e) \<Rightarrow> fenced C1 (lit ''operation prepared-effect rollback could not be confirmed: '') e
         | (C1, Inr ()) \<Rightarrow>
             (case rr_effect_id rq of
                None \<Rightarrow> answer C1
              | Some effect_id \<Rightarrow>
                  (case abort_prepared_operation jappend C1 (rr_operation_id rq) effect_id (rr_argument_digest rq) of
                     (C2, Inl e) \<Rightarrow> fenced C2 (lit ''operation rollback cleanup succeeded, but its authority terminal could not be confirmed: '') e
                   | (C2, Inr ()) \<Rightarrow> answer C2)))"

end
