(* ===== verification/Live_Events.thy ===== *)
theory Live_Events
  imports Core_Authority
begin

text \<open>
  The live stream of a model call (\<^verbatim>\<open>crates/agent-runtime/src/sink.rs\<close>). \<open>EventAuthority::sender\<close> hands the broadcast channel
  to a \<open>LiveSink\<close>, which sends the deltas of a streaming model straight to the subscribers: they are not journaled, and
  each repeats the cursor that the event authority had when the sink was opened. So the channel carries journaled events and
  live ones. A sink is a value; in the model it is kept in a list, and any number of sinks send in any order, between the
  calls of the event authority. The sends of one durable batch are one step of the model; where a live event falls
  among them in the source only changes its place in the channel, of which the statements below say nothing.
\<close>

section \<open>The sink\<close>

datatype model_chunk =
    TextDelta rust_str
  | ToolCallDelta rust_str "rust_str option" rust_str
  | Retrying nat nat
  | ChunkDone

record live_sink =
  ls_journal_cursor :: nat
  ls_run_id :: uuid
  ls_turn_id :: uuid
  ls_operation_id :: uuid
  ls_generation :: nat

definition live_sink_new :: "nat \<Rightarrow> uuid \<Rightarrow> uuid \<Rightarrow> uuid \<Rightarrow> nat \<Rightarrow> live_sink" where
  "live_sink_new journal_cursor run_id turn_id operation_id generation =
     \<lparr>ls_journal_cursor = journal_cursor, ls_run_id = run_id, ls_turn_id = turn_id, ls_operation_id = operation_id,
      ls_generation = generation\<rparr>"

definition emit_live ::
  "live_sink \<Rightarrow> nat \<Rightarrow> runtime_event \<Rightarrow> ('k, runtime_event) event_authority \<Rightarrow> ('k, runtime_event) event_authority" where
  "emit_live sink now event A = A\<lparr>ea_sent := ea_sent A @
     [\<lparr>ev_run_id = ls_run_id sink, ev_seq = ls_journal_cursor sink, ev_timestamp_ms = now, ev_event = event\<rparr>]\<rparr>"

fun creates_replay_barrier :: "model_chunk \<Rightarrow> bool" where
  "creates_replay_barrier (TextDelta delta) = True"
| "creates_replay_barrier _ = False"

fun on_chunk ::
  "live_sink \<Rightarrow> nat \<Rightarrow> model_chunk \<Rightarrow> ('k, runtime_event) event_authority
     \<Rightarrow> ('k, runtime_event) event_authority \<times> unit agent_result" where
  "on_chunk sink now (TextDelta delta) A =
     (emit_live sink now (ModelDelta (ls_turn_id sink) (ls_operation_id sink) (ls_generation sink) delta) A, Inr ())"
| "on_chunk sink now (Retrying attempt delay_ms) A =
     (emit_live sink now (ModelRetrying (ls_turn_id sink) (ls_operation_id sink) (ls_generation sink) attempt delay_ms) A, Inr ())"
| "on_chunk sink now (ToolCallDelta call_id name arguments_delta) A = (A, Inr ())"
| "on_chunk sink now ChunkDone A = (A, Inr ())"

fun is_live_only :: "runtime_event \<Rightarrow> bool" where
  "is_live_only (ModelDelta _ _ _ _) = True"
| "is_live_only (ModelRetrying _ _ _ _ _) = True"
| "is_live_only _ = False"

section \<open>The event authority and its sinks\<close>

datatype live_call =
    LiveAuthority "runtime_event event_call"
  | LiveOpen uuid uuid uuid nat
  | LiveChunk nat nat model_chunk

fun live_step ::
  "('k, runtime_event) event_append \<Rightarrow> 'k event_flush \<Rightarrow> ('k, runtime_event) event_authority \<times> live_sink list \<Rightarrow> live_call
     \<Rightarrow> ('k, runtime_event) event_authority \<times> live_sink list" where
  "live_step append_event flush (A, sinks) (LiveAuthority c) = (event_step append_event flush A c, sinks)"
| "live_step append_event flush (A, sinks) (LiveOpen run_id turn_id operation_id generation) =
     (A, sinks @ [live_sink_new (sequence_cursor A) run_id turn_id operation_id generation])"
| "live_step append_event flush (A, sinks) (LiveChunk i now chunk) =
     ((if i < length sinks then fst (on_chunk (sinks ! i) now chunk A) else A), sinks)"

text \<open>An envelope that one of the sinks sent.\<close>

definition sent_live :: "live_sink list \<Rightarrow> runtime_event runtime_event_envelope \<Rightarrow> bool" where
  "sent_live sinks env \<longleftrightarrow> is_live_only (ev_event env)
     \<and> (\<exists>sink \<in> set sinks. ev_seq env = ls_journal_cursor sink \<and> ev_run_id env = ls_run_id sink)"

definition live_ok :: "(('k, runtime_event) recording, runtime_event) event_authority \<times> live_sink list \<Rightarrow> bool" where
  "live_ok S \<longleftrightarrow> (\<exists>xs ys. ea_sent (fst S) \<in> shuffles xs ys \<and> event_ok ((fst S)\<lparr>ea_sent := xs\<rparr>) \<and> list_all (sent_live (snd S)) ys)
     \<and> (\<forall>sink \<in> set (snd S). ls_journal_cursor sink \<le> ea_seq (fst S))"

text \<open>What was sent before a call has no influence on it: it only sends more.\<close>

lemma journal_event_sent:
  "journal_event append_event (A\<lparr>ea_sent := xs\<rparr>) env
     = (case journal_event append_event A env of (A', r) \<Rightarrow> (A'\<lparr>ea_sent := xs\<rparr>, r))"
  by (simp add: journal_event_def split: option.split prod.split)

lemma flush_journal_sent:
  "flush_journal flush (A\<lparr>ea_sent := xs\<rparr>) = (case flush_journal flush A of (A', r) \<Rightarrow> (A'\<lparr>ea_sent := xs\<rparr>, r))"
  by (simp add: flush_journal_def split: option.split prod.split)

lemma append_batch_sent:
  "append_batch append_event (A\<lparr>ea_sent := xs\<rparr>) run_id events
     = (case append_batch append_event A run_id events of (A', r) \<Rightarrow> (A'\<lparr>ea_sent := xs\<rparr>, r))"
proof (induction events arbitrary: A)
  case (Cons ne events)
  obtain now event where ne: "ne = (now, event)" by fastforce
  have env: "envelope (A\<lparr>ea_sent := xs\<rparr>) run_id now event = envelope A run_id now event" by (simp add: envelope_def)
  obtain A1 r1 where j: "journal_event append_event A (envelope A run_id now event) = (A1, r1)" by fastforce
  obtain A2 r2 where b: "append_batch append_event (A1\<lparr>ea_seq := ev_seq (envelope A run_id now event)\<rparr>) run_id events = (A2, r2)"
    by fastforce
  have swap: "A1\<lparr>ea_sent := xs, ea_seq := n\<rparr> = A1\<lparr>ea_seq := n, ea_sent := xs\<rparr>" for n by simp
  show ?case unfolding ne
    using Cons.IH [of "A1\<lparr>ea_seq := ev_seq (envelope A run_id now event)\<rparr>"] j b
    by (cases r1; cases r2) (auto simp: Let_def env journal_event_sent swap)
qed simp

lemma event_step_sends:
  "\<exists>zs. \<forall>xs. event_step append_event flush (A\<lparr>ea_sent := xs\<rparr>) c = (event_step append_event flush A c)\<lparr>ea_sent := xs @ zs\<rparr>"
proof (cases c)
  case (CallEmit run_id now event)
  let ?env = "envelope A run_id now event"
  have env: "envelope (A\<lparr>ea_sent := xs\<rparr>) run_id now event = ?env" for xs by (simp add: envelope_def)
  obtain A1 r1 where j: "journal_event append_event A ?env = (A1, r1)" by fastforce
  then show ?thesis using CallEmit
    by (intro exI [of _ "case r1 of Inr _ \<Rightarrow> [?env] | Inl _ \<Rightarrow> []"], cases r1) (simp_all add: emit_def Let_def env journal_event_sent)
next
  case (CallBatch run_id events)
  obtain A1 r1 where b: "append_batch append_event A run_id events = (A1, r1)" by fastforce
  obtain A2 r2 where f: "flush_journal flush A1 = (A2, r2)" by fastforce
  show ?thesis
  proof (cases "events = [] \<or> MAX_DURABLE_BATCH_EVENTS < length events")
    case True
    then show ?thesis using CallBatch by (intro exI [of _ "[]"]) (auto simp: emit_batch_durable_def)
  next
    case False
    then show ?thesis using CallBatch b f
      by (intro exI [of _ "case r1 of Inr envs \<Rightarrow> (case r2 of Inr _ \<Rightarrow> envs | Inl _ \<Rightarrow> []) | Inl _ \<Rightarrow> []"], cases r1; cases r2) (simp_all add: emit_batch_durable_def append_batch_sent flush_journal_sent)
  qed
next
  case CallFlush
  obtain A2 r2 where f: "flush_journal flush A = (A2, r2)" by fastforce
  then show ?thesis using CallFlush by (intro exI [of _ "[]"]) (simp add: flush_journal_sent)
qed

lemma journal_event_seq: "ea_seq (fst (journal_event append_event A env)) = ea_seq A"
  by (simp add: journal_event_def split: option.split prod.split)

lemma flush_journal_seq: "ea_seq (fst (flush_journal flush A)) = ea_seq A"
  by (simp add: flush_journal_def split: option.split prod.split)

lemma append_batch_seq: "ea_seq A \<le> ea_seq (fst (append_batch append_event A run_id events))"
proof (induction events arbitrary: A)
  case (Cons ne events)
  obtain now event where ne: "ne = (now, event)" by fastforce
  let ?env = "envelope A run_id now event"
  obtain A1 r1 where j: "journal_event append_event A ?env = (A1, r1)" by fastforce
  have "ea_seq A1 = ea_seq A" using journal_event_seq [of append_event A ?env] j by simp
  moreover obtain A2 r2 where b: "append_batch append_event (A1\<lparr>ea_seq := ev_seq ?env\<rparr>) run_id events = (A2, r2)" by fastforce
  ultimately show ?case unfolding ne using Cons.IH [of "A1\<lparr>ea_seq := ev_seq ?env\<rparr>"] j
    by (cases r1; cases r2) (simp_all add: Let_def envelope_def)
qed simp

lemma event_step_seq: "ea_seq A \<le> ea_seq (event_step append_event flush A c)"
proof (cases c)
  case (CallEmit run_id now event)
  let ?env = "envelope A run_id now event"
  obtain A1 r1 where j: "journal_event append_event A ?env = (A1, r1)" by fastforce
  then show ?thesis using journal_event_seq [of append_event A ?env] CallEmit
    by (cases r1) (simp_all add: emit_def Let_def envelope_def)
next
  case (CallBatch run_id events)
  obtain A1 r1 where b: "append_batch append_event A run_id events = (A1, r1)" by fastforce
  obtain A2 r2 where f: "flush_journal flush A1 = (A2, r2)" by fastforce
  have "ea_seq A \<le> ea_seq A1" "ea_seq A2 = ea_seq A1"
    using append_batch_seq [of A append_event run_id events] flush_journal_seq [of flush A1] b f by simp_all
  then show ?thesis using CallBatch b f by (cases r1; cases r2) (simp_all add: emit_batch_durable_def)
qed (simp add: flush_journal_seq)

lemma append_in_shuffles: "ys @ zs \<in> shuffles zs ys"
  by (induction ys) (auto simp: Cons_in_shuffles_iff)

lemma shuffles_append: "s \<in> shuffles xs ys \<Longrightarrow> s @ zs \<in> shuffles (xs @ zs) ys"
  by (induction xs ys arbitrary: s rule: shuffles.induct) (auto simp: Cons_in_shuffles_iff append_in_shuffles)

lemma sent_live_mono: "list_all (sent_live sinks) ys \<Longrightarrow> list_all (sent_live (sinks @ more_sinks)) ys"
  by (auto simp: list_all_iff sent_live_def)

lemma live_step_ok:
  assumes "live_ok S"
  shows "live_ok (live_step (recorded_append append_event) (recorded_flush flush) S c)"
proof -
  obtain A sinks where S: "S = (A, sinks)" by fastforce
  obtain xs ys where ok: "ea_sent A \<in> shuffles xs ys" "event_ok (A\<lparr>ea_sent := xs\<rparr>)" "list_all (sent_live sinks) ys"
    and cur: "\<forall>sink \<in> set sinks. ls_journal_cursor sink \<le> ea_seq A"
    using assms by (auto simp: live_ok_def S)
  show ?thesis
  proof (cases c)
    case (LiveAuthority call)
    let ?f = "\<lambda>A. event_step (recorded_append append_event) (recorded_flush flush) A call"
    obtain zs where zs: "?f (A\<lparr>ea_sent := xs\<rparr>) = (?f A)\<lparr>ea_sent := xs @ zs\<rparr>" for xs
      using event_step_sends [of "recorded_append append_event" "recorded_flush flush" A call] by blast
    have "ea_sent (?f A) = ea_sent A @ zs" using arg_cong [OF zs [of "ea_sent A"], of ea_sent] by simp
    moreover have "event_ok ((?f A)\<lparr>ea_sent := xs @ zs\<rparr>)" using event_step_ok [OF ok(2), of append_event flush call] unfolding zs .
    ultimately show ?thesis using S LiveAuthority ok(3) shuffles_append [OF ok(1), of zs] cur
        event_step_seq [of A "recorded_append append_event" "recorded_flush flush" call]
      by (fastforce simp: live_ok_def)
  next
    case (LiveOpen run_id turn_id operation_id generation)
    then show ?thesis using S ok sent_live_mono cur by (fastforce simp: live_ok_def live_sink_new_def sequence_cursor_def)
  next
    case (LiveChunk i now chunk)
    have live: "live_ok (emit_live sink now event A, sinks)" if "sink \<in> set sinks" "is_live_only event" for sink event
    proof -
      let ?env = "\<lparr>ev_run_id = ls_run_id sink, ev_seq = ls_journal_cursor sink, ev_timestamp_ms = now, ev_event = event\<rparr>"
      have "ea_sent A @ [?env] \<in> shuffles xs (ys @ [?env])"
        using shuffles_append [of "ea_sent A" ys xs "[?env]"] ok(1) by (simp add: shuffles_commutes)
      moreover have "list_all (sent_live sinks) (ys @ [?env])" using ok(3) that by (auto simp: sent_live_def)
      moreover have "event_ok ((emit_live sink now event A)\<lparr>ea_sent := xs\<rparr>)" using ok(2) by (simp add: emit_live_def)
      ultimately show ?thesis using cur unfolding live_ok_def
        by (intro conjI exI [of _ xs] exI [of _ "ys @ [?env]"]) (simp_all add: emit_live_def)
    qed
    show ?thesis using S LiveChunk live assms by (cases chunk) auto
  qed
qed

lemma live_run_ok:
  "live_ok S \<Longrightarrow> live_ok (foldl (live_step (recorded_append append_event) (recorded_flush flush)) S calls)"
  by (induction calls arbitrary: S) (simp_all add: live_step_ok)

section \<open>What subscribers see\<close>

text \<open>
  C37. Events are numbered without gaps, and what subscribers see was journaled or is a live delta. From a new event
  authority over any journal, and under any sequence of emits, durable batches, flushes, live sinks opened and chunks
  streamed through them, with any failures of the journal: the events the journal accepted are numbered 1, 2, 3 and so on
  up to the current cursor, in this order; what was broadcast is a shuffle of two lists. The one is a subsequence of the
  accepted events in their order. The other holds only live-only events (\<open>ModelDelta\<close>, \<open>ModelRetrying\<close>), each with the run and
  the cursor of the sink that sent it, which is at most the current cursor: no live event takes a number of its own.
\<close>
theorem broadcast_events_are_journaled_or_live:
  assumes "foldl (live_step (recorded_append append_event) (recorded_flush flush)) (event_authority_new (Some (k0, [])), []) calls
    = (A, sinks)"
  shows "\<exists>k log xs ys. ea_journal A = Some (k, log)
     \<and> map ev_seq (appended log) = [1..<Suc (sequence_cursor A)]
     \<and> ea_sent A \<in> shuffles xs ys \<and> subseq xs (appended log)
     \<and> (\<forall>env \<in> set ys. is_live_only (ev_event env) \<and> ev_seq env \<le> sequence_cursor A
          \<and> (\<exists>sink \<in> set sinks. ev_seq env = ls_journal_cursor sink \<and> ev_run_id env = ls_run_id sink))"
proof -
  have "event_ok (event_authority_new (Some (k0, [])))"
    by (rule event_okI [of _ k0 "[]"]) (simp_all add: event_authority_new_def)
  then have "live_ok (event_authority_new (Some (k0, [])), [])"
    by (auto simp: live_ok_def event_authority_new_def intro!: exI [of _ "[]"])
  from live_run_ok [OF this, of append_event flush calls]
  obtain xs ys where ok: "ea_sent A \<in> shuffles xs ys" "event_ok (A\<lparr>ea_sent := xs\<rparr>)" "list_all (sent_live sinks) ys"
    "\<forall>sink \<in> set sinks. ls_journal_cursor sink \<le> ea_seq A"
    unfolding assms by (auto simp: live_ok_def)
  then obtain k log where "ea_journal A = Some (k, log)" "map ev_seq (appended log) = [1..<Suc (ea_seq A)]" "subseq xs (appended log)"
    by (auto simp: event_ok_def)
  then show ?thesis using ok unfolding sequence_cursor_def
    by (intro exI [of _ k] exI [of _ log] exI [of _ xs] exI [of _ ys]) (fastforce simp: list_all_iff sent_live_def)
qed

text \<open>A run in which a text delta is streamed between two journaled events: it repeats the number of the first.\<close>

definition streamed_calls :: "live_call list" where
  "streamed_calls = [LiveAuthority (CallEmit 1 10 RunStarted), LiveOpen 1 2 3 1, LiveChunk 0 11 (TextDelta (lit ''hi'')),
     LiveChunk 0 12 ChunkDone, LiveAuthority (CallEmit 1 13 RunCompleted)]"

theorem broadcast_events_are_journaled_or_live_witness:
  "\<exists>A sinks xs ys. foldl (live_step (recorded_append (\<lambda>k _. (k, Inr ()))) (recorded_flush (\<lambda>k. (k, Inr ()))))
       (event_authority_new (Some ((), [])), []) streamed_calls = (A, sinks)
     \<and> map ev_seq (ea_sent A) = [1, 1, 2] \<and> ea_sent A \<in> shuffles xs ys
     \<and> (\<forall>env \<in> set ys. is_live_only (ev_event env) \<and> ev_seq env \<le> 2)"
proof -
  obtain A sinks where run: "foldl (live_step (recorded_append (\<lambda>k _. (k, Inr ()))) (recorded_flush (\<lambda>k. (k, Inr ()))))
       (event_authority_new (Some ((), [])), []) streamed_calls = (A, sinks)" by fastforce
  then have A: "map ev_seq (ea_sent A) = [1, 1, 2]" "sequence_cursor A = 2"
    by (auto simp: streamed_calls_def event_authority_new_def emit_def envelope_def Let_def journal_event_def recorded_append_def
        live_sink_new_def sequence_cursor_def emit_live_def)
  from broadcast_events_are_journaled_or_live [OF run] A run show ?thesis by auto
qed

end
