(* ===== verification/Core_Steps.thy ===== *)
theory Core_Steps
  imports Core_Startup Registry_Properties Live_Events
begin

text \<open>
  What other tasks may do to the kernel while one of them waits: any sequence of the kernel's own steps, and of the sends of
  live sinks. A step is one critical section: most methods hold the authority gate for all of it; settling a value, an effect
  or a cancellation, aborting and the admission of a commit are ordered by the registry's transition gate, under which all
  that they change happens; what they check before it is checked again under it, or is an identity, which never changes. Compacting the journal is no step of its own: it changes neither the registry nor what
  the journal means (Journal_Properties), and the abstract journal of the steps may compact at any append. The async methods
  are sequences of these steps too. Every step is a run of the registry, never lowers the epoch, and keeps the
  epoch in memory equal to the durable one as long as the kernel is not fenced.
\<close>

section \<open>Steps\<close>

datatype 'g core_op =
    AdmitOp tool_operation_identity tool_call nat
  | ExecutingOp nat uuid "uuid option"
  | LeaseOp uuid authority_lease
  | PreparedOp uuid uuid
  | RefusedOp uuid rust_str
  | ValueOp nat uuid digest
  | CancelOp tool_operation_identity
  | CancelAdvanceOp tool_operation_identity nat
  | CommitOp nat uuid uuid digest
  | EffectOp uuid effect_receipt
  | RecoveryOp rust_str
  | AbortOp uuid uuid digest
  | AdvanceOp nat
  | EventOp nat runtime_event
  | BatchOp "(nat \<times> runtime_event) list"
  | FlushOp
  | LiveOp live_sink nat model_chunk
  | GateOp 'g
  | PoliciesOp "host_tool_policies option"

record ('j, 'k) core_ports =
  cp_append :: "'j journal_append"
  cp_event :: "('k, runtime_event) event_append"
  cp_flush :: "'k event_flush"
  cp_digests :: digest_env

fun core_step ::
  "('j, 'k) core_ports \<Rightarrow> ('j, 'g, 'k) core_authority \<Rightarrow> 'g core_op \<Rightarrow> ('j, 'g, 'k) core_authority" where
  "core_step P C (AdmitOp i call g) = fst (admit_tool_operation (cp_append P) (cp_digests P) C i call g)"
| "core_step P C (ExecutingOp n k e) = fst (mark_operation_executing_if_current (cp_append P) C n k e)"
| "core_step P C (LeaseOp k l) = fst (on_operations (\<lambda>R. record_lease R k l) C)"
| "core_step P C (PreparedOp k e) = fst (on_operations (\<lambda>R. mark_prepared (cp_append P) R k e) C)"
| "core_step P C (RefusedOp k m) = fst (on_operations (\<lambda>R. finish_refused (cp_append P) R k m) C)"
| "core_step P C (ValueOp n k d) = fst (finish_value_operation_if_current (cp_append P) C n k d)"
| "core_step P C (CancelOp i) = fst (on_operations (\<lambda>R. cancel (cp_append P) R i) C)"
| "core_step P C (CancelAdvanceOp i n) = fst (cancel_operation_and_advance (cp_append P) C i n)"
| "core_step P C (CommitOp n k e d) = fst (begin_operation_commit_if_current (cp_append P) C n k e d)"
| "core_step P C (EffectOp k rc) = fst (finish_operation_effect (cp_append P) C k rc)"
| "core_step P C (RecoveryOp m) = require_operation_recovery C m"
| "core_step P C (AbortOp k e d) = fst (abort_prepared_operation (cp_append P) C k e d)"
| "core_step P C (AdvanceOp n) = fst (advance_authority_epoch (cp_append P) C n)"
| "core_step P C (EventOp now ev) = C\<lparr>ca_event := fst (emit (cp_event P) (ca_event C) (ca_run_id C) now ev)\<rparr>"
| "core_step P C (BatchOp evs) =
     C\<lparr>ca_event := fst (emit_batch_durable (cp_event P) (cp_flush P) (ca_event C) (ca_run_id C) evs)\<rparr>"
| "core_step P C FlushOp = C\<lparr>ca_event := fst (flush_journal (cp_flush P) (ca_event C))\<rparr>"
| "core_step P C (LiveOp sink now chunk) = C\<lparr>ca_event := fst (on_chunk sink now chunk (ca_event C))\<rparr>"
| "core_step P C (GateOp g) = C\<lparr>ca_gate := g\<rparr>"
| "core_step P C (PoliciesOp ps) = C\<lparr>ca_host_policies := ps\<rparr>"

definition reaches :: "('j, 'k) core_ports \<Rightarrow> ('j, 'g, 'k) core_authority \<Rightarrow> ('j, 'g, 'k) core_authority \<Rightarrow> bool" where
  "reaches P C C' \<longleftrightarrow> (\<exists>ops. C' = foldl (core_step P) C ops)"

lemma reaches_refl [simp]: "reaches P C C"
  unfolding reaches_def by (rule exI [of _ "[]"]) simp

lemma reaches_step: "reaches P C (core_step P C c)"
  unfolding reaches_def by (rule exI [of _ "[c]"]) simp

lemma reaches_trans: "reaches P C C' \<Longrightarrow> reaches P C' C'' \<Longrightarrow> reaches P C C''"
  unfolding reaches_def by (metis foldl_append)

lemma reaches_induct [consumes 1, case_names refl step]:
  assumes "reaches P C C'" "Q C" "\<And>C c. Q C \<Longrightarrow> Q (core_step P C c)"
  shows "Q C'"
proof -
  obtain ops where ops: "C' = foldl (core_step P) C ops" using assms(1) unfolding reaches_def by blast
  from assms(2) have "Q (foldl (core_step P) C ops)" by (induction ops arbitrary: C) (simp_all add: assms(3))
  then show ?thesis using ops by simp
qed

section \<open>A step is a run of the registry\<close>

lemma on_operations_simps [simp]:
  "ca_operations (fst (on_operations f C)) = fst (f (ca_operations C))"
  "ca_authority_epoch (fst (on_operations f C)) = ca_authority_epoch C"
  "ca_run_id (fst (on_operations f C)) = ca_run_id C"
  by (simp_all add: on_operations_def split: prod.splits)

lemma on_operations_eq:
  "on_operations f C = (C', r) \<longleftrightarrow> C' = C\<lparr>ca_operations := fst (f (ca_operations C))\<rparr> \<and> r = snd (f (ca_operations C))"
  by (auto simp: on_operations_def split: prod.splits)

lemma if_allowed_fst: "fst (if_allowed C rest) = (if healthy (ca_operations C) then fst rest else C)"
  by (simp add: if_allowed_def mutation_guards split: option.splits)

lemma if_current_fst: "fst (if_current C n rest) = (if ca_authority_epoch C = n then fst rest else C)"
  by (simp add: if_current_def)

lemmas guard_fst = if_allowed_fst if_current_fst

lemma and_then_fst: "fst (and_then x f) = (case snd x of Inl e \<Rightarrow> fst x | Inr a \<Rightarrow> fst (f (fst x) a))"
  by (cases x; cases "snd x") auto

lemma and_then_snd: "snd (and_then x f) = (case snd x of Inl e \<Rightarrow> Inl e | Inr a \<Rightarrow> snd (f (fst x) a))"
  by (cases x; cases "snd x") auto

lemma fst_and_then_pair: "fst (and_then x (\<lambda>s a. (s, f s a))) = fst x"
  by (simp add: and_then_fst split: sum.splits)

text \<open>The registry calls of one step: none, or one.\<close>

lemma core_step_registry:
  "ca_operations (core_step P C c) = ca_operations C
   \<or> (\<exists>rc. ca_operations (core_step P C c) = registry_step (cp_append P) (ca_operations C) rc)"
proof (cases c)
  case (AdmitOp i call g)
  show ?thesis
    unfolding AdmitOp
    by (auto simp: admit_tool_operation_def guard_fst fst_and_then_pair
        intro!: exI [of _ "CallAccept i"] split: sum.splits)
next
  case (ExecutingOp n k e)
  then show ?thesis
    by (auto simp: mark_operation_executing_if_current_def guard_fst intro!: exI [of _ "CallExecuting k e"])
next
  case (LeaseOp k l)
  then show ?thesis by (auto intro!: exI [of _ "CallLease k l"])
next
  case (PreparedOp k e)
  then show ?thesis by (auto intro!: exI [of _ "CallPrepared k e"])
next
  case (RefusedOp k m)
  then show ?thesis by (auto intro!: exI [of _ "CallRefused k m"])
next
  case (ValueOp n k d)
  then show ?thesis
    by (auto simp: finish_value_operation_if_current_def guard_fst intro!: exI [of _ "CallValue k d n"])
next
  case (CancelOp i)
  then show ?thesis by (auto intro!: exI [of _ "CallCancel i"])
next
  case (CancelAdvanceOp i n)
  have "ca_operations (fst (and_then x (\<lambda>C1 transition. case transition of
                 CancelledNow result \<Rightarrow> (C1\<lparr>ca_authority_epoch := m\<rparr>, Inr (CancelledAtEpoch m result))
               | AlreadySettled result \<Rightarrow> (C1, Inr (CancelAlreadySettled result))))) = ca_operations (fst x)"
    for x :: "('a, 'b, 'c) core_authority \<times> operation_cancel_transition agent_result" and m
    by (simp add: and_then_fst split: sum.splits operation_cancel_transition.splits)
  then show ?thesis
    unfolding CancelAdvanceOp
    by (auto simp: cancel_operation_and_advance_def guard_fst intro!: exI [of _ "CallCancelEpoch i n (n + 1)"]
        split: sum.splits option.splits simp: checked_add_u64_def)
next
  case (CommitOp n k e d)
  then show ?thesis
    by (auto simp: begin_operation_commit_if_current_def begin_operation_commit_def guard_fst
        intro!: exI [of _ "CallCommit k e"] split: operation_query_result.splits)
next
  case (EffectOp k rc)
  then show ?thesis by (auto simp: finish_operation_effect_def guard_fst intro!: exI [of _ "CallEffect k rc"])
next
  case (RecoveryOp m)
  then show ?thesis by (auto simp: require_operation_recovery_def intro!: exI [of _ "CallRequireRecovery m"])
next
  case (AbortOp k e d)
  then show ?thesis by (auto simp: abort_prepared_operation_def guard_fst intro!: exI [of _ "CallAbort k e d"])
next
  case (AdvanceOp n)
  have "ca_operations (fst (and_then x (\<lambda>C1 u. (C1\<lparr>ca_authority_epoch := m\<rparr>, Inr m)))) = ca_operations (fst x)"
    for x :: "('a, 'b, 'c) core_authority \<times> unit agent_result" and m :: nat
    by (simp add: and_then_fst split: sum.splits)
  then show ?thesis
    unfolding AdvanceOp
    by (auto simp: advance_authority_epoch_def guard_fst intro!: exI [of _ "CallEpoch n (n + 1)"]
        split: option.splits simp: checked_add_u64_def)
qed simp_all

lemma core_step_runs: "runs_to (cp_append P) (ca_operations C) (ca_operations (core_step P C c))"
  using core_step_registry [of P C c] runs_to_step [of "cp_append P" "ca_operations C"] by (metis runs_to_refl)

lemma reaches_runs: "reaches P C C' \<Longrightarrow> runs_to (cp_append P) (ca_operations C) (ca_operations C')"
  by (induction rule: reaches_induct) (auto intro: runs_to_trans core_step_runs)


section \<open>The epoch\<close>

lemma require_operation_recovery_simps [simp]:
  "ca_operations (require_operation_recovery C m) = require_recovery (ca_operations C) m"
  "ca_authority_epoch (require_operation_recovery C m) = ca_authority_epoch C"
  "ca_run_id (require_operation_recovery C m) = ca_run_id C"
  by (simp_all add: require_operation_recovery_def)

lemmas kernel_defs = admit_tool_operation_def mark_operation_executing_if_current_def
  finish_value_operation_if_current_def cancel_operation_and_advance_def begin_operation_commit_if_current_def
  begin_operation_commit_def finish_operation_effect_def abort_prepared_operation_def advance_authority_epoch_def

text \<open>The methods that never touch the epoch.\<close>

fun moves_epoch :: "'g core_op \<Rightarrow> bool" where
  "moves_epoch (CancelAdvanceOp _ _) = True"
| "moves_epoch (AdvanceOp _) = True"
| "moves_epoch _ = False"

lemma core_step_run_id: "ca_run_id (core_step P C c) = ca_run_id C"
  by (cases c) (auto simp: kernel_defs guard_fst and_then_fst
      split: sum.splits option.splits operation_query_result.splits operation_cancel_transition.splits)

lemma core_step_epoch_same: "\<not> moves_epoch c \<Longrightarrow> ca_authority_epoch (core_step P C c) = ca_authority_epoch C"
  by (cases c) (auto simp: kernel_defs guard_fst and_then_fst split: sum.splits option.splits operation_query_result.splits)

lemma core_step_epoch_mono: "ca_authority_epoch C \<le> ca_authority_epoch (core_step P C c)"
proof (cases "moves_epoch c")
  case True
  then show ?thesis
    by (cases c) (auto simp: kernel_defs guard_fst and_then_fst checked_add_u64_def
        split: sum.splits option.splits operation_cancel_transition.splits if_splits)
qed (simp add: core_step_epoch_same)

lemma reaches_fixed:
  assumes "reaches P C C'"
  shows "ca_run_id C' = ca_run_id C \<and> ca_authority_epoch C \<le> ca_authority_epoch C'"
  using assms by (induction rule: reaches_induct) (auto simp: core_step_run_id intro: order_trans core_step_epoch_mono)

text \<open>What an operation of the registry does to the journal: nothing, or one snapshot.\<close>

definition upserts :: "'j journal_append \<Rightarrow> 'j operation_registry \<Rightarrow> 'j operation_registry \<Rightarrow> bool" where
  "upserts jappend R R' \<longleftrightarrow> og_journal R' = og_journal R
     \<or> (\<exists>s. og_journal R' = og_journal (fst (append_snapshot jappend R s)))"

lemma upserts_same [simp]: "og_journal R' = og_journal R \<Longrightarrow> upserts jappend R R'"
  by (simp add: upserts_def)

lemma upserts_append:
  assumes "\<And>R1 u. og_journal (fst (f R1 u)) = og_journal R1"
  shows "upserts jappend R (fst (and_then (append_snapshot jappend R s) f))"
  using assms by (auto simp: upserts_def and_then_fst split: sum.splits)

lemma transition_upserts: "upserts jappend R (fst (transition jappend R k mv))"
  by (auto simp: transition_def Let_def intro: upserts_append split: sum.splits option.splits)

lemma finish_terminal_upserts: "upserts jappend R (fst (finish_terminal jappend R k e t al))"
  by (auto simp: finish_terminal_def Let_def intro: upserts_append split: sum.splits option.splits)

lemma cancel_upserts: "upserts jappend R (fst (cancel jappend R i))"
  by (auto simp: cancel_def intro: upserts_append split: sum.splits cancel_choice.splits)

lemma accept_upserts: "upserts jappend R (fst (accept jappend R i))"
  by (auto simp: accept_def Let_def intro!: upserts_append split: sum.splits option.splits)

lemma record_lease_journal: "og_journal (fst (record_lease R k l)) = og_journal R"
  by (simp add: record_lease_def split: sum.splits option.splits)

lemma abort_upserts: "upserts jappend R (fst (abort_prepared jappend R k e d))"
  using cancel_upserts by (auto simp: abort_prepared_def
      split: operation_query_result.splits operation_state.splits option.splits operation_terminal.splits)

lemma registry_step_upserts:
  assumes "\<forall>i a b. rc \<noteq> CallCancelEpoch i a b" "\<forall>a b. rc \<noteq> CallEpoch a b"
  shows "upserts jappend R (registry_step jappend R rc)"
proof (cases rc)
  case (CallRecoverTerminal k s e t)
  then show ?thesis
    by (auto simp: recover_terminal_def Let_def intro!: upserts_append split: sum.splits option.splits)
qed (use assms transition_upserts finish_terminal_upserts cancel_upserts accept_upserts abort_upserts in
  \<open>auto simp: mark_executing_def mark_prepared_def begin_commit_def finish_value_def finish_refused_def finish_effect_def
     Let_def record_lease_journal split: sum.splits\<close>)

lemma core_step_upserts:
  assumes "\<not> moves_epoch c"
  shows "upserts (cp_append P) (ca_operations C) (ca_operations (core_step P C c))"
proof -
  have r: "upserts (cp_append P) R (registry_step (cp_append P) R rc)"
    if "\<forall>i a b. rc \<noteq> CallCancelEpoch i a b" "\<forall>a b. rc \<noteq> CallEpoch a b" for R rc
    using registry_step_upserts that by blast
  show ?thesis
    using assms r [of "CallAccept i" for i] r [of "CallExecuting k e" for k e] r [of "CallLease k l" for k l]
      r [of "CallPrepared k e" for k e] r [of "CallRefused k m" for k m] r [of "CallValue k d n" for k d n]
      r [of "CallCancel i" for i] r [of "CallCommit k e" for k e] r [of "CallEffect k rcp" for k rcp]
      r [of "CallAbort k e d" for k e d]
    by (cases c) (auto simp: kernel_defs guard_fst fst_and_then_pair split: sum.splits operation_query_result.splits)
qed


section \<open>The epoch in memory is the durable one\<close>

definition core_agrees :: "('j \<Rightarrow> authority_truth) \<Rightarrow> ('j \<Rightarrow> bool) \<Rightarrow> ('j, 'g, 'k) core_authority \<Rightarrow> bool" where
  "core_agrees truth ok C \<longleftrightarrow> synced truth ok (ca_operations C)
     \<and> (healthy (ca_operations C) \<longrightarrow> (\<exists>j. og_journal (ca_operations C) = Some j \<and> fst (truth j) = ca_authority_epoch C))"

lemma registry_step_fenced: "registry_wf R \<Longrightarrow> healthy (registry_step jappend R rc) \<Longrightarrow> healthy R"
  using run_evolves [of R jappend "[rc]"] evolvesD(5) [of "og_inner R" "og_inner (registry_step jappend R rc)"] by fastforce

lemma core_step_fenced: "registry_wf (ca_operations C) \<Longrightarrow> healthy (ca_operations (core_step P C c)) \<Longrightarrow> healthy (ca_operations C)"
  using core_step_registry [of P C c] registry_step_fenced by metis

context operation_journal
begin

lemma synced_runs_to: "synced truth ok R \<Longrightarrow> runs_to jappend R R' \<Longrightarrow> synced truth ok R'"
  unfolding runs_to_def using synced_run by blast

lemma upserts_epoch:
  assumes "synced truth ok R" "upserts jappend R R'" "og_journal R = Some j"
  shows "\<exists>j'. og_journal R' = Some j' \<and> fst (truth j') = fst (truth j)"
proof (cases "og_journal R' = og_journal R")
  case True
  then show ?thesis using assms(3) by simp
next
  case False
  then obtain s where s: "og_journal R' = og_journal (fst (append_snapshot jappend R s))"
    using assms(2) unfolding upserts_def by blast
  obtain R1 r where a: "append_transition jappend R (OperationUpsert s) = (R1, r)" by fastforce
  obtain j1 where "og_journal R1 = Some j1"
    "case r of Inr _ \<Rightarrow> truth j1 = apply_truth (truth j) (OperationUpsert s) | Inl _ \<Rightarrow> truth j1 = truth j"
    using append_transition_synced [OF assms(1) a] assms(3) by auto
  then show ?thesis using s a by (cases r; cases "truth j") (auto simp: append_snapshot_def)
qed

lemma append_epoch_agrees:
  assumes "synced truth ok R" "append_transition jappend R (EpochAdvanced a b) = (R1, Inr ())"
  shows "\<exists>j. og_journal R1 = Some j \<and> fst (truth j) = b"
proof -
  obtain j j' where "og_journal R1 = Some j'" "truth j' = apply_truth (truth j) (EpochAdvanced a b)"
    using append_transition_synced [OF assms] by auto
  then show ?thesis by (cases "truth j") auto
qed

lemma append_failed_fences: "append_transition jappend R t = (R1, Inl e) \<Longrightarrow> \<not> healthy R1"
  by (auto elim: append_transition_shape)

lemma cancel_epoch_agrees:
  assumes "synced truth ok R" "healthy R" "cancel_and_persist_epoch jappend R i a b = (R', res)"
  shows "(\<exists>q. res = Inr (CancelledNow q) \<and> (\<exists>j. og_journal R' = Some j \<and> fst (truth j) = b))
     \<or> R' = R \<and> (\<forall>q. res \<noteq> Inr (CancelledNow q)) \<or> (\<exists>e. res = Inl e \<and> \<not> healthy R')"
proof (cases "choose_epoch_cancel R i")
  case (EpochCancelWith n)
  let ?pub = "\<lambda>R2. (R2\<lparr>og_inner := publish_cancelled (og_inner R2) (og_capacity R2) (oi_operation_id i) n\<rparr>,
    Inr (CancelledNow (Found n)) :: operation_cancel_transition agent_result)"
  show ?thesis
  proof (cases "identity_validate i = Inr () \<and> a \<noteq> 0 \<and> b = (case checked_add_u64 a 1 of Some n \<Rightarrow> n | None \<Rightarrow> 0)")
    case False
    then show ?thesis using assms(3)
      by (cases "identity_validate i") (auto simp: cancel_and_persist_epoch_def)
  next
    case True
    obtain R1 r1 where a1: "append_transition jappend R (EpochAdvanced a b) = (R1, r1)" by fastforce
    have run: "cancel_and_persist_epoch jappend R i a b
        = and_then (R1, r1) (\<lambda>R1 _. and_then (append_snapshot jappend R1 n) (\<lambda>R2 _. ?pub R2))"
      using True EpochCancelWith a1 assms(2) by (simp add: cancel_and_persist_epoch_def ensure_healthy_def)
    show ?thesis
    proof (cases r1)
      case (Inl e)
      then show ?thesis using assms(3) append_failed_fences [of R "EpochAdvanced a b" R1 e] a1 unfolding run by auto
    next
      case (Inr u)
      then have a1': "append_transition jappend R (EpochAdvanced a b) = (R1, Inr ())" using a1 by simp
      have s1: "synced truth ok R1"
        using synced_move [OF move_epoch [OF a1'] assms(1)] .
      obtain j where j: "og_journal R1 = Some j" "fst (truth j) = b"
        using append_epoch_agrees [OF assms(1) a1'] by blast
      obtain R2 r2 where a2: "append_snapshot jappend R1 n = (R2, r2)" by fastforce
      have "upserts jappend R1 R2" using a2 unfolding upserts_def by (metis fst_conv)
      then obtain j2 where j2: "og_journal R2 = Some j2" "fst (truth j2) = b"
        using upserts_epoch [OF s1 _ j(1)] j(2) by auto
      show ?thesis
      proof (cases r2)
        case (Inl e)
        then show ?thesis using assms(3) Inr a2 append_failed_fences [of R1 "OperationUpsert n" R2 e]
          unfolding run by (auto simp: append_snapshot_def)
      next
        case ok: (Inr v)
        then show ?thesis using assms(3) Inr a2 j2 unfolding run by auto
      qed
    qed
  qed
qed (use assms(2,3) in \<open>auto simp: cancel_and_persist_epoch_def ensure_healthy_def split: sum.splits if_splits\<close>)

lemma startup_epoch:
  assumes "list_all startup_call calls" "synced truth ok R" "og_journal R = Some j"
  shows "\<exists>j'. og_journal (registry_run jappend R calls) = Some j' \<and> fst (truth j') = fst (truth j)"
  using assms
proof (induction calls arbitrary: R j)
  case (Cons c calls)
  have "upserts jappend R (registry_step jappend R c)"
    using Cons.prems(1) by (intro registry_step_upserts) auto
  then obtain j1 where j1: "og_journal (registry_step jappend R c) = Some j1" "fst (truth j1) = fst (truth j)"
    using upserts_epoch [OF Cons.prems(2)] Cons.prems(3) by blast
  have "synced truth ok (registry_step jappend R c)"
    using synced_runs_to [OF Cons.prems(2) runs_to_step] .
  then show ?case using Cons.IH [of "registry_step jappend R c" j1] Cons.prems(1) j1 by auto
qed simp

lemma startup_to_epoch:
  assumes "startup_to jappend R R'" "synced truth ok R" "og_journal R = Some j"
  shows "\<exists>j'. og_journal R' = Some j' \<and> fst (truth j') = fst (truth j)"
  using startup_epoch assms unfolding startup_to_def by blast

definition epoch_durable :: "('j, 'g, 'k) core_authority \<Rightarrow> bool" where
  "epoch_durable C \<longleftrightarrow> (\<exists>j. og_journal (ca_operations C) = Some j \<and> fst (truth j) = ca_authority_epoch C)"

lemma advance_epoch_durable:
  assumes "synced truth ok (ca_operations C)" "epoch_durable C" "healthy (ca_operations C)" "cp_append P = jappend"
    "healthy (ca_operations (core_step P C (AdvanceOp n)))"
  shows "epoch_durable (core_step P C (AdvanceOp n))"
proof (cases "n + 1 \<le> u64_max \<and> ca_authority_epoch C = n")
  case False
  then show ?thesis using assms(2,3) by (auto simp: advance_authority_epoch_def guard_fst checked_add_u64_def)
next
  case ok: True
  obtain R1 r1 where a: "append_transition jappend (ca_operations C) (EpochAdvanced n (n + 1)) = (R1, r1)" by fastforce
  have step: "core_step P C (AdvanceOp n) = fst (and_then (C\<lparr>ca_operations := R1\<rparr>, r1)
      (\<lambda>C1 _. (C1\<lparr>ca_authority_epoch := n + 1\<rparr>, Inr (n + 1))))"
    using a ok assms(3,4) by (simp add: advance_authority_epoch_def guard_fst checked_add_u64_def
        persist_epoch_advance_def ensure_healthy_def on_operations_def)
  show ?thesis
  proof (cases r1)
    case (Inl e)
    then show ?thesis using append_failed_fences [of _ _ R1 e] a assms(5) unfolding step by auto
  next
    case (Inr u)
    then show ?thesis using append_epoch_agrees [OF assms(1)] a unfolding step by (simp add: epoch_durable_def)
  qed
qed

lemma cancel_advance_epoch_durable:
  assumes "synced truth ok (ca_operations C)" "epoch_durable C" "healthy (ca_operations C)" "cp_append P = jappend"
    "healthy (ca_operations (core_step P C (CancelAdvanceOp i n)))"
  shows "epoch_durable (core_step P C (CancelAdvanceOp i n))"
proof (cases "identity_validate i = Inr () \<and> n + 1 \<le> u64_max \<and> ca_authority_epoch C = n")
  case False
  then show ?thesis using assms(2,3)
    by (auto simp: cancel_operation_and_advance_def guard_fst checked_add_u64_def split: sum.splits)
next
  case ok: True
  obtain R1 r1 where a: "cancel_and_persist_epoch jappend (ca_operations C) i n (n + 1) = (R1, r1)" by fastforce
  have step: "core_step P C (CancelAdvanceOp i n) = fst (and_then (C\<lparr>ca_operations := R1\<rparr>, r1) (\<lambda>C1 transition. case transition of
         CancelledNow result \<Rightarrow> (C1\<lparr>ca_authority_epoch := n + 1\<rparr>, Inr (CancelledAtEpoch (n + 1) result))
       | AlreadySettled result \<Rightarrow> (C1, Inr (CancelAlreadySettled result))))"
    using a ok assms(3,4) by (simp add: cancel_operation_and_advance_def guard_fst checked_add_u64_def on_operations_def)
  show ?thesis
    using cancel_epoch_agrees [OF assms(1,3) a] assms(2,5) unfolding step epoch_durable_def
    by (auto simp: and_then_fst split: sum.splits operation_cancel_transition.splits)
qed

lemma core_step_agrees:
  assumes "core_agrees truth ok C" "cp_append P = jappend"
  shows "core_agrees truth ok (core_step P C c)"
proof -
  have s: "synced truth ok (ca_operations C)" "registry_wf (ca_operations C)"
    using assms(1) by (simp_all add: core_agrees_def synced_def)
  have s': "synced truth ok (ca_operations (core_step P C c))"
    using synced_runs_to [OF s(1)] core_step_runs [of P C c] assms(2) by simp
  have "epoch_durable (core_step P C c)" if h': "healthy (ca_operations (core_step P C c))"
  proof -
    have h: "healthy (ca_operations C)" using core_step_fenced [OF s(2) h'] .
    have d: "epoch_durable C" using assms(1) h by (auto simp: core_agrees_def epoch_durable_def)
    show ?thesis
    proof (cases "moves_epoch c")
      case False
      then show ?thesis
        using upserts_epoch [OF s(1)] core_step_upserts [OF False, of P C] core_step_epoch_same [OF False, of P C] d assms(2)
        by (fastforce simp: epoch_durable_def)
    next
      case True
      then show ?thesis
        using advance_epoch_durable [OF s(1) d h assms(2)] cancel_advance_epoch_durable [OF s(1) d h assms(2)] h'
        by (cases c) auto
    qed
  qed
  then show ?thesis using s' unfolding core_agrees_def epoch_durable_def by blast
qed

lemma reaches_agrees:
  assumes "core_agrees truth ok C" "cp_append P = jappend" "reaches P C C'"
  shows "core_agrees truth ok C'"
  using assms(3,1) by (induction rule: reaches_induct) (auto intro: core_step_agrees [OF _ assms(2)])

end

end
