(* ===== verification/Core_Guarantee.thy ===== *)
theory Core_Guarantee
  imports Core_Commit Core_Steps
begin

text \<open>
  Rely and guarantee of the async methods. A method relies on the others doing nothing to the kernel but its own steps
  (\<open>polite\<close>), and guarantees the same: whatever it does, every change is a sequence of kernel steps. So the invariants of
  \<open>Core_Steps\<close> hold under any interleaving of methods.
\<close>

section \<open>Waiting politely\<close>

definition polite :: "('j, 'k) core_ports \<Rightarrow> ('j, 'g, 'k) core_authority waits \<Rightarrow> bool" where
  "polite P W \<longleftrightarrow> (\<forall>p C. reaches P C (aw_before W p C) \<and> reaches P C (aw_after W p C))"

lemma await_reaches:
  assumes "polite P W" "\<And>C. reaches P C (fst (f C))" "await W p f C = (C', r)"
  shows "reaches P C C'"
proof -
  obtain C1 where C1: "f (aw_before W p C) = (C1, r)" "C' = aw_after W p C1"
    using assms(3) by (auto simp: await_def split: prod.splits)
  have "reaches P C (aw_before W p C)" "reaches P (aw_before W p C) C1" "reaches P C1 C'"
    using assms(1) assms(2) [of "aw_before W p C"] C1 by (simp_all add: polite_def)
  then show ?thesis by (blast intro: reaches_trans)
qed

lemma await_outside:
  assumes "polite P W" "await W p (\<lambda>C. (C, g C)) C = (C', r)"
  shows "reaches P C C'"
  by (rule await_reaches [OF assms(1) _ assms(2)]) simp

lemma await_reaches_fst:
  assumes "polite P W" "\<And>C. reaches P C (fst (f C))"
  shows "reaches P C (fst (await W p f C))"
  using await_reaches [OF assms, of p C] by (metis prod.collapse)

lemma await_outside_fst: "polite P W \<Longrightarrow> reaches P C (fst (await W p (\<lambda>C. (C, g C)) C))"
  by (rule await_reaches_fst) simp_all

text \<open>Sequencing: what a block of a method does is a run when its parts are.\<close>

lemma reaches_prod [reaches_intro]:
  "reaches P C (fst x) \<Longrightarrow> (\<And>C1 r. reaches P C1 (fst (f C1 r))) \<Longrightarrow> reaches P C (fst (case x of (C1, r) \<Rightarrow> f C1 r))"
  by (cases x) (auto intro: reaches_trans)

lemma reaches_case [reaches_intro]:
  "(\<And>e. reaches P C (fst (a e))) \<Longrightarrow> (\<And>u. reaches P C (fst (b u))) \<Longrightarrow> reaches P C (fst (case r of Inl e \<Rightarrow> a e | Inr u \<Rightarrow> b u))"
  "reaches P C (fst n) \<Longrightarrow> (\<And>v. reaches P C (fst (s v))) \<Longrightarrow> reaches P C (fst (case z of None \<Rightarrow> n | Some v \<Rightarrow> s v))"
  "reaches P C (fst y) \<Longrightarrow> reaches P C (fst (case t of () \<Rightarrow> y))"
  "reaches P C (fst y) \<Longrightarrow> reaches P C (fst y') \<Longrightarrow> reaches P C (fst (if q then y else y'))"
  "reaches P C C' \<Longrightarrow> reaches P C (fst (C', w))"
  by (simp_all split: sum.split option.split unit.split)

lemma reaches_let:
  "reaches P C C' \<Longrightarrow> (\<And>C1. reaches P C1 (fst (f C1))) \<Longrightarrow> reaches P C (fst (let C1 = C' in f C1))"
  "(\<And>x. reaches P C (fst (g x))) \<Longrightarrow> reaches P C (fst (let x = y in g x))"
  by (auto intro: reaches_trans)

lemma reaches_tuple: "(\<And>a b. reaches P C (fst (f a b))) \<Longrightarrow> reaches P C (fst (case p of (a, b) \<Rightarrow> f a b))"
  by (cases p) simp

lemma reaches_option [reaches_intro]:
  "reaches P C n \<Longrightarrow> (\<And>v. reaches P C (s v)) \<Longrightarrow> reaches P C (case z of None \<Rightarrow> n | Some v \<Rightarrow> s v)"
  by (simp split: option.split)

lemma reaches_verdict [reaches_intro]:
  "reaches P C (fst a) \<Longrightarrow> (\<And>m. reaches P C (fst (b m))) \<Longrightarrow> (\<And>m d. reaches P C (fst (c m d)))
     \<Longrightarrow> (\<And>m. reaches P C (fst (f m)))
   \<Longrightarrow> reaches P C (fst (case v of VerdictAllowed \<Rightarrow> a | VerdictDenied m \<Rightarrow> b m
        | VerdictDeniedDetailed m d \<Rightarrow> c m d | VerdictFailed m \<Rightarrow> f m))"
  by (simp split: approval_verdict.split)

lemma reaches_query [reaches_intro]:
  "(\<And>s. reaches P C (fst (a s))) \<Longrightarrow> reaches P C (fst b) \<Longrightarrow> reaches P C (fst c)
   \<Longrightarrow> reaches P C (fst (case v of Found s \<Rightarrow> a s | ExpiredOrPossiblySeen \<Rightarrow> b | NotFound \<Rightarrow> c))"
  by (simp split: operation_query_result.split)

lemma reaches_outcome [reaches_intro]:
  "(\<And>x. reaches P C (fst (a x))) \<Longrightarrow> (\<And>x y. reaches P C (fst (b x y))) \<Longrightarrow> (\<And>x y. reaches P C (fst (c x y)))
     \<Longrightarrow> (\<And>x y. reaches P C (fst (f x y)))
   \<Longrightarrow> reaches P C (fst (case v of OutcomeValue x \<Rightarrow> a x | OutcomePrepared x y \<Rightarrow> b x y
        | OutcomeDirective x y \<Rightarrow> c x y | OutcomeQuery x y \<Rightarrow> f x y))"
  by (simp split: tool_outcome.split)

declare reaches_refl [reaches_intro]

section \<open>The steps of the methods\<close>

lemma gate_step: "reaches P C (C\<lparr>ca_gate := g\<rparr>)"
  using reaches_step [of P C "GateOp g"] by simp

lemma emit_event_reaches: "cp_event P = ev \<Longrightarrow> reaches P C (fst (emit_event ev now event C))"
  using reaches_step [of P C "EventOp now event"] by (simp add: emit_event_def case_prod_unfold)

lemma cancel_reaches:
  assumes "cp_append P = jappend"
  shows "reaches P C (fst (on_operations (\<lambda>R. cancel jappend R i) C))" "reaches P C (fst (cancel_operation jappend C i))"
  using reaches_step [of P C "CancelOp i"] assms by (auto simp: cancel_operation_def guard_fst)

lemma refused_reaches: "cp_append P = jappend \<Longrightarrow> reaches P C (fst (on_operations (\<lambda>R. finish_refused jappend R k m) C))"
  using reaches_step [of P C "RefusedOp k m"] by simp

lemma refuse_operation_reaches: "cp_append P = jappend \<Longrightarrow> reaches P C (fst (refuse_operation jappend C i call m out))"
  using refused_reaches [of P jappend C "oi_operation_id i" m]
  by (simp add: refuse_operation_def case_prod_unfold split: sum.splits)

lemma cancel_and_refuse_reaches: "cp_append P = jappend \<Longrightarrow> reaches P C (fst (cancel_and_refuse jappend C i call m))"
  using cancel_reaches(1) [of P jappend C i] by (simp add: cancel_and_refuse_def)

lemma require_reaches: "reaches P C (require_operation_recovery C m)"
  using reaches_step [of P C "RecoveryOp m"] by simp

lemma abort_reaches: "cp_append P = jappend \<Longrightarrow> reaches P C (fst (abort_prepared_operation jappend C k e d))"
  using reaches_step [of P C "AbortOp k e d"] by simp

lemma lease_reaches: "reaches P C (fst (on_operations (\<lambda>R. record_lease R k l) C))"
  using reaches_step [of P C "LeaseOp k l"] by simp

lemma executing_reaches: "cp_append P = jappend \<Longrightarrow> reaches P C (fst (mark_operation_executing_if_current jappend C n k e))"
  using reaches_step [of P C "ExecutingOp n k e"] by simp

lemma prepared_reaches: "cp_append P = jappend \<Longrightarrow> reaches P C (fst (on_operations (\<lambda>R. mark_prepared jappend R k e) C))"
  using reaches_step [of P C "PreparedOp k e"] by simp

lemma commit_reaches:
  "cp_append P = jappend \<Longrightarrow> reaches P C (fst (begin_operation_commit_if_current jappend C n k e d))"
  using reaches_step [of P C "CommitOp n k e d"] by simp

lemma effect_reaches: "cp_append P = jappend \<Longrightarrow> reaches P C (fst (finish_operation_effect jappend C k rc))"
  using reaches_step [of P C "EffectOp k rc"] by simp

section \<open>Dispatch\<close>

definition dispatch_ports :: "('j, 'k) core_ports \<Rightarrow> 'j journal_append \<Rightarrow> ('j, 'g, 'k, 'f, 'd, 'q) dispatch_env \<Rightarrow> bool" where
  "dispatch_ports P jappend E \<longleftrightarrow> cp_append P = jappend \<and> cp_event P = dv_event E \<and> polite P (dv_waits E)"

lemma dispatch_portsD:
  "dispatch_ports P jappend E \<Longrightarrow> cp_append P = jappend" "dispatch_ports P jappend E \<Longrightarrow> polite P (dv_waits E)"
  by (simp_all add: dispatch_ports_def)

lemma await_event_reaches:
  "dispatch_ports P jappend E \<Longrightarrow> reaches P C C' \<Longrightarrow> reaches P C (fst (await_event E p event C'))"
  unfolding await_event_def dispatch_ports_def by (blast intro: await_reaches_fst emit_event_reaches reaches_trans)

lemma publication_failure_reaches:
  "cp_append P = jappend \<Longrightarrow> reaches P C (fst (cancel_after_publication_failure jappend C i ev e))"
  using cancel_reaches(2) [of P jappend C i]
  by (simp add: cancel_after_publication_failure_def case_prod_unfold split: sum.splits)

lemma publish_reaches:
  assumes "dispatch_ports P jappend E"
  shows "reaches P C (fst (publish_tool_operation jappend D E C i call))"
  unfolding publish_tool_operation_def Let_def
  by (intro reaches_intro publication_failure_reaches [OF dispatch_portsD(1) [OF assms]] await_event_reaches [OF assms])

lemma start_execution_reaches:
  assumes "dispatch_ports P jappend E"
  shows "reaches P C (fst (start_execution jappend D E C i call spec shadow))"
  unfolding start_execution_def
  by (intro reaches_let reaches_intro lease_reaches executing_reaches [OF dispatch_portsD(1) [OF assms]]
      cancel_and_refuse_reaches [OF dispatch_portsD(1) [OF assms]] await_event_reaches [OF assms])

lemma evaluate_shadow_reaches:
  assumes "dispatch_ports P jappend E"
  shows "reaches P C (fst (evaluate_shadow E C call spec))"
proof -
  note w = await_reaches_fst [OF dispatch_portsD(2) [OF assms]]
  show ?thesis
    unfolding evaluate_shadow_def
    by ((intro reaches_intro w await_event_reaches [OF assms] gate_step) | rule reaches_tuple)+
qed

lemma authorize_reaches:
  assumes "dispatch_ports P jappend E"
  shows "reaches P C (fst (authorize_and_start jappend D E C i call spec))"
proof -
  note w = await_reaches_fst [OF dispatch_portsD(2) [OF assms]]
  show ?thesis
    unfolding authorize_and_start_def
    by ((intro reaches_intro w gate_step evaluate_shadow_reaches [OF assms] start_execution_reaches [OF assms]
        cancel_and_refuse_reaches [OF dispatch_portsD(1) [OF assms]] refuse_operation_reaches [OF dispatch_portsD(1) [OF assms]])
      | rule reaches_tuple)+
qed

lemma prepare_dispatch_reaches:
  assumes "dispatch_ports P jappend E"
  shows "reaches P C (fst (prepare_dispatch jappend D E C i call surface))"
  unfolding prepare_dispatch_def Let_def
  by (intro reaches_intro authorize_reaches [OF assms] cancel_and_refuse_reaches [OF dispatch_portsD(1) [OF assms]]
      refuse_operation_reaches [OF dispatch_portsD(1) [OF assms]])

lemma settle_prepared_reaches:
  assumes "dispatch_ports P jappend E"
  shows "reaches P C (fst (settle_prepared jappend E C i call reserved out eff))"
  unfolding settle_prepared_def Let_def
  by (intro reaches_intro prepared_reaches [OF dispatch_portsD(1) [OF assms]] require_reaches
      cancel_reaches(1) [OF dispatch_portsD(1) [OF assms]] await_outside_fst [OF dispatch_portsD(2) [OF assms]])

lemma run_tool_reaches:
  assumes "dispatch_ports P jappend E"
  shows "reaches P C (fst (run_tool jappend E C i call ready))"
proof -
  have err: "reaches P C1 (fst (case e of RecoveryRequired _ \<Rightarrow> (require_operation_recovery C1 m, a) | _ \<Rightarrow> (C1, b)))" for C1 e m a b
    by (simp add: require_reaches split: agent_error.split)
  show ?thesis
    unfolding run_tool_def Let_def
    by ((intro reaches_intro settle_prepared_reaches [OF assms] await_outside_fst [OF dispatch_portsD(2) [OF assms]] err)
      | rule reaches_tuple)+
qed

lemma execute_published_reaches:
  assumes "dispatch_ports P jappend E"
  shows "reaches P C (fst (execute_published_tool jappend D E C i call surface))"
  unfolding execute_published_tool_def
  by (intro reaches_intro prepare_dispatch_reaches [OF assms] run_tool_reaches [OF assms])

section \<open>Commit and rollback\<close>

definition commit_ports :: "('j, 'k) core_ports \<Rightarrow> 'j journal_append \<Rightarrow> (('j, 'g, 'k) core_authority, 'f) commit_env \<Rightarrow> bool" where
  "commit_ports P jappend E \<longleftrightarrow> cp_append P = jappend \<and> polite P (cv_waits E)"

lemma commit_portsD:
  "commit_ports P jappend E \<Longrightarrow> cp_append P = jappend" "commit_ports P jappend E \<Longrightarrow> polite P (cv_waits E)"
  by (simp_all add: commit_ports_def)

lemma await_rollback_reaches: "commit_ports P jappend E \<Longrightarrow> reaches P C (fst (await_rollback E eff reason C))"
  unfolding await_rollback_def commit_ports_def by (rule await_outside_fst) simp

lemma settle_rejected_reaches:
  assumes "commit_ports P jappend E"
  shows "reaches P C (fst (settle_rejected_effect jappend E C k e d eff reason))"
  unfolding settle_rejected_effect_def Let_def
  by (intro reaches_intro await_rollback_reaches [OF assms] require_reaches abort_reaches [OF commit_portsD(1) [OF assms]])

lemma reject_commit_reaches:
  assumes "commit_ports P jappend E"
  shows "reaches P C (fst (reject_commit jappend E C r rejection reason na))"
  unfolding reject_commit_def by (intro reaches_intro settle_rejected_reaches [OF assms])

lemma admit_commit_reaches:
  assumes "commit_ports P jappend E"
  shows "reaches P C (fst (admit_commit jappend E C r))"
  unfolding admit_commit_def Let_def
  by (intro reaches_intro reject_commit_reaches [OF assms] await_rollback_reaches [OF assms]
      commit_reaches [OF commit_portsD(1) [OF assms]])

lemma broker_commit_reaches:
  assumes "commit_ports P jappend E"
  shows "reaches P C (fst (broker_commit jappend E C r))"
  unfolding broker_commit_def Let_def
  by (intro reaches_intro reject_commit_reaches [OF assms] await_outside_fst [OF commit_portsD(2) [OF assms]]
      effect_reaches [OF commit_portsD(1) [OF assms]])

lemma commit_effect_reaches:
  assumes "commit_ports P jappend E"
  shows "reaches P C (fst (commit_effect jappend E C r))"
  unfolding commit_effect_def by (intro reaches_intro admit_commit_reaches [OF assms] broker_commit_reaches [OF assms])

lemma rollback_effect_reaches:
  assumes "commit_ports P jappend E"
  shows "reaches P C (fst (rollback_effect jappend E C r))"
  unfolding rollback_effect_def Let_def
  by (intro reaches_intro await_rollback_reaches [OF assms] require_reaches abort_reaches [OF commit_portsD(1) [OF assms]])

section \<open>Invariants of the kernel\<close>

text \<open>
  The interface between the steps and the methods: what every step keeps, every method keeps, with any polite tasks at its
  waits.
\<close>

locale kernel_invariant =
  fixes P :: "('j, 'k) core_ports" and I :: "('j, 'g, 'k) core_authority \<Rightarrow> bool"
  assumes step: "I C \<Longrightarrow> I (core_step P C c)"
begin

lemma reached: "reaches P C C' \<Longrightarrow> I C \<Longrightarrow> I C'"
  by (induction rule: reaches_induct) (auto intro: step)

lemma published: "dispatch_ports P jappend E \<Longrightarrow> I C \<Longrightarrow> I (fst (publish_tool_operation jappend D E C i call))"
  by (rule reached [OF publish_reaches])

lemma executed: "dispatch_ports P jappend E \<Longrightarrow> I C \<Longrightarrow> I (fst (execute_published_tool jappend D E C i call surface))"
  by (rule reached [OF execute_published_reaches])

lemma committed: "commit_ports P jappend E \<Longrightarrow> I C \<Longrightarrow> I (fst (commit_effect jappend E C r))"
  by (rule reached [OF commit_effect_reaches])

lemma rolled_back: "commit_ports P jappend E \<Longrightarrow> I C \<Longrightarrow> I (fst (rollback_effect jappend E C r))"
  by (rule reached [OF rollback_effect_reaches])

end

interpretation registry_kept: kernel_invariant P "\<lambda>C. registry_wf (ca_operations C)" for P
proof
  show "registry_wf (ca_operations (core_step P C c))" if "registry_wf (ca_operations C)" for C :: "('a, 'c, 'b) core_authority" and c
    using that core_step_runs [of P C c] registry_run_wf unfolding runs_to_def by metis
qed

interpretation identity_kept: kernel_invariant P "\<lambda>C. ca_run_id C = r \<and> n \<le> ca_authority_epoch C" for P r n
  by unfold_locales (auto simp: core_step_run_id intro: order_trans core_step_epoch_mono)

interpretation agreement_kept: kernel_invariant "P\<lparr>cp_append := port_append codec\<rparr>" "core_agrees port_truth (port_ok codec)" for P codec
  by unfold_locales (auto intro: fp.core_step_agrees)

end
