(* ===== verification/Core_Decisions.thy ===== *)
theory Core_Decisions
  imports Core_Guarantee Registry_Properties
begin

text \<open>
  What the kernel has checked when it lets a call through: the facts behind a dispatch that goes to the tool, and behind a
  commit that goes to the broker. An operation is started at most once and committed at most once, whatever other tasks do
  in between.
\<close>

section \<open>Guards\<close>

lemma if_allowed_Inr: "if_allowed C rest = (C', Inr v) \<longleftrightarrow> healthy (ca_operations C) \<and> rest = (C', Inr v)"
  by (auto simp: if_allowed_def mutation_guards split: option.splits)

lemma if_current_Inr: "if_current C n rest = (C', Inr v) \<longleftrightarrow> ca_authority_epoch C = n \<and> rest = (C', Inr v)"
  by (auto simp: if_current_def)

lemmas guard_Inr = if_allowed_Inr if_current_Inr

lemma core_mutation_allowed_Inr: "core_mutation_allowed C = Inr () \<longleftrightarrow> healthy (ca_operations C)"
  by (auto simp: mutation_guards split: option.splits)

section \<open>Start of an execution\<close>

text \<open>The operation moves from Accepted to Executing, at the epoch it was admitted for.\<close>

definition started :: "('j, 'g, 'k) core_authority \<Rightarrow> ('j, 'g, 'k) core_authority \<Rightarrow> nat \<Rightarrow> uuid \<Rightarrow> uuid option \<Rightarrow> bool" where
  "started C C' n k e \<longleftrightarrow> ca_authority_epoch C = n \<and> healthy (ca_operations C)
     \<and> (\<exists>s. lookup (ca_operations C) k = Some s \<and> snap_state s = Accepted
          \<and> lookup (ca_operations C') k = Some \<lparr>snap_identity = snap_identity s, snap_state = Executing e\<rparr>)"

lemma move_executing_Inr: "move_executing e st = Inr q \<longleftrightarrow> st = Accepted \<and> q = Executing e"
  by (cases st) auto

lemma mark_executing_started:
  assumes "mark_operation_executing_if_current jappend C n k e = (C', Inr ())"
  shows "started C C' n k e"
proof -
  obtain R' where g: "healthy (ca_operations C)" "ca_authority_epoch C = n" "C' = C\<lparr>ca_operations := R'\<rparr>"
    and m: "mark_executing jappend (ca_operations C) k e = (R', Inr ())"
    using assms by (auto simp: mark_operation_executing_if_current_def guard_Inr on_operations_def split: prod.splits)
  then have "transition jappend (ca_operations C) k (move_executing e) = (R', Inr ())"
    by (simp add: mark_executing_def split: if_splits)
  then obtain s q where "lookup (ca_operations C) k = Some s" "move_executing e (snap_state s) = Inr q"
    "lookup R' k = Some \<lparr>snap_identity = snap_identity s, snap_state = q\<rparr>" by (rule transition_stored)
  then show ?thesis using g by (simp add: started_def move_executing_Inr)
qed

text \<open>An execution that has started keeps the operation from being started again.\<close>

lemma executing_step: "valid_recovered_transition p q \<Longrightarrow> p \<noteq> Accepted \<Longrightarrow> q \<noteq> Accepted"
  by (cases p; cases q) (auto simp: valid_recovered_transition_def split: option.splits)

lemma executing_reach: "valid_recovered_transition\<^sup>*\<^sup>* p q \<Longrightarrow> p \<noteq> Accepted \<Longrightarrow> q \<noteq> Accepted"
  by (induction rule: rtranclp_induct) (auto dest: executing_step)

lemma started_once:
  assumes "registry_wf (ca_operations C1)" "lookup (ca_operations C1) k = Some s1" "snap_state s1 \<noteq> Accepted"
    "reaches P C1 C2"
  shows "\<not> started C2 C3 n k e"
proof
  assume "started C2 C3 n k e"
  then obtain s where s: "lookup (ca_operations C2) k = Some s" "snap_state s = Accepted" by (auto simp: started_def)
  obtain calls where "ca_operations C2 = registry_run (cp_append P) (ca_operations C1) calls"
    using reaches_runs [OF assms(4)] unfolding runs_to_def by blast
  then have "valid_recovered_transition\<^sup>*\<^sup>* (snap_state s1) (snap_state s)"
    using evolvesD(3) [OF run_evolves [OF assms(1)] assms(2)] s(1) by simp
  from executing_reach [OF this assms(3)] s(2) show False by simp
qed

lemma reaches_wf: "reaches P C C' \<Longrightarrow> registry_wf (ca_operations C) \<Longrightarrow> registry_wf (ca_operations C')"
  by (rule registry_kept.reached)

section \<open>Dispatch\<close>

text \<open>What a successful start has established, at the moment it was started (\<open>C\<close>, then \<open>C1\<close> with the lease, then \<open>C2\<close>).\<close>

definition starts_with_lease ::
  "('j, 'k) core_ports \<Rightarrow> digest_env \<Rightarrow> tool_operation_identity \<Rightarrow> tool_call \<Rightarrow> tool_spec \<Rightarrow> dispatch_ready
     \<Rightarrow> ('j, 'g, 'k) core_authority \<Rightarrow> ('j, 'g, 'k) core_authority \<Rightarrow> bool" where
  "starts_with_lease P D i call spec ready C C2 \<longleftrightarrow>
     (\<exists>C1. reaches P C C1 \<and> reaches P C1 C2 \<and> started C1 C2 (oi_generation i) (oi_operation_id i) (dr_effect_id ready)
       \<and> (if ts_risk spec = RiskReadOnly then dr_lease ready = None \<and> dr_effect_id ready = None
          else \<exists>l. dr_lease ready = Some l \<and> core_lease_matches C1 (oi_operation_id i) l
             \<and> al_intent l = lease_intent D C call spec \<and> al_argument_digest l = oi_argument_digest i
             \<and> al_operation_generation l = oi_generation i \<and> al_binding_epoch l = current_binding_epoch C (tc_name call)))"

lemma record_lease_matches:
  assumes "on_operations (\<lambda>R. record_lease R k l) C = (C1, Inr ())"
  shows "core_lease_matches C1 k l"
  using assms by (auto simp: on_operations_eq record_lease_def core_lease_matches_def issued_lease_matches_def
      split: sum.splits option.splits if_splits)

lemma cancel_and_refuse_Inl: "cancel_and_refuse jappend C i call m \<noteq> (C', Inr ready)"
  by (simp add: cancel_and_refuse_def)

lemma refuse_operation_Inl: "refuse_operation jappend C i call m out \<noteq> (C', Inr ready)"
  by (auto simp: refuse_operation_def split: prod.splits sum.splits)

lemma start_execution_ready:
  assumes "dispatch_ports P jappend E" "start_execution jappend D E C i call spec shadow = (C', Inr ready)"
  obtains C2 where "starts_with_lease P D i call spec ready C C2" "reaches P C2 C'" "dr_spec ready = spec"
    "rq_call (dr_request ready) = call" "request_validate D (dr_request ready) = Inr ()"
proof -
  define lease where "lease = (if ts_risk spec \<noteq> RiskReadOnly then Some (mint_lease D E C i call spec shadow) else None)"
  define effect_id where "effect_id = (if ts_risk spec \<noteq> RiskReadOnly then Some (dv_effect_id E) else None)"
  obtain C1 r1 where l: "(case lease of Some l \<Rightarrow> on_operations (\<lambda>R. record_lease R (oi_operation_id i) l) C
     | None \<Rightarrow> (C, Inr ())) = (C1, r1)" by fastforce
  obtain C2 r2 where m: "mark_operation_executing_if_current jappend C1 (oi_generation i) (oi_operation_id i) effect_id = (C2, r2)"
    by fastforce
  define C3 where "C3 = (case lease of Some l \<Rightarrow> fst (await_event E AwaitLeaseEvent
     (LeaseIssued (al_lease_id l) (tc_name call) (al_grant_id l) (al_expires_at_ms l)) C2) | None \<Rightarrow> C2)"
  define request where "request = \<lparr>rq_run_id = ca_run_id C3, rq_call = call,
     rq_effect_context = map_option (\<lambda>e. \<lparr>ec_identity = i, ec_effect_id = e\<rparr>) effect_id\<rparr>"
  have ok: "r1 = Inr ()" "r2 = Inr ()" "request_validate D request = Inr ()" "C' = C3"
    "ready = \<lparr>dr_spec = spec, dr_lease = lease, dr_effect_id = effect_id, dr_request = request\<rparr>"
    using assms(2) l m
    by (auto simp: start_execution_def Let_def cancel_and_refuse_Inl lease_def effect_id_def C3_def request_def
        split: if_splits sum.splits)
  have st: "started C1 C2 (oi_generation i) (oi_operation_id i) effect_id" using m ok(2) mark_executing_started by blast
  have r: "reaches P C C1" "reaches P C1 C2"
    using l m lease_reaches [of P C "oi_operation_id i"] executing_reaches [OF dispatch_portsD(1) [OF assms(1)], of C1]
    by (auto split: option.splits) (metis fst_conv)+
  have "starts_with_lease P D i call spec ready C C2"
  proof (cases "ts_risk spec = RiskReadOnly")
    case True
    then show ?thesis using st r ok(5) by (auto simp: starts_with_lease_def lease_def effect_id_def)
  next
    case False
    then have "core_lease_matches C1 (oi_operation_id i) (mint_lease D E C i call spec shadow)"
      using l ok(1) record_lease_matches by (auto simp: lease_def)
    then show ?thesis using st r ok(5) False by (auto simp: starts_with_lease_def lease_def mint_lease_def)
  qed
  moreover have "reaches P C2 C'"
    unfolding ok(4) C3_def by (intro reaches_intro await_event_reaches [OF assms(1)])
  ultimately show ?thesis using that ok(3,5) by (simp add: request_def)
qed

lemma verdict_allowed: "verdict_of call r = VerdictAllowed \<longleftrightarrow> (\<exists>out. r = Inr out \<and> ao_decision out = Allow)"
  by (auto simp: verdict_of_def Let_def split: sum.splits option.splits)

lemma await_parts:
  assumes "polite P W" "await W p f C = (C', r)"
  obtains C0 C1 where "reaches P C C0" "f C0 = (C1, r)" "reaches P C1 C'"
  using assms by (auto simp: await_def polite_def split: prod.splits)

lemma authorize_ready:
  assumes "dispatch_ports P jappend E" "authorize_and_start jappend D E C i call spec = (C', Inr ready)"
  obtains C0 g out Cs C2 where "reaches P C C0" "dv_authorize E (ca_gate C0) call spec = (g, Inr out)" "ao_decision out = Allow"
    "reaches P (C0\<lparr>ca_gate := g\<rparr>) Cs" "starts_with_lease P D i call spec ready Cs C2" "reaches P C2 C'" "dr_spec ready = spec"
    "rq_call (dr_request ready) = call" "request_validate D (dr_request ready) = Inr ()"
proof -
  let ?ask = "\<lambda>C. case dv_authorize E (ca_gate C) call spec of (g, r) \<Rightarrow> (C\<lparr>ca_gate := g\<rparr>, verdict_of call r)"
  obtain C1 v where a: "await (dv_waits E) AwaitApproval ?ask C = (C1, v)" by fastforce
  obtain Cs sh where e: "evaluate_shadow E C1 call spec = (Cs, sh)" by fastforce
  obtain shadow where run: "v = VerdictAllowed" "sh = Inr shadow"
    "start_execution jappend D E Cs i call spec shadow = (C', Inr ready)"
    using assms(2) a e by (auto simp: authorize_and_start_def cancel_and_refuse_Inl refuse_operation_Inl
        split: approval_verdict.splits sum.splits)
  obtain C0 Ca where q: "reaches P C C0" "?ask C0 = (Ca, v)" "reaches P Ca C1"
    using await_parts [OF dispatch_portsD(2) [OF assms(1)] a] .
  obtain g r where gr: "dv_authorize E (ca_gate C0) call spec = (g, r)" by fastforce
  obtain out where out: "r = Inr out" "ao_decision out = Allow" using q(2) gr run(1) verdict_allowed by auto
  have "reaches P C1 Cs" using evaluate_shadow_reaches [OF assms(1), of C1 call spec] e by simp
  then have "reaches P (C0\<lparr>ca_gate := g\<rparr>) Cs" using q(2,3) gr by (auto intro: reaches_trans)
  then show ?thesis using start_execution_ready [OF assms(1) run(3)] that [OF q(1)] gr out by metis
qed

lemma prepare_dispatch_ready:
  assumes "prepare_dispatch jappend D E C i call surface = (C', Inr ready)"
  obtains spec where "identity_matches D C i call" "oi_generation i = ca_authority_epoch C"
    "find (\<lambda>spec. ts_name spec = tc_name call) (sf_specs surface) = Some spec"
    "Option.bind (sf_schema_profiles surface (tc_name call)) (\<lambda>validate. validate (tc_arguments call)) = None"
    "invalid_process_executable call spec = None"
    "authorize_and_start jappend D E C i call spec = (C', Inr ready)"
  using assms by (auto simp: prepare_dispatch_def Let_def cancel_and_refuse_Inl refuse_operation_Inl
      split: sum.splits if_splits option.splits)

lemma prepare_dispatch_started:
  assumes "dispatch_ports P jappend E" "prepare_dispatch jappend D E C i call surface = (C', Inr ready)"
  obtains C1 C2 where "reaches P C C1" "reaches P C1 C2" "reaches P C2 C'"
    "started C1 C2 (oi_generation i) (oi_operation_id i) (dr_effect_id ready)"
proof -
  obtain spec where a: "authorize_and_start jappend D E C i call spec = (C', Inr ready)"
    using prepare_dispatch_ready [OF assms(2)] by blast
  obtain C0 g out Cs C2 where s: "reaches P C C0" "reaches P (C0\<lparr>ca_gate := g\<rparr>) Cs" "reaches P C2 C'"
    "starts_with_lease P D i call spec ready Cs C2"
    using authorize_ready [OF assms(1) a] by metis
  have "reaches P C Cs" using reaches_trans [OF reaches_trans [OF s(1) gate_step] s(2)] .
  then show ?thesis using s(3,4) that reaches_trans unfolding starts_with_lease_def by blast
qed

section \<open>Commit\<close>

text \<open>The checked facts of a commit request, at the state the checks ran in.\<close>

definition commit_checked ::
  "(('j, 'g, 'k) core_authority, 'f) commit_env \<Rightarrow> ('j, 'g, 'k) core_authority \<Rightarrow> 'f effect_commit_request \<Rightarrow> bool" where
  "commit_checked E C rq \<longleftrightarrow> cr_run_id rq = ca_run_id C \<and> ca_authority_epoch C = cr_generation rq \<and> healthy (ca_operations C)
     \<and> (\<exists>l. cr_lease rq = Some l \<and> al_decision l = Allow \<and> core_lease_matches C (cr_operation_id rq) l
          \<and> lease_valid_at l (cv_now E) (cr_generation rq) (cr_operation_id rq) (cr_argument_digest rq)
          \<and> (al_binding_epoch l \<noteq> None \<longrightarrow> (\<exists>tool. operation_tool_name C (cr_operation_id rq) = Some tool
               \<and> current_binding_epoch C tool = al_binding_epoch l))
          \<and> (\<forall>writes. cv_actual_writes E (cr_effect rq) = Some writes \<longrightarrow> approved_workspace_paths (al_intent l) \<noteq> [] \<longrightarrow>
               (\<forall>(path, bytes) \<in> set writes. \<exists>p \<in> set (approved_workspace_paths (al_intent l)).
                  canonical_workspace_relative_path path = Some p)))
     \<and> (\<exists>s. query (ca_operations C) (cr_operation_id rq) = Found s \<and> snap_state s = Prepared (cr_effect_id rq)
          \<and> oi_argument_digest (snap_identity s) = cr_argument_digest rq)"

lemma begin_operation_commit_checked:
  assumes "begin_operation_commit_if_current jappend C n k e d = (C', Inr ())"
  shows "ca_authority_epoch C = n \<and> healthy (ca_operations C)
     \<and> (\<exists>s. query (ca_operations C) k = Found s \<and> snap_state s = Prepared e \<and> oi_argument_digest (snap_identity s) = d)
     \<and> (\<exists>s. query (ca_operations C') k = Found s \<and> snap_state s = CommitStarted e)"
proof -
  obtain s R' where q: "ca_authority_epoch C = n" "healthy (ca_operations C)" "query (ca_operations C) k = Found s"
    "oi_argument_digest (snap_identity s) = d" "C' = C\<lparr>ca_operations := R'\<rparr>"
    and b: "begin_commit jappend (ca_operations C) k e = (R', Inr ())"
    using assms by (auto simp: begin_operation_commit_if_current_def begin_operation_commit_def guard_Inr on_operations_def
        split: operation_query_result.splits if_splits prod.splits)
  obtain s1 s2 where "lookup (ca_operations C) k = Some s1" "snap_state s1 = Prepared e" "lookup R' k = Some s2"
    "snap_state s2 = CommitStarted e" using begin_commit_committed [OF b] .
  then show ?thesis using q by (simp add: query_Found)
qed

lemma admit_commit_checked:
  assumes "admit_commit jappend E C rq = (C', Inr ())"
  shows "commit_checked E C rq \<and> begin_operation_commit_if_current jappend C (cr_generation rq) (cr_operation_id rq)
     (cr_effect_id rq) (cr_argument_digest rq) = (C', Inr ())"
proof -
  have run: "commit_refusal E C rq = None" "stray_write E rq = None"
    "begin_operation_commit_if_current jappend C (cr_generation rq) (cr_operation_id rq) (cr_effect_id rq)
       (cr_argument_digest rq) = (C', Inr ())"
    using assms by (auto simp: admit_commit_def Let_def split: sum.splits option.splits prod.splits)
  obtain l where l: "cr_lease rq = Some l" "cr_run_id rq = ca_run_id C" "al_decision l = Allow"
    "core_lease_matches C (cr_operation_id rq) l" "\<not> binding_fenced C (cr_operation_id rq) l"
    "lease_valid_at l (cv_now E) (cr_generation rq) (cr_operation_id rq) (cr_argument_digest rq)"
    using run(1) by (auto simp: commit_refusal_def split: option.splits if_splits)
  have "\<exists>p \<in> set (approved_workspace_paths (al_intent l)). canonical_workspace_relative_path path = Some p"
    if "cv_actual_writes E (cr_effect rq) = Some writes" "approved_workspace_paths (al_intent l) \<noteq> []"
      "(path, bytes) \<in> set writes" for writes path bytes
    using run(2) that l(1) by (fastforce simp: stray_write_def Let_def find_None_iff split: option.splits)
  moreover have "\<exists>tool. operation_tool_name C (cr_operation_id rq) = Some tool \<and> current_binding_epoch C tool = al_binding_epoch l"
    if "al_binding_epoch l \<noteq> None" using l(5) that by (auto simp: binding_fenced_def split: option.splits)
  ultimately show ?thesis
    using l run(3) begin_operation_commit_checked [OF run(3)] unfolding commit_checked_def by blast
qed

lemma reject_commit_disposition:
  "snd (reject_commit jappend E C rq rejection reason na) = CommitRejected rejection
   \<or> (\<exists>e. snd (reject_commit jappend E C rq rejection reason na) = AuthorityRecordFailed (ReceiptNotApplied na) e)"
  by (auto simp: reject_commit_def split: prod.splits sum.splits)

lemma admit_commit_refused:
  assumes "admit_commit jappend E C rq = (C', Inl d)"
  shows "(\<exists>rejection. d = CommitRejected rejection) \<or> (\<exists>m e. d = AuthorityRecordFailed (ReceiptNotApplied m) e)"
proof -
  have r: "(\<exists>rejection. d = CommitRejected rejection) \<or> (\<exists>m e. d = AuthorityRecordFailed (ReceiptNotApplied m) e)"
    if "reject_commit jappend E X rq rejection reason na = (C', d)" for X rejection reason na
    using reject_commit_disposition [of jappend E X rq rejection reason na] that by auto
  show ?thesis
    using assms by (auto simp: admit_commit_def Let_def split: sum.splits option.splits prod.splits dest: r)
qed

text \<open>The answers of a commit that went to the broker: the other ones are refusals.\<close>

definition went_to_broker :: "effect_commit_disposition \<Rightarrow> bool" where
  "went_to_broker d \<longleftrightarrow> (\<exists>receipt debt. d = CommitReceipt receipt debt)
     \<or> (\<exists>receipt e. d = AuthorityRecordFailed receipt e \<and> (\<forall>m. receipt \<noteq> ReceiptNotApplied m))"

lemma commit_effect_admitted:
  assumes "commit_effect jappend E C rq = (C', d)" "went_to_broker d"
  obtains C1 where "admit_commit jappend E C rq = (C1, Inr ())" "broker_commit jappend E C1 rq = (C', d)"
proof -
  obtain C1 r where a: "admit_commit jappend E C rq = (C1, r)" by fastforce
  show ?thesis
  proof (cases r)
    case (Inl d')
    then have "admit_commit jappend E C rq = (C1, Inl d)" using assms(1) a by (simp add: commit_effect_def)
    from admit_commit_refused [OF this] assms(2) show ?thesis by (auto simp: went_to_broker_def)
  next
    case (Inr u)
    then show ?thesis using that a assms(1) by (simp add: commit_effect_def)
  qed
qed

lemma reaches_transitions:
  assumes "reaches P C C'" "registry_wf (ca_operations C)" "query (ca_operations C) k = Found s" "query (ca_operations C') k = Found s'"
  shows "valid_recovered_transition\<^sup>*\<^sup>* (snap_state s) (snap_state s')"
proof -
  obtain calls where "ca_operations C' = registry_run (cp_append P) (ca_operations C) calls"
    using reaches_runs [OF assms(1)] unfolding runs_to_def by blast
  then show ?thesis
    using evolvesD(3) [OF run_evolves [OF assms(2)]] assms(3,4) by (simp add: query_Found)
qed

lemma finish_effect_recorded:
  assumes "finish_operation_effect jappend C k receipt = (C', Inr ())"
  obtains s e where "query (ca_operations C) k = Found s" "snap_state s = CommitStarted e"
    "query (ca_operations C') k = Found \<lparr>snap_identity = snap_identity s, snap_state = Terminal (Some e) (receipt_terminal receipt)\<rparr>"
proof -
  obtain R' where f: "finish_effect jappend (ca_operations C) k receipt = (R', Inr ())" "ca_operations C' = R'"
    using assms by (auto simp: finish_operation_effect_def guard_Inr on_operations_def split: prod.splits)
  have "\<exists>s e. lookup (ca_operations C) k = Some s \<and> snap_state s = CommitStarted e
     \<and> lookup R' k = Some \<lparr>snap_identity = snap_identity s, snap_state = Terminal (Some e) (receipt_terminal receipt)\<rparr>"
    using f(1)
    by (auto simp: finish_effect_def finish_terminal_def Let_def receipt_terminal_valid query_def and_then_Inr
        publish_terminal_def elim!: is_commit_started.elims split: sum.splits option.splits if_splits)
  then show ?thesis using that f(2) by (auto simp: query_Found)
qed

lemma broker_commit_receipt:
  assumes "commit_ports P jappend E" "broker_commit jappend E C rq = (C', CommitReceipt receipt debt)"
  obtains C3 where "reaches P C C3" "finish_operation_effect jappend C3 (cr_operation_id rq) receipt = (C', Inr ())"
proof -
  note w = await_outside [OF commit_portsD(2) [OF assms(1)]]
  obtain C1 r1 where a1: "await (cv_waits E) AwaitReserve (\<lambda>C. (C, cv_reserve E (reservation_of rq))) C = (C1, r1)" by fastforce
  have "\<exists>rid. r1 = Inr rid"
  proof (cases r1)
    case (Inl e)
    then have "snd (reject_commit jappend E C1 rq BrokerUnavailable
            (lit ''broker could not reserve the approved effect: '' @ error_display e)
            (lit ''effect commit was rejected because its broker reservation failed'')) = CommitReceipt receipt debt"
      using assms(2) a1 by (simp add: broker_commit_def)
    moreover note reject_commit_disposition [of jappend E C1 rq BrokerUnavailable
        "lit ''broker could not reserve the approved effect: '' @ error_display e"
        "lit ''effect commit was rejected because its broker reservation failed''"]
    ultimately show ?thesis by simp
  qed simp
  then obtain rid where rid: "r1 = Inr rid" by blast
  obtain C2 rc where a2: "await (cv_waits E) AwaitBroker (\<lambda>C. (C, cv_dispatch E (reservation_of rq) rid (cr_effect rq))) C1 = (C2, rc)"
    by fastforce
  define ack where "ack = \<lparr>ak_reservation_id = rid, ak_operation_id = cr_operation_id rq, ak_settlement = settlement_of rc,
    ak_receipt_summary = lit ''settlement='' @ settlement_label (settlement_of rc)\<rparr>"
  obtain C3 r3 where a3: "await (cv_waits E) AwaitAck (\<lambda>C. (C, cv_ack E ack)) C2 = (C3, r3)" by fastforce
  obtain C4 r4 where f: "finish_operation_effect jappend C3 (cr_operation_id rq) rc = (C4, r4)" by fastforce
  have "r4 = Inr ()" "C4 = C'" "rc = receipt"
    using assms(2) a1 rid a2 a3 f by (auto simp: broker_commit_def Let_def ack_def split: sum.splits)
  moreover have "reaches P C C3" using w [OF a1] w [OF a2] w [OF a3] by (blast intro: reaches_trans)
  ultimately show ?thesis using that f by blast
qed

end
