(* ===== verification/Core_Properties.thy ===== *)
theory Core_Properties
  imports Core_Decisions Approval_Properties
begin

text \<open>
  The properties of the kernel \<open>CoreAuthority\<close>: startup, the durable epoch under any interleaving of its methods, dispatch,
  commit, the event sequence and the runtime diagnosis.
\<close>

section \<open>Startup over the file journal\<close>

abbreviation file_try_new where
  "file_try_new codec \<equiv> try_new (port_append codec) (\<lambda>P. journal_recover (fp_journal P))"

lemma recover_from_port:
  assumes "port_ok codec P" "journal_recover (fp_journal P) = Inr rv"
    "registry_recover cap (Some P) rv = Inr R" "0 < cap"
  shows "synced port_truth (port_ok codec) R" "og_journal R = Some P" "rs_recovery_required (og_inner R) = None"
    "rv_authority_epoch rv = fst (port_truth P)"
proof -
  have f: "ow_failed (fj_writer (fp_journal P)) = None" "rv = ow_recovery (fj_writer (fp_journal P))"
    using assms(2) by (auto simp: journal_recover_def split: option.splits)
  have J: "journal_ok codec (fp_journal P)" using assms(1) f(1) by (simp add: port_ok_def)
  note d = journal_ok_recovery [OF J, folded f(2)]
  have t: "set (rv_operations rv) = snd (port_truth P)" "rv_authority_epoch rv = fst (port_truth P)"
    by (simp_all add: port_truth_def truth_of_def f(2))
  have "length (filter (\<lambda>s. \<not> is_terminal (snap_state s)) (rv_operations rv)) \<le> cap"
    using assms(3) by (auto simp: registry_recover_def Let_def split: if_splits)
  moreover have "length (filter (\<lambda>s. \<not> is_terminal (snap_state s)) (rv_operations rv))
      = card {s \<in> snd (port_truth P). \<not> is_terminal (snap_state s)}"
    using d(1) unfolding t(1) [symmetric] by (metis distinct_card distinct_filter distinct_map set_filter)
  ultimately have "card {s \<in> snd (port_truth P). \<not> is_terminal (snap_state s)} \<le> cap" by simp
  from fp.synced_recover [OF assms(4,1) t(1) d this] assms(3)
  show "synced port_truth (port_ok codec) R" "og_journal R = Some P" "rs_recovery_required (og_inner R) = None" by auto
  show "rv_authority_epoch rv = fst (port_truth P)" by (rule t(2))
qed

lemma try_new_parts:
  assumes "try_new jappend jrecover run_id ttl policies gate events (Some P) reconciler broker = Inr C"
  obtains rv R R1 where "jrecover P = Inr rv" "registry_recover DEFAULT_OPERATION_REGISTRY_CAPACITY (Some P) rv = Inr R"
    "persist_epoch_advance jappend R (rv_authority_epoch rv) (rv_authority_epoch rv + 1) = (R1, Inr ())"
    "ca_authority_epoch C = rv_authority_epoch rv + 1"
    "ca_operations C = reconcile_recovered_operations jappend reconciler
       (Some (case broker of Some b \<Rightarrow> b | None \<Rightarrow> local_reservations)) R1"
proof -
  obtain rv R where rv: "jrecover P = Inr rv" "registry_recover DEFAULT_OPERATION_REGISTRY_CAPACITY (Some P) rv = Inr R"
    using assms by (auto simp: try_new_def result_bind_Inr)
  obtain R1 r where "persist_epoch_advance jappend R (rv_authority_epoch rv) (rv_authority_epoch rv + 1) = (R1, r)" by fastforce
  with assms rv that show ?thesis
    by (cases r) (auto simp: try_new_def result_bind_Inr checked_add_u64_def split: if_splits)
qed

lemma startup_facts:
  assumes "port_ok codec P" "file_try_new codec run_id ttl policies gate events (Some P) reconciler broker = Inr C"
  shows "ca_authority_epoch C = fst (port_truth P) + 1 \<and> core_agrees port_truth (port_ok codec) C
     \<and> (recovery_status (ca_operations C) = Ready \<longrightarrow>
          (\<forall>k s. query (ca_operations C) k = Found s \<longrightarrow> settled s)
        \<and> (\<forall>P'. og_journal (ca_operations C) = Some P' \<longrightarrow> (\<forall>s \<in> snd (port_truth P'). is_terminal (snap_state s))))"
proof -
  define brk where "brk = Some (case broker of Some b \<Rightarrow> b | None \<Rightarrow> local_reservations)"
  obtain rv R R1 where run: "journal_recover (fp_journal P) = Inr rv"
    "registry_recover DEFAULT_OPERATION_REGISTRY_CAPACITY (Some P) rv = Inr R"
    "persist_epoch_advance (port_append codec) R (rv_authority_epoch rv) (rv_authority_epoch rv + 1) = (R1, Inr ())"
    and C: "ca_authority_epoch C = rv_authority_epoch rv + 1"
      "ca_operations C = reconcile_recovered_operations (port_append codec) reconciler brk R1"
    using try_new_parts [OF assms(2)] unfolding brk_def by blast
  have cap: "0 < DEFAULT_OPERATION_REGISTRY_CAPACITY" by (simp add: DEFAULT_OPERATION_REGISTRY_CAPACITY_def)
  note R = recover_from_port [OF assms(1) run(1,2) cap]
  have a: "append_transition (port_append codec) R (EpochAdvanced (rv_authority_epoch rv) (rv_authority_epoch rv + 1)) = (R1, Inr ())"
    using run(3) R(3) by (simp add: persist_epoch_advance_def ensure_healthy_def)
  have s1: "synced port_truth (port_ok codec) R1" by (rule fp.synced_move [OF move_epoch [OF a] R(1)])
  obtain j where j: "og_journal R1 = Some j" "fst (port_truth j) = rv_authority_epoch rv + 1"
    using fp.append_epoch_agrees [OF R(1) a] by blast
  have st: "startup_to (port_append codec) R1 (ca_operations C)" unfolding C(2) by (rule reconcile_runs)
  then have s2: "synced port_truth (port_ok codec) (ca_operations C)"
    using fp.synced_runs_to [OF s1 startup_to_runs] by blast
  obtain j2 where j2: "og_journal (ca_operations C) = Some j2" "fst (port_truth j2) = ca_authority_epoch C"
    using fp.startup_to_epoch [OF st s1 j(1)] j(2) C(1) by auto
  have settles: "settled s" if "healthy (ca_operations C)" "lookup (ca_operations C) k = Some s" for k s
    using reconcile_settles that s1 unfolding C(2) synced_def by blast
  have "is_terminal (snap_state s)" if h: "healthy (ca_operations C)" and s: "s \<in> snd (port_truth j2)" for s
  proof (rule ccontr)
    assume "\<not> is_terminal (snap_state s)"
    then have u: "s \<in> unresolved (og_inner (ca_operations C))" using fp.synced_unresolved(1) [OF s2 j2(1)] s by blast
    have "state_inv (og_inner (ca_operations C))" using s2 by (simp add: synced_def registry_wf_def)
    then have "lookup (ca_operations C) (snap_id s) = Some s" "\<not> is_terminal (snap_state s)"
      using u by (simp_all add: unresolved_lookup)
    then show False using settles [OF h, of "snap_id s" s] by (cases "snap_state s") (auto simp: settled_def)
  qed
  then show ?thesis
    using C(1) R(4) s2 j2 settles by (auto simp: core_agrees_def recovery_status_def query_Found split: option.splits)
qed

text \<open>
  C4. Startup fences the previous process and settles what it left. When the kernel starts on a file journal, its
  epoch is the successor of the durable one and is durable itself, memory and journal agree, and unless the kernel is
  fenced every operation it knows of, and every operation of the durable truth, is terminal and settled: nothing
  is left half done without recovery being required. Whatever the reconciler and the broker answer.
\<close>
theorem startup_settles_or_fences:
  assumes "port_ok codec P" "file_try_new codec run_id ttl policies gate events (Some P) reconciler broker = Inr C"
  shows "ca_authority_epoch C = fst (port_truth P) + 1 \<and> core_agrees port_truth (port_ok codec) C
     \<and> (recovery_status (ca_operations C) = Ready \<longrightarrow>
          (\<forall>k s. query (ca_operations C) k = Found s \<longrightarrow> settled s)
        \<and> (\<forall>P'. og_journal (ca_operations C) = Some P' \<longrightarrow> (\<forall>s \<in> snd (port_truth P'). is_terminal (snap_state s))))"
  by (rule startup_facts [OF assms])

section \<open>A sample start\<close>

definition sample_epoch_record :: operation_journal_record where
  "sample_epoch_record = \<lparr>jr_version = OPERATION_JOURNAL_VERSION, jr_seq = 1, jr_transition = EpochAdvanced 1 2\<rparr>"

lemma sample_epoch_frame_length:
  "length (nats_to_bytes (en_frame \<lparr>sf_record = sample_epoch_record,
      sf_checksum = checksum_hex decimal_codec (nats_to_bytes (en_record sample_epoch_record))\<rparr>)) = 209"
  by code_simp

lemma sample_epoch_append:
  "\<exists>J. append_and_sync decimal_codec (append_with None) sample_journal (EpochAdvanced 1 2) = (J, Inr sample_epoch_record)"
proof -
  have v: "transition_validate (EpochAdvanced 1 2) = Inr ()" by (simp add: checked_add_u64_def u64_max_def)
  obtain b where b: "encode_operation_frame decimal_codec sample_epoch_record = Inr b" "length b = 209"
    using sample_epoch_frame_length by (simp add: encode_operation_frame_def serialize_frame_def decimal_codec_def)
  have rcd: "sample_epoch_record = \<lparr>jr_version = OPERATION_JOURNAL_VERSION,
      jr_seq = ow_next_seq (fj_writer sample_journal), jr_transition = EpochAdvanced 1 2\<rparr>"
    by (simp add: sample_epoch_record_def sample_append_ready)
  have "append_and_sync decimal_codec (append_with None) sample_journal (EpochAdvanced 1 2)
      = (publish_record (set_wal sample_journal (journal_bytes sample_journal @ b @ [10])) sample_epoch_record, Inr sample_epoch_record)"
    unfolding rcd
    by (rule append_progress_helper [OF decimal_codec_ok sample_journal_ok(1,4), where b = b])
       (use b v in \<open>simp_all add: sample_append_ready append_with_def sample_epoch_record_def
          sample_journal_ok truth_of_def recovery_default_def MAX_OPERATION_JOURNAL_RECOVERY_RECORDS_def
          MAX_OPERATION_JOURNAL_FRAME_BYTES_def MAX_OPERATION_JOURNAL_FILE_BYTES_def\<close>)
  then show ?thesis by blast
qed

lemma sample_start:
  "\<exists>C. file_try_new decimal_codec 1 None None () (None :: unit option) (Some sample_port) None None = Inr C
     \<and> recovery_status (ca_operations C) = Ready"
proof -
  let ?R = "\<lparr>og_capacity = DEFAULT_OPERATION_REGISTRY_CAPACITY, og_journal = Some sample_port, og_inner = registry_state_default\<rparr>"
  have r: "registry_recover DEFAULT_OPERATION_REGISTRY_CAPACITY (Some sample_port) recovery_default = Inr ?R"
    by (simp add: registry_recover_def recovery_default_def evict_done registry_state_default_def DEFAULT_OPERATION_REGISTRY_CAPACITY_def)
  obtain J where J: "append_and_sync decimal_codec (append_with None) sample_journal (EpochAdvanced 1 2) = (J, Inr sample_epoch_record)"
    using sample_epoch_append by blast
  show ?thesis
    using r J sample_journal_ok(3,4)
    by (auto simp: try_new_def sample_port_def journal_recover_def recovery_default_def checked_add_u64_def u64_max_def
        persist_epoch_advance_def ensure_healthy_def append_transition_def port_append_def registry_state_default_def
        reconcile_recovered_operations_def recovered_snapshots_def recovery_status_def numeral_2_eq_2)
qed

lemma sample_start_agrees:
  "file_try_new decimal_codec 1 None None () (None :: unit option) (Some sample_port) None None = Inr C
     \<Longrightarrow> core_agrees port_truth (port_ok decimal_codec) C"
  by (drule startup_facts [OF sample_port_ok(1)]) blast

theorem startup_settles_or_fences_witness:
  "\<exists>C. file_try_new decimal_codec 1 None None () (None :: unit option) (Some sample_port) None None = Inr C
     \<and> ca_authority_epoch C = 2 \<and> core_agrees port_truth (port_ok decimal_codec) C"
proof -
  obtain C where C: "file_try_new decimal_codec 1 None None () (None :: unit option) (Some sample_port) None None = Inr C"
    using sample_start by blast
  show ?thesis using startup_settles_or_fences [OF sample_port_ok(1) C] C sample_port_ok(2) by auto
qed

section \<open>A sample kernel\<close>

text \<open>A kernel without journals, tasks that leave it alone while one waits, and a gate that allows.\<close>

definition sample_core :: "unit operation_registry \<Rightarrow> (unit, unit, unit) core_authority" where
  "sample_core R = \<lparr>ca_run_id = 1, ca_authority_epoch = 1, ca_operations = R, ca_lease_ttl_ms = None,
     ca_host_policies = None, ca_gate = (), ca_event = event_authority_new None\<rparr>"

definition alone :: "'c waits" where
  "alone = \<lparr>aw_before = (\<lambda>_ C. C), aw_after = (\<lambda>_ C. C)\<rparr>"

definition sample_ports :: "'j journal_append \<Rightarrow> ('j, unit) core_ports" where
  "sample_ports jappend = \<lparr>cp_append = jappend, cp_event = (\<lambda>k _. (k, Inr ())), cp_flush = (\<lambda>k. (k, Inr ())), cp_digests = sample_digests\<rparr>"

definition zero_digests :: digest_env where
  "zero_digests = sample_digests\<lparr>de_sha256 := (\<lambda>_. replicate 32 0)\<rparr>"

definition sample_dispatch :: "('j, unit, unit, unit, unit, unit) dispatch_env" where
  "sample_dispatch = \<lparr>dv_waits = alone, dv_event = (\<lambda>k _. (k, Inr ())), dv_clock = (\<lambda>_. 0),
     dv_authorize = (\<lambda>g _ _. (g, Inr \<lparr>ao_decision = Allow, ao_denial = None\<rparr>)), dv_shadow = None,
     dv_shadow_cancelled = False, dv_shadow_timed_out = False, dv_issued_at = 0, dv_lease_id = lit ''l'', dv_effect_id = 5,
     dv_execute = (\<lambda>_. Inl Cancelled), dv_rollback = (\<lambda>_ _. Inr ()), dv_output_broker = None\<rparr>"

definition edit_call :: tool_call where
  "edit_call = \<lparr>tc_id = lit ''c'', tc_name = lit ''edit'', tc_arguments = JNull\<rparr>"

definition edit_spec :: tool_spec where
  "edit_spec = \<lparr>ts_name = lit ''edit'', ts_description = [], ts_input_schema = JNull, ts_risk = RiskWorkspaceWrite,
     ts_output_budget = None, ts_roles = []\<rparr>"

definition edit_surface :: tool_surface_snapshot where
  "edit_surface = \<lparr>sf_specs = [edit_spec], sf_surface_revision = 0, sf_omissions = [], sf_schema_profiles = (\<lambda>_. None)\<rparr>"

lemma alone_polite: "polite P alone"
  by (simp add: polite_def alone_def)

lemma sample_dispatch_ports: "dispatch_ports (sample_ports jappend) jappend sample_dispatch"
  by (simp add: dispatch_ports_def sample_ports_def sample_dispatch_def alone_polite)

lemma sample_core_simps [simp]:
  "ca_operations (sample_core R) = R" "ca_authority_epoch (sample_core R) = 1" "ca_run_id (sample_core R) = 1"
  by (simp_all add: sample_core_def)

lemma null_digest: "digest_from_json zero_digests JNull = Some (replicate 32 0)"
  by (simp add: digest_from_json_def zero_digests_def sample_digests_def jcs_serialize_def)

lemma sample_identity_simps:
  "oi_run_id sample_identity = 1" "oi_operation_id sample_identity = 3" "oi_generation sample_identity = 1"
  "oi_call_id sample_identity = lit ''c''" "oi_tool_name sample_identity = lit ''edit''"
  "oi_argument_digest sample_identity = replicate 32 0"
  by (simp_all add: sample_identity_def)

lemma edit_simps: "tc_id edit_call = lit ''c''" "tc_name edit_call = lit ''edit''" "tc_arguments edit_call = JNull"
  "ts_name edit_spec = lit ''edit''" "ts_risk edit_spec = RiskWorkspaceWrite"
  by (simp_all add: edit_call_def edit_spec_def)

lemma sample_start_execution:
  obtains C' ready where "start_execution no_journal zero_digests sample_dispatch (sample_core accepted_registry)
    sample_identity edit_call edit_spec None = (C', Inr ready)"
proof -
  let ?l = "mint_lease zero_digests sample_dispatch (sample_core accepted_registry) sample_identity edit_call edit_spec None"
  let ?R1 = "accepted_registry\<lparr>og_inner := (og_inner accepted_registry)\<lparr>rs_leases :=
     AList.update 3 ?l (rs_leases (og_inner accepted_registry))\<rparr>\<rparr>"
  have a: "lookup accepted_registry 3 = Some \<lparr>snap_identity = sample_identity, snap_state = Accepted\<rparr>"
    using accepted_query by (simp add: query_Found)
  have rl: "record_lease accepted_registry 3 ?l = (?R1, Inr ())"
    using a accepted_in_memory(2) by (simp add: record_lease_def ensure_healthy_def mint_lease_def sample_identity_simps)
  have me: "\<exists>R2. mark_executing no_journal ?R1 3 (Some 5) = (R2, Inr ())"
    using in_memory_transition [of ?R1 3 "\<lparr>snap_identity = sample_identity, snap_state = Accepted\<rparr>"
        "move_executing (Some 5)" "Executing (Some 5)" no_journal] a accepted_in_memory
    by (simp add: mark_executing_def is_some_nil_def is_nil_def)
  then obtain R2 where R2: "mark_executing no_journal ?R1 3 (Some 5) = (R2, Inr ())" by blast
  have rv: "request_validate zero_digests \<lparr>rq_run_id = 1, rq_call = edit_call,
      rq_effect_context = Some \<lparr>ec_identity = sample_identity, ec_effect_id = 5\<rparr>\<rparr> = Inr ()"
    using sample_identity_valid null_digest
    by (simp add: request_validate_def effect_context_validate_def Let_def sample_identity_simps edit_simps is_nil_def)
  show ?thesis
    using that rl R2 rv accepted_in_memory
    by (auto simp: start_execution_def Let_def sample_identity_simps edit_simps on_operations_def sample_core_def
        mark_operation_executing_if_current_def if_allowed_def if_current_def mutation_guards await_event_def await_def emit_event_def emit_def journal_event_def
        event_authority_new_def sample_dispatch_def alone_def)
qed

lemma sample_prepare:
  obtains C' ready where "prepare_dispatch no_journal zero_digests sample_dispatch (sample_core accepted_registry)
    sample_identity edit_call edit_surface = (C', Inr ready)"
proof -
  obtain C' ready where st: "start_execution no_journal zero_digests sample_dispatch (sample_core accepted_registry)
    sample_identity edit_call edit_spec None = (C', Inr ready)" by (rule sample_start_execution)
  have "authorize_and_start no_journal zero_digests sample_dispatch (sample_core accepted_registry)
      sample_identity edit_call edit_spec = (C', Inr ready)"
    using st
    by (simp add: authorize_and_start_def await_def sample_dispatch_def alone_def verdict_of_def evaluate_shadow_def sample_core_def)
  then show ?thesis
    using that accepted_in_memory null_digest
    by (simp add: prepare_dispatch_def mutation_guards
        identity_matches_def sample_identity_simps edit_simps edit_surface_def invalid_process_executable_def lit_def)
qed

definition leased_registry :: "unit operation_registry" where
  "leased_registry = registry_run no_journal accepted_registry [CallLease 3 sample_lease, CallExecuting 3 (Some 5), CallPrepared 3 5]"

definition sample_commit :: "unit agent_result \<Rightarrow> (('j, unit, unit) core_authority, unit) commit_env" where
  "sample_commit reserved = \<lparr>cv_waits = alone, cv_now = 5, cv_actual_writes = (\<lambda>_. None), cv_rollback = (\<lambda>_ _. Inr ()),
     cv_reserve = (\<lambda>_. result_bind reserved (\<lambda>_. Inr (lit ''r''))), cv_dispatch = (\<lambda>_ _ _. ReceiptApplied Durable None),
     cv_ack = (\<lambda>_. Inr ())\<rparr>"

definition sample_request :: "unit effect_commit_request" where
  "sample_request = \<lparr>cr_run_id = 1, cr_turn_id = 2, cr_operation_id = 3, cr_effect_id = 5, cr_argument_digest = replicate 32 0,
     cr_generation = 1, cr_lease = Some sample_lease, cr_effect = ()\<rparr>"

lemma leased_registry_facts:
  "registry_wf leased_registry" "og_journal leased_registry = None" "healthy leased_registry"
  "lookup leased_registry 3 = Some \<lparr>snap_identity = sample_identity, snap_state = Prepared 5\<rparr>"
  "issued_lease_matches leased_registry 3 sample_lease"
proof -
  let ?s = "\<lparr>snap_identity = sample_identity, snap_state = Accepted\<rparr>"
  have a: "lookup accepted_registry 3 = Some ?s" using accepted_query by (simp add: query_Found)
  let ?R1 = "accepted_registry\<lparr>og_inner := (og_inner accepted_registry)\<lparr>rs_leases :=
     AList.update 3 sample_lease (rs_leases (og_inner accepted_registry))\<rparr>\<rparr>"
  have l: "record_lease accepted_registry 3 sample_lease = (?R1, Inr ())"
    using a accepted_in_memory(2) by (simp add: record_lease_def ensure_healthy_def sample_lease_def sample_identity_simps)
  show "registry_wf leased_registry"
    unfolding leased_registry_def by (rule registry_run_wf [OF accepted_registry_wf])
  show "og_journal leased_registry = None" "healthy leased_registry" "issued_lease_matches leased_registry 3 sample_lease"
    "lookup leased_registry 3 = Some \<lparr>snap_identity = sample_identity, snap_state = Prepared 5\<rparr>"
    using a l accepted_in_memory in_memory_transition [of ?R1 3 ?s "move_executing (Some 5)" "Executing (Some 5)" no_journal]
    by (simp_all add: leased_registry_def mark_executing_def mark_prepared_def in_memory_transition issued_lease_matches_def
        is_some_nil_def is_nil_def)
qed

lemma sample_commit_ports: "commit_ports (sample_ports jappend) jappend (sample_commit reserved)"
  by (simp add: commit_ports_def sample_ports_def sample_commit_def alone_polite)

section \<open>The durable epoch\<close>

text \<open>
  C6. The epoch in memory is the durable one, under any interleaving. Publication, dispatch, commit and rollback of an
  operation, each with whatever other kernel calls run while it waits, keep the agreement of the kernel with the file
  journal: the registry's records are the journal's, and unless the kernel is fenced its epoch is the journal's. The run
  id never changes and the epoch never goes back.
\<close>
theorem core_epoch_is_durable:
  assumes "core_agrees port_truth (port_ok codec) C"
    "dispatch_ports P (port_append codec) E" "commit_ports P (port_append codec) F"
    "C' \<in> {fst (publish_tool_operation (port_append codec) D E C i call),
           fst (execute_published_tool (port_append codec) D E C i call surface),
           fst (commit_effect (port_append codec) F C rq), fst (rollback_effect (port_append codec) F C rb)}"
  shows "core_agrees port_truth (port_ok codec) C' \<and> ca_run_id C' = ca_run_id C \<and> ca_authority_epoch C \<le> ca_authority_epoch C'"
proof -
  have P: "P\<lparr>cp_append := port_append codec\<rparr> = P" using dispatch_portsD(1) [OF assms(2)] by auto
  note agrees = agreement_kept.published agreement_kept.executed agreement_kept.committed agreement_kept.rolled_back
  note same = identity_kept.published identity_kept.executed identity_kept.committed identity_kept.rolled_back
  have here: "ca_run_id C = ca_run_id C \<and> ca_authority_epoch C \<le> ca_authority_epoch C" by simp
  have "core_agrees port_truth (port_ok codec) C'"
    using assms(4) agrees(1,2) [where P = P and codec = codec, unfolded P, OF assms(2,1)] agrees(3,4) [where P = P and codec = codec, unfolded P, OF assms(3,1)] by auto
  moreover have "ca_run_id C' = ca_run_id C \<and> ca_authority_epoch C \<le> ca_authority_epoch C'"
    using assms(4) same(1,2) [OF assms(2) here] same(3,4) [OF assms(3) here] by auto
  ultimately show ?thesis by blast
qed

theorem core_epoch_is_durable_witness:
  "\<exists>C. file_try_new decimal_codec 1 None None () (None :: unit option) (Some sample_port) None None = Inr C
     \<and> core_agrees port_truth (port_ok decimal_codec)
         (fst (execute_published_tool (port_append decimal_codec) zero_digests sample_dispatch C sample_identity edit_call edit_surface))"
proof -
  obtain C where C: "file_try_new decimal_codec 1 None None () (None :: unit option) (Some sample_port) None None = Inr C"
    using sample_start by blast
  have "core_agrees port_truth (port_ok decimal_codec) C" by (rule sample_start_agrees [OF C])
  from core_epoch_is_durable [OF this sample_dispatch_ports sample_commit_ports insertI2 [OF insertI1]] C
  show ?thesis by blast
qed

section \<open>Dispatch\<close>

text \<open>
  C7. A call goes to its tool only when it is authorised. When the dispatch of an operation lets a call through, the
  call is the one the operation was admitted for, its tool is on the captured surface and its arguments have the tool's
  schema; the approval gate was asked about this call and this specification and allowed it; and then, at the
  operation's own epoch, the operation moved from Accepted to Executing. A call that is not read-only goes out under a
  lease that the registry issued for it, with the intent the host policies derive and the binding epoch of that
  moment. Whatever other tasks do while the dispatch waits.
\<close>
theorem dispatch_is_authorised:
  assumes "dispatch_ports P jappend E" "prepare_dispatch jappend D E C i call surface = (C', Inr ready)"
  shows "identity_matches D C i call \<and> dr_spec ready \<in> set (sf_specs surface) \<and> ts_name (dr_spec ready) = tc_name call
    \<and> (\<forall>validate. sf_schema_profiles surface (tc_name call) = Some validate \<longrightarrow> validate (tc_arguments call) = None)
    \<and> rq_call (dr_request ready) = call \<and> request_validate D (dr_request ready) = Inr ()
    \<and> (\<exists>C0 g out C1 C2. reaches P C C0 \<and> dv_authorize E (ca_gate C0) call (dr_spec ready) = (g, Inr out)
         \<and> ao_decision out = Allow \<and> reaches P (C0\<lparr>ca_gate := g\<rparr>) C1
         \<and> starts_with_lease P D i call (dr_spec ready) ready C1 C2 \<and> reaches P C2 C')"
proof -
  obtain spec where p: "identity_matches D C i call"
    "find (\<lambda>spec. ts_name spec = tc_name call) (sf_specs surface) = Some spec"
    "Option.bind (sf_schema_profiles surface (tc_name call)) (\<lambda>validate. validate (tc_arguments call)) = None"
    "authorize_and_start jappend D E C i call spec = (C', Inr ready)"
    using prepare_dispatch_ready [OF assms(2)] by blast
  have sp: "spec \<in> set (sf_specs surface)" "ts_name spec = tc_name call"
    using p(2) by (auto simp: find_Some_iff)
  have v: "\<forall>validate. sf_schema_profiles surface (tc_name call) = Some validate \<longrightarrow> validate (tc_arguments call) = None"
    using p(3) by auto
  obtain C0 g out C1 C2 where a: "reaches P C C0" "dv_authorize E (ca_gate C0) call spec = (g, Inr out)" "ao_decision out = Allow"
    "reaches P (C0\<lparr>ca_gate := g\<rparr>) C1" "starts_with_lease P D i call spec ready C1 C2" "reaches P C2 C'" "dr_spec ready = spec"
    "rq_call (dr_request ready) = call" "request_validate D (dr_request ready) = Inr ()"
    using authorize_ready [OF assms(1) p(4)] .
  show ?thesis unfolding a(7) using p(1) sp v a(1-6,8,9) by blast
qed

theorem dispatch_is_authorised_witness:
  "\<exists>C' ready (C1 :: (unit, unit, unit) core_authority) C2. prepare_dispatch no_journal zero_digests sample_dispatch (sample_core accepted_registry)
      sample_identity edit_call edit_surface = (C', Inr ready)
    \<and> starts_with_lease (sample_ports no_journal) zero_digests sample_identity edit_call (dr_spec ready) ready C1 C2"
proof -
  obtain C' ready where r: "prepare_dispatch no_journal zero_digests sample_dispatch (sample_core accepted_registry)
    sample_identity edit_call edit_surface = (C', Inr ready)" by (rule sample_prepare)
  show ?thesis using dispatch_is_authorised [OF sample_dispatch_ports r] r by blast
qed

text \<open>
  C9. An operation is dispatched at most once. After a dispatch let the call of an operation through, no later dispatch
  of that operation does, for any identity with its operation id, any call and any surface, and whatever the kernel
  does in between.
\<close>
theorem dispatched_at_most_once:
  assumes "dispatch_ports P jappend E" "dispatch_ports P jappend E'" "registry_wf (ca_operations C)"
    "prepare_dispatch jappend D E C i call surface = (C1, Inr ready)" "reaches P C1 C2"
    "oi_operation_id i' = oi_operation_id i"
  shows "prepare_dispatch jappend D E' C2 i' call' surface' \<noteq> (C3, Inr ready')"
proof
  assume "prepare_dispatch jappend D E' C2 i' call' surface' = (C3, Inr ready')"
  then obtain Ca Cb where b: "reaches P C2 Ca" "started Ca Cb (oi_generation i') (oi_operation_id i') (dr_effect_id ready')"
    using prepare_dispatch_started [OF assms(2)] by blast
  obtain Cc Cd where a: "reaches P C Cc" "reaches P Cc Cd" "reaches P Cd C1"
    "started Cc Cd (oi_generation i) (oi_operation_id i) (dr_effect_id ready)"
    using prepare_dispatch_started [OF assms(1,4)] .
  have "registry_wf (ca_operations Cd)" using reaches_wf [OF reaches_trans [OF a(1,2)] assms(3)] .
  moreover obtain s where "lookup (ca_operations Cd) (oi_operation_id i) = Some s" "snap_state s \<noteq> Accepted"
    using a(4) by (auto simp: started_def)
  moreover have "reaches P Cd Ca" using reaches_trans [OF reaches_trans [OF a(3) assms(5)] b(1)] .
  ultimately show False using started_once b(2) assms(6) by metis
qed

theorem dispatched_at_most_once_witness:
  "\<exists>C1 ready. prepare_dispatch no_journal zero_digests sample_dispatch (sample_core accepted_registry)
      sample_identity edit_call edit_surface = (C1, Inr ready)
    \<and> (\<forall>C3 ready'. prepare_dispatch no_journal zero_digests sample_dispatch C1
         sample_identity edit_call edit_surface \<noteq> (C3, Inr ready'))"
proof -
  obtain C1 ready where r: "prepare_dispatch no_journal zero_digests sample_dispatch (sample_core accepted_registry)
    sample_identity edit_call edit_surface = (C1, Inr ready)" by (rule sample_prepare)
  show ?thesis
    using dispatched_at_most_once [OF sample_dispatch_ports sample_dispatch_ports _ r reaches_refl] r accepted_registry_wf by auto
qed

section \<open>Commit\<close>

lemma sample_admit:
  obtains C1 where "admit_commit no_journal (sample_commit reserved) (sample_core leased_registry) sample_request = (C1, Inr ())"
proof -
  obtain R where R: "begin_commit no_journal leased_registry 3 5 = (R, Inr ())"
    using in_memory_transition [OF leased_registry_facts(2-4), of "move_commit 5" "CommitStarted 5" no_journal]
    by (simp add: begin_commit_def)
  show ?thesis
    using that R leased_registry_facts
    by (simp add: admit_commit_def Let_def mutation_guards
        commit_refusal_def stray_write_def binding_fenced_def core_lease_matches_def lease_valid_at_def sample_request_def
        sample_lease_def sample_commit_def begin_operation_commit_if_current_def begin_operation_commit_def if_allowed_def
        if_current_def on_operations_def query_def sample_identity_simps sample_core_def)
qed

lemma sample_commit_receipt:
  obtains C' where "commit_effect no_journal (sample_commit (Inr ())) (sample_core leased_registry) sample_request
    = (C', CommitReceipt (ReceiptApplied Durable None) None)"
proof -
  obtain C1 where a: "admit_commit no_journal (sample_commit (Inr ())) (sample_core leased_registry) sample_request = (C1, Inr ())"
    by (rule sample_admit)
  obtain R where R: "begin_commit no_journal leased_registry 3 5 = (R, Inr ())" "ca_operations C1 = R"
    using admit_commit_checked [OF a] by (auto simp: begin_operation_commit_if_current_def begin_operation_commit_def guard_Inr
        on_operations_def sample_request_def split: operation_query_result.splits if_splits prod.splits)
  have f: "og_journal R = None" "healthy R" "lookup R 3 = Some \<lparr>snap_identity = sample_identity, snap_state = CommitStarted 5\<rparr>"
    using R(1) leased_registry_facts(2,3)
      in_memory_transition [OF leased_registry_facts(2-4), of "move_commit 5" "CommitStarted 5" no_journal]
    by (auto simp: begin_commit_def)
  have "\<exists>C'. finish_operation_effect no_journal C1 3 (ReceiptApplied Durable None) = (C', Inr ())"
    using f R(2) by (simp add: finish_operation_effect_def if_allowed_def mutation_guards on_operations_def finish_effect_def validate_durability_def validate_evidence_def Let_def finish_terminal_def query_def
        append_snapshot_def append_transition_def)
  then show ?thesis
    using that a by (auto simp: commit_effect_def broker_commit_def await_def sample_commit_def alone_def sample_request_def)
qed



text \<open>
  C10. An operation is committed at most once. After a commit passed the checks and went to the broker, no later commit
  of that operation does, for any request and whatever the kernel does in between.
\<close>
theorem effect_committed_at_most_once:
  assumes "registry_wf (ca_operations C)" "commit_ports P jappend E" "admit_commit jappend E C rq = (C1, Inr ())"
    "reaches P C1 C2" "cr_operation_id rq' = cr_operation_id rq"
  shows "snd (admit_commit jappend E' C2 rq') \<noteq> Inr ()"
proof
  assume "snd (admit_commit jappend E' C2 rq') = Inr ()"
  then obtain C3 where "admit_commit jappend E' C2 rq' = (C3, Inr ())" by (metis prod.collapse)
  then obtain s' where s': "query (ca_operations C2) (cr_operation_id rq) = Found s'" "snap_state s' = Prepared (cr_effect_id rq')"
    using admit_commit_checked assms(5) unfolding commit_checked_def by metis
  obtain s where s: "query (ca_operations C1) (cr_operation_id rq) = Found s" "snap_state s = CommitStarted (cr_effect_id rq)"
    using admit_commit_checked [OF assms(3)] begin_operation_commit_checked by blast
  have "registry_wf (ca_operations C1)"
    using reaches_wf [OF _ assms(1)] admit_commit_reaches [OF assms(2), of C rq] assms(3) by simp
  then have "valid_recovered_transition\<^sup>*\<^sup>* (snap_state s) (snap_state s')"
    using reaches_transitions [OF assms(4)] s(1) s'(1) by blast
  from commit_reach [OF this] show False using s(2) s'(2) by simp
qed

theorem effect_committed_at_most_once_witness:
  "\<exists>C1. admit_commit no_journal (sample_commit (Inr ())) (sample_core leased_registry) sample_request = (C1, Inr ())
     \<and> snd (admit_commit no_journal (sample_commit (Inr ())) C1 sample_request) \<noteq> Inr ()"
proof -
  obtain C1 where a: "admit_commit no_journal (sample_commit (Inr ())) (sample_core leased_registry) sample_request = (C1, Inr ())"
    by (rule sample_admit)
  show ?thesis
    using effect_committed_at_most_once [OF _ sample_commit_ports a reaches_refl,
        where rq' = sample_request and E' = "sample_commit (Inr ())"] a leased_registry_facts(1) by simp
qed

text \<open>
  C22. A reported receipt is the recorded truth: when a commit returns a receipt, the operation is stored as terminal
  with this effect and exactly the terminal that receipt stands for.
\<close>
theorem receipt_is_recorded:
  assumes "registry_wf (ca_operations C)" "commit_ports P jappend E" "commit_effect jappend E C rq = (C', CommitReceipt receipt debt)"
  shows "\<exists>s. query (ca_operations C') (cr_operation_id rq) = Found s
     \<and> snap_state s = Terminal (Some (cr_effect_id rq)) (receipt_terminal receipt)"
proof -
  obtain C1 where a: "admit_commit jappend E C rq = (C1, Inr ())" "broker_commit jappend E C1 rq = (C', CommitReceipt receipt debt)"
    by (rule commit_effect_admitted [OF assms(3)]) (simp add: went_to_broker_def)
  obtain s where s: "query (ca_operations C1) (cr_operation_id rq) = Found s" "snap_state s = CommitStarted (cr_effect_id rq)"
    using admit_commit_checked [OF a(1)] begin_operation_commit_checked by blast
  obtain C3 where c: "reaches P C1 C3" "finish_operation_effect jappend C3 (cr_operation_id rq) receipt = (C', Inr ())"
    using broker_commit_receipt [OF assms(2) a(2)] .
  have wf: "registry_wf (ca_operations C1)"
    using reaches_wf [OF _ assms(1)] admit_commit_reaches [OF assms(2), of C rq] a(1) by simp
  obtain s3 e where s3: "query (ca_operations C3) (cr_operation_id rq) = Found s3" "snap_state s3 = CommitStarted e"
    "query (ca_operations C') (cr_operation_id rq) = Found \<lparr>snap_identity = snap_identity s3, snap_state = Terminal (Some e) (receipt_terminal receipt)\<rparr>"
    using finish_effect_recorded [OF c(2)] .
  have "valid_recovered_transition\<^sup>*\<^sup>* (snap_state s) (snap_state s3)" using reaches_transitions [OF c(1) wf s(1) s3(1)] .
  from commit_reach [OF this, of "cr_effect_id rq"] s(2) s3 show ?thesis by auto
qed

theorem receipt_is_recorded_witness:
  "\<exists>C' s. commit_effect no_journal (sample_commit (Inr ())) (sample_core leased_registry) sample_request
       = (C', CommitReceipt (ReceiptApplied Durable None) None)
     \<and> query (ca_operations C') 3 = Found s \<and> snap_state s = Terminal (Some 5) (receipt_terminal (ReceiptApplied Durable None))"
proof -
  obtain C' where c: "commit_effect no_journal (sample_commit (Inr ())) (sample_core leased_registry) sample_request
      = (C', CommitReceipt (ReceiptApplied Durable None) None)" by (rule sample_commit_receipt)
  show ?thesis
    using receipt_is_recorded [OF _ sample_commit_ports c] c leased_registry_facts(1) by (simp add: sample_request_def)
qed

text \<open>
  A commit whose reservation fails leaves its operation in the commit. When the broker cannot reserve an admitted
  effect and the effect rolls back, the commit is answered with \<open>BrokerUnavailable\<close> and the operation stays
  \<open>CommitStarted\<close>, without a terminal record and without a fence, unless another task touches it meanwhile.
\<close>
theorem failed_reservation_leaves_commit_started:
  assumes "admit_commit jappend E C rq = (C1, Inr ())" "cv_reserve E (reservation_of rq) = Inl e"
    "\<forall>reason. cv_rollback E (cr_effect rq) reason = Inr ()"
    "\<forall>p C. ca_operations (aw_before (cv_waits E) p C) = ca_operations C \<and> ca_operations (aw_after (cv_waits E) p C) = ca_operations C"
  shows "snd (commit_effect jappend E C rq) = CommitRejected BrokerUnavailable
     \<and> (\<exists>s. query (ca_operations (fst (commit_effect jappend E C rq))) (cr_operation_id rq) = Found s
          \<and> snap_state s = CommitStarted (cr_effect_id rq))
     \<and> ca_operations (fst (commit_effect jappend E C rq)) = ca_operations C1"
proof -
  obtain s where s: "query (ca_operations C1) (cr_operation_id rq) = Found s" "snap_state s = CommitStarted (cr_effect_id rq)"
    using admit_commit_checked [OF assms(1)] begin_operation_commit_checked by blast
  have n: "\<not> operation_needs_rollback_terminal X (cr_operation_id rq) (cr_effect_id rq) (cr_argument_digest rq)"
    if "ca_operations X = ca_operations C1" for X
    using s that by (simp add: operation_needs_rollback_terminal_def)
  have "ca_operations (fst (commit_effect jappend E C rq)) = ca_operations C1 \<and> snd (commit_effect jappend E C rq) = CommitRejected BrokerUnavailable"
    using assms n [of "aw_after (cv_waits E) AwaitReserve (aw_before (cv_waits E) AwaitReserve C1)"]
    by (auto simp: commit_effect_def broker_commit_def await_def reject_commit_def settle_rejected_effect_def
        await_rollback_def Let_def)
  then show ?thesis using s by auto
qed

theorem failed_reservation_leaves_commit_started_witness:
  "snd (commit_effect no_journal (sample_commit (Inl Cancelled)) (sample_core leased_registry) sample_request)
     = CommitRejected BrokerUnavailable"
proof -
  obtain C1 where a: "admit_commit no_journal (sample_commit (Inl Cancelled)) (sample_core leased_registry) sample_request = (C1, Inr ())"
    by (rule sample_admit)
  show ?thesis
    by (rule conjunct1 [OF failed_reservation_leaves_commit_started [OF a]]) (simp_all add: sample_commit_def alone_def)
qed

section \<open>The diagnosis of a failed tool\<close>

text \<open>What an output broker does: it bounds the fields of an output, keeps its verdict and adds no reserved metadata.\<close>

definition broker_keeps :: "output_broker option \<Rightarrow> bool" where
  "broker_keeps broker \<longleftrightarrow> (\<forall>b. broker = Some b \<longrightarrow> (\<forall>run_id budget out. to_ok (b run_id budget out) = to_ok out
     \<and> (\<forall>k \<in> set RESERVED_RUNTIME_METADATA_KEYS. json_get (to_metadata out) k = None
          \<longrightarrow> json_get (to_metadata (b run_id budget out)) k = None)))"

definition declared_class :: "tool_output \<Rightarrow> tool_failure_class option" where
  "declared_class out = Option.bind (get_str (to_metadata out) TOOL_FAILURE_CLASS_KEY) class_parse"

definition declared_hint :: "tool_output \<Rightarrow> tool_failure_class \<Rightarrow> rust_str" where
  "declared_hint out class = (case get_str (to_metadata out) TOOL_RECOVERY_HINT_KEY of
     Some hint \<Rightarrow> if hint = [] then default_recovery_hint class else take TOOL_RECOVERY_HINT_MAX_CHARS hint
   | None \<Rightarrow> default_recovery_hint class)"

lemma taken_diagnosis:
  "take_runtime_diagnosis out = (out\<lparr>to_metadata := strip_metadata_keys (to_metadata out) RESERVED_RUNTIME_METADATA_KEYS\<rparr>,
     map_option (\<lambda>c. \<lparr>rd_class = c, rd_hint = declared_hint out c\<rparr>)
       (case declared_class out of Some c \<Rightarrow> Some c
        | None \<Rightarrow> if to_ok out then None else Some (failure_class_from_message (to_summary out @ [10] @ to_model_content out))))"
proof -
  have "prose_class (out\<lparr>to_metadata := m\<rparr>) = failure_class_from_message (to_summary out @ [10] @ to_model_content out)" for m
    by (simp add: prose_class_def)
  then show ?thesis
    by (auto simp: take_runtime_diagnosis_def Let_def declared_class_def declared_hint_def TOOL_RECOVERY_HINT_MAX_CHARS_def
        split: option.split)
qed

lemma declared_hint_short: "take TOOL_RECOVERY_HINT_MAX_CHARS (declared_hint out c) = declared_hint out c"
  using default_hint_short by (simp add: declared_hint_def split: option.split)

lemma json_get_other:
  "k \<noteq> RUNTIME_METADATA_KEY \<Longrightarrow> json_get (write_runtime_metadata v c h) k = json_get v k"
  by (cases v) (simp_all add: write_runtime_metadata_def AList.update_conv')


text \<open>A failed edit whose producer forges \<open>_runtime\<close> and claims a class that does not exist.\<close>

definition forged_output :: tool_output where
  "forged_output = \<lparr>to_call_id = lit ''c'', to_tool_name = lit ''edit'', to_ok = False, to_summary = lit ''edit failed'',
     to_model_content = lit ''no such file'', to_artifact_ref = None,
     to_metadata = JObject [(RUNTIME_METADATA_KEY, JString (lit ''all is well'')),
       (TOOL_FAILURE_CLASS_KEY, JString (lit ''nothing happened''))]\<rparr>"


end
