(* ===== verification/Kernel_Context.thy ===== *)
theory Kernel_Context
  imports Core_Properties
begin

text \<open>
  The kernel's transactions over the context engine, and its start and stop: \<open>acknowledge_context_consumption\<close>, \<open>restore\<close>,
  \<open>finish_context_transaction\<close>, \<open>start\<close>, \<open>stop\<close> of \<^verbatim>\<open>crates/agent-core/src/kernel/mod.rs\<close>. The engine is an interface of the
  source (\<open>ContextEngine\<close>) and a parameter; other users of the engine do not run in the middle of a transaction (the
  runtime actor makes these calls one at a time).
\<close>

section \<open>The engine\<close>

record 'x context_engine =
  ce_checkpoint :: "'x \<Rightarrow> 'x \<times> json agent_result"
  ce_restore :: "'x \<Rightarrow> json \<Rightarrow> 'x \<times> unit agent_result"
  ce_acknowledge :: "'x \<Rightarrow> context_consumption_ack \<Rightarrow> 'x \<times> unit agent_result"
  ce_focus_task :: "'x \<Rightarrow> 'x \<times> uuid option agent_result"

text \<open>
  What the trait documents: a checkpoint exports the state and changes nothing, a restore that succeeds replaces
  the state by the exported one. \<open>view\<close> is what of the state counts.
\<close>

definition restores_checkpoints :: "('x \<Rightarrow> 'v) \<Rightarrow> 'x context_engine \<Rightarrow> bool" where
  "restores_checkpoints view K \<longleftrightarrow>
     (\<forall>x x' r. ce_checkpoint K x = (x', r) \<longrightarrow> view x' = view x
        \<and> (\<forall>data y y'. r = Inr data \<longrightarrow> ce_restore K y data = (y', Inr ()) \<longrightarrow> view y' = view x))"

section \<open>Transactions\<close>

definition CONTEXT_CONSUMPTION_ACK_ITEM_CAP :: nat where "CONTEXT_CONSUMPTION_ACK_ITEM_CAP = 256"

definition CONTEXT_MAP_VIEW_CAP :: nat where "CONTEXT_MAP_VIEW_CAP = 32"

definition above_cap :: "rust_str \<Rightarrow> nat \<Rightarrow> nat \<Rightarrow> agent_error" where
  "above_cap what n cap = InvalidRequest (lit ''context consumption ack carries '' @ dec n @ lit '' '' @ what
     @ lit '' ids, above the '' @ dec cap @ lit '' cap'')"

definition ack_validate :: "context_consumption_ack \<Rightarrow> unit agent_result" where
  "ack_validate a =
     (if CONTEXT_CONSUMPTION_ACK_ITEM_CAP < length (cc_item_ids a)
      then Inl (above_cap (lit ''item'') (length (cc_item_ids a)) CONTEXT_CONSUMPTION_ACK_ITEM_CAP)
      else if CONTEXT_MAP_VIEW_CAP < length (cc_external_item_ids a)
      then Inl (above_cap (lit ''external'') (length (cc_external_item_ids a)) CONTEXT_MAP_VIEW_CAP)
      else if \<not> distinct (cc_item_ids a)
      then Inl (InvalidRequest (lit ''context consumption ack contains duplicate item ids''))
      else if \<not> distinct (cc_external_item_ids a) \<or> set (cc_item_ids a) \<inter> set (cc_external_item_ids a) \<noteq> {}
      then Inl (InvalidRequest (lit ''context consumption ack contains a duplicate item identity''))
      else if CONTEXT_CONSUMPTION_ACK_ITEM_CAP < length (cc_foreground_item_ids a)
      then Inl (above_cap (lit ''foreground'') (length (cc_foreground_item_ids a)) CONTEXT_CONSUMPTION_ACK_ITEM_CAP)
      else if \<not> distinct (cc_foreground_item_ids a)
      then Inl (InvalidRequest (lit ''context consumption ack contains duplicate foreground identities''))
      else Inr ())"

definition finish_context_transaction ::
  "'x context_engine \<Rightarrow> rust_str \<Rightarrow> json \<Rightarrow> 'x \<Rightarrow> 'a agent_result \<Rightarrow> 'x \<times> 'a agent_result" where
  "finish_context_transaction K operation checkpoint x result =
     (case result of
        Inr value \<Rightarrow> (x, Inr value)
      | Inl error \<Rightarrow>
          (case ce_restore K x checkpoint of
             (x', Inr ()) \<Rightarrow> (x', Inl error)
           | (x', Inl rollback_error) \<Rightarrow>
               (x', Inl (RecoveryRequired (operation @ lit '' failed ('' @ error_display error
                  @ lit ''); rollback failed ('' @ error_display rollback_error @ lit '')'')))))"

definition acknowledge_context_consumption ::
  "('k, runtime_event) event_append \<Rightarrow> nat \<Rightarrow> 'x context_engine \<Rightarrow> ('j, 'g, 'k) core_authority \<Rightarrow> 'x
     \<Rightarrow> context_consumption_ack \<Rightarrow> ('j, 'g, 'k) core_authority \<times> 'x \<times> unit agent_result" where
  "acknowledge_context_consumption append_event now K C x a =
     (case core_mutation_allowed C of Inl e \<Rightarrow> (C, x, Inl e) | Inr () \<Rightarrow>
      case ack_validate a of Inl e \<Rightarrow> (C, x, Inl e) | Inr () \<Rightarrow>
      case ce_checkpoint K x of
        (x1, Inl e) \<Rightarrow> (C, x1, Inl e)
      | (x1, Inr checkpoint) \<Rightarrow>
          (case (case ce_acknowledge K x1 a of
                   (x2, Inl e) \<Rightarrow> (C, x2, Inl e)
                 | (x2, Inr ()) \<Rightarrow> (case emit_event append_event now (ContextConsumed a) C of (C1, r) \<Rightarrow> (C1, x2, r))) of
             (C1, x2, result) \<Rightarrow>
               (case finish_context_transaction K (lit ''acknowledge context consumption'') checkpoint x2 result of
                  (x3, r) \<Rightarrow> (C1, x3, r))))"

definition core_restore ::
  "'x context_engine \<Rightarrow> ('j, 'g, 'k) core_authority \<Rightarrow> 'x \<Rightarrow> json \<Rightarrow> uuid option \<Rightarrow> 'x \<times> unit agent_result" where
  "core_restore K C x data expected_task_id =
     (case core_mutation_allowed C of Inl e \<Rightarrow> (x, Inl e) | Inr () \<Rightarrow>
      case ce_checkpoint K x of
        (x1, Inl e) \<Rightarrow> (x1, Inl e)
      | (x1, Inr checkpoint) \<Rightarrow>
          (case (case ce_restore K x1 data of
                   (x2, Inl e) \<Rightarrow> (x2, Inl e)
                 | (x2, Inr ()) \<Rightarrow>
                     if data = JNull then (x2, Inr ())
                     else (case ce_focus_task K x2 of
                         (x3, Inl e) \<Rightarrow> (x3, Inl e)
                       | (x3, Inr actual_task_id) \<Rightarrow>
                           (x3, if actual_task_id \<noteq> expected_task_id
                                then Inl (InvalidRequest (lit ''checkpoint context focus does not match current task''))
                                else Inr ()))) of
             (x2, restored) \<Rightarrow> finish_context_transaction K (lit ''restore context'') checkpoint x2 restored))"

section \<open>Start and stop\<close>

text \<open>\<open>clock n\<close> is the reading of the clock at the \<open>n\<close>-th event.\<close>

definition start ::
  "('k, runtime_event) event_append \<Rightarrow> 'k event_flush \<Rightarrow> (nat \<Rightarrow> nat) \<Rightarrow> ('j, 'g, 'k) core_authority
     \<Rightarrow> ('j, 'g, 'k) core_authority \<times> unit agent_result" where
  "start append_event flush clock C =
     (case emit_batch_durable append_event flush (ca_event C) (ca_run_id C)
             [(clock 0, RunStarted), (clock 1, RuntimeCommitBarrier RunStart None)] of
        (A, Inl e) \<Rightarrow> (C\<lparr>ca_event := A\<rparr>, Inl e)
      | (A, Inr ()) \<Rightarrow>
          (let C1 = C\<lparr>ca_event := A\<rparr> in
           case recovery_status (ca_operations C1) of
             Ready \<Rightarrow> (C1, Inr ())
           | RecoveryIsRequired reason \<Rightarrow>
               (let prefix = lit ''Core authority recovery is required: '';
                    reason = bound_utf8 reason (MAX_OPERATION_DIAGNOSTIC_BYTES - str_len prefix)
                in and_then (emit_event append_event (clock 2) (WarningEvent (prefix @ reason)) C1)
                     (\<lambda>C2 _. emit_event append_event (clock 3) RecoveryRequiredEvent C2))))"

definition stop ::
  "('k, runtime_event) event_append \<Rightarrow> 'k event_flush \<Rightarrow> nat \<Rightarrow> ('j, 'g, 'k) core_authority
     \<Rightarrow> ('j, 'g, 'k) core_authority \<times> unit agent_result" where
  "stop append_event flush now C =
     and_then (emit_event append_event now RunCompleted C) (\<lambda>C1 _.
       case flush_journal flush (ca_event C1) of (A, r) \<Rightarrow> (C1\<lparr>ca_event := A\<rparr>, r))"

section \<open>Atomicity\<close>

lemma restores_checkpointsD:
  assumes "restores_checkpoints view K" "ce_checkpoint K x = (x1, r)"
  shows "view x1 = view x" "r = Inr data \<Longrightarrow> ce_restore K y data = (y', Inr ()) \<Longrightarrow> view y' = view x"
  using assms unfolding restores_checkpoints_def by blast+

lemma finish_context_failed:
  assumes "restores_checkpoints view K" "ce_checkpoint K x = (x1, Inr checkpoint)"
    "finish_context_transaction K operation checkpoint y result = (y', Inl e)"
  shows "view y' = view x \<or> (\<exists>m. e = RecoveryRequired m)"
  using restores_checkpointsD(2) [OF assms(1,2) refl] assms(3)
  by (auto simp: finish_context_transaction_def split: sum.splits prod.splits)

lemma finish_context_done:
  "finish_context_transaction K operation checkpoint y result = (y', Inr v) \<Longrightarrow> result = Inr v \<and> y' = y"
  by (auto simp: finish_context_transaction_def split: sum.splits prod.splits)

lemma emit_event_sent:
  assumes "emit_event append_event now event C = (C', Inr ())"
  shows "ea_sent (ca_event C') = ea_sent (ca_event C) @ [envelope (ca_event C) (ca_run_id C) now event]"
  using assms by (auto simp: emit_event_def emit_def Let_def and_then_Inr journal_event_def split: prod.splits option.splits)

lemma acknowledge_parts:
  assumes "acknowledge_context_consumption append_event now K C x a = (C', x', r)" "core_mutation_allowed C = Inr ()"
    "ack_validate a = Inr ()" "ce_checkpoint K x = (x1, Inr checkpoint)"
  obtains x2 result where "finish_context_transaction K (lit ''acknowledge context consumption'') checkpoint x2 result = (x', r)"
    "result = Inr () \<longrightarrow> emit_event append_event now (ContextConsumed a) C = (C', Inr ())"
proof -
  obtain x2 r2 where k: "ce_acknowledge K x1 a = (x2, r2)" by fastforce
  obtain C1 r3 where e: "emit_event append_event now (ContextConsumed a) C = (C1, r3)" by fastforce
  show ?thesis
    using assms k e that by (cases r2) (auto simp: acknowledge_context_consumption_def split: prod.splits)
qed

text \<open>
  C40. A context transaction commits with its audit event or not at all. When the acknowledgement of a consumed frame
  succeeds, its \<open>ContextConsumed\<close> event got the next sequence number and was broadcast; when it fails, what counts of the
  engine's state is what it was, or the error says that recovery is required. The same holds for a restore that
  fails.
\<close>
theorem context_transaction_is_atomic:
  assumes "restores_checkpoints view K"
  shows "(acknowledge_context_consumption append_event now K C x a = (C', x', Inr ()) \<longrightarrow>
       ea_sent (ca_event C') = ea_sent (ca_event C) @ [envelope (ca_event C) (ca_run_id C) now (ContextConsumed a)])
     \<and> (acknowledge_context_consumption append_event now K C x a = (C', x', Inl e) \<longrightarrow>
       view x' = view x \<or> (\<exists>m. e = RecoveryRequired m))
     \<and> (core_restore K C x data task = (x', Inl e) \<longrightarrow> view x' = view x \<or> (\<exists>m. e = RecoveryRequired m))"
proof -
  obtain x1 r1 where k: "ce_checkpoint K x = (x1, r1)" by fastforce
  note v = restores_checkpointsD(1) [OF assms k]
  show ?thesis
  proof (intro conjI impI)
    assume h: "acknowledge_context_consumption append_event now K C x a = (C', x', Inr ())"
    then obtain checkpoint where g: "core_mutation_allowed C = Inr ()" "ack_validate a = Inr ()" "r1 = Inr checkpoint"
      using k by (auto simp: acknowledge_context_consumption_def split: sum.splits)
    show "ea_sent (ca_event C') = ea_sent (ca_event C) @ [envelope (ca_event C) (ca_run_id C) now (ContextConsumed a)]"
      by (rule acknowledge_parts [OF h g(1,2) k [unfolded g(3)]]) (drule finish_context_done, simp add: emit_event_sent)
  next
    assume h: "acknowledge_context_consumption append_event now K C x a = (C', x', Inl e)"
    show "view x' = view x \<or> (\<exists>m. e = RecoveryRequired m)"
    proof (cases "\<exists>checkpoint. core_mutation_allowed C = Inr () \<and> ack_validate a = Inr () \<and> r1 = Inr checkpoint")
      case True
      then obtain checkpoint where g: "core_mutation_allowed C = Inr ()" "ack_validate a = Inr ()" "r1 = Inr checkpoint" by blast
      show ?thesis
        by (rule acknowledge_parts [OF h g(1,2) k [unfolded g(3)]]) (use finish_context_failed [OF assms k [unfolded g(3)]] in blast)
    next
      case False
      then show ?thesis using h k v by (auto simp: acknowledge_context_consumption_def split: sum.splits)
    qed
  next
    assume h: "core_restore K C x data task = (x', Inl e)"
    show "view x' = view x \<or> (\<exists>m. e = RecoveryRequired m)"
    proof (cases "\<exists>checkpoint. core_mutation_allowed C = Inr () \<and> r1 = Inr checkpoint")
      case True
      then obtain checkpoint where g: "core_mutation_allowed C = Inr ()" "r1 = Inr checkpoint" by blast
      have "\<exists>y res. finish_context_transaction K (lit ''restore context'') checkpoint y res = (x', Inl e :: unit agent_result)"
        using h k g by (simp add: core_restore_def case_prod_unfold) blast
      then show ?thesis using finish_context_failed [OF assms k [unfolded g(2)]] by blast
    next
      case False
      then show ?thesis using h k v by (auto simp: core_restore_def split: sum.splits)
    qed
  qed
qed

text \<open>An engine whose state is a JSON value, and which refuses every acknowledgement after changing it.\<close>

definition refusing_engine :: "json context_engine" where
  "refusing_engine = \<lparr>ce_checkpoint = (\<lambda>x. (x, Inr x)), ce_restore = (\<lambda>_ data. (data, Inr ())),
     ce_acknowledge = (\<lambda>_ _. (JNull, Inl Cancelled)), ce_focus_task = (\<lambda>x. (x, Inr None))\<rparr>"

definition sample_ack :: context_consumption_ack where
  "sample_ack = \<lparr>cc_turn_id = 1, cc_operation_id = 2, cc_model_round = 0, cc_materialization_id = 0, cc_item_ids = [4],
     cc_external_item_ids = [], cc_foreground_item_ids = []\<rparr>"

theorem context_transaction_is_atomic_witness:
  "\<exists>C'. acknowledge_context_consumption (\<lambda>k _. (k, Inr ())) 0 refusing_engine (sample_core accepted_registry) (JBool True) sample_ack
     = (C', JBool True, Inl Cancelled)"
proof -
  have ok: "restores_checkpoints id refusing_engine" by (simp add: restores_checkpoints_def refusing_engine_def)
  obtain C' x' r where h: "acknowledge_context_consumption (\<lambda>k _. (k, Inr ())) 0 refusing_engine (sample_core accepted_registry)
      (JBool True) sample_ack = (C', x', r)" by (metis prod_cases3)
  have r: "r = Inl Cancelled" using h accepted_in_memory(2)
    by (simp add: acknowledge_context_consumption_def mutation_guards
        ack_validate_def sample_ack_def CONTEXT_CONSUMPTION_ACK_ITEM_CAP_def CONTEXT_MAP_VIEW_CAP_def refusing_engine_def
        finish_context_transaction_def)
  have "id x' = id (JBool True) \<or> (\<exists>m. Cancelled = RecoveryRequired m)"
    using context_transaction_is_atomic [OF ok] h unfolding r by blast
  then show ?thesis using h r by auto
qed

end
