(* ===== verification/Effect_Log.thy ===== *)
theory Effect_Log
  imports Core_Authority Journal_File "HOL-Library.Sublist"
begin

text \<open>
  The append-only log under the three effect journals of \<^verbatim>\<open>crates/agent-workspace/src\<close> (\<^verbatim>\<open>journal.rs\<close>,
  \<^verbatim>\<open>remote_journal.rs\<close>, \<^verbatim>\<open>process_journal.rs\<close>). The three files have the same open, append and recovery code over different
  transitions; a \<open>log_kind\<close> holds what differs: the texts, the versions, the validation of a transition, the fold and whether
  recovery counts records. As for the authority WAL, the JSON encoder and the digest are parameters (\<open>log_codec\<close>, with
  \<open>log_codec_ok\<close> for what the code relies on) and the answers of the operating system are inputs.

  The locale \<open>effect_log\<close> is the contract of a kind: a transition that passes the checks can be applied (so the
  \<open>expect\<close> of the append never panics) and keeps the table well-formed. Its lemmas show that a log read back is the fold of
  what was acknowledged, up to one append whose outcome the writer never learned.
\<close>

section \<open>Records, frames and the writer\<close>

record 't log_record =
  lr_version :: nat
  lr_seq :: nat
  lr_transition :: 't

record 't log_frame =
  lf_record :: "'t log_record"
  lf_checksum :: rust_str

record 't log_codec =
  lc_record_to_vec :: "'t log_record \<Rightarrow> byte list option"
  lc_frame_to_vec :: "'t log_frame \<Rightarrow> byte list option"
  lc_frame_from_slice :: "byte list \<Rightarrow> 't log_frame option"
  lc_sha256 :: "byte list \<Rightarrow> digest"

record 'm log_recovery =
  lg_last_seq :: nat
  lg_table :: 'm

record 'm log_writer =
  lw_file :: "byte list"
  lw_recovery :: "'m log_recovery"
  lw_failed :: "rust_str option"

record ('t, 'm) log_kind =
  lk_name :: rust_str
  lk_short :: rust_str
  lk_oversized :: rust_str
  lk_malformed :: rust_str
  lk_reserialize :: rust_str
  lk_gap :: rust_str
  lk_lock_attempts :: nat
  lk_version :: nat
  lk_versions :: "nat list"
  lk_counted :: bool
  lk_start :: 'm
  lk_validate :: "nat \<Rightarrow> 't \<Rightarrow> rust_str + unit"
  lk_fold :: "'m \<Rightarrow> 't \<Rightarrow> rust_str + unit"
  lk_refuse :: "rust_str \<Rightarrow> agent_error"
  lk_apply :: "'m \<Rightarrow> nat \<Rightarrow> 't \<Rightarrow> rust_str + 'm"

definition MAX_FRAME_BYTES :: nat where "MAX_FRAME_BYTES = 16384"
definition MAX_FILE_BYTES :: nat where "MAX_FILE_BYTES = 268435456"
definition MAX_RECORDS :: nat where "MAX_RECORDS = 65536"

definition log_checksum :: "'t log_codec \<Rightarrow> byte list \<Rightarrow> rust_str" where
  "log_checksum C bytes = digest_to_string (lc_sha256 C bytes)"

definition log_corrupt :: "('t, 'm) log_kind \<Rightarrow> rust_str \<Rightarrow> agent_error" where
  "log_corrupt K detail = RecoveryRequired (lk_name K @ lit '' is corrupt: '' @ detail)"

section \<open>Appending\<close>

definition log_encode :: "('t, 'm) log_kind \<Rightarrow> 't log_codec \<Rightarrow> 't log_record \<Rightarrow> byte list agent_result" where
  "log_encode K C r =
     result_bind (ok_or (Storage (lit ''serialize '' @ lk_short K @ lit '' record'')) (lc_record_to_vec C r)) (\<lambda>payload.
     ok_or (Storage (lit ''serialize '' @ lk_short K @ lit '' frame''))
       (lc_frame_to_vec C \<lparr>lf_record = r, lf_checksum = log_checksum C payload\<rparr>))"

definition log_append_record ::
  "('t, 'm) log_kind \<Rightarrow> 't log_codec \<Rightarrow> append_io \<Rightarrow> byte list \<Rightarrow> 't log_record \<Rightarrow> byte list \<times> unit agent_result" where
  "log_append_record K C io bytes r =
     (case log_encode K C r of
        Inl e \<Rightarrow> (bytes, Inl e)
      | Inr encoded \<Rightarrow>
          if MAX_FRAME_BYTES < length encoded
          then (bytes, Inl (Storage (lk_name K @ lit '' frame exceeds '' @ dec MAX_FRAME_BYTES @ lit '' bytes'')))
          else if \<not> io_stat_ok io then (bytes, Inl (Storage (lit ''stat '' @ lk_name K)))
          else (case checked_add_u64 (length bytes) (length encoded + 1) of
              None \<Rightarrow> (bytes, Inl (Storage (lk_name K @ lit '' size overflow'')))
            | Some projected \<Rightarrow>
                if MAX_FILE_BYTES < projected
                then (bytes, Inl (RecoveryRequired (lk_name K @ lit '' reached its '' @ dec MAX_FILE_BYTES
                       @ lit '' byte hard limit'')))
                else (case io_write_fault io of
                    None \<Rightarrow> (bytes @ encoded @ [10], Inr ())
                  | Some n \<Rightarrow> (bytes @ take n (encoded @ [10]), Inl (Storage (lit ''persist '' @ lk_name K))))))"

text \<open>
  In the source the last \<open>Inl\<close> below is a panic (\<open>expect("validated transition")\<close>); \<open>apply_total\<close> of the locale shows that it
  is not reached.
\<close>

definition log_append ::
  "('t, 'm) log_kind \<Rightarrow> 't log_codec \<Rightarrow> append_io \<Rightarrow> 'm log_writer \<Rightarrow> 't \<Rightarrow> 'm log_writer \<times> unit agent_result" where
  "log_append K C io W t =
     (case lk_validate K (lk_version K) t of Inl m \<Rightarrow> (W, Inl (InvalidRequest m)) | Inr () \<Rightarrow>
     (case lw_failed W of Some error \<Rightarrow> (W, Inl (Storage error)) | None \<Rightarrow>
      if MAX_RECORDS \<le> lg_last_seq (lw_recovery W)
      then (W, Inl (RecoveryRequired (lk_name K @ lit '' reached its '' @ dec MAX_RECORDS @ lit '' record recovery limit'')))
      else
     (case lk_fold K (lg_table (lw_recovery W)) t of Inl m \<Rightarrow> (W, Inl (lk_refuse K m)) | Inr () \<Rightarrow>
     (case checked_add_u64 (lg_last_seq (lw_recovery W)) 1 of
        None \<Rightarrow> (W, Inl (RecoveryRequired (lk_name K @ lit '' sequence exhausted'')))
      | Some seq \<Rightarrow>
          (case log_append_record K C io (lw_file W)
                  \<lparr>lr_version = lk_version K, lr_seq = seq, lr_transition = t\<rparr> of
             (bytes, Inl error) \<Rightarrow>
               (let message = lk_name K @ lit '' failed permanently: '' @ error_display error
                in (W\<lparr>lw_file := bytes, lw_failed := Some message\<rparr>, Inl (Storage message)))
           | (bytes, Inr ()) \<Rightarrow>
               (case lk_apply K (lg_table (lw_recovery W)) (lk_version K) t of
                  Inl m \<Rightarrow> (W\<lparr>lw_file := bytes\<rparr>, Inl (Storage m))
                | Inr table \<Rightarrow>
                    (W\<lparr>lw_file := bytes, lw_recovery := \<lparr>lg_last_seq = seq, lg_table = table\<rparr>\<rparr>, Inr ())))))))"

section \<open>Recovery\<close>

definition read_frame :: "byte list \<Rightarrow> byte list \<times> byte list" where
  "read_frame bytes =
     (let chunk = takeWhile (\<lambda>b. b \<noteq> 10) bytes;
          line = (if length chunk < length bytes then chunk @ [10] else chunk);
          taken = take (MAX_FRAME_BYTES + 2) line
      in (taken, drop (length taken) bytes))"

lemma read_frame_eq: "read_frame = read_until_newline"
  by (rule ext) (simp add: read_frame_def read_until_newline_def MAX_FRAME_BYTES_def MAX_OPERATION_JOURNAL_FRAME_BYTES_def)

definition log_decode :: "('t, 'm) log_kind \<Rightarrow> 't log_codec \<Rightarrow> byte list \<Rightarrow> rust_str + 't log_record" where
  "log_decode K C bytes =
     (case lc_frame_from_slice C bytes of
        None \<Rightarrow> Inl (lk_malformed K)
      | Some frame \<Rightarrow>
          (case lc_record_to_vec C (lf_record frame) of
             None \<Rightarrow> Inl (lk_reserialize K)
           | Some payload \<Rightarrow>
               if lf_checksum frame \<noteq> log_checksum C payload then Inl (lit ''checksum mismatch'')
               else Inr (lf_record frame)))"

definition log_step :: "('t, 'm) log_kind \<Rightarrow> 'm log_recovery \<Rightarrow> 't log_record \<Rightarrow> rust_str + 'm log_recovery" where
  "log_step K st r =
     (if lr_version r \<notin> set (lk_versions K) then Inl (lit ''unsupported version'')
      else if lr_seq r \<noteq> lg_last_seq st + 1 then Inl (lk_gap K)
      else
        result_bind (lk_validate K (lr_version r) (lr_transition r)) (\<lambda>_.
        result_bind (lk_fold K (lg_table st) (lr_transition r)) (\<lambda>_.
        result_bind (lk_apply K (lg_table st) (lr_version r) (lr_transition r)) (\<lambda>table.
          if lk_counted K \<and> MAX_RECORDS < lr_seq r then Inl (lit ''record recovery limit exceeded'')
          else Inr \<lparr>lg_last_seq = lr_seq r, lg_table = table\<rparr>))))"

function log_recover_loop ::
  "('t, 'm) log_kind \<Rightarrow> 't log_codec \<Rightarrow> nat \<Rightarrow> 'm log_recovery \<Rightarrow> nat \<Rightarrow> nat \<Rightarrow> byte list
     \<Rightarrow> ('m log_recovery \<times> nat \<times> bool) agent_result" where
  "log_recover_loop K C sz st offset last_good remaining =
     (if remaining = [] then Inr (st, last_good, False)
      else case read_frame remaining of (bytes, rest) \<Rightarrow>
       (case checked_add_u64 offset (length bytes) of
          None \<Rightarrow> Inl (log_corrupt K (lit ''offset overflow''))
        | Some offset' \<Rightarrow>
            if last bytes \<noteq> 10
            then (if offset' = sz then Inr (st, last_good, True)
                  else Inl (log_corrupt K (lit ''partial middle frame'')))
            else if MAX_FRAME_BYTES + 1 < length bytes then Inl (log_corrupt K (lk_oversized K))
            else result_bind (map_err (log_corrupt K) (log_decode K C (butlast bytes))) (\<lambda>r.
              result_bind (map_err (log_corrupt K) (log_step K st r)) (\<lambda>st'.
                log_recover_loop K C sz st' offset' offset' rest))))"
  by pat_completeness auto
termination
  by (relation "measure (\<lambda>(K, C, sz, st, offset, lg, remaining). length remaining)")
     (simp_all add: read_frame_eq read_until_newline_shrinks)

declare log_recover_loop.simps [simp del]

definition log_initial :: "('t, 'm) log_kind \<Rightarrow> 'm log_recovery" where
  "log_initial K = \<lparr>lg_last_seq = 0, lg_table = lk_start K\<rparr>"

definition log_recover_file ::
  "('t, 'm) log_kind \<Rightarrow> 't log_codec \<Rightarrow> repair_outcome \<Rightarrow> byte list \<Rightarrow> byte list \<times> 'm log_recovery agent_result" where
  "log_recover_file K C repair bytes =
     (if MAX_FILE_BYTES < length bytes then (bytes, Inl (log_corrupt K (lit ''file exceeds hard limit'')))
      else (case log_recover_loop K C (length bytes) (log_initial K) 0 0 bytes of
          Inl e \<Rightarrow> (bytes, Inl e)
        | Inr (st, last_good, torn_tail) \<Rightarrow>
            if \<not> torn_tail then (bytes, Inr st)
            else (case repair of
                RepairOk \<Rightarrow> (take last_good bytes, Inr st)
              | TruncateFailed \<Rightarrow> (bytes, Inl (Storage (lit ''repair '' @ lk_name K @ lit '' tail'')))
              | RepairUnsynced \<Rightarrow> (take last_good bytes, Inl (Storage (lit ''repair '' @ lk_name K @ lit '' tail''))))))"

section \<open>Opening\<close>

text \<open>
  \<open>lo_lock i\<close>: whether the \<open>i\<close>-th attempt at the exclusive lock succeeds. The file is \<open>None\<close> before it is first created.
\<close>

record log_open_io =
  lo_open_ok :: bool
  lo_lock :: "nat \<Rightarrow> bool"
  lo_sync_file_ok :: bool
  lo_sync_directory_ok :: bool
  lo_repair :: repair_outcome
  lo_seek_ok :: bool

definition log_open ::
  "('t, 'm) log_kind \<Rightarrow> 't log_codec \<Rightarrow> log_open_io \<Rightarrow> byte list option \<Rightarrow> byte list option \<times> 'm log_writer agent_result" where
  "log_open K C io disk =
     (if \<not> lo_open_ok io then (disk, Inl (Storage (lit ''open '' @ lk_name K)))
      else let bytes = (case disk of Some b \<Rightarrow> b | None \<Rightarrow> []) in
        if \<not> list_ex (lo_lock io) [0..<lk_lock_attempts K]
        then (Some bytes, Inl (Storage (lit ''lock '' @ lk_name K @ lit '' exclusively'')))
        else if disk = None \<and> \<not> lo_sync_file_ok io then (Some bytes, Inl (Storage (lit ''sync new '' @ lk_name K)))
        else if disk = None \<and> \<not> lo_sync_directory_ok io
        then (Some bytes, Inl (Storage (lit ''sync '' @ lk_name K @ lit '' directory'')))
        else (case log_recover_file K C (lo_repair io) bytes of
            (bytes', Inl e) \<Rightarrow> (Some bytes', Inl e)
          | (bytes', Inr st) \<Rightarrow>
              if \<not> lo_seek_ok io then (Some bytes', Inl (Storage (lit ''seek '' @ lk_name K)))
              else (Some bytes', Inr \<lparr>lw_file = bytes', lw_recovery = st, lw_failed = None\<rparr>)))"

section \<open>What a file holds\<close>

text \<open>
  \<open>log_codec_ok\<close>: serialisation does not fail, and a written frame parses back and has no line feed. \<open>log_text\<close> is the text
  of a list of records, \<open>log_replay\<close> the fold of recovery over them.
\<close>

definition log_codec_ok :: "'t log_codec \<Rightarrow> bool" where
  "log_codec_ok C \<longleftrightarrow>
     (\<forall>r. lc_record_to_vec C r \<noteq> None)
   \<and> (\<forall>f. \<exists>b. lc_frame_to_vec C f = Some b \<and> lc_frame_from_slice C b = Some f \<and> 10 \<notin> set b)"

fun log_text :: "('t, 'm) log_kind \<Rightarrow> 't log_codec \<Rightarrow> 't log_record list \<Rightarrow> byte list option" where
  "log_text K C [] = Some []"
| "log_text K C (r # rs) =
     (case log_encode K C r of
        Inl _ \<Rightarrow> None
      | Inr b \<Rightarrow> if MAX_FRAME_BYTES < length b then None else map_option (\<lambda>rest. b @ [10] @ rest) (log_text K C rs))"

fun log_replay :: "('t, 'm) log_kind \<Rightarrow> 'm log_recovery \<Rightarrow> 't log_record list \<Rightarrow> rust_str + 'm log_recovery" where
  "log_replay K st [] = Inr st"
| "log_replay K st (r # rs) = result_bind (log_step K st r) (\<lambda>st'. log_replay K st' rs)"

definition log_torn :: "byte list \<Rightarrow> bool" where
  "log_torn tail \<longleftrightarrow> 10 \<notin> set tail \<and> length tail \<le> MAX_FRAME_BYTES"

definition log_holds :: "('t, 'm) log_kind \<Rightarrow> 't log_codec \<Rightarrow> byte list \<Rightarrow> byte list \<Rightarrow> 'm log_recovery \<Rightarrow> bool" where
  "log_holds K C bytes tail st \<longleftrightarrow> (\<exists>rs body. log_text K C rs = Some body \<and> bytes = body @ tail \<and> log_torn tail
     \<and> log_replay K (log_initial K) rs = Inr st \<and> length bytes \<le> MAX_FILE_BYTES)"

definition log_next :: "('t, 'm) log_kind \<Rightarrow> 'm log_recovery \<Rightarrow> 't \<Rightarrow> rust_str + 'm log_recovery" where
  "log_next K st t = log_step K st \<lparr>lr_version = lk_version K, lr_seq = lg_last_seq st + 1, lr_transition = t\<rparr>"

fun log_nexts :: "('t, 'm) log_kind \<Rightarrow> 'm log_recovery \<Rightarrow> 't list \<Rightarrow> rust_str + 'm log_recovery" where
  "log_nexts K st [] = Inr st"
| "log_nexts K st (t # ts) = result_bind (log_next K st t) (\<lambda>st'. log_nexts K st' ts)"

text \<open>
  The invariant of an open log: the file holds exactly the fold, and once an append has failed it holds the fold or the fold
  with that one transition, with a torn line behind it at most.
\<close>

definition log_ok :: "('t, 'm) log_kind \<Rightarrow> 't log_codec \<Rightarrow> 'm log_writer \<Rightarrow> bool" where
  "log_ok K C W \<longleftrightarrow> (case lw_failed W of
     None \<Rightarrow> log_holds K C (lw_file W) [] (lw_recovery W)
   | Some _ \<Rightarrow> (\<exists>tail st. log_holds K C (lw_file W) tail st
       \<and> (st = lw_recovery W \<or> (\<exists>t. log_next K (lw_recovery W) t = Inr st))))"

text \<open>\<open>log_ok_with S\<close>: the same where only transitions of \<open>S\<close> were appended.\<close>

definition log_ok_with :: "'t set \<Rightarrow> ('t, 'm) log_kind \<Rightarrow> 't log_codec \<Rightarrow> 'm log_writer \<Rightarrow> bool" where
  "log_ok_with S K C W \<longleftrightarrow> (case lw_failed W of
     None \<Rightarrow> log_holds K C (lw_file W) [] (lw_recovery W)
   | Some _ \<Rightarrow> (\<exists>tail st. log_holds K C (lw_file W) tail st
       \<and> (st = lw_recovery W \<or> (\<exists>t\<in>S. log_next K (lw_recovery W) t = Inr st))))"

lemma log_ok_UNIV: "log_ok_with UNIV K C W \<longleftrightarrow> log_ok K C W"
  by (simp add: log_ok_def log_ok_with_def split: option.split)

lemma log_ok_failedI:
  assumes "lw_failed W \<noteq> None" "log_holds K C (lw_file W) tail st" "st = lw_recovery W \<or> t \<in> S \<and> log_next K (lw_recovery W) t = Inr st"
  shows "log_ok_with S K C W"
  using assms unfolding log_ok_with_def by (cases "lw_failed W") (simp_all, blast)

fun log_run :: "('t, 'm) log_kind \<Rightarrow> 't log_codec \<Rightarrow> 'm log_writer \<Rightarrow> (append_io \<times> 't) list \<Rightarrow> 'm log_writer" where
  "log_run K C W [] = W"
| "log_run K C W ((io, t) # calls) = log_run K C (fst (log_append K C io W t)) calls"

fun log_acked :: "('t, 'm) log_kind \<Rightarrow> 't log_codec \<Rightarrow> 'm log_writer \<Rightarrow> (append_io \<times> 't) list \<Rightarrow> 't list" where
  "log_acked K C W [] = []"
| "log_acked K C W ((io, t) # calls) =
     (case log_append K C io W t of
        (W', Inr ()) \<Rightarrow> t # log_acked K C W' calls
      | (W', Inl e) \<Rightarrow> log_acked K C W' calls)"

text \<open>The call whose failed append fenced the log, if there was one.\<close>

definition fenced_by :: "('t, 'm) log_kind \<Rightarrow> 't log_codec \<Rightarrow> 'm log_writer \<Rightarrow> (append_io \<times> 't) list \<Rightarrow> 't \<Rightarrow> bool" where
  "fenced_by K C W calls t \<longleftrightarrow> (\<exists>pre io post W' e. calls = pre @ (io, t) # post \<and> lw_failed (log_run K C W pre) = None
     \<and> log_append K C io (log_run K C W pre) t = (W', Inl e) \<and> lw_failed W' \<noteq> None)"

text \<open>
  The lifetimes of a journal file: each session opens it, with its own failures, and appends. The second result is what all
  sessions acknowledged. A session that cannot open the file does nothing, but may have repaired its tail.
\<close>

fun log_sessions ::
  "('t, 'm) log_kind \<Rightarrow> 't log_codec \<Rightarrow> byte list option \<Rightarrow> (log_open_io \<times> (append_io \<times> 't) list) list \<Rightarrow> byte list option \<times> 't list" where
  "log_sessions K C disk [] = (disk, [])"
| "log_sessions K C disk ((io, calls) # sessions) =
     (case log_open K C io disk of
        (disk', Inl e) \<Rightarrow> log_sessions K C disk' sessions
      | (disk', Inr W) \<Rightarrow>
          (case log_sessions K C (Some (lw_file (log_run K C W calls))) sessions of
             (disk'', acked) \<Rightarrow> (disk'', log_acked K C W calls @ acked)))"

definition log_disk :: "('t, 'm) log_kind \<Rightarrow> 't log_codec \<Rightarrow> byte list option \<Rightarrow> 'm log_recovery \<Rightarrow> bool" where
  "log_disk K C disk st \<longleftrightarrow> (\<exists>tail. log_holds K C (case disk of Some bytes \<Rightarrow> bytes | None \<Rightarrow> []) tail st)"

section \<open>Reading back\<close>

lemma log_encode_Inr:
  assumes "log_codec_ok C"
  obtains b where "log_encode K C r = Inr b" "10 \<notin> set b" "log_decode K C b = Inr r"
proof -
  obtain p where p: "lc_record_to_vec C r = Some p" using assms by (auto simp: log_codec_ok_def)
  have "\<exists>b. lc_frame_to_vec C \<lparr>lf_record = r, lf_checksum = log_checksum C p\<rparr> = Some b
     \<and> lc_frame_from_slice C b = Some \<lparr>lf_record = r, lf_checksum = log_checksum C p\<rparr> \<and> 10 \<notin> set b"
    using assms by (simp add: log_codec_ok_def)
  then show ?thesis using p that by (auto simp: log_encode_def log_decode_def)
qed

lemma read_frame_line:
  assumes "10 \<notin> set b" "length b \<le> MAX_FRAME_BYTES"
  shows "read_frame (b @ 10 # rest) = (b @ [10], rest)"
proof -
  have "takeWhile (\<lambda>x. x \<noteq> 10) (b @ 10 # rest) = b"
    using assms(1) by (subst takeWhile_append2) auto
  then show ?thesis using assms(2) by (simp add: read_frame_def Let_def)
qed

lemma read_frame_torn:
  assumes "10 \<notin> set b" "length b \<le> MAX_FRAME_BYTES"
  shows "read_frame b = (b, [])"
proof -
  have "takeWhile (\<lambda>x. x \<noteq> 10) b = b" using assms(1) by (auto simp: takeWhile_eq_all_conv)
  then show ?thesis using assms(2) by (simp add: read_frame_def Let_def del: takeWhile_eq_all_conv)
qed

lemma log_recover_torn:
  assumes "10 \<notin> set b" "b \<noteq> []" "length b \<le> MAX_FRAME_BYTES" "offset + length b = sz" "sz \<le> u64_max"
  shows "log_recover_loop K C sz st offset lg b = Inr (st, lg, True)"
proof -
  have "last b \<noteq> 10" using assms(1,2) last_in_set by metis
  then show ?thesis
    using assms by (subst log_recover_loop.simps) (simp add: read_frame_torn checked_add_u64_def)
qed

lemma log_recover_Nil [simp]: "log_recover_loop K C sz st offset lg [] = Inr (st, lg, False)"
  by (simp add: log_recover_loop.simps)

lemma log_recover_records:
  assumes "log_codec_ok C" "log_text K C rs = Some body" "log_replay K st rs = Inr st'" "log_torn tail"
    "sz = offset + length body + length tail" "sz \<le> u64_max"
  shows "log_recover_loop K C sz st offset offset (body @ tail) = Inr (st', offset + length body, tail \<noteq> [])"
  using assms
proof (induction rs arbitrary: st offset body)
  case Nil
  then show ?case
    by (cases "tail = []") (simp_all add: log_torn_def log_recover_torn)
next
  case (Cons r rs)
  obtain b where b: "log_encode K C r = Inr b" "10 \<notin> set b" "log_decode K C b = Inr r"
    using log_encode_Inr [OF Cons.prems(1)] .
  from Cons.prems(2) b(1) obtain rest where rest: "log_text K C rs = Some rest" "body = b @ 10 # rest"
    "length b \<le> MAX_FRAME_BYTES" by (auto split: if_splits)
  from Cons.prems(3) obtain st1 where st1: "log_step K st r = Inr st1" "log_replay K st1 rs = Inr st'" by auto
  have "log_recover_loop K C sz st1 (Suc (offset + length b)) (Suc (offset + length b)) (rest @ tail)
      = Inr (st', Suc (offset + length b) + length rest, tail \<noteq> [])"
    using Cons.prems rest st1 by (intro Cons.IH) auto
  then show ?case
    using Cons.prems(5,6) rest b st1
    by (subst log_recover_loop.simps) (simp add: read_frame_line checked_add_u64_def)
qed

lemma log_recover_holds:
  assumes "log_codec_ok C" "log_holds K C bytes tail st"
  shows "log_recover_file K C RepairOk bytes = (take (length bytes - length tail) bytes, Inr st)"
proof -
  obtain rs body where h: "log_text K C rs = Some body" "bytes = body @ tail" "log_torn tail"
    "log_replay K (log_initial K) rs = Inr st" "length bytes \<le> MAX_FILE_BYTES"
    using assms(2) by (auto simp: log_holds_def)
  have "length bytes \<le> u64_max" using h(5) by (simp add: MAX_FILE_BYTES_def u64_max_def)
  then have "log_recover_loop K C (length bytes) (log_initial K) 0 0 bytes = Inr (st, length body, tail \<noteq> [])"
    using log_recover_records [OF assms(1) h(1,4,3), of "length bytes" 0] h(2) by simp
  then show ?thesis using h(2,5) by (auto simp: log_recover_file_def)
qed

lemma log_recover_any:
  "log_recover_file K C repair bytes = (bytes', Inr st) \<Longrightarrow> log_recover_file K C RepairOk bytes = (bytes', Inr st)"
  by (auto simp: log_recover_file_def split: if_splits sum.splits repair_outcome.splits)

definition log_open_fine :: "log_open_io \<Rightarrow> bool" where
  "log_open_fine io \<longleftrightarrow> lo_open_ok io \<and> lo_lock io 0 \<and> lo_sync_file_ok io \<and> lo_sync_directory_ok io
     \<and> lo_repair io = RepairOk \<and> lo_seek_ok io"

lemma log_open_total:
  assumes "log_codec_ok C" "log_open_fine io" "0 < lk_lock_attempts K"
    "log_holds K C (case disk of Some b \<Rightarrow> b | None \<Rightarrow> []) tail st"
  shows "let old = (case disk of Some b \<Rightarrow> b | None \<Rightarrow> []); bytes = take (length old - length tail) old
     in log_open K C io disk = (Some bytes, Inr \<lparr>lw_file = bytes, lw_recovery = st, lw_failed = None\<rparr>)"
proof -
  have lock: "list_ex (lo_lock io) [0..<lk_lock_attempts K]"
    using assms(2,3) by (auto simp: list_ex_iff log_open_fine_def)
  show ?thesis
    using assms(2) lock log_recover_holds [OF assms(1,4)]
    by (auto simp: log_open_def Let_def log_open_fine_def)
qed

lemma log_reopen:
  assumes "log_codec_ok C" "log_open_fine io" "0 < lk_lock_attempts K" "log_holds K C bytes tail st"
  obtains W where "log_open K C io (Some bytes) = (Some (lw_file W), Inr W)" "lw_recovery W = st" "lw_failed W = None"
  using log_open_total [OF assms(1,2,3), of "Some bytes" tail st] assms(4) that
    [of "\<lparr>lw_file = take (length bytes - length tail) bytes, lw_recovery = st, lw_failed = None\<rparr>"] by (simp add: Let_def)

lemma log_holds_empty [simp]: "log_holds K C [] [] (log_initial K)"
  unfolding log_holds_def by (intro exI [of _ "[]"]) (simp add: log_torn_def)

lemma log_text_snoc:
  assumes "log_text K C rs = Some body" "log_encode K C r = Inr b" "length b \<le> MAX_FRAME_BYTES"
  shows "log_text K C (rs @ [r]) = Some (body @ b @ [10])"
  using assms by (induction rs arbitrary: body) (auto split: sum.splits if_splits)

lemma log_replay_snoc: "log_replay K st (rs @ [r]) = result_bind (log_replay K st rs) (\<lambda>st'. log_step K st' r)"
  by (induction rs arbitrary: st) (auto simp: result_bind_assoc)

lemma log_holds_snoc:
  assumes "log_holds K C bytes [] st" "log_encode K C r = Inr b" "length b \<le> MAX_FRAME_BYTES" "log_step K st r = Inr st'"
    "length bytes + length b + 1 \<le> MAX_FILE_BYTES"
  shows "log_holds K C (bytes @ b @ [10]) [] st'"
proof -
  obtain rs where h: "log_text K C rs = Some bytes" "log_replay K (log_initial K) rs = Inr st"
    using assms(1) by (auto simp: log_holds_def)
  show ?thesis unfolding log_holds_def
    using log_text_snoc [OF h(1) assms(2,3)] h(2) assms(4,5) by (intro exI [of _ "rs @ [r]"]) (auto simp: log_replay_snoc log_torn_def)
qed

lemma log_holds_torn:
  assumes "log_holds K C bytes [] st" "10 \<notin> set b" "length b \<le> MAX_FRAME_BYTES" "length bytes + length b + 1 \<le> MAX_FILE_BYTES"
    "n \<le> length b"
  shows "log_holds K C (bytes @ take n b) (take n b) st"
  using assms by (fastforce simp: log_holds_def log_torn_def dest: in_set_takeD)

lemma log_append_record_cases:
  assumes "log_append_record K C io bytes r = (bytes', res)" "log_encode K C r = Inr b"
  shows "(bytes' = bytes \<and> (\<exists>e. res = Inl e))
     \<or> (length b \<le> MAX_FRAME_BYTES \<and> length bytes + length b + 1 \<le> MAX_FILE_BYTES
        \<and> (bytes' = bytes @ b @ [10] \<or> (\<exists>n e. bytes' = bytes @ take n b \<and> n \<le> length b \<and> res = Inl e)))"
proof (cases "length b \<le> MAX_FRAME_BYTES \<and> io_stat_ok io \<and> length bytes + length b + 1 \<le> MAX_FILE_BYTES")
  case False
  then show ?thesis using assms by (auto simp: log_append_record_def split: if_splits option.splits)
next
  case True
  then have "length bytes + (length b + 1) \<le> u64_max" by (simp add: MAX_FILE_BYTES_def u64_max_def)
  then have add: "checked_add_u64 (length bytes) (length b + 1) = Some (length bytes + (length b + 1))" by simp
  have run: "log_append_record K C io bytes r = (case io_write_fault io of
        None \<Rightarrow> (bytes @ b @ [10], Inr ())
      | Some n \<Rightarrow> (bytes @ take n (b @ [10]), Inl (Storage (lit ''persist '' @ lk_name K))))"
    using True unfolding log_append_record_def assms(2) sum.case add by simp
  show ?thesis
  proof (cases "io_write_fault io")
    case (Some n)
    then show ?thesis using assms(1) True unfolding run by (cases "n \<le> length b") auto
  qed (use assms(1) True in \<open>auto simp: run\<close>)
qed

lemma log_holds_body: "log_holds K C bytes tail st \<Longrightarrow> log_holds K C (take (length bytes - length tail) bytes) [] st"
  by (auto simp: log_holds_def log_torn_def)

lemma log_open_keeps:
  assumes "log_codec_ok C" "log_disk K C disk st" "log_open K C io disk = (disk', res)"
  shows "log_disk K C disk' st"
proof -
  define bytes where "bytes = (case disk of Some b \<Rightarrow> b | None \<Rightarrow> [])"
  obtain tail where h: "log_holds K C bytes tail st" using assms(2) by (auto simp: log_disk_def bytes_def)
  have same: "log_disk K C (Some bytes) st" using h by (auto simp: log_disk_def)
  have body: "log_disk K C (Some (take (length bytes - length tail) bytes)) st"
    using log_holds_body [OF h] by (auto simp: log_disk_def)
  obtain bytes' r where r: "log_recover_file K C (lo_repair io) bytes = (bytes', r)" by fastforce
  have "bytes' = bytes \<or> bytes' = take (length bytes - length tail) bytes"
  proof (cases r)
    case (Inr st')
    then show ?thesis using log_recover_any r log_recover_holds [OF assms(1) h] by fastforce
  next
    case (Inl e)
    then show ?thesis using r log_recover_holds [OF assms(1) h]
      by (auto simp: log_recover_file_def split: if_splits sum.splits repair_outcome.splits prod.splits)
  qed
  then have "disk' = disk \<or> disk' = Some bytes \<or> disk' = Some (take (length bytes - length tail) bytes)"
    using assms(3) r by (auto simp: log_open_def Let_def bytes_def [symmetric] split: if_splits sum.splits)
  then show ?thesis using assms(2) same body by auto
qed

lemma log_open_state:
  assumes "log_codec_ok C" "log_disk K C disk st" "log_open K C io disk = (disk', Inr W)"
  shows "lw_recovery W = st" "lw_failed W = None" "log_holds K C (lw_file W) [] st"
proof -
  define bytes where "bytes = (case disk of Some b \<Rightarrow> b | None \<Rightarrow> [])"
  obtain tail where h: "log_holds K C bytes tail st" using assms(2) by (auto simp: log_disk_def bytes_def)
  obtain bytes' st' where r: "log_recover_file K C (lo_repair io) bytes = (bytes', Inr st')"
    "W = \<lparr>lw_file = bytes', lw_recovery = st', lw_failed = None\<rparr>"
    using assms(3) by (auto simp: log_open_def Let_def bytes_def [symmetric] split: if_splits prod.splits sum.splits)
  have "bytes' = take (length bytes - length tail) bytes \<and> st' = st"
    using log_recover_any [OF r(1)] log_recover_holds [OF assms(1) h] by simp
  then show "lw_recovery W = st" "lw_failed W = None" "log_holds K C (lw_file W) [] st"
    using r(2) log_holds_body [OF h] by simp_all
qed

lemma log_append_failed: "lw_failed W = Some e \<Longrightarrow> \<exists>err. log_append K C io W t = (W, Inl err)"
  by (auto simp: log_append_def split: sum.splits)

lemma log_run_failed:
  assumes "lw_failed W = Some e"
  shows "log_run K C W calls = W \<and> log_acked K C W calls = []"
proof (induction calls)
  case (Cons call calls)
  obtain io t where c: "call = (io, t)" by fastforce
  obtain err where "log_append K C io W t = (W, Inl err)" using log_append_failed [OF assms, of K C io t] by blast
  then show ?case using Cons c by simp
qed simp

section \<open>The contract of a kind\<close>

locale effect_log =
  fixes K :: "('t, 'm) log_kind" and table_ok :: "'m \<Rightarrow> bool"
  assumes apply_total: "lk_fold K m t = Inr () \<Longrightarrow> \<exists>m'. lk_apply K m v t = Inr m'"
    and version_known: "lk_version K \<in> set (lk_versions K)"
    and table_start: "table_ok (lk_start K)"
    and table_apply: "\<lbrakk>table_ok m; lk_validate K v t = Inr (); lk_fold K m t = Inr (); lk_apply K m v t = Inr m'\<rbrakk>
      \<Longrightarrow> table_ok m'"
begin

lemma step_table: "log_step K st r = Inr st' \<Longrightarrow> table_ok (lg_table st) \<Longrightarrow> table_ok (lg_table st')"
  using table_apply by (auto simp: log_step_def split: if_splits)

lemma replay_table: "log_replay K st rs = Inr st' \<Longrightarrow> table_ok (lg_table st) \<Longrightarrow> table_ok (lg_table st')"
  by (induction rs arbitrary: st) (auto intro: step_table)

lemma holds_table: "log_holds K C bytes tail st \<Longrightarrow> table_ok (lg_table st)"
  using replay_table table_start by (fastforce simp: log_holds_def log_initial_def)

lemma next_exists:
  assumes "lk_validate K (lk_version K) t = Inr ()" "lk_fold K (lg_table st) t = Inr ()" "lg_last_seq st < MAX_RECORDS"
  obtains table where "lk_apply K (lg_table st) (lk_version K) t = Inr table"
    "log_next K st t = Inr \<lparr>lg_last_seq = lg_last_seq st + 1, lg_table = table\<rparr>"
proof -
  obtain table where "lk_apply K (lg_table st) (lk_version K) t = Inr table" using apply_total [OF assms(2)] by blast
  then show ?thesis using that assms version_known by (simp add: log_next_def log_step_def)
qed

lemma append_ok_with:
  assumes "log_codec_ok C" "log_ok_with S K C W" "log_append K C io W t = (W', res)" "t \<in> S"
  shows "log_ok_with S K C W'
     \<and> (case res of Inr _ \<Rightarrow> log_next K (lw_recovery W) t = Inr (lw_recovery W') | Inl _ \<Rightarrow> lw_recovery W' = lw_recovery W)"
proof (cases "lk_validate K (lk_version K) t = Inr () \<and> lw_failed W = None \<and> lg_last_seq (lw_recovery W) < MAX_RECORDS
    \<and> lk_fold K (lg_table (lw_recovery W)) t = Inr ()")
  case False
  then have "W' = W \<and> (\<exists>e. res = Inl e)"
    using assms(3) by (cases "lk_validate K (lk_version K) t"; cases "lk_fold K (lg_table (lw_recovery W)) t")
      (auto simp: log_append_def split: option.splits if_splits)
  then show ?thesis using assms(2) by auto
next
  case True
  let ?st = "lw_recovery W" and ?r = "\<lparr>lr_version = lk_version K, lr_seq = lg_last_seq (lw_recovery W) + 1, lr_transition = t\<rparr>"
  obtain table where nx: "lk_apply K (lg_table ?st) (lk_version K) t = Inr table"
    "log_next K ?st t = Inr \<lparr>lg_last_seq = lg_last_seq ?st + 1, lg_table = table\<rparr>"
    using next_exists True by blast
  have holds: "log_holds K C (lw_file W) [] ?st" using assms(2) True by (simp add: log_ok_with_def)
  obtain b where b: "log_encode K C ?r = Inr b" "10 \<notin> set b" using log_encode_Inr [OF assms(1)] by metis
  have seq: "checked_add_u64 (lg_last_seq ?st) 1 = Some (lg_last_seq ?st + 1)"
    using True by (simp add: MAX_RECORDS_def u64_max_def)
  obtain bytes r1 where ar: "log_append_record K C io (lw_file W) ?r = (bytes, r1)" by fastforce
  have run: "log_append K C io W t = (case r1 of
      Inl e \<Rightarrow> (W\<lparr>lw_file := bytes, lw_failed := Some (lk_name K @ lit '' failed permanently: '' @ error_display e)\<rparr>,
                Inl (Storage (lk_name K @ lit '' failed permanently: '' @ error_display e)))
    | Inr _ \<Rightarrow> (W\<lparr>lw_file := bytes, lw_recovery := \<lparr>lg_last_seq = lg_last_seq ?st + 1, lg_table = table\<rparr>\<rparr>, Inr ()))"
    using True ar nx(1) unfolding log_append_def seq by (cases r1) (simp_all add: Let_def)
  have step: "log_step K ?st ?r = Inr \<lparr>lg_last_seq = lg_last_seq ?st + 1, lg_table = table\<rparr>"
    using nx(2) by (simp add: log_next_def)
  consider (same) e where "bytes = lw_file W" "r1 = Inl e"
    | (stored) "bytes = lw_file W @ b @ [10]" "length b \<le> MAX_FRAME_BYTES" "length (lw_file W) + length b + 1 \<le> MAX_FILE_BYTES"
    | (part) n e where "bytes = lw_file W @ take n b" "n \<le> length b" "r1 = Inl e" "length b \<le> MAX_FRAME_BYTES"
        "length (lw_file W) + length b + 1 \<le> MAX_FILE_BYTES"
    using log_append_record_cases [OF ar b(1)] by blast
  then show ?thesis
  proof cases
    case same
    then show ?thesis using assms(3) log_ok_failedI [of W' K C "[]" ?st _ S] holds unfolding run by auto
  next
    case stored
    note h = log_holds_snoc [OF holds b(1) stored(2) step stored(3)]
    show ?thesis
    proof (cases r1)
      case (Inl e)
      then show ?thesis using assms(3) log_ok_failedI [OF _ _ disjI2, of W' K C "[]" _ t] h nx(2) stored(1) assms(4) unfolding run by auto
    next
      case (Inr u)
      then show ?thesis using assms(3) h nx(2) stored(1) True unfolding run by (auto simp: log_ok_with_def)
    qed
  next
    case part
    note h = log_holds_torn [OF holds b(2) part(4,5,2)]
    show ?thesis using assms(3) log_ok_failedI [of W' K C _ ?st _ S] h part(1,3) unfolding run by auto
  qed
qed

lemmas append_ok = append_ok_with [of C UNIV, unfolded log_ok_UNIV, OF _ _ _ UNIV_I] for C

lemma append_stores:
  assumes "lk_validate K (lk_version K) t = Inr ()" "lw_failed W = None" "lg_last_seq (lw_recovery W) < MAX_RECORDS"
    "lk_fold K (lg_table (lw_recovery W)) t = Inr ()"
    "log_encode K C \<lparr>lr_version = lk_version K, lr_seq = lg_last_seq (lw_recovery W) + 1, lr_transition = t\<rparr> = Inr b"
    "length b \<le> MAX_FRAME_BYTES" "length (lw_file W) + length b + 1 \<le> MAX_FILE_BYTES"
    "io_stat_ok io" "io_write_fault io = None"
  shows "\<exists>W'. log_append K C io W t = (W', Inr ()) \<and> lw_failed W' = None \<and> lw_file W' = lw_file W @ b @ [10]
     \<and> log_next K (lw_recovery W) t = Inr (lw_recovery W')"
proof -
  obtain table where nx: "lk_apply K (lg_table (lw_recovery W)) (lk_version K) t = Inr table"
    "log_next K (lw_recovery W) t = Inr \<lparr>lg_last_seq = lg_last_seq (lw_recovery W) + 1, lg_table = table\<rparr>"
    using next_exists assms(1,3,4) by blast
  have seq: "checked_add_u64 (lg_last_seq (lw_recovery W)) 1 = Some (lg_last_seq (lw_recovery W) + 1)"
    using assms(3) by (simp add: MAX_RECORDS_def u64_max_def)
  have add: "checked_add_u64 (length (lw_file W)) (length b + 1) = Some (length (lw_file W) + (length b + 1))"
    using assms(7) by (simp add: MAX_FILE_BYTES_def u64_max_def)
  have "log_append_record K C io (lw_file W)
      \<lparr>lr_version = lk_version K, lr_seq = lg_last_seq (lw_recovery W) + 1, lr_transition = t\<rparr> = (lw_file W @ b @ [10], Inr ())"
    using assms(6-9) unfolding log_append_record_def assms(5) sum.case add by simp
  then show ?thesis
    using assms(1-4) nx unfolding log_append_def seq by simp
qed

lemma run_ok:
  assumes "log_codec_ok C" "log_ok K C W"
  shows "log_ok K C (log_run K C W calls)
     \<and> log_nexts K (lw_recovery W) (log_acked K C W calls) = Inr (lw_recovery (log_run K C W calls))"
  using assms(2)
proof (induction calls arbitrary: W)
  case (Cons call calls)
  obtain io t where c: "call = (io, t)" by fastforce
  obtain W' res where a: "log_append K C io W t = (W', res)" by fastforce
  note ok = append_ok [OF assms(1) Cons.prems a]
  show ?case using Cons.IH [of W'] ok a unfolding c by (cases res) auto
qed simp

lemma open_ok:
  assumes "log_codec_ok C" "log_open K C io disk = (disk', Inr W)"
    "\<forall>bytes. disk = Some bytes \<longrightarrow> (\<exists>tail st. log_holds K C bytes tail st)"
  shows "log_ok K C W \<and> lw_failed W = None \<and> disk' = Some (lw_file W)"
    "\<And>bytes tail st. disk = Some bytes \<Longrightarrow> log_holds K C bytes tail st \<Longrightarrow> lw_recovery W = st"
    "disk = None \<Longrightarrow> lw_recovery W = log_initial K"
proof -
  define bytes where "bytes = (case disk of Some b \<Rightarrow> b | None \<Rightarrow> [])"
  obtain rest st where r: "log_recover_file K C (lo_repair io) bytes = (rest, Inr st)"
    "W = \<lparr>lw_file = rest, lw_recovery = st, lw_failed = None\<rparr>" "disk' = Some rest"
    using assms(2) by (auto simp: log_open_def Let_def bytes_def [symmetric] split: if_splits prod.splits sum.splits)
  note ok = log_recover_any [OF r(1)]
  have at: "rest = take (length bytes - length tail) bytes \<and> st = st'" if "log_holds K C bytes tail st'" for tail st'
    using ok log_recover_holds [OF assms(1) that] by simp
  obtain tail st' where h: "log_holds K C bytes tail st'"
    using assms(3) log_holds_empty by (cases disk) (auto simp: bytes_def simp del: log_holds_empty)
  have "log_holds K C rest [] st" using h at [OF h] by (auto simp: log_holds_def log_torn_def)
  then show "log_ok K C W \<and> lw_failed W = None \<and> disk' = Some (lw_file W)" using r(2,3) by (simp add: log_ok_def)
  show "lw_recovery W = st''" if "disk = Some bytes'" "log_holds K C bytes' tail' st''" for bytes' tail' st''
    using that at r(2) by (simp add: bytes_def)
  show "disk = None \<Longrightarrow> lw_recovery W = log_initial K" using at [of "[]" "log_initial K"] r(2) by (simp add: bytes_def)
qed

text \<open>The crash theorem: whatever a run left in the file reads back as what it acknowledged, or that and one append more.\<close>

lemma reads_back:
  assumes "log_codec_ok C" "log_ok K C W"
  shows "\<exists>bytes st. log_recover_file K C RepairOk (lw_file W) = (bytes, Inr st) \<and> table_ok (lg_table st)
     \<and> (st = lw_recovery W \<or> lw_failed W \<noteq> None \<and> (\<exists>t. log_next K (lw_recovery W) t = Inr st))"
proof (cases "lw_failed W")
  case None
  then have "log_holds K C (lw_file W) [] (lw_recovery W)" using assms(2) by (simp add: log_ok_def)
  then show ?thesis using log_recover_holds [OF assms(1)] holds_table by blast
next
  case (Some m)
  then obtain tail st where "log_holds K C (lw_file W) tail st"
    "st = lw_recovery W \<or> (\<exists>t. log_next K (lw_recovery W) t = Inr st)" using assms(2) by (auto simp: log_ok_def)
  then show ?thesis using log_recover_holds [OF assms(1)] holds_table Some by blast
qed

lemma next_table: "log_next K st t = Inr st' \<Longrightarrow> table_ok (lg_table st) \<Longrightarrow> table_ok (lg_table st')"
  unfolding log_next_def by (rule step_table)

lemma nexts_table: "log_nexts K st ts = Inr st' \<Longrightarrow> table_ok (lg_table st) \<Longrightarrow> table_ok (lg_table st')"
  by (induction ts arbitrary: st) (auto intro: next_table)

lemma nexts_keep:
  assumes "\<And>st t st'. table_ok (lg_table st) \<Longrightarrow> log_next K st t = Inr st' \<Longrightarrow> P st \<Longrightarrow> P st'"
    "log_nexts K st ts = Inr st'" "table_ok (lg_table st)" "P st"
  shows "P st'"
  using assms(2-) by (induction ts arbitrary: st) (auto dest: assms(1) next_table)

lemma nexts_establish:
  assumes keep: "\<And>st t st'. table_ok (lg_table st) \<Longrightarrow> log_next K st t = Inr st' \<Longrightarrow> P st \<Longrightarrow> P st'"
    and establish: "\<And>st st'. table_ok (lg_table st) \<Longrightarrow> log_next K st t = Inr st' \<Longrightarrow> P st'"
    and "log_nexts K st ts = Inr st'" "table_ok (lg_table st)" "t \<in> set ts"
  shows "P st'"
  using assms(3-)
proof (induction ts arbitrary: st)
  case (Cons u ts)
  then obtain st1 where st1: "log_next K st u = Inr st1" "log_nexts K st1 ts = Inr st'" by auto
  note ok = next_table [OF st1(1) Cons.prems(2)]
  show ?case
  proof (cases "u = t")
    case True
    then have "P st1" using establish st1(1) Cons.prems(2) by blast
    then show ?thesis by (intro nexts_keep [of P, OF _ st1(2) ok]) (rule keep)
  next
    case False
    then show ?thesis using Cons ok st1 by auto
  qed
qed simp

text \<open>
  What an acknowledged append establishes, and every later transition keeps, is found again by whoever opens the file next,
  wherever the run stopped.
\<close>

lemma reopened:
  assumes "log_codec_ok C" "log_ok K C W" "log_open K C io (Some (lw_file W)) = (disk, Inr W')"
  shows "lw_failed W' = None" "lw_recovery W' = lw_recovery W \<or> (\<exists>t. log_next K (lw_recovery W) t = Inr (lw_recovery W'))"
    "table_ok (lg_table (lw_recovery W'))"
proof -
  obtain tail st where h: "log_holds K C (lw_file W) tail st"
    "st = lw_recovery W \<or> (\<exists>t. log_next K (lw_recovery W) t = Inr st)"
    using assms(2) by (auto simp: log_ok_def split: option.splits)
  then have "lw_recovery W' = st" using open_ok(2) [OF assms(1,3)] by blast
  then show "lw_recovery W' = lw_recovery W \<or> (\<exists>t. log_next K (lw_recovery W) t = Inr (lw_recovery W'))"
    "table_ok (lg_table (lw_recovery W'))" using h holds_table by auto
  show "lw_failed W' = None" using open_ok(1) [OF assms(1,3)] h(1) by blast
qed

lemma acknowledged_survives:
  assumes "log_codec_ok C" "log_ok K C W" "lw_failed W = None" "t \<in> set (log_acked K C W calls)"
    "log_open K C io (Some (lw_file (log_run K C W calls))) = (disk, Inr W')"
    and keep: "\<And>st t st'. table_ok (lg_table st) \<Longrightarrow> log_next K st t = Inr st' \<Longrightarrow> P st \<Longrightarrow> P st'"
    and establish: "\<And>st st'. table_ok (lg_table st) \<Longrightarrow> log_next K st t = Inr st' \<Longrightarrow> P st'"
  shows "P (lw_recovery W')"
proof -
  let ?R = "log_run K C W calls"
  note run = run_ok [OF assms(1,2), of calls]
  have ok: "table_ok (lg_table (lw_recovery W))" using holds_table assms(2,3) by (simp add: log_ok_def)
  have P: "P (lw_recovery ?R)"
    by (rule nexts_establish [of P t, OF _ _ conjunct2 [OF run] ok assms(4)]) (fact keep, fact establish)
  have "table_ok (lg_table (lw_recovery ?R))" using nexts_table [OF conjunct2 [OF run] ok] .
  then show ?thesis using reopened(2) [OF assms(1) conjunct1 [OF run] assms(5)] P by (auto intro: keep)
qed

lemma run_reads_back:
  assumes "log_codec_ok C" "log_holds K C (lw_file W) [] (lw_recovery W)" "lw_failed W = None"
  shows "\<exists>tail st. log_holds K C (lw_file (log_run K C W calls)) tail st
     \<and> (st = lw_recovery (log_run K C W calls)
        \<or> (\<exists>t. fenced_by K C W calls t \<and> log_next K (lw_recovery (log_run K C W calls)) t = Inr st))"
  using assms(2,3)
proof (induction calls arbitrary: W)
  case Nil
  then show ?case by auto
next
  case (Cons call calls)
  obtain io t where c: "call = (io, t)" by fastforce
  obtain W1 res where a: "log_append K C io W t = (W1, res)" by fastforce
  have "log_ok_with {t} K C W" using Cons.prems by (simp add: log_ok_with_def)
  from append_ok_with [OF assms(1) this a]
  have ok: "log_ok_with {t} K C W1" "case res of Inr _ \<Rightarrow> log_next K (lw_recovery W) t = Inr (lw_recovery W1) | Inl _ \<Rightarrow> lw_recovery W1 = lw_recovery W"
    by simp_all
  show ?case
  proof (cases "lw_failed W1")
    case None
    then have h: "log_holds K C (lw_file W1) [] (lw_recovery W1)" using ok(1) by (simp add: log_ok_with_def)
    have "fenced_by K C W (call # calls) u" if fb: "fenced_by K C W1 calls u" for u
    proof -
      obtain pre io' post W' e where f: "calls = pre @ (io', u) # post" "lw_failed (log_run K C W1 pre) = None"
        "log_append K C io' (log_run K C W1 pre) u = (W', Inl e)" "lw_failed W' \<noteq> None" using fb by (auto simp: fenced_by_def)
      show ?thesis unfolding fenced_by_def
        by (rule exI [of _ "call # pre"], rule exI [of _ io'], rule exI [of _ post], rule exI [of _ W'], rule exI [of _ e]) (use f a c in simp)
    qed
    then show ?thesis using Cons.IH [OF h None] a c by auto
  next
    case (Some m)
    have res: "\<exists>e. res = Inl e"
    proof (rule ccontr)
      assume "\<nexists>e. res = Inl e"
      then obtain u where "res = Inr u" by (cases res) auto
      then show False using a Some Cons.prems(2) by (auto simp: log_append_def Let_def split: sum.splits if_splits option.splits prod.splits)
    qed
    have fb: "fenced_by K C W (call # calls) t" unfolding fenced_by_def
      by (rule exI [of _ "[]"]) (use res a c Some Cons.prems(2) in auto)
    have run: "log_run K C W (call # calls) = W1" using log_run_failed [OF Some, of K C calls] a c by simp
    obtain tail st where "log_holds K C (lw_file W1) tail st" "st = lw_recovery W1 \<or> log_next K (lw_recovery W1) t = Inr st"
      using ok(1) Some by (auto simp: log_ok_with_def)
    then show ?thesis using fb unfolding run by blast
  qed
qed

lemma nexts_append:
  "log_nexts K st ts = Inr st1 \<Longrightarrow> log_nexts K st1 us = Inr st2 \<Longrightarrow> log_nexts K st (ts @ us) = Inr st2"
  by (induction ts arbitrary: st) auto

text \<open>Everything that any session acknowledged was stored, in order, among what the file holds at the end.\<close>

lemma sessions_store:
  assumes "log_codec_ok C" "log_disk K C disk st" "log_sessions K C disk sessions = (disk', acked)"
  shows "\<exists>ts st'. log_disk K C disk' st' \<and> log_nexts K st ts = Inr st' \<and> subseq acked ts"
  using assms(2,3)
proof (induction sessions arbitrary: disk st disk' acked)
  case Nil
  then show ?case by (auto intro!: exI [of _ "[]"])
next
  case (Cons session sessions)
  obtain io calls where s: "session = (io, calls)" by fastforce
  obtain d1 r1 where o: "log_open K C io disk = (d1, r1)" by fastforce
  show ?case
  proof (cases r1)
    case (Inl e)
    then show ?thesis using Cons.IH [OF log_open_keeps [OF assms(1) Cons.prems(1) o]] Cons.prems(2) o s by simp
  next
    case (Inr W)
    note w = log_open_state [OF assms(1) Cons.prems(1) o [unfolded Inr]]
    let ?R = "log_run K C W calls"
    have ok: "log_ok K C W" using w by (simp add: log_ok_def)
    have n: "log_nexts K st (log_acked K C W calls) = Inr (lw_recovery ?R)" using run_ok [OF assms(1) ok, of calls] w(1) by simp
    obtain tail st1 where h: "log_holds K C (lw_file ?R) tail st1" "st1 = lw_recovery ?R \<or> (\<exists>t. log_next K (lw_recovery ?R) t = Inr st1)"
      using run_reads_back [OF assms(1) _ w(2), of calls] w(1,3) by auto
    obtain us where us: "log_nexts K st (log_acked K C W calls @ us) = Inr st1"
    proof (cases "st1 = lw_recovery ?R")
      case True
      then show thesis using n that [of "[]"] by simp
    next
      case False
      then obtain t where "log_next K (lw_recovery ?R) t = Inr st1" using h(2) by blast
      then show thesis using nexts_append [OF n, of "[t]" st1] that [of "[t]"] by simp
    qed
    obtain acked' where rest: "log_sessions K C (Some (lw_file ?R)) sessions = (disk', acked')" "acked = log_acked K C W calls @ acked'"
      using Cons.prems(2) o Inr s by (auto split: prod.splits)
    have "log_disk K C (Some (lw_file ?R)) st1" using h(1) by (auto simp: log_disk_def)
    from Cons.IH [OF this rest(1)] obtain ts st' where ih: "log_disk K C disk' st'" "log_nexts K st1 ts = Inr st'" "subseq acked' ts" by blast
    have "subseq acked ((log_acked K C W calls @ us) @ ts)" using ih(3) rest(2) by (auto intro: list_emb_append_mono)
    then show ?thesis using ih(1) nexts_append [OF us ih(2)] by blast
  qed
qed

end

end
