(* ===== verification/Workspace_Journal.thy ===== *)
theory Workspace_Journal
  imports Effect_Log Effect_Intent
begin

text \<open>
  The workspace effect journal of \<^verbatim>\<open>crates/agent-workspace/src/journal.rs\<close>: the durable evidence of file replacements and
  directory creations. Every transaction is prepared once and gets at most one terminal. \<open>Uuid::parse_str\<close> (crate \<open>uuid\<close>) is
  the parameter \<open>parse_uuid\<close>.

  The interpretation \<open>workspace_log\<close> shows that the journal keeps its contract with \<open>evidence_ok\<close> for the table: one row for a
  transaction, every row as validated, one context for an operation and for an effect, at most sixteen rows for a context,
  and a committed identity exactly for directories.
\<close>

section \<open>Data\<close>

datatype workspace_entry_kind = EntryFile | EntryDirectory

record ws_prepared =
  wp_tx_id :: rust_str
  wp_context :: operation_effect_context
  wp_relative_target :: rust_str
  wp_temp_name :: rust_str
  wp_target_existed :: bool
  wp_before_hash :: rust_str
  wp_after_hash :: rust_str
  wp_bytes_before :: "nat option"
  wp_bytes_after :: "nat option"
  wp_entry_kind :: workspace_entry_kind

datatype ws_transition =
    WsPrepared ws_prepared
  | WsCommitted rust_str "rust_str option"
  | WsRolledBack rust_str

datatype tx_terminal = TxCommitted "rust_str option" | TxRolledBack

record tx_evidence =
  te_journal_version :: nat
  te_context :: operation_effect_context
  te_relative_target :: rust_str
  te_temp_name :: rust_str
  te_target_existed :: bool
  te_before_hash :: rust_str
  te_after_hash :: rust_str
  te_bytes_before :: "nat option"
  te_bytes_after :: "nat option"
  te_entry_kind :: workspace_entry_kind
  te_terminal :: "tx_terminal option"

type_synonym ws_table = "(rust_str \<times> tx_evidence) list"

definition LEGACY_JOURNAL_VERSION :: nat where "LEGACY_JOURNAL_VERSION = 1"
definition FILE_DIGEST_JOURNAL_VERSION :: nat where "FILE_DIGEST_JOURNAL_VERSION = 2"
definition WORKSPACE_JOURNAL_VERSION :: nat where "WORKSPACE_JOURNAL_VERSION = 3"
definition MAX_EFFECT_TRANSACTIONS :: nat where "MAX_EFFECT_TRANSACTIONS = 16"
definition MAX_REASON_BYTES :: nat where "MAX_REASON_BYTES = 4000"
definition MAX_MUTATION_BYTES :: nat where "MAX_MUTATION_BYTES = 4194304"

section \<open>Validation\<close>

definition clean_relative :: "rust_str \<Rightarrow> rust_str list agent_result" where
  "clean_relative relative = ok_or (InvalidRequest (lit ''path must stay inside workspace''))
     (collect_normal (path_components relative))"

definition ends_with :: "rust_str \<Rightarrow> rust_str \<Rightarrow> bool" where
  "ends_with s p \<longleftrightarrow> length p \<le> length s \<and> drop (length s - length p) s = p"

definition valid_hex_digest :: "rust_str \<Rightarrow> nat \<Rightarrow> bool" where
  "valid_hex_digest v expected_len \<longleftrightarrow> str_len v = expected_len \<and> list_all is_lower_hex (utf8_bytes v)"

definition is_ascii_alphanumeric :: "byte \<Rightarrow> bool" where
  "is_ascii_alphanumeric b \<longleftrightarrow> (48 \<le> b \<and> b \<le> 57) \<or> (65 \<le> b \<and> b \<le> 90) \<or> (97 \<le> b \<and> b \<le> 122)"

definition valid_entry_identity :: "rust_str \<Rightarrow> bool" where
  "valid_entry_identity v \<longleftrightarrow> v \<noteq> [] \<and> str_len v \<le> 160
     \<and> list_all (\<lambda>b. is_ascii_alphanumeric b \<or> b = 58 \<or> b = 45) (utf8_bytes v)"

definition staging_name :: "rust_str \<Rightarrow> rust_str" where
  "staging_name tx_id = lit ''.fa-'' @ tx_id @ lit ''.tmp''"

definition valid_temp_name :: "rust_str \<Rightarrow> bool" where
  "valid_temp_name name \<longleftrightarrow> str_len name \<le> 255 \<and> ends_with name (lit ''.tmp'') \<and> length (path_components name) = 1"

definition ws_validate_entry :: "nat \<Rightarrow> ws_prepared \<Rightarrow> rust_str + unit" where
  "ws_validate_entry version p =
     (case wp_entry_kind p of
        EntryDirectory \<Rightarrow>
          if version \<noteq> WORKSPACE_JOURNAL_VERSION \<or> wp_temp_name p \<noteq> [] \<or> wp_target_existed p
             \<or> wp_before_hash p \<noteq> [] \<or> wp_after_hash p \<noteq> []
             \<or> wp_bytes_before p \<noteq> Some 0 \<or> wp_bytes_after p \<noteq> Some 0
          then Inl (lit ''invalid workspace directory effect evidence'') else Inr ()
      | EntryFile \<Rightarrow>
          if \<not> valid_temp_name (wp_temp_name p) then Inl (lit ''invalid workspace effect temp identity'')
          else if version = LEGACY_JOURNAL_VERSION
          then (if wp_bytes_before p \<noteq> None \<or> wp_bytes_after p \<noteq> None
                   \<or> \<not> valid_hex_digest (wp_before_hash p) 16 \<or> \<not> valid_hex_digest (wp_after_hash p) 16
                then Inl (lit ''invalid legacy workspace effect hash/length'') else Inr ())
          else (case (wp_bytes_before p, wp_bytes_after p) of
              (Some bytes_before, Some bytes_after) \<Rightarrow>
                if wp_temp_name p \<noteq> staging_name (wp_tx_id p)
                   \<or> MAX_MUTATION_BYTES < bytes_before \<or> MAX_MUTATION_BYTES < bytes_after
                   \<or> \<not> valid_hex_digest (wp_before_hash p) 64 \<or> \<not> valid_hex_digest (wp_after_hash p) 64
                then Inl (lit ''invalid workspace file effect digest/length'') else Inr ()
            | _ \<Rightarrow> Inl (lit ''workspace file effect requires byte lengths'')))"

fun ws_validate :: "(rust_str \<Rightarrow> bool) \<Rightarrow> nat \<Rightarrow> ws_transition \<Rightarrow> rust_str + unit" where
  "ws_validate parse_uuid version t =
     (if version \<notin> {LEGACY_JOURNAL_VERSION, FILE_DIGEST_JOURNAL_VERSION, WORKSPACE_JOURNAL_VERSION}
      then Inl (lit ''unsupported workspace effect journal version'')
      else case t of
        WsPrepared p \<Rightarrow>
          result_bind (effect_context_validate (wp_context p)) (\<lambda>_.
          if \<not> parse_uuid (wp_tx_id p) then Inl (lit ''invalid workspace effect transaction identity'')
          else result_bind (map_err error_display (clean_relative (wp_relative_target p))) (\<lambda>clean.
            if clean = [] \<or> map Normal clean \<noteq> path_components (wp_relative_target p)
               \<or> 4000 < str_len (wp_relative_target p)
            then Inl (lit ''workspace effect path/hash exceeds its bound'')
            else if version < WORKSPACE_JOURNAL_VERSION \<and> wp_entry_kind p \<noteq> EntryFile
            then Inl (lit ''legacy workspace effect cannot contain a directory entry'')
            else ws_validate_entry version p))
      | WsCommitted tx_id entry_identity \<Rightarrow>
          if \<not> parse_uuid tx_id \<or> (case entry_identity of Some i \<Rightarrow> \<not> valid_entry_identity i | None \<Rightarrow> False)
          then Inl (lit ''invalid workspace committed transaction'') else Inr ()
      | WsRolledBack tx_id \<Rightarrow>
          if parse_uuid tx_id then Inr () else Inl (lit ''invalid workspace transaction id''))"

declare ws_validate.simps [simp del]

section \<open>The fold\<close>

definition context_conflict :: "operation_effect_context \<Rightarrow> operation_effect_context \<Rightarrow> bool" where
  "context_conflict a b \<longleftrightarrow>
     (oi_operation_id (ec_identity a) = oi_operation_id (ec_identity b) \<or> ec_effect_id a = ec_effect_id b) \<and> a \<noteq> b"

fun ws_validate_fold :: "ws_table \<Rightarrow> ws_transition \<Rightarrow> rust_str + unit" where
  "ws_validate_fold table (WsPrepared p) =
     (if map_of table (wp_tx_id p) \<noteq> None then Inl (lit ''duplicate workspace prepared transaction'')
      else if MAX_EFFECT_TRANSACTIONS \<le> length (filter (\<lambda>(_, e). te_context e = wp_context p) table)
      then Inl (lit ''effect exceeds '' @ dec MAX_EFFECT_TRANSACTIONS @ lit '' transactions'')
      else if list_ex (\<lambda>(_, e). context_conflict (te_context e) (wp_context p)) table
      then Inl (lit ''operation has conflicting workspace effect identity'')
      else Inr ())"
| "ws_validate_fold table (WsCommitted tx_id entry_identity) =
     (case map_of table tx_id of
        None \<Rightarrow> Inl (lit ''terminal workspace transaction has no prepared record'')
      | Some e \<Rightarrow>
          if te_terminal e \<noteq> None then Inl (lit ''workspace transaction has duplicate/conflicting terminal state'')
          else if (te_entry_kind e = EntryDirectory) \<noteq> (entry_identity \<noteq> None)
          then Inl (lit ''workspace transaction committed identity does not match its entry kind'')
          else Inr ())"
| "ws_validate_fold table (WsRolledBack tx_id) =
     (case map_of table tx_id of
        None \<Rightarrow> Inl (lit ''terminal workspace transaction has no prepared record'')
      | Some e \<Rightarrow>
          if te_terminal e \<noteq> None then Inl (lit ''workspace transaction has duplicate/conflicting terminal state'')
          else Inr ())"

definition evidence_of :: "nat \<Rightarrow> ws_prepared \<Rightarrow> tx_evidence" where
  "evidence_of version p = \<lparr>te_journal_version = version, te_context = wp_context p,
     te_relative_target = wp_relative_target p, te_temp_name = wp_temp_name p, te_target_existed = wp_target_existed p,
     te_before_hash = wp_before_hash p, te_after_hash = wp_after_hash p, te_bytes_before = wp_bytes_before p,
     te_bytes_after = wp_bytes_after p, te_entry_kind = wp_entry_kind p, te_terminal = None\<rparr>"

definition ws_settle :: "ws_table \<Rightarrow> rust_str \<Rightarrow> tx_terminal \<Rightarrow> rust_str + ws_table" where
  "ws_settle table tx_id terminal =
     (case map_of table tx_id of
        None \<Rightarrow> Inl (lit ''missing prepared transaction'')
      | Some e \<Rightarrow> Inr (AList.update tx_id (e\<lparr>te_terminal := Some terminal\<rparr>) table))"

fun ws_apply :: "ws_table \<Rightarrow> nat \<Rightarrow> ws_transition \<Rightarrow> rust_str + ws_table" where
  "ws_apply table version (WsPrepared p) = Inr (AList.update (wp_tx_id p) (evidence_of version p) table)"
| "ws_apply table version (WsCommitted tx_id entry_identity) = ws_settle table tx_id (TxCommitted entry_identity)"
| "ws_apply table version (WsRolledBack tx_id) = ws_settle table tx_id TxRolledBack"

definition workspace_kind :: "(rust_str \<Rightarrow> bool) \<Rightarrow> (ws_transition, ws_table) log_kind" where
  "workspace_kind parse_uuid = \<lparr>
     lk_name = lit ''workspace effect journal'', lk_short = lit ''workspace journal'',
     lk_oversized = lit ''oversized complete frame'', lk_malformed = lit ''invalid JSON'',
     lk_reserialize = lit ''record serialization failed'', lk_gap = lit ''non-contiguous sequence'',
     lk_lock_attempts = 20, lk_version = WORKSPACE_JOURNAL_VERSION,
     lk_versions = [LEGACY_JOURNAL_VERSION, FILE_DIGEST_JOURNAL_VERSION, WORKSPACE_JOURNAL_VERSION],
     lk_counted = True, lk_start = [], lk_validate = ws_validate parse_uuid, lk_fold = ws_validate_fold,
     lk_refuse = RecoveryRequired, lk_apply = ws_apply\<rparr>"

section \<open>The journal\<close>

type_synonym ws_journal = "ws_table log_writer"

definition ws_open ::
  "(rust_str \<Rightarrow> bool) \<Rightarrow> ws_transition log_codec \<Rightarrow> log_open_io \<Rightarrow> byte list option \<Rightarrow> byte list option \<times> ws_journal agent_result" where
  "ws_open parse_uuid = log_open (workspace_kind parse_uuid)"

definition ws_append ::
  "(rust_str \<Rightarrow> bool) \<Rightarrow> ws_transition log_codec \<Rightarrow> append_io \<Rightarrow> ws_journal \<Rightarrow> ws_transition \<Rightarrow> ws_journal \<times> unit agent_result" where
  "ws_append parse_uuid = log_append (workspace_kind parse_uuid)"

definition ws_recover_file ::
  "(rust_str \<Rightarrow> bool) \<Rightarrow> ws_transition log_codec \<Rightarrow> repair_outcome \<Rightarrow> byte list
     \<Rightarrow> byte list \<times> ws_table log_recovery agent_result" where
  "ws_recover_file parse_uuid = log_recover_file (workspace_kind parse_uuid)"

text \<open>Rows come back sorted by their transaction id.\<close>

fun str_le :: "rust_str \<Rightarrow> rust_str \<Rightarrow> bool" where
  "str_le [] t = True"
| "str_le (c # s) [] = False"
| "str_le (c # s) (d # t) = (c < d \<or> c = d \<and> str_le s t)"

fun insert_row :: "rust_str \<times> 'a \<Rightarrow> (rust_str \<times> 'a) list \<Rightarrow> (rust_str \<times> 'a) list" where
  "insert_row x [] = [x]"
| "insert_row x (y # ys) = (if str_le (fst x) (fst y) then x # y # ys else y # insert_row x ys)"

definition sort_rows :: "(rust_str \<times> 'a) list \<Rightarrow> (rust_str \<times> 'a) list" where
  "sort_rows xs = foldr insert_row xs []"

definition evidence_for ::
  "ws_journal \<Rightarrow> operation_effect_context \<Rightarrow> (rust_str \<times> tx_evidence) list agent_result" where
  "evidence_for J ctx =
     result_bind (map_err InvalidRequest (effect_context_validate ctx)) (\<lambda>_.
       (case lw_failed J of
          Some error \<Rightarrow> Inl (Storage error)
        | None \<Rightarrow>
            let rows = sort_rows (filter (\<lambda>(_, e). te_context e = ctx) (lg_table (lw_recovery J)))
            in if MAX_EFFECT_TRANSACTIONS < length rows
               then Inl (RecoveryRequired (lit ''effect owns more than '' @ dec MAX_EFFECT_TRANSACTIONS
                      @ lit '' workspace transactions''))
               else Inr rows))"

section \<open>The table\<close>

definition prepared_of :: "rust_str \<Rightarrow> tx_evidence \<Rightarrow> ws_prepared" where
  "prepared_of tx_id e = \<lparr>wp_tx_id = tx_id, wp_context = te_context e, wp_relative_target = te_relative_target e,
     wp_temp_name = te_temp_name e, wp_target_existed = te_target_existed e, wp_before_hash = te_before_hash e,
     wp_after_hash = te_after_hash e, wp_bytes_before = te_bytes_before e, wp_bytes_after = te_bytes_after e,
     wp_entry_kind = te_entry_kind e\<rparr>"

definition row_ok :: "(rust_str \<Rightarrow> bool) \<Rightarrow> rust_str \<Rightarrow> tx_evidence \<Rightarrow> bool" where
  "row_ok parse_uuid tx_id e \<longleftrightarrow>
     ws_validate parse_uuid (te_journal_version e) (WsPrepared (prepared_of tx_id e)) = Inr ()
   \<and> (\<forall>i. te_terminal e = Some (TxCommitted i) \<longrightarrow> (te_entry_kind e = EntryDirectory) = (i \<noteq> None))"

definition evidence_ok :: "(rust_str \<Rightarrow> bool) \<Rightarrow> ws_table \<Rightarrow> bool" where
  "evidence_ok parse_uuid table \<longleftrightarrow>
     distinct (map fst table)
   \<and> (\<forall>tx_id e. map_of table tx_id = Some e \<longrightarrow> row_ok parse_uuid tx_id e)
   \<and> (\<forall>a ea b eb. map_of table a = Some ea \<longrightarrow> map_of table b = Some eb \<longrightarrow> \<not> context_conflict (te_context ea) (te_context eb))
   \<and> (\<forall>ctx. length (filter (\<lambda>(_, e). te_context e = ctx) table) \<le> MAX_EFFECT_TRANSACTIONS)"


lemma update_new: "map_of al k = None \<Longrightarrow> AList.update k v al = al @ [(k, v)]"
  by (induction al) auto

lemma map_update_same: "map_of al k = Some old \<Longrightarrow> f (k, v) = f (k, old) \<Longrightarrow> map f (AList.update k v al) = map f al"
  by (induction al) (auto split: if_splits)

lemma row_ok_fresh:
  assumes "ws_validate parse_uuid version (WsPrepared p) = Inr ()"
  shows "row_ok parse_uuid (wp_tx_id p) (evidence_of version p)"
proof -
  have "prepared_of (wp_tx_id p) (evidence_of version p) = p" by (simp add: prepared_of_def evidence_of_def)
  then show ?thesis using assms by (simp add: row_ok_def evidence_of_def)
qed

lemma context_conflict_sym: "context_conflict a b \<longleftrightarrow> context_conflict b a"
  by (auto simp: context_conflict_def)

lemma context_conflict_same [simp]: "\<not> context_conflict a a"
  by (simp add: context_conflict_def)

lemma evidence_ok_prepared:
  assumes "evidence_ok parse_uuid table" "ws_validate parse_uuid version (WsPrepared p) = Inr ()"
    "ws_validate_fold table (WsPrepared p) = Inr ()"
  shows "evidence_ok parse_uuid (AList.update (wp_tx_id p) (evidence_of version p) table)"
proof -
  let ?e = "evidence_of version p"
  have f: "map_of table (wp_tx_id p) = None" "length (filter (\<lambda>(_, e). te_context e = wp_context p) table) < MAX_EFFECT_TRANSACTIONS"
    "\<not> list_ex (\<lambda>(_, e). context_conflict (te_context e) (wp_context p)) table"
    using assms(3) by (auto split: if_splits)
  have c: "te_context ?e = wp_context p" by (simp add: evidence_of_def)
  have nc: "\<not> context_conflict (te_context e) (wp_context p)" if "map_of table k = Some e" for k e
    using f(3) map_of_SomeD [OF that] by (auto simp: list_ex_iff)
  have "length (filter (\<lambda>(_, e). te_context e = ctx) (table @ [(wp_tx_id p, ?e)])) \<le> MAX_EFFECT_TRANSACTIONS" for ctx
    using assms(1) f(2) c by (auto simp: evidence_ok_def)
  moreover have "distinct (map fst (AList.update (wp_tx_id p) ?e table))"
    using assms(1) by (auto simp: evidence_ok_def)
  ultimately show ?thesis
    using assms(1) row_ok_fresh [OF assms(2)] nc c
    unfolding evidence_ok_def update_new [OF f(1), symmetric]
    by (simp add: context_conflict_sym [of "wp_context p"])
qed

lemma evidence_ok_settle:
  assumes "evidence_ok parse_uuid table" "map_of table tx_id = Some e"
    "\<forall>i. terminal = TxCommitted i \<longrightarrow> (te_entry_kind e = EntryDirectory) = (i \<noteq> None)"
  shows "evidence_ok parse_uuid (AList.update tx_id (e\<lparr>te_terminal := Some terminal\<rparr>) table)"
proof -
  let ?e = "e\<lparr>te_terminal := Some terminal\<rparr>"
  have "prepared_of tx_id ?e = prepared_of tx_id e" by (simp add: prepared_of_def)
  then have "row_ok parse_uuid tx_id ?e" using assms by (auto simp: evidence_ok_def row_ok_def)
  moreover have "length (filter (\<lambda>(_, e). te_context e = ctx) (AList.update tx_id ?e table))
      = length (filter (\<lambda>(_, e). te_context e = ctx) table)" for ctx
  proof -
    have "map (\<lambda>(_, e). te_context e) (AList.update tx_id ?e table) = map (\<lambda>(_, e). te_context e) table"
      by (rule map_update_same [OF assms(2)]) simp
    then have "length (filter (\<lambda>c. c = ctx) (map (\<lambda>(_, e). te_context e) (AList.update tx_id ?e table)))
        = length (filter (\<lambda>c. c = ctx) (map (\<lambda>(_, e). te_context e) table))" by simp
    then show ?thesis by (simp add: filter_map comp_def case_prod_unfold)
  qed
  ultimately show ?thesis
    using assms(1,2) distinct_keys_update by (auto simp: evidence_ok_def)
qed

interpretation workspace_log: effect_log "workspace_kind parse_uuid" "evidence_ok parse_uuid" for parse_uuid
proof
  fix m t v
  assume "lk_fold (workspace_kind parse_uuid) m t = Inr ()"
  then show "\<exists>m'. lk_apply (workspace_kind parse_uuid) m v t = Inr m'"
    by (cases t) (auto simp: workspace_kind_def ws_settle_def split: option.splits)
next
  show "lk_version (workspace_kind parse_uuid) \<in> set (lk_versions (workspace_kind parse_uuid))"
    by (simp add: workspace_kind_def)
next
  show "evidence_ok parse_uuid (lk_start (workspace_kind parse_uuid))"
    by (simp add: workspace_kind_def evidence_ok_def)
next
  fix m v t m'
  assume "evidence_ok parse_uuid m" "lk_validate (workspace_kind parse_uuid) v t = Inr ()"
    "lk_fold (workspace_kind parse_uuid) m t = Inr ()" "lk_apply (workspace_kind parse_uuid) m v t = Inr m'"
  then show "evidence_ok parse_uuid m'"
    by (cases t) (auto simp: workspace_kind_def ws_settle_def split: option.splits if_splits
        intro!: evidence_ok_prepared evidence_ok_settle)
qed

end
