(* ===== verification/Remote_Journal.thy ===== *)
theory Remote_Journal
  imports Effect_Log
begin

text \<open>
  The journal of calls that leave the machine: \<^verbatim>\<open>crates/agent-workspace/src/remote_journal.rs\<close>. A call is reserved,
  dispatched and acknowledged, in this order and once each; a reservation may carry an idempotency key. The display form of a
  UUID (crate \<open>uuid\<close>) is the parameter \<open>show_uuid\<close>.

  The interpretation \<open>remote_log\<close> has \<open>remote_ok\<close> for the table: rows under their own effect id, no acknowledgement without a
  dispatch, and no two calls in flight under one idempotency key.
\<close>

section \<open>Data\<close>

datatype remote_effect_ack = AckCompleted | AckStaged | AckFailed

datatype remote_transition =
    RemoteReserved operation_effect_context "rust_str option"
  | RemoteDispatched uuid
  | RemoteAcknowledged uuid remote_effect_ack

record remote_evidence =
  re_context :: operation_effect_context
  re_idempotency_key :: "rust_str option"
  re_dispatched :: bool
  re_ack :: "remote_effect_ack option"

type_synonym remote_table = "(uuid \<times> remote_evidence) list"

definition MAX_IDEMPOTENCY_KEY_BYTES :: nat where "MAX_IDEMPOTENCY_KEY_BYTES = 256"
definition REMOTE_JOURNAL_VERSION :: nat where "REMOTE_JOURNAL_VERSION = 1"
definition MAX_REMOTE_REASON_BYTES :: nat where "MAX_REMOTE_REASON_BYTES = 4000"

section \<open>Transitions\<close>

definition normalize_key :: "rust_str option \<Rightarrow> rust_str option agent_result" where
  "normalize_key key =
     (case key of
        None \<Rightarrow> Inr None
      | Some raw \<Rightarrow>
          (let k = trim raw in
           if k = [] then Inr None
           else if MAX_IDEMPOTENCY_KEY_BYTES < str_len k
           then Inl (InvalidRequest (lit ''remote idempotency key exceeds '' @ dec MAX_IDEMPOTENCY_KEY_BYTES @ lit '' bytes''))
           else if list_ex (\<lambda>b. \<not> (32 \<le> b \<and> b \<le> 126)) (utf8_bytes k)
           then Inl (InvalidRequest (lit ''remote idempotency key must be printable ASCII''))
           else Inr (Some k)))"

definition nonnil_effect :: "uuid \<Rightarrow> rust_str + unit" where
  "nonnil_effect effect_id = (if is_nil effect_id then Inl (lit ''remote effect id is nil'') else Inr ())"

fun remote_validate :: "remote_transition \<Rightarrow> rust_str + unit" where
  "remote_validate (RemoteReserved ctx key) =
     result_bind (effect_context_validate ctx) (\<lambda>_.
       case key of
         None \<Rightarrow> Inr ()
       | Some k \<Rightarrow> if k = [] \<or> MAX_IDEMPOTENCY_KEY_BYTES < str_len k
                   then Inl (lit ''remote idempotency key is out of bounds'') else Inr ())"
| "remote_validate (RemoteDispatched effect_id) = nonnil_effect effect_id"
| "remote_validate (RemoteAcknowledged effect_id _) = nonnil_effect effect_id"

definition in_flight_key :: "remote_table \<Rightarrow> rust_str \<Rightarrow> remote_evidence option" where
  "in_flight_key table key =
     map_option snd (find (\<lambda>(_, e). re_ack e = None \<and> re_idempotency_key e = Some key) table)"

fun remote_validate_fold :: "remote_table \<Rightarrow> remote_transition \<Rightarrow> rust_str + unit" where
  "remote_validate_fold table (RemoteReserved ctx key) =
     (if map_of table (ec_effect_id ctx) \<noteq> None then Inl (lit ''effect already has a remote reservation'')
      else if (case key of None \<Rightarrow> False | Some k \<Rightarrow> in_flight_key table k \<noteq> None)
      then Inl (lit ''remote idempotency key is already in flight; at-most-one commit refuses a second dispatch'')
      else Inr ())"
| "remote_validate_fold table (RemoteDispatched effect_id) =
     (case map_of table effect_id of
        Some e \<Rightarrow> if \<not> re_dispatched e \<and> re_ack e = None then Inr ()
                  else Inl (lit ''remote effect is not waiting to be dispatched'')
      | None \<Rightarrow> Inl (lit ''remote effect has no reservation''))"
| "remote_validate_fold table (RemoteAcknowledged effect_id _) =
     (case map_of table effect_id of
        Some e \<Rightarrow> if re_dispatched e \<and> re_ack e = None then Inr ()
                  else Inl (lit ''remote effect is not waiting for acknowledgement'')
      | None \<Rightarrow> Inl (lit ''remote effect has no reservation''))"

fun remote_apply :: "remote_table \<Rightarrow> nat \<Rightarrow> remote_transition \<Rightarrow> rust_str + remote_table" where
  "remote_apply table version (RemoteReserved ctx key) =
     Inr (AList.update (ec_effect_id ctx)
            \<lparr>re_context = ctx, re_idempotency_key = key, re_dispatched = False, re_ack = None\<rparr> table)"
| "remote_apply table version (RemoteDispatched effect_id) =
     (case map_of table effect_id of
        None \<Rightarrow> Inl (lit ''missing remote reservation'')
      | Some e \<Rightarrow> Inr (AList.update effect_id (e\<lparr>re_dispatched := True\<rparr>) table))"
| "remote_apply table version (RemoteAcknowledged effect_id ack) =
     (case map_of table effect_id of
        None \<Rightarrow> Inl (lit ''missing remote reservation'')
      | Some e \<Rightarrow> Inr (AList.update effect_id (e\<lparr>re_ack := Some ack\<rparr>) table))"

definition remote_kind :: "(remote_transition, remote_table) log_kind" where
  "remote_kind = \<lparr>
     lk_name = lit ''remote effect journal'', lk_short = lit ''remote journal'',
     lk_oversized = lit ''frame exceeds bound'', lk_malformed = lit ''malformed frame'',
     lk_reserialize = lit ''reserialize frame'', lk_gap = lit ''sequence gap'',
     lk_lock_attempts = 1, lk_version = REMOTE_JOURNAL_VERSION, lk_versions = [REMOTE_JOURNAL_VERSION],
     lk_counted = False, lk_start = [], lk_validate = (\<lambda>_. remote_validate), lk_fold = remote_validate_fold,
     lk_refuse = InvalidRequest, lk_apply = remote_apply\<rparr>"

section \<open>The journal\<close>

type_synonym remote_journal = "remote_table log_writer"

definition remote_open ::
  "remote_transition log_codec \<Rightarrow> log_open_io \<Rightarrow> byte list option \<Rightarrow> byte list option \<times> remote_journal agent_result" where
  "remote_open = log_open remote_kind"

definition remote_append ::
  "remote_transition log_codec \<Rightarrow> append_io \<Rightarrow> remote_journal \<Rightarrow> remote_transition \<Rightarrow> remote_journal \<times> unit agent_result" where
  "remote_append = log_append remote_kind"

definition remote_append_record ::
  "remote_transition log_codec \<Rightarrow> append_io \<Rightarrow> byte list \<Rightarrow> remote_transition log_record \<Rightarrow> byte list \<times> unit agent_result" where
  "remote_append_record = log_append_record remote_kind"

definition remote_recover_file ::
  "remote_transition log_codec \<Rightarrow> repair_outcome \<Rightarrow> byte list \<Rightarrow> byte list \<times> remote_table log_recovery agent_result" where
  "remote_recover_file = log_recover_file remote_kind"

definition record_reserved ::
  "remote_transition log_codec \<Rightarrow> append_io \<Rightarrow> remote_journal \<Rightarrow> operation_effect_context \<Rightarrow> rust_str option
     \<Rightarrow> remote_journal \<times> unit agent_result" where
  "record_reserved C io J ctx key =
     (case normalize_key key of
        Inl e \<Rightarrow> (J, Inl e)
      | Inr k \<Rightarrow> remote_append C io J (RemoteReserved ctx k))"

definition record_dispatched ::
  "remote_transition log_codec \<Rightarrow> append_io \<Rightarrow> remote_journal \<Rightarrow> uuid \<Rightarrow> remote_journal \<times> unit agent_result" where
  "record_dispatched C io J effect_id = remote_append C io J (RemoteDispatched effect_id)"

definition record_acked ::
  "remote_transition log_codec \<Rightarrow> append_io \<Rightarrow> remote_journal \<Rightarrow> uuid \<Rightarrow> remote_effect_ack
     \<Rightarrow> remote_journal \<times> unit agent_result" where
  "record_acked C io J effect_id ack = remote_append C io J (RemoteAcknowledged effect_id ack)"

fun ack_name :: "remote_effect_ack \<Rightarrow> rust_str" where
  "ack_name AckCompleted = lit ''completed''"
| "ack_name AckStaged = lit ''staged''"
| "ack_name AckFailed = lit ''failed''"

definition remote_reconcile ::
  "(uuid \<Rightarrow> rust_str) \<Rightarrow> remote_journal \<Rightarrow> operation_effect_context \<Rightarrow> effect_reconciliation agent_result" where
  "remote_reconcile show_uuid J ctx =
     result_bind (map_err InvalidRequest (effect_context_validate ctx)) (\<lambda>_.
       (case lw_failed J of Some error \<Rightarrow> Inl (Storage error) | None \<Rightarrow>
       (case map_of (lg_table (lw_recovery J)) (ec_effect_id ctx) of
          None \<Rightarrow> Inr ReconcileNotManaged
        | Some e \<Rightarrow>
            if re_context e \<noteq> ctx
            then Inr (ReconcileAmbiguous (bound_utf8 (lit ''remote effect '' @ show_uuid (ec_effect_id ctx)
                   @ lit '' identity drifted from the Core snapshot'') MAX_REMOTE_REASON_BYTES))
            else if \<not> re_dispatched e
            then Inr (ReconcileNotApplied (Some (lit ''remote request was reserved but never dispatched'')))
            else (case re_ack e of
                None \<Rightarrow> Inr (ReconcileAmbiguous (bound_utf8 (lit ''remote effect '' @ show_uuid (ec_effect_id ctx)
                   @ lit '' was dispatched without a durable acknowledgement; the peer may have applied it'')
                   MAX_REMOTE_REASON_BYTES))
              | Some AckStaged \<Rightarrow> Inr (ReconcileAmbiguous (bound_utf8
                   (lit ''remote call staged a Core effect but workspace recovery found no matching mutation evidence'')
                   MAX_REMOTE_REASON_BYTES))
              | Some ack \<Rightarrow> Inr (ReconcileCompletedValue (Some (bound_utf8 (lit ''remote-effect:''
                   @ show_uuid (ec_effect_id ctx) @ lit '':ack:'' @ ack_name ack) 512)))))))"

section \<open>The table\<close>

definition remote_ok :: "remote_table \<Rightarrow> bool" where
  "remote_ok table \<longleftrightarrow>
     distinct (map fst table)
   \<and> (\<forall>k e. map_of table k = Some e \<longrightarrow> ec_effect_id (re_context e) = k \<and> (re_ack e \<noteq> None \<longrightarrow> re_dispatched e))
   \<and> (\<forall>a ea b eb key. map_of table a = Some ea \<longrightarrow> map_of table b = Some eb \<longrightarrow> re_ack ea = None \<longrightarrow> re_ack eb = None
        \<longrightarrow> re_idempotency_key ea = Some key \<longrightarrow> re_idempotency_key eb = Some key \<longrightarrow> a = b)"

lemma in_flight_key_None:
  assumes "in_flight_key table key = None" "map_of table k = Some e" "re_ack e = None"
  shows "re_idempotency_key e \<noteq> Some key"
  using assms map_of_SomeD by (fastforce simp: in_flight_key_def find_None_iff)

lemma remote_ok_reserved:
  assumes "remote_ok table" "remote_validate_fold table (RemoteReserved ctx key) = Inr ()"
  shows "remote_ok (AList.update (ec_effect_id ctx)
     \<lparr>re_context = ctx, re_idempotency_key = key, re_dispatched = False, re_ack = None\<rparr> table)"
proof -
  have new: "map_of table (ec_effect_id ctx) = None"
    "key = Some k \<Longrightarrow> map_of table a = Some ea \<Longrightarrow> re_ack ea = None \<Longrightarrow> re_idempotency_key ea \<noteq> Some k" for k a ea
    using assms(2) in_flight_key_None by (auto split: if_splits option.splits)
  show ?thesis using assms(1) new unfolding remote_ok_def
    by (auto intro: distinct_keys_update split: if_splits)
qed

lemma remote_ok_advance:
  assumes "remote_ok table" "map_of table k = Some e" "re_context e' = re_context e"
    "re_idempotency_key e' = re_idempotency_key e" "re_ack e' = None \<longrightarrow> re_ack e = None" "re_ack e' \<noteq> None \<longrightarrow> re_dispatched e'"
  shows "remote_ok (AList.update k e' table)"
proof -
  have "distinct (map fst (AList.update k e' table))" using assms(1) by (auto simp: remote_ok_def)
  then show ?thesis using assms unfolding remote_ok_def map_of_update by (fastforce split: if_splits)
qed

interpretation remote_log: effect_log remote_kind remote_ok
proof
  fix m t v
  assume "lk_fold remote_kind m t = Inr ()"
  then show "\<exists>m'. lk_apply remote_kind m v t = Inr m'"
    by (cases t) (auto simp: remote_kind_def split: option.splits)
next
  fix m v t m'
  assume "remote_ok m" "lk_fold remote_kind m t = Inr ()" "lk_apply remote_kind m v t = Inr m'"
  then show "remote_ok m'"
    by (cases t) (auto simp: remote_kind_def split: option.splits if_splits simp del: remote_validate_fold.simps(1)
        intro!: remote_ok_reserved intro: remote_ok_advance)
qed (simp_all add: remote_kind_def remote_ok_def)

section \<open>A call leaves at most once\<close>

definition was_dispatched :: "uuid \<Rightarrow> remote_table log_recovery \<Rightarrow> bool" where
  "was_dispatched k st \<longleftrightarrow> (\<exists>e. map_of (lg_table st) k = Some e \<and> re_dispatched e)"

lemma remote_next_Inr:
  assumes "log_next remote_kind st t = Inr st'"
  shows "remote_validate_fold (lg_table st) t = Inr ()" "Inr (lg_table st') = remote_apply (lg_table st) REMOTE_JOURNAL_VERSION t"
  using assms by (auto simp: log_next_def log_step_def remote_kind_def split: if_splits)

lemma dispatched_kept: "log_next remote_kind st t = Inr st' \<Longrightarrow> was_dispatched k st \<Longrightarrow> was_dispatched k st'"
  using remote_next_Inr [of st t st'] by (cases t) (auto simp: was_dispatched_def split: option.splits if_splits)

lemma dispatched_set: "log_next remote_kind st (RemoteDispatched k) = Inr st' \<Longrightarrow> was_dispatched k st' \<and> \<not> was_dispatched k st"
  using remote_next_Inr [of st "RemoteDispatched k" st'] by (auto simp: was_dispatched_def split: option.splits if_splits)

lemma leaves_at_most_once:
  assumes "log_nexts remote_kind st ts = Inr st'"
  shows "count_list ts (RemoteDispatched k) \<le> (if was_dispatched k st then 0 else 1)"
  using assms
proof (induction ts arbitrary: st)
  case (Cons t ts)
  then obtain st1 where st1: "log_next remote_kind st t = Inr st1" "log_nexts remote_kind st1 ts = Inr st'" by auto
  note ih = Cons.IH [OF st1(2)]
  show ?case
  proof (cases "t = RemoteDispatched k")
    case True
    then show ?thesis using ih dispatched_set st1(1) by auto
  next
    case False
    then show ?thesis using ih dispatched_kept [OF st1(1), of k] by (auto split: if_splits)
  qed
qed simp

end
