(* ===== verification/Process_Journal.thy ===== *)
theory Process_Journal
  imports Effect_Log Tool_Failure
begin

text \<open>
  The journal of child processes: \<^verbatim>\<open>crates/agent-workspace/src/process_journal.rs\<close>. A spawn is recorded under the context of
  the call that started it and an exit under the process id, which may be used again once its exit is recorded. Capturing the
  identity of a process and terminating a process tree ask the operating system; their answers are inputs
  (\<open>captured\<close>, \<open>terminate\<close>).

  The interpretation \<open>process_log\<close> has \<open>spawns_ok\<close> for the table: rows under their own effect id, at most one open spawn for a
  process id, one context for an operation.
\<close>

section \<open>Data\<close>

datatype process_transition =
    ProcessSpawned operation_effect_context nat rust_str
  | ProcessExited nat "int option"

record spawn_evidence =
  se_context :: operation_effect_context
  se_pid :: nat
  se_identity_token :: rust_str
  se_exit_code :: "int option option"

type_synonym spawn_table = "(uuid \<times> spawn_evidence) list"

datatype process_cleanup_outcome = AlreadyExited | IdentityMismatch | ExitConfirmed | Unconfirmed rust_str

definition PROCESS_JOURNAL_VERSION :: nat where "PROCESS_JOURNAL_VERSION = 1"
definition MAX_IDENTITY_TOKEN_BYTES :: nat where "MAX_IDENTITY_TOKEN_BYTES = 128"
definition MAX_PROCESS_REASON_BYTES :: nat where "MAX_PROCESS_REASON_BYTES = 4000"

section \<open>Transitions\<close>

definition is_ascii_hexdigit :: "byte \<Rightarrow> bool" where
  "is_ascii_hexdigit b \<longleftrightarrow> (48 \<le> b \<and> b \<le> 57) \<or> (65 \<le> b \<and> b \<le> 70) \<or> (97 \<le> b \<and> b \<le> 102)"

fun process_validate :: "process_transition \<Rightarrow> rust_str + unit" where
  "process_validate (ProcessSpawned ctx pid token) =
     result_bind (effect_context_validate ctx) (\<lambda>_.
       if pid = 0 then Inl (lit ''process spawn pid must be non-zero'')
       else if MAX_IDENTITY_TOKEN_BYTES < str_len token
               \<or> list_ex (\<lambda>b. \<not> is_ascii_hexdigit b \<and> b \<noteq> 58 \<and> b \<noteq> 45) (utf8_bytes token)
       then Inl (lit ''process identity token exceeds its bound'')
       else Inr ())"
| "process_validate (ProcessExited pid _) =
     (if pid = 0 then Inl (lit ''process exit pid must be non-zero'') else Inr ())"

definition is_open_spawn :: "nat \<Rightarrow> spawn_evidence \<Rightarrow> bool" where
  "is_open_spawn pid e \<longleftrightarrow> se_pid e = pid \<and> se_exit_code e = None"

definition open_spawn_by_pid :: "spawn_table \<Rightarrow> nat \<Rightarrow> (uuid \<times> spawn_evidence) option" where
  "open_spawn_by_pid table pid = find (\<lambda>(_, e). is_open_spawn pid e) table"

fun process_validate_fold :: "spawn_table \<Rightarrow> process_transition \<Rightarrow> rust_str + unit" where
  "process_validate_fold table (ProcessSpawned ctx pid _) =
     (if open_spawn_by_pid table pid \<noteq> None then Inl (lit ''duplicate live process spawn pid '' @ dec pid)
      else if map_of table (ec_effect_id ctx) \<noteq> None then Inl (lit ''effect already has a process spawn record'')
      else if list_ex (\<lambda>(_, e). oi_operation_id (ec_identity (se_context e)) = oi_operation_id (ec_identity ctx)
                              \<and> se_context e \<noteq> ctx) table
      then Inl (lit ''operation has conflicting process effect identity'')
      else Inr ())"
| "process_validate_fold table (ProcessExited pid _) =
     (if open_spawn_by_pid table pid \<noteq> None then Inr ()
      else Inl (lit ''process exit pid '' @ dec pid @ lit '' has no open spawn record''))"

fun process_apply :: "spawn_table \<Rightarrow> nat \<Rightarrow> process_transition \<Rightarrow> rust_str + spawn_table" where
  "process_apply table version (ProcessSpawned ctx pid token) =
     Inr (AList.update (ec_effect_id ctx)
            \<lparr>se_context = ctx, se_pid = pid, se_identity_token = token, se_exit_code = None\<rparr> table)"
| "process_apply table version (ProcessExited pid exit_code) =
     (case open_spawn_by_pid table pid of
        None \<Rightarrow> Inl (lit ''missing process spawn'')
      | Some (k, e) \<Rightarrow> Inr (AList.update k (e\<lparr>se_exit_code := Some exit_code\<rparr>) table))"

definition process_kind :: "(process_transition, spawn_table) log_kind" where
  "process_kind = \<lparr>
     lk_name = lit ''process effect journal'', lk_short = lit ''process journal'',
     lk_oversized = lit ''frame exceeds bound'', lk_malformed = lit ''malformed frame'',
     lk_reserialize = lit ''reserialize frame'', lk_gap = lit ''sequence gap'',
     lk_lock_attempts = 1, lk_version = PROCESS_JOURNAL_VERSION, lk_versions = [PROCESS_JOURNAL_VERSION],
     lk_counted = False, lk_start = [], lk_validate = (\<lambda>_. process_validate), lk_fold = process_validate_fold,
     lk_refuse = RecoveryRequired, lk_apply = process_apply\<rparr>"

section \<open>The journal\<close>

type_synonym process_journal = "spawn_table log_writer"

definition process_open ::
  "process_transition log_codec \<Rightarrow> log_open_io \<Rightarrow> byte list option \<Rightarrow> byte list option \<times> process_journal agent_result" where
  "process_open = log_open process_kind"

definition process_append ::
  "process_transition log_codec \<Rightarrow> append_io \<Rightarrow> process_journal \<Rightarrow> process_transition \<Rightarrow> process_journal \<times> unit agent_result" where
  "process_append = log_append process_kind"

definition process_append_record ::
  "process_transition log_codec \<Rightarrow> append_io \<Rightarrow> byte list \<Rightarrow> process_transition log_record \<Rightarrow> byte list \<times> unit agent_result" where
  "process_append_record = log_append_record process_kind"

definition process_recover_file ::
  "process_transition log_codec \<Rightarrow> repair_outcome \<Rightarrow> byte list \<Rightarrow> byte list \<times> spawn_table log_recovery agent_result" where
  "process_recover_file = log_recover_file process_kind"

text \<open>\<open>captured\<close>: the process id and identity token the system reports, \<open>None\<close> when it cannot be captured.\<close>

definition record_spawned ::
  "process_transition log_codec \<Rightarrow> append_io \<Rightarrow> (nat \<times> rust_str) option \<Rightarrow> process_journal \<Rightarrow> operation_effect_context \<Rightarrow> nat
     \<Rightarrow> process_journal \<times> unit agent_result" where
  "record_spawned C io captured J ctx pid =
     (case effect_context_validate ctx of Inl m \<Rightarrow> (J, Inl (InvalidRequest m)) | Inr () \<Rightarrow>
      if \<not> is_non_transactional_process_tool (oi_tool_name (ec_identity ctx))
      then (J, Inl (InvalidRequest (lit ''not a non-transactional process tool'')))
      else (case (case captured of Some i \<Rightarrow> i | None \<Rightarrow> (pid, [])) of (pid', token) \<Rightarrow>
             process_append C io J (ProcessSpawned ctx pid' token)))"

definition record_exited ::
  "process_transition log_codec \<Rightarrow> append_io \<Rightarrow> process_journal \<Rightarrow> nat \<Rightarrow> int option \<Rightarrow> process_journal \<times> unit agent_result" where
  "record_exited C io J pid exit_code =
     (case lw_failed J of
        Some error \<Rightarrow> (J, Inl (Storage error))
      | None \<Rightarrow>
          if open_spawn_by_pid (lg_table (lw_recovery J)) pid = None then (J, Inr ())
          else process_append C io J (ProcessExited pid exit_code))"

type_synonym terminate_tree = "nat \<Rightarrow> rust_str \<Rightarrow> rust_str + process_cleanup_outcome"

fun cleanup_confirmed :: "rust_str + process_cleanup_outcome \<Rightarrow> rust_str + unit" where
  "cleanup_confirmed (Inr (Unconfirmed reason)) = Inl reason"
| "cleanup_confirmed (Inr _) = Inr ()"
| "cleanup_confirmed (Inl reason) = Inl reason"

fun terminate_all :: "terminate_tree \<Rightarrow> (nat \<times> rust_str) list \<Rightarrow> unit agent_result" where
  "terminate_all terminate [] = Inr ()"
| "terminate_all terminate ((pid, token) # rest) =
     (case cleanup_confirmed (terminate pid token) of
        Inr () \<Rightarrow> terminate_all terminate rest
      | Inl reason \<Rightarrow> Inl (RecoveryRequired (bound_utf8 (lit ''could not terminate leftover process '' @ dec pid
          @ lit '' with verified exit: '' @ reason) MAX_PROCESS_REASON_BYTES)))"

definition recover_orphans :: "terminate_tree \<Rightarrow> process_journal \<Rightarrow> unit agent_result" where
  "recover_orphans terminate J =
     (case lw_failed J of
        Some error \<Rightarrow> Inl (Storage error)
      | None \<Rightarrow> terminate_all terminate (map (\<lambda>(_, e). (se_pid e, se_identity_token e))
                  (filter (\<lambda>(_, e). se_exit_code e = None) (lg_table (lw_recovery J)))))"

definition dec_int :: "int \<Rightarrow> rust_str" where
  "dec_int n = (if n < 0 then 45 # dec (nat (- n)) else dec (nat n))"

fun cleanup_text :: "rust_str + process_cleanup_outcome \<Rightarrow> rust_str" where
  "cleanup_text (Inr AlreadyExited) = lit ''exited without a durable wait record''"
| "cleanup_text (Inr IdentityMismatch) = lit ''PID belongs to another process; no signal sent''"
| "cleanup_text (Inr ExitConfirmed) = lit ''leftover exit confirmed after signalling''"
| "cleanup_text (Inr (Unconfirmed reason)) = lit ''cleanup unconfirmed: '' @ reason"
| "cleanup_text (Inl reason) = lit ''cleanup could not be verified: '' @ reason"

definition process_reconcile ::
  "terminate_tree \<Rightarrow> process_journal \<Rightarrow> operation_effect_context \<Rightarrow> effect_reconciliation agent_result" where
  "process_reconcile terminate J ctx =
     result_bind (map_err InvalidRequest (effect_context_validate ctx)) (\<lambda>_.
       if \<not> is_non_transactional_process_tool (oi_tool_name (ec_identity ctx)) then Inr ReconcileNotManaged
       else (case lw_failed J of Some error \<Rightarrow> Inl (Storage error) | None \<Rightarrow>
         (case find (\<lambda>(_, e). se_context e = ctx) (lg_table (lw_recovery J)) of
            None \<Rightarrow> Inr (ReconcileNotApplied (Some (lit ''process never spawned'')))
          | Some (_, e) \<Rightarrow>
              (case se_exit_code e of
                 Some exit_code \<Rightarrow> Inr (ReconcileCompletedValue (Some (bound_utf8 (lit ''process-pid:'' @ dec (se_pid e)
                   @ lit '':exit:'' @ (case exit_code of Some code \<Rightarrow> dec_int code | None \<Rightarrow> lit ''signal'')) 512)))
               | None \<Rightarrow> Inr (ReconcileAmbiguous (bound_utf8 (lit ''process '' @ dec (se_pid e) @ lit '' ''
                   @ cleanup_text (terminate (se_pid e) (se_identity_token e)) @ lit ''; mutations may have landed'')
                   MAX_PROCESS_REASON_BYTES))))))"

section \<open>The table\<close>

definition spawns_ok :: "spawn_table \<Rightarrow> bool" where
  "spawns_ok table \<longleftrightarrow>
     distinct (map fst table)
   \<and> (\<forall>k e. map_of table k = Some e \<longrightarrow> ec_effect_id (se_context e) = k)
   \<and> (\<forall>a ea b eb pid. map_of table a = Some ea \<longrightarrow> map_of table b = Some eb \<longrightarrow> is_open_spawn pid ea \<longrightarrow> is_open_spawn pid eb \<longrightarrow> a = b)
   \<and> (\<forall>a ea b eb. map_of table a = Some ea \<longrightarrow> map_of table b = Some eb
        \<longrightarrow> oi_operation_id (ec_identity (se_context ea)) = oi_operation_id (ec_identity (se_context eb)) \<longrightarrow> a = b)"

lemma find_row: "find (\<lambda>(_, e). P e) table = Some (k, e) \<Longrightarrow> distinct (map fst table) \<Longrightarrow> map_of table k = Some e \<and> P e"
proof -
  assume f: "find (\<lambda>(_, e). P e) table = Some (k, e)" and d: "distinct (map fst table)"
  have "(k, e) \<in> set table" "P e" using f by (auto simp: find_Some_iff in_set_conv_nth)
  then show ?thesis using d by simp
qed

lemma no_row: "find (\<lambda>(_, e). P e) table = None \<Longrightarrow> map_of table k = Some e \<Longrightarrow> \<not> P e"
  using map_of_SomeD by (fastforce simp: find_None_iff)

lemma spawns_ok_spawned:
  assumes "spawns_ok table" "process_validate_fold table (ProcessSpawned ctx pid token) = Inr ()"
  shows "spawns_ok (AList.update (ec_effect_id ctx)
     \<lparr>se_context = ctx, se_pid = pid, se_identity_token = token, se_exit_code = None\<rparr> table)"
proof -
  have new: "map_of table (ec_effect_id ctx) = None" "find (\<lambda>(_, e). is_open_spawn pid e) table = None"
    "\<not> list_ex (\<lambda>(_, e). oi_operation_id (ec_identity (se_context e)) = oi_operation_id (ec_identity ctx) \<and> se_context e \<noteq> ctx) table"
    using assms(2) by (simp_all add: open_spawn_by_pid_def split: if_splits del: not_None_eq)
  have op: "oi_operation_id (ec_identity (se_context e)) \<noteq> oi_operation_id (ec_identity ctx)" if "map_of table k = Some e" for k e
  proof -
    have "se_context e \<noteq> ctx" using assms(1) that new(1) by (auto simp: spawns_ok_def)
    then show ?thesis using new(3) map_of_SomeD [OF that] by (auto simp: list_ex_iff)
  qed
  have "\<not> is_open_spawn pid e" if "map_of table k = Some e" for k e using no_row [OF new(2) that] .
  moreover have "is_open_spawn p \<lparr>se_context = ctx, se_pid = pid, se_identity_token = token, se_exit_code = None\<rparr> \<longleftrightarrow> p = pid" for p
    by (auto simp: is_open_spawn_def)
  moreover have "distinct (map fst (AList.update (ec_effect_id ctx)
     \<lparr>se_context = ctx, se_pid = pid, se_identity_token = token, se_exit_code = None\<rparr> table))"
    using assms(1) by (auto simp: spawns_ok_def)
  ultimately show ?thesis using assms(1) op unfolding spawns_ok_def map_of_update
    by (simp add: eq_commute [of "oi_operation_id (ec_identity ctx)"]) metis
qed

lemma spawns_ok_exited:
  assumes "spawns_ok table" "open_spawn_by_pid table pid = Some (k, e)"
  shows "spawns_ok (AList.update k (e\<lparr>se_exit_code := Some exit_code\<rparr>) table)"
proof -
  have row: "map_of table k = Some e"
    using find_row [of "is_open_spawn pid" table k e] assms by (simp add: open_spawn_by_pid_def spawns_ok_def)
  have "distinct (map fst (AList.update k (e\<lparr>se_exit_code := Some exit_code\<rparr>) table))"
    using assms(1) by (auto simp: spawns_ok_def)
  moreover have "\<not> is_open_spawn p (e\<lparr>se_exit_code := Some exit_code\<rparr>)" for p by (simp add: is_open_spawn_def)
  ultimately show ?thesis using assms(1) row unfolding spawns_ok_def map_of_update
    by (auto simp del: map_of_eq_Some_iff split: if_splits)
qed

interpretation process_log: effect_log process_kind spawns_ok
proof
  fix m t v
  assume "lk_fold process_kind m t = Inr ()"
  then show "\<exists>m'. lk_apply process_kind m v t = Inr m'"
    by (cases t) (auto simp: process_kind_def split: option.splits if_splits)
next
  fix m v t m'
  assume "spawns_ok m" "lk_fold process_kind m t = Inr ()" "lk_apply process_kind m v t = Inr m'"
  then show "spawns_ok m'"
    by (cases t) (auto simp: process_kind_def split: option.splits if_splits simp del: process_validate_fold.simps(1)
        intro!: spawns_ok_spawned spawns_ok_exited)
qed (simp_all add: process_kind_def spawns_ok_def)

section \<open>What recovery may claim\<close>

definition was_spawned :: "operation_effect_context \<Rightarrow> spawn_table log_recovery \<Rightarrow> bool" where
  "was_spawned ctx st \<longleftrightarrow> (\<exists>e. map_of (lg_table st) (ec_effect_id ctx) = Some e \<and> se_context e = ctx)"

lemma process_next_Inr:
  assumes "log_next process_kind st t = Inr st'"
  shows "process_validate_fold (lg_table st) t = Inr ()" "Inr (lg_table st') = process_apply (lg_table st) PROCESS_JOURNAL_VERSION t"
  using assms by (auto simp: log_next_def log_step_def process_kind_def split: if_splits)

lemma spawned_kept:
  assumes "spawns_ok (lg_table st)" "log_next process_kind st t = Inr st'" "was_spawned ctx st"
  shows "was_spawned ctx st'"
proof (cases t)
  case (ProcessSpawned c pid token)
  then show ?thesis using process_next_Inr [OF assms(2)] assms(3) by (auto simp: was_spawned_def split: if_splits)
next
  case (ProcessExited pid code)
  obtain k e where o: "open_spawn_by_pid (lg_table st) pid = Some (k, e)"
    using process_next_Inr(1) [OF assms(2)] ProcessExited by (auto split: if_splits)
  have "map_of (lg_table st) k = Some e"
    using find_row [of "is_open_spawn pid" "lg_table st" k e] assms(1) o by (simp add: open_spawn_by_pid_def spawns_ok_def)
  moreover have "lg_table st' = AList.update k (e\<lparr>se_exit_code := Some code\<rparr>) (lg_table st)"
    using process_next_Inr(2) [OF assms(2)] ProcessExited o by simp
  ultimately show ?thesis using assms(3) by (auto simp: was_spawned_def)
qed

lemma spawned_set: "log_next process_kind st (ProcessSpawned ctx pid token) = Inr st' \<Longrightarrow> was_spawned ctx st'"
  using process_next_Inr(2) by (fastforce simp: was_spawned_def)

lemma reconcile_finds:
  assumes "spawns_ok (lg_table (lw_recovery J))"
  shows "find (\<lambda>(_, e). se_context e = ctx) (lg_table (lw_recovery J)) = None \<longleftrightarrow> \<not> was_spawned ctx (lw_recovery J)"
proof
  assume "find (\<lambda>(_, e). se_context e = ctx) (lg_table (lw_recovery J)) = None"
  then show "\<not> was_spawned ctx (lw_recovery J)"
    using no_row [of "\<lambda>e. se_context e = ctx" "lg_table (lw_recovery J)"] unfolding was_spawned_def by blast
next
  assume n: "\<not> was_spawned ctx (lw_recovery J)"
  show "find (\<lambda>(_, e). se_context e = ctx) (lg_table (lw_recovery J)) = None"
  proof (rule ccontr)
    assume "find (\<lambda>(_, e). se_context e = ctx) (lg_table (lw_recovery J)) \<noteq> None"
    then obtain k e where "find (\<lambda>(_, e). se_context e = ctx) (lg_table (lw_recovery J)) = Some (k, e)" by auto
    then have "map_of (lg_table (lw_recovery J)) k = Some e \<and> se_context e = ctx"
      using find_row [of "\<lambda>e. se_context e = ctx" "lg_table (lw_recovery J)" k e] assms unfolding spawns_ok_def by blast
    moreover from this have "ec_effect_id ctx = k" using assms unfolding spawns_ok_def by blast
    ultimately show False using n by (auto simp: was_spawned_def)
  qed
qed

end
