(* ===== verification/Workspace_Files.thy ===== *)
theory Workspace_Files
  imports Workspace_Journal Remote_Journal Process_Journal
begin

text \<open>
  The files under the workspace journal: \<open>ConfinedDir\<close> of \<^verbatim>\<open>crates/agent-workspace/src/confined.rs\<close> (Unix branch). A file system
  is a set of inodes and of directory entries; a directory or file handle is an inode, and an unlinked inode keeps its bytes.
  Links and devices are \<open>SpecialNode\<close>; no operation follows them.

  Every call to the system takes one tick of the world. The environment decides for each tick whether other processes change
  the file system first, whether the call fails, and whether this process dies there; after that the durable state no longer
  changes and every further call only returns. A failing or dying write leaves a prefix of its bytes; rename, unlink and
  mkdir happen or do not happen. What a crash of the whole machine does to unsynced blocks is not modelled.
\<close>

section \<open>The file system\<close>

datatype node = RegularNode "byte list" | DirectoryNode | SpecialNode

record ws_fs =
  fs_nodes :: "nat \<Rightarrow> node option"
  fs_entries :: "nat \<times> rust_str \<Rightarrow> nat option"

datatype io_error = IoNotFound | IoInvalidInput | IoInvalidData | IoPermissionDenied | IoOther

datatype change_record =
    MutationPrepared rust_str
  | MutationCommitted rust_str
  | MutationRolledBack rust_str rust_str
  | DirectoryPrepared rust_str
  | DirectoryCommitted rust_str rust_str
  | DirectoryRolledBack rust_str rust_str

record ws_world =
  wd_fs :: ws_fs
  wd_root :: nat
  wd_journal :: ws_journal
  wd_process :: process_journal
  wd_remote :: remote_journal
  wd_changes :: "change_record list"
  wd_tick :: nat
  wd_crashed :: bool

record os_env =
  os_others :: "nat \<Rightarrow> ws_fs \<Rightarrow> ws_fs"
  os_fault :: "nat \<Rightarrow> io_error option"
  os_crash :: "nat \<Rightarrow> bool"
  os_append :: "nat \<Rightarrow> append_io"
  os_partial :: "nat \<Rightarrow> nat"
  os_inode :: "nat \<Rightarrow> nat"
  os_device :: nat
  os_dir_len :: nat
  os_parse_uuid :: "rust_str \<Rightarrow> bool"
  os_codec :: "ws_transition log_codec"
  os_sha256 :: "byte list \<Rightarrow> digest"

section \<open>Calls\<close>

definition os_call :: "os_env \<Rightarrow> (ws_fs \<Rightarrow> io_error + ws_fs \<times> 'a) \<Rightarrow> ws_world \<Rightarrow> ws_world \<times> (io_error + 'a)" where
  "os_call env f w =
     (if wd_crashed w then (w, Inl IoOther)
      else if os_crash env (wd_tick w) then (w\<lparr>wd_crashed := True\<rparr>, Inl IoOther)
      else let w1 = w\<lparr>wd_tick := Suc (wd_tick w), wd_fs := os_others env (wd_tick w) (wd_fs w)\<rparr> in
        (case os_fault env (wd_tick w) of
           Some e \<Rightarrow> (w1, Inl e)
         | None \<Rightarrow> (case f (wd_fs w1) of
               Inl e \<Rightarrow> (w1, Inl e)
             | Inr (fs, a) \<Rightarrow> (w1\<lparr>wd_fs := fs\<rparr>, Inr a))))"

definition os_query :: "os_env \<Rightarrow> (ws_fs \<Rightarrow> io_error + 'a) \<Rightarrow> ws_world \<Rightarrow> ws_world \<times> (io_error + 'a)" where
  "os_query env g = os_call env (\<lambda>fs. result_bind (g fs) (\<lambda>a. Inr (fs, a)))"

text \<open>An append to the workspace journal, and to the review journal of changes.\<close>

definition world_append :: "os_env \<Rightarrow> ws_transition \<Rightarrow> ws_world \<Rightarrow> ws_world \<times> unit agent_result" where
  "world_append env t w =
     (if wd_crashed w then (w, Inl (Storage []))
      else (case ws_append (os_parse_uuid env) (os_codec env) (os_append env (wd_tick w)) (wd_journal w) t of
          (J, res) \<Rightarrow>
            if os_crash env (wd_tick w) then (w\<lparr>wd_journal := J, wd_crashed := True\<rparr>, Inl (Storage []))
            else (w\<lparr>wd_journal := J, wd_tick := Suc (wd_tick w)\<rparr>, res)))"

text \<open>
  The change journal, a log of the mutations for review, which recovery never reads. An append that fails may leave a torn
  line in the file; here it leaves nothing. A record over the size limit is one of the failures.
\<close>

definition record_change :: "os_env \<Rightarrow> change_record \<Rightarrow> ws_world \<Rightarrow> ws_world \<times> unit agent_result" where
  "record_change env r w =
     (case os_query env (\<lambda>_. Inr ()) w of
        (w1, Inl e) \<Rightarrow> (w1, Inl (Storage (lit ''append change journal'')))
      | (w1, Inr ()) \<Rightarrow> (w1\<lparr>wd_changes := wd_changes w1 @ [r]\<rparr>, Inr ()))"

section \<open>Confined directories\<close>

definition open_root :: "os_env \<Rightarrow> ws_world \<Rightarrow> ws_world \<times> (io_error + nat)" where
  "open_root env w = os_query env (\<lambda>_. Inr (wd_root w)) w"

definition sync_all :: "os_env \<Rightarrow> ws_world \<Rightarrow> ws_world \<times> (io_error + unit)" where
  "sync_all env = os_query env (\<lambda>_. Inr ())"

definition child_dir :: "nat \<Rightarrow> rust_str \<Rightarrow> ws_fs \<Rightarrow> io_error + nat" where
  "child_dir dir name fs =
     (case fs_entries fs (dir, name) of
        None \<Rightarrow> Inl IoNotFound
      | Some i \<Rightarrow> if fs_nodes fs i = Some DirectoryNode then Inr i else Inl IoOther)"

definition open_child_dir :: "os_env \<Rightarrow> nat \<Rightarrow> rust_str \<Rightarrow> ws_world \<Rightarrow> ws_world \<times> (io_error + nat)" where
  "open_child_dir env dir name = os_query env (child_dir dir name)"

definition existing_entry :: "nat \<Rightarrow> rust_str \<Rightarrow> ws_fs \<Rightarrow> io_error + nat" where
  "existing_entry dir name fs =
     (case fs_entries fs (dir, name) of
        None \<Rightarrow> Inl IoNotFound
      | Some i \<Rightarrow> (case fs_nodes fs i of
            Some (RegularNode _) \<Rightarrow> Inr i
          | Some DirectoryNode \<Rightarrow> Inr i
          | _ \<Rightarrow> Inl IoInvalidInput))"

definition open_existing :: "os_env \<Rightarrow> nat \<Rightarrow> rust_str \<Rightarrow> ws_world \<Rightarrow> ws_world \<times> (io_error + nat)" where
  "open_existing env dir name = os_query env (existing_entry dir name)"

definition regular_entry :: "nat \<Rightarrow> rust_str \<Rightarrow> ws_fs \<Rightarrow> io_error + nat" where
  "regular_entry dir name fs =
     (case fs_entries fs (dir, name) of
        None \<Rightarrow> Inl IoNotFound
      | Some i \<Rightarrow> (case fs_nodes fs i of Some (RegularNode _) \<Rightarrow> Inr i | _ \<Rightarrow> Inl IoInvalidInput))"

definition open_recovery_target :: "os_env \<Rightarrow> nat \<Rightarrow> rust_str \<Rightarrow> ws_world \<Rightarrow> ws_world \<times> (io_error + nat)" where
  "open_recovery_target env dir name = os_query env (regular_entry dir name)"

definition open_staged_for_cleanup :: "os_env \<Rightarrow> nat \<Rightarrow> rust_str \<Rightarrow> ws_world \<Rightarrow> ws_world \<times> (io_error + nat)" where
  "open_staged_for_cleanup env dir name = os_query env (regular_entry dir name)"

definition create_new_file :: "os_env \<Rightarrow> nat \<Rightarrow> rust_str \<Rightarrow> ws_world \<Rightarrow> ws_world \<times> (io_error + nat)" where
  "create_new_file env dir name w =
     os_call env (\<lambda>fs.
       if fs_entries fs (dir, name) \<noteq> None then Inl IoOther
       else let i = os_inode env (wd_tick w)
            in Inr (fs\<lparr>fs_nodes := (fs_nodes fs)(i \<mapsto> RegularNode []), fs_entries := (fs_entries fs)((dir, name) \<mapsto> i)\<rparr>, i)) w"

definition named_entry_matches_file :: "os_env \<Rightarrow> nat \<Rightarrow> rust_str \<Rightarrow> nat \<Rightarrow> ws_world \<Rightarrow> ws_world \<times> (io_error + bool)" where
  "named_entry_matches_file env dir name handle =
     os_query env (\<lambda>fs. case fs_entries fs (dir, name) of None \<Rightarrow> Inl IoNotFound | Some i \<Rightarrow> Inr (i = handle))"

definition remove_named_file :: "os_env \<Rightarrow> nat \<Rightarrow> rust_str \<Rightarrow> ws_world \<Rightarrow> ws_world \<times> (io_error + unit)" where
  "remove_named_file env dir name =
     os_call env (\<lambda>fs. case fs_entries fs (dir, name) of
         None \<Rightarrow> Inl IoNotFound
       | Some i \<Rightarrow> if fs_nodes fs i = Some DirectoryNode then Inl IoOther
                   else Inr (fs\<lparr>fs_entries := (fs_entries fs)((dir, name) := None)\<rparr>, ()))"

definition remove_open_file :: "os_env \<Rightarrow> nat \<Rightarrow> nat \<Rightarrow> rust_str \<Rightarrow> ws_world \<Rightarrow> ws_world \<times> (io_error + unit)" where
  "remove_open_file env dir handle name w =
     and_then (named_entry_matches_file env dir name handle w) (\<lambda>w1 same.
       if \<not> same then (w1, Inl IoPermissionDenied) else remove_named_file env dir name w1)"

definition rename_entry :: "nat \<Rightarrow> rust_str \<Rightarrow> rust_str \<Rightarrow> ws_fs \<Rightarrow> io_error + ws_fs \<times> unit" where
  "rename_entry dir from_name to_name fs =
     (case fs_entries fs (dir, from_name) of
        None \<Rightarrow> Inl IoNotFound
      | Some i \<Rightarrow>
          if (case fs_entries fs (dir, to_name) of Some j \<Rightarrow> fs_nodes fs j = Some DirectoryNode | None \<Rightarrow> False)
          then Inl IoOther
          else if fs_entries fs (dir, to_name) = Some i then Inr (fs, ())
          else Inr (fs\<lparr>fs_entries := (fs_entries fs)((dir, from_name) := None, (dir, to_name) := Some i)\<rparr>, ()))"

definition replace_file :: "os_env \<Rightarrow> nat \<Rightarrow> nat \<Rightarrow> rust_str \<Rightarrow> rust_str \<Rightarrow> ws_world \<Rightarrow> ws_world \<times> (io_error + unit)" where
  "replace_file env dir handle from_name to_name w =
     and_then (named_entry_matches_file env dir from_name handle w) (\<lambda>w1 same.
       if \<not> same then (w1, Inl IoPermissionDenied) else os_call env (rename_entry dir from_name to_name) w1)"

section \<open>Open files\<close>

definition file_bytes :: "nat \<Rightarrow> ws_fs \<Rightarrow> io_error + byte list" where
  "file_bytes handle fs = (case fs_nodes fs handle of Some (RegularNode bytes) \<Rightarrow> Inr bytes | _ \<Rightarrow> Inl IoInvalidInput)"

definition file_metadata :: "os_env \<Rightarrow> nat \<Rightarrow> ws_world \<Rightarrow> ws_world \<times> (io_error + bool \<times> nat)" where
  "file_metadata env handle =
     os_query env (\<lambda>fs. case fs_nodes fs handle of
       Some (RegularNode bytes) \<Rightarrow> Inr (True, length bytes) | _ \<Rightarrow> Inr (False, os_dir_len env))"

definition read_open_file :: "os_env \<Rightarrow> nat \<Rightarrow> ws_world \<Rightarrow> ws_world \<times> (io_error + byte list)" where
  "read_open_file env handle = os_query env (file_bytes handle)"

text \<open>
  Writing, flushing and syncing new content to a fresh file. A failure or the death of the process leaves a prefix of it.
\<close>

definition put_bytes :: "nat \<Rightarrow> byte list \<Rightarrow> ws_world \<Rightarrow> ws_world" where
  "put_bytes handle bytes w =
     w\<lparr>wd_fs := (wd_fs w)\<lparr>fs_nodes := (fs_nodes (wd_fs w))(handle \<mapsto> RegularNode bytes)\<rparr>\<rparr>"

definition write_and_sync :: "os_env \<Rightarrow> nat \<Rightarrow> byte list \<Rightarrow> ws_world \<Rightarrow> ws_world \<times> (io_error + unit)" where
  "write_and_sync env handle content w =
     (let part = take (os_partial env (wd_tick w)) content in
      if wd_crashed w then (w, Inl IoOther)
      else if os_crash env (wd_tick w) then (put_bytes handle part (w\<lparr>wd_crashed := True\<rparr>), Inl IoOther)
      else let w1 = w\<lparr>wd_tick := Suc (wd_tick w), wd_fs := os_others env (wd_tick w) (wd_fs w)\<rparr> in
        (case os_fault env (wd_tick w) of
           Some e \<Rightarrow> (put_bytes handle part w1, Inl e)
         | None \<Rightarrow> (put_bytes handle content w1, Inr ())))"

section \<open>Alone in the file system\<close>

text \<open>
  \<open>undisturbed\<close>: no other process touches the file system meanwhile. \<open>honest\<close>: a call that fails for a reason of its own does not
  claim that the entry is missing. \<open>same_state\<close>: nothing durable changed.
\<close>

definition undisturbed :: "os_env \<Rightarrow> bool" where
  "undisturbed env \<longleftrightarrow> (\<forall>t fs. os_others env t fs = fs)"

definition honest :: "os_env \<Rightarrow> bool" where
  "honest env \<longleftrightarrow> (\<forall>t. os_fault env t \<noteq> Some IoNotFound)"

definition same_state :: "ws_world \<Rightarrow> ws_world \<Rightarrow> bool" where
  "same_state w w' \<longleftrightarrow> wd_fs w' = wd_fs w \<and> wd_root w' = wd_root w \<and> wd_journal w' = wd_journal w
     \<and> wd_process w' = wd_process w \<and> wd_remote w' = wd_remote w \<and> wd_changes w' = wd_changes w"

lemma same_state_refl [simp]: "same_state w w"
  by (simp add: same_state_def)

lemma same_state_trans [trans]: "same_state a b \<Longrightarrow> same_state b c \<Longrightarrow> same_state a c"
  by (simp add: same_state_def)

lemma same_stateD:
  "same_state w w' \<Longrightarrow> wd_fs w' = wd_fs w" "same_state w w' \<Longrightarrow> wd_root w' = wd_root w"
  "same_state w w' \<Longrightarrow> wd_journal w' = wd_journal w"
  by (simp_all add: same_state_def)

lemma os_call_cases:
  assumes "undisturbed env" "os_call env f w = (w', res)"
  obtains (silent) e where "same_state w w'" "res = Inl e" "honest env \<Longrightarrow> e = IoNotFound \<Longrightarrow> f (wd_fs w) = Inl IoNotFound"
    | (done_it) fs a where "res = Inr a" "f (wd_fs w) = Inr (fs, a)" "\<not> wd_crashed w'" "\<not> wd_crashed w"
        "w' = w\<lparr>wd_tick := Suc (wd_tick w), wd_fs := fs\<rparr>"
proof -
  let ?w1 = "w\<lparr>wd_tick := Suc (wd_tick w)\<rparr>"
  have others: "os_others env t fs = fs" for t fs using assms(1) by (simp add: undisturbed_def)
  show ?thesis
  proof (cases "wd_crashed w \<or> os_crash env (wd_tick w) \<or> os_fault env (wd_tick w) \<noteq> None")
    case True
    then have "same_state w w' \<and> (\<exists>e. res = Inl e \<and> (honest env \<longrightarrow> e \<noteq> IoNotFound))"
      using assms(2) by (auto simp: os_call_def others same_state_def honest_def Let_def split: if_splits)
    then show ?thesis using silent by blast
  next
    case False
    then have run: "os_call env f w = (case f (wd_fs w) of Inl e \<Rightarrow> (?w1, Inl e) | Inr (fs, a) \<Rightarrow> (?w1\<lparr>wd_fs := fs\<rparr>, Inr a))"
      by (simp add: os_call_def others Let_def)
    show ?thesis
    proof (cases "f (wd_fs w)")
      case (Inl e)
      then show ?thesis using assms(2) silent [of e] unfolding run by (auto simp: same_state_def)
    next
      case (Inr p)
      obtain fs a where p: "p = (fs, a)" by fastforce
      show ?thesis
        by (rule done_it [of a fs]) (use assms(2) False in \<open>simp_all add: run Inr p, auto\<close>)
    qed
  qed
qed

lemma os_query_result:
  assumes "undisturbed env" "os_query env g w = (w', res)"
  shows "same_state w w'" "res = Inr a \<Longrightarrow> g (wd_fs w) = Inr a"
    "honest env \<Longrightarrow> res = Inl IoNotFound \<Longrightarrow> g (wd_fs w) = Inl IoNotFound"
proof -
  have "same_state w w' \<and> (\<forall>a. res = Inr a \<longrightarrow> g (wd_fs w) = Inr a)
     \<and> (honest env \<longrightarrow> res = Inl IoNotFound \<longrightarrow> g (wd_fs w) = Inl IoNotFound)"
    using assms(2) unfolding os_query_def
    by (cases rule: os_call_cases [OF assms(1)]) (auto simp: same_state_def result_bind_Inl_iff)
  then show "same_state w w'" "res = Inr a \<Longrightarrow> g (wd_fs w) = Inr a"
    "honest env \<Longrightarrow> res = Inl IoNotFound \<Longrightarrow> g (wd_fs w) = Inl IoNotFound" by auto
qed

lemmas open_root_result = os_query_result [where g = "\<lambda>_. Inr (wd_root w)" and w = w for w, folded open_root_def]
lemmas open_child_dir_result = os_query_result [where g = "child_dir dir name" for dir name, folded open_child_dir_def]
lemmas open_recovery_result = os_query_result [where g = "regular_entry dir name" for dir name, folded open_recovery_target_def]
lemmas open_staged_result = os_query_result [where g = "regular_entry dir name" for dir name, folded open_staged_for_cleanup_def]
lemmas open_existing_result = os_query_result [where g = "existing_entry dir name" for dir name, folded open_existing_def]
lemmas read_file_result = os_query_result [where g = "file_bytes handle" for handle, folded read_open_file_def]
lemmas sync_all_result = os_query_result [where g = "\<lambda>_. Inr ()", folded sync_all_def]

lemma named_entry_result:
  assumes "undisturbed env" "named_entry_matches_file env dir name handle w = (w', res)"
  shows "same_state w w'" "res = Inr same \<Longrightarrow> same \<longleftrightarrow> fs_entries (wd_fs w) (dir, name) = Some handle"
  using os_query_result [OF assms(1) assms(2) [unfolded named_entry_matches_file_def]] by (auto split: option.splits)

lemma file_metadata_result:
  assumes "undisturbed env" "file_metadata env handle w = (w', res)"
  shows "same_state w w'" "res = Inr (True, len) \<Longrightarrow> \<exists>bytes. fs_nodes (wd_fs w) handle = Some (RegularNode bytes) \<and> len = length bytes"
  using os_query_result [OF assms(1) assms(2) [unfolded file_metadata_def]] by (auto split: option.splits node.splits)

text \<open>A removal takes away the entry of the named file, and nothing else.\<close>

definition unlinked :: "ws_world \<Rightarrow> nat \<Rightarrow> rust_str \<Rightarrow> ws_world \<Rightarrow> bool" where
  "unlinked w dir name w' \<longleftrightarrow>
     wd_fs w' = (wd_fs w)\<lparr>fs_entries := (fs_entries (wd_fs w))((dir, name) := None)\<rparr> \<and> wd_root w' = wd_root w
   \<and> wd_journal w' = wd_journal w \<and> wd_process w' = wd_process w \<and> wd_remote w' = wd_remote w \<and> wd_changes w' = wd_changes w"

lemma remove_open_file_result:
  assumes "undisturbed env" "remove_open_file env dir handle name w = (w', res)"
  shows "(\<exists>e. res = Inl e) \<and> same_state w w'
     \<or> res = Inr () \<and> fs_entries (wd_fs w) (dir, name) = Some handle \<and> fs_nodes (wd_fs w) handle \<noteq> Some DirectoryNode
       \<and> unlinked w dir name w'"
proof -
  obtain w1 r1 where n: "named_entry_matches_file env dir name handle w = (w1, r1)" by fastforce
  note nr = named_entry_result [OF assms(1) n]
  show ?thesis
  proof (cases "r1 = Inr True")
    case False
    then show ?thesis using assms(2) nr(1) n by (cases r1) (auto simp: remove_open_file_def)
  next
    case True
    then have rm: "remove_named_file env dir name w1 = (w', res)" using assms(2) n by (simp add: remove_open_file_def)
    have at: "fs_entries (wd_fs w1) (dir, name) = Some handle" using nr(1) nr(2) [OF True] by (simp add: same_state_def)
    show ?thesis
      using rm unfolding remove_named_file_def
    proof (cases rule: os_call_cases [OF assms(1), consumes 1, case_names silent done_it])
      case (silent e)
      then show ?thesis using nr(1) same_state_trans by blast
    next
      case (done_it fs a)
      then show ?thesis using at nr(1) by (auto simp: unlinked_def same_state_def split: if_splits)
    qed
  qed
qed

section \<open>Appending\<close>

lemma log_append_Inr:
  assumes "log_append K C io W t = (W', Inr ())"
  shows "lk_fold K (lg_table (lw_recovery W)) t = Inr ()"
    "lk_apply K (lg_table (lw_recovery W)) (lk_version K) t = Inr (lg_table (lw_recovery W'))" "lw_failed W = None" "lw_failed W' = None"
  using assms by (auto simp: log_append_def Let_def split: sum.splits option.splits if_splits prod.splits)

lemma log_append_Inl:
  assumes "log_append K C io W t = (W', Inl e)"
  shows "lw_recovery W' = lw_recovery W"
  using assms by (auto simp: log_append_def Let_def split: sum.splits option.splits if_splits prod.splits)

definition journaled :: "ws_world \<Rightarrow> ws_world \<Rightarrow> bool" where
  "journaled w w' \<longleftrightarrow> wd_fs w' = wd_fs w \<and> wd_root w' = wd_root w \<and> wd_process w' = wd_process w
     \<and> wd_remote w' = wd_remote w \<and> wd_changes w' = wd_changes w"

abbreviation tx_table :: "ws_world \<Rightarrow> ws_table" where
  "tx_table w \<equiv> lg_table (lw_recovery (wd_journal w))"

lemma world_append_result:
  assumes "world_append env t w = (w', res)"
  shows "journaled w w'"
    "res = Inr () \<Longrightarrow> ws_validate_fold (tx_table w) t = Inr () \<and> Inr (tx_table w') = ws_apply (tx_table w) WORKSPACE_JOURNAL_VERSION t"
proof -
  show "journaled w w'" using assms by (auto simp: world_append_def journaled_def split: if_splits prod.splits)
  assume "res = Inr ()"
  then obtain J where J: "ws_append (os_parse_uuid env) (os_codec env) (os_append env (wd_tick w)) (wd_journal w) t = (J, Inr ())"
    "wd_journal w' = J"
    using assms by (auto simp: world_append_def split: if_splits prod.splits)
  show "ws_validate_fold (tx_table w) t = Inr () \<and> Inr (tx_table w') = ws_apply (tx_table w) WORKSPACE_JOURNAL_VERSION t"
    using log_append_Inr(1,2) [OF J(1) [unfolded ws_append_def]] J(2) by (simp add: workspace_kind_def)
qed

end
