(* ===== verification/Workspace_Reconcile.thy ===== *)
theory Workspace_Reconcile
  imports Workspace_Files
begin

text \<open>
  Startup reconciliation of workspace effects: the second half of \<^verbatim>\<open>crates/agent-workspace/src/journal.rs\<close>. For every
  transaction of an effect the target is inspected through confined handles, hashed under a byte budget and compared with the
  recorded before and after states; a transaction that did not land has its staged file verified and removed and gets a
  rolled-back record. A file is read in one call here; the loop over its chunks is \<open>hash_chunks\<close>.
\<close>

section \<open>Bounded hashing\<close>

unbundle bit_operations_syntax

datatype recovery_hash = LegacyFnv64 | RecoverySha256

definition MAX_RECONCILIATION_READ_BYTES :: nat where
  "MAX_RECONCILIATION_READ_BYTES = MAX_EFFECT_TRANSACTIONS * 2 * (MAX_MUTATION_BYTES + 1)"

definition fnv1a_step :: "64 word \<Rightarrow> byte \<Rightarrow> 64 word" where
  "fnv1a_step h b = (h XOR ucast b) * 1099511628211"

definition fnv1a :: "byte list \<Rightarrow> 64 word" where
  "fnv1a bytes = foldl fnv1a_step 14695981039346656037 bytes"

definition hex64 :: "64 word \<Rightarrow> rust_str" where
  "hex64 h = digest_to_string (map (\<lambda>i. ucast (drop_bit (8 * i) h)) [7, 6, 5, 4, 3, 2, 1, 0])"

definition content_hash :: "byte list \<Rightarrow> rust_str" where
  "content_hash bytes = hex64 (fnv1a bytes)"

definition sha256_hex :: "os_env \<Rightarrow> byte list \<Rightarrow> rust_str" where
  "sha256_hex env bytes = digest_to_string (os_sha256 env bytes)"

definition recovery_hash_for :: "tx_evidence \<Rightarrow> recovery_hash" where
  "recovery_hash_for e = (if te_journal_version e = LEGACY_JOURNAL_VERSION then LegacyFnv64 else RecoverySha256)"

definition budget_exceeded :: agent_error where
  "budget_exceeded = RecoveryRequired (lit ''workspace effect reconciliation exceeded its ''
     @ dec MAX_RECONCILIATION_READ_BYTES @ lit ''-byte read budget'')"

definition file_grew :: agent_error where
  "file_grew = RecoveryRequired (lit ''workspace recovery file grew beyond '' @ dec MAX_MUTATION_BYTES @ lit '' bytes'')"

text \<open>\<open>hash_chunks total budget rest\<close>: the loop, with \<open>rest\<close> still unread; the answer is the total and the budget left.\<close>

function hash_chunks :: "nat \<Rightarrow> nat \<Rightarrow> byte list \<Rightarrow> (nat \<times> nat) agent_result" where
  "hash_chunks total_read budget rest =
     (let remaining = (MAX_MUTATION_BYTES + 1) - total_read in
      if remaining = 0 then Inl file_grew
      else if budget = 0 then Inl budget_exceeded
      else let n = min (min (min remaining 65536) budget) (length rest) in
        if n = 0 then Inr (total_read, budget)
        else if MAX_MUTATION_BYTES < total_read + n then Inl file_grew
        else hash_chunks (total_read + n) (budget - n) (drop n rest))"
  by pat_completeness auto
termination
proof (relation "measure (\<lambda>(t, b, rest). length rest)")
  fix total_read budget remaining n :: nat and rest :: "byte list"
  assume n: "n = min (min (min remaining 65536) budget) (length rest)" "n \<noteq> 0"
  have "n \<le> length rest" unfolding n(1) by (rule min.cobounded2)
  then have "length (drop n rest) < length rest" using n(2) by simp
  then show "((total_read + n, budget - n, drop n rest), total_read, budget, rest) \<in> measure (\<lambda>(t, b, rest). length rest)" by simp
qed simp

declare hash_chunks.simps [simp del]

definition hash_with :: "os_env \<Rightarrow> recovery_hash \<Rightarrow> byte list \<Rightarrow> rust_str" where
  "hash_with env algorithm bytes = (case algorithm of LegacyFnv64 \<Rightarrow> content_hash bytes | RecoverySha256 \<Rightarrow> sha256_hex env bytes)"

definition hash_reader_bounded ::
  "os_env \<Rightarrow> nat \<Rightarrow> nat \<Rightarrow> recovery_hash \<Rightarrow> nat \<Rightarrow> ws_world \<Rightarrow> ws_world \<times> (nat \<times> rust_str \<times> nat) agent_result" where
  "hash_reader_bounded env handle metadata_len algorithm budget w =
     (if MAX_MUTATION_BYTES < metadata_len
      then (w, Inl (RecoveryRequired (lit ''workspace recovery file is '' @ dec metadata_len @ lit '' bytes; the limit is ''
             @ dec MAX_MUTATION_BYTES @ lit '' bytes'')))
      else (case read_open_file env handle w of
          (w1, Inl _) \<Rightarrow> (w1, Inl (Io (lit ''hash reconciliation target'')))
        | (w1, Inr bytes) \<Rightarrow>
            (w1, result_bind (hash_chunks 0 budget bytes) (\<lambda>(n, budget').
               Inr (n, hash_with env algorithm bytes, budget')))))"

section \<open>Inspecting a target\<close>

datatype current_target = TargetMissing | TargetFile nat rust_str | TargetDirectory rust_str

fun walk_parents :: "os_env \<Rightarrow> nat \<Rightarrow> rust_str list \<Rightarrow> ws_world \<Rightarrow> ws_world \<times> nat option agent_result" where
  "walk_parents env dir [] w = (w, Inr (Some dir))"
| "walk_parents env dir (part # parts) w =
     (case open_child_dir env dir part w of
        (w1, Inr child) \<Rightarrow> walk_parents env child parts w1
      | (w1, Inl e) \<Rightarrow> if e = IoNotFound then (w1, Inr None)
                       else (w1, Inl (RecoveryRequired (lit ''open reconciliation parent''))))"

definition identity_text :: "os_env \<Rightarrow> nat \<Rightarrow> rust_str" where
  "identity_text env dir = lit ''unix:'' @ dec (os_device env) @ lit '':'' @ dec dir"

definition entry_identity :: "os_env \<Rightarrow> nat \<Rightarrow> ws_world \<Rightarrow> ws_world \<times> (io_error + rust_str)" where
  "entry_identity env dir = os_query env (\<lambda>_. Inr (identity_text env dir))"

definition inspect_directory ::
  "os_env \<Rightarrow> nat \<Rightarrow> rust_str \<Rightarrow> ws_world \<Rightarrow> ws_world \<times> current_target agent_result" where
  "inspect_directory env parent name w =
     (case open_child_dir env parent name w of
        (w1, Inr child) \<Rightarrow>
          (case entry_identity env child w1 of
             (w2, Inr identity) \<Rightarrow> (w2, Inr (TargetDirectory identity))
           | (w2, Inl _) \<Rightarrow> (w2, Inl (RecoveryRequired (lit ''identify reconciliation directory''))))
      | (w1, Inl e) \<Rightarrow> if e = IoNotFound then (w1, Inr TargetMissing)
                       else (w1, Inl (RecoveryRequired (lit ''open reconciliation directory''))))"

text \<open>The name has to identify the opened file before and after it is read.\<close>

definition bound_to_name ::
  "os_env \<Rightarrow> nat \<Rightarrow> rust_str \<Rightarrow> nat \<Rightarrow> agent_error \<Rightarrow> agent_error \<Rightarrow> ws_world \<Rightarrow> ws_world \<times> unit agent_result" where
  "bound_to_name env parent name handle failed changed w =
     (case named_entry_matches_file env parent name handle w of
        (w1, Inl _) \<Rightarrow> (w1, Inl failed)
      | (w1, Inr same) \<Rightarrow> (w1, if same then Inr () else Inl changed))"

definition inspect_file ::
  "os_env \<Rightarrow> tx_evidence \<Rightarrow> nat \<Rightarrow> rust_str \<Rightarrow> nat \<Rightarrow> ws_world \<Rightarrow> ws_world \<times> (current_target \<times> nat) agent_result" where
  "inspect_file env e parent name budget w =
     (case open_recovery_target env parent name w of
        (w1, Inl err) \<Rightarrow> if err = IoNotFound then (w1, Inr (TargetMissing, budget))
                         else (w1, Inl (RecoveryRequired (lit ''open reconciliation target'')))
      | (w1, Inr handle) \<Rightarrow>
          and_then (bound_to_name env parent name handle
             (RecoveryRequired (lit ''bind reconciliation target to its name''))
             (RecoveryRequired (lit ''workspace effect target name does not identify its opened file'')) w1) (\<lambda>w2 _.
          (case file_metadata env handle w2 of
             (w3, Inl _) \<Rightarrow> (w3, Inl (Io (lit ''inspect reconciliation target'')))
           | (w3, Inr (is_file, len)) \<Rightarrow>
               if \<not> is_file then (w3, Inl (RecoveryRequired (lit ''workspace effect target is not a regular file'')))
               else and_then (hash_reader_bounded env handle len (recovery_hash_for e) budget w3) (\<lambda>w4 (bytes, hash, budget').
                    and_then (bound_to_name env parent name handle
                      (RecoveryRequired (lit ''rebind reconciliation target after verification''))
                      (RecoveryRequired (lit ''workspace effect target changed while it was verified'')) w4) (\<lambda>w5 _.
                    (w5, Inr (TargetFile bytes hash, budget')))))))"

definition target_parts :: "rust_str \<Rightarrow> (rust_str list \<times> rust_str) agent_result" where
  "target_parts relative =
     result_bind (clean_relative relative) (\<lambda>parts.
       if parts = [] then Inl (RecoveryRequired (lit ''workspace evidence has empty target''))
       else Inr (butlast parts, last parts))"

definition inspect_target ::
  "os_env \<Rightarrow> tx_evidence \<Rightarrow> nat \<Rightarrow> ws_world \<Rightarrow> ws_world \<times> (current_target \<times> nat) agent_result" where
  "inspect_target env e budget w =
     (case target_parts (te_relative_target e) of
        Inl err \<Rightarrow> (w, Inl err)
      | Inr (parents, name) \<Rightarrow>
          (case open_root env w of
             (w1, Inl _) \<Rightarrow> (w1, Inl (Io (lit ''open workspace root for reconciliation'')))
           | (w1, Inr root) \<Rightarrow>
               and_then (walk_parents env root parents w1) (\<lambda>w2 found.
                 case found of
                   None \<Rightarrow> (w2, Inr (TargetMissing, budget))
                 | Some parent \<Rightarrow>
                     if te_entry_kind e = EntryDirectory
                     then and_then (inspect_directory env parent name w2) (\<lambda>w3 t. (w3, Inr (t, budget)))
                     else inspect_file env e parent name budget w2)))"

fun walk_cleanup :: "os_env \<Rightarrow> nat \<Rightarrow> rust_str list \<Rightarrow> ws_world \<Rightarrow> ws_world \<times> nat agent_result" where
  "walk_cleanup env dir [] w = (w, Inr dir)"
| "walk_cleanup env dir (part # parts) w =
     (case open_child_dir env dir part w of
        (w1, Inr child) \<Rightarrow> walk_cleanup env child parts w1
      | (w1, Inl _) \<Rightarrow> (w1, Inl (RecoveryRequired (lit ''open cleanup parent''))))"

definition pinned_parent :: "os_env \<Rightarrow> rust_str \<Rightarrow> ws_world \<Rightarrow> ws_world \<times> (nat \<times> rust_str) agent_result" where
  "pinned_parent env relative w =
     (case target_parts relative of
        Inl err \<Rightarrow> (w, Inl err)
      | Inr (parents, name) \<Rightarrow>
          (case open_root env w of
             (w1, Inl _) \<Rightarrow> (w1, Inl (Io (lit ''open workspace root for cleanup'')))
           | (w1, Inr root) \<Rightarrow> and_then (walk_cleanup env root parents w1) (\<lambda>w2 parent. (w2, Inr (parent, name)))))"

section \<open>Staged files\<close>

definition recorded_state_matches :: "tx_evidence \<Rightarrow> nat \<Rightarrow> rust_str \<Rightarrow> bool \<Rightarrow> bool" where
  "recorded_state_matches e bytes hash after \<longleftrightarrow>
     hash = (if after then te_after_hash e else te_before_hash e)
   \<and> (te_journal_version e = LEGACY_JOURNAL_VERSION
      \<or> (if after then te_bytes_after e else te_bytes_before e) = Some bytes)"

definition remove_verified_staged_file ::
  "os_env \<Rightarrow> nat \<Rightarrow> tx_evidence \<Rightarrow> nat \<Rightarrow> ws_world \<Rightarrow> ws_world \<times> (rust_str + nat)" where
  "remove_verified_staged_file env parent e budget w =
     (let name = te_temp_name e in
      case open_staged_for_cleanup env parent name w of
        (w1, Inl err) \<Rightarrow> if err = IoNotFound then (w1, Inr budget)
                         else (w1, Inl (lit ''could not open staged transaction''))
      | (w1, Inr handle) \<Rightarrow>
         (case file_metadata env handle w1 of
            (w2, Inl _) \<Rightarrow> (w2, Inl (lit ''could not inspect staged transaction''))
          | (w2, Inr (is_file, len)) \<Rightarrow>
              if \<not> is_file then (w2, Inl (lit ''staged transaction is not a regular file''))
              else
         (case named_entry_matches_file env parent name handle w2 of
            (w3, Inl _) \<Rightarrow> (w3, Inl (lit ''could not bind staged transaction''))
          | (w3, Inr same) \<Rightarrow>
              if \<not> same then (w3, Inl (lit ''staged transaction name does not identify its opened file''))
              else
         (case hash_reader_bounded env handle len (recovery_hash_for e) budget w3 of
            (w4, Inl err) \<Rightarrow> (w4, Inl (lit ''could not verify staged transaction: '' @ error_display err))
          | (w4, Inr (bytes, hash, budget')) \<Rightarrow>
              if \<not> recorded_state_matches e bytes hash True
              then (w4, Inl (lit ''staged transaction does not match its expected content''))
              else
         (case named_entry_matches_file env parent name handle w4 of
            (w5, Inl _) \<Rightarrow> (w5, Inl (lit ''could not rebind staged transaction''))
          | (w5, Inr same) \<Rightarrow>
              if \<not> same then (w5, Inl (lit ''staged transaction changed while it was verified''))
              else
         (case remove_open_file env parent handle name w5 of
            (w6, Inl _) \<Rightarrow> (w6, Inl (lit ''could not clean staged transaction''))
          | (w6, Inr ()) \<Rightarrow>
         (case sync_all env w6 of
            (w7, Inl _) \<Rightarrow> (w7, Inl (lit ''could not sync staged cleanup''))
          | (w7, Inr ()) \<Rightarrow> (w7, Inr budget'))))))))"

section \<open>Reconciling an effect\<close>

datatype workspace_effect_recovery =
    WsNotManaged
  | WsNotApplied "rust_str list"
  | WsApplied "rust_str list" bool
  | WsAmbiguous "rust_str list" rust_str

definition ambiguous :: "rust_str list \<Rightarrow> rust_str \<Rightarrow> workspace_effect_recovery" where
  "ambiguous tx_ids reason = WsAmbiguous tx_ids (bound_utf8 reason MAX_REASON_BYTES)"

text \<open>What one inspected transaction contributes: it is applied with or without a commit record, closed, not applied, or unclear.\<close>

datatype row_verdict = RowCommitted | RowApplied | RowClosed | RowNotApplied | RowAmbiguous rust_str

fun directory_verdict :: "tx_terminal option \<Rightarrow> current_target \<Rightarrow> row_verdict" where
  "directory_verdict (Some TxRolledBack) _ = RowClosed"
| "directory_verdict (Some (TxCommitted (Some expected))) (TargetDirectory identity) =
     (if expected = identity then RowCommitted
      else RowAmbiguous (lit ''committed directory transaction target identity does not match''))"
| "directory_verdict None TargetMissing = RowNotApplied"
| "directory_verdict None (TargetDirectory _) =
     RowAmbiguous (lit ''prepared directory transaction exists without a committed identity'')"
| "directory_verdict (Some (TxCommitted _)) _ =
     RowAmbiguous (lit ''committed directory transaction target identity does not match'')"
| "directory_verdict None (TargetFile _ _) = RowAmbiguous (lit ''directory transaction target is a file'')"

definition is_after :: "tx_evidence \<Rightarrow> current_target \<Rightarrow> bool" where
  "is_after e t = (case t of TargetFile bytes hash \<Rightarrow> recorded_state_matches e bytes hash True | _ \<Rightarrow> False)"

definition is_before :: "tx_evidence \<Rightarrow> current_target \<Rightarrow> bool" where
  "is_before e t = (case t of
     TargetMissing \<Rightarrow> \<not> te_target_existed e
   | TargetFile bytes hash \<Rightarrow> te_target_existed e \<and> recorded_state_matches e bytes hash False
   | TargetDirectory _ \<Rightarrow> False)"

definition file_verdict :: "tx_evidence \<Rightarrow> current_target \<Rightarrow> row_verdict" where
  "file_verdict e t =
     (case te_terminal e of
        Some (TxCommitted _) \<Rightarrow>
          if is_after e t then RowCommitted
          else RowAmbiguous (lit ''committed transaction target does not match after hash'')
      | Some TxRolledBack \<Rightarrow>
          if is_before e t then RowClosed
          else RowAmbiguous (lit ''rolled-back transaction target does not match before state'')
      | None \<Rightarrow>
          if is_after e t \<and> \<not> is_before e t then RowApplied
          else if is_before e t then RowNotApplied
          else RowAmbiguous (lit ''prepared transaction target matches neither before nor after state''))"

definition verdict_for :: "tx_evidence \<Rightarrow> current_target \<Rightarrow> row_verdict" where
  "verdict_for e t = (if te_entry_kind e = EntryDirectory then directory_verdict (te_terminal e) t else file_verdict e t)"

record tally =
  ta_applied :: nat
  ta_committed :: nat
  ta_not_applied :: "(rust_str \<times> tx_evidence) list"
  ta_budget :: nat

text \<open>The first loop. \<open>Inr (Inl reason)\<close> is the early return of an ambiguous answer.\<close>

fun inspect_rows ::
  "os_env \<Rightarrow> (rust_str \<times> tx_evidence) list \<Rightarrow> tally \<Rightarrow> ws_world \<Rightarrow> ws_world \<times> (rust_str + tally) agent_result" where
  "inspect_rows env [] ta w = (w, Inr (Inr ta))"
| "inspect_rows env ((tx_id, e) # rows) ta w =
     and_then (inspect_target env e (ta_budget ta) w) (\<lambda>w1 (t, budget).
       let ta = ta\<lparr>ta_budget := budget\<rparr> in
       (case verdict_for e t of
          RowAmbiguous reason \<Rightarrow> (w1, Inr (Inl reason))
        | RowClosed \<Rightarrow> inspect_rows env rows ta w1
        | RowCommitted \<Rightarrow>
            inspect_rows env rows (ta\<lparr>ta_applied := Suc (ta_applied ta), ta_committed := Suc (ta_committed ta)\<rparr>) w1
        | RowApplied \<Rightarrow> inspect_rows env rows (ta\<lparr>ta_applied := Suc (ta_applied ta)\<rparr>) w1
        | RowNotApplied \<Rightarrow> inspect_rows env rows (ta\<lparr>ta_not_applied := ta_not_applied ta @ [(tx_id, e)]\<rparr>) w1))"

text \<open>The second loop: clean up and close every transaction that did not land.\<close>

fun close_rows ::
  "os_env \<Rightarrow> (rust_str \<times> tx_evidence) list \<Rightarrow> nat \<Rightarrow> ws_world \<Rightarrow> ws_world \<times> (rust_str + unit) agent_result" where
  "close_rows env [] budget w = (w, Inr (Inr ()))"
| "close_rows env ((tx_id, e) # rows) budget w =
     and_then
       (if te_entry_kind e = EntryFile
        then and_then (pinned_parent env (te_relative_target e) w) (\<lambda>w1 (parent, _).
               (case remove_verified_staged_file env parent e budget w1 of (w2, res) \<Rightarrow> (w2, Inr res)))
        else (w, Inr (Inr budget)))
       (\<lambda>w1 cleaned.
          case cleaned of
            Inl reason \<Rightarrow> (w1, Inr (Inl reason))
          | Inr budget' \<Rightarrow>
              (case world_append env (WsRolledBack tx_id) w1 of
                 (w2, Inl err) \<Rightarrow> (w2, Inr (Inl (lit ''could not persist staged cleanup: '' @ error_display err)))
               | (w2, Inr ()) \<Rightarrow> close_rows env rows budget' w2))"

definition reconcile_workspace_effect ::
  "os_env \<Rightarrow> operation_effect_context \<Rightarrow> ws_world \<Rightarrow> ws_world \<times> workspace_effect_recovery agent_result" where
  "reconcile_workspace_effect env ctx w =
     (case evidence_for (wd_journal w) ctx of
        Inl e \<Rightarrow> (w, Inl e)
      | Inr rows \<Rightarrow>
          if rows = [] then (w, Inr WsNotManaged)
          else let tx_ids = map fst rows in
           and_then (inspect_rows env rows
               \<lparr>ta_applied = 0, ta_committed = 0, ta_not_applied = [], ta_budget = MAX_RECONCILIATION_READ_BYTES\<rparr> w)
             (\<lambda>w1 inspected. case inspected of
                Inl reason \<Rightarrow> (w1, Inr (ambiguous tx_ids reason))
              | Inr ta \<Rightarrow>
                  and_then (close_rows env (ta_not_applied ta) (ta_budget ta) w1) (\<lambda>w2 closed. case closed of
                    Inl reason \<Rightarrow> (w2, Inr (ambiguous tx_ids reason))
                  | Inr () \<Rightarrow>
                      (w2, Inr (if 0 < ta_applied ta
                                then WsApplied tx_ids (ta_applied ta = length rows \<and> ta_committed ta = length rows)
                                else WsNotApplied tx_ids)))))"

section \<open>The reconciler of the kernel\<close>

fun join_ids :: "rust_str list \<Rightarrow> rust_str" where
  "join_ids [] = []"
| "join_ids [x] = x"
| "join_ids (x # y # ys) = x @ lit '','' @ join_ids (y # ys)"

definition transaction_evidence :: "rust_str list \<Rightarrow> rust_str option" where
  "transaction_evidence ids = Some (bound_utf8 (lit ''workspace-tx:'' @ join_ids ids) 512)"

definition workspace_reconcile ::
  "os_env \<Rightarrow> (uuid \<Rightarrow> rust_str) \<Rightarrow> terminate_tree \<Rightarrow> operation_effect_context \<Rightarrow> ws_world
     \<Rightarrow> ws_world \<times> effect_reconciliation agent_result" where
  "workspace_reconcile env show_uuid terminate ctx w =
     and_then (reconcile_workspace_effect env ctx w) (\<lambda>w1 result.
       (w1, case result of
          WsNotManaged \<Rightarrow> result_bind (process_reconcile terminate (wd_process w1) ctx) (\<lambda>r.
             if r = ReconcileNotManaged then remote_reconcile show_uuid (wd_remote w1) ctx else Inr r)
        | WsNotApplied tx_ids \<Rightarrow> Inr (ReconcileNotApplied (transaction_evidence tx_ids))
        | WsApplied tx_ids complete \<Rightarrow> Inr (ReconcileApplied
             (if complete then Durable else DurabilityFailed (lit ''workspace composite effect was only partially applied''))
             (transaction_evidence tx_ids))
        | WsAmbiguous _ reason \<Rightarrow> Inr (ReconcileAmbiguous reason)))"

end
