(* ===== verification/Workspace_Mutation.thy ===== *)
theory Workspace_Mutation
  imports Workspace_Reconcile
begin

text \<open>
  Workspace effects: \<open>MutationTransaction\<close>, \<open>PreparedMutation\<close> and \<open>PreparedDirectoryCreation\<close> of
  \<^verbatim>\<open>crates/agent-workspace/src/lib.rs\<close>. A file is staged under a hidden name after its intent is in the journal, and committed by
  an atomic rename; a directory is made only at commit. The result of path resolution (\<open>resolve_mutation\<close>) is an argument: the
  components of the target below the workspace root. Leases on paths only order tasks of this process; permissions, timestamps
  and the review text of a change are left out. A failed size check of a change record is one of the failures of its append.
\<close>

section \<open>Opening a target\<close>

definition confined_io_error :: "rust_str \<Rightarrow> io_error \<Rightarrow> agent_error" where
  "confined_io_error operation e =
     (if e = IoInvalidData then InvalidRequest operation
      else if e = IoNotFound then Io (operation @ lit '': not found'')
      else Io operation)"

text \<open>\<open>state_dir\<close>: the runtime state directory, when it is below the root; \<^verbatim>\<open>.focus-agent\<close> is always reserved.\<close>

definition is_runtime_state_path :: "rust_str list option \<Rightarrow> rust_str list \<Rightarrow> bool" where
  "is_runtime_state_path state_dir path \<longleftrightarrow>
     take 1 path = [lit ''.focus-agent''] \<or> (case state_dir of Some s \<Rightarrow> take (length s) path = s | None \<Rightarrow> False)"

fun descend ::
  "os_env \<Rightarrow> rust_str list option \<Rightarrow> rust_str list \<Rightarrow> nat \<Rightarrow> rust_str list \<Rightarrow> ws_world \<Rightarrow> ws_world \<times> nat agent_result" where
  "descend env state_dir shown dir [] w = (w, Inr dir)"
| "descend env state_dir shown dir (part # parts) w =
     (if is_runtime_state_path state_dir (shown @ [part])
      then (w, Inl (InvalidRequest (lit ''mutations inside the runtime state directory are not allowed'')))
      else (case open_child_dir env dir part w of
          (w1, Inr child) \<Rightarrow> descend env state_dir (shown @ [part]) child parts w1
        | (w1, Inl e) \<Rightarrow>
            if e = IoNotFound then (w1, Inl (InvalidRequest (lit ''mutation parent directory not found'')))
            else (w1, Inl (confined_io_error (lit ''open dir'') e))))"

definition confined_existing_parent ::
  "os_env \<Rightarrow> rust_str list option \<Rightarrow> rust_str list \<Rightarrow> ws_world \<Rightarrow> ws_world \<times> nat agent_result" where
  "confined_existing_parent env state_dir parts w =
     (case open_root env w of
        (w1, Inl _) \<Rightarrow> (w1, Inl (Io (lit ''open workspace root handle'')))
      | (w1, Inr root) \<Rightarrow> descend env state_dir [] root parts w1)"

record mutation_transaction =
  mt_parent :: nat
  mt_target_name :: rust_str
  mt_relative :: rust_str
  mt_bytes_before :: nat
  mt_target_existed :: bool
  mt_before_hash :: rust_str
  mt_before_revision :: "digest option"
  mt_tx_id :: rust_str

text \<open>
  \<open>show_path\<close> writes the components of the target as the relative path, with a slash for every backslash, also for one inside
  a name; \<open>tx_id\<close> is the fresh transaction id.
\<close>

definition show_path :: "rust_str list \<Rightarrow> rust_str" where
  "show_path parts = map (\<lambda>c. if c = 92 then 47 else c) (join_slash parts)"

definition begin_mutation ::
  "os_env \<Rightarrow> rust_str list option \<Rightarrow> rust_str list \<Rightarrow> rust_str \<Rightarrow> ws_world \<Rightarrow> ws_world \<times> mutation_transaction agent_result" where
  "begin_mutation env state_dir target tx_id w =
     (if target = [] then (w, Inl (InvalidRequest (lit ''no file name'')))
      else and_then (confined_existing_parent env state_dir (butlast target) w) (\<lambda>w1 parent.
        let tx = \<lparr>mt_parent = parent, mt_target_name = last target, mt_relative = show_path target, mt_bytes_before = 0,
              mt_target_existed = False, mt_before_hash = content_hash [], mt_before_revision = None, mt_tx_id = tx_id\<rparr> in
        (case open_existing env parent (last target) w1 of
           (w2, Inl e) \<Rightarrow> if e = IoNotFound then (w2, Inr tx) else (w2, Inl (confined_io_error (lit ''inspect'') e))
         | (w2, Inr handle) \<Rightarrow>
             (case file_metadata env handle w2 of
                (w3, Inl _) \<Rightarrow> (w3, Inl (Io (lit ''metadata'')))
              | (w3, Inr (is_file, len)) \<Rightarrow>
                  if \<not> is_file then (w3, Inr (tx\<lparr>mt_bytes_before := len, mt_target_existed := True\<rparr>))
                  else if MAX_MUTATION_BYTES < len
                  then (w3, Inl (InvalidRequest (lit ''file is '' @ dec len @ lit '' bytes; workspace mutations are limited to ''
                         @ dec MAX_MUTATION_BYTES @ lit '' bytes'')))
                  else (case read_open_file env handle w3 of
                      (w4, Inl _) \<Rightarrow> (w4, Inl (Io (lit ''read'')))
                    | (w4, Inr bytes) \<Rightarrow>
                        if MAX_MUTATION_BYTES < length bytes
                        then (w4, Inl (InvalidRequest (lit ''file grew beyond the workspace mutation limit of ''
                               @ dec MAX_MUTATION_BYTES @ lit '' bytes while it was read'')))
                        else (w4, Inr (tx\<lparr>mt_bytes_before := length bytes, mt_target_existed := True,
                               mt_before_hash := content_hash bytes, mt_before_revision := Some (os_sha256 env bytes)\<rparr>)))))))"

section \<open>Staging\<close>

definition cleanup_staged_file :: "os_env \<Rightarrow> nat \<Rightarrow> rust_str \<Rightarrow> nat option \<Rightarrow> ws_world \<Rightarrow> ws_world \<times> bool" where
  "cleanup_staged_file env parent temp_name open_file w =
     (case (case open_file of Some handle \<Rightarrow> remove_open_file env parent handle temp_name w
                            | None \<Rightarrow> remove_named_file env parent temp_name w) of
        (w1, Inr ()) \<Rightarrow> (case sync_all env w1 of (w2, Inr ()) \<Rightarrow> (w2, True) | (w2, Inl _) \<Rightarrow> (w2, False))
      | (w1, Inl e) \<Rightarrow> (w1, open_file = None \<and> e = IoNotFound))"

text \<open>
  \<open>cleanup_now\<close> of the guard around a staged file: when it fails the guard stays armed, and its drop tries once more.
\<close>

definition staged_cleanup :: "os_env \<Rightarrow> nat \<Rightarrow> rust_str \<Rightarrow> nat \<Rightarrow> ws_world \<Rightarrow> ws_world \<times> bool" where
  "staged_cleanup env parent temp_name handle w =
     (case cleanup_staged_file env parent temp_name (Some handle) w of
        (w1, True) \<Rightarrow> (w1, True)
      | (w1, False) \<Rightarrow> (fst (cleanup_staged_file env parent temp_name (Some handle) w1), False))"

definition close_intent :: "os_env \<Rightarrow> operation_effect_context option \<Rightarrow> rust_str \<Rightarrow> ws_world \<Rightarrow> ws_world \<times> unit agent_result" where
  "close_intent env effect_context tx_id w =
     (if effect_context = None then (w, Inr ()) else world_append env (WsRolledBack tx_id) w)"

record prepared_mutation =
  pm_parent :: nat
  pm_target_name :: rust_str
  pm_tx_id :: rust_str
  pm_temp_name :: "rust_str option"
  pm_temp_file :: "nat option"
  pm_effect_context :: "operation_effect_context option"
  pm_finished :: bool
  pm_relative_target :: rust_str
  pm_staged_bytes :: nat
  pm_staged_revision :: digest
  pm_bytes_before :: nat
  pm_target_existed :: bool
  pm_before_revision :: "digest option"

definition intent_of :: "os_env \<Rightarrow> mutation_transaction \<Rightarrow> operation_effect_context \<Rightarrow> byte list \<Rightarrow> ws_prepared" where
  "intent_of env tx ctx content =
     \<lparr>wp_tx_id = mt_tx_id tx, wp_context = ctx, wp_relative_target = mt_relative tx, wp_temp_name = staging_name (mt_tx_id tx),
      wp_target_existed = mt_target_existed tx,
      wp_before_hash = digest_to_string (case mt_before_revision tx of Some r \<Rightarrow> r | None \<Rightarrow> os_sha256 env []),
      wp_after_hash = digest_to_string (os_sha256 env content),
      wp_bytes_before = Some (mt_bytes_before tx), wp_bytes_after = Some (length content), wp_entry_kind = EntryFile\<rparr>"

definition persist_intent ::
  "os_env \<Rightarrow> mutation_transaction \<Rightarrow> operation_effect_context option \<Rightarrow> byte list \<Rightarrow> ws_world \<Rightarrow> ws_world \<times> unit agent_result" where
  "persist_intent env tx effect_context content w =
     (case effect_context of
        None \<Rightarrow> (w, Inr ())
      | Some ctx \<Rightarrow> world_append env (WsPrepared (intent_of env tx ctx content)) w)"

text \<open>An error after the file was created: remove the file, then close the intent, and report what could not be confirmed.\<close>

definition abandon_stage ::
  "os_env \<Rightarrow> mutation_transaction \<Rightarrow> operation_effect_context option \<Rightarrow> nat \<Rightarrow> rust_str \<Rightarrow> agent_error \<Rightarrow> ws_world
     \<Rightarrow> ws_world \<times> prepared_mutation agent_result" where
  "abandon_stage env tx effect_context handle reason error w =
     (case staged_cleanup env (mt_parent tx) (staging_name (mt_tx_id tx)) handle w of
        (w1, False) \<Rightarrow> (w1, Inl (RecoveryRequired (reason @ lit ''; staged file cleanup could not be confirmed'')))
      | (w1, True) \<Rightarrow>
          (case close_intent env effect_context (mt_tx_id tx) w1 of
             (w2, Inl _) \<Rightarrow> (w2, Inl (RecoveryRequired (reason @ lit ''; close workspace authority intent'')))
           | (w2, Inr ()) \<Rightarrow> (w2, Inl error)))"

definition fill_stage ::
  "os_env \<Rightarrow> mutation_transaction \<Rightarrow> byte list \<Rightarrow> operation_effect_context option \<Rightarrow> nat \<Rightarrow> ws_world
     \<Rightarrow> ws_world \<times> prepared_mutation agent_result" where
  "fill_stage env tx content effect_context handle w =
     (case write_and_sync env handle content w of
        (w1, Inl _) \<Rightarrow> abandon_stage env tx effect_context handle (lit ''stage mutation failed'') (Io (lit ''stage temp file'')) w1
      | (w1, Inr ()) \<Rightarrow>
          (case record_change env (MutationPrepared (mt_tx_id tx)) w1 of
             (w2, Inl error) \<Rightarrow> abandon_stage env tx effect_context handle (lit ''record mutation prepare failed'') error w2
           | (w2, Inr ()) \<Rightarrow>
               (w2, Inr \<lparr>pm_parent = mt_parent tx, pm_target_name = mt_target_name tx, pm_tx_id = mt_tx_id tx,
                  pm_temp_name = Some (staging_name (mt_tx_id tx)), pm_temp_file = Some handle, pm_effect_context = effect_context,
                  pm_finished = False, pm_relative_target = mt_relative tx, pm_staged_bytes = length content,
                  pm_staged_revision = os_sha256 env content, pm_bytes_before = mt_bytes_before tx,
                  pm_target_existed = mt_target_existed tx, pm_before_revision = mt_before_revision tx\<rparr>)))"

definition prepare_inner ::
  "os_env \<Rightarrow> mutation_transaction \<Rightarrow> byte list \<Rightarrow> operation_effect_context option \<Rightarrow> ws_world
     \<Rightarrow> ws_world \<times> prepared_mutation agent_result" where
  "prepare_inner env tx content effect_context w =
     (if MAX_MUTATION_BYTES < length content
      then (w, Inl (InvalidRequest (lit ''workspace mutation is '' @ dec (length content) @ lit '' bytes; the limit is ''
             @ dec MAX_MUTATION_BYTES @ lit '' bytes'')))
      else and_then (persist_intent env tx effect_context content w) (\<lambda>w1 _.
        (case create_new_file env (mt_parent tx) (staging_name (mt_tx_id tx)) w1 of
           (w2, Inl e) \<Rightarrow>
             (case close_intent env effect_context (mt_tx_id tx) w2 of
                (w3, Inl _) \<Rightarrow> (w3, Inl (RecoveryRequired (lit ''create temp; close workspace authority intent'')))
              | (w3, Inr ()) \<Rightarrow> (w3, Inl (confined_io_error (lit ''create temp'') e)))
         | (w2, Inr handle) \<Rightarrow> fill_stage env tx content effect_context handle w2)))"

definition prepare_with_effect_context ::
  "os_env \<Rightarrow> mutation_transaction \<Rightarrow> byte list \<Rightarrow> operation_effect_context \<Rightarrow> ws_world \<Rightarrow> ws_world \<times> prepared_mutation agent_result" where
  "prepare_with_effect_context env tx content ctx w =
     (case effect_context_validate ctx of
        Inl m \<Rightarrow> (w, Inl (InvalidRequest m))
      | Inr () \<Rightarrow> prepare_inner env tx content (Some ctx) w)"

section \<open>Commit and rollback of a file\<close>

definition bounded_open_file_revision :: "os_env \<Rightarrow> nat \<Rightarrow> ws_world \<Rightarrow> ws_world \<times> (io_error + nat \<times> digest)" where
  "bounded_open_file_revision env handle w =
     and_then (file_metadata env handle w) (\<lambda>w1 (is_file, len).
       if \<not> is_file then (w1, Inl IoInvalidInput)
       else if MAX_MUTATION_BYTES < len then (w1, Inl IoInvalidData)
       else and_then (read_open_file env handle w1) (\<lambda>w2 bytes.
         if MAX_MUTATION_BYTES < length bytes then (w2, Inl IoInvalidData)
         else (w2, Inr (length bytes, os_sha256 env bytes))))"

definition target_still_matches_snapshot :: "os_env \<Rightarrow> prepared_mutation \<Rightarrow> ws_world \<Rightarrow> ws_world \<times> (io_error + bool)" where
  "target_still_matches_snapshot env m w =
     (case open_existing env (pm_parent m) (pm_target_name m) w of
        (w1, Inl e) \<Rightarrow> if e = IoNotFound then (w1, Inr (\<not> pm_target_existed m)) else (w1, Inl e)
      | (w1, Inr handle) \<Rightarrow>
          if \<not> pm_target_existed m then (w1, Inr False)
          else and_then (file_metadata env handle w1) (\<lambda>w2 (is_file, _).
            if \<not> is_file then (w2, Inr (pm_before_revision m = None))
            else and_then (bounded_open_file_revision env handle w2) (\<lambda>w3 (bytes, current).
              (w3, Inr (bytes = pm_bytes_before m \<and> pm_before_revision m = Some current)))))"

text \<open>The name identifies the open handle, and the handle has the staged content: checked for the staged and for the final name.\<close>

definition named_content_matches :: "os_env \<Rightarrow> prepared_mutation \<Rightarrow> rust_str \<Rightarrow> ws_world \<Rightarrow> ws_world \<times> (io_error + bool)" where
  "named_content_matches env m name w =
     (case pm_temp_file m of
        None \<Rightarrow> (w, Inl IoNotFound)
      | Some handle \<Rightarrow>
          and_then (named_entry_matches_file env (pm_parent m) name handle w) (\<lambda>w1 same.
            if \<not> same then (w1, Inr False)
            else and_then (bounded_open_file_revision env handle w1) (\<lambda>w2 (bytes, revision).
              and_then (named_entry_matches_file env (pm_parent m) name handle w2) (\<lambda>w3 same.
                if \<not> same then (w3, Inr False)
                else (w3, Inr (bytes = pm_staged_bytes m \<and> revision = pm_staged_revision m))))))"

definition staged_file_matches_expected :: "os_env \<Rightarrow> prepared_mutation \<Rightarrow> rust_str \<Rightarrow> ws_world \<Rightarrow> ws_world \<times> (io_error + bool)" where
  "staged_file_matches_expected env m temp_name = named_content_matches env m temp_name"

definition committed_target_matches_staged :: "os_env \<Rightarrow> prepared_mutation \<Rightarrow> ws_world \<Rightarrow> ws_world \<times> (io_error + bool)" where
  "committed_target_matches_staged env m = named_content_matches env m (pm_target_name m)"

definition cleanup_staged :: "os_env \<Rightarrow> prepared_mutation \<Rightarrow> rust_str \<Rightarrow> ws_world \<Rightarrow> prepared_mutation \<times> ws_world \<times> bool" where
  "cleanup_staged env m temp_name w =
     (case cleanup_staged_file env (pm_parent m) temp_name (pm_temp_file m) w of
        (w1, cleaned) \<Rightarrow> (if cleaned then m\<lparr>pm_temp_file := None\<rparr> else m, w1, cleaned))"

definition record_rolled_back :: "os_env \<Rightarrow> prepared_mutation \<Rightarrow> rust_str \<Rightarrow> ws_world \<Rightarrow> ws_world \<times> unit agent_result" where
  "record_rolled_back env m reason w =
     and_then (close_intent env (pm_effect_context m) (pm_tx_id m) w) (\<lambda>w1 _.
       record_change env (MutationRolledBack (pm_tx_id m) reason) w1)"

definition settle_not_applied ::
  "os_env \<Rightarrow> prepared_mutation \<Rightarrow> rust_str \<Rightarrow> rust_str \<Rightarrow> ws_world \<Rightarrow> prepared_mutation \<times> ws_world \<times> effect_receipt" where
  "settle_not_applied env m temp_name reason w =
     (case cleanup_staged env m temp_name w of
        (m1, w1, False) \<Rightarrow>
          (m1, w1, ReceiptUnknown (reason @ lit ''; staged temp cleanup could not be confirmed and recovery is required''))
      | (m1, w1, True) \<Rightarrow>
          let m2 = m1\<lparr>pm_temp_name := None, pm_finished := True\<rparr> in
          (case record_rolled_back env m2 reason w1 of
             (w2, Inr ()) \<Rightarrow> (m2, w2, ReceiptNotApplied reason)
           | (w2, Inl error) \<Rightarrow>
               (m2, w2, ReceiptUnknown (reason @ lit ''; rollback journal could not be confirmed and recovery is required: ''
                  @ error_display error))))"

text \<open>After the rename: from here on every failure is one of durability.\<close>

definition applied_but :: "prepared_mutation \<Rightarrow> rust_str \<Rightarrow> effect_receipt" where
  "applied_but m reason = ReceiptApplied (DurabilityFailed reason) (Some (pm_tx_id m))"

definition acknowledge_commit :: "os_env \<Rightarrow> prepared_mutation \<Rightarrow> ws_world \<Rightarrow> ws_world \<times> effect_receipt" where
  "acknowledge_commit env m w =
     (case (if pm_effect_context m = None then (w, Inr ()) else world_append env (WsCommitted (pm_tx_id m) None) w) of
        (w1, Inl error) \<Rightarrow> (w1, applied_but m (error_display error))
      | (w1, Inr ()) \<Rightarrow>
          (case record_change env (MutationCommitted (pm_tx_id m)) w1 of
             (w2, Inl error) \<Rightarrow> (w2, applied_but m (error_display error))
           | (w2, Inr ()) \<Rightarrow>
               (case committed_target_matches_staged env m w2 of
                  (w3, Inr True) \<Rightarrow> (w3, ReceiptApplied Durable (Some (pm_tx_id m)))
                | (w3, Inr False) \<Rightarrow> (w3, applied_but m (lit ''committed target changed before durable acknowledgement''))
                | (w3, Inl _) \<Rightarrow> (w3, applied_but m (lit ''final committed target verification failed'')))))"

definition finish_commit :: "os_env \<Rightarrow> prepared_mutation \<Rightarrow> ws_world \<Rightarrow> ws_world \<times> effect_receipt" where
  "finish_commit env m w =
     (case committed_target_matches_staged env m w of
        (w1, Inl _) \<Rightarrow> (w1, ReceiptUnknown (lit ''atomic replace returned success but committed target verification failed''))
      | (w1, Inr False) \<Rightarrow>
          (w1, ReceiptUnknown (lit ''atomic replace returned success but the target does not contain the staged bytes''))
      | (w1, Inr True) \<Rightarrow>
          (case sync_all env w1 of
             (w2, Inl _) \<Rightarrow> (w2, applied_but m (lit ''sync committed mutation parent''))
           | (w2, Inr ()) \<Rightarrow> acknowledge_commit env m w2))"

text \<open>The case of a missing handle after the integrity check is a panic of the source; the check itself already fails without a handle.\<close>

definition replace_target ::
  "os_env \<Rightarrow> prepared_mutation \<Rightarrow> rust_str \<Rightarrow> ws_world \<Rightarrow> prepared_mutation \<times> ws_world \<times> effect_receipt" where
  "replace_target env m temp_name w =
     (case pm_temp_file m of
        None \<Rightarrow> (m, w, ReceiptUnknown (lit ''prepare created the staged file''))
      | Some handle \<Rightarrow>
          (case replace_file env (pm_parent m) handle temp_name (pm_target_name m) w of
             (w1, Inl _) \<Rightarrow> settle_not_applied env m temp_name (lit ''commit failed'') w1
           | (w1, Inr ()) \<Rightarrow>
               let m1 = m\<lparr>pm_temp_name := None, pm_finished := True\<rparr> in
               (case finish_commit env m1 w1 of (w2, receipt) \<Rightarrow> (m1, w2, receipt))))"

definition commit_staged :: "os_env \<Rightarrow> prepared_mutation \<Rightarrow> ws_world \<Rightarrow> prepared_mutation \<times> ws_world \<times> effect_receipt" where
  "commit_staged env m w =
     (case pm_temp_name m of
        None \<Rightarrow> (m, w, ReceiptUnknown (lit ''prepared mutation lost its staged temp identity''))
      | Some temp_name \<Rightarrow>
          (case target_still_matches_snapshot env m w of
             (w1, Inl _) \<Rightarrow> settle_not_applied env m temp_name
                (lit ''commit precondition could not inspect current target; staged content was not applied'') w1
           | (w1, Inr False) \<Rightarrow> settle_not_applied env m temp_name
                (lit ''stale_revision: target changed after mutation preflight; staged content was not applied'') w1
           | (w1, Inr True) \<Rightarrow>
               (case staged_file_matches_expected env m temp_name w1 of
                  (w2, Inl _) \<Rightarrow> settle_not_applied env m temp_name (lit ''staged_integrity: could not verify staged content'') w2
                | (w2, Inr False) \<Rightarrow> settle_not_applied env m temp_name
                     (lit ''staged_integrity: staged name, length, or content changed before commit'') w2
                | (w2, Inr True) \<Rightarrow> replace_target env m temp_name w2)))"

text \<open>Dropping the value tries a cleanup that has not succeeded yet.\<close>

definition drop_prepared :: "os_env \<Rightarrow> prepared_mutation \<Rightarrow> ws_world \<Rightarrow> ws_world" where
  "drop_prepared env m w =
     (case pm_temp_name m of
        Some temp_name \<Rightarrow> if pm_finished m then w else fst (snd (cleanup_staged env m temp_name w))
      | None \<Rightarrow> w)"

definition mutation_commit :: "os_env \<Rightarrow> prepared_mutation \<Rightarrow> ws_world \<Rightarrow> ws_world \<times> effect_receipt" where
  "mutation_commit env m w = (case commit_staged env m w of (m1, w1, receipt) \<Rightarrow> (drop_prepared env m1 w1, receipt))"

definition mutation_rollback :: "os_env \<Rightarrow> prepared_mutation \<Rightarrow> rust_str \<Rightarrow> ws_world \<Rightarrow> ws_world \<times> unit agent_result" where
  "mutation_rollback env m reason w =
     (case (case pm_temp_name m of Some temp_name \<Rightarrow> cleanup_staged env m temp_name w | None \<Rightarrow> (m, w, True)) of
        (m1, w1, False) \<Rightarrow> (drop_prepared env m1 w1, Inl (RecoveryRequired (lit ''workspace mutation staged temp cleanup could not be confirmed'')))
      | (m1, w1, True) \<Rightarrow>
          (case record_rolled_back env (m1\<lparr>pm_temp_name := None, pm_finished := True\<rparr>) reason w1 of
             (w2, Inr ()) \<Rightarrow> (w2, Inr ())
           | (w2, Inl error) \<Rightarrow> (w2, Inl (RecoveryRequired (lit ''workspace mutation rollback journal could not be confirmed: ''
                @ error_display error)))))"

end
