(* ===== verification/Workspace_Directory.thy ===== *)
theory Workspace_Directory
  imports Workspace_Mutation
begin

text \<open>
  Creation of one directory: \<open>prepare_directory_creation\<close> and \<open>PreparedDirectoryCreation\<close> of
  \<^verbatim>\<open>crates/agent-workspace/src/lib.rs\<close>, and the directory calls of \<open>ConfinedDir\<close>. Nothing is staged: the intent is journaled, and
  commit makes the directory, binds its identity, and records it.
\<close>

section \<open>Directory calls\<close>

definition named_entry_matches_dir :: "os_env \<Rightarrow> nat \<Rightarrow> rust_str \<Rightarrow> nat \<Rightarrow> ws_world \<Rightarrow> ws_world \<times> (io_error + bool)" where
  "named_entry_matches_dir env dir name child w =
     and_then (open_child_dir env dir name w) (\<lambda>w1 named.
     and_then (entry_identity env named w1) (\<lambda>w2 named_identity.
     and_then (entry_identity env child w2) (\<lambda>w3 child_identity. (w3, Inr (named_identity = child_identity)))))"

definition make_dir :: "os_env \<Rightarrow> nat \<Rightarrow> rust_str \<Rightarrow> ws_world \<Rightarrow> ws_world \<times> (io_error + unit)" where
  "make_dir env dir name w =
     os_call env (\<lambda>fs.
       if fs_entries fs (dir, name) \<noteq> None then Inl IoOther
       else let i = os_inode env (wd_tick w)
            in Inr (fs\<lparr>fs_nodes := (fs_nodes fs)(i \<mapsto> DirectoryNode), fs_entries := (fs_entries fs)((dir, name) \<mapsto> i)\<rparr>, ())) w"

record directory_create_error =
  dc_may_have_created :: bool

definition create_workspace_child_dir ::
  "os_env \<Rightarrow> nat \<Rightarrow> rust_str \<Rightarrow> ws_world \<Rightarrow> ws_world \<times> (directory_create_error + nat)" where
  "create_workspace_child_dir env dir name w =
     (case make_dir env dir name w of
        (w1, Inl _) \<Rightarrow> (w1, Inl \<lparr>dc_may_have_created = False\<rparr>)
      | (w1, Inr ()) \<Rightarrow>
          (case open_child_dir env dir name w1 of
             (w2, Inl _) \<Rightarrow> (w2, Inl \<lparr>dc_may_have_created = True\<rparr>)
           | (w2, Inr child) \<Rightarrow>
               (case named_entry_matches_dir env dir name child w2 of
                  (w3, Inr True) \<Rightarrow> (w3, Inr child)
                | (w3, _) \<Rightarrow> (w3, Inl \<lparr>dc_may_have_created = True\<rparr>))))"

text \<open>Only an empty directory can be removed.\<close>

definition empty_dir :: "nat \<Rightarrow> ws_fs \<Rightarrow> bool" where
  "empty_dir i fs \<longleftrightarrow> (\<forall>name. fs_entries fs (i, name) = None)"

definition remove_open_dir :: "os_env \<Rightarrow> nat \<Rightarrow> nat \<Rightarrow> rust_str \<Rightarrow> ws_world \<Rightarrow> ws_world \<times> (io_error + unit)" where
  "remove_open_dir env dir child name w =
     and_then (named_entry_matches_dir env dir name child w) (\<lambda>w1 same.
       if \<not> same then (w1, Inl IoPermissionDenied)
       else os_call env (\<lambda>fs. case fs_entries fs (dir, name) of
           None \<Rightarrow> Inl IoNotFound
         | Some i \<Rightarrow> if fs_nodes fs i = Some DirectoryNode \<and> empty_dir i fs
                     then Inr (fs\<lparr>fs_entries := (fs_entries fs)((dir, name) := None)\<rparr>, ()) else Inl IoOther) w1)"

section \<open>Preparing\<close>

record prepared_directory =
  pd_parent :: nat
  pd_target_name :: rust_str
  pd_relative_target :: rust_str
  pd_tx_id :: rust_str
  pd_effect_context :: "operation_effect_context option"

datatype directory_creation_preparation = DirectoryAlreadyExists rust_str | DirectoryReady prepared_directory

definition directory_intent :: "rust_str \<Rightarrow> operation_effect_context \<Rightarrow> rust_str \<Rightarrow> ws_prepared" where
  "directory_intent tx_id ctx relative_target =
     \<lparr>wp_tx_id = tx_id, wp_context = ctx, wp_relative_target = relative_target, wp_temp_name = [], wp_target_existed = False,
      wp_before_hash = [], wp_after_hash = [], wp_bytes_before = Some 0, wp_bytes_after = Some 0, wp_entry_kind = EntryDirectory\<rparr>"

definition refuse_directory :: "os_env \<Rightarrow> nat \<Rightarrow> rust_str \<Rightarrow> io_error \<Rightarrow> ws_world \<Rightarrow> ws_world \<times> agent_error" where
  "refuse_directory env parent name e w =
     (case open_existing env parent name w of
        (w1, Inr handle) \<Rightarrow>
          (case file_metadata env handle w1 of
             (w2, Inr (True, _)) \<Rightarrow> (w2, InvalidRequest (lit ''directory target is an existing file''))
           | (w2, _) \<Rightarrow> (w2, confined_io_error (lit ''inspect directory'') e))
      | (w1, Inl _) \<Rightarrow> (w1, confined_io_error (lit ''inspect directory'') e))"

definition journal_directory ::
  "os_env \<Rightarrow> prepared_directory \<Rightarrow> ws_world \<Rightarrow> ws_world \<times> directory_creation_preparation agent_result" where
  "journal_directory env p w =
     and_then (case pd_effect_context p of
          None \<Rightarrow> (w, Inr ())
        | Some ctx \<Rightarrow> world_append env (WsPrepared (directory_intent (pd_tx_id p) ctx (pd_relative_target p))) w) (\<lambda>w1 _.
       (case record_change env (DirectoryPrepared (pd_tx_id p)) w1 of
          (w2, Inr ()) \<Rightarrow> (w2, Inr (DirectoryReady p))
        | (w2, Inl error) \<Rightarrow>
            (case close_intent env (pd_effect_context p) (pd_tx_id p) w2 of
               (w3, Inr ()) \<Rightarrow> (w3, Inl error)
             | (w3, Inl _) \<Rightarrow> (w3, Inl (RecoveryRequired (lit ''record directory prepare failed; close workspace authority intent''))))))"

definition prepare_directory_creation ::
  "os_env \<Rightarrow> rust_str list option \<Rightarrow> rust_str list \<Rightarrow> rust_str \<Rightarrow> operation_effect_context option \<Rightarrow> ws_world
     \<Rightarrow> ws_world \<times> directory_creation_preparation agent_result" where
  "prepare_directory_creation env state_dir target tx_id effect_context w =
     (case (case effect_context of Some ctx \<Rightarrow> effect_context_validate ctx | None \<Rightarrow> Inr ()) of
        Inl m \<Rightarrow> (w, Inl (InvalidRequest m))
      | Inr () \<Rightarrow>
          if target = [] then (w, Inl (InvalidRequest (lit ''cannot create the workspace root'')))
          else and_then (confined_existing_parent env state_dir (butlast target) w) (\<lambda>w1 parent.
            (case open_child_dir env parent (last target) w1 of
               (w2, Inr _) \<Rightarrow> (w2, Inr (DirectoryAlreadyExists (show_path target)))
             | (w2, Inl e) \<Rightarrow>
                 if e \<noteq> IoNotFound
                 then (case refuse_directory env parent (last target) e w2 of (w3, error) \<Rightarrow> (w3, Inl error))
                 else journal_directory env \<lparr>pd_parent = parent, pd_target_name = last target, pd_relative_target = show_path target,
                        pd_tx_id = tx_id, pd_effect_context = effect_context\<rparr> w2)))"

section \<open>Commit and rollback\<close>

definition directory_rolled_back :: "os_env \<Rightarrow> prepared_directory \<Rightarrow> rust_str \<Rightarrow> ws_world \<Rightarrow> ws_world \<times> unit agent_result" where
  "directory_rolled_back env p reason w =
     and_then (close_intent env (pd_effect_context p) (pd_tx_id p) w) (\<lambda>w1 _.
       record_change env (DirectoryRolledBack (pd_tx_id p) reason) w1)"

definition directory_not_applied :: "os_env \<Rightarrow> prepared_directory \<Rightarrow> rust_str \<Rightarrow> ws_world \<Rightarrow> ws_world \<times> effect_receipt" where
  "directory_not_applied env p reason w =
     (case directory_rolled_back env p reason w of
        (w1, Inr ()) \<Rightarrow> (w1, ReceiptNotApplied reason)
      | (w1, Inl error) \<Rightarrow>
          (w1, ReceiptUnknown (reason @ lit ''; directory rollback journal could not be confirmed: '' @ error_display error)))"

definition remove_created :: "os_env \<Rightarrow> prepared_directory \<Rightarrow> nat \<Rightarrow> rust_str \<Rightarrow> ws_world \<Rightarrow> ws_world \<times> effect_receipt" where
  "remove_created env p child reason w =
     (case remove_open_dir env (pd_parent p) child (pd_target_name p) w of
        (w1, Inl _) \<Rightarrow> (w1, ReceiptUnknown (reason @ lit ''; created directory cleanup could not be confirmed''))
      | (w1, Inr ()) \<Rightarrow>
          (case sync_all env w1 of
             (w2, Inl _) \<Rightarrow> (w2, ReceiptUnknown (reason @ lit ''; sync directory cleanup''))
           | (w2, Inr ()) \<Rightarrow> directory_not_applied env p reason w2))"

definition directory_applied_but :: "prepared_directory \<Rightarrow> rust_str \<Rightarrow> effect_receipt" where
  "directory_applied_but p reason = ReceiptApplied (DurabilityFailed reason) (Some (pd_tx_id p))"

definition acknowledge_directory ::
  "os_env \<Rightarrow> prepared_directory \<Rightarrow> nat \<Rightarrow> rust_str \<Rightarrow> ws_world \<Rightarrow> ws_world \<times> effect_receipt" where
  "acknowledge_directory env p child identity w =
     (case (if pd_effect_context p = None then (w, Inr ())
            else world_append env (WsCommitted (pd_tx_id p) (Some identity)) w) of
        (w1, Inl error) \<Rightarrow> (w1, directory_applied_but p (error_display error))
      | (w1, Inr ()) \<Rightarrow>
          (case record_change env (DirectoryCommitted (pd_tx_id p) identity) w1 of
             (w2, Inl error) \<Rightarrow> (w2, directory_applied_but p (error_display error))
           | (w2, Inr ()) \<Rightarrow>
               (case named_entry_matches_dir env (pd_parent p) (pd_target_name p) child w2 of
                  (w3, Inl _) \<Rightarrow> (w3, directory_applied_but p (lit ''final created directory identity verification failed''))
                | (w3, Inr False) \<Rightarrow> (w3, directory_applied_but p (lit ''created directory identity changed before durable acknowledgement''))
                | (w3, Inr True) \<Rightarrow>
                    (case entry_identity env child w3 of
                       (w4, res) \<Rightarrow> (w4, if res = Inr identity then ReceiptApplied Durable (Some (pd_tx_id p))
                          else directory_applied_but p (lit ''created directory identity changed before durable acknowledgement''))))))"

definition bind_directory :: "os_env \<Rightarrow> prepared_directory \<Rightarrow> nat \<Rightarrow> ws_world \<Rightarrow> ws_world \<times> effect_receipt" where
  "bind_directory env p child w =
     (case entry_identity env child w of
        (w1, Inl _) \<Rightarrow> remove_created env p child (lit ''created directory identity unavailable'') w1
      | (w1, Inr identity) \<Rightarrow>
          (case named_entry_matches_dir env (pd_parent p) (pd_target_name p) child w1 of
             (w2, Inl _) \<Rightarrow> remove_created env p child (lit ''created directory identity could not be rebound'') w2
           | (w2, Inr False) \<Rightarrow> remove_created env p child (lit ''created directory identity changed before commit'') w2
           | (w2, Inr True) \<Rightarrow>
               (case and_then (sync_all env w2) (\<lambda>w3 _. sync_all env w3) of
                  (w3, Inl _) \<Rightarrow> remove_created env p child (lit ''sync created directory'') w3
                | (w3, Inr ()) \<Rightarrow> acknowledge_directory env p child identity w3)))"

definition directory_commit :: "os_env \<Rightarrow> prepared_directory \<Rightarrow> ws_world \<Rightarrow> ws_world \<times> effect_receipt" where
  "directory_commit env p w =
     (case open_child_dir env (pd_parent p) (pd_target_name p) w of
        (w1, Inr _) \<Rightarrow> directory_not_applied env p (lit ''stale_precondition: directory appeared after prepare'') w1
      | (w1, Inl e) \<Rightarrow>
          if e \<noteq> IoNotFound then directory_not_applied env p (lit ''directory precondition could not be verified'') w1
          else (case create_workspace_child_dir env (pd_parent p) (pd_target_name p) w1 of
              (w2, Inl failure) \<Rightarrow>
                if dc_may_have_created failure
                then (w2, ReceiptUnknown (lit ''create directory reached the filesystem but its identity could not be bound''))
                else directory_not_applied env p (lit ''create directory'') w2
            | (w2, Inr child) \<Rightarrow> bind_directory env p child w2))"

definition directory_rollback :: "os_env \<Rightarrow> prepared_directory \<Rightarrow> rust_str \<Rightarrow> ws_world \<Rightarrow> ws_world \<times> unit agent_result" where
  "directory_rollback env p reason w =
     (case directory_rolled_back env p reason w of
        (w1, Inr ()) \<Rightarrow> (w1, Inr ())
      | (w1, Inl error) \<Rightarrow> (w1, Inl (RecoveryRequired (lit ''directory creation rollback could not be confirmed: '' @ error_display error))))"

end
