(* ===== verification/Workspace_Recovery.thy ===== *)
theory Workspace_Recovery
  imports Workspace_Reconcile
begin

text \<open>
  What startup reconciliation of a workspace effect does when no other process works in the file system: each inspection returns
  what is at the target, only verified staged files are removed, and every transaction that did not land is closed.
\<close>

section \<open>What is at a target\<close>

text \<open>
  \<open>target_now\<close> reads the state of a target off the file system: the specification of \<open>inspect_target\<close>. \<open>None\<close> is a target that
  recovery refuses to judge, such as a link or a device.
\<close>

fun dir_at :: "ws_fs \<Rightarrow> nat \<Rightarrow> rust_str list \<Rightarrow> io_error + nat" where
  "dir_at fs dir [] = Inr dir"
| "dir_at fs dir (part # parts) = result_bind (child_dir dir part fs) (\<lambda>child. dir_at fs child parts)"

definition if_missing :: "io_error \<Rightarrow> current_target option" where
  "if_missing e = (if e = IoNotFound then Some TargetMissing else None)"

definition entry_now :: "os_env \<Rightarrow> tx_evidence \<Rightarrow> ws_fs \<Rightarrow> nat \<Rightarrow> rust_str \<Rightarrow> current_target option" where
  "entry_now env e fs parent name =
     (if te_entry_kind e = EntryDirectory
      then (case child_dir parent name fs of
          Inr i \<Rightarrow> Some (TargetDirectory (identity_text env i))
        | Inl err \<Rightarrow> if_missing err)
      else (case result_bind (regular_entry parent name fs) (\<lambda>i. file_bytes i fs) of
          Inr bytes \<Rightarrow> Some (TargetFile (length bytes) (hash_with env (recovery_hash_for e) bytes))
        | Inl err \<Rightarrow> if_missing err))"

definition target_now :: "os_env \<Rightarrow> tx_evidence \<Rightarrow> ws_world \<Rightarrow> current_target option" where
  "target_now env e w =
     (case target_parts (te_relative_target e) of
        Inl _ \<Rightarrow> None
      | Inr (parents, name) \<Rightarrow>
          (case dir_at (wd_fs w) (wd_root w) parents of
             Inl err \<Rightarrow> if_missing err
           | Inr parent \<Rightarrow> entry_now env e (wd_fs w) parent name))"

lemma hash_chunks_total: "hash_chunks total_read budget rest = Inr (n, budget') \<Longrightarrow> n = total_read + length rest"
proof (induction total_read budget rest rule: hash_chunks.induct)
  case (1 total_read budget rest)
  let ?n = "min (min (min (MAX_MUTATION_BYTES + 1 - total_read) 65536) budget) (length rest)"
  have r: "MAX_MUTATION_BYTES + 1 - total_read \<noteq> 0" "budget \<noteq> 0"
    using "1.prems" by (subst (asm) hash_chunks.simps; simp add: Let_def split: if_splits)+
  define m where "m = ?n"
  have le: "m \<le> length rest" by (simp add: m_def)
  have eq: "hash_chunks total_read budget rest = (if m = 0 then Inr (total_read, budget)
      else if MAX_MUTATION_BYTES < total_read + m then Inl file_grew
      else hash_chunks (total_read + m) (budget - m) (drop m rest))"
    unfolding m_def by (subst hash_chunks.simps) (simp only: Let_def r if_False)
  show ?case
  proof (cases "m = 0")
    case True
    then have "length rest = 0" using r unfolding m_def by (metis min_def zero_neq_numeral)
    then show ?thesis using "1.prems" True unfolding eq by simp
  next
    case False
    then have step: "\<not> MAX_MUTATION_BYTES < total_read + m" "hash_chunks (total_read + m) (budget - m) (drop m rest) = Inr (n, budget')"
      using "1.prems" unfolding eq by (simp_all split: if_splits)
    have "n = total_read + m + length (drop m rest)"
      by (rule "1.IH" [OF refl r m_def False step])
    then show ?thesis using le by simp
  qed
qed

lemma hash_reader_result:
  assumes "undisturbed env" "hash_reader_bounded env handle len algorithm budget w = (w', res)"
  shows "same_state w w'"
    "res = Inr (n, hash, budget') \<Longrightarrow> \<exists>bytes. file_bytes handle (wd_fs w) = Inr bytes \<and> n = length bytes \<and> hash = hash_with env algorithm bytes"
proof -
  obtain w1 r1 where r: "read_open_file env handle w = (w1, r1)" by fastforce
  note rd = read_file_result [OF assms(1) r]
  show "same_state w w'"
    using assms(2) r rd(1) by (auto simp: hash_reader_bounded_def split: if_splits sum.splits)
  assume "res = Inr (n, hash, budget')"
  then obtain bytes where "r1 = Inr bytes" "hash_chunks 0 budget bytes = Inr (n, budget')" "hash = hash_with env algorithm bytes"
    using assms(2) r by (auto simp: hash_reader_bounded_def result_bind_Inr split: if_splits sum.splits)
  then show "\<exists>bytes. file_bytes handle (wd_fs w) = Inr bytes \<and> n = length bytes \<and> hash = hash_with env algorithm bytes"
    using rd(2) hash_chunks_total by fastforce
qed

lemma walk_parents_result:
  assumes "undisturbed env" "honest env"
  shows "walk_parents env dir parts w = (w', res) \<Longrightarrow> same_state w w'
     \<and> (\<forall>d. res = Inr (Some d) \<longrightarrow> dir_at (wd_fs w) dir parts = Inr d)
     \<and> (res = Inr None \<longrightarrow> dir_at (wd_fs w) dir parts = Inl IoNotFound)"
proof (induction parts arbitrary: dir w)
  case (Cons part parts)
  obtain w1 r1 where o: "open_child_dir env dir part w = (w1, r1)" by fastforce
  note od = open_child_dir_result [OF assms(1) o]
  show ?case
  proof (cases r1)
    case (Inl e)
    then show ?thesis using Cons.prems o od(1,3) assms(2) by (auto split: if_splits)
  next
    case (Inr child)
    have c: "child_dir dir part (wd_fs w) = Inr child" by (rule od(2) [OF Inr])
    have "walk_parents env child parts w1 = (w', res)" using Cons.prems o Inr by simp
    from Cons.IH [OF this] show ?thesis using od(1) c by (auto simp: same_state_def)
  qed
qed auto

section \<open>Inspection\<close>

lemma inspect_directory_result:
  assumes "undisturbed env" "honest env" "te_entry_kind e = EntryDirectory" "inspect_directory env parent name w = (w', res)"
  shows "same_state w w' \<and> (\<forall>t. res = Inr t \<longrightarrow> entry_now env e (wd_fs w) parent name = Some t)"
proof -
  obtain w1 r1 where o: "open_child_dir env parent name w = (w1, r1)" by fastforce
  note od = open_child_dir_result [OF assms(1) o]
  show ?thesis
  proof (cases r1)
    case (Inl err)
    then show ?thesis using assms o od(1,3) by (auto simp: inspect_directory_def entry_now_def if_missing_def split: if_splits)
  next
    case (Inr child)
    obtain w2 r2 where i: "entry_identity env child w1 = (w2, r2)" by fastforce
    note id = os_query_result [OF assms(1) i [unfolded entry_identity_def]]
    show ?thesis
      using assms(3,4) o od(1) od(2) [OF Inr] Inr i id(1) id(2)
      by (auto simp: inspect_directory_def entry_now_def split: sum.splits dest: same_state_trans)
  qed
qed

lemma bound_to_name_state:
  assumes "undisturbed env" "bound_to_name env parent name handle failed changed w = (w', res)"
  shows "same_state w w'"
  using assms(2) named_entry_result(1) [OF assms(1)] by (auto simp: bound_to_name_def split: prod.splits sum.splits)

lemma inspect_file_result:
  assumes "undisturbed env" "honest env" "te_entry_kind e = EntryFile" "inspect_file env e parent name budget w = (w', res)"
  shows "same_state w w' \<and> (\<forall>t budget'. res = Inr (t, budget') \<longrightarrow> entry_now env e (wd_fs w) parent name = Some t)"
proof -
  obtain w1 r1 where o: "open_recovery_target env parent name w = (w1, r1)" by fastforce
  note op = open_recovery_result [OF assms(1) o]
  show ?thesis
  proof (cases r1)
    case (Inl err)
    then show ?thesis using assms o op(1,3)
      by (auto simp: inspect_file_def entry_now_def if_missing_def split: if_splits)
  next
    case (Inr handle)
    let ?bind = "\<lambda>a b. bound_to_name env parent name handle (RecoveryRequired (lit a)) (RecoveryRequired (lit b))"
    obtain w2 r2 where b: "?bind ''bind reconciliation target to its name''
        ''workspace effect target name does not identify its opened file'' w1 = (w2, r2)" by fastforce
    obtain w3 r3 where m: "file_metadata env handle w2 = (w3, r3)" by fastforce
    have s3: "same_state w w2" "same_state w w3"
      using op(1) bound_to_name_state [OF assms(1) b] file_metadata_result(1) [OF assms(1) m] same_state_trans by blast+
    show ?thesis
    proof (cases "\<exists>len. r2 = Inr () \<and> r3 = Inr (True, len)")
      case False
      then show ?thesis using assms(4) o Inr b m s3 by (cases r2) (auto simp: inspect_file_def split: sum.splits if_splits)
    next
      case True
      then obtain len where r3: "r2 = Inr ()" "r3 = Inr (True, len)" by blast
      obtain w4 r4 where h: "hash_reader_bounded env handle len (recovery_hash_for e) budget w3 = (w4, r4)" by fastforce
      note hr = hash_reader_result [OF assms(1) h]
      have s4: "same_state w w4" using s3(2) hr(1) same_state_trans by blast
      have run: "(w', res) = and_then (w4, r4) (\<lambda>w4 (bytes, hash, budget').
          and_then (?bind ''rebind reconciliation target after verification'' ''workspace effect target changed while it was verified'' w4)
            (\<lambda>w5 _. (w5, Inr (TargetFile bytes hash, budget'))))"
        using assms(4) o Inr b m r3 h by (simp add: inspect_file_def)
      show ?thesis
      proof (cases r4)
        case (Inl err)
        then show ?thesis using run s4 by simp
      next
        case r4: (Inr p)
        obtain n hash budget' where p: "p = (n, hash, budget')" by (cases p)
        obtain bytes where bytes: "file_bytes handle (wd_fs w) = Inr bytes" "n = length bytes" "hash = hash_with env (recovery_hash_for e) bytes"
          using hr(2) [OF r4 [unfolded p]] s3(2) by (auto simp: same_state_def)
        obtain w5 r5 where b2: "?bind ''rebind reconciliation target after verification''
            ''workspace effect target changed while it was verified'' w4 = (w5, r5)" by fastforce
        have s5: "same_state w w5" using s4 bound_to_name_state [OF assms(1) b2] same_state_trans by blast
        show ?thesis
          using run b2 s5 bytes op(2) [OF Inr] assms(3) by (cases r5) (auto simp: r4 p entry_now_def)
      qed
    qed
  qed
qed

lemma inspect_target_result:
  assumes "undisturbed env" "honest env" "inspect_target env e budget w = (w', res)"
  shows "same_state w w' \<and> (\<forall>t budget'. res = Inr (t, budget') \<longrightarrow> target_now env e w = Some t)"
proof (cases "target_parts (te_relative_target e)")
  case (Inl err)
  then show ?thesis using assms(3) by (auto simp: inspect_target_def)
next
  case (Inr p)
  obtain parents name where p: "p = (parents, name)" by fastforce
  obtain w1 r1 where o: "open_root env w = (w1, r1)" by fastforce
  note os = open_root_result [OF assms(1) o]
  show ?thesis
  proof (cases r1)
    case (Inl err)
    then show ?thesis using assms(3) Inr p o os(1) by (auto simp: inspect_target_def)
  next
    case r1: (Inr root)
    have root: "root = wd_root w" using os(2) [OF r1] by simp
    obtain w2 r2 where wp: "walk_parents env root parents w1 = (w2, r2)" by fastforce
    note wk = walk_parents_result [OF assms(1,2) wp]
    have s2: "same_state w w2" using os(1) wk same_state_trans by blast
    have fs: "wd_fs w1 = wd_fs w" "wd_fs w2 = wd_fs w" using os(1) s2 by (simp_all add: same_state_def)
    have run: "(w', res) = and_then (w2, r2) (\<lambda>w2 found. case found of
          None \<Rightarrow> (w2, Inr (TargetMissing, budget))
        | Some parent \<Rightarrow> if te_entry_kind e = EntryDirectory
            then and_then (inspect_directory env parent name w2) (\<lambda>w3 t. (w3, Inr (t, budget)))
            else inspect_file env e parent name budget w2)"
      using assms(3) Inr p o r1 wp by (simp add: inspect_target_def)
    show ?thesis
    proof (cases "\<exists>parent. r2 = Inr (Some parent)")
      case False
      then consider (failed) err where "r2 = Inl err" | (missing) "r2 = Inr None"
        by (metis not_Some_eq sum.exhaust_sel sum.disc(1,2) isl_def)
      then show ?thesis using run s2 wk fs root Inr p by cases (auto simp: target_now_def if_missing_def)
    next
      case True
      then obtain parent where parent: "r2 = Inr (Some parent)" by blast
      have at: "target_now env e w = entry_now env e (wd_fs w) parent name"
        using wk parent fs root Inr p by (simp add: target_now_def)
      show ?thesis
      proof (cases "te_entry_kind e = EntryDirectory")
        case True
        obtain w3 r3 where d: "inspect_directory env parent name w2 = (w3, r3)" by fastforce
        show ?thesis using inspect_directory_result [OF assms(1,2) True d] run s2 fs True d
          unfolding parent at by (cases r3) (auto dest: same_state_trans)
      next
        case False
        then have f: "te_entry_kind e = EntryFile" by (cases "te_entry_kind e") simp_all
        have r: "inspect_file env e parent name budget w2 = (w', res)" using run False by (simp add: parent)
        show ?thesis
          using inspect_file_result [OF assms(1,2) f r] s2 fs unfolding at by (auto dest: same_state_trans)
      qed
    qed
  qed
qed

lemma walk_cleanup_result:
  assumes "undisturbed env"
  shows "walk_cleanup env dir parts w = (w', res) \<Longrightarrow> same_state w w'
     \<and> (\<forall>d. res = Inr d \<longrightarrow> dir_at (wd_fs w) dir parts = Inr d)"
proof (induction parts arbitrary: dir w)
  case (Cons part parts)
  obtain w1 r1 where o: "open_child_dir env dir part w = (w1, r1)" by fastforce
  note od = open_child_dir_result [OF assms(1) o]
  show ?case
  proof (cases r1)
    case (Inl e)
    then show ?thesis using Cons.prems o od(1) by auto
  next
    case (Inr child)
    have c: "child_dir dir part (wd_fs w) = Inr child" by (rule od(2) [OF Inr])
    have "walk_cleanup env child parts w1 = (w', res)" using Cons.prems o Inr by simp
    from Cons.IH [OF this] show ?thesis using od(1) c by (auto simp: same_state_def)
  qed
qed auto

text \<open>\<open>staged_at\<close>: the directory in which the staged file of a transaction lives.\<close>

definition staged_at :: "ws_world \<Rightarrow> tx_evidence \<Rightarrow> nat \<Rightarrow> bool" where
  "staged_at w e parent \<longleftrightarrow> (\<exists>parents name. target_parts (te_relative_target e) = Inr (parents, name)
     \<and> dir_at (wd_fs w) (wd_root w) parents = Inr parent)"

lemma pinned_parent_result:
  assumes "undisturbed env" "pinned_parent env (te_relative_target e) w = (w', res)"
  shows "same_state w w' \<and> (\<forall>parent name. res = Inr (parent, name) \<longrightarrow> staged_at w e parent)"
proof (cases "target_parts (te_relative_target e)")
  case (Inl err)
  then show ?thesis using assms(2) by (auto simp: pinned_parent_def)
next
  case (Inr p)
  obtain parents name where p: "p = (parents, name)" by fastforce
  obtain w1 r1 where o: "open_root env w = (w1, r1)" by fastforce
  note os = open_root_result [OF assms(1) o]
  show ?thesis
  proof (cases r1)
    case (Inl err)
    then show ?thesis using assms(2) Inr p o os(1) by (auto simp: pinned_parent_def)
  next
    case r1: (Inr root)
    have root: "root = wd_root w" using os(2) [OF r1] by simp
    obtain w2 r2 where wp: "walk_cleanup env root parents w1 = (w2, r2)" by fastforce
    note wk = walk_cleanup_result [OF assms(1) wp]
    show ?thesis
      using assms(2) Inr p o r1 wp wk os(1) root
      by (cases r2) (auto simp: pinned_parent_def staged_at_def same_state_def)
  qed
qed

section \<open>Cleaning up\<close>

text \<open>\<open>staged_intact\<close>: the staged name of a transaction is bound to a regular file that holds its recorded after state.\<close>

definition staged_intact :: "os_env \<Rightarrow> tx_evidence \<Rightarrow> ws_fs \<Rightarrow> nat \<Rightarrow> bool" where
  "staged_intact env e fs parent \<longleftrightarrow> (\<exists>i bytes. fs_entries fs (parent, te_temp_name e) = Some i
     \<and> fs_nodes fs i = Some (RegularNode bytes)
     \<and> recorded_state_matches e (length bytes) (hash_with env (recovery_hash_for e) bytes) True)"

lemma regular_entry_Inr: "regular_entry dir name fs = Inr i \<Longrightarrow> fs_entries fs (dir, name) = Some i \<and> (\<exists>bytes. fs_nodes fs i = Some (RegularNode bytes))"
  by (auto simp: regular_entry_def split: option.splits node.splits)

lemma regular_entry_missing: "regular_entry dir name fs = Inl IoNotFound \<longleftrightarrow> fs_entries fs (dir, name) = None"
  by (auto simp: regular_entry_def split: option.splits node.splits)

lemma file_bytes_Inr: "file_bytes i fs = Inr bytes \<longleftrightarrow> fs_nodes fs i = Some (RegularNode bytes)"
  by (auto simp: file_bytes_def split: option.splits node.splits)

lemma unlinked_same: "same_state w w1 \<Longrightarrow> unlinked w1 dir name w2 \<Longrightarrow> same_state w2 w3 \<Longrightarrow> unlinked w dir name w3"
  by (simp add: unlinked_def same_state_def)

lemma remove_verified_result:
  assumes "undisturbed env" "honest env" "remove_verified_staged_file env parent e budget w = (w', res)"
  shows "same_state w w' \<and> (\<forall>b. res = Inr b \<longrightarrow> fs_entries (wd_fs w) (parent, te_temp_name e) = None)
    \<or> staged_intact env e (wd_fs w) parent \<and> unlinked w parent (te_temp_name e) w'"
proof -
  let ?name = "te_temp_name e"
  obtain w1 r1 where o: "open_staged_for_cleanup env parent ?name w = (w1, r1)" by fastforce
  note op = open_staged_result [OF assms(1) o]
  show ?thesis
  proof (cases r1)
    case (Inl err)
    then show ?thesis using assms(2,3) o op(1,3)
      by (auto simp: remove_verified_staged_file_def Let_def regular_entry_missing split: if_splits)
  next
    case (Inr handle)
    have at: "fs_entries (wd_fs w) (parent, ?name) = Some handle" using op(2) [OF Inr] regular_entry_Inr by blast
    obtain w2 r2 where m: "file_metadata env handle w1 = (w2, r2)" by fastforce
    obtain w3 r3 where n: "named_entry_matches_file env parent ?name handle w2 = (w3, r3)" by fastforce
    have s: "same_state w w2" "same_state w w3"
      using op(1) file_metadata_result(1) [OF assms(1) m] named_entry_result(1) [OF assms(1) n] same_state_trans by blast+
    show ?thesis
    proof (cases "\<exists>len. r2 = Inr (True, len) \<and> r3 = Inr True")
      case False
      then show ?thesis using assms(3) o Inr m n s
        by (auto simp: remove_verified_staged_file_def Let_def split: sum.splits if_splits)
    next
      case True
      then obtain len where r3: "r2 = Inr (True, len)" "r3 = Inr True" by blast
      obtain w4 r4 where h: "hash_reader_bounded env handle len (recovery_hash_for e) budget w3 = (w4, r4)" by fastforce
      note hr = hash_reader_result [OF assms(1) h]
      obtain w5 r5 where n2: "named_entry_matches_file env parent ?name handle w4 = (w5, r5)" by fastforce
      have s5: "same_state w w4" "same_state w w5" using s(2) hr(1) named_entry_result(1) [OF assms(1) n2] same_state_trans by blast+
      obtain w6 r6 where rm: "remove_open_file env parent handle ?name w5 = (w6, r6)" by fastforce
      obtain w7 r7 where sy: "sync_all env w6 = (w7, r7)" by fastforce
      show ?thesis
      proof (cases "\<exists>bytes hash b. r4 = Inr (bytes, hash, b) \<and> recorded_state_matches e bytes hash True \<and> r5 = Inr True \<and> r6 = Inr ()")
        case False
        then have "(\<exists>m. res = Inl m) \<and> (w' = w4 \<or> w' = w5 \<or> w' = w6 \<and> (\<exists>err. r6 = Inl err))"
          using assms(3) o Inr m n r3 h n2 rm
          by (auto simp: remove_verified_staged_file_def Let_def split: sum.splits if_splits)
        then show ?thesis using s5 remove_open_file_result [OF assms(1) rm] same_state_trans [OF s5(2)] by auto
      next
        case True
        then obtain bytes hash b where t: "r4 = Inr (bytes, hash, b)" "recorded_state_matches e bytes hash True" "r5 = Inr True" "r6 = Inr ()" by blast
        have w': "w' = w7" using assms(3) o Inr m n r3 h n2 rm sy t
          by (auto simp: remove_verified_staged_file_def Let_def split: sum.splits)
        have "unlinked w parent ?name w7"
          using unlinked_same [OF s5(2) _ sync_all_result(1) [OF assms(1) sy]] remove_open_file_result [OF assms(1) rm] t(4) by blast
        moreover have "staged_intact env e (wd_fs w) parent"
          using hr(2) [OF t(1)] t(2) at s(2) by (auto simp: staged_intact_def same_state_def file_bytes_Inr)
        ultimately show ?thesis using w' by blast
      qed
    qed
  qed
qed

text \<open>
  \<open>cleaned env rows w w'\<close>: between the two worlds only staged files of \<open>rows\<close> lost their names, each of them intact, and only
  transactions of \<open>rows\<close> were rolled back.
\<close>

abbreviation rolled_back_row :: "tx_evidence \<Rightarrow> tx_evidence" where
  "rolled_back_row e \<equiv> e\<lparr>te_terminal := Some TxRolledBack\<rparr>"

definition cleaned :: "os_env \<Rightarrow> (rust_str \<times> tx_evidence) list \<Rightarrow> ws_world \<Rightarrow> ws_world \<Rightarrow> bool" where
  "cleaned env rows w w' \<longleftrightarrow>
     fs_nodes (wd_fs w') = fs_nodes (wd_fs w) \<and> wd_root w' = wd_root w
   \<and> wd_process w' = wd_process w \<and> wd_remote w' = wd_remote w \<and> wd_changes w' = wd_changes w
   \<and> (\<forall>dir name. fs_entries (wd_fs w') (dir, name) \<noteq> fs_entries (wd_fs w) (dir, name) \<longrightarrow>
        fs_entries (wd_fs w') (dir, name) = None
      \<and> (\<exists>tx e. (tx, e) \<in> set rows \<and> te_entry_kind e = EntryFile \<and> name = te_temp_name e
           \<and> staged_at w e dir \<and> staged_intact env e (wd_fs w) dir))
   \<and> (\<forall>tx. map_of (tx_table w') tx = map_of (tx_table w) tx
      \<or> (\<exists>e. (tx, e) \<in> set rows \<and> map_of (tx_table w') tx = Some (rolled_back_row e)))"

lemma cleaned_same: "same_state w w' \<Longrightarrow> cleaned env rows w w'"
  by (simp add: cleaned_def same_state_def)

lemma cleaned_entry: "cleaned env rows w w' \<Longrightarrow> fs_entries (wd_fs w') k = Some i \<Longrightarrow> fs_entries (wd_fs w) k = Some i"
  unfolding cleaned_def by (cases k) (metis option.distinct(1))

lemma cleaned_dir_at: "cleaned env rows w w' \<Longrightarrow> dir_at (wd_fs w') dir parts = Inr d \<Longrightarrow> dir_at (wd_fs w) dir parts = Inr d"
proof (induction parts arbitrary: dir)
  case (Cons part parts)
  then obtain c where c: "child_dir dir part (wd_fs w') = Inr c" "dir_at (wd_fs w') c parts = Inr d" by auto
  have "child_dir dir part (wd_fs w) = Inr c"
    using c(1) cleaned_entry [OF Cons.prems(1), of "(dir, part)"] Cons.prems(1)
    by (auto simp: child_dir_def cleaned_def split: option.splits if_splits)
  then show ?case using Cons.IH [OF Cons.prems(1) c(2)] by simp
qed simp

lemma cleaned_staged:
  assumes "cleaned env rows w w'"
  shows "staged_at w' e d \<Longrightarrow> staged_at w e d" "staged_intact env e (wd_fs w') d \<Longrightarrow> staged_intact env e (wd_fs w) d"
proof -
  have "wd_root w' = wd_root w" using assms by (simp add: cleaned_def)
  then show "staged_at w' e d \<Longrightarrow> staged_at w e d" using cleaned_dir_at [OF assms] by (auto simp: staged_at_def)
  have "fs_nodes (wd_fs w') = fs_nodes (wd_fs w)" using assms by (simp add: cleaned_def)
  then show "staged_intact env e (wd_fs w') d \<Longrightarrow> staged_intact env e (wd_fs w) d"
    using cleaned_entry [OF assms] by (fastforce simp: staged_intact_def)
qed

lemma cleaned_trans:
  assumes "cleaned env rows w w1" "cleaned env rows' w1 w2" "set rows \<subseteq> set all_rows" "set rows' \<subseteq> set all_rows"
  shows "cleaned env all_rows w w2"
proof -
  have ent: "fs_entries (wd_fs w2) (dir, name) = None \<and> (\<exists>tx e. (tx, e) \<in> set all_rows \<and> te_entry_kind e = EntryFile
      \<and> name = te_temp_name e \<and> staged_at w e dir \<and> staged_intact env e (wd_fs w) dir)"
    if d: "fs_entries (wd_fs w2) (dir, name) \<noteq> fs_entries (wd_fs w) (dir, name)" for dir name
  proof (cases "fs_entries (wd_fs w2) (dir, name) = fs_entries (wd_fs w1) (dir, name)")
    case True
    then show ?thesis using d assms(1,3) unfolding cleaned_def by (metis subset_iff)
  next
    case False
    then have n: "fs_entries (wd_fs w2) (dir, name) = None" and "\<exists>tx e. (tx, e) \<in> set rows' \<and> te_entry_kind e = EntryFile
        \<and> name = te_temp_name e \<and> staged_at w1 e dir \<and> staged_intact env e (wd_fs w1) dir"
      using assms(2) unfolding cleaned_def by blast+
    then show ?thesis using cleaned_staged [OF assms(1)] assms(4) by blast
  qed
  have tab: "map_of (tx_table w2) tx = map_of (tx_table w) tx \<or> (\<exists>e. (tx, e) \<in> set all_rows \<and> map_of (tx_table w2) tx = Some (rolled_back_row e))" for tx
  proof -
    have a: "map_of (tx_table w1) tx = map_of (tx_table w) tx \<or> (\<exists>e. (tx, e) \<in> set rows \<and> map_of (tx_table w1) tx = Some (rolled_back_row e))"
      using assms(1) unfolding cleaned_def by blast
    have b: "map_of (tx_table w2) tx = map_of (tx_table w1) tx \<or> (\<exists>e. (tx, e) \<in> set rows' \<and> map_of (tx_table w2) tx = Some (rolled_back_row e))"
      using assms(2) unfolding cleaned_def by blast
    show ?thesis using b
    proof
      assume "map_of (tx_table w2) tx = map_of (tx_table w1) tx"
      then show ?thesis using a assms(3) by (metis subset_iff)
    qed (use assms(4) in blast)
  qed
  show ?thesis
    using assms(1,2) ent tab unfolding cleaned_def by simp
qed


lemma world_append_failed:
  assumes "world_append env t w = (w', Inl err)"
  shows "tx_table w' = tx_table w \<or> Inr (tx_table w') = ws_apply (tx_table w) WORKSPACE_JOURNAL_VERSION t"
proof (cases "wd_crashed w")
  case True
  then show ?thesis using assms by (simp add: world_append_def)
next
  case False
  obtain J r where J: "ws_append (os_parse_uuid env) (os_codec env) (os_append env (wd_tick w)) (wd_journal w) t = (J, r)" by fastforce
  then have "wd_journal w' = J" using assms False by (auto simp: world_append_def split: if_splits)
  then show ?thesis
    using J [unfolded ws_append_def] by (cases r) (auto simp: workspace_kind_def dest: log_append_Inl log_append_Inr(2))
qed

lemma rolled_back_step:
  assumes "Inr table' = ws_apply table version (WsRolledBack tx)" "map_of table tx = Some e"
  shows "map_of table' = (map_of table)(tx \<mapsto> rolled_back_row e)"
  using assms by (simp add: ws_settle_def update_conv')

lemma append_cleans:
  assumes "world_append env (WsRolledBack tx) w = (w', res)" "map_of (tx_table w) tx = Some e"
  shows "cleaned env [(tx, e)] w w'" "res = Inr () \<Longrightarrow> map_of (tx_table w') tx = Some (rolled_back_row e)"
proof -
  have j: "journaled w w'" by (rule world_append_result(1) [OF assms(1)])
  have t: "tx_table w' = tx_table w \<or> map_of (tx_table w') = (map_of (tx_table w))(tx \<mapsto> rolled_back_row e)"
    using rolled_back_step [OF _ assms(2)] world_append_failed [of env "WsRolledBack tx" w w'] world_append_result(2) [OF assms(1)] assms(1)
    by (cases res) auto
  show "cleaned env [(tx, e)] w w'" using t j by (auto simp: cleaned_def journaled_def split: if_splits)
  show "map_of (tx_table w') tx = Some (rolled_back_row e)" if "res = Inr ()"
    using rolled_back_step [OF _ assms(2)] world_append_result(2) [OF assms(1) that] by simp
qed

lemma remove_verified_cleans:
  assumes "undisturbed env" "honest env" "te_entry_kind e = EntryFile" "staged_at w e parent"
    "remove_verified_staged_file env parent e budget w = (w', res)"
  shows "cleaned env [(tx, e)] w w'" "tx_table w' = tx_table w"
    "res = Inr b \<Longrightarrow> fs_entries (wd_fs w') (parent, te_temp_name e) = None"
  using remove_verified_result [OF assms(1,2,5)] assms(3,4)
  by (auto simp: cleaned_def unlinked_def same_state_def split: if_splits)

lemma clean_up_row:
  assumes "undisturbed env" "honest env"
    "(if te_entry_kind e = EntryFile
      then and_then (pinned_parent env (te_relative_target e) w) (\<lambda>w1 (parent, _).
             (case remove_verified_staged_file env parent e budget w1 of (w2, res) \<Rightarrow> (w2, Inr res)))
      else (w, Inr (Inr budget))) = (w', res)"
  shows "cleaned env [(tx, e)] w w' \<and> tx_table w' = tx_table w
    \<and> (\<forall>b. res = Inr (Inr b) \<longrightarrow> te_entry_kind e = EntryFile
         \<longrightarrow> (\<exists>parent. staged_at w e parent \<and> fs_entries (wd_fs w') (parent, te_temp_name e) = None))"
proof (cases "te_entry_kind e = EntryFile")
  case True
  obtain w1 r1 where p: "pinned_parent env (te_relative_target e) w = (w1, r1)" by fastforce
  note pp = pinned_parent_result [OF assms(1) p]
  show ?thesis
  proof (cases r1)
    case (Inl err)
    then show ?thesis using assms(3) True p pp by (auto simp: cleaned_same same_state_def)
  next
    case (Inr q)
    obtain parent name where q: "q = (parent, name)" by fastforce
    obtain w2 r2 where r: "remove_verified_staged_file env parent e budget w1 = (w2, r2)" by fastforce
    have at: "staged_at w e parent" "same_state w w1" using pp Inr q by auto
    then have "staged_at w1 e parent" by (simp add: staged_at_def same_state_def)
    note rv = remove_verified_cleans [OF assms(1,2) True this r]
    have res: "w' = w2" "res = Inr r2" using assms(3) True p Inr q r by auto
    have "cleaned env [(tx, e)] w w2"
      using cleaned_trans [OF cleaned_same [OF at(2), where rows = "[]"] rv(1)] by simp
    moreover have "tx_table w2 = tx_table w" using rv(2) at(2) by (simp add: same_state_def)
    ultimately show ?thesis using rv(3) at(1) res by blast
  qed
next
  case False
  then show ?thesis using assms(3) by (auto simp: cleaned_same)
qed

section \<open>The two loops\<close>

lemma close_rows_result:
  assumes "undisturbed env" "honest env"
  shows "close_rows env rows budget w = (w', res) \<Longrightarrow> distinct (map fst rows)
    \<Longrightarrow> (\<forall>tx e. (tx, e) \<in> set rows \<longrightarrow> map_of (tx_table w) tx = Some e)
    \<Longrightarrow> cleaned env rows w w'
      \<and> (res = Inr (Inr ()) \<longrightarrow> (\<forall>tx e. (tx, e) \<in> set rows \<longrightarrow> map_of (tx_table w') tx = Some (rolled_back_row e)
           \<and> (te_entry_kind e = EntryFile \<longrightarrow> (\<exists>parent. staged_at w e parent \<and> fs_entries (wd_fs w') (parent, te_temp_name e) = None))))"
proof (induction rows arbitrary: budget w)
  case Nil
  then show ?case by (auto simp: cleaned_same)
next
  case (Cons row rows)
  obtain tx e where row: "row = (tx, e)" by fastforce
  obtain w1 r1 where c: "(if te_entry_kind e = EntryFile
      then and_then (pinned_parent env (te_relative_target e) w) (\<lambda>w1 (parent, _).
             (case remove_verified_staged_file env parent e budget w1 of (w2, res) \<Rightarrow> (w2, Inr res)))
      else (w, Inr (Inr budget))) = (w1, r1)" by fastforce
  note cu = clean_up_row [OF assms c, of tx]
  have c1: "cleaned env (row # rows) w w1" using cleaned_trans [OF conjunct1 [OF cu] cleaned_same [OF same_state_refl, where rows = "[]"]] row by auto
  show ?case
  proof (cases "\<exists>b. r1 = Inr (Inr b)")
    case False
    then have "w' = w1" "res \<noteq> Inr (Inr ())" using Cons.prems(1) row c by (cases r1; auto split: sum.splits)+
    then show ?thesis using c1 by simp
  next
    case True
    then obtain b where b: "r1 = Inr (Inr b)" by blast
    obtain w2 r2 where a: "world_append env (WsRolledBack tx) w1 = (w2, r2)" by fastforce
    have at: "map_of (tx_table w1) tx = Some e" using cu Cons.prems(3) row by simp
    note ac = append_cleans [OF a at]
    have c2: "cleaned env [row] w w2" using cleaned_trans [OF conjunct1 [OF cu] ac(1), where all_rows = "[row]"] row by simp
    show ?thesis
    proof (cases r2)
      case (Inl err)
      have "w' = w2" "res \<noteq> Inr (Inr ())" using Cons.prems(1) row c b a Inl by auto
      moreover have "cleaned env (row # rows) w w2"
        by (rule cleaned_trans [OF c2 cleaned_same [OF same_state_refl, where rows = "[]"]]) auto
      ultimately show ?thesis by simp
    next
      case (Inr u)
      have close: "close_rows env rows b w2 = (w', res)" using Cons.prems(1) row c b a Inr by simp
      have keep: "map_of (tx_table w2) x = Some d" if "(x, d) \<in> set rows" for x d
      proof -
        have "x \<noteq> tx" using that Cons.prems(2) row by (force simp: image_iff)
        moreover have "map_of (tx_table w) x = Some d" using that Cons.prems(3) by simp
        ultimately show ?thesis using c2 row unfolding cleaned_def by (metis list.set(1,2) prod.inject singletonD)
      qed
      have "distinct (map fst rows)" using Cons.prems(2) by simp
      note IH = Cons.IH [OF close this] 
      have ih: "cleaned env rows w2 w'" "res = Inr (Inr ()) \<longrightarrow> (\<forall>tx e. (tx, e) \<in> set rows \<longrightarrow> map_of (tx_table w') tx = Some (rolled_back_row e)
           \<and> (te_entry_kind e = EntryFile \<longrightarrow> (\<exists>parent. staged_at w2 e parent \<and> fs_entries (wd_fs w') (parent, te_temp_name e) = None)))"
        using IH keep by blast+
      have c3: "cleaned env (row # rows) w w'" by (rule cleaned_trans [OF c2 ih(1)]) auto
      have this_row: "map_of (tx_table w') tx = Some (rolled_back_row e)"
      proof -
        have "map_of (tx_table w2) tx = Some (rolled_back_row e)" using ac(2) Inr by simp
        moreover have "(tx, d) \<notin> set rows" for d using Cons.prems(2) row by (force simp: image_iff)
        ultimately show ?thesis using ih(1) unfolding cleaned_def by metis
      qed
      have gone: "\<exists>parent. staged_at w e parent \<and> fs_entries (wd_fs w') (parent, te_temp_name e) = None" if f: "te_entry_kind e = EntryFile"
      proof -
        obtain parent where p: "staged_at w e parent" "fs_entries (wd_fs w1) (parent, te_temp_name e) = None" using cu b f by blast
        have "cleaned env [row] w1 w2" using ac(1) row by simp
        then have "fs_entries (wd_fs w') (parent, te_temp_name e) = None"
          using p(2) cleaned_entry ih(1) by (metis not_Some_eq)
        then show ?thesis using p(1) by blast
      qed
      show ?thesis using c3 this_row gone ih(2) cleaned_staged(1) [OF c2] row by (auto, blast)
    qed
  qed
qed

text \<open>\<open>verdict_now\<close>: what the recorded evidence and the file system say about a transaction.\<close>

definition verdict_now :: "os_env \<Rightarrow> ws_world \<Rightarrow> tx_evidence \<Rightarrow> row_verdict option" where
  "verdict_now env w e = map_option (verdict_for e) (target_now env e w)"

definition is_clear :: "row_verdict option \<Rightarrow> bool" where
  "is_clear v \<longleftrightarrow> v \<in> {Some RowCommitted, Some RowApplied, Some RowClosed, Some RowNotApplied}"

lemma verdict_now_same: "same_state w w' \<Longrightarrow> verdict_now env w' e = verdict_now env w e"
proof -
  assume "same_state w w'"
  then have eq: "wd_fs w' = wd_fs w" "wd_root w' = wd_root w" by (simp_all add: same_state_def)
  show ?thesis unfolding verdict_now_def target_now_def eq by (rule refl)
qed

lemma inspect_rows_result:
  assumes "undisturbed env" "honest env"
  shows "inspect_rows env rows ta w = (w', res) \<Longrightarrow> same_state w w'
    \<and> (\<forall>ta'. res = Inr (Inr ta') \<longrightarrow>
        (\<forall>tx e. (tx, e) \<in> set rows \<longrightarrow> is_clear (verdict_now env w e))
      \<and> ta_applied ta' = ta_applied ta + length (filter (\<lambda>(_, e). verdict_now env w e \<in> {Some RowCommitted, Some RowApplied}) rows)
      \<and> ta_committed ta' = ta_committed ta + length (filter (\<lambda>(_, e). verdict_now env w e = Some RowCommitted) rows)
      \<and> ta_not_applied ta' = ta_not_applied ta @ filter (\<lambda>(_, e). verdict_now env w e = Some RowNotApplied) rows)"
proof (induction rows arbitrary: ta w)
  case Nil
  then show ?case by auto
next
  case (Cons row rows)
  obtain tx e where row: "row = (tx, e)" by fastforce
  obtain w1 r1 where i: "inspect_target env e (ta_budget ta) w = (w1, r1)" by fastforce
  note it = inspect_target_result [OF assms i]
  show ?case
  proof (cases r1)
    case (Inl err)
    then show ?thesis using Cons.prems row i it by auto
  next
    case (Inr p)
    obtain t budget where p: "p = (t, budget)" by fastforce
    have v: "verdict_now env w e = Some (verdict_for e t)" using it Inr p by (simp add: verdict_now_def)
    have s: "same_state w w1" using it by simp
    show ?thesis
    proof (cases "\<exists>reason. verdict_for e t = RowAmbiguous reason")
      case True
      then show ?thesis using Cons.prems row i Inr p s by auto
    next
      case False
      define ta1 where "ta1 = (case verdict_for e t of
          RowCommitted \<Rightarrow> ta\<lparr>ta_budget := budget, ta_applied := Suc (ta_applied ta), ta_committed := Suc (ta_committed ta)\<rparr>
        | RowApplied \<Rightarrow> ta\<lparr>ta_budget := budget, ta_applied := Suc (ta_applied ta)\<rparr>
        | RowNotApplied \<Rightarrow> ta\<lparr>ta_budget := budget, ta_not_applied := ta_not_applied ta @ [(tx, e)]\<rparr>
        | _ \<Rightarrow> ta\<lparr>ta_budget := budget\<rparr>)"
      have "inspect_rows env rows ta1 w1 = (w', res)"
        using Cons.prems row i Inr p False by (cases "verdict_for e t") (simp_all add: ta1_def Let_def)
      note IH = Cons.IH [OF this, unfolded verdict_now_same [OF s]]
      have clear: "is_clear (verdict_now env w e)" using v False by (cases "verdict_for e t") (simp_all add: is_clear_def)
      have ta1: "ta_applied ta1 + length (filter P rows) = ta_applied ta + length (filter P (row # rows))"
        if "P = (\<lambda>(_, e). verdict_now env w e \<in> {Some RowCommitted, Some RowApplied})" for P
        using that row v by (cases "verdict_for e t") (simp_all add: ta1_def)
      have ta2: "ta_committed ta1 + length (filter P rows) = ta_committed ta + length (filter P (row # rows))"
        if "P = (\<lambda>(_, e). verdict_now env w e = Some RowCommitted)" for P
        using that row v by (cases "verdict_for e t") (simp_all add: ta1_def)
      have ta3: "ta_not_applied ta1 @ filter P rows = ta_not_applied ta @ filter P (row # rows)"
        if "P = (\<lambda>(_, e). verdict_now env w e = Some RowNotApplied)" for P
        using that row v by (cases "verdict_for e t") (simp_all add: ta1_def)
      have "same_state w w'" using s IH same_state_trans by blast
      moreover have "is_clear (verdict_now env w d)" if "(x, d) \<in> set (row # rows)" "res = Inr (Inr ta')" for x d ta'
        using that IH clear row by (cases "(x, d) = row") auto
      ultimately show ?thesis
        unfolding ta1 [OF refl, symmetric] ta2 [OF refl, symmetric] ta3 [OF refl, symmetric] using IH by blast
    qed
  qed
qed

section \<open>The rows of an effect\<close>

lemma mset_insert_row: "mset (insert_row x ys) = add_mset x (mset ys)"
  by (induction ys) auto

lemma mset_sort_rows: "mset (sort_rows xs) = mset xs"
  unfolding sort_rows_def by (induction xs) (simp_all add: mset_insert_row)

lemma evidence_for_rows:
  assumes "evidence_for J ctx = Inr rows" "distinct (map fst (lg_table (lw_recovery J)))"
  shows "(tx, e) \<in> set rows \<longleftrightarrow> map_of (lg_table (lw_recovery J)) tx = Some e \<and> te_context e = ctx" "distinct (map fst rows)"
proof -
  let ?T = "lg_table (lw_recovery J)" and ?F = "filter (\<lambda>(_, e). te_context e = ctx) (lg_table (lw_recovery J))"
  have rows: "mset rows = mset ?F"
    using assms(1) by (auto simp: evidence_for_def Let_def mset_sort_rows split: option.splits if_splits)
  have "set rows = set ?F" using rows mset_eq_setD by blast
  then show "(tx, e) \<in> set rows \<longleftrightarrow> map_of ?T tx = Some e \<and> te_context e = ctx" using assms(2) by auto
  have "mset (map fst rows) = mset (map fst ?F)" using rows by simp
  moreover have "distinct (map fst ?F)" using assms(2) by (simp add: distinct_map_filter)
  ultimately show "distinct (map fst rows)" using mset_eq_imp_distinct_iff by blast
qed

text \<open>
  \<open>at_after\<close> and \<open>at_before\<close>: the target of a transaction is in its recorded after or before state. \<open>undone\<close>: a transaction that
  recovery closed has a rolled-back record, and its staged file has no name any more.
\<close>

definition at_after :: "os_env \<Rightarrow> ws_world \<Rightarrow> tx_evidence \<Rightarrow> bool" where
  "at_after env w e \<longleftrightarrow> (case target_now env e w of
      None \<Rightarrow> False
    | Some t \<Rightarrow> if te_entry_kind e = EntryDirectory
                then (\<exists>k. te_terminal e = Some (TxCommitted (Some k)) \<and> t = TargetDirectory k) else is_after e t)"

definition at_before :: "os_env \<Rightarrow> ws_world \<Rightarrow> tx_evidence \<Rightarrow> bool" where
  "at_before env w e \<longleftrightarrow> (case target_now env e w of
      None \<Rightarrow> False
    | Some t \<Rightarrow> if te_entry_kind e = EntryDirectory then t = TargetMissing else is_before e t)"

definition undone :: "os_env \<Rightarrow> ws_world \<Rightarrow> ws_world \<Rightarrow> rust_str \<Rightarrow> tx_evidence \<Rightarrow> bool" where
  "undone env w w' tx e \<longleftrightarrow> map_of (tx_table w') tx = Some (rolled_back_row e)
     \<and> (te_entry_kind e = EntryFile \<or> te_terminal e = None \<longrightarrow> at_before env w e)
     \<and> (te_entry_kind e = EntryFile \<and> te_terminal e = None
          \<longrightarrow> (\<exists>parent. staged_at w e parent \<and> fs_entries (wd_fs w') (parent, te_temp_name e) = None))"

lemma directory_verdict_cases:
  "directory_verdict terminal t = RowCommitted \<Longrightarrow> \<exists>k. terminal = Some (TxCommitted (Some k)) \<and> t = TargetDirectory k"
  "directory_verdict terminal t \<noteq> RowApplied"
  "directory_verdict terminal t = RowClosed \<Longrightarrow> terminal = Some TxRolledBack"
  "directory_verdict terminal t = RowNotApplied \<Longrightarrow> terminal = None \<and> t = TargetMissing"
  by (cases "(terminal, t)" rule: directory_verdict.cases; auto split: if_splits)+

lemma file_verdict_cases:
  "file_verdict e t = RowCommitted \<Longrightarrow> (\<exists>i. te_terminal e = Some (TxCommitted i)) \<and> is_after e t"
  "file_verdict e t = RowApplied \<Longrightarrow> te_terminal e = None \<and> is_after e t"
  "file_verdict e t = RowClosed \<Longrightarrow> te_terminal e = Some TxRolledBack \<and> is_before e t"
  "file_verdict e t = RowNotApplied \<Longrightarrow> te_terminal e = None \<and> is_before e t"
  by (auto simp: file_verdict_def split: option.splits tx_terminal.splits if_splits)

lemma verdict_facts:
  shows "verdict_now env w e = Some RowCommitted \<Longrightarrow> (\<exists>i. te_terminal e = Some (TxCommitted i)) \<and> at_after env w e"
    and "verdict_now env w e = Some RowApplied \<Longrightarrow> te_terminal e = None \<and> at_after env w e"
    and "verdict_now env w e = Some RowClosed \<Longrightarrow> te_terminal e = Some TxRolledBack \<and> (te_entry_kind e = EntryFile \<longrightarrow> at_before env w e)"
    and "verdict_now env w e = Some RowNotApplied \<Longrightarrow> te_terminal e = None \<and> at_before env w e"
proof -
  have v: "verdict_now env w e = Some v \<Longrightarrow> \<exists>t. target_now env e w = Some t
      \<and> (if te_entry_kind e = EntryDirectory then directory_verdict (te_terminal e) t else file_verdict e t) = v" for v
    by (auto simp: verdict_now_def verdict_for_def)
  show "verdict_now env w e = Some RowCommitted \<Longrightarrow> (\<exists>i. te_terminal e = Some (TxCommitted i)) \<and> at_after env w e"
    by (drule v) (auto simp: at_after_def dest: directory_verdict_cases(1) file_verdict_cases(1) split: if_splits)
  show "verdict_now env w e = Some RowApplied \<Longrightarrow> te_terminal e = None \<and> at_after env w e"
    by (drule v) (auto simp: at_after_def directory_verdict_cases(2) dest: file_verdict_cases(2) split: if_splits)
  show "verdict_now env w e = Some RowClosed \<Longrightarrow> te_terminal e = Some TxRolledBack \<and> (te_entry_kind e = EntryFile \<longrightarrow> at_before env w e)"
    by (drule v) (auto simp: at_before_def dest: directory_verdict_cases(3) file_verdict_cases(3) split: if_splits)
  show "verdict_now env w e = Some RowNotApplied \<Longrightarrow> te_terminal e = None \<and> at_before env w e"
    by (drule v) (auto simp: at_before_def dest: directory_verdict_cases(4) file_verdict_cases(4) split: if_splits)
qed

lemma rolled_back_same: "te_terminal e = Some TxRolledBack \<Longrightarrow> rolled_back_row e = e"
  by (cases e) simp

text \<open>What one clear transaction becomes in a run that closes all open ones that did not land.\<close>

lemma row_settled:
  assumes "is_clear (verdict_now env w e)" "cleaned env rows w w'" "map_of (tx_table w) tx = Some e"
    "\<And>d. (tx, d) \<in> set rows \<Longrightarrow> d = e"
    "verdict_now env w e = Some RowNotApplied \<Longrightarrow> map_of (tx_table w') tx = Some (rolled_back_row e)
      \<and> (te_entry_kind e = EntryFile \<longrightarrow> (\<exists>parent. staged_at w e parent \<and> fs_entries (wd_fs w') (parent, te_temp_name e) = None))"
  shows "if verdict_now env w e \<in> {Some RowCommitted, Some RowApplied} then at_after env w e else undone env w w' tx e"
proof -
  have "map_of (tx_table w') tx = Some (rolled_back_row e)" if "te_terminal e = Some TxRolledBack"
    using assms(2,3,4) rolled_back_same [OF that] unfolding cleaned_def by metis
  then show ?thesis
    using assms(1,5) verdict_facts [of env w e] by (auto simp: is_clear_def undone_def)
qed

definition open_rows :: "ws_world \<Rightarrow> operation_effect_context \<Rightarrow> (rust_str \<times> tx_evidence) list" where
  "open_rows w ctx = filter (\<lambda>(_, e). te_context e = ctx \<and> te_terminal e = None) (tx_table w)"

abbreviation landed :: "os_env \<Rightarrow> ws_world \<Rightarrow> tx_evidence \<Rightarrow> bool" where
  "landed env w e \<equiv> verdict_now env w e \<in> {Some RowCommitted, Some RowApplied}"

text \<open>The two loops together: every transaction is judged by the file system, and those that did not land are closed.\<close>

lemma reconcile_loops:
  assumes "undisturbed env" "honest env" "distinct (map fst (tx_table w))" "evidence_for (wd_journal w) ctx = Inr rows"
    "inspect_rows env rows \<lparr>ta_applied = 0, ta_committed = 0, ta_not_applied = [], ta_budget = MAX_RECONCILIATION_READ_BYTES\<rparr> w
       = (w1, Inr (Inr ta))" "close_rows env (ta_not_applied ta) (ta_budget ta) w1 = (w2, r2)"
  shows "cleaned env (open_rows w ctx) w w2"
    "\<lbrakk>r2 = Inr (Inr ()); (tx, e) \<in> set rows\<rbrakk> \<Longrightarrow> if landed env w e then at_after env w e else undone env w w2 tx e"
    "0 < ta_applied ta \<longleftrightarrow> (\<exists>(tx, e) \<in> set rows. landed env w e)"
    "ta_committed ta = length rows \<Longrightarrow> (tx, e) \<in> set rows \<Longrightarrow> verdict_now env w e = Some RowCommitted"
proof -
  note er = evidence_for_rows [OF assms(4,3)]
  note ir = inspect_rows_result [OF assms(1,2,5)]
  define na where "na = filter (\<lambda>(_, e). verdict_now env w e = Some RowNotApplied) rows"
  have s: "same_state w w1" using ir by blast
  have tally: "\<And>tx e. (tx, e) \<in> set rows \<Longrightarrow> is_clear (verdict_now env w e)" "ta_not_applied ta = na"
    "ta_applied ta = length (filter (\<lambda>(_, e). landed env w e) rows)"
    "ta_committed ta = length (filter (\<lambda>(_, e). verdict_now env w e = Some RowCommitted) rows)"
    using ir by (auto simp: na_def)
  have na: "distinct (map fst na)" "\<forall>tx e. (tx, e) \<in> set na \<longrightarrow> map_of (tx_table w1) tx = Some e"
    using er(1,2) same_stateD(3) [OF s] by (auto simp: na_def distinct_map_filter)
  note cr = close_rows_result [OF assms(1,2) assms(6) [unfolded tally(2)] na]
  have "set na \<subseteq> set (open_rows w ctx)"
    using er(1) verdict_facts(4) [of env w] map_of_SomeD by (fastforce simp: na_def open_rows_def)
  then show cl: "cleaned env (open_rows w ctx) w w2"
    by (intro cleaned_trans [OF cleaned_same [OF s, where rows = "[]"] conjunct1 [OF cr]]) auto
  show "if landed env w e then at_after env w e else undone env w w2 tx e" if closed: "r2 = Inr (Inr ())" and row: "(tx, e) \<in> set rows"
  proof (rule row_settled [OF tally(1) [OF row] cl])
    show at: "map_of (tx_table w) tx = Some e" using er(1) row by blast
    show "x = e" if "(tx, x) \<in> set (open_rows w ctx)" for x
      using that at map_of_is_SomeI [OF assms(3), of tx x] by (simp add: open_rows_def del: map_of_eq_Some_iff)
    have "staged_at w1 x p \<Longrightarrow> staged_at w x p" for x p using s by (simp add: staged_at_def same_state_def)
    then show "map_of (tx_table w2) tx = Some (rolled_back_row e) \<and> (te_entry_kind e = EntryFile
        \<longrightarrow> (\<exists>parent. staged_at w e parent \<and> fs_entries (wd_fs w2) (parent, te_temp_name e) = None))"
      if "verdict_now env w e = Some RowNotApplied" using cr closed that row by (fastforce simp: na_def)
  qed
  show "0 < ta_applied ta \<longleftrightarrow> (\<exists>(tx, e) \<in> set rows. landed env w e)"
    unfolding tally(3) by (auto simp: filter_empty_conv)
  show "verdict_now env w e = Some RowCommitted" if "ta_committed ta = length rows" "(tx, e) \<in> set rows"
    using that length_filter_less [OF that(2), of "\<lambda>(_, e). verdict_now env w e = Some RowCommitted"] tally(4) by auto
qed

lemma reconcile_effect_cases:
  assumes "undisturbed env" "honest env" "distinct (map fst (tx_table w))" "reconcile_workspace_effect env ctx w = (w', Inr answer)"
  obtains (unmanaged) "answer = WsNotManaged" "w' = w" "\<And>tx e. map_of (tx_table w) tx = Some e \<Longrightarrow> te_context e \<noteq> ctx"
    | (unclear) ids reason where "answer = WsAmbiguous ids reason" "cleaned env (open_rows w ctx) w w'"
        "\<exists>tx e. map_of (tx_table w) tx = Some e \<and> te_context e = ctx"
    | (not_applied) ids where "answer = WsNotApplied ids" "cleaned env (open_rows w ctx) w w'"
        "\<exists>tx e. map_of (tx_table w) tx = Some e \<and> te_context e = ctx"
        "\<And>tx e. map_of (tx_table w) tx = Some e \<Longrightarrow> te_context e = ctx \<Longrightarrow> undone env w w' tx e"
    | (applied) ids complete where "answer = WsApplied ids complete" "cleaned env (open_rows w ctx) w w'"
        "\<exists>tx e. map_of (tx_table w) tx = Some e \<and> te_context e = ctx \<and> at_after env w e"
        "\<And>tx e. map_of (tx_table w) tx = Some e \<Longrightarrow> te_context e = ctx \<Longrightarrow> at_after env w e \<or> undone env w w' tx e"
        "\<And>tx e. complete \<Longrightarrow> map_of (tx_table w) tx = Some e \<Longrightarrow> te_context e = ctx
           \<Longrightarrow> (\<exists>i. te_terminal e = Some (TxCommitted i)) \<and> at_after env w e"
proof -
  obtain rows where rows: "evidence_for (wd_journal w) ctx = Inr rows"
    using assms(4) by (auto simp: reconcile_workspace_effect_def split: sum.splits)
  note er = evidence_for_rows [OF rows assms(3)]
  show thesis
  proof (cases "rows = []")
    case True
    then show thesis using assms(4) rows er(1) unmanaged by (auto simp: reconcile_workspace_effect_def)
  next
    case some_row: False
    then have ex: "\<exists>tx e. map_of (tx_table w) tx = Some e \<and> te_context e = ctx" using er(1) by (cases rows) auto
    let ?ta0 = "\<lparr>ta_applied = 0, ta_committed = 0, ta_not_applied = [], ta_budget = MAX_RECONCILIATION_READ_BYTES\<rparr>"
    obtain w1 r1 where i: "inspect_rows env rows ?ta0 w = (w1, r1)" by fastforce
    show thesis
    proof (cases "\<exists>ta. r1 = Inr (Inr ta)")
      case False
      then have "w' = w1" "\<exists>ids reason. answer = WsAmbiguous ids reason"
        using assms(4) rows some_row i by (cases r1; auto simp: reconcile_workspace_effect_def Let_def ambiguous_def split: sum.splits)+
      moreover have "same_state w w1" by (rule conjunct1 [OF inspect_rows_result [OF assms(1,2) i]])
      ultimately show thesis using unclear [OF _ _ ex] cleaned_same by blast
    next
      case True
      then obtain ta where ta: "r1 = Inr (Inr ta)" by blast
      obtain w2 r2 where c: "close_rows env (ta_not_applied ta) (ta_budget ta) w1 = (w2, r2)" by fastforce
      note rl = reconcile_loops [OF assms(1,2,3) rows i [unfolded ta] c]
      have w': "w' = w2" "r2 \<noteq> Inr (Inr ()) \<Longrightarrow> \<exists>ids reason. answer = WsAmbiguous ids reason"
          "r2 = Inr (Inr ()) \<Longrightarrow> answer = (if 0 < ta_applied ta then WsApplied (map fst rows)
             (ta_applied ta = length rows \<and> ta_committed ta = length rows) else WsNotApplied (map fst rows))"
        using assms(4) rows some_row i ta c
        by (cases r2; auto simp: reconcile_workspace_effect_def Let_def ambiguous_def split: sum.splits)+
      consider "r2 \<noteq> Inr (Inr ())" | "r2 = Inr (Inr ())" "0 < ta_applied ta" | "r2 = Inr (Inr ())" "\<not> 0 < ta_applied ta" by blast
      then show thesis
      proof cases
        case 1
        then show thesis using w'(1,2) rl(1) unclear ex by blast
      next
        case 2
        then obtain tx e where "(tx, e) \<in> set rows" "landed env w e" using rl(3) by blast
        then have row: "map_of (tx_table w) tx = Some e \<and> te_context e = ctx \<and> at_after env w e" using rl(2) [OF 2(1)] er(1) by auto
        show thesis
        proof (rule applied)
          show "answer = WsApplied (map fst rows) (ta_applied ta = length rows \<and> ta_committed ta = length rows)"
            using w'(3) [OF 2(1)] 2(2) by simp
          show "cleaned env (open_rows w ctx) w w'" "\<exists>tx e. map_of (tx_table w) tx = Some e \<and> te_context e = ctx \<and> at_after env w e"
            using rl(1) w'(1) row by blast+
          show "at_after env w x \<or> undone env w w' t x" if "map_of (tx_table w) t = Some x" "te_context x = ctx" for t x
            using rl(2) [OF 2(1)] er(1) that w'(1) by (metis (full_types))
          show "(\<exists>i. te_terminal x = Some (TxCommitted i)) \<and> at_after env w x"
            if "ta_applied ta = length rows \<and> ta_committed ta = length rows" "map_of (tx_table w) t = Some x" "te_context x = ctx" for t x
            using that rl(4) er(1) verdict_facts(1) by blast
        qed
      next
        case 3
        have "undone env w w' t x" if "map_of (tx_table w) t = Some x" "te_context x = ctx" for t x
        proof -
          have "(t, x) \<in> set rows" using er(1) that by blast
          then show ?thesis using rl(2) [OF 3(1)] rl(3) 3(2) w'(1) by (metis (mono_tags, lifting) case_prodI)
        qed
        then show thesis using w'(3) [OF 3(1)] 3(2) rl(1) w'(1) ex by (intro not_applied) auto
      qed
    qed
  qed
qed

end
