(* ===== verification/Workspace_Receipts.thy ===== *)
theory Workspace_Receipts
  imports Workspace_Directory Workspace_Recovery
begin

text \<open>
  What staging, commit and rollback do to the disk when no other process works in the file system: they touch two names, the
  staged one and the target, and no content of an existing file.
\<close>

section \<open>Calls\<close>

definition unlink_name :: "ws_fs \<Rightarrow> nat \<Rightarrow> rust_str \<Rightarrow> ws_fs" where
  "unlink_name fs dir name = fs\<lparr>fs_entries := (fs_entries fs)((dir, name) := None)\<rparr>"

lemma unlink_name_simps [simp]:
  "fs_nodes (unlink_name fs dir name) = fs_nodes fs"
  "fs_entries (unlink_name fs dir name) = (fs_entries fs)((dir, name) := None)"
  by (simp_all add: unlink_name_def)

text \<open>\<open>same_disk\<close>: the file system is as before; the journals may differ.\<close>

definition same_disk :: "ws_world \<Rightarrow> ws_world \<Rightarrow> bool" where
  "same_disk w w' \<longleftrightarrow> wd_fs w' = wd_fs w \<and> wd_root w' = wd_root w"

lemma same_disk_refl [simp]: "same_disk w w"
  by (simp add: same_disk_def)

lemma same_disk_trans: "same_disk a b \<Longrightarrow> same_disk b c \<Longrightarrow> same_disk a c"
  by (simp add: same_disk_def)

lemma same_state_disk: "same_state w w' \<Longrightarrow> same_disk w w'"
  by (simp add: same_state_def same_disk_def)

lemma world_append_disk: "world_append env t w = (w', res) \<Longrightarrow> same_disk w w'"
  using world_append_result(1) by (fastforce simp: journaled_def same_disk_def)

lemma record_change_result:
  assumes "undisturbed env" "record_change env r w = (w', res)"
  shows "same_disk w w'" "wd_journal w' = wd_journal w"
proof -
  obtain w1 r1 where q: "os_query env (\<lambda>_. Inr ()) w = (w1, r1)" by fastforce
  have "same_state w w1" by (rule os_query_result(1) [OF assms(1) q])
  then show "same_disk w w'" "wd_journal w' = wd_journal w"
    using assms(2) q by (auto simp: record_change_def same_disk_def same_state_def split: sum.splits)
qed

lemma close_intent_result:
  assumes "close_intent env ctx tx w = (w', res)"
  shows "same_disk w w'"
    "res = Inr () \<Longrightarrow> ctx \<noteq> None \<Longrightarrow> \<exists>e. map_of (tx_table w) tx = Some e \<and> te_terminal e = None \<and> map_of (tx_table w') tx = Some (rolled_back_row e)"
proof -
  show "same_disk w w'" using assms world_append_disk by (auto simp: close_intent_def split: if_splits)
  assume res: "res = Inr ()" and ctx: "ctx \<noteq> None"
  then have a: "world_append env (WsRolledBack tx) w = (w', Inr ())" using assms by (auto simp: close_intent_def)
  obtain e where e: "map_of (tx_table w) tx = Some e" "te_terminal e = None"
    using world_append_result(2) [OF a refl] by (auto split: option.splits if_splits)
  then show "\<exists>e. map_of (tx_table w) tx = Some e \<and> te_terminal e = None \<and> map_of (tx_table w') tx = Some (rolled_back_row e)"
    using append_cleans(2) [OF a e(1) refl] by blast
qed

lemma append_committed_result:
  assumes "world_append env (WsCommitted tx i) w = (w', Inr ())"
  shows "\<exists>e. map_of (tx_table w) tx = Some e \<and> te_terminal e = None
    \<and> map_of (tx_table w') tx = Some (e\<lparr>te_terminal := Some (TxCommitted i)\<rparr>)"
  using world_append_result(2) [OF assms refl] by (auto simp: ws_settle_def update_conv' split: option.splits if_splits)

lemma bounded_revision_result:
  assumes "undisturbed env" "bounded_open_file_revision env handle w = (w', res)"
  shows "same_state w w'" "res = Inr (n, d) \<Longrightarrow> \<exists>bytes. fs_nodes (wd_fs w) handle = Some (RegularNode bytes) \<and> n = length bytes \<and> d = os_sha256 env bytes"
proof -
  obtain w1 r1 where m: "file_metadata env handle w = (w1, r1)" by fastforce
  obtain w2 r2 where r: "read_open_file env handle w1 = (w2, r2)" by fastforce
  note s1 = file_metadata_result(1) [OF assms(1) m] and rr = read_file_result [OF assms(1) r]
  have s2: "same_state w w2" using s1 rr(1) same_state_trans by blast
  show "same_state w w'"
    using assms(2) m r s1 s2 by (cases r1; cases r2) (auto simp: bounded_open_file_revision_def split: if_splits)
  assume "res = Inr (n, d)"
  then obtain bytes where "r2 = Inr bytes" "n = length bytes" "d = os_sha256 env bytes"
    using assms(2) m r by (cases r1; cases r2) (auto simp: bounded_open_file_revision_def split: if_splits)
  then show "\<exists>bytes. fs_nodes (wd_fs w) handle = Some (RegularNode bytes) \<and> n = length bytes \<and> d = os_sha256 env bytes"
    using rr(2) s1 by (auto simp: file_bytes_Inr same_state_def)
qed

section \<open>The checks of a commit\<close>

text \<open>\<open>at_snapshot\<close>: the target is what \<open>begin_mutation\<close> saw.\<close>

definition at_snapshot :: "os_env \<Rightarrow> prepared_mutation \<Rightarrow> ws_fs \<Rightarrow> bool" where
  "at_snapshot env m fs \<longleftrightarrow>
     (case existing_entry (pm_parent m) (pm_target_name m) fs of
        Inl e \<Rightarrow> e = IoNotFound \<and> \<not> pm_target_existed m
      | Inr i \<Rightarrow> pm_target_existed m \<and> (case fs_nodes fs i of
            Some (RegularNode bytes) \<Rightarrow> length bytes = pm_bytes_before m \<and> pm_before_revision m = Some (os_sha256 env bytes)
          | _ \<Rightarrow> pm_before_revision m = None))"

lemma file_metadata_other:
  assumes "undisturbed env" "file_metadata env handle w = (w', Inr (False, len))"
  shows "\<not> (\<exists>bytes. fs_nodes (wd_fs w) handle = Some (RegularNode bytes))"
  using os_query_result(2) [OF assms(1) assms(2) [unfolded file_metadata_def] refl] by (auto split: option.splits node.splits)

lemma target_still_matches_result:
  assumes "undisturbed env" "target_still_matches_snapshot env m w = (w', res)"
  shows "same_state w w'" "honest env \<Longrightarrow> res = Inr True \<Longrightarrow> at_snapshot env m (wd_fs w)"
proof -
  obtain w1 r1 where o: "open_existing env (pm_parent m) (pm_target_name m) w = (w1, r1)" by fastforce
  note op = open_existing_result [OF assms(1) o]
  have "same_state w w' \<and> (honest env \<longrightarrow> res = Inr True \<longrightarrow> at_snapshot env m (wd_fs w))"
  proof (cases r1)
    case (Inl e)
    then show ?thesis using assms(2) o op(1,3) by (auto simp: target_still_matches_snapshot_def at_snapshot_def split: if_splits)
  next
    case (Inr handle)
    have at: "existing_entry (pm_parent m) (pm_target_name m) (wd_fs w) = Inr handle" by (rule op(2) [OF Inr])
    obtain w2 r2 where md: "file_metadata env handle w1 = (w2, r2)" by fastforce
    obtain w3 r3 where b: "bounded_open_file_revision env handle w2 = (w3, r3)" by fastforce
    have s: "same_state w w2" "same_state w w3"
      using op(1) file_metadata_result(1) [OF assms(1) md] bounded_revision_result(1) [OF assms(1) b] same_state_trans by blast+
    show ?thesis
    proof (cases "\<exists>len. r2 = Inr (True, len) \<and> pm_target_existed m")
      case True
      have "fs_nodes (wd_fs w) handle = Some (RegularNode bytes) \<Longrightarrow> res = Inr True \<Longrightarrow> at_snapshot env m (wd_fs w)" for bytes
        using assms(2) o Inr md b True at bounded_revision_result(2) [OF assms(1) b] s(1)
        by (cases r3) (auto simp: target_still_matches_snapshot_def at_snapshot_def same_state_def)
      moreover have "res = Inr True \<Longrightarrow> \<exists>bytes. fs_nodes (wd_fs w) handle = Some (RegularNode bytes)"
        using assms(2) o Inr md b True bounded_revision_result(2) [OF assms(1) b] s(1)
        by (cases r3) (auto simp: target_still_matches_snapshot_def same_state_def)
      moreover have "same_state w w'" using assms(2) o Inr md b True s by (cases r3) (auto simp: target_still_matches_snapshot_def)
      ultimately show ?thesis by blast
    next
      case False
      then have "same_state w w'" using assms(2) o Inr md op(1) s(1)
        by (cases r2) (auto simp: target_still_matches_snapshot_def split: if_splits)
      moreover have "at_snapshot env m (wd_fs w)" if ok: "res = Inr True"
      proof -
        obtain len where r2: "r2 = Inr (False, len)" "pm_target_existed m" "pm_before_revision m = None"
          using assms(2) o Inr md False ok by (cases r2) (auto simp: target_still_matches_snapshot_def split: if_splits)
        then have "\<not> (\<exists>bytes. fs_nodes (wd_fs w) handle = Some (RegularNode bytes))"
          using file_metadata_other [OF assms(1) md [unfolded r2(1)]] op(1) by (simp add: same_state_def)
        then show ?thesis using at r2(2,3) by (auto simp: at_snapshot_def split: option.splits node.splits)
      qed
      ultimately show ?thesis by blast
    qed
  qed
  then show "same_state w w'" "honest env \<Longrightarrow> res = Inr True \<Longrightarrow> at_snapshot env m (wd_fs w)" by blast+
qed

text \<open>\<open>holds_staged\<close>: a name is bound to the staged file, and the file has the content that was staged.\<close>

definition holds_staged :: "os_env \<Rightarrow> prepared_mutation \<Rightarrow> nat \<Rightarrow> ws_fs \<Rightarrow> rust_str \<Rightarrow> bool" where
  "holds_staged env m handle fs name \<longleftrightarrow> fs_entries fs (pm_parent m, name) = Some handle
     \<and> (\<exists>bytes. fs_nodes fs handle = Some (RegularNode bytes) \<and> length bytes = pm_staged_bytes m
          \<and> os_sha256 env bytes = pm_staged_revision m)"

lemma named_content_result:
  assumes "undisturbed env" "named_content_matches env m name w = (w', res)"
  shows "same_state w w'" "res = Inr True \<Longrightarrow> \<exists>handle. pm_temp_file m = Some handle \<and> holds_staged env m handle (wd_fs w) name"
proof -
  have "same_state w w' \<and> (res = Inr True \<longrightarrow> (\<exists>handle. pm_temp_file m = Some handle \<and> holds_staged env m handle (wd_fs w) name))"
  proof (cases "pm_temp_file m")
    case None
    then show ?thesis using assms(2) by (auto simp: named_content_matches_def)
  next
    case (Some handle)
    obtain w1 r1 where n: "named_entry_matches_file env (pm_parent m) name handle w = (w1, r1)" by fastforce
    obtain w2 r2 where b: "bounded_open_file_revision env handle w1 = (w2, r2)" by fastforce
    obtain w3 r3 where n2: "named_entry_matches_file env (pm_parent m) name handle w2 = (w3, r3)" by fastforce
    have s: "same_state w w1" "same_state w w2" "same_state w w3"
      using named_entry_result(1) [OF assms(1) n] bounded_revision_result(1) [OF assms(1) b] named_entry_result(1) [OF assms(1) n2]
        same_state_trans by blast+
    have "same_state w w'"
      using assms(2) Some n b n2 s by (cases r1; cases r2; cases r3) (auto simp: named_content_matches_def split: if_splits)
    moreover have "holds_staged env m handle (wd_fs w) name" if "res = Inr True"
    proof -
      have r: "r1 = Inr True" "r2 = Inr (pm_staged_bytes m, pm_staged_revision m)"
        using assms(2) Some n b n2 that by (cases r1; cases r2; cases r3; auto simp: named_content_matches_def split: if_splits)+
      then show ?thesis
        using named_entry_result(2) [OF assms(1) n r(1)] bounded_revision_result(2) [OF assms(1) b r(2)] s(1)
        by (auto simp: holds_staged_def same_state_def)
    qed
    ultimately show ?thesis using Some by blast
  qed
  then show "same_state w w'" "res = Inr True \<Longrightarrow> \<exists>handle. pm_temp_file m = Some handle \<and> holds_staged env m handle (wd_fs w) name"
    by blast+
qed


section \<open>Cleaning up\<close>

text \<open>\<open>drops_name\<close>: at most one name, bound to the staged file, is gone.\<close>

definition drops_name :: "nat \<Rightarrow> rust_str \<Rightarrow> nat \<Rightarrow> ws_world \<Rightarrow> ws_world \<Rightarrow> bool" where
  "drops_name dir name handle w w' \<longleftrightarrow> same_disk w w'
     \<or> fs_entries (wd_fs w) (dir, name) = Some handle \<and> wd_fs w' = unlink_name (wd_fs w) dir name \<and> wd_root w' = wd_root w"

lemma drops_name_trans: "drops_name d n h a b \<Longrightarrow> drops_name d n h b c \<Longrightarrow> drops_name d n h a c"
  by (auto simp: drops_name_def same_disk_def)

lemma same_disk_drops: "same_disk w w' \<Longrightarrow> drops_name d n h w w'"
  by (simp add: drops_name_def)

lemma cleanup_file_result:
  assumes "undisturbed env" "cleanup_staged_file env dir name (Some handle) w = (w', ok)"
  shows "drops_name dir name handle w w'" "wd_journal w' = wd_journal w" "ok \<Longrightarrow> fs_entries (wd_fs w') (dir, name) = None"
    "ok \<Longrightarrow> fs_entries (wd_fs w) (dir, name) = Some handle"
proof -
  obtain w1 r1 where rm: "remove_open_file env dir handle name w = (w1, r1)" by fastforce
  obtain w2 r2 where sy: "sync_all env w1 = (w2, r2)" by fastforce
  note rr = remove_open_file_result [OF assms(1) rm]
  have s: "same_state w1 w2" by (rule sync_all_result(1) [OF assms(1) sy])
  have "drops_name dir name handle w w' \<and> wd_journal w' = wd_journal w
      \<and> (ok \<longrightarrow> fs_entries (wd_fs w') (dir, name) = None \<and> fs_entries (wd_fs w) (dir, name) = Some handle)"
  proof (cases r1)
    case (Inl e)
    then have "w' = w1" "\<not> ok" "same_state w w1" using assms(2) rm rr by (auto simp: cleanup_staged_file_def)
    then show ?thesis by (auto simp: drops_name_def same_state_def same_disk_def)
  next
    case (Inr u)
    then have "w' = w2" "unlinked w dir name w1" "fs_entries (wd_fs w) (dir, name) = Some handle"
      using assms(2) rm sy rr by (auto simp: cleanup_staged_file_def split: sum.splits)
    then show ?thesis using s by (auto simp: drops_name_def unlinked_def unlink_name_def same_state_def)
  qed
  then show "drops_name dir name handle w w'" "wd_journal w' = wd_journal w" "ok \<Longrightarrow> fs_entries (wd_fs w') (dir, name) = None"
    "ok \<Longrightarrow> fs_entries (wd_fs w) (dir, name) = Some handle" by blast+
qed

definition closes_row :: "operation_effect_context option \<Rightarrow> rust_str \<Rightarrow> ws_world \<Rightarrow> ws_world \<Rightarrow> bool" where
  "closes_row ctx tx w w' \<longleftrightarrow> (ctx \<noteq> None \<longrightarrow> (\<exists>e. map_of (tx_table w) tx = Some e \<and> te_terminal e = None
     \<and> map_of (tx_table w') tx = Some (rolled_back_row e)))"

lemma rolled_back_result:
  assumes "undisturbed env" "record_rolled_back env m reason w = (w', res)"
  shows "same_disk w w'" "res = Inr () \<Longrightarrow> closes_row (pm_effect_context m) (pm_tx_id m) w w'"
proof -
  obtain w1 r1 where c: "close_intent env (pm_effect_context m) (pm_tx_id m) w = (w1, r1)" by fastforce
  obtain w2 r2 where r: "record_change env (MutationRolledBack (pm_tx_id m) reason) w1 = (w2, r2)" by fastforce
  note cr = close_intent_result [OF c] and rr = record_change_result [OF assms(1) r]
  show "same_disk w w'"
    using assms(2) c r cr(1) rr(1) same_disk_trans by (cases r1) (auto simp: record_rolled_back_def)
  assume "res = Inr ()"
  then have "r1 = Inr ()" "w' = w2" using assms(2) c r by (cases r1; auto simp: record_rolled_back_def)+
  then show "closes_row (pm_effect_context m) (pm_tx_id m) w w'" using cr(2) rr(2) by (auto simp: closes_row_def)
qed

text \<open>The staged file of \<open>m\<close> is the open file \<open>handle\<close> under the name \<open>temp\<close>, and the target is another entry.\<close>

definition staged_as :: "prepared_mutation \<Rightarrow> rust_str \<Rightarrow> nat \<Rightarrow> ws_fs \<Rightarrow> bool" where
  "staged_as m temp handle fs \<longleftrightarrow> pm_temp_name m = Some temp \<and> pm_temp_file m = Some handle \<and> \<not> pm_finished m
     \<and> temp \<noteq> pm_target_name m \<and> fs_entries fs (pm_parent m, pm_target_name m) \<noteq> Some handle"

lemma settle_result:
  assumes "undisturbed env" "staged_as m temp handle (wd_fs w)" "settle_not_applied env m temp reason w = (m', w', receipt)"
  shows "drops_name (pm_parent m) temp handle w w'" "receipt \<noteq> ReceiptApplied durability evidence"
    "receipt = ReceiptNotApplied r \<Longrightarrow> fs_entries (wd_fs w') (pm_parent m, temp) = None \<and> closes_row (pm_effect_context m) (pm_tx_id m) w w'"
    "m' = m \<and> (\<forall>r. receipt \<noteq> ReceiptNotApplied r) \<or> pm_temp_name m' = None"
proof -
  have h: "pm_temp_file m = Some handle" using assms(2) by (simp add: staged_as_def)
  obtain w1 ok where c: "cleanup_staged_file env (pm_parent m) temp (Some handle) w = (w1, ok)" by fastforce
  note cr = cleanup_file_result [OF assms(1) c]
  let ?m2 = "m\<lparr>pm_temp_file := None, pm_temp_name := None, pm_finished := True\<rparr>"
  obtain w2 r2 where rb: "record_rolled_back env ?m2 reason w1 = (w2, r2)" by fastforce
  note rr = rolled_back_result [OF assms(1) rb]
  have main: "drops_name (pm_parent m) temp handle w w' \<and> (\<forall>d ev. receipt \<noteq> ReceiptApplied d ev)
     \<and> (\<forall>r. receipt = ReceiptNotApplied r \<longrightarrow> fs_entries (wd_fs w') (pm_parent m, temp) = None \<and> closes_row (pm_effect_context m) (pm_tx_id m) w w')
     \<and> (m' = m \<and> (\<forall>r. receipt \<noteq> ReceiptNotApplied r) \<or> pm_temp_name m' = None)"
  proof (cases ok)
    case False
    then have "m' = m" "w' = w1" "\<exists>x. receipt = ReceiptUnknown x"
      using assms(3) c h by (auto simp: settle_not_applied_def cleanup_staged_def)
    then show ?thesis using cr(1) by auto
  next
    case True
    have out: "m' = ?m2" "w' = w2" "receipt = (case r2 of Inr () \<Rightarrow> ReceiptNotApplied reason
        | Inl error \<Rightarrow> ReceiptUnknown (reason @ lit ''; rollback journal could not be confirmed and recovery is required: '' @ error_display error))"
      using assms(3) c h rb True by (auto simp: settle_not_applied_def cleanup_staged_def Let_def split: sum.splits)
    have "drops_name (pm_parent m) temp handle w w2" using cr(1) rr(1) drops_name_trans same_disk_drops by blast
    moreover have "fs_entries (wd_fs w2) (pm_parent m, temp) = None" using cr(3) [OF True] rr(1) by (simp add: same_disk_def)
    moreover have "closes_row (pm_effect_context m) (pm_tx_id m) w w2" if "r2 = Inr ()"
      using rr(2) [OF that] cr(2) by (simp add: closes_row_def)
    ultimately show ?thesis using out by (cases r2) auto
  qed
  from main show "drops_name (pm_parent m) temp handle w w'" "receipt \<noteq> ReceiptApplied durability evidence"
    "receipt = ReceiptNotApplied r \<Longrightarrow> fs_entries (wd_fs w') (pm_parent m, temp) = None \<and> closes_row (pm_effect_context m) (pm_tx_id m) w w'" by blast+
  from main show "m' = m \<and> (\<forall>r. receipt \<noteq> ReceiptNotApplied r) \<or> pm_temp_name m' = None" by (elim conjE)
qed

section \<open>The rename\<close>

definition renamed :: "nat \<Rightarrow> nat \<Rightarrow> rust_str \<Rightarrow> rust_str \<Rightarrow> ws_fs \<Rightarrow> ws_fs" where
  "renamed dir handle from_name to_name fs =
     fs\<lparr>fs_entries := (fs_entries fs)((dir, from_name) := None, (dir, to_name) := Some handle)\<rparr>"

lemma replace_file_result:
  assumes "undisturbed env" "replace_file env dir handle from_name to_name w = (w', res)"
    "fs_entries (wd_fs w) (dir, to_name) \<noteq> Some handle"
  shows "(\<exists>e. res = Inl e) \<and> same_state w w'
    \<or> res = Inr () \<and> fs_entries (wd_fs w) (dir, from_name) = Some handle
      \<and> wd_fs w' = renamed dir handle from_name to_name (wd_fs w) \<and> wd_root w' = wd_root w \<and> wd_journal w' = wd_journal w
      \<and> child_dir dir to_name (wd_fs w) \<notin> range Inr"
proof -
  obtain w1 r1 where n: "named_entry_matches_file env dir from_name handle w = (w1, r1)" by fastforce
  note nr = named_entry_result [OF assms(1) n]
  show ?thesis
  proof (cases "r1 = Inr True")
    case False
    then show ?thesis using assms(2) nr(1) n by (cases r1) (auto simp: replace_file_def)
  next
    case True
    have at: "fs_entries (wd_fs w1) (dir, from_name) = Some handle" using nr(1) nr(2) [OF True] by (simp add: same_state_def)
    have "os_call env (rename_entry dir from_name to_name) w1 = (w', res)" using assms(2) n True by (simp add: replace_file_def)
    then show ?thesis
    proof (cases rule: os_call_cases [OF assms(1), consumes 1, case_names silent done_it])
      case (silent e)
      then show ?thesis using nr(1) same_state_trans by blast
    next
      case (done_it fs a)
      then show ?thesis using at nr(1) assms(3) 
        by (auto simp: rename_entry_def same_state_def renamed_def child_dir_def split: if_splits option.splits)
    qed
  qed
qed

definition commits_row :: "operation_effect_context option \<Rightarrow> rust_str \<Rightarrow> tx_terminal \<Rightarrow> ws_world \<Rightarrow> ws_world \<Rightarrow> bool" where
  "commits_row ctx tx terminal w w' \<longleftrightarrow> (ctx \<noteq> None \<longrightarrow> (\<exists>e. map_of (tx_table w) tx = Some e \<and> te_terminal e = None
     \<and> map_of (tx_table w') tx = Some (e\<lparr>te_terminal := Some terminal\<rparr>)))"

lemma acknowledge_result:
  assumes "undisturbed env" "acknowledge_commit env m w = (w', receipt)"
  shows "same_disk w w'" "\<exists>durability. receipt = ReceiptApplied durability (Some (pm_tx_id m))"
    "receipt = ReceiptApplied Durable evidence \<Longrightarrow> commits_row (pm_effect_context m) (pm_tx_id m) (TxCommitted None) w w'"
proof -
  obtain w1 r1 where a: "(if pm_effect_context m = None then (w, Inr ()) else world_append env (WsCommitted (pm_tx_id m) None) w) = (w1, r1)"
    by fastforce
  obtain w2 r2 where r: "record_change env (MutationCommitted (pm_tx_id m)) w1 = (w2, r2)" by fastforce
  obtain w3 r3 where c: "committed_target_matches_staged env m w2 = (w3, r3)" by fastforce
  have s1: "same_disk w w1" using a world_append_disk by (auto split: if_splits)
  note rr = record_change_result [OF assms(1) r]
  have s3: "same_state w2 w3" using named_content_result(1) [OF assms(1)] c by (auto simp: committed_target_matches_staged_def)
  have disk: "same_disk w w2" "same_disk w w3" using s1 rr(1) s3 same_disk_trans same_state_disk by blast+
  have all: "w' \<in> {w1, w2, w3} \<and> (\<exists>durability. receipt = ReceiptApplied durability (Some (pm_tx_id m)))
      \<and> (\<forall>ev. receipt = ReceiptApplied Durable ev \<longrightarrow> w' = w3 \<and> r1 = Inr ())"
    using assms(2) a r c unfolding acknowledge_commit_def applied_but_def
    by (cases r1; cases r2; cases r3) (auto split: bool.splits)
  then show "same_disk w w'" "\<exists>durability. receipt = ReceiptApplied durability (Some (pm_tx_id m))" using s1 disk by auto
  assume "receipt = ReceiptApplied Durable evidence"
  then have w': "w' = w3" "r1 = Inr ()" using all by auto
  have "wd_journal w3 = wd_journal w1" using rr(2) s3 by (simp add: same_state_def)
  then show "commits_row (pm_effect_context m) (pm_tx_id m) (TxCommitted None) w w'"
    using a w' append_committed_result [of env "pm_tx_id m" None w w1] by (auto simp: commits_row_def split: if_splits)
qed

lemma finish_result:
  assumes "undisturbed env" "finish_commit env m w = (w', receipt)"
  shows "same_disk w w'" "receipt \<noteq> ReceiptNotApplied r"
    "receipt = ReceiptApplied Durable evidence \<Longrightarrow> commits_row (pm_effect_context m) (pm_tx_id m) (TxCommitted None) w w'"
proof -
  obtain w1 r1 where c: "committed_target_matches_staged env m w = (w1, r1)" by fastforce
  obtain w2 r2 where y: "sync_all env w1 = (w2, r2)" by fastforce
  obtain w3 r3 where k: "acknowledge_commit env m w2 = (w3, r3)" by fastforce
  have s: "same_state w w1" "same_state w1 w2"
    using named_content_result(1) [OF assms(1)] c sync_all_result(1) [OF assms(1) y] by (auto simp: committed_target_matches_staged_def)
  then have s2: "same_state w w2" using same_state_trans by blast
  note ak = acknowledge_result [OF assms(1) k]
  have all: "w' = w1 \<and> (\<exists>x. receipt = ReceiptUnknown x) \<or> w' = w2 \<and> (\<exists>x. receipt = applied_but m x) \<or> w' = w3 \<and> receipt = r3"
    using assms(2) c y k by (cases r1; cases r2) (auto simp: finish_commit_def split: bool.splits)
  show "same_disk w w'" using all s s2 ak(1) same_state_disk same_disk_trans by blast
  show "receipt \<noteq> ReceiptNotApplied r" using all ak(2) by (auto simp: applied_but_def)
  show "commits_row (pm_effect_context m) (pm_tx_id m) (TxCommitted None) w w'" if "receipt = ReceiptApplied Durable evidence"
    using all that ak(3) [of evidence] s2 by (auto simp: applied_but_def commits_row_def same_state_def)
qed

lemma drop_result:
  assumes "undisturbed env" "pm_temp_name m = None \<or> pm_temp_name m = Some temp \<and> pm_temp_file m = Some handle"
  shows "drops_name (pm_parent m) temp handle w (drop_prepared env m w)" "wd_journal (drop_prepared env m w) = wd_journal w"
proof -
  obtain w1 ok where c: "cleanup_staged_file env (pm_parent m) temp (Some handle) w = (w1, ok)" by fastforce
  have "drop_prepared env m w \<in> {w, w1}"
    using assms(2) c by (auto simp: drop_prepared_def cleanup_staged_def)
  then show "drops_name (pm_parent m) temp handle w (drop_prepared env m w)" "wd_journal (drop_prepared env m w) = wd_journal w"
    using cleanup_file_result(1,2) [OF assms(1) c] by (auto simp: same_disk_drops)
qed

text \<open>
  \<open>commit_outcome\<close>: a commit either leaves the target and at most takes the staged name away, or it renames the verified staged
  file over the target; a receipt says which.
\<close>

definition commit_outcome :: "os_env \<Rightarrow> prepared_mutation \<Rightarrow> rust_str \<Rightarrow> nat \<Rightarrow> ws_world \<Rightarrow> ws_world \<Rightarrow> effect_receipt \<Rightarrow> bool" where
  "commit_outcome env m temp handle w w' receipt \<longleftrightarrow>
     drops_name (pm_parent m) temp handle w w' \<and> (\<forall>durability evidence. receipt \<noteq> ReceiptApplied durability evidence)
       \<and> (\<forall>r. receipt = ReceiptNotApplied r \<longrightarrow> fs_entries (wd_fs w') (pm_parent m, temp) = None
            \<and> closes_row (pm_effect_context m) (pm_tx_id m) w w')
   \<or> holds_staged env m handle (wd_fs w) temp \<and> (honest env \<longrightarrow> at_snapshot env m (wd_fs w))
       \<and> child_dir (pm_parent m) (pm_target_name m) (wd_fs w) \<notin> range Inr
       \<and> wd_fs w' = renamed (pm_parent m) handle temp (pm_target_name m) (wd_fs w) \<and> wd_root w' = wd_root w
       \<and> (\<forall>r. receipt \<noteq> ReceiptNotApplied r)
       \<and> (\<forall>evidence. receipt = ReceiptApplied Durable evidence \<longrightarrow> commits_row (pm_effect_context m) (pm_tx_id m) (TxCommitted None) w w')"

lemma settle_outcome:
  assumes "undisturbed env" "staged_as m temp handle (wd_fs w)" "same_state w w1" "settle_not_applied env m temp reason w1 = (m', w2, receipt)"
  shows "commit_outcome env m temp handle w (drop_prepared env m' w2) receipt"
proof -
  have s: "staged_as m temp handle (wd_fs w1)" using assms(2,3) by (simp add: same_state_def)
  note sr = settle_result [OF assms(1) s assms(4)]
  have "drops_name (pm_parent m) temp handle w w2"
    using sr(1) assms(3) drops_name_trans same_disk_drops same_state_disk by blast
  moreover have "m' = m \<or> pm_temp_name m' = None" using sr(4) by auto
  moreover have "drop_prepared env m' w2 = w2" if "pm_temp_name m' = None" using that by (simp add: drop_prepared_def)
  moreover have "drops_name (pm_parent m) temp handle w2 (drop_prepared env m w2)"
    by (rule drop_result(1) [OF assms(1)]) (use assms(2) in \<open>simp add: staged_as_def\<close>)
  ultimately have d: "drops_name (pm_parent m) temp handle w (drop_prepared env m' w2)" using drops_name_trans by metis
  have "fs_entries (wd_fs (drop_prepared env m' w2)) (pm_parent m, temp) = None \<and> closes_row (pm_effect_context m) (pm_tx_id m) w (drop_prepared env m' w2)"
    if "receipt = ReceiptNotApplied r" for r
  proof -
    have "pm_temp_name m' = None" using sr(4) that by auto
    then show ?thesis using sr(3) [OF that] assms(3) by (simp add: drop_prepared_def closes_row_def same_state_def)
  qed
  then show ?thesis using d sr(2) by (auto simp: commit_outcome_def)
qed

lemma commit_result:
  assumes "undisturbed env" "staged_as m temp handle (wd_fs w)" "mutation_commit env m w = (w', receipt)"
  shows "commit_outcome env m temp handle w w' receipt"
proof -
  have m: "pm_temp_name m = Some temp" "pm_temp_file m = Some handle" using assms(2) by (simp_all add: staged_as_def)
  obtain w1 r1 where t: "target_still_matches_snapshot env m w = (w1, r1)" by fastforce
  obtain w2 r2 where f: "staged_file_matches_expected env m temp w1 = (w2, r2)" by fastforce
  note tr = target_still_matches_result [OF assms(1) t]
  note fr = named_content_result [OF assms(1) f [unfolded staged_file_matches_expected_def]]
  have s2: "same_state w w2" using tr(1) fr(1) same_state_trans by blast
  have settles: "commit_outcome env m temp handle w w' receipt"
    if "commit_staged env m w = settle_not_applied env m temp reason wx" "same_state w wx" for reason wx
  proof -
    obtain m' wy rc where s: "settle_not_applied env m temp reason wx = (m', wy, rc)" by (metis prod_cases3)
    then show ?thesis using settle_outcome [OF assms(1,2) that(2) s] assms(3) that(1) by (simp add: mutation_commit_def)
  qed
  show ?thesis
  proof (cases "r1 = Inr True \<and> r2 = Inr True")
    case False
    then consider (a) e where "r1 = Inl e" | (b) "r1 = Inr False" | (c) e where "r1 = Inr True" "r2 = Inl e" | (d) "r1 = Inr True" "r2 = Inr False"
      by (cases r1; cases r2) auto
    then show ?thesis
    proof cases
      case a
      show ?thesis by (rule settles [OF _ tr(1)]) (simp add: commit_staged_def m t a)
    next
      case b
      show ?thesis by (rule settles [OF _ tr(1)]) (simp add: commit_staged_def m t b)
    next
      case c
      show ?thesis by (rule settles [OF _ s2]) (simp add: commit_staged_def m t c f)
    next
      case d
      show ?thesis by (rule settles [OF _ s2]) (simp add: commit_staged_def m t d f)
    qed
  next
    case True
    obtain w3 r3 where r: "replace_file env (pm_parent m) handle temp (pm_target_name m) w2 = (w3, r3)" by fastforce
    have "fs_entries (wd_fs w2) (pm_parent m, pm_target_name m) \<noteq> Some handle"
      using assms(2) s2 by (simp add: staged_as_def same_state_def)
    note rr = replace_file_result [OF assms(1) r this]
    show ?thesis
    proof (cases r3)
      case (Inl e)
      then have "same_state w w3" using rr s2 same_state_trans by blast
      then show ?thesis using settles m t f True r Inl by (auto simp: commit_staged_def replace_target_def)
    next
      case (Inr u)
      let ?m1 = "m\<lparr>pm_temp_name := None, pm_finished := True\<rparr>"
      obtain w4 rc where fin: "finish_commit env ?m1 w3 = (w4, rc)" by fastforce
      note fi = finish_result [OF assms(1) fin]
      have out: "w' = w4" "receipt = rc"
        using assms(3) m t f True r Inr fin by (auto simp: mutation_commit_def commit_staged_def replace_target_def drop_prepared_def Let_def)
      have ren: "wd_fs w3 = renamed (pm_parent m) handle temp (pm_target_name m) (wd_fs w)" "wd_root w3 = wd_root w" "wd_journal w3 = wd_journal w"
        "child_dir (pm_parent m) (pm_target_name m) (wd_fs w) \<notin> range Inr"
        using rr Inr s2 by (auto simp: same_state_def)
      have "holds_staged env m handle (wd_fs w) temp" using fr(2) True m(2) tr(1) by (auto simp: same_state_def)
      then show ?thesis
        using out ren fi(1,2,3) tr(2) True by (auto simp: commit_outcome_def same_disk_def commits_row_def)
    qed
  qed
qed

section \<open>Staging\<close>

definition put_file :: "ws_fs \<Rightarrow> nat \<times> rust_str \<Rightarrow> nat \<Rightarrow> byte list \<Rightarrow> ws_fs" where
  "put_file fs k handle bytes =
     fs\<lparr>fs_nodes := (fs_nodes fs)(handle \<mapsto> RegularNode bytes), fs_entries := (fs_entries fs)(k \<mapsto> handle)\<rparr>"

lemma put_file_simps [simp]:
  "fs_nodes (put_file fs k handle bytes) = (fs_nodes fs)(handle \<mapsto> RegularNode bytes)"
  "fs_entries (put_file fs k handle bytes) = (fs_entries fs)(k \<mapsto> handle)"
  by (simp_all add: put_file_def)

lemma create_new_file_result:
  assumes "undisturbed env" "create_new_file env dir name w = (w', res)"
  shows "(\<exists>e. res = Inl e) \<and> same_state w w'
    \<or> (\<exists>t. res = Inr (os_inode env t) \<and> fs_entries (wd_fs w) (dir, name) = None
         \<and> wd_fs w' = put_file (wd_fs w) (dir, name) (os_inode env t) [] \<and> wd_root w' = wd_root w \<and> wd_journal w' = wd_journal w)"
  using assms(2) unfolding create_new_file_def
proof (cases rule: os_call_cases [OF assms(1), consumes 1, case_names silent done_it])
  case (silent e)
  then show ?thesis by blast
next
  case (done_it fs a)
  then show ?thesis by (intro disjI2 exI [of _ "wd_tick w"]) (auto simp: put_file_def Let_def split: if_splits)
qed

lemma write_and_sync_result:
  assumes "undisturbed env" "write_and_sync env handle content w = (w', res)"
  shows "wd_root w' = wd_root w \<and> wd_journal w' = wd_journal w
    \<and> ((\<exists>e. res = Inl e) \<and> wd_fs w' = wd_fs w
      \<or> (\<exists>n. wd_fs w' = (wd_fs w)\<lparr>fs_nodes := (fs_nodes (wd_fs w))(handle \<mapsto> RegularNode (take n content))\<rparr>
           \<and> (res = Inr () \<longrightarrow> take n content = content)))"
proof -
  have others: "os_others env t fs = fs" for t fs using assms(1) by (simp add: undisturbed_def)
  let ?n = "if os_crash env (wd_tick w) \<or> os_fault env (wd_tick w) \<noteq> None then os_partial env (wd_tick w) else length content"
  show ?thesis
  proof (cases "wd_crashed w")
    case True
    then show ?thesis using assms(2) by (auto simp: write_and_sync_def Let_def)
  next
    case False
    then have "wd_root w' = wd_root w \<and> wd_journal w' = wd_journal w
        \<and> wd_fs w' = (wd_fs w)\<lparr>fs_nodes := (fs_nodes (wd_fs w))(handle \<mapsto> RegularNode (take ?n content))\<rparr>
        \<and> (res = Inr () \<longrightarrow> take ?n content = content)"
      using assms(2) by (auto simp: write_and_sync_def others put_bytes_def Let_def split: if_splits option.splits)
    then show ?thesis by blast
  qed
qed

text \<open>\<open>staging w0 k handle content w\<close>: since \<open>w0\<close> a new file was named \<open>k\<close>, and it has a prefix of the content.\<close>

definition staging :: "ws_world \<Rightarrow> nat \<times> rust_str \<Rightarrow> nat \<Rightarrow> byte list \<Rightarrow> ws_world \<Rightarrow> bool" where
  "staging w0 k handle content w \<longleftrightarrow> fs_entries (wd_fs w0) k = None \<and> wd_root w = wd_root w0
     \<and> (\<exists>n. wd_fs w = put_file (wd_fs w0) k handle (take n content))"

lemma staging_created: "fs_entries (wd_fs w0) k = None \<Longrightarrow> wd_fs w = put_file (wd_fs w0) k h [] \<Longrightarrow> wd_root w = wd_root w0 \<Longrightarrow> staging w0 k h content w"
  unfolding staging_def by (intro conjI exI [of _ 0]) simp_all

lemma staging_disk: "staging w0 k h content w \<Longrightarrow> same_disk w w' \<Longrightarrow> staging w0 k h content w'"
  by (simp add: staging_def same_disk_def)

lemma staging_written:
  assumes "undisturbed env" "staging w0 k handle content w" "write_and_sync env handle content w = (w', res)"
  shows "staging w0 k handle content w'" "wd_journal w' = wd_journal w" "res = Inr () \<Longrightarrow> wd_fs w' = put_file (wd_fs w0) k handle content"
proof -
  note wr = write_and_sync_result [OF assms(1,3)]
  obtain n0 where n0: "wd_fs w = put_file (wd_fs w0) k handle (take n0 content)" using assms(2) by (auto simp: staging_def)
  have put: "(wd_fs w)\<lparr>fs_nodes := (fs_nodes (wd_fs w))(handle \<mapsto> RegularNode b)\<rparr> = put_file (wd_fs w0) k handle b" for b
    unfolding n0 by (simp add: put_file_def)
  show "staging w0 k handle content w'" using assms(2) wr unfolding put staging_def by auto
  show "wd_journal w' = wd_journal w" using wr by blast
  show "wd_fs w' = put_file (wd_fs w0) k handle content" if "res = Inr ()" using wr that unfolding put by fastforce
qed

text \<open>
  \<open>left_behind\<close>: what a preparation may leave on the disk. No file that existed changes, and if a name is left it is the staged one,
  bound to a prefix of the content, and the journal has the open intent for it.
\<close>

definition left_behind :: "ws_world \<Rightarrow> nat \<times> rust_str \<Rightarrow> byte list \<Rightarrow> rust_str \<Rightarrow> tx_evidence \<Rightarrow> ws_world \<Rightarrow> bool" where
  "left_behind w0 k content tx e w \<longleftrightarrow> wd_root w = wd_root w0
     \<and> (\<forall>i. fs_nodes (wd_fs w0) i \<noteq> None \<longrightarrow> fs_nodes (wd_fs w) i = fs_nodes (wd_fs w0) i)
     \<and> (fs_entries (wd_fs w) = fs_entries (wd_fs w0)
        \<or> fs_entries (wd_fs w0) k = None \<and> map_of (tx_table w) tx = Some e
          \<and> (\<exists>handle n. fs_entries (wd_fs w) = (fs_entries (wd_fs w0))(k \<mapsto> handle)
               \<and> fs_nodes (wd_fs w) handle = Some (RegularNode (take n content))))"

lemma staging_left:
  assumes "staging w0 k handle content w" "fs_nodes (wd_fs w0) handle = None"
    "map_of (tx_table w) tx = Some e"
  shows "left_behind w0 k content tx e w"
proof -
  obtain n where n: "wd_fs w = put_file (wd_fs w0) k handle (take n content)" "fs_entries (wd_fs w0) k = None" "wd_root w = wd_root w0"
    using assms(1) by (auto simp: staging_def)
  have "\<exists>h n. fs_entries (wd_fs w) = (fs_entries (wd_fs w0))(k \<mapsto> h) \<and> fs_nodes (wd_fs w) h = Some (RegularNode (take n content))"
    by (intro exI [of _ handle] exI [of _ n]) (simp add: n)
  then show ?thesis using assms(2,3) n by (auto simp: left_behind_def)
qed

lemma same_disk_left: "same_disk w0 w \<Longrightarrow> left_behind w0 k content tx e w"
  by (simp add: left_behind_def same_disk_def)

definition closed_row :: "ws_world \<Rightarrow> rust_str \<Rightarrow> tx_evidence \<Rightarrow> ws_world \<Rightarrow> bool" where
  "closed_row w0 tx e w \<longleftrightarrow> map_of (tx_table w) tx = map_of (tx_table w0) tx \<or> map_of (tx_table w) tx = Some (rolled_back_row e)"

definition needs_recovery :: "agent_error \<Rightarrow> bool" where
  "needs_recovery e \<longleftrightarrow> (\<exists>reason. e = RecoveryRequired reason)"

lemma staged_cleanup_result:
  assumes "undisturbed env" "staging w0 (dir, name) handle content w" "fs_nodes (wd_fs w0) handle = None" "staged_cleanup env dir name handle w = (w', ok)"
  shows "left_behind w0 (dir, name) content tx e w' \<or> \<not> ok \<and> staging w0 (dir, name) handle content w'" "wd_journal w' = wd_journal w"
    "ok \<Longrightarrow> fs_entries (wd_fs w') = fs_entries (wd_fs w0)"
proof -
  obtain w1 b where c: "cleanup_staged_file env dir name (Some handle) w = (w1, b)" by fastforce
  obtain w2 b2 where c2: "cleanup_staged_file env dir name (Some handle) w1 = (w2, b2)" by fastforce
  note r1 = cleanup_file_result [OF assms(1) c] and r2 = cleanup_file_result [OF assms(1) c2]
  have gone: "fs_entries (unlink_name (wd_fs w) dir name) = fs_entries (wd_fs w0)" using assms(2) by (auto simp: staging_def)
  have left: "left_behind w0 (dir, name) content tx e x \<or> staging w0 (dir, name) handle content x" "fs_entries (wd_fs x) (dir, name) = None \<Longrightarrow> fs_entries (wd_fs x) = fs_entries (wd_fs w0)"
    if "drops_name dir name handle w x" for x
  proof -
    consider "same_disk w x" | "wd_fs x = unlink_name (wd_fs w) dir name" "wd_root x = wd_root w" using \<open>drops_name dir name handle w x\<close> by (auto simp: drops_name_def)
    then have "(left_behind w0 (dir, name) content tx e x \<or> staging w0 (dir, name) handle content x)
       \<and> (fs_entries (wd_fs x) (dir, name) = None \<longrightarrow> fs_entries (wd_fs x) = fs_entries (wd_fs w0))"
    proof cases
      case 1
      have "fs_entries (wd_fs w) (dir, name) = Some handle" using assms(2) by (auto simp: staging_def)
      then show ?thesis using staging_disk [OF assms(2) 1] 1 by (simp add: same_disk_def)
    next
      case 2
      then show ?thesis using gone assms(2,3) by (auto simp: left_behind_def staging_def)
    qed
    then show "left_behind w0 (dir, name) content tx e x \<or> staging w0 (dir, name) handle content x" "fs_entries (wd_fs x) (dir, name) = None \<Longrightarrow> fs_entries (wd_fs x) = fs_entries (wd_fs w0)"
      by blast+
  qed
  have out: "w' = w1 \<and> ok \<and> b \<or> w' = w2 \<and> \<not> ok" using assms(4) c c2 by (cases b) (auto simp: staged_cleanup_def)
  have d2: "drops_name dir name handle w w2" using r1(1) r2(1) drops_name_trans by blast
  show "wd_journal w' = wd_journal w" using out r1(2) r2(2) by auto
  show e: "fs_entries (wd_fs w') = fs_entries (wd_fs w0)" if "ok" using out that left(2) [OF r1(1)] r1(3) by auto
  show "left_behind w0 (dir, name) content tx e w' \<or> \<not> ok \<and> staging w0 (dir, name) handle content w'"
  proof (cases ok)
    case True
    have "\<not> staging w0 (dir, name) handle content w'" using e [OF True] by (auto simp: staging_def fun_eq_iff split: if_splits)
    then show ?thesis using out True left(1) [OF r1(1)] by auto
  next
    case False
    then show ?thesis using out left(1) [OF d2] by auto
  qed
qed


lemma close_intent_closes:
  assumes "close_intent env (Some ctx) tx w = (w', res)" "map_of (tx_table w) tx = Some e"
  shows "res = Inr () \<Longrightarrow> map_of (tx_table w') tx = Some (rolled_back_row e)"
  using close_intent_result(2) [OF assms(1)] assms(2) by auto

text \<open>\<open>fresh\<close>: the inode numbers the system hands out are not in use.\<close>

definition fresh :: "os_env \<Rightarrow> ws_world \<Rightarrow> bool" where
  "fresh env w \<longleftrightarrow> (\<forall>t. fs_nodes (wd_fs w) (os_inode env t) = None \<and> (\<forall>k. fs_entries (wd_fs w) k \<noteq> Some (os_inode env t)))"

definition stage_key :: "mutation_transaction \<Rightarrow> nat \<times> rust_str" where
  "stage_key tx = (mt_parent tx, staging_name (mt_tx_id tx))"

definition intent_row :: "os_env \<Rightarrow> mutation_transaction \<Rightarrow> operation_effect_context \<Rightarrow> byte list \<Rightarrow> tx_evidence" where
  "intent_row env tx ctx content = evidence_of WORKSPACE_JOURNAL_VERSION (intent_of env tx ctx content)"

lemma abandon_result:
  assumes "undisturbed env" "staging w0 (stage_key tx) handle content w" "fs_nodes (wd_fs w0) handle = None"
    "map_of (tx_table w) (mt_tx_id tx) = Some e" "abandon_stage env tx (Some ctx) handle reason error w = (w', res)"
  shows "left_behind w0 (stage_key tx) content (mt_tx_id tx) e w'" "\<exists>err. res = Inl err"
    "res = Inl err \<Longrightarrow> \<not> needs_recovery err \<Longrightarrow> fs_entries (wd_fs w') = fs_entries (wd_fs w0) \<and> closed_row w0 (mt_tx_id tx) e w'"
proof -
  obtain w1 ok where c: "staged_cleanup env (mt_parent tx) (staging_name (mt_tx_id tx)) handle w = (w1, ok)" by fastforce
  obtain w2 r2 where i: "close_intent env (Some ctx) (mt_tx_id tx) w1 = (w2, r2)" by fastforce
  note cr = staged_cleanup_result [OF assms(1) assms(2) [unfolded stage_key_def] assms(3) c, folded stage_key_def]
  have row: "map_of (tx_table w1) (mt_tx_id tx) = Some e" using cr(2) assms(4) by simp
  have left1: "left_behind w0 (stage_key tx) content (mt_tx_id tx) e w1"
    using cr(1) staging_left [OF _ assms(3) row] by blast
  show "\<exists>err. res = Inl err" using assms(5) c i by (auto simp: abandon_stage_def split: bool.splits sum.splits)
  have out: "ok \<longrightarrow> w' = w2" "\<not> ok \<longrightarrow> w' = w1 \<and> (\<exists>x. res = Inl (RecoveryRequired x))"
    "ok \<longrightarrow> r2 \<noteq> Inr () \<longrightarrow> (\<exists>x. res = Inl (RecoveryRequired x))"
    using assms(5) c i by (auto simp: abandon_stage_def split: bool.splits sum.splits)
  have same: "same_disk w1 w2" by (rule close_intent_result(1) [OF i])
  have left2: "left_behind w0 (stage_key tx) content (mt_tx_id tx) e w2" if ok
    using cr(3) [OF that] left1 same by (auto simp: left_behind_def same_disk_def)
  show "left_behind w0 (stage_key tx) content (mt_tx_id tx) e w'" using out(1,2) left1 left2 by (cases ok) auto
  assume "res = Inl err" "\<not> needs_recovery err"
  then have "ok" "r2 = Inr ()" using out(2,3) by (auto simp: needs_recovery_def)
  then show "fs_entries (wd_fs w') = fs_entries (wd_fs w0) \<and> closed_row w0 (mt_tx_id tx) e w'"
    using out(1) cr(3) same close_intent_closes [OF i row] by (simp add: same_disk_def closed_row_def)
qed

lemma persist_result:
  assumes "persist_intent env tx (Some ctx) content w = (w', res)"
  shows "same_disk w w'"
    "res = Inr () \<Longrightarrow> map_of (tx_table w) (mt_tx_id tx) = None \<and> map_of (tx_table w') (mt_tx_id tx) = Some (intent_row env tx ctx content)"
    "res \<noteq> Inr () \<Longrightarrow> \<not> wd_crashed w' \<Longrightarrow> tx_table w' = tx_table w"
proof -
  have a: "world_append env (WsPrepared (intent_of env tx ctx content)) w = (w', res)" using assms by (simp add: persist_intent_def)
  show "same_disk w w'" by (rule world_append_disk [OF a])
  show "map_of (tx_table w) (mt_tx_id tx) = None \<and> map_of (tx_table w') (mt_tx_id tx) = Some (intent_row env tx ctx content)" if "res = Inr ()"
    using world_append_result(2) [OF a that] by (auto simp: intent_row_def intent_of_def update_conv' split: if_splits)
  show "tx_table w' = tx_table w" if "res \<noteq> Inr ()" "\<not> wd_crashed w'"
  proof -
    obtain err where err: "res = Inl err" using \<open>res \<noteq> Inr ()\<close> by (cases res) auto
    obtain J r where J: "ws_append (os_parse_uuid env) (os_codec env) (os_append env (wd_tick w)) (wd_journal w)
        (WsPrepared (intent_of env tx ctx content)) = (J, r)" by fastforce
    have "wd_journal w' = wd_journal w \<or> wd_journal w' = J \<and> r = Inl err"
      using a J err \<open>\<not> wd_crashed w'\<close> by (auto simp: world_append_def split: if_splits)
    then show ?thesis using J by (auto simp: ws_append_def dest: log_append_Inl)
  qed
qed

definition prepared_as :: "os_env \<Rightarrow> mutation_transaction \<Rightarrow> byte list \<Rightarrow> operation_effect_context \<Rightarrow> nat \<Rightarrow> prepared_mutation" where
  "prepared_as env tx content ctx handle =
     \<lparr>pm_parent = mt_parent tx, pm_target_name = mt_target_name tx, pm_tx_id = mt_tx_id tx,
      pm_temp_name = Some (staging_name (mt_tx_id tx)), pm_temp_file = Some handle, pm_effect_context = Some ctx,
      pm_finished = False, pm_relative_target = mt_relative tx, pm_staged_bytes = length content,
      pm_staged_revision = os_sha256 env content, pm_bytes_before = mt_bytes_before tx,
      pm_target_existed = mt_target_existed tx, pm_before_revision = mt_before_revision tx\<rparr>"

text \<open>\<open>staged\<close>: a preparation that succeeded: the new file has the whole content, and the intent is in the journal.\<close>

definition staged :: "os_env \<Rightarrow> mutation_transaction \<Rightarrow> byte list \<Rightarrow> operation_effect_context \<Rightarrow> ws_world \<Rightarrow> ws_world \<Rightarrow> prepared_mutation \<Rightarrow> bool" where
  "staged env tx content ctx w w' m \<longleftrightarrow> (\<exists>handle. fs_nodes (wd_fs w) handle = None \<and> (\<forall>k. fs_entries (wd_fs w) k \<noteq> Some handle)
     \<and> fs_entries (wd_fs w) (stage_key tx) = None \<and> wd_fs w' = put_file (wd_fs w) (stage_key tx) handle content \<and> wd_root w' = wd_root w
     \<and> map_of (tx_table w') (mt_tx_id tx) = Some (intent_row env tx ctx content) \<and> m = prepared_as env tx content ctx handle)"

definition prepare_outcome ::
  "os_env \<Rightarrow> mutation_transaction \<Rightarrow> byte list \<Rightarrow> operation_effect_context \<Rightarrow> ws_world \<Rightarrow> ws_world \<Rightarrow> prepared_mutation agent_result \<Rightarrow> bool" where
  "prepare_outcome env tx content ctx w w' res \<longleftrightarrow>
     left_behind w (stage_key tx) content (mt_tx_id tx) (intent_row env tx ctx content) w'
   \<and> (case res of
        Inr m \<Rightarrow> staged env tx content ctx w w' m
      | Inl err \<Rightarrow> \<not> needs_recovery err \<longrightarrow> \<not> wd_crashed w' \<longrightarrow>
          fs_entries (wd_fs w') = fs_entries (wd_fs w) \<and> closed_row w (mt_tx_id tx) (intent_row env tx ctx content) w')"

lemma abandon_outcome:
  assumes "undisturbed env" "staging w (stage_key tx) handle content w3" "fs_nodes (wd_fs w) handle = None"
    "map_of (tx_table w3) (mt_tx_id tx) = Some (intent_row env tx ctx content)"
    "abandon_stage env tx (Some ctx) handle reason error w3 = (w', res)"
  shows "prepare_outcome env tx content ctx w w' res"
proof -
  obtain err where err: "res = Inl err" using abandon_result(2) [OF assms] by blast
  show ?thesis using abandon_result(1,3) [OF assms] err by (auto simp: prepare_outcome_def)
qed

lemma fill_stage_result:
  assumes "undisturbed env" "fs_nodes (wd_fs w) handle = None" "\<forall>k. fs_entries (wd_fs w) k \<noteq> Some handle"
    "staging w (stage_key tx) handle content w2" "map_of (tx_table w2) (mt_tx_id tx) = Some (intent_row env tx ctx content)"
    "fill_stage env tx content (Some ctx) handle w2 = (w', res)"
  shows "prepare_outcome env tx content ctx w w' res"
proof -
  let ?e = "intent_row env tx ctx content" and ?tx = "mt_tx_id tx"
  obtain w3 r3 where wr: "write_and_sync env handle content w2 = (w3, r3)" by fastforce
  note sw = staging_written [OF assms(1,4) wr]
  have row3: "map_of (tx_table w3) ?tx = Some ?e" using sw(2) assms(5) by simp
  show ?thesis
  proof (cases r3)
    case (Inl err)
    have "abandon_stage env tx (Some ctx) handle (lit ''stage mutation failed'') (Io (lit ''stage temp file'')) w3 = (w', res)"
      using assms(6) wr Inl by (simp add: fill_stage_def)
    then show ?thesis by (rule abandon_outcome [OF assms(1) sw(1) assms(2) row3])
  next
    case r3: (Inr v)
    obtain w4 r4 where rc: "record_change env (MutationPrepared ?tx) w3 = (w4, r4)" by fastforce
    note rr = record_change_result [OF assms(1) rc]
    have st4: "staging w (stage_key tx) handle content w4" by (rule staging_disk [OF sw(1) rr(1)])
    have row4: "map_of (tx_table w4) ?tx = Some ?e" using rr(2) row3 by simp
    show ?thesis
    proof (cases r4)
      case (Inl err)
      have "abandon_stage env tx (Some ctx) handle (lit ''record mutation prepare failed'') err w4 = (w', res)"
        using assms(6) wr r3 rc Inl by (simp add: fill_stage_def)
      then show ?thesis by (rule abandon_outcome [OF assms(1) st4 assms(2) row4])
    next
      case (Inr x)
      then have out: "w' = w4" "res = Inr (prepared_as env tx content ctx handle)"
        using assms(6) wr r3 rc by (auto simp: fill_stage_def prepared_as_def)
      have "wd_fs w4 = put_file (wd_fs w) (stage_key tx) handle content" using sw(3) r3 rr(1) by (simp add: same_disk_def)
      moreover have "fs_entries (wd_fs w) (stage_key tx) = None" "wd_root w4 = wd_root w" using st4 by (simp_all add: staging_def)
      ultimately have "staged env tx content ctx w w4 (prepared_as env tx content ctx handle)"
        using assms(2,3) row4 unfolding staged_def by blast
      then show ?thesis using staging_left [OF st4 assms(2) row4] out by (simp add: prepare_outcome_def)
    qed
  qed
qed

lemma prepare_inner_result:
  assumes "undisturbed env" "fresh env w" "prepare_inner env tx content (Some ctx) w = (w', res)"
  shows "prepare_outcome env tx content ctx w w' res"
proof (cases "MAX_MUTATION_BYTES < length content")
  case True
  then show ?thesis using assms(3) by (auto simp: prepare_inner_def prepare_outcome_def same_disk_left closed_row_def)
next
  case small: False
  let ?e = "intent_row env tx ctx content" and ?tx = "mt_tx_id tx"
  obtain w1 r1 where p: "persist_intent env tx (Some ctx) content w = (w1, r1)" by fastforce
  note pr = persist_result [OF p]
  show ?thesis
  proof (cases r1)
    case (Inl err)
    then have "w' = w1" "res = Inl err" using assms(3) small p by (auto simp: prepare_inner_def)
    then show ?thesis using pr(1,3) Inl same_disk_left by (auto simp: prepare_outcome_def closed_row_def same_disk_def)
  next
    case r1: (Inr u)
    have row1: "map_of (tx_table w1) ?tx = Some ?e" using pr(2) r1 by simp
    obtain w2 r2 where c: "create_new_file env (mt_parent tx) (staging_name ?tx) w1 = (w2, r2)" by fastforce
    note cr = create_new_file_result [OF assms(1) c, folded stage_key_def]
    show ?thesis
    proof (cases r2)
      case (Inl err)
      obtain w3 r3 where i: "close_intent env (Some ctx) ?tx w2 = (w3, r3)" by fastforce
      have s2: "same_state w1 w2" using cr Inl by blast
      have out: "w' = w3" "\<exists>err. res = Inl err" "r3 \<noteq> Inr () \<Longrightarrow> \<exists>x. res = Inl (RecoveryRequired x)"
        using assms(3) small p r1 c Inl i by (auto simp: prepare_inner_def split: sum.splits)
      have "same_disk w w3" using pr(1) same_state_disk [OF s2] close_intent_result(1) [OF i] same_disk_trans by blast
      moreover have "map_of (tx_table w3) ?tx = Some (rolled_back_row ?e)" if "r3 = Inr ()"
        using close_intent_closes [OF i _ that] row1 s2 by (simp add: same_state_def)
      ultimately show ?thesis
        using out same_disk_left [of w w3]
        by (cases "r3 = Inr ()") (auto simp: prepare_outcome_def closed_row_def needs_recovery_def same_disk_def)
    next
      case r2: (Inr handle)
      have fresh_handle: "fs_nodes (wd_fs w) handle = None" "\<forall>k. fs_entries (wd_fs w) k \<noteq> Some handle"
        using cr r2 assms(2) by (auto simp: fresh_def)
      have st2: "staging w (stage_key tx) handle content w2" "wd_journal w2 = wd_journal w1"
        using cr r2 pr(1) by (auto simp: same_disk_def intro!: staging_created)
      have "fill_stage env tx content (Some ctx) handle w2 = (w', res)"
        using assms(3) small p r1 c r2 by (simp add: prepare_inner_def)
      then show ?thesis using fill_stage_result [OF assms(1) fresh_handle st2(1)] st2(2) row1 by simp
    qed
  qed
qed

lemma prepare_result:
  assumes "undisturbed env" "fresh env w" "prepare_with_effect_context env tx content ctx w = (w', res)"
  shows "prepare_outcome env tx content ctx w w' res"
proof (cases "effect_context_validate ctx")
  case (Inl m)
  then show ?thesis using assms(3)
    by (auto simp: prepare_with_effect_context_def prepare_outcome_def same_disk_left closed_row_def)
next
  case (Inr u)
  then have "prepare_inner env tx content (Some ctx) w = (w', res)" using assms(3) by (simp add: prepare_with_effect_context_def)
  then show ?thesis by (rule prepare_inner_result [OF assms(1,2)])
qed

text \<open>Commit right after a preparation: the target keeps its entry and its bytes, or it has exactly the new content.\<close>

lemma staged_commit:
  assumes "undisturbed env" "staged env tx content ctx w w1 m" "mt_target_name tx \<noteq> staging_name (mt_tx_id tx)" "mutation_commit env m w1 = (w', receipt)"
  obtains handle where "fs_nodes (wd_fs w) handle = None" "staged_as m (staging_name (mt_tx_id tx)) handle (wd_fs w1)"
    "m = prepared_as env tx content ctx handle" "wd_fs w1 = put_file (wd_fs w) (stage_key tx) handle content"
    "fs_entries (wd_fs w) (stage_key tx) = None" "wd_root w1 = wd_root w" "\<forall>k. fs_entries (wd_fs w) k \<noteq> Some handle"
    "commit_outcome env m (staging_name (mt_tx_id tx)) handle w1 w' receipt"
proof -
  obtain handle where h: "fs_nodes (wd_fs w) handle = None" "\<forall>k. fs_entries (wd_fs w) k \<noteq> Some handle"
     "fs_entries (wd_fs w) (stage_key tx) = None" "wd_fs w1 = put_file (wd_fs w) (stage_key tx) handle content" "wd_root w1 = wd_root w"
     "m = prepared_as env tx content ctx handle"
    using assms(2) by (auto simp: staged_def)
  have s: "staged_as m (staging_name (mt_tx_id tx)) handle (wd_fs w1)"
    using h assms(3) by (auto simp: staged_as_def prepared_as_def stage_key_def)
  show thesis by (rule that [OF h(1) s h(6,4,3,5,2) commit_result [OF assms(1) s assms(4)]])
qed


lemma left_behind_facts:
  assumes "left_behind w0 k content tx e w"
  shows "fs_nodes (wd_fs w0) i \<noteq> None \<Longrightarrow> fs_nodes (wd_fs w) i = fs_nodes (wd_fs w0) i"
    "k' \<noteq> k \<Longrightarrow> fs_entries (wd_fs w) k' = fs_entries (wd_fs w0) k'"
    "fs_entries (wd_fs w) k \<noteq> fs_entries (wd_fs w0) k \<Longrightarrow> map_of (tx_table w) tx = Some e
       \<and> (\<exists>handle n. fs_entries (wd_fs w) k = Some handle \<and> fs_nodes (wd_fs w) handle = Some (RegularNode (take n content)))"
proof -
  show "fs_nodes (wd_fs w0) i \<noteq> None \<Longrightarrow> fs_nodes (wd_fs w) i = fs_nodes (wd_fs w0) i"
    and "k' \<noteq> k \<Longrightarrow> fs_entries (wd_fs w) k' = fs_entries (wd_fs w0) k'" using assms by (auto simp: left_behind_def)
  assume "fs_entries (wd_fs w) k \<noteq> fs_entries (wd_fs w0) k"
  then obtain handle n where "map_of (tx_table w) tx = Some e" "fs_entries (wd_fs w) = (fs_entries (wd_fs w0))(k \<mapsto> handle)"
    "fs_nodes (wd_fs w) handle = Some (RegularNode (take n content))" using assms by (auto simp: left_behind_def)
  then show "map_of (tx_table w) tx = Some e
       \<and> (\<exists>handle n. fs_entries (wd_fs w) k = Some handle \<and> fs_nodes (wd_fs w) handle = Some (RegularNode (take n content)))"
    by (intro conjI exI [of _ handle] exI [of _ n]) simp_all
qed

lemma at_snapshot_cong:
  assumes "fs_entries fs' (pm_parent m, pm_target_name m) = fs_entries fs (pm_parent m, pm_target_name m)"
    "\<And>i. fs_entries fs (pm_parent m, pm_target_name m) = Some i \<Longrightarrow> fs_nodes fs' i = fs_nodes fs i"
  shows "at_snapshot env m fs' \<longleftrightarrow> at_snapshot env m fs"
proof (cases "fs_entries fs (pm_parent m, pm_target_name m)")
  case (Some i)
  then show ?thesis using assms(1) assms(2) [OF Some]
    by (auto simp: at_snapshot_def existing_entry_def split: option.splits node.splits)
qed (use assms(1) in \<open>simp add: at_snapshot_def existing_entry_def\<close>)

lemma at_snapshot_before:
  assumes "m = prepared_as env tx content ctx handle" "\<forall>k. fs_entries fs k \<noteq> Some handle" "mt_target_name tx \<noteq> staging_name (mt_tx_id tx)"
  shows "at_snapshot env m (put_file fs (stage_key tx) handle content) \<longleftrightarrow> at_snapshot env m fs"
proof -
  have m: "pm_parent m = mt_parent tx" "pm_target_name m = mt_target_name tx" using assms(1) by (simp_all add: prepared_as_def)
  show ?thesis by (rule at_snapshot_cong) (use assms(2,3) in \<open>auto simp: m stage_key_def\<close>)
qed

section \<open>Directories\<close>

lemma named_dir_state:
  assumes "undisturbed env" "named_entry_matches_dir env dir name child w = (w', res)"
  shows "same_state w w'"
proof -
  obtain w1 r1 where o: "open_child_dir env dir name w = (w1, r1)" by fastforce
  note s1 = open_child_dir_result(1) [OF assms(1) o]
  have i: "same_state x y" if "entry_identity env c x = (y, r)" for c x y r
    by (rule os_query_result(1) [OF assms(1) that [unfolded entry_identity_def]])
  show ?thesis
  proof (cases r1)
    case (Inl e)
    then show ?thesis using assms(2) o s1 by (simp add: named_entry_matches_dir_def)
  next
    case (Inr named)
    obtain w2 r2 where a: "entry_identity env named w1 = (w2, r2)" by fastforce
    obtain w3 r3 where b: "entry_identity env child w2 = (w3, r3)" by fastforce
    have "w' \<in> {w2, w3}" using assms(2) o Inr a b by (cases r2; cases r3) (auto simp: named_entry_matches_dir_def)
    then show ?thesis using s1 i [OF a] i [OF b] same_state_trans by blast
  qed
qed

definition put_dir :: "ws_fs \<Rightarrow> nat \<times> rust_str \<Rightarrow> nat \<Rightarrow> ws_fs" where
  "put_dir fs k i = fs\<lparr>fs_nodes := (fs_nodes fs)(i \<mapsto> DirectoryNode), fs_entries := (fs_entries fs)(k \<mapsto> i)\<rparr>"

lemma put_dir_simps [simp]:
  "fs_nodes (put_dir fs k i) = (fs_nodes fs)(i \<mapsto> DirectoryNode)" "fs_entries (put_dir fs k i) = (fs_entries fs)(k \<mapsto> i)"
  by (simp_all add: put_dir_def)

text \<open>\<open>made\<close>: since \<open>w0\<close> a new directory was made; \<open>unmade\<close>: all names are as in \<open>w0\<close>.\<close>

definition made :: "ws_world \<Rightarrow> nat \<times> rust_str \<Rightarrow> nat \<Rightarrow> ws_world \<Rightarrow> bool" where
  "made w0 k i w \<longleftrightarrow> fs_entries (wd_fs w0) k = None \<and> fs_nodes (wd_fs w0) i = None \<and> wd_fs w = put_dir (wd_fs w0) k i"

definition unmade :: "ws_world \<Rightarrow> ws_world \<Rightarrow> bool" where
  "unmade w0 w \<longleftrightarrow> fs_entries (wd_fs w) = fs_entries (wd_fs w0)
     \<and> (\<forall>i. fs_nodes (wd_fs w0) i \<noteq> None \<longrightarrow> fs_nodes (wd_fs w) i = fs_nodes (wd_fs w0) i)"

lemma made_disk: "made w0 k i w \<Longrightarrow> same_disk w w' \<Longrightarrow> made w0 k i w'"
  by (simp add: made_def same_disk_def)

lemma unmade_disk: "unmade w0 w \<Longrightarrow> same_disk w w' \<Longrightarrow> unmade w0 w'"
  by (simp add: unmade_def same_disk_def)

lemma same_disk_unmade: "same_disk w0 w \<Longrightarrow> unmade w0 w"
  by (simp add: unmade_def same_disk_def)

lemma create_dir_result:
  assumes "undisturbed env" "fresh env w" "create_workspace_child_dir env dir name w = (w', res)"
  shows "wd_journal w' = wd_journal w \<and> (res = Inl \<lparr>dc_may_have_created = False\<rparr> \<and> same_disk w w'
    \<or> (\<exists>i. made w (dir, name) i w' \<and> (res = Inr i \<or> res = Inl \<lparr>dc_may_have_created = True\<rparr>)))"
proof -
  obtain w1 r1 where mk: "make_dir env dir name w = (w1, r1)" by fastforce
  show ?thesis
    using mk unfolding make_dir_def
  proof (cases rule: os_call_cases [OF assms(1), consumes 1, case_names silent done_it])
    case (silent e)
    then show ?thesis using assms(3) mk by (auto simp: create_workspace_child_dir_def same_state_disk same_state_def same_disk_def)
  next
    case (done_it fs a)
    let ?i = "os_inode env (wd_tick w)"
    have m1: "made w (dir, name) ?i w1" "wd_journal w1 = wd_journal w"
      using done_it assms(2) by (auto simp: made_def put_dir_def fresh_def Let_def split: if_splits)
    obtain w2 r2 where o: "open_child_dir env dir name w1 = (w2, r2)" by fastforce
    note oc = open_child_dir_result [OF assms(1) o]
    have child: "c = ?i" if "r2 = Inr c" for c using oc(2) [OF that] m1(1) by (auto simp: child_dir_def made_def)
    obtain w3 r3 where n: "named_entry_matches_dir env dir name ?i w2 = (w3, r3)" by fastforce
    have s: "same_state w1 w2" "same_state w1 w3"
      using oc(1) named_dir_state [OF assms(1) n] same_state_trans by blast+
    have "w' \<in> {w2, w3} \<and> (res = Inr ?i \<or> res = Inl \<lparr>dc_may_have_created = True\<rparr>)"
      using assms(3) mk done_it(1) o n child
      by (cases r2) (auto simp: create_workspace_child_dir_def split: sum.splits bool.splits)
    moreover have "made w (dir, name) ?i x" "wd_journal x = wd_journal w" if "x \<in> {w2, w3}" for x
      using that made_disk [OF m1(1)] same_state_disk [OF s(1)] same_state_disk [OF s(2)] m1(2) s by (auto simp: same_state_def)
    ultimately show ?thesis by blast
  qed
qed

lemma remove_dir_result:
  assumes "undisturbed env" "remove_open_dir env dir child name w = (w', res)"
  shows "wd_journal w' = wd_journal w \<and> ((\<exists>e. res = Inl e) \<and> same_disk w w' \<or> res = Inr () \<and> wd_fs w' = unlink_name (wd_fs w) dir name)"
proof -
  obtain w1 r1 where n: "named_entry_matches_dir env dir name child w = (w1, r1)" by fastforce
  have s: "same_state w w1" by (rule named_dir_state [OF assms(1) n])
  show ?thesis
  proof (cases "r1 = Inr True")
    case False
    then show ?thesis using assms(2) n s by (cases r1) (auto simp: remove_open_dir_def same_state_def same_disk_def)
  next
    case True
    let ?f = "\<lambda>fs. case fs_entries fs (dir, name) of
           None \<Rightarrow> Inl IoNotFound
         | Some i \<Rightarrow> if fs_nodes fs i = Some DirectoryNode \<and> empty_dir i fs
                     then Inr (fs\<lparr>fs_entries := (fs_entries fs)((dir, name) := None)\<rparr>, ()) else Inl IoOther"
    have "os_call env ?f w1 = (w', res)" using assms(2) n True by (simp add: remove_open_dir_def)
    then show ?thesis
    proof (cases rule: os_call_cases [OF assms(1), consumes 1, case_names silent done_it])
      case (silent e)
      then show ?thesis using s by (auto simp: same_state_def same_disk_def)
    next
      case (done_it fs a)
      then show ?thesis using s by (auto simp: same_state_def unlink_name_def split: option.splits if_splits)
    qed
  qed
qed

text \<open>\<open>directory_outcome\<close>: what a receipt of a directory commit says about the disk and the journal.\<close>

definition directory_outcome :: "os_env \<Rightarrow> prepared_directory \<Rightarrow> ws_world \<Rightarrow> ws_world \<Rightarrow> effect_receipt \<Rightarrow> bool" where
  "directory_outcome env p w w' receipt \<longleftrightarrow>
     unmade w w' \<and> (\<forall>durability evidence. receipt \<noteq> ReceiptApplied durability evidence)
       \<and> (\<forall>r. receipt = ReceiptNotApplied r \<longrightarrow> closes_row (pd_effect_context p) (pd_tx_id p) w w')
   \<or> (\<exists>i. made w (pd_parent p, pd_target_name p) i w' \<and> (\<forall>r. receipt \<noteq> ReceiptNotApplied r)
       \<and> (\<forall>evidence. receipt = ReceiptApplied Durable evidence
            \<longrightarrow> commits_row (pd_effect_context p) (pd_tx_id p) (TxCommitted (Some (identity_text env i))) w w'))"

lemma directory_not_applied_outcome:
  assumes "undisturbed env" "unmade w w1" "wd_journal w1 = wd_journal w" "directory_not_applied env p reason w1 = (w', receipt)"
  shows "directory_outcome env p w w' receipt"
proof -
  obtain w2 r2 where c: "close_intent env (pd_effect_context p) (pd_tx_id p) w1 = (w2, r2)" by fastforce
  obtain w3 r3 where r: "record_change env (DirectoryRolledBack (pd_tx_id p) reason) w2 = (w3, r3)" by fastforce
  note cr = close_intent_result [OF c] and rr = record_change_result [OF assms(1) r]
  have disk: "unmade w w2" "unmade w w3" using unmade_disk [OF assms(2)] cr(1) rr(1) same_disk_trans by blast+
  have out: "w' \<in> {w2, w3} \<and> (\<forall>d ev. receipt \<noteq> ReceiptApplied d ev) \<and> (\<forall>x. receipt = ReceiptNotApplied x \<longrightarrow> w' = w3 \<and> r2 = Inr ())"
    using assms(4) c r by (cases r2; cases r3) (auto simp: directory_not_applied_def directory_rolled_back_def)
  moreover have "closes_row (pd_effect_context p) (pd_tx_id p) w w3" if "r2 = Inr ()"
    using cr(2) [OF that] rr(2) assms(3) by (auto simp: closes_row_def)
  ultimately show ?thesis using disk by (auto simp: directory_outcome_def)
qed

lemma remove_created_outcome:
  assumes "undisturbed env" "made w (pd_parent p, pd_target_name p) i w1" "wd_journal w1 = wd_journal w" "remove_created env p i reason w1 = (w', receipt)"
  shows "directory_outcome env p w w' receipt"
proof -
  obtain w2 r2 where rm: "remove_open_dir env (pd_parent p) i (pd_target_name p) w1 = (w2, r2)" by fastforce
  obtain w3 r3 where sy: "sync_all env w2 = (w3, r3)" by fastforce
  note rr = remove_dir_result [OF assms(1) rm] and s3 = sync_all_result(1) [OF assms(1) sy]
  show ?thesis
  proof (cases r2)
    case (Inl e)
    then have "w' = w2" "\<exists>x. receipt = ReceiptUnknown x" using assms(4) rm by (auto simp: remove_created_def)
    then show ?thesis using rr Inl made_disk [OF assms(2)] by (auto simp: directory_outcome_def)
  next
    case r2: (Inr u)
    have gone: "unmade w w2" using rr r2 assms(2) by (auto simp: unmade_def made_def)
    then have g3: "unmade w w3" "wd_journal w3 = wd_journal w"
      using unmade_disk [OF _ same_state_disk [OF s3]] rr s3 assms(3) by (auto simp: same_state_def)
    show ?thesis
    proof (cases r3)
      case (Inl e)
      then show ?thesis using assms(4) rm r2 sy g3 by (auto simp: remove_created_def directory_outcome_def)
    next
      case (Inr v)
      then have "directory_not_applied env p reason w3 = (w', receipt)" using assms(4) rm r2 sy by (simp add: remove_created_def)
      then show ?thesis by (rule directory_not_applied_outcome [OF assms(1) g3])
    qed
  qed
qed

lemma acknowledge_directory_outcome:
  assumes "undisturbed env" "made w (pd_parent p, pd_target_name p) i w1" "wd_journal w1 = wd_journal w"
    "acknowledge_directory env p i (identity_text env i) w1 = (w', receipt)"
  shows "directory_outcome env p w w' receipt"
proof -
  let ?id = "identity_text env i"
  obtain w2 r2 where a: "(if pd_effect_context p = None then (w1, Inr ()) else world_append env (WsCommitted (pd_tx_id p) (Some ?id)) w1) = (w2, r2)"
    by fastforce
  obtain w3 r3 where r: "record_change env (DirectoryCommitted (pd_tx_id p) ?id) w2 = (w3, r3)" by fastforce
  obtain w4 r4 where n: "named_entry_matches_dir env (pd_parent p) (pd_target_name p) i w3 = (w4, r4)" by fastforce
  obtain w5 r5 where q: "entry_identity env i w4 = (w5, r5)" by fastforce
  have s2: "same_disk w1 w2" using a world_append_disk by (auto split: if_splits)
  note rr = record_change_result [OF assms(1) r]
  have s: "same_state w3 w4" "same_state w4 w5"
    using named_dir_state [OF assms(1) n] os_query_result(1) [OF assms(1) q [unfolded entry_identity_def]] .
  have m: "made w (pd_parent p, pd_target_name p) i x" if "x \<in> {w2, w3, w4, w5}" for x
    using that made_disk [OF assms(2)] s2 rr(1) s by (auto simp: same_disk_def same_state_def)
  have out: "w' \<in> {w2, w3, w4, w5} \<and> (\<forall>x. receipt \<noteq> ReceiptNotApplied x) \<and> (\<forall>ev. receipt = ReceiptApplied Durable ev \<longrightarrow> w' = w5 \<and> r2 = Inr ())"
    using assms(4) a r n q unfolding acknowledge_directory_def directory_applied_but_def
    by (cases r2; cases r3; cases r4) (auto split: bool.splits if_splits)
  moreover have "commits_row (pd_effect_context p) (pd_tx_id p) (TxCommitted (Some ?id)) w w5" if "r2 = Inr ()"
    using a that append_committed_result [of env "pd_tx_id p" "Some ?id" w1 w2] rr(2) s assms(3)
    by (auto simp: commits_row_def same_state_def split: if_splits)
  ultimately show ?thesis using m by (auto simp: directory_outcome_def)
qed

lemma bind_directory_outcome:
  assumes "undisturbed env" "made w (pd_parent p, pd_target_name p) i w1" "wd_journal w1 = wd_journal w" "bind_directory env p i w1 = (w', receipt)"
  shows "directory_outcome env p w w' receipt"
proof -
  obtain w2 r2 where q: "entry_identity env i w1 = (w2, r2)" by fastforce
  obtain w3 r3 where n: "named_entry_matches_dir env (pd_parent p) (pd_target_name p) i w2 = (w3, r3)" by fastforce
  obtain w4 r4 where y: "sync_all env w3 = (w4, r4)" by fastforce
  obtain w5 r5 where z: "sync_all env w4 = (w5, r5)" by fastforce
  note qr = os_query_result [OF assms(1) q [unfolded entry_identity_def]]
  have s: "same_state w1 w2" "same_state w1 w3" "same_state w1 w4" "same_state w1 w5"
    using qr(1) named_dir_state [OF assms(1) n] sync_all_result(1) [OF assms(1) y] sync_all_result(1) [OF assms(1) z] same_state_trans by blast+
  have m: "made w (pd_parent p, pd_target_name p) i x" "wd_journal x = wd_journal w" if "same_state w1 x" for x
    using that made_disk [OF assms(2) same_state_disk] assms(3) by (auto simp: same_state_def)
  have idt: "r2 = Inr c \<Longrightarrow> c = identity_text env i" for c using qr(2) by auto
  have out: "(\<exists>reason x. same_state w1 x \<and> remove_created env p i reason x = (w', receipt))
      \<or> acknowledge_directory env p i (identity_text env i) w5 = (w', receipt)"
    using assms(4) q n y z s idt by (cases r2; cases r3; cases r4; cases r5) (auto simp: bind_directory_def split: bool.splits)
  then show ?thesis
    using remove_created_outcome [OF assms(1) m] acknowledge_directory_outcome [OF assms(1) m [OF s(4)]] by blast
qed

lemma directory_commit_result:
  assumes "undisturbed env" "fresh env w" "directory_commit env p w = (w', receipt)"
  shows "directory_outcome env p w w' receipt"
proof -
  obtain w1 r1 where o: "open_child_dir env (pd_parent p) (pd_target_name p) w = (w1, r1)" by fastforce
  have s: "same_state w w1" by (rule open_child_dir_result(1) [OF assms(1) o])
  have na: "directory_outcome env p w w' receipt" if "directory_not_applied env p reason x = (w', receipt)" "unmade w x" "wd_journal x = wd_journal w" for reason x
    by (rule directory_not_applied_outcome [OF assms(1) that(2,3,1)])
  show ?thesis
  proof (cases "r1 = Inl IoNotFound")
    case False
    then have "\<exists>reason. directory_not_applied env p reason w1 = (w', receipt)"
      using assms(3) o by (cases r1) (auto simp: directory_commit_def)
    then show ?thesis using na same_disk_unmade [OF same_state_disk [OF s]] s by (auto simp: same_state_def)
  next
    case True
    obtain w2 r2 where c: "create_workspace_child_dir env (pd_parent p) (pd_target_name p) w1 = (w2, r2)" by fastforce
    have f: "fresh env w1" using assms(2) s by (simp add: fresh_def same_state_def)
    have since: "made w k i x" if "made w1 k i x" for k i x using that s by (simp add: made_def same_state_def)
    have j: "wd_journal w2 = wd_journal w" using create_dir_result [OF assms(1) f c] s by (simp add: same_state_def)
    consider (refused) "r2 = Inl \<lparr>dc_may_have_created = False\<rparr>" "same_disk w w2"
      | (bound) i where "r2 = Inr i" "made w (pd_parent p, pd_target_name p) i w2"
      | (lost) i where "r2 = Inl \<lparr>dc_may_have_created = True\<rparr>" "made w (pd_parent p, pd_target_name p) i w2"
      using create_dir_result [OF assms(1) f c] same_disk_trans [OF same_state_disk [OF s]] since by blast
    then show ?thesis
    proof cases
      case refused
      then have "directory_not_applied env p (lit ''create directory'') w2 = (w', receipt)"
        using assms(3) o True c by (simp add: directory_commit_def)
      then show ?thesis using na same_disk_unmade [OF refused(2)] j by blast
    next
      case bound
      then have "bind_directory env p i w2 = (w', receipt)" using assms(3) o True c by (simp add: directory_commit_def)
      then show ?thesis by (rule bind_directory_outcome [OF assms(1) bound(2) j])
    next
      case lost
      then show ?thesis using assms(3) o True c by (auto simp: directory_commit_def directory_outcome_def)
    qed
  qed
qed

end
