(* ===== verification/Write_Journal.thy ===== *)
theory Write_Journal
  imports Workspace_Receipts
begin

text \<open>
  What the journal file of a write holds when the process dies: only the transitions of this one transaction were appended to
  it, whatever failed, so a process that opens the file finds the other rows as they were, and at most the row of the intent.
\<close>

section \<open>What a write may append\<close>

text \<open>
  \<open>tracked\<close>: since the table \<open>T0\<close> the journal took only transitions of one transaction; \<open>keeps_rows\<close> is what they can make of
  the table. The operations below keep any predicate of the journal that these transitions keep.
\<close>

definition own_transitions :: "ws_prepared \<Rightarrow> ws_transition set" where
  "own_transitions p = {WsPrepared p, WsRolledBack (wp_tx_id p), WsCommitted (wp_tx_id p) None}"

definition keeps_rows :: "ws_table \<Rightarrow> rust_str \<Rightarrow> tx_evidence \<Rightarrow> ws_table \<Rightarrow> bool" where
  "keeps_rows T0 tx e T \<longleftrightarrow> (\<forall>k. k \<noteq> tx \<longrightarrow> map_of T k = map_of T0 k)
     \<and> (map_of T tx = None \<or> (\<exists>t. map_of T tx = Some (e\<lparr>te_terminal := t\<rparr>)))"

definition tracked :: "os_env \<Rightarrow> ws_prepared \<Rightarrow> ws_table \<Rightarrow> ws_journal \<Rightarrow> bool" where
  "tracked env p T0 J \<longleftrightarrow> log_ok_with (own_transitions p) (workspace_kind (os_parse_uuid env)) (os_codec env) J
     \<and> keeps_rows T0 (wp_tx_id p) (evidence_of WORKSPACE_JOURNAL_VERSION p) (lg_table (lw_recovery J))"

lemma settled_row:
  assumes "ws_settle T tx terminal = Inr T'" "keeps_rows T0 tx e T"
  shows "\<exists>x. T' = AList.update tx (e\<lparr>te_terminal := x\<rparr>) T"
proof -
  obtain e' where e': "map_of T tx = Some e'" "T' = AList.update tx (e'\<lparr>te_terminal := Some terminal\<rparr>) T"
    using assms(1) by (auto simp: ws_settle_def split: option.splits if_splits)
  then obtain y where "e' = e\<lparr>te_terminal := y\<rparr>" using assms(2) by (auto simp: keeps_rows_def)
  then show ?thesis using e'(2) by (intro exI [of _ "Some terminal"]) simp
qed

lemma next_own:
  assumes "log_next (workspace_kind parse_uuid) st t = Inr st'" "t \<in> own_transitions p"
    "keeps_rows T0 (wp_tx_id p) (evidence_of WORKSPACE_JOURNAL_VERSION p) (lg_table st)"
  shows "\<exists>x. lg_table st' = AList.update (wp_tx_id p) (evidence_of WORKSPACE_JOURNAL_VERSION p\<lparr>te_terminal := x\<rparr>) (lg_table st)"
proof -
  have a: "ws_apply (lg_table st) WORKSPACE_JOURNAL_VERSION t = Inr (lg_table st')"
    using assms(1) by (auto simp: log_next_def log_step_def workspace_kind_def split: if_splits)
  let ?e = "evidence_of WORKSPACE_JOURNAL_VERSION p"
  show ?thesis
  proof (cases t)
    case (WsPrepared p')
    then have "lg_table st' = AList.update (wp_tx_id p) ?e (lg_table st)" using a assms(2) by (simp add: own_transitions_def)
    then show ?thesis by (intro exI [of _ "te_terminal ?e"]) simp
  next
    case (WsRolledBack tx)
    then have "ws_settle (lg_table st) (wp_tx_id p) TxRolledBack = Inr (lg_table st')" using a assms(2) by (simp add: own_transitions_def)
    then show ?thesis using assms(3) settled_row by blast
  next
    case (WsCommitted tx i)
    then have "ws_settle (lg_table st) (wp_tx_id p) (TxCommitted i) = Inr (lg_table st')" using a assms(2) by (simp add: own_transitions_def)
    then show ?thesis using assms(3) settled_row by blast
  qed
qed

lemma next_keeps_rows:
  assumes "log_next (workspace_kind parse_uuid) st t = Inr st'" "t \<in> own_transitions p"
    "keeps_rows T0 (wp_tx_id p) (evidence_of WORKSPACE_JOURNAL_VERSION p) (lg_table st)"
  shows "keeps_rows T0 (wp_tx_id p) (evidence_of WORKSPACE_JOURNAL_VERSION p) (lg_table st')" "map_of (lg_table st') (wp_tx_id p) \<noteq> None"
  using next_own [OF assms] assms(3) by (auto simp: keeps_rows_def update_conv')

lemma append_tracked:
  assumes "log_codec_ok (os_codec env)" "tracked env p T0 J" "t \<in> own_transitions p"
    "ws_append (os_parse_uuid env) (os_codec env) io J t = (J', res)"
  shows "tracked env p T0 J'" "map_of (lg_table (lw_recovery J)) (wp_tx_id p) \<noteq> None \<Longrightarrow> map_of (lg_table (lw_recovery J')) (wp_tx_id p) \<noteq> None"
proof -
  let ?K = "workspace_kind (os_parse_uuid env)"
  have "log_ok_with (own_transitions p) ?K (os_codec env) J'"
    "lw_recovery J' = lw_recovery J \<or> log_next ?K (lw_recovery J) t = Inr (lw_recovery J')"
    using workspace_log.append_ok_with [OF assms(1) _ assms(4) [unfolded ws_append_def] assms(3)] assms(2)
    by (auto simp: tracked_def split: sum.splits)
  then show "tracked env p T0 J'" "map_of (lg_table (lw_recovery J)) (wp_tx_id p) \<noteq> None \<Longrightarrow> map_of (lg_table (lw_recovery J')) (wp_tx_id p) \<noteq> None"
    using assms(2) next_keeps_rows [OF _ assms(3)] by (auto simp: tracked_def)
qed

text \<open>A journal that a process opens after another one left its file.\<close>

lemma reopened_tracked:
  assumes "log_codec_ok (os_codec env)" "tracked env p T0 J"
    "ws_open (os_parse_uuid env) (os_codec env) io (Some (lw_file J)) = (disk, Inr J')"
  shows "keeps_rows T0 (wp_tx_id p) (evidence_of WORKSPACE_JOURNAL_VERSION p) (lg_table (lw_recovery J'))"
    "evidence_ok (os_parse_uuid env) (lg_table (lw_recovery J'))"
    "map_of (lg_table (lw_recovery J)) (wp_tx_id p) \<noteq> None \<Longrightarrow> map_of (lg_table (lw_recovery J')) (wp_tx_id p) \<noteq> None"
proof -
  let ?K = "workspace_kind (os_parse_uuid env)" and ?C = "os_codec env"
  obtain tail st where h: "log_holds ?K ?C (lw_file J) tail st" "st = lw_recovery J \<or> (\<exists>t\<in>own_transitions p. log_next ?K (lw_recovery J) t = Inr st)"
    using assms(2) by (auto simp: tracked_def log_ok_with_def split: option.splits)
  have "lw_recovery J' = st" using workspace_log.open_ok(2) [OF assms(1) assms(3) [unfolded ws_open_def] _ refl h(1)] h(1) by auto
  then show "keeps_rows T0 (wp_tx_id p) (evidence_of WORKSPACE_JOURNAL_VERSION p) (lg_table (lw_recovery J'))"
    using h(2) assms(2) next_keeps_rows by (auto simp: tracked_def)
  show "evidence_ok (os_parse_uuid env) (lg_table (lw_recovery J'))"
    using workspace_log.holds_table [OF h(1)] \<open>lw_recovery J' = st\<close> by simp
  show "map_of (lg_table (lw_recovery J)) (wp_tx_id p) \<noteq> None \<Longrightarrow> map_of (lg_table (lw_recovery J')) (wp_tx_id p) \<noteq> None"
    using h(2) assms(2) next_keeps_rows(2) \<open>lw_recovery J' = st\<close> by (auto simp: tracked_def)
qed

section \<open>The journal under the operations of a write\<close>

definition tracks :: "os_env \<Rightarrow> ws_prepared \<Rightarrow> (ws_journal \<Rightarrow> bool) \<Rightarrow> bool" where
  "tracks env p P \<longleftrightarrow> (\<forall>t io J. t \<in> own_transitions p \<longrightarrow> P J \<longrightarrow> P (fst (ws_append (os_parse_uuid env) (os_codec env) io J t)))"

lemma tracked_tracks:
  assumes "log_codec_ok (os_codec env)"
  shows "tracks env p (tracked env p T0)"
    "tracks env p (\<lambda>J. tracked env p T0 J \<and> map_of (lg_table (lw_recovery J)) (wp_tx_id p) \<noteq> None)"
  using append_tracked [OF assms, of p T0] unfolding tracks_def by (metis prod.collapse)+

named_theorems journal_same \<open>calls that leave the journal alone\<close>

lemma os_call_journal [journal_same]: "wd_journal (fst (os_call env f w)) = wd_journal w"
  by (auto simp: os_call_def Let_def split: option.splits sum.splits)

lemma query_journal [journal_same]: "wd_journal (fst (os_query env g w)) = wd_journal w"
  by (simp add: os_query_def os_call_journal)

lemma and_then_keeps:
  assumes "P (wd_journal (fst p))" "\<And>w a. P (wd_journal w) \<Longrightarrow> P (wd_journal (fst (k w a)))"
  shows "P (wd_journal (fst (and_then p k)))"
  using assms by (cases "(p, k)" rule: and_then.cases) auto

lemma and_then_journal:
  "wd_journal (fst p) = J \<Longrightarrow> (\<And>w a. wd_journal w = J \<Longrightarrow> wd_journal (fst (k w a)) = J) \<Longrightarrow> wd_journal (fst (and_then p k)) = J"
  by (rule and_then_keeps)

lemma files_journal [journal_same]:
  "wd_journal (fst (sync_all env w)) = wd_journal w" "wd_journal (fst (open_existing env d n w)) = wd_journal w"
  "wd_journal (fst (named_entry_matches_file env d n h w)) = wd_journal w" "wd_journal (fst (remove_named_file env d n w)) = wd_journal w"
  "wd_journal (fst (create_new_file env d n w)) = wd_journal w" "wd_journal (fst (file_metadata env h w)) = wd_journal w"
  "wd_journal (fst (read_open_file env h w)) = wd_journal w"
  by (simp_all add: sync_all_def open_existing_def named_entry_matches_file_def remove_named_file_def create_new_file_def
      file_metadata_def read_open_file_def journal_same)

lemma guarded_journal [journal_same]:
  "wd_journal (fst (remove_open_file env d h n w)) = wd_journal w" "wd_journal (fst (replace_file env d h n n' w)) = wd_journal w"
  by (simp_all add: remove_open_file_def replace_file_def journal_same and_then_journal)

lemma write_journal [journal_same]: "wd_journal (fst (write_and_sync env h bytes w)) = wd_journal w"
  by (simp add: write_and_sync_def put_bytes_def Let_def split: option.splits)

lemma change_journal [journal_same]: "wd_journal (fst (record_change env r w)) = wd_journal w"
  using query_journal [of env "\<lambda>_. Inr ()" w]
  by (cases "os_query env (\<lambda>_. Inr ()) w"; cases "snd (os_query env (\<lambda>_. Inr ()) w)") (simp_all add: record_change_def)

lemma cleanup_journal [journal_same]: "wd_journal (fst (cleanup_staged_file env d n h w)) = wd_journal w"
proof -
  obtain w1 r1 where 1: "(case h of Some handle \<Rightarrow> remove_open_file env d handle n w | None \<Rightarrow> remove_named_file env d n w) = (w1, r1)" by fastforce
  have "wd_journal w1 = wd_journal w" using arg_cong [OF 1, of "\<lambda>p. wd_journal (fst p)"] by (simp add: journal_same split: option.splits)
  moreover obtain w2 r2 where 2: "sync_all env w1 = (w2, r2)" by fastforce
  moreover have "wd_journal w2 = wd_journal w1" using files_journal(1) [of env w1] 2 by simp
  ultimately show ?thesis using 1 by (cases r1; cases r2) (simp_all add: cleanup_staged_file_def)
qed

lemma guard_journal [journal_same]: "wd_journal (fst (staged_cleanup env d n h w)) = wd_journal w"
proof -
  obtain w1 b where c: "cleanup_staged_file env d n (Some h) w = (w1, b)" by fastforce
  have "wd_journal w1 = wd_journal w" using cleanup_journal [of env d n "Some h" w] c by simp
  then show ?thesis using c by (cases b) (simp_all add: staged_cleanup_def cleanup_journal)
qed

lemma revision_journal [journal_same]: "wd_journal (fst (bounded_open_file_revision env h w)) = wd_journal w"
  by (auto simp: bounded_open_file_revision_def journal_same intro!: and_then_journal split: prod.splits)

lemma content_journal [journal_same]: "wd_journal (fst (named_content_matches env m n w)) = wd_journal w"
  by (cases "pm_temp_file m") (auto simp: named_content_matches_def journal_same intro!: and_then_journal split: prod.splits)

lemma snapshot_journal [journal_same]: "wd_journal (fst (target_still_matches_snapshot env m w)) = wd_journal w"
proof -
  obtain w1 r1 where o: "open_existing env (pm_parent m) (pm_target_name m) w = (w1, r1)" by fastforce
  have "wd_journal w1 = wd_journal w" using files_journal(2) [of env "pm_parent m" "pm_target_name m" w] o by simp
  then show ?thesis using o
    by (cases r1) (auto simp: target_still_matches_snapshot_def journal_same intro!: and_then_journal split: prod.splits)
qed

text \<open>The operations that append.\<close>

lemma world_append_keeps:
  assumes "tracks env p P" "t \<in> own_transitions p" "P (wd_journal w)"
  shows "P (wd_journal (fst (world_append env t w)))"
proof -
  obtain J r where J: "ws_append (os_parse_uuid env) (os_codec env) (os_append env (wd_tick w)) (wd_journal w) t = (J, r)" by fastforce
  have "P J" using assms J unfolding tracks_def by (metis fst_conv)
  then show ?thesis using assms(3) J by (simp add: world_append_def)
qed

lemma close_intent_keeps:
  assumes "tracks env p P" "tx = wp_tx_id p" "P (wd_journal w)"
  shows "P (wd_journal (fst (close_intent env c tx w)))"
  using assms world_append_keeps [OF assms(1)] by (simp add: close_intent_def own_transitions_def)

lemma abandon_keeps:
  assumes "tracks env p P" "mt_tx_id tx = wp_tx_id p" "P (wd_journal w)"
  shows "P (wd_journal (fst (abandon_stage env tx c h reason err w)))"
proof -
  obtain w1 b where c: "staged_cleanup env (mt_parent tx) (staging_name (mt_tx_id tx)) h w = (w1, b)" by fastforce
  have w1: "P (wd_journal w1)" using guard_journal [of env "mt_parent tx" "staging_name (mt_tx_id tx)" h w] c assms(3) by simp
  obtain w2 r where i: "close_intent env c (mt_tx_id tx) w1 = (w2, r)" by fastforce
  have "P (wd_journal w2)" using close_intent_keeps [OF assms(1,2) w1, of c] i by simp
  then show ?thesis using c i w1 by (cases b; cases r) (simp_all add: abandon_stage_def)
qed

lemma prepare_keeps:
  assumes "tracks env (intent_of env tx ctx content) P" "P (wd_journal w)"
  shows "P (wd_journal (fst (prepare_with_effect_context env tx content ctx w)))"
proof -
  let ?p = "intent_of env tx ctx content"
  have tx: "mt_tx_id tx = wp_tx_id ?p" by (simp add: intent_of_def)
  have fill: "P (wd_journal (fst (fill_stage env tx content (Some ctx) h w2)))" if P2: "P (wd_journal w2)" for h w2
  proof -
    obtain w3 r3 where 3: "write_and_sync env h content w2 = (w3, r3)" by fastforce
    obtain w4 r4 where 4: "record_change env (MutationPrepared (mt_tx_id tx)) w3 = (w4, r4)" by fastforce
    have P: "P (wd_journal w3)" "P (wd_journal w4)"
      using P2 write_journal [of env h content w2] change_journal [of env "MutationPrepared (mt_tx_id tx)" w3] 3 4 by simp_all
    show ?thesis using 3 4 P abandon_keeps [OF assms(1) tx] by (cases r3; cases r4) (simp_all add: fill_stage_def)
  qed
  have create: "P (wd_journal (fst (case create_new_file env (mt_parent tx) (staging_name (mt_tx_id tx)) w1 of
           (w2, Inl e) \<Rightarrow>
             (case close_intent env (Some ctx) (mt_tx_id tx) w2 of
                (w3, Inl _) \<Rightarrow> (w3, Inl (RecoveryRequired (lit ''create temp; close workspace authority intent'')))
              | (w3, Inr ()) \<Rightarrow> (w3, Inl (confined_io_error (lit ''create temp'') e)))
         | (w2, Inr handle) \<Rightarrow> fill_stage env tx content (Some ctx) handle w2)))" if P1: "P (wd_journal w1)" for w1
  proof -
    obtain w2 r2 where 2: "create_new_file env (mt_parent tx) (staging_name (mt_tx_id tx)) w1 = (w2, r2)" by fastforce
    have P2: "P (wd_journal w2)" using P1 files_journal(5) [of env "mt_parent tx" "staging_name (mt_tx_id tx)" w1] 2 by simp
    obtain w3 r3 where 3: "close_intent env (Some ctx) (mt_tx_id tx) w2 = (w3, r3)" by fastforce
    have "P (wd_journal w3)" using close_intent_keeps [OF assms(1) tx P2, of "Some ctx"] 3 by simp
    then show ?thesis using 2 3 fill [OF P2] by (cases r2; cases r3) simp_all
  qed
  have "P (wd_journal (fst (persist_intent env tx (Some ctx) content w)))"
    using world_append_keeps [OF assms(1) _ assms(2)] by (simp add: persist_intent_def own_transitions_def)
  then have "P (wd_journal (fst (prepare_inner env tx content (Some ctx) w)))"
    using assms(2) create by (simp add: prepare_inner_def and_then_keeps)
  then show ?thesis using assms(2) by (cases "effect_context_validate ctx") (simp_all add: prepare_with_effect_context_def)
qed

lemma settle_keeps:
  assumes "tracks env p P" "pm_tx_id m = wp_tx_id p" "P (wd_journal w)"
  shows "P (wd_journal (fst (snd (settle_not_applied env m temp reason w))))"
proof -
  obtain w1 b where c: "cleanup_staged_file env (pm_parent m) temp (pm_temp_file m) w = (w1, b)" by fastforce
  have w1: "P (wd_journal w1)" using cleanup_journal [of env "pm_parent m" temp "pm_temp_file m" w] c assms(3) by simp
  let ?m = "m\<lparr>pm_temp_file := None, pm_temp_name := None, pm_finished := True\<rparr>"
  obtain w2 r where r: "record_rolled_back env ?m reason w1 = (w2, r)" by fastforce
  have "P (wd_journal (fst (record_rolled_back env ?m reason w1)))"
    unfolding record_rolled_back_def
    by (rule and_then_keeps) (simp_all add: close_intent_keeps [OF assms(1) _ w1] assms(2) change_journal)
  then have "P (wd_journal w2)" using r by simp
  then show ?thesis using c w1 r by (cases b; cases r) (simp_all add: settle_not_applied_def cleanup_staged_def Let_def)
qed

lemma finish_keeps:
  assumes "tracks env p P" "pm_tx_id m = wp_tx_id p" "P (wd_journal w)"
  shows "P (wd_journal (fst (finish_commit env m w)))"
proof -
  have ack: "P (wd_journal (fst (acknowledge_commit env m w2)))" if P2: "P (wd_journal w2)" for w2
  proof -
    obtain w3 r3 where 3: "(if pm_effect_context m = None then (w2, Inr ()) else world_append env (WsCommitted (pm_tx_id m) None) w2) = (w3, r3)"
      by fastforce
    have P3: "P (wd_journal w3)"
      using world_append_keeps [OF assms(1) _ P2, of "WsCommitted (pm_tx_id m) None"] 3 P2 assms(2)
      by (auto simp: own_transitions_def split: if_splits)
    obtain w4 r4 where 4: "record_change env (MutationCommitted (pm_tx_id m)) w3 = (w4, r4)" by fastforce
    obtain w5 r5 where 5: "committed_target_matches_staged env m w4 = (w5, r5)" by fastforce
    have "wd_journal w4 = wd_journal w3" using change_journal [of env "MutationCommitted (pm_tx_id m)" w3] 4 by simp
    moreover have "wd_journal w5 = wd_journal w4"
      using content_journal [of env m "pm_target_name m" w4] 5 by (simp add: committed_target_matches_staged_def)
    ultimately show ?thesis using P3 3 4 5 by (cases r3; cases r4; cases r5) (auto simp: acknowledge_commit_def split: bool.splits)
  qed
  obtain w1 r1 where 1: "committed_target_matches_staged env m w = (w1, r1)" by fastforce
  obtain w2 r2 where 2: "sync_all env w1 = (w2, r2)" by fastforce
  have "wd_journal w1 = wd_journal w" using content_journal [of env m "pm_target_name m" w] 1 by (simp add: committed_target_matches_staged_def)
  moreover have "wd_journal w2 = wd_journal w1" using files_journal(1) [of env w1] 2 by simp
  ultimately show ?thesis using assms(3) ack [of w2] 1 2 by (cases r1; cases r2) (auto simp: finish_commit_def split: bool.splits)
qed

lemma drop_keeps: "wd_journal (drop_prepared env m w) = wd_journal w"
  using cleanup_journal by (auto simp: drop_prepared_def cleanup_staged_def split: option.splits prod.splits) (metis fst_conv)

lemma commit_keeps:
  assumes "tracks env p P" "pm_tx_id m = wp_tx_id p" "P (wd_journal w)"
  shows "P (wd_journal (fst (mutation_commit env m w)))"
proof -
  have replace: "P (wd_journal (fst (snd (replace_target env m temp w2))))" if P2: "P (wd_journal w2)" for temp w2
  proof (cases "pm_temp_file m")
    case (Some h)
    let ?m = "m\<lparr>pm_temp_name := None, pm_finished := True\<rparr>"
    obtain w3 r3 where 3: "replace_file env (pm_parent m) h temp (pm_target_name m) w2 = (w3, r3)" by fastforce
    have P3: "P (wd_journal w3)" using guarded_journal(2) [of env "pm_parent m" h temp "pm_target_name m" w2] 3 P2 by simp
    obtain w4 rc where 4: "finish_commit env ?m w3 = (w4, rc)" by fastforce
    have "P (wd_journal w4)" using finish_keeps [OF assms(1) _ P3, of ?m] assms(2) 4 by simp
    then show ?thesis using Some 3 4 settle_keeps [OF assms(1,2) P3] by (cases r3) (simp_all add: replace_target_def Let_def)
  qed (use P2 in \<open>simp add: replace_target_def\<close>)
  have "P (wd_journal (fst (snd (commit_staged env m w))))"
  proof (cases "pm_temp_name m")
    case (Some temp)
    obtain w1 r1 where 1: "target_still_matches_snapshot env m w = (w1, r1)" by fastforce
    obtain w2 r2 where 2: "staged_file_matches_expected env m temp w1 = (w2, r2)" by fastforce
    have P: "P (wd_journal w1)" "P (wd_journal w2)"
      using snapshot_journal [of env m w] content_journal [of env m temp w1] 1 2 assms(3) by (simp_all add: staged_file_matches_expected_def)
    show ?thesis
      using Some 1 2 settle_keeps [OF assms(1,2) P(1)] settle_keeps [OF assms(1,2) P(2)] replace [OF P(2)]
      by (cases r1; cases r2) (auto simp: commit_staged_def split: bool.splits)
  qed (use assms(3) in \<open>simp add: commit_staged_def\<close>)
  then show ?thesis by (auto simp: mutation_commit_def drop_keeps split: prod.splits)
qed

end
