(* ===== verification/Effect_Journals.thy ===== *)
theory Effect_Journals
  imports Workspace_Journal Remote_Journal Process_Journal Wire_Codec Journal_Samples
begin

text \<open>
  What the three effect journals promise across a crash, with a concrete codec for the witnesses: no acknowledged record is
  lost and at most one that was not acknowledged is found; a remote call that recovery calls not applied never left the
  machine, and none leaves twice; a process that recovery calls not applied was never spawned.
\<close>

section \<open>A codec\<close>

definition en_log_record :: "'t encoder \<Rightarrow> 't log_record encoder" where
  "en_log_record e r = en_pair (\<lambda>n. [n]) (en_pair (\<lambda>n. [n]) e) (lr_version r, lr_seq r, lr_transition r)"

definition de_log_record :: "'t decoder \<Rightarrow> 't log_record decoder" where
  "de_log_record d = de_map (\<lambda>(v, s, t). \<lparr>lr_version = v, lr_seq = s, lr_transition = t\<rparr>) (de_pair de_nat (de_pair de_nat d))"

definition en_log_frame :: "'t encoder \<Rightarrow> 't log_frame encoder" where
  "en_log_frame e f = en_pair (en_log_record e) en_text (lf_record f, lf_checksum f)"

definition de_log_frame :: "'t decoder \<Rightarrow> 't log_frame decoder" where
  "de_log_frame d = de_map (\<lambda>(r, c). \<lparr>lf_record = r, lf_checksum = c\<rparr>) (de_pair (de_log_record d) de_text)"

definition log_wire_codec :: "'t encoder \<Rightarrow> 't decoder \<Rightarrow> 't log_codec" where
  "log_wire_codec e d = \<lparr>
     lc_record_to_vec = (\<lambda>r. Some (nats_to_bytes (en_log_record e r))),
     lc_frame_to_vec = (\<lambda>f. Some (nats_to_bytes (en_log_frame e f))),
     lc_frame_from_slice = from_bytes (de_log_frame d),
     lc_sha256 = checksum32\<rparr>"

lemma log_wire_codec_ok: "wire e d \<Longrightarrow> log_codec_ok (log_wire_codec e d)"
proof -
  assume "wire e d"
  then have r: "wire (en_log_record e) (de_log_record d)"
    unfolding en_log_record_def de_log_record_def by (intro wire_iso wires) simp_all
  have "wire (en_log_frame e) (de_log_frame d)"
    unfolding en_log_frame_def de_log_frame_def by (rule wire_iso, (rule wires r)+) simp
  then show ?thesis
    by (simp add: log_codec_ok_def log_wire_codec_def from_bytes_encoded nats_to_bytes_no_newline)
qed

definition en_context :: "operation_effect_context encoder" where
  "en_context c = en_pair en_identity en_word (ec_identity c, ec_effect_id c)"

definition de_context :: "operation_effect_context decoder" where
  "de_context = de_map (\<lambda>(i, e). \<lparr>ec_identity = i, ec_effect_id = e\<rparr>) (de_pair de_identity de_word)"

lemma wire_context: "wire en_context de_context"
  unfolding en_context_def de_context_def by (rule wire_iso, (rule wires wire_identity)+) simp

fun remote_parts :: "remote_transition \<Rightarrow> operation_effect_context option \<times> rust_str option \<times> uuid \<times> nat" where
  "remote_parts (RemoteReserved c k) = (Some c, k, 0, 0)"
| "remote_parts (RemoteDispatched i) = (None, None, i, 0)"
| "remote_parts (RemoteAcknowledged i AckCompleted) = (None, None, i, 1)"
| "remote_parts (RemoteAcknowledged i AckStaged) = (None, None, i, 2)"
| "remote_parts (RemoteAcknowledged i AckFailed) = (None, None, i, 3)"

definition remote_join :: "operation_effect_context option \<times> rust_str option \<times> uuid \<times> nat \<Rightarrow> remote_transition" where
  "remote_join p = (case p of (Some c, k, _) \<Rightarrow> RemoteReserved c k
     | (None, _, i, n) \<Rightarrow> if n = 0 then RemoteDispatched i
         else RemoteAcknowledged i (if n = 1 then AckCompleted else if n = 2 then AckStaged else AckFailed))"

definition en_remote :: "remote_transition encoder" where
  "en_remote t = en_pair (en_opt en_context) (en_pair (en_opt en_text) (en_pair en_word (\<lambda>n. [n]))) (remote_parts t)"

definition de_remote :: "remote_transition decoder" where
  "de_remote = de_map remote_join (de_pair (de_opt de_context) (de_pair (de_opt de_text) (de_pair de_word de_nat)))"

lemma wire_remote: "wire en_remote de_remote"
  unfolding en_remote_def de_remote_def
proof (rule wire_iso, (rule wires wire_context)+)
  show "remote_join (remote_parts t) = t" for t
    by (cases t rule: remote_parts.cases) (simp_all add: remote_join_def)
qed

definition en_bool :: "bool encoder" where "en_bool b = [if b then 1 else 0]"
definition de_bool :: "bool decoder" where "de_bool = de_map (\<lambda>n. n = 1) de_nat"

lemma wire_bool: "wire en_bool de_bool"
  by (simp add: wire_def en_bool_def de_bool_def de_map_def)

definition en_prepared :: "ws_prepared encoder" where
  "en_prepared p = en_pair en_text (en_pair en_context (en_pair en_text (en_pair en_text (en_pair en_bool (en_pair en_text
     (en_pair en_text (en_pair (en_opt (\<lambda>n. [n])) (en_pair (en_opt (\<lambda>n. [n])) en_bool))))))))
     (wp_tx_id p, wp_context p, wp_relative_target p, wp_temp_name p, wp_target_existed p, wp_before_hash p,
      wp_after_hash p, wp_bytes_before p, wp_bytes_after p, wp_entry_kind p = EntryDirectory)"

definition de_prepared :: "ws_prepared decoder" where
  "de_prepared = de_map (\<lambda>(a, b, c, d, e, f, g, h, i, j). \<lparr>wp_tx_id = a, wp_context = b, wp_relative_target = c,
       wp_temp_name = d, wp_target_existed = e, wp_before_hash = f, wp_after_hash = g, wp_bytes_before = h,
       wp_bytes_after = i, wp_entry_kind = (if j then EntryDirectory else EntryFile)\<rparr>)
     (de_pair de_text (de_pair de_context (de_pair de_text (de_pair de_text (de_pair de_bool (de_pair de_text
       (de_pair de_text (de_pair (de_opt de_nat) (de_pair (de_opt de_nat) de_bool)))))))))"

lemma wire_prepared: "wire en_prepared de_prepared"
  unfolding en_prepared_def de_prepared_def
proof (rule wire_iso, (rule wires wire_context wire_bool)+)
  show "(case (wp_tx_id p, wp_context p, wp_relative_target p, wp_temp_name p, wp_target_existed p, wp_before_hash p,
      wp_after_hash p, wp_bytes_before p, wp_bytes_after p, wp_entry_kind p = EntryDirectory) of
      (a, b, c, d, e, f, g, h, i, j) \<Rightarrow> \<lparr>wp_tx_id = a, wp_context = b, wp_relative_target = c,
       wp_temp_name = d, wp_target_existed = e, wp_before_hash = f, wp_after_hash = g, wp_bytes_before = h,
       wp_bytes_after = i, wp_entry_kind = (if j then EntryDirectory else EntryFile)\<rparr>) = p" for p
    by (cases "wp_entry_kind p") simp_all
qed

fun ws_parts :: "ws_transition \<Rightarrow> ws_prepared option \<times> nat \<times> rust_str \<times> rust_str option" where
  "ws_parts (WsPrepared p) = (Some p, 0, [], None)"
| "ws_parts (WsCommitted tx i) = (None, 0, tx, i)"
| "ws_parts (WsRolledBack tx) = (None, 1, tx, None)"

definition ws_join :: "ws_prepared option \<times> nat \<times> rust_str \<times> rust_str option \<Rightarrow> ws_transition" where
  "ws_join q = (case q of (Some p, _) \<Rightarrow> WsPrepared p
     | (None, n, tx, i) \<Rightarrow> if n = 0 then WsCommitted tx i else WsRolledBack tx)"

definition en_ws :: "ws_transition encoder" where
  "en_ws t = en_pair (en_opt en_prepared) (en_pair (\<lambda>n. [n]) (en_pair en_text (en_opt en_text))) (ws_parts t)"

definition de_ws :: "ws_transition decoder" where
  "de_ws = de_map ws_join (de_pair (de_opt de_prepared) (de_pair de_nat (de_pair de_text (de_opt de_text))))"

lemma wire_ws: "wire en_ws de_ws"
  unfolding en_ws_def de_ws_def
proof (rule wire_iso, (rule wires wire_prepared)+)
  show "ws_join (ws_parts t) = t" for t by (cases t) (simp_all add: ws_join_def)
qed

fun process_parts :: "process_transition \<Rightarrow> operation_effect_context option \<times> nat \<times> rust_str \<times> (bool \<times> nat) option" where
  "process_parts (ProcessSpawned c pid token) = (Some c, pid, token, None)"
| "process_parts (ProcessExited pid code) = (None, pid, [], map_option (\<lambda>i. (i < 0, nat \<bar>i\<bar>)) code)"

definition process_join :: "operation_effect_context option \<times> nat \<times> rust_str \<times> (bool \<times> nat) option \<Rightarrow> process_transition" where
  "process_join q = (case q of (Some c, pid, token, _) \<Rightarrow> ProcessSpawned c pid token
     | (None, pid, _, code) \<Rightarrow> ProcessExited pid (map_option (\<lambda>(neg, n). if neg then - int n else int n) code))"

definition en_process :: "process_transition encoder" where
  "en_process t = en_pair (en_opt en_context) (en_pair (\<lambda>n. [n]) (en_pair en_text (en_opt (en_pair en_bool (\<lambda>n. [n])))))
     (process_parts t)"

definition de_process :: "process_transition decoder" where
  "de_process = de_map process_join
     (de_pair (de_opt de_context) (de_pair de_nat (de_pair de_text (de_opt (de_pair de_bool de_nat)))))"

lemma wire_process: "wire en_process de_process"
  unfolding en_process_def de_process_def
proof (rule wire_iso, (rule wires wire_context wire_bool)+)
  show "process_join (process_parts t) = t" for t
    by (cases t) (auto simp: process_join_def option.map_comp comp_def intro!: option.map_ident_strong)
qed

definition "remote_codec = log_wire_codec en_remote de_remote"
definition "ws_codec = log_wire_codec en_ws de_ws"
definition "process_codec = log_wire_codec en_process de_process"

lemmas effect_codecs_ok =
  log_wire_codec_ok [OF wire_remote, folded remote_codec_def]
  log_wire_codec_ok [OF wire_ws, folded ws_codec_def]
  log_wire_codec_ok [OF wire_process, folded process_codec_def]

definition sample_context :: operation_effect_context where
  "sample_context = \<lparr>ec_identity = sample_identity, ec_effect_id = 5\<rparr>"

section \<open>Samples\<close>

definition fine_open :: log_open_io where
  "fine_open = \<lparr>lo_open_ok = True, lo_lock = (\<lambda>_. True), lo_sync_file_ok = True, lo_sync_directory_ok = True,
     lo_repair = RepairOk, lo_seek_ok = True\<rparr>"

lemma fine_open_ok: "log_open_fine fine_open"
  by (simp add: log_open_fine_def fine_open_def)

definition stored :: append_io where "stored = \<lparr>io_stat_ok = True, io_write_fault = None\<rparr>"

definition tear :: append_io where "tear = \<lparr>io_stat_ok = True, io_write_fault = Some 9\<rparr>"

lemma stored_simps [simp]: "io_stat_ok stored" "io_write_fault stored = None"
  by (simp_all add: stored_def)

definition empty_log :: "('t, 'm) log_kind \<Rightarrow> 'm log_writer" where
  "empty_log K = \<lparr>lw_file = [], lw_recovery = log_initial K, lw_failed = None\<rparr>"

lemma empty_log_open:
  assumes "log_codec_ok C" "0 < lk_lock_attempts K"
  shows "log_open K C fine_open None = (Some [], Inr (empty_log K))"
  using log_open_total [OF assms(1) fine_open_ok assms(2), of None "[]" "log_initial K"] by (simp add: empty_log_def)

lemma sample_context_valid: "effect_context_validate sample_context = Inr ()"
  by code_simp

section \<open>The workspace journal\<close>

text \<open>
  C11. Appends to the workspace effect journal survive a crash. From a new journal, take any sequence of appends with any
  failures of the file system, stopped anywhere, also inside a write. The file then opens again (when the system lets it be
  opened, locked and repaired), and what is read back is the fold of exactly the acknowledged transitions, or of these and
  the transition of the one call whose append reported a failure and fenced the log; nothing else is ever found in it. The table read back is well-formed: one row for a transaction, at
  most sixteen for an effect, and no operation or effect with two identities.
\<close>
theorem workspace_journal_is_crash_atomic:
  assumes "log_codec_ok C" "ws_open parse_uuid C io None = (disk, Inr J)" "log_open_fine io'"
  shows "\<exists>J' st.
     ws_open parse_uuid C io' (Some (lw_file (log_run (workspace_kind parse_uuid) C J calls))) = (Some (lw_file J'), Inr J')
   \<and> log_nexts (workspace_kind parse_uuid) (log_initial (workspace_kind parse_uuid))
       (log_acked (workspace_kind parse_uuid) C J calls) = Inr st
   \<and> (lw_recovery J' = st
      \<or> (\<exists>t. fenced_by (workspace_kind parse_uuid) C J calls t \<and> log_next (workspace_kind parse_uuid) st t = Inr (lw_recovery J')))
   \<and> lw_failed J' = None \<and> evidence_ok parse_uuid (lg_table (lw_recovery J'))"
proof -
  let ?K = "workspace_kind parse_uuid" and ?R = "log_run (workspace_kind parse_uuid) C J calls"
  note o = assms(2) [unfolded ws_open_def]
  have "log_disk ?K C None (log_initial ?K)" by (auto simp: log_disk_def intro!: exI [of _ "[]"])
  note J = log_open_state [OF assms(1) this o]
  have ok: "log_ok ?K C J" using J by (simp add: log_ok_def)
  note run = workspace_log.run_ok [OF assms(1) ok, of calls]
  obtain tail st where h: "log_holds ?K C (lw_file ?R) tail st"
    "st = lw_recovery ?R \<or> (\<exists>t. fenced_by ?K C J calls t \<and> log_next ?K (lw_recovery ?R) t = Inr st)"
    using workspace_log.run_reads_back [OF assms(1) J(3) [folded J(1)] J(2), of calls] by blast
  have "0 < lk_lock_attempts ?K" by (simp add: workspace_kind_def)
  then obtain J' where J': "ws_open parse_uuid C io' (Some (lw_file ?R)) = (Some (lw_file J'), Inr J')"
    "lw_recovery J' = st" "lw_failed J' = None" unfolding ws_open_def using log_reopen [OF assms(1,3) _ h(1)] by blast
  have "evidence_ok parse_uuid (lg_table st)" using workspace_log.holds_table [OF h(1)] .
  then show ?thesis using J' h(2) run J(1) by (intro exI [of _ J'] exI [of _ "lw_recovery ?R"]) auto
qed

definition sample_prepared :: ws_prepared where
  "sample_prepared = \<lparr>wp_tx_id = [97], wp_context = sample_context, wp_relative_target = lit ''a'',
     wp_temp_name = staging_name [97], wp_target_existed = False, wp_before_hash = replicate 64 48,
     wp_after_hash = replicate 64 49, wp_bytes_before = Some 0, wp_bytes_after = Some 3, wp_entry_kind = EntryFile\<rparr>"

theorem workspace_journal_is_crash_atomic_witness:
  "\<exists>J' st. ws_open (\<lambda>_. True) ws_codec fine_open (Some (lw_file (log_run (workspace_kind (\<lambda>_. True)) ws_codec
       (empty_log (workspace_kind (\<lambda>_. True))) [(stored, WsPrepared sample_prepared), (tear, WsRolledBack [97])])))
     = (Some (lw_file J'), Inr J')
   \<and> log_nexts (workspace_kind (\<lambda>_. True)) (log_initial (workspace_kind (\<lambda>_. True)))
       (log_acked (workspace_kind (\<lambda>_. True)) ws_codec (empty_log (workspace_kind (\<lambda>_. True)))
         [(stored, WsPrepared sample_prepared), (tear, WsRolledBack [97])]) = Inr st
   \<and> lw_failed J' = None \<and> evidence_ok (\<lambda>_. True) (lg_table (lw_recovery J'))"
proof -
  have o: "ws_open (\<lambda>_. True) ws_codec fine_open None = (Some [], Inr (empty_log (workspace_kind (\<lambda>_. True))))"
    unfolding ws_open_def by (rule empty_log_open [OF effect_codecs_ok(2)]) (simp add: workspace_kind_def)
  show ?thesis
    using workspace_journal_is_crash_atomic [OF effect_codecs_ok(2) o fine_open_ok,
        of "[(stored, WsPrepared sample_prepared), (tear, WsRolledBack [97])]"] by blast
qed

section \<open>Remote calls\<close>

lemma count_list_subseq: "subseq xs ys \<Longrightarrow> count_list xs a \<le> count_list ys a"
  by (induction rule: list_emb.induct) auto

text \<open>
  C15. The dispatch of a remote effect is recorded at most once, across restarts. From a new remote journal, take any number of
  lifetimes of the process: each opens the journal, with any failures of the file system, and makes any sequence of appends,
  stopped anywhere, also inside a write. Over all of them together the dispatch of an effect is acknowledged at most once, and
  whoever opens the journal next is refused another record of it, so a caller that records the dispatch before it sends does
  not send a second time. Two calls in flight never share an idempotency key. When the reopened journal answers that an effect
  was not applied, no dispatch of it was acknowledged in any lifetime. The statement is about the journal and not about the
  wire: a request that was recorded and sent may still reach the remote side twice, which is what the idempotency key is for.
\<close>
theorem remote_dispatch_is_recorded_once:
  assumes "log_codec_ok C" "log_sessions remote_kind C None sessions = (disk, acked)" "remote_open C io disk = (disk', Inr J)"
  shows "count_list acked (RemoteDispatched k) \<le> 1
    \<and> (RemoteDispatched k \<in> set acked \<longrightarrow> (\<exists>e. log_append remote_kind C io' J (RemoteDispatched k) = (J, Inl e)))
    \<and> (\<forall>a ea b eb key. map_of (lg_table (lw_recovery J)) a = Some ea \<and> map_of (lg_table (lw_recovery J)) b = Some eb
        \<and> re_ack ea = None \<and> re_ack eb = None \<and> re_idempotency_key ea = Some key \<and> re_idempotency_key eb = Some key \<longrightarrow> a = b)
    \<and> (\<forall>ctx evidence. remote_reconcile show_uuid J ctx = Inr (ReconcileNotApplied evidence)
        \<longrightarrow> RemoteDispatched (ec_effect_id ctx) \<notin> set acked)"
proof -
  have "log_disk remote_kind C None (log_initial remote_kind)" by (auto simp: log_disk_def intro!: exI [of _ "[]"])
  from remote_log.sessions_store [OF assms(1) this assms(2)]
  obtain ts st where st: "log_disk remote_kind C disk st" "log_nexts remote_kind (log_initial remote_kind) ts = Inr st" "subseq acked ts"
    by blast
  have J: "lw_recovery J = st" using log_open_state(1) [OF assms(1) st(1)] assms(3) by (simp add: remote_open_def)
  have start: "remote_ok (lg_table (log_initial remote_kind))" by (simp add: log_initial_def remote_kind_def remote_ok_def)
  have ok: "remote_ok (lg_table st)" using remote_log.nexts_table [OF st(2) start] .
  have once: "count_list acked (RemoteDispatched k) \<le> 1"
    using leaves_at_most_once [OF st(2), of k] count_list_subseq [OF st(3), of "RemoteDispatched k"] by (simp split: if_splits)
  have was: "was_dispatched j st" if "RemoteDispatched j \<in> set acked" for j
  proof -
    have "RemoteDispatched j \<in> set ts" using count_list_subseq [OF st(3), of "RemoteDispatched j"] that
      by (metis count_list_0_iff le_zero_eq)
    then show ?thesis
      by (rule remote_log.nexts_establish [of "was_dispatched j" "RemoteDispatched j", OF _ _ st(2) start, rotated 2])
         (auto intro: dispatched_kept dispatched_set [THEN conjunct1])
  qed
  have refused: "\<exists>e. log_append remote_kind C io' J (RemoteDispatched k) = (J, Inl e)" if "RemoteDispatched k \<in> set acked"
    using was [OF that] J
    by (auto simp: log_append_def was_dispatched_def remote_kind_def split: sum.splits option.splits if_splits)
  have denied: "RemoteDispatched (ec_effect_id ctx) \<notin> set acked"
    if "remote_reconcile show_uuid J ctx = Inr (ReconcileNotApplied evidence)" for ctx evidence
    using that was [of "ec_effect_id ctx"] J
    by (auto simp: remote_reconcile_def was_dispatched_def split: option.splits if_splits remote_effect_ack.splits)
  have keys: "a = b" if "map_of (lg_table st) a = Some ea \<and> map_of (lg_table st) b = Some eb
      \<and> re_ack ea = None \<and> re_ack eb = None \<and> re_idempotency_key ea = Some key \<and> re_idempotency_key eb = Some key" for a ea b eb key
    using ok that unfolding remote_ok_def by blast
  show ?thesis unfolding J using once refused denied keys by blast
qed


definition reserved_record :: "remote_transition log_record" where
  "reserved_record = \<lparr>lr_version = 1, lr_seq = 1, lr_transition = RemoteReserved sample_context (Some [65])\<rparr>"

lemma reserved_frame_length:
  "length (nats_to_bytes (en_log_frame en_remote \<lparr>lf_record = reserved_record,
      lf_checksum = log_checksum remote_codec (nats_to_bytes (en_log_record en_remote reserved_record))\<rparr>)) < 500"
  by code_simp

definition dispatched_record :: "remote_transition log_record" where
  "dispatched_record = \<lparr>lr_version = 1, lr_seq = 2, lr_transition = RemoteDispatched 5\<rparr>"

lemma dispatched_frame_length:
  "length (nats_to_bytes (en_log_frame en_remote \<lparr>lf_record = dispatched_record,
      lf_checksum = log_checksum remote_codec (nats_to_bytes (en_log_record en_remote dispatched_record))\<rparr>)) < 500"
  by code_simp

lemma fine_reopen:
  assumes "log_codec_ok C" "0 < lk_lock_attempts K" "log_ok K C W" "lw_failed W = None"
  shows "log_open K C fine_open (Some (lw_file W)) = (Some (lw_file W), Inr W)"
  using log_open_total [OF assms(1) fine_open_ok assms(2), of "Some (lw_file W)" "[]" "lw_recovery W"] assms(3,4)
  by (simp add: log_ok_def Let_def)

lemma reserved_stored:
  obtains J1 where "log_append remote_kind remote_codec stored (empty_log remote_kind) (RemoteReserved sample_context (Some [65])) = (J1, Inr ())"
    "log_ok remote_kind remote_codec J1" "lw_failed J1 = None" "length (lw_file J1) < 1000"
    "lg_table (lw_recovery J1) = [(5, \<lparr>re_context = sample_context, re_idempotency_key = Some [65], re_dispatched = False, re_ack = None\<rparr>)]"
    "lg_last_seq (lw_recovery J1) = 1"
proof -
  obtain b where b: "log_encode remote_kind remote_codec reserved_record = Inr b" "length b < 500"
    using reserved_frame_length by (simp add: log_encode_def remote_codec_def log_wire_codec_def)
  have v: "remote_validate (RemoteReserved sample_context (Some [65])) = Inr ()"
    by (simp add: sample_context_valid MAX_IDEMPOTENCY_KEY_BYTES_def utf8_len_def)
  have "\<exists>W'. log_append remote_kind remote_codec stored (empty_log remote_kind) (RemoteReserved sample_context (Some [65])) = (W', Inr ())
     \<and> lw_failed W' = None \<and> lw_file W' = lw_file (empty_log remote_kind) @ b @ [10]
     \<and> log_next remote_kind (lw_recovery (empty_log remote_kind)) (RemoteReserved sample_context (Some [65])) = Inr (lw_recovery W')"
    using b v by (intro remote_log.append_stores)
      (simp_all add: empty_log_def log_initial_def remote_kind_def MAX_RECORDS_def reserved_record_def REMOTE_JOURNAL_VERSION_def
        MAX_FRAME_BYTES_def MAX_FILE_BYTES_def in_flight_key_def)
  then obtain W where W: "log_append remote_kind remote_codec stored (empty_log remote_kind) (RemoteReserved sample_context (Some [65])) = (W, Inr ())"
    "lw_failed W = None" "lw_file W = b @ [10]"
    "log_next remote_kind (log_initial remote_kind) (RemoteReserved sample_context (Some [65])) = Inr (lw_recovery W)"
    by (auto simp: empty_log_def)
  have "log_ok remote_kind remote_codec (empty_log remote_kind)" by (simp add: log_ok_def empty_log_def)
  note ok = remote_log.append_ok [OF effect_codecs_ok(1) this W(1)]
  have "lg_last_seq (lw_recovery W) = 1" using W(4)
    by (auto simp: log_next_def log_step_def log_initial_def split: if_splits dest!: arg_cong [of _ _ lg_last_seq])
  then show ?thesis
    using that [OF W(1)] ok W b(2) remote_next_Inr(2) [OF W(4)]
    by (simp add: log_initial_def remote_kind_def sample_context_def)
qed

lemma dispatched_stored:
  assumes "log_ok remote_kind remote_codec J1" "lw_failed J1 = None" "length (lw_file J1) < 1000"
    "lg_table (lw_recovery J1) = [(5, \<lparr>re_context = sample_context, re_idempotency_key = Some [65], re_dispatched = False, re_ack = None\<rparr>)]"
    "lg_last_seq (lw_recovery J1) = 1"
  obtains J2 where "log_append remote_kind remote_codec stored J1 (RemoteDispatched 5) = (J2, Inr ())"
    "log_ok remote_kind remote_codec J2" "lw_failed J2 = None"
proof -
  obtain b where b: "log_encode remote_kind remote_codec dispatched_record = Inr b" "length b < 500"
    using dispatched_frame_length by (simp add: log_encode_def remote_codec_def log_wire_codec_def)
  have v: "nonnil_effect 5 = Inr ()" by code_simp
  have "\<exists>W'. log_append remote_kind remote_codec stored J1 (RemoteDispatched 5) = (W', Inr ())
     \<and> lw_failed W' = None \<and> lw_file W' = lw_file J1 @ b @ [10]
     \<and> log_next remote_kind (lw_recovery J1) (RemoteDispatched 5) = Inr (lw_recovery W')"
    using b assms v by (intro remote_log.append_stores)
      (simp_all add: remote_kind_def MAX_RECORDS_def dispatched_record_def REMOTE_JOURNAL_VERSION_def MAX_FRAME_BYTES_def MAX_FILE_BYTES_def
        numeral_2_eq_2)
  then obtain W where W: "log_append remote_kind remote_codec stored J1 (RemoteDispatched 5) = (W, Inr ())" "lw_failed W = None" by blast
  then show ?thesis using that remote_log.append_ok [OF effect_codecs_ok(1) assms(1) W(1)] by blast
qed

lemma empty_remote_open: "remote_open remote_codec fine_open None = (Some [], Inr (empty_log remote_kind))"
  unfolding remote_open_def by (rule empty_log_open [OF effect_codecs_ok(1)]) (simp add: remote_kind_def)

definition remote_lifetimes :: "(log_open_io \<times> (append_io \<times> remote_transition) list) list" where
  "remote_lifetimes = [(fine_open, [(stored, RemoteReserved sample_context (Some [65]))]), (fine_open, [(stored, RemoteDispatched 5)])]"

text \<open>The call is reserved in one lifetime of the process and dispatched in the next; the third refuses to dispatch it again.\<close>

theorem remote_dispatch_is_recorded_once_witness:
  "\<exists>disk acked J. log_sessions remote_kind remote_codec None remote_lifetimes = (disk, acked)
     \<and> remote_open remote_codec fine_open disk = (disk, Inr J)
     \<and> acked = [RemoteReserved sample_context (Some [65]), RemoteDispatched 5]
     \<and> (\<exists>e. log_append remote_kind remote_codec stored J (RemoteDispatched 5) = (J, Inl e))"
proof -
  obtain J1 where J1: "log_append remote_kind remote_codec stored (empty_log remote_kind) (RemoteReserved sample_context (Some [65])) = (J1, Inr ())"
    "log_ok remote_kind remote_codec J1" "lw_failed J1 = None" "length (lw_file J1) < 1000"
    "lg_table (lw_recovery J1) = [(5, \<lparr>re_context = sample_context, re_idempotency_key = Some [65], re_dispatched = False, re_ack = None\<rparr>)]"
    "lg_last_seq (lw_recovery J1) = 1" by (rule reserved_stored)
  obtain J2 where J2: "log_append remote_kind remote_codec stored J1 (RemoteDispatched 5) = (J2, Inr ())"
    "log_ok remote_kind remote_codec J2" "lw_failed J2 = None" by (rule dispatched_stored [OF J1(2-6)])
  have k: "0 < lk_lock_attempts remote_kind" by (simp add: remote_kind_def)
  note o = empty_remote_open [unfolded remote_open_def] fine_reopen [OF effect_codecs_ok(1) k J1(2,3)]
  have run: "log_sessions remote_kind remote_codec None remote_lifetimes
      = (Some (lw_file J2), [RemoteReserved sample_context (Some [65]), RemoteDispatched 5])"
    using o J1(1) J2(1) by (simp add: remote_lifetimes_def)
  have re: "remote_open remote_codec fine_open (Some (lw_file J2)) = (Some (lw_file J2), Inr J2)"
    unfolding remote_open_def by (rule fine_reopen [OF effect_codecs_ok(1) k J2(2,3)])
  from remote_dispatch_is_recorded_once [OF effect_codecs_ok(1) run re, of 5 stored "\<lambda>_. []"] run re show ?thesis by auto
qed

section \<open>Child processes\<close>

text \<open>
  C16. A child process that recovery calls not applied was never spawned. From a new process journal, take any sequence of
  appends with any failures, stopped anywhere, and open the journal again. An answer \<open>NotApplied\<close> for a call means that no
  spawn under its context was ever acknowledged; at most one open spawn exists for a process id, so an exit is never booked
  to another call; and an answer \<open>CompletedValue\<close> is given only for a spawn whose exit is on disk.
\<close>
theorem unspawned_process_is_not_applied:
  assumes "log_codec_ok C" "process_open C io None = (disk, Inr J)"
    "process_open C io' (Some (lw_file (log_run process_kind C J calls))) = (disk', Inr J')"
  shows "(\<forall>evidence pid token. process_reconcile terminate J' ctx = Inr (ReconcileNotApplied evidence)
        \<longrightarrow> ProcessSpawned ctx pid token \<notin> set (log_acked process_kind C J calls))
    \<and> (\<forall>a ea b eb pid. map_of (lg_table (lw_recovery J')) a = Some ea \<and> map_of (lg_table (lw_recovery J')) b = Some eb
        \<and> is_open_spawn pid ea \<and> is_open_spawn pid eb \<longrightarrow> a = b)
    \<and> (\<forall>evidence. process_reconcile terminate J' ctx = Inr (ReconcileCompletedValue evidence)
        \<longrightarrow> (\<exists>e. map_of (lg_table (lw_recovery J')) (ec_effect_id ctx) = Some e \<and> se_context e = ctx \<and> se_exit_code e \<noteq> None))"
proof (intro conjI allI impI)
  have J: "log_ok process_kind C J" "lw_failed J = None"
    using process_log.open_ok(1) [OF assms(1) assms(2) [unfolded process_open_def]] by auto
  note run = process_log.run_ok [OF assms(1) J(1), of calls]
  note re = process_log.reopened [OF assms(1) conjunct1 [OF run] assms(3) [unfolded process_open_def]]
  show "a = b" if "map_of (lg_table (lw_recovery J')) a = Some ea \<and> map_of (lg_table (lw_recovery J')) b = Some eb
        \<and> is_open_spawn pid ea \<and> is_open_spawn pid eb" for a ea b eb pid
    using re(3) that unfolding spawns_ok_def by blast
  show "\<exists>e. map_of (lg_table (lw_recovery J')) (ec_effect_id ctx) = Some e \<and> se_context e = ctx \<and> se_exit_code e \<noteq> None"
    if rec: "process_reconcile terminate J' ctx = Inr (ReconcileCompletedValue evidence)" for evidence
  proof -
    obtain k e where f: "find (\<lambda>(_, e). se_context e = ctx) (lg_table (lw_recovery J')) = Some (k, e)" "se_exit_code e \<noteq> None"
      using rec by (auto simp: process_reconcile_def split: if_splits option.splits)
    then have "map_of (lg_table (lw_recovery J')) k = Some e \<and> se_context e = ctx"
      using find_row [of "\<lambda>e. se_context e = ctx" "lg_table (lw_recovery J')" k e] re(3) unfolding spawns_ok_def by blast
    moreover from this have "ec_effect_id ctx = k" using re(3) unfolding spawns_ok_def by blast
    ultimately show ?thesis using f(2) by blast
  qed
  show "ProcessSpawned ctx pid token \<notin> set (log_acked process_kind C J calls)"
    if rec: "process_reconcile terminate J' ctx = Inr (ReconcileNotApplied evidence)" for evidence pid token
  proof
    assume acked: "ProcessSpawned ctx pid token \<in> set (log_acked process_kind C J calls)"
    have "was_spawned ctx (lw_recovery J')"
      by (rule process_log.acknowledged_survives [OF assms(1) J(1,2) acked assms(3) [unfolded process_open_def]])
         (auto intro: spawned_kept spawned_set)
    then show False using rec reconcile_finds [OF re(3), of ctx]
      by (auto simp: process_reconcile_def split: if_splits option.splits)
  qed
qed

text \<open>A spawn whose record could not be written: nothing is acknowledged, and recovery answers \<open>NotApplied\<close>.\<close>

definition process_context :: operation_effect_context where
  "process_context = sample_context\<lparr>ec_identity := sample_identity\<lparr>oi_tool_name := lit ''shell.exec''\<rparr>\<rparr>"

definition unstored :: append_io where "unstored = \<lparr>io_stat_ok = False, io_write_fault = None\<rparr>"

lemma unstored_append:
  "\<exists>W' e. log_append K C unstored W t = (W', Inl e) \<and> lw_file W' = lw_file W"
proof -
  have "\<exists>e. log_append_record K C unstored bytes r = (bytes, Inl e)" for bytes r
    by (simp add: log_append_record_def unstored_def split: sum.splits)
  then obtain e where e: "\<And>bytes r. log_append_record K C unstored bytes r = (bytes, Inl (e bytes r))" by metis
  show ?thesis by (auto simp: log_append_def e Let_def split: sum.splits option.splits)
qed

theorem unspawned_process_is_not_applied_witness:
  "\<exists>J'. process_reconcile (\<lambda>_ _. Inr AlreadyExited) J' process_context = Inr (ReconcileNotApplied (Some (lit ''process never spawned'')))
     \<and> ProcessSpawned process_context 7 [] \<notin> set (log_acked process_kind process_codec (empty_log process_kind)
         [(unstored, ProcessSpawned process_context 7 [])])"
proof -
  have k: "0 < lk_lock_attempts process_kind" by (simp add: process_kind_def)
  have o: "process_open process_codec fine_open None = (Some [], Inr (empty_log process_kind))"
    unfolding process_open_def by (rule empty_log_open [OF effect_codecs_ok(3) k])
  obtain W' e where w: "log_append process_kind process_codec unstored (empty_log process_kind) (ProcessSpawned process_context 7 []) = (W', Inl e)"
    "lw_file W' = []" using unstored_append [of process_kind process_codec "empty_log process_kind" "ProcessSpawned process_context 7 []"]
    by (auto simp: empty_log_def)
  have o': "process_open process_codec fine_open (Some (lw_file (log_run process_kind process_codec (empty_log process_kind)
      [(unstored, ProcessSpawned process_context 7 [])]))) = (Some [], Inr (empty_log process_kind))"
    using log_open_total [OF effect_codecs_ok(3) fine_open_ok k, of "Some []" "[]" "log_initial process_kind"] w
    by (simp add: process_open_def empty_log_def)
  have v: "effect_context_validate process_context = Inr ()" by code_simp
  have tool: "is_non_transactional_process_tool (oi_tool_name (ec_identity process_context))"
    by (simp add: is_non_transactional_process_tool_def process_context_def)
  have rec: "process_reconcile (\<lambda>_ _. Inr AlreadyExited) (empty_log process_kind) process_context
      = Inr (ReconcileNotApplied (Some (lit ''process never spawned'')))"
    using v tool by (simp add: process_reconcile_def empty_log_def log_initial_def process_kind_def)
  from unspawned_process_is_not_applied [OF effect_codecs_ok(3) o o', of "\<lambda>_ _. Inr AlreadyExited" process_context] rec
  show ?thesis by blast
qed

end
