(* ===== verification/Workspace_Properties.thy ===== *)
theory Workspace_Properties
  imports Workspace_Recovery Effect_Journals
begin

text \<open>
  The answer of the workspace about an effect after a restart.
\<close>

section \<open>A quiet system\<close>

definition calm :: "os_env \<Rightarrow> bool" where
  "calm env \<longleftrightarrow> undisturbed env \<and> (\<forall>t. os_fault env t = None) \<and> (\<forall>t. \<not> os_crash env t)"

lemma calm_call:
  assumes "calm env" "\<not> wd_crashed w"
  shows "os_call env f w = (case f (wd_fs w) of
     Inl e \<Rightarrow> (w\<lparr>wd_tick := Suc (wd_tick w)\<rparr>, Inl e)
   | Inr (fs, a) \<Rightarrow> (w\<lparr>wd_tick := Suc (wd_tick w), wd_fs := fs\<rparr>, Inr a))"
  using assms by (auto simp: os_call_def calm_def undisturbed_def Let_def split: sum.splits)

lemma calm_query:
  assumes "calm env" "\<not> wd_crashed w"
  shows "os_query env g w = (w\<lparr>wd_tick := Suc (wd_tick w)\<rparr>, g (wd_fs w))"
  using assms by (cases "g (wd_fs w)") (simp_all add: os_query_def calm_call)

lemma calm_append:
  assumes "calm env" "\<not> wd_crashed w"
    "ws_append (os_parse_uuid env) (os_codec env) (os_append env (wd_tick w)) (wd_journal w) t = (J, res)"
  shows "world_append env t w = (w\<lparr>wd_journal := J, wd_tick := Suc (wd_tick w)\<rparr>, res)"
  using assms by (simp add: world_append_def calm_def)

section \<open>Recovery tells the truth\<close>

text \<open>
  C12. What startup says about a workspace effect is true. Take any well-formed journal and any file system in which no other
  process works, with any failures of system calls and the process dying anywhere. For an effect with transactions in the
  journal: an answer \<open>NotApplied\<close> means that every file of the effect is in its recorded before state, every directory it wanted
  is missing, all its transactions have a rolled-back record and the staged files of the open ones have lost their names; an answer
  \<open>Applied\<close> with \<open>Durable\<close> means that all transactions have a commit record and their targets are in the after state; any answer
  \<open>Applied\<close> means that some target is, and that each transaction landed or was closed. On every path the contents of all
  files stay as they are, and only names of staged files of open transactions of this effect are removed, each bound to a
  regular file with the recorded content.
\<close>
theorem workspace_recovery_is_sound:
  assumes "undisturbed env" "honest env" "evidence_ok parse_uuid (tx_table w)"
    "map_of (tx_table w) tx0 = Some e0" "te_context e0 = ctx"
    "workspace_reconcile env show_uuid terminate ctx w = (w', Inr answer)"
  shows "cleaned env (open_rows w ctx) w w'
   \<and> (\<forall>evidence. answer = ReconcileNotApplied evidence \<longrightarrow>
        (\<forall>tx e. map_of (tx_table w) tx = Some e \<and> te_context e = ctx \<longrightarrow> undone env w w' tx e))
   \<and> (\<forall>evidence. answer = ReconcileApplied Durable evidence \<longrightarrow>
        (\<forall>tx e. map_of (tx_table w) tx = Some e \<and> te_context e = ctx
           \<longrightarrow> (\<exists>i. te_terminal e = Some (TxCommitted i)) \<and> at_after env w e))
   \<and> (\<forall>durability evidence. answer = ReconcileApplied durability evidence \<longrightarrow>
        (\<exists>tx e. map_of (tx_table w) tx = Some e \<and> te_context e = ctx \<and> at_after env w e)
      \<and> (\<forall>tx e. map_of (tx_table w) tx = Some e \<and> te_context e = ctx \<longrightarrow> at_after env w e \<or> undone env w w' tx e))
   \<and> answer \<noteq> ReconcileNotManaged \<and> (\<forall>evidence. answer \<noteq> ReconcileCompletedValue evidence)"
proof -
  obtain result where r: "reconcile_workspace_effect env ctx w = (w', Inr result)"
    using assms(6) by (auto simp: workspace_reconcile_def and_then_Inr)
  have d: "distinct (map fst (tx_table w))" using assms(3) by (simp add: evidence_ok_def)
  from r show ?thesis
  proof (cases rule: reconcile_effect_cases [OF assms(1,2) d, consumes 1, case_names unmanaged unclear not_applied applied])
    case unmanaged
    then show ?thesis using assms(4,5) by blast
  next
    case (unclear ids reason)
    then have "answer = ReconcileAmbiguous reason" using assms(6) r by (simp add: workspace_reconcile_def)
    then show ?thesis using unclear(2) by simp
  next
    case (not_applied ids)
    then have "answer = ReconcileNotApplied (transaction_evidence ids)" using assms(6) r by (simp add: workspace_reconcile_def)
    then show ?thesis using not_applied(2,4) by simp
  next
    case (applied ids complete)
    then have a: "answer = ReconcileApplied (if complete then Durable
        else DurabilityFailed (lit ''workspace composite effect was only partially applied'')) (transaction_evidence ids)"
      using assms(6) r by (simp add: workspace_reconcile_def)
    then show ?thesis using applied(2-5) by (cases complete) auto
  qed
qed

definition sample_env :: os_env where
  "sample_env = \<lparr>os_others = (\<lambda>_ fs. fs), os_fault = (\<lambda>_. None), os_crash = (\<lambda>_. False), os_append = (\<lambda>_. stored),
     os_partial = (\<lambda>_. 0), os_inode = (\<lambda>t. t + 10), os_device = 1, os_dir_len = 4096, os_parse_uuid = (\<lambda>_. True), os_codec = ws_codec,
     os_sha256 = (\<lambda>_. replicate 32 17)\<rparr>"

abbreviation sample_ws_kind :: "(ws_transition, ws_table) log_kind" where
  "sample_ws_kind \<equiv> workspace_kind (\<lambda>_. True)"

definition sample_row :: tx_evidence where
  "sample_row = evidence_of WORKSPACE_JOURNAL_VERSION sample_prepared"

lemma sample_prepared_valid: "ws_validate (\<lambda>_. True) 3 (WsPrepared sample_prepared) = Inr ()"
proof -
  have p: "clean_relative (lit ''a'') = Inr [[97]]" "map Normal [[97]] = path_components (lit ''a'')" "str_len (lit ''a'') \<le> 4000"
    "valid_temp_name (staging_name [97])" "valid_hex_digest (replicate 64 48) 64" "valid_hex_digest (replicate 64 49) 64" by code_simp+
  show ?thesis
    using p sample_context_valid
    by (simp add: ws_validate.simps ws_validate_entry_def sample_prepared_def WORKSPACE_JOURNAL_VERSION_def LEGACY_JOURNAL_VERSION_def
        FILE_DIGEST_JOURNAL_VERSION_def MAX_MUTATION_BYTES_def)
qed

lemma sample_frames:
  "length (nats_to_bytes (en_log_frame en_ws \<lparr>lf_record = \<lparr>lr_version = 3, lr_seq = 1, lr_transition = WsPrepared sample_prepared\<rparr>,
      lf_checksum = log_checksum ws_codec (nats_to_bytes (en_log_record en_ws \<lparr>lr_version = 3, lr_seq = 1, lr_transition = WsPrepared sample_prepared\<rparr>))\<rparr>)) < 3000"
  "length (nats_to_bytes (en_log_frame en_ws \<lparr>lf_record = \<lparr>lr_version = 3, lr_seq = 2, lr_transition = WsRolledBack [97]\<rparr>,
      lf_checksum = log_checksum ws_codec (nats_to_bytes (en_log_record en_ws \<lparr>lr_version = 3, lr_seq = 2, lr_transition = WsRolledBack [97]\<rparr>))\<rparr>)) < 1000"
  by code_simp+

lemma ws_stores:
  assumes "length (nats_to_bytes (en_log_frame en_ws \<lparr>lf_record = \<lparr>lr_version = 3, lr_seq = Suc n, lr_transition = t\<rparr>,
      lf_checksum = log_checksum ws_codec (nats_to_bytes (en_log_record en_ws \<lparr>lr_version = 3, lr_seq = Suc n, lr_transition = t\<rparr>))\<rparr>)) < 3000"
    "n < 10" "length (lw_file J) < 4000" "lw_failed J = None" "lg_last_seq (lw_recovery J) = n"
    "ws_validate (\<lambda>_. True) 3 t = Inr ()" "ws_validate_fold (lg_table (lw_recovery J)) t = Inr ()"
  obtains J1 where "ws_append (\<lambda>_. True) ws_codec stored J t = (J1, Inr ())" "lw_failed J1 = None"
    "length (lw_file J1) \<le> length (lw_file J) + 3000" "lg_last_seq (lw_recovery J1) = Suc n"
    "Inr (lg_table (lw_recovery J1)) = ws_apply (lg_table (lw_recovery J)) WORKSPACE_JOURNAL_VERSION t"
proof -
  obtain b where b: "log_encode sample_ws_kind ws_codec \<lparr>lr_version = 3, lr_seq = Suc n, lr_transition = t\<rparr> = Inr b" "length b < 3000"
    using assms(1) by (simp add: log_encode_def ws_codec_def log_wire_codec_def)
  have "\<exists>W'. log_append sample_ws_kind ws_codec stored J t = (W', Inr ())
     \<and> lw_failed W' = None \<and> lw_file W' = lw_file J @ b @ [10] \<and> log_next sample_ws_kind (lw_recovery J) t = Inr (lw_recovery W')"
    using b assms(2-) by (intro workspace_log.append_stores)
      (simp_all add: workspace_kind_def MAX_RECORDS_def WORKSPACE_JOURNAL_VERSION_def MAX_FRAME_BYTES_def MAX_FILE_BYTES_def)
  then obtain W where W: "log_append sample_ws_kind ws_codec stored J t = (W, Inr ())" "lw_failed W = None"
    "lw_file W = lw_file J @ b @ [10]" "log_next sample_ws_kind (lw_recovery J) t = Inr (lw_recovery W)" by blast
  have "lg_last_seq (lw_recovery W) = Suc n"
    using W(4) assms(5) by (auto simp: log_next_def log_step_def dest!: arg_cong [where f = lg_last_seq] split: if_splits)
  then show thesis
    using that [of W] W b(2) log_append_Inr(2) [OF W(1)] by (simp add: ws_append_def workspace_kind_def)
qed

definition sample_fs :: ws_fs where
  "sample_fs = \<lparr>fs_nodes = [1 \<mapsto> DirectoryNode, 2 \<mapsto> RegularNode [1, 2, 3]], fs_entries = [(1, staging_name [97]) \<mapsto> 2]\<rparr>"

definition sample_world :: "ws_journal \<Rightarrow> ws_world" where
  "sample_world J = \<lparr>wd_fs = sample_fs, wd_root = 1, wd_journal = J, wd_process = empty_log process_kind,
     wd_remote = empty_log remote_kind, wd_changes = [], wd_tick = 0, wd_crashed = False\<rparr>"

lemma sample_calm: "calm sample_env" "undisturbed sample_env" "honest sample_env"
  by (simp_all add: calm_def undisturbed_def honest_def sample_env_def)

lemma sample_simps:
  "te_relative_target sample_row = [97]" "te_temp_name sample_row = staging_name [97]" "te_entry_kind sample_row = EntryFile"
  "te_terminal sample_row = None" "te_context sample_row = sample_context" "\<not> te_target_existed sample_row"
  "te_journal_version sample_row = 3" "te_after_hash sample_row = replicate 64 49" "te_bytes_after sample_row = Some 3"
  by (simp_all add: sample_row_def evidence_of_def sample_prepared_def WORKSPACE_JOURNAL_VERSION_def lit_def)

lemma sample_target: "target_parts [97] = Inr ([], [97])" "staging_name [97] \<noteq> [97]"
  by code_simp+

lemma sample_hash: "hash_with sample_env RecoverySha256 [1, 2, 3] = replicate 64 49"
  by code_simp

lemma sample_inspect:
  assumes "\<not> wd_crashed w" "wd_fs w = sample_fs" "wd_root w = 1"
  shows "inspect_target sample_env sample_row b w = (w\<lparr>wd_tick := wd_tick w + 2\<rparr>, Inr (TargetMissing, b))"
  using assms sample_calm(1)
  by (simp add: inspect_target_def sample_simps sample_target open_root_def inspect_file_def open_recovery_target_def calm_query
      regular_entry_def sample_fs_def eq_commute [of "[97]"])

lemma sample_chunks: "hash_chunks 0 MAX_RECONCILIATION_READ_BYTES [1, 2, 3] = Inr (3, MAX_RECONCILIATION_READ_BYTES - 3)"
  by (subst hash_chunks.simps, subst hash_chunks.simps)
     (simp add: Let_def MAX_RECONCILIATION_READ_BYTES_def MAX_MUTATION_BYTES_def MAX_EFFECT_TRANSACTIONS_def)

lemma sample_remove:
  assumes "\<not> wd_crashed w" "wd_fs w = sample_fs"
  obtains w' where "remove_verified_staged_file sample_env 1 sample_row MAX_RECONCILIATION_READ_BYTES w
      = (w', Inr (MAX_RECONCILIATION_READ_BYTES - 3))" "\<not> wd_crashed w'" "wd_journal w' = wd_journal w"
  using that assms sample_calm(1)
  by (simp add: remove_verified_staged_file_def open_staged_for_cleanup_def calm_query calm_call sample_simps regular_entry_def
      file_metadata_def named_entry_matches_file_def hash_reader_bounded_def read_open_file_def file_bytes_def remove_open_file_def
      remove_named_file_def sync_all_def sample_chunks recovery_hash_for_def LEGACY_JOURNAL_VERSION_def sample_hash
      recorded_state_matches_def MAX_MUTATION_BYTES_def sample_fs_def Let_def)


lemma sample_prepared_stored:
  obtains J where "lg_table (lw_recovery J) = [([97], sample_row)]" "lw_failed J = None" "length (lw_file J) < 4000"
    "lg_last_seq (lw_recovery J) = 1" "evidence_ok (\<lambda>_. True) [([97], sample_row)]"
    "ws_append (\<lambda>_. True) ws_codec stored (empty_log sample_ws_kind) (WsPrepared sample_prepared) = (J, Inr ())"
proof (rule ws_stores [of 0 "WsPrepared sample_prepared" "empty_log sample_ws_kind"])
  show "ws_validate_fold (lg_table (lw_recovery (empty_log sample_ws_kind))) (WsPrepared sample_prepared) = Inr ()"
    by (simp add: empty_log_def log_initial_def workspace_kind_def MAX_EFFECT_TRANSACTIONS_def)
  fix J1
  assume J1: "ws_append (\<lambda>_. True) ws_codec stored (empty_log sample_ws_kind) (WsPrepared sample_prepared) = (J1, Inr ())" "lw_failed J1 = None"
    "length (lw_file J1) \<le> length (lw_file (empty_log sample_ws_kind)) + 3000" "lg_last_seq (lw_recovery J1) = Suc 0"
    "Inr (lg_table (lw_recovery J1)) = ws_apply (lg_table (lw_recovery (empty_log sample_ws_kind))) WORKSPACE_JOURNAL_VERSION (WsPrepared sample_prepared)"
  have t: "lg_table (lw_recovery J1) = [([97], sample_row)]"
    using J1(5) by (simp add: empty_log_def log_initial_def workspace_kind_def sample_row_def sample_prepared_def)
  have "log_ok sample_ws_kind ws_codec (empty_log sample_ws_kind)" by (simp add: log_ok_def empty_log_def)
  note ok = workspace_log.append_ok [OF effect_codecs_ok(2) this J1(1) [unfolded ws_append_def]]
  then have "log_holds sample_ws_kind ws_codec (lw_file J1) [] (lw_recovery J1)" using J1(2) by (auto simp: log_ok_def)
  then have "evidence_ok (\<lambda>_. True) [([97], sample_row)]" using workspace_log.holds_table t by metis
  then show thesis using that [OF t J1(2)] J1(1,3,4) by (simp add: empty_log_def)
qed (use sample_frames(1) sample_prepared_valid in \<open>simp_all add: empty_log_def log_initial_def\<close>)

lemma sample_reconcile:
  assumes "lg_table (lw_recovery J) = [([97], sample_row)]" "lw_failed J = None" "length (lw_file J) < 4000" "lg_last_seq (lw_recovery J) = 1"
  shows "\<exists>w'. reconcile_workspace_effect sample_env sample_context (sample_world J) = (w', Inr (WsNotApplied [[97]]))"
proof -
  let ?w = "sample_world J" and ?b = MAX_RECONCILIATION_READ_BYTES
  have w: "\<not> wd_crashed ?w" "wd_fs ?w = sample_fs" "wd_root ?w = 1" "wd_journal ?w = J" by (simp_all add: sample_world_def)
  have e: "evidence_for J sample_context = Inr [([97], sample_row)]"
    using assms(1,2) sample_context_valid
    by (simp add: evidence_for_def sample_simps sort_rows_def MAX_EFFECT_TRANSACTIONS_def)
  have v: "verdict_for sample_row TargetMissing = RowNotApplied"
    by (simp add: verdict_for_def file_verdict_def is_after_def is_before_def sample_simps)
  let ?w1 = "?w\<lparr>wd_tick := wd_tick ?w + 2\<rparr>"
  have p: "pinned_parent sample_env [97] ?w1 = (?w1\<lparr>wd_tick := Suc (wd_tick ?w1)\<rparr>, Inr (1, [97]))"
    using w sample_calm(1) by (simp add: pinned_parent_def sample_target open_root_def calm_query)
  have w1: "\<not> wd_crashed (?w1\<lparr>wd_tick := Suc (wd_tick ?w1)\<rparr>)" "wd_fs (?w1\<lparr>wd_tick := Suc (wd_tick ?w1)\<rparr>) = sample_fs"
    using w by simp_all
  obtain w2 where r: "remove_verified_staged_file sample_env 1 sample_row ?b (?w1\<lparr>wd_tick := Suc (wd_tick ?w1)\<rparr>) = (w2, Inr (?b - 3))"
    "\<not> wd_crashed w2" "wd_journal w2 = J" using sample_remove [OF w1] w(4) by auto
  obtain J2 where a: "ws_append (\<lambda>_. True) ws_codec stored J (WsRolledBack [97]) = (J2, Inr ())"
    by (rule ws_stores [of 1 "WsRolledBack [97]" J])
       (use assms sample_frames(2) in \<open>simp_all add: ws_validate.simps sample_simps WORKSPACE_JOURNAL_VERSION_def numeral_2_eq_2\<close>)
  have "world_append sample_env (WsRolledBack [97]) w2 = (w2\<lparr>wd_journal := J2, wd_tick := Suc (wd_tick w2)\<rparr>, Inr ())"
    by (rule calm_append [OF sample_calm(1) r(2)]) (use a r(3) in \<open>simp add: sample_env_def\<close>)
  then show ?thesis
    using e w sample_inspect [OF w(1-3)] v p r(1)
    by (simp add: reconcile_workspace_effect_def sample_simps)
qed

theorem workspace_recovery_is_sound_witness:
  "\<exists>J w' evidence. ws_append (\<lambda>_. True) ws_codec stored (empty_log sample_ws_kind) (WsPrepared sample_prepared) = (J, Inr ())
     \<and> workspace_reconcile sample_env (\<lambda>_. []) (\<lambda>_ _. Inr AlreadyExited) sample_context (sample_world J)
         = (w', Inr (ReconcileNotApplied evidence))
     \<and> undone sample_env (sample_world J) w' [97] sample_row
     \<and> cleaned sample_env (open_rows (sample_world J) sample_context) (sample_world J) w'"
proof -
  obtain J where J: "lg_table (lw_recovery J) = [([97], sample_row)]" "lw_failed J = None" "length (lw_file J) < 4000"
    "lg_last_seq (lw_recovery J) = 1" "evidence_ok (\<lambda>_. True) [([97], sample_row)]"
    "ws_append (\<lambda>_. True) ws_codec stored (empty_log sample_ws_kind) (WsPrepared sample_prepared) = (J, Inr ())"
    by (rule sample_prepared_stored)
  obtain w' where w': "reconcile_workspace_effect sample_env sample_context (sample_world J) = (w', Inr (WsNotApplied [[97]]))"
    using sample_reconcile [OF J(1-4)] by blast
  then have r: "workspace_reconcile sample_env (\<lambda>_. []) (\<lambda>_ _. Inr AlreadyExited) sample_context (sample_world J)
         = (w', Inr (ReconcileNotApplied (transaction_evidence [[97]])))" by (simp add: workspace_reconcile_def)
  have t: "tx_table (sample_world J) = [([97], sample_row)]" using J(1) by (simp add: sample_world_def)
  from workspace_recovery_is_sound [OF sample_calm(2,3) _ _ _ r, of "\<lambda>_. True" "[97]" sample_row] J(5,6) r t sample_simps(5)
  show ?thesis by (metis (no_types, lifting) map_of_Cons_code(2))
qed

end
