(* ===== verification/Write_Properties.thy ===== *)
theory Write_Properties
  imports Workspace_Receipts Workspace_Properties
begin

text \<open>
  The promises of a workspace effect: what is on disk after a preparation or a commit, whatever fails and wherever the process dies.
\<close>

section \<open>Staging leaves no untraced file\<close>

text \<open>
  C14. A staged file is never on disk without its intent in the journal. Whatever fails while a write is prepared, and wherever the
  process dies: no existing file changes, no name but the staged one changes, and if the staged name is there then the journal
  has the open intent of the transaction, with the name and the digest of the content, and the file has a prefix of
  the content. A preparation that succeeds has staged the whole content. One that fails with an error that does not ask for
  recovery has left no name and no open intent.
\<close>
theorem staging_is_traced:
  assumes "undisturbed env" "fresh env w" "prepare_with_effect_context env tx content ctx w = (w', res)"
  shows "(\<forall>i. fs_nodes (wd_fs w) i \<noteq> None \<longrightarrow> fs_nodes (wd_fs w') i = fs_nodes (wd_fs w) i)
   \<and> (\<forall>k. k \<noteq> stage_key tx \<longrightarrow> fs_entries (wd_fs w') k = fs_entries (wd_fs w) k)
   \<and> (fs_entries (wd_fs w') (stage_key tx) \<noteq> fs_entries (wd_fs w) (stage_key tx) \<longrightarrow>
        map_of (tx_table w') (mt_tx_id tx) = Some (intent_row env tx ctx content)
      \<and> (\<exists>handle n. fs_entries (wd_fs w') (stage_key tx) = Some handle
           \<and> fs_nodes (wd_fs w') handle = Some (RegularNode (take n content))))
   \<and> (\<forall>m. res = Inr m \<longrightarrow> (\<exists>handle. m = prepared_as env tx content ctx handle
        \<and> fs_entries (wd_fs w') (stage_key tx) = Some handle \<and> fs_nodes (wd_fs w') handle = Some (RegularNode content)
        \<and> map_of (tx_table w') (mt_tx_id tx) = Some (intent_row env tx ctx content)))
   \<and> (\<forall>err. res = Inl err \<and> \<not> needs_recovery err \<and> \<not> wd_crashed w' \<longrightarrow>
        fs_entries (wd_fs w') = fs_entries (wd_fs w) \<and> closed_row w (mt_tx_id tx) (intent_row env tx ctx content) w')"
proof -
  note po = prepare_result [OF assms]
  have left: "left_behind w (stage_key tx) content (mt_tx_id tx) (intent_row env tx ctx content) w'"
    using po by (simp add: prepare_outcome_def)
  have ok: "\<exists>handle. m = prepared_as env tx content ctx handle
        \<and> fs_entries (wd_fs w') (stage_key tx) = Some handle \<and> fs_nodes (wd_fs w') handle = Some (RegularNode content)
        \<and> map_of (tx_table w') (mt_tx_id tx) = Some (intent_row env tx ctx content)" if "res = Inr m" for m
    using po that by (auto simp: prepare_outcome_def staged_def)
  have err: "fs_entries (wd_fs w') = fs_entries (wd_fs w) \<and> closed_row w (mt_tx_id tx) (intent_row env tx ctx content) w'"
    if "res = Inl err \<and> \<not> needs_recovery err \<and> \<not> wd_crashed w'" for err
    using po that by (auto simp: prepare_outcome_def)
  show ?thesis using left_behind_facts [OF left] ok err by (intro conjI allI impI) blast+
qed

section \<open>A write is atomic\<close>

text \<open>
  C13. A workspace write is atomic, and its receipt is true. Prepare a write and commit it, with any failure of a system call and
  the process dying anywhere. The target then has the entry it had, with the bytes it had, or it is bound to a file with
  exactly the new content; the second only if the target was still what the transaction saw when it began. Every other name but the
  staged one is as before, and no content of an existing file changed. A receipt \<open>NotApplied\<close> means that the target is as before, the
  staged name is gone and the journal has the rollback; \<open>Applied\<close> means that the target has the new content, and with \<open>Durable\<close>
  the journal has the commit.
\<close>
theorem workspace_write_is_atomic:
  assumes "undisturbed env" "honest env" "fresh env w" "mt_target_name tx \<noteq> staging_name (mt_tx_id tx)"
    "prepare_with_effect_context env tx content ctx w = (w1, Inr m)" "mutation_commit env m w1 = (w2, receipt)"
    "target = (mt_parent tx, mt_target_name tx)"
  shows "(\<forall>i. fs_nodes (wd_fs w) i \<noteq> None \<longrightarrow> fs_nodes (wd_fs w2) i = fs_nodes (wd_fs w) i)
   \<and> (\<forall>k. k \<noteq> target \<and> k \<noteq> stage_key tx \<longrightarrow> fs_entries (wd_fs w2) k = fs_entries (wd_fs w) k)
   \<and> (fs_entries (wd_fs w2) target = fs_entries (wd_fs w) target
      \<or> at_snapshot env m (wd_fs w) \<and> (\<exists>handle. fs_entries (wd_fs w2) target = Some handle \<and> fs_nodes (wd_fs w2) handle = Some (RegularNode content)))
   \<and> (\<forall>reason. receipt = ReceiptNotApplied reason \<longrightarrow>
        fs_entries (wd_fs w2) target = fs_entries (wd_fs w) target \<and> fs_entries (wd_fs w2) (stage_key tx) = None
      \<and> map_of (tx_table w2) (mt_tx_id tx) = Some (rolled_back_row (intent_row env tx ctx content)))
   \<and> (\<forall>durability evidence. receipt = ReceiptApplied durability evidence \<longrightarrow>
        (\<exists>handle. fs_entries (wd_fs w2) target = Some handle \<and> fs_nodes (wd_fs w2) handle = Some (RegularNode content))
      \<and> fs_entries (wd_fs w2) (stage_key tx) = None
      \<and> (durability = Durable \<longrightarrow> map_of (tx_table w2) (mt_tx_id tx)
           = Some ((intent_row env tx ctx content)\<lparr>te_terminal := Some (TxCommitted None)\<rparr>)))"
proof -
  have st: "staged env tx content ctx w w1 m" using prepare_result [OF assms(1,3,5)] by (simp add: prepare_outcome_def)
  obtain h where h: "fs_nodes (wd_fs w) h = None" "m = prepared_as env tx content ctx h"
    "wd_fs w1 = put_file (wd_fs w) (stage_key tx) h content" "fs_entries (wd_fs w) (stage_key tx) = None"
    "\<forall>k. fs_entries (wd_fs w) k \<noteq> Some h" "commit_outcome env m (staging_name (mt_tx_id tx)) h w1 w2 receipt"
    by (rule staged_commit [OF assms(1) st assms(4,6)])
  have row: "map_of (tx_table w1) (mt_tx_id tx) = Some (intent_row env tx ctx content)" using st by (auto simp: staged_def)
  have m: "pm_parent m = mt_parent tx" "pm_target_name m = mt_target_name tx" "pm_tx_id m = mt_tx_id tx" "pm_effect_context m = Some ctx"
    using h(2) by (simp_all add: prepared_as_def)
  have t: "target \<noteq> stage_key tx" using assms(4,7) by (simp add: stage_key_def)
  from h(6) [unfolded commit_outcome_def m]
  show ?thesis
  proof
    assume o: "drops_name (mt_parent tx) (staging_name (mt_tx_id tx)) h w1 w2 \<and> (\<forall>durability evidence. receipt \<noteq> ReceiptApplied durability evidence)
       \<and> (\<forall>r. receipt = ReceiptNotApplied r \<longrightarrow> fs_entries (wd_fs w2) (mt_parent tx, staging_name (mt_tx_id tx)) = None
            \<and> closes_row (Some ctx) (mt_tx_id tx) w1 w2)"
    then have "wd_fs w2 = wd_fs w1 \<or> wd_fs w2 = unlink_name (wd_fs w1) (mt_parent tx) (staging_name (mt_tx_id tx))"
      by (auto simp: drops_name_def same_disk_def)
    then show ?thesis using o h(1,3) t row by (auto simp: closes_row_def stage_key_def)
  next
    assume o: "holds_staged env m h (wd_fs w1) (staging_name (mt_tx_id tx)) \<and> (honest env \<longrightarrow> at_snapshot env m (wd_fs w1))
       \<and> child_dir (mt_parent tx) (mt_target_name tx) (wd_fs w1) \<notin> range Inr \<and> wd_fs w2 = renamed (mt_parent tx) h (staging_name (mt_tx_id tx)) (mt_target_name tx) (wd_fs w1) \<and> wd_root w2 = wd_root w1
       \<and> (\<forall>r. receipt \<noteq> ReceiptNotApplied r)
       \<and> (\<forall>evidence. receipt = ReceiptApplied Durable evidence \<longrightarrow> commits_row (Some ctx) (mt_tx_id tx) (TxCommitted None) w1 w2)"
    have "at_snapshot env m (wd_fs w)" using o assms(2) at_snapshot_before [OF h(2,5) assms(4)] h(3) by simp
    moreover have "fs_entries (wd_fs w2) = (fs_entries (wd_fs w))(target \<mapsto> h)" "fs_nodes (wd_fs w2) = (fs_nodes (wd_fs w))(h \<mapsto> RegularNode content)"
      using o h(3,4) t assms(7) by (auto simp: renamed_def stage_key_def fun_eq_iff)
    ultimately show ?thesis using o h(1,4) t row by (auto simp: commits_row_def)
  qed
qed

section \<open>A directory\<close>

text \<open>
  C17. The receipt of a directory creation is true. Commit a prepared directory with any failure of a system call and the process
  dying anywhere: no existing file or directory changes and no name but the target changes; if the target changed, it was free
  and is now bound to the new directory. \<open>NotApplied\<close> means that all names are as before and the journal has the rollback; \<open>Applied\<close>
  means that the target is the new directory, and with \<open>Durable\<close> the journal has the commit with the identity of exactly this
  directory.
\<close>
theorem directory_receipt_is_true:
  assumes "undisturbed env" "fresh env w" "directory_commit env p w = (w', receipt)"
  shows "(\<forall>i. fs_nodes (wd_fs w) i \<noteq> None \<longrightarrow> fs_nodes (wd_fs w') i = fs_nodes (wd_fs w) i)
   \<and> (fs_entries (wd_fs w') = fs_entries (wd_fs w)
      \<or> (\<exists>i. made w (pd_parent p, pd_target_name p) i w'))
   \<and> (\<forall>reason. receipt = ReceiptNotApplied reason \<longrightarrow>
        fs_entries (wd_fs w') = fs_entries (wd_fs w) \<and> closes_row (pd_effect_context p) (pd_tx_id p) w w')
   \<and> (\<forall>durability evidence. receipt = ReceiptApplied durability evidence \<longrightarrow>
        (\<exists>i. made w (pd_parent p, pd_target_name p) i w'
           \<and> (durability = Durable \<longrightarrow> commits_row (pd_effect_context p) (pd_tx_id p) (TxCommitted (Some (identity_text env i))) w w')))"
proof -
  have keeps: "fs_nodes (wd_fs w') i = fs_nodes (wd_fs w) i" if "made w k c w'" "fs_nodes (wd_fs w) i \<noteq> None" for k c i
    using that by (auto simp: made_def)
  show ?thesis
    using directory_commit_result [OF assms] keeps unfolding directory_outcome_def unmade_def by (elim disjE exE conjE) auto
qed

section \<open>Samples\<close>

lemma calm_write:
  assumes "calm env" "\<not> wd_crashed w"
  shows "write_and_sync env handle content w = (put_bytes handle content (w\<lparr>wd_tick := Suc (wd_tick w)\<rparr>), Inr ())"
  using assms by (simp add: write_and_sync_def calm_def undisturbed_def Let_def)

lemma calm_change:
  assumes "calm env" "\<not> wd_crashed w"
  shows "record_change env r w = (w\<lparr>wd_tick := Suc (wd_tick w), wd_changes := wd_changes w @ [r]\<rparr>, Inr ())"
  using assms by (simp add: record_change_def calm_query)

definition sample_tx :: mutation_transaction where
  "sample_tx = \<lparr>mt_parent = 1, mt_target_name = [98], mt_relative = [98], mt_bytes_before = 0, mt_target_existed = False,
     mt_before_hash = [], mt_before_revision = None, mt_tx_id = [98]\<rparr>"

definition sample_write_intent :: ws_prepared where
  "sample_write_intent = intent_of sample_env sample_tx sample_context [1, 2, 3]"

lemma sample_fresh: "fresh sample_env (sample_world J)"
  by (auto simp: fresh_def sample_env_def sample_world_def sample_fs_def)

lemma sample_intent_hashes: "wp_before_hash sample_write_intent = replicate 64 49" "wp_after_hash sample_write_intent = replicate 64 49"
  by code_simp+

lemma sample_intent_simps:
  "wp_tx_id sample_write_intent = [98]" "wp_context sample_write_intent = sample_context" "wp_relative_target sample_write_intent = [98]"
  "wp_temp_name sample_write_intent = staging_name [98]" "wp_entry_kind sample_write_intent = EntryFile"
  "wp_bytes_before sample_write_intent = Some 0" "wp_bytes_after sample_write_intent = Some 3"
  by (simp_all add: sample_write_intent_def intent_of_def sample_tx_def)

lemma sample_intent_valid: "ws_validate (\<lambda>_. True) 3 (WsPrepared sample_write_intent) = Inr ()"
proof -
  have p: "clean_relative [98] = Inr [[98]]" "map Normal [[98]] = path_components [98]" "str_len [98] \<le> 4000"
    "valid_temp_name (staging_name [98])" "valid_hex_digest (replicate 64 49) 64" by code_simp+
  show ?thesis
    using p sample_context_valid
    by (simp add: ws_validate.simps ws_validate_entry_def sample_intent_simps sample_intent_hashes WORKSPACE_JOURNAL_VERSION_def
        LEGACY_JOURNAL_VERSION_def FILE_DIGEST_JOURNAL_VERSION_def MAX_MUTATION_BYTES_def)
qed

lemma sample_intent_frames:
  "length (nats_to_bytes (en_log_frame en_ws \<lparr>lf_record = \<lparr>lr_version = 3, lr_seq = 1, lr_transition = WsPrepared sample_write_intent\<rparr>,
      lf_checksum = log_checksum ws_codec (nats_to_bytes (en_log_record en_ws \<lparr>lr_version = 3, lr_seq = 1, lr_transition = WsPrepared sample_write_intent\<rparr>))\<rparr>)) < 3000"
  "length (nats_to_bytes (en_log_frame en_ws \<lparr>lf_record = \<lparr>lr_version = 3, lr_seq = 2, lr_transition = WsCommitted [98] None\<rparr>,
      lf_checksum = log_checksum ws_codec (nats_to_bytes (en_log_record en_ws \<lparr>lr_version = 3, lr_seq = 2, lr_transition = WsCommitted [98] None\<rparr>))\<rparr>)) < 3000"
  by code_simp+

lemma sample_names: "staging_name [98] \<noteq> staging_name [97]" "staging_name [98] \<noteq> [98]"
  by (simp_all add: staging_name_def lit_def)

lemma sample_intent_stored:
  obtains J where "ws_append (\<lambda>_. True) ws_codec stored (empty_log sample_ws_kind) (WsPrepared sample_write_intent) = (J, Inr ())"
    "lw_failed J = None" "length (lw_file J) < 4000" "lg_last_seq (lw_recovery J) = 1"
    "lg_table (lw_recovery J) = [([98], evidence_of WORKSPACE_JOURNAL_VERSION sample_write_intent)]"
proof (rule ws_stores [of 0 "WsPrepared sample_write_intent" "empty_log sample_ws_kind"])
  show "ws_validate_fold (lg_table (lw_recovery (empty_log sample_ws_kind))) (WsPrepared sample_write_intent) = Inr ()"
    by (simp add: empty_log_def log_initial_def workspace_kind_def MAX_EFFECT_TRANSACTIONS_def)
qed (use sample_intent_frames(1) sample_intent_valid that in \<open>auto simp: empty_log_def log_initial_def workspace_kind_def sample_intent_simps\<close>)

definition sample_staged :: "ws_journal \<Rightarrow> ws_world" where
  "sample_staged J = (sample_world J)\<lparr>wd_fs := put_file sample_fs (1, staging_name [98]) 11 [1, 2, 3],
     wd_changes := [MutationPrepared [98]], wd_tick := 4\<rparr>"

abbreviation sample_prepared_mutation :: prepared_mutation where
  "sample_prepared_mutation \<equiv> prepared_as sample_env sample_tx [1, 2, 3] sample_context 11"

lemma sample_write_prepare:
  assumes "ws_append (\<lambda>_. True) ws_codec stored (empty_log sample_ws_kind) (WsPrepared sample_write_intent) = (J, Inr ())"
  shows "prepare_with_effect_context sample_env sample_tx [1, 2, 3] sample_context (sample_world (empty_log sample_ws_kind))
     = (sample_staged J, Inr sample_prepared_mutation)"
proof -
  let ?w = "sample_world (empty_log sample_ws_kind)"
  have p: "persist_intent sample_env sample_tx (Some sample_context) [1, 2, 3] ?w = (?w\<lparr>wd_journal := J, wd_tick := 1\<rparr>, Inr ())"
    using calm_append [OF sample_calm(1), of ?w "WsPrepared sample_write_intent" J "Inr ()"] assms
    by (simp add: persist_intent_def sample_write_intent_def sample_world_def) (simp add: sample_env_def)
  have c: "create_new_file sample_env 1 (staging_name [98]) (?w\<lparr>wd_journal := J, wd_tick := 1\<rparr>)
      = ((sample_world J)\<lparr>wd_fs := put_file sample_fs (1, staging_name [98]) 11 [], wd_tick := 2\<rparr>, Inr 11)"
    using sample_calm(1) sample_names(1)
    by (simp add: create_new_file_def calm_call sample_world_def sample_fs_def put_file_def Let_def) (simp add: sample_env_def)
  show ?thesis
    using p c sample_context_valid sample_calm(1)
    by (simp add: prepare_with_effect_context_def prepare_inner_def fill_stage_def calm_write calm_change MAX_MUTATION_BYTES_def
        sample_tx_def prepared_as_def sample_staged_def sample_world_def put_bytes_def put_file_def)
qed

lemma sample_sha: "os_sha256 sample_env bytes = replicate 32 17"
  by (simp add: sample_env_def)

lemma sample_write_commit:
  assumes "lw_failed J = None" "length (lw_file J) < 4000" "lg_last_seq (lw_recovery J) = 1"
    "lg_table (lw_recovery J) = [([98], evidence_of WORKSPACE_JOURNAL_VERSION sample_write_intent)]"
  shows "\<exists>w2. mutation_commit sample_env sample_prepared_mutation (sample_staged J) = (w2, ReceiptApplied Durable (Some [98]))"
proof -
  obtain J2 where a: "ws_append (\<lambda>_. True) ws_codec stored J (WsCommitted [98] None) = (J2, Inr ())"
    by (rule ws_stores [of 1 "WsCommitted [98] None" J])
       (use assms sample_intent_frames(2) in \<open>simp_all add: ws_validate.simps sample_intent_simps evidence_of_def WORKSPACE_JOURNAL_VERSION_def numeral_2_eq_2\<close>)
  have app: "world_append sample_env (WsCommitted [98] None) w = (w\<lparr>wd_journal := J2, wd_tick := Suc (wd_tick w)\<rparr>, Inr ())"
    if "\<not> wd_crashed w" "wd_journal w = J" for w
    by (rule calm_append [OF sample_calm(1) that(1)]) (use a that(2) in \<open>simp add: sample_env_def\<close>)
  let ?m = sample_prepared_mutation
  have t: "target_still_matches_snapshot sample_env ?m (sample_staged J) = ((sample_staged J)\<lparr>wd_tick := 5\<rparr>, Inr True)"
    using sample_calm(1) sample_names
    by (simp add: target_still_matches_snapshot_def open_existing_def calm_query existing_entry_def prepared_as_def sample_tx_def
        sample_staged_def sample_world_def put_file_def sample_fs_def sample_target(2) eq_commute [of "[98]"] staging_name_def lit_def)
  have content: "named_content_matches sample_env n name w = (w\<lparr>wd_tick := wd_tick w + 4\<rparr>, Inr True)"
    if "\<not> wd_crashed w" "pm_temp_file n = Some 11" "fs_entries (wd_fs w) (pm_parent n, name) = Some 11" "fs_nodes (wd_fs w) 11 = Some (RegularNode [1, 2, 3])"
      "pm_staged_bytes n = 3" "pm_staged_revision n = replicate 32 17" for n name w
    using that sample_calm(1)
    by (simp add: named_content_matches_def named_entry_matches_file_def bounded_open_file_revision_def file_metadata_def read_open_file_def
        calm_query file_bytes_def MAX_MUTATION_BYTES_def sample_sha)
  let ?w2 = "(sample_staged J)\<lparr>wd_tick := 9\<rparr>"
  have r: "replace_file sample_env 1 11 (staging_name [98]) [98] ?w2
      = (?w2\<lparr>wd_fs := renamed 1 11 (staging_name [98]) [98] (wd_fs ?w2), wd_tick := 11\<rparr>, Inr ())"
    using sample_calm(1) sample_names
    by (simp add: replace_file_def named_entry_matches_file_def calm_query calm_call rename_entry_def renamed_def sample_staged_def
        sample_world_def put_file_def sample_fs_def staging_name_def lit_def)
  show ?thesis
    using sample_calm(1) t r sample_names
    by (simp add: mutation_commit_def commit_staged_def staged_file_matches_expected_def content replace_target_def finish_commit_def
        committed_target_matches_staged_def sync_all_def calm_query acknowledge_commit_def app calm_change drop_prepared_def
        prepared_as_def sample_tx_def sample_staged_def sample_world_def renamed_def sample_sha put_file_def Let_def)
qed

theorem staging_is_traced_witness:
  "\<exists>w' m. prepare_with_effect_context sample_env sample_tx [1, 2, 3] sample_context (sample_world (empty_log sample_ws_kind)) = (w', Inr m)
     \<and> (\<exists>handle. fs_entries (wd_fs w') (stage_key sample_tx) = Some handle \<and> fs_nodes (wd_fs w') handle = Some (RegularNode [1, 2, 3])
         \<and> map_of (tx_table w') (mt_tx_id sample_tx) = Some (intent_row sample_env sample_tx sample_context [1, 2, 3]))"
proof -
  obtain J where J: "ws_append (\<lambda>_. True) ws_codec stored (empty_log sample_ws_kind) (WsPrepared sample_write_intent) = (J, Inr ())"
    by (rule sample_intent_stored)
  show ?thesis using staging_is_traced [OF sample_calm(2) sample_fresh sample_write_prepare [OF J]] sample_write_prepare [OF J] by blast
qed

theorem workspace_write_is_atomic_witness:
  "\<exists>w1 w2 m. prepare_with_effect_context sample_env sample_tx [1, 2, 3] sample_context (sample_world (empty_log sample_ws_kind)) = (w1, Inr m)
     \<and> mutation_commit sample_env m w1 = (w2, ReceiptApplied Durable (Some [98]))
     \<and> (\<exists>handle. fs_entries (wd_fs w2) (1, [98]) = Some handle \<and> fs_nodes (wd_fs w2) handle = Some (RegularNode [1, 2, 3]))
     \<and> fs_entries (wd_fs w2) (stage_key sample_tx) = None
     \<and> map_of (tx_table w2) [98] = Some ((intent_row sample_env sample_tx sample_context [1, 2, 3])\<lparr>te_terminal := Some (TxCommitted None)\<rparr>)"
proof -
  obtain J where J: "ws_append (\<lambda>_. True) ws_codec stored (empty_log sample_ws_kind) (WsPrepared sample_write_intent) = (J, Inr ())"
    "lw_failed J = None" "length (lw_file J) < 4000" "lg_last_seq (lw_recovery J) = 1"
    "lg_table (lw_recovery J) = [([98], evidence_of WORKSPACE_JOURNAL_VERSION sample_write_intent)]"
    by (rule sample_intent_stored)
  obtain w2 where w2: "mutation_commit sample_env sample_prepared_mutation (sample_staged J) = (w2, ReceiptApplied Durable (Some [98]))"
    using sample_write_commit [OF J(2-5)] by blast
  have n: "mt_target_name sample_tx \<noteq> staging_name (mt_tx_id sample_tx)" "(1, [98]) = (mt_parent sample_tx, mt_target_name sample_tx)" "mt_tx_id sample_tx = [98]"
    using sample_names(2) by (simp_all add: sample_tx_def eq_commute)
  from workspace_write_is_atomic [OF sample_calm(2,3) sample_fresh n(1) sample_write_prepare [OF J(1)] w2 n(2), unfolded n(3)] sample_write_prepare [OF J(1)] w2
  show ?thesis by blast
qed

definition sample_directory :: prepared_directory where
  "sample_directory = \<lparr>pd_parent = 1, pd_target_name = [99], pd_relative_target = [99], pd_tx_id = [99], pd_effect_context = Some sample_context\<rparr>"

definition sample_directory_intent :: ws_prepared where
  "sample_directory_intent = directory_intent [99] sample_context [99]"

lemma directory_intent_valid: "ws_validate (\<lambda>_. True) 3 (WsPrepared sample_directory_intent) = Inr ()"
proof -
  have p: "clean_relative [99] = Inr [[99]]" "map Normal [[99]] = path_components [99]" "str_len [99] \<le> 4000" by code_simp+
  show ?thesis
    using p sample_context_valid
    by (simp add: ws_validate.simps ws_validate_entry_def sample_directory_intent_def directory_intent_def WORKSPACE_JOURNAL_VERSION_def)
qed

lemma directory_frames:
  "length (nats_to_bytes (en_log_frame en_ws \<lparr>lf_record = \<lparr>lr_version = 3, lr_seq = 1, lr_transition = WsPrepared sample_directory_intent\<rparr>,
      lf_checksum = log_checksum ws_codec (nats_to_bytes (en_log_record en_ws \<lparr>lr_version = 3, lr_seq = 1, lr_transition = WsPrepared sample_directory_intent\<rparr>))\<rparr>)) < 3000"
  "length (nats_to_bytes (en_log_frame en_ws \<lparr>lf_record = \<lparr>lr_version = 3, lr_seq = 2, lr_transition = WsCommitted [99] (Some (identity_text sample_env 11))\<rparr>,
      lf_checksum = log_checksum ws_codec (nats_to_bytes (en_log_record en_ws \<lparr>lr_version = 3, lr_seq = 2, lr_transition = WsCommitted [99] (Some (identity_text sample_env 11))\<rparr>))\<rparr>)) < 3000"
  "valid_entry_identity (identity_text sample_env 11)"
  by code_simp+

lemma directory_intent_tx: "wp_tx_id sample_directory_intent = [99]"
  by (simp add: sample_directory_intent_def directory_intent_def)

lemma directory_intent_stored:
  obtains J :: ws_journal where "lw_failed J = None" "length (lw_file J) < 4000" "lg_last_seq (lw_recovery J) = 1"
    "lg_table (lw_recovery J) = [([99], evidence_of WORKSPACE_JOURNAL_VERSION sample_directory_intent)]"
proof (rule ws_stores [of 0 "WsPrepared sample_directory_intent" "empty_log sample_ws_kind"])
  show "ws_validate_fold (lg_table (lw_recovery (empty_log sample_ws_kind))) (WsPrepared sample_directory_intent) = Inr ()"
    by (simp add: empty_log_def log_initial_def workspace_kind_def MAX_EFFECT_TRANSACTIONS_def)
qed (use directory_frames(1) directory_intent_valid that in \<open>auto simp: empty_log_def log_initial_def workspace_kind_def directory_intent_tx\<close>)

lemma calm_named_dir:
  assumes "calm env" "\<not> wd_crashed w" "fs_entries (wd_fs w) (dir, name) = Some i" "fs_nodes (wd_fs w) i = Some DirectoryNode"
  shows "named_entry_matches_dir env dir name i w = (w\<lparr>wd_tick := wd_tick w + 3\<rparr>, Inr True)"
  using assms by (simp add: named_entry_matches_dir_def open_child_dir_def child_dir_def entry_identity_def calm_query)

lemma sample_directory_commit:
  assumes "lw_failed J = None" "length (lw_file J) < 4000" "lg_last_seq (lw_recovery J) = 1"
    "lg_table (lw_recovery J) = [([99], evidence_of WORKSPACE_JOURNAL_VERSION sample_directory_intent)]"
  shows "\<exists>w'. directory_commit sample_env sample_directory (sample_world J) = (w', ReceiptApplied Durable (Some [99]))"
proof -
  obtain J2 where a: "ws_append (\<lambda>_. True) ws_codec stored J (WsCommitted [99] (Some (identity_text sample_env 11))) = (J2, Inr ())"
    by (rule ws_stores [of 1 "WsCommitted [99] (Some (identity_text sample_env 11))" J])
       (use assms directory_frames(2,3) in \<open>simp_all add: ws_validate.simps sample_directory_intent_def directory_intent_def evidence_of_def
          WORKSPACE_JOURNAL_VERSION_def numeral_2_eq_2\<close>)
  have app: "world_append sample_env (WsCommitted [99] (Some (identity_text sample_env 11))) w = (w\<lparr>wd_journal := J2, wd_tick := Suc (wd_tick w)\<rparr>, Inr ())"
    if "\<not> wd_crashed w" "wd_journal w = J" for w
    by (rule calm_append [OF sample_calm(1) that(1)]) (use a that(2) in \<open>simp add: sample_env_def\<close>)
  have inode: "os_inode sample_env (Suc 0) = 11" by (simp add: sample_env_def)
  have names: "staging_name [97] \<noteq> [99]" by (simp add: staging_name_def lit_def)
  show ?thesis
    using sample_calm(1) names
    by (simp add: directory_commit_def open_child_dir_def child_dir_def calm_query calm_call create_workspace_child_dir_def make_dir_def
        inode calm_named_dir bind_directory_def entry_identity_def sync_all_def acknowledge_directory_def app calm_change
        sample_directory_def sample_world_def sample_fs_def eq_commute [of "[99]"] Let_def)
qed

theorem directory_receipt_is_true_witness:
  "\<exists>J w' i. directory_commit sample_env sample_directory (sample_world J) = (w', ReceiptApplied Durable (Some [99]))
     \<and> made (sample_world J) (1, [99]) i w'
     \<and> commits_row (Some sample_context) [99] (TxCommitted (Some (identity_text sample_env i))) (sample_world J) w'"
proof -
  obtain J :: ws_journal where J: "lw_failed J = None" "length (lw_file J) < 4000" "lg_last_seq (lw_recovery J) = 1"
    "lg_table (lw_recovery J) = [([99], evidence_of WORKSPACE_JOURNAL_VERSION sample_directory_intent)]"
    by (rule directory_intent_stored)
  obtain w' where w': "directory_commit sample_env sample_directory (sample_world J) = (w', ReceiptApplied Durable (Some [99]))"
    using sample_directory_commit [OF J] by blast
  have d: "pd_parent sample_directory = 1" "pd_target_name sample_directory = [99]" "pd_tx_id sample_directory = [99]"
    "pd_effect_context sample_directory = Some sample_context" by (simp_all add: sample_directory_def)
  from directory_receipt_is_true [OF sample_calm(2) sample_fresh w', unfolded d] w' show ?thesis by blast
qed

end
