(* ===== verification/Write_Recovery.thy ===== *)
theory Write_Recovery
  imports Write_Journal Write_Properties
begin

text \<open>
  A write and its recovery together: a process prepares and commits a write and dies somewhere; a later process opens the journal
  file that is left and asks what became of the effect.
\<close>

section \<open>Where the target is\<close>

lemma show_path_plain: "list_all (\<lambda>p. 92 \<notin> set p) parts \<Longrightarrow> show_path parts = join_slash parts"
proof -
  assume "list_all (\<lambda>p. 92 \<notin> set p) parts"
  then have "92 \<notin> set (join_slash parts)" by (induction parts rule: join_slash.induct) auto
  then show ?thesis by (auto simp: show_path_def intro!: map_idI)
qed

lemma target_parts_show:
  assumes "target \<noteq> []" "list_all clean_part target" "list_all (\<lambda>p. 92 \<notin> set p) target"
  shows "target_parts (show_path target) = Inr (butlast target, last target)"
proof -
  have "collect_normal (path_components (join_slash target)) = Some target"
    using canonical_path_split [OF assms(1,2)] collect_clean [OF assms(2)] join_slash_head [OF assms(2,1)]
    by (simp add: collect_path_components)
  then show ?thesis using assms(1) by (simp add: target_parts_def clean_relative_def show_path_plain [OF assms(3)])
qed

text \<open>A file whose name has a backslash is recorded under the path of another file.\<close>

lemma backslash_is_a_separator:
  "target_parts (show_path [[97, 92, 98]]) = Inr ([[97]], [98])" "clean_part [97, 92, 98]"
  by code_simp+

lemma descend_result:
  assumes "undisturbed env" "descend env state_dir shown dir parts w = (w', res)"
  shows "same_state w w' \<and> (\<forall>d. res = Inr d \<longrightarrow> dir_at (wd_fs w) dir parts = Inr d)"
  using assms(2)
proof (induction parts arbitrary: shown dir w)
  case (Cons part parts)
  obtain w1 r1 where o: "open_child_dir env dir part w = (w1, r1)" by fastforce
  note oc = open_child_dir_result [OF assms(1) o]
  show ?case
  proof (cases "is_runtime_state_path state_dir (shown @ [part]) \<or> (\<exists>e. r1 = Inl e)")
    case True
    then show ?thesis using Cons.prems o oc(1) by (auto split: if_splits)
  next
    case False
    then obtain child where r1: "r1 = Inr child" by (cases r1) auto
    have "descend env state_dir (shown @ [part]) child parts w1 = (w', res)" using Cons.prems o False r1 by simp
    from Cons.IH [OF this] show ?thesis using oc(1) oc(2) r1 by (auto simp: same_state_def)
  qed
qed auto

text \<open>\<open>saw_target\<close>: what a transaction knows of a target that existed.\<close>

definition saw_target :: "os_env \<Rightarrow> mutation_transaction \<Rightarrow> ws_fs \<Rightarrow> bool" where
  "saw_target env tx fs \<longleftrightarrow> (mt_target_existed tx \<longrightarrow> (\<exists>i. fs_entries fs (mt_parent tx, mt_target_name tx) = Some i
     \<and> (fs_nodes fs i = Some DirectoryNode \<or> (\<exists>old. fs_nodes fs i = Some (RegularNode old)
          \<and> mt_bytes_before tx = length old \<and> mt_before_revision tx = Some (os_sha256 env old)))))"

lemma begin_result:
  assumes "undisturbed env" "begin_mutation env state_dir target tx_id w = (w', Inr tx)"
  shows "same_state w w'" "target \<noteq> []" "dir_at (wd_fs w) (wd_root w) (butlast target) = Inr (mt_parent tx)"
    "mt_target_name tx = last target" "mt_relative tx = show_path target" "mt_tx_id tx = tx_id" "saw_target env tx (wd_fs w)"
proof -
  show ne: "target \<noteq> []" using assms(2) by (auto simp: begin_mutation_def)
  obtain w1 parent where p: "confined_existing_parent env state_dir (butlast target) w = (w1, Inr parent)"
    using assms(2) ne by (auto simp: begin_mutation_def and_then_Inr)
  obtain w0 r0 where o: "open_root env w = (w0, r0)" by fastforce
  note os = open_root_result [OF assms(1) o]
  obtain root where r0: "r0 = Inr root" "descend env state_dir [] root (butlast target) w0 = (w1, Inr parent)"
    using p o by (cases r0) (auto simp: confined_existing_parent_def)
  have d: "same_state w w1" "dir_at (wd_fs w) (wd_root w) (butlast target) = Inr parent"
    using descend_result [OF assms(1) r0(2)] os r0(1) by (auto simp: same_state_def)
  obtain w2 r2 where e: "open_existing env parent (last target) w1 = (w2, r2)" by fastforce
  have s2: "same_state w w2" using d(1) os_query_result(1) [OF assms(1) e [unfolded open_existing_def]] same_state_trans by blast
  let ?tx = "\<lparr>mt_parent = parent, mt_target_name = last target, mt_relative = show_path target, mt_bytes_before = 0,
      mt_target_existed = False, mt_before_hash = content_hash [], mt_before_revision = None, mt_tx_id = tx_id\<rparr>"
  have "same_state w w' \<and> mt_parent tx = parent \<and> mt_target_name tx = last target \<and> mt_relative tx = show_path target \<and> mt_tx_id tx = tx_id
      \<and> saw_target env tx (wd_fs w)"
  proof (cases r2)
    case (Inl err)
    then show ?thesis using assms(2) ne p e s2 by (auto simp: begin_mutation_def Let_def saw_target_def split: if_splits)
  next
    case (Inr handle)
    obtain w3 r3 where m: "file_metadata env handle w2 = (w3, r3)" by fastforce
    obtain w4 r4 where r: "read_open_file env handle w3 = (w4, r4)" by fastforce
    have s: "same_state w w3" "same_state w w4"
      using s2 os_query_result(1) [OF assms(1) m [unfolded file_metadata_def]] os_query_result(1) [OF assms(1) r [unfolded read_open_file_def]]
        same_state_trans by blast+
    have at: "fs_entries (wd_fs w) (parent, last target) = Some handle"
        "fs_nodes (wd_fs w) handle = Some DirectoryNode \<or> (\<exists>old. fs_nodes (wd_fs w) handle = Some (RegularNode old))"
      using os_query_result(2) [OF assms(1) e [unfolded open_existing_def] Inr] d(1)
      by (auto simp: existing_entry_def same_state_def split: option.splits node.splits)
    have md: "r3 = Inr (False, len) \<Longrightarrow> fs_nodes (wd_fs w) handle = Some DirectoryNode" for len
      using file_metadata_other [OF assms(1), of handle w2 w3] m at(2) s2 by (auto simp: same_state_def)
    have rd: "r4 = Inr old \<Longrightarrow> fs_nodes (wd_fs w) handle = Some (RegularNode old)" for old
      using os_query_result(2) [OF assms(1) r [unfolded read_open_file_def], of old] s(1) by (simp add: file_bytes_Inr same_state_def)
    show ?thesis using assms(2) ne p e Inr m r s at(1) md rd
      by (cases r3; cases r4) (auto simp: begin_mutation_def Let_def saw_target_def split: if_splits)
  qed
  then show "same_state w w'" "dir_at (wd_fs w) (wd_root w) (butlast target) = Inr (mt_parent tx)"
    "mt_target_name tx = last target" "mt_relative tx = show_path target" "mt_tx_id tx = tx_id" "saw_target env tx (wd_fs w)"
    using d(2) by simp_all
qed

section \<open>What the write left\<close>

text \<open>A process that prepares the write and commits it when the preparation succeeded; the world may end anywhere in between.\<close>

definition write_run :: "os_env \<Rightarrow> mutation_transaction \<Rightarrow> byte list \<Rightarrow> operation_effect_context \<Rightarrow> ws_world \<Rightarrow> ws_world" where
  "write_run env tx content ctx w =
     (case prepare_with_effect_context env tx content ctx w of
        (w1, Inl _) \<Rightarrow> w1
      | (w1, Inr m) \<Rightarrow> fst (mutation_commit env m w1))"

lemma write_run_tracked:
  assumes "log_codec_ok (os_codec env)" "undisturbed env" "fresh env w" "tracked env (intent_of env tx ctx content) T0 (wd_journal w)"
    "mt_target_name tx \<noteq> staging_name (mt_tx_id tx)"
  shows "tracked env (intent_of env tx ctx content) T0 (wd_journal (write_run env tx content ctx w))
    \<and> (fs_entries (wd_fs (write_run env tx content ctx w)) (mt_parent tx, mt_target_name tx) \<noteq> fs_entries (wd_fs w) (mt_parent tx, mt_target_name tx)
       \<longrightarrow> map_of (tx_table (write_run env tx content ctx w)) (mt_tx_id tx) \<noteq> None)"
proof -
  let ?p = "intent_of env tx ctx content"
  obtain w1 r1 where p: "prepare_with_effect_context env tx content ctx w = (w1, r1)" by fastforce
  note po = prepare_result [OF assms(2,3) p]
  have id: "wp_tx_id ?p = mt_tx_id tx" by (simp add: intent_of_def)
  have t1: "tracked env ?p T0 (wd_journal w1)" using prepare_keeps [OF tracked_tracks(1) [OF assms(1)] assms(4)] p by simp
  show ?thesis
  proof (cases r1)
    case (Inr m)
    have st: "staged env tx content ctx w w1 m" using po Inr by (simp add: prepare_outcome_def)
    then have "pm_tx_id m = wp_tx_id ?p" "map_of (tx_table w1) (mt_tx_id tx) \<noteq> None"
      by (auto simp: staged_def prepared_as_def intent_of_def)
    then show ?thesis using commit_keeps [OF tracked_tracks(2) [OF assms(1), of ?p T0]] t1 p Inr
      by (simp add: write_run_def id)
  next
    case (Inl err)
    have "left_behind w (stage_key tx) content (mt_tx_id tx) (intent_row env tx ctx content) w1" using po Inl by (simp add: prepare_outcome_def)
    then have "fs_entries (wd_fs w1) (mt_parent tx, mt_target_name tx) = fs_entries (wd_fs w) (mt_parent tx, mt_target_name tx)"
      using assms(5) by (auto simp: left_behind_def stage_key_def)
    then show ?thesis using p t1 Inl by (simp add: write_run_def)
  qed
qed

text \<open>
  \<open>written\<close>: the nodes that were there are unchanged, every name but the target and the staged one is as before, the staged one was
  free, and the target is as before or, when it was no directory, bound to the new content.
\<close>

definition written :: "nat \<times> rust_str \<Rightarrow> nat \<times> rust_str \<Rightarrow> byte list \<Rightarrow> ws_world \<Rightarrow> ws_world \<Rightarrow> bool" where
  "written target stage content w w' \<longleftrightarrow> wd_root w' = wd_root w
     \<and> (\<forall>i. fs_nodes (wd_fs w) i \<noteq> None \<longrightarrow> fs_nodes (wd_fs w') i = fs_nodes (wd_fs w) i)
     \<and> (\<forall>k. k \<noteq> target \<and> k \<noteq> stage \<longrightarrow> fs_entries (wd_fs w') k = fs_entries (wd_fs w) k)
     \<and> (fs_entries (wd_fs w') stage = fs_entries (wd_fs w) stage \<or> fs_entries (wd_fs w) stage = None)
     \<and> (fs_entries (wd_fs w') target = fs_entries (wd_fs w) target
        \<or> child_dir (fst target) (snd target) (wd_fs w) \<notin> range Inr
          \<and> (\<exists>handle. fs_entries (wd_fs w') target = Some handle \<and> fs_nodes (wd_fs w') handle = Some (RegularNode content)))"

lemma write_run_written:
  assumes "undisturbed env" "fresh env w" "mt_target_name tx \<noteq> staging_name (mt_tx_id tx)"
  shows "written (mt_parent tx, mt_target_name tx) (stage_key tx) content w (write_run env tx content ctx w)"
proof -
  obtain w1 r1 where p: "prepare_with_effect_context env tx content ctx w = (w1, r1)" by fastforce
  note po = prepare_result [OF assms(1,2) p]
  have ne: "(mt_parent tx, mt_target_name tx) \<noteq> stage_key tx" using assms(3) by (simp add: stage_key_def)
  show ?thesis
  proof (cases r1)
    case (Inl err)
    have "left_behind w (stage_key tx) content (mt_tx_id tx) (intent_row env tx ctx content) w1" using po by (simp add: prepare_outcome_def)
    then show ?thesis using ne Inl p by (auto simp: write_run_def written_def left_behind_def)
  next
    case (Inr m)
    obtain w2 receipt where c: "mutation_commit env m w1 = (w2, receipt)" by fastforce
    have st: "staged env tx content ctx w w1 m" using po Inr by (simp add: prepare_outcome_def)
    obtain h where h: "fs_nodes (wd_fs w) h = None" "m = prepared_as env tx content ctx h"
      "wd_fs w1 = put_file (wd_fs w) (stage_key tx) h content" "fs_entries (wd_fs w) (stage_key tx) = None" "wd_root w1 = wd_root w"
      "\<forall>k. fs_entries (wd_fs w) k \<noteq> Some h" "commit_outcome env m (staging_name (mt_tx_id tx)) h w1 w2 receipt"
      by (rule staged_commit [OF assms(1) st assms(3) c])
    have m: "pm_parent m = mt_parent tx" "pm_target_name m = mt_target_name tx" using h(2) by (simp_all add: prepared_as_def)
    have k: "stage_key tx = (mt_parent tx, staging_name (mt_tx_id tx))" by (simp add: stage_key_def)
    consider (drop) "wd_root w2 = wd_root w1" "wd_fs w2 = wd_fs w1 \<or> wd_fs w2 = unlink_name (wd_fs w1) (mt_parent tx) (staging_name (mt_tx_id tx))"
      | (rename) "wd_root w2 = wd_root w1" "wd_fs w2 = renamed (mt_parent tx) h (staging_name (mt_tx_id tx)) (mt_target_name tx) (wd_fs w1)"
          "child_dir (mt_parent tx) (mt_target_name tx) (wd_fs w1) \<notin> range Inr"
      using h(7) m by (auto simp: commit_outcome_def drops_name_def same_disk_def)
    then have "written (mt_parent tx, mt_target_name tx) (stage_key tx) content w w2"
    proof cases
      case drop
      then show ?thesis using h(1,3,4,5) assms(3) by (auto simp: written_def k)
    next
      case rename
      have "child_dir (mt_parent tx) (mt_target_name tx) (wd_fs w1) = child_dir (mt_parent tx) (mt_target_name tx) (wd_fs w)"
        using h(1,3,6) assms(3) by (auto simp: child_dir_def k split: option.splits)
      then show ?thesis using rename h(1,3,4,5) assms(3) by (auto simp: written_def renamed_def k)
    qed
    then show ?thesis using p Inr c by (simp add: write_run_def)
  qed
qed

lemma dir_at_kept:
  assumes "\<And>d n c. child_dir d n fs = Inr c \<Longrightarrow> child_dir d n fs' = Inr c" "dir_at fs root parts = Inr d"
  shows "dir_at fs' root parts = Inr d"
  using assms(2) by (induction parts arbitrary: root) (auto dest: assms(1))

lemma written_child_dir:
  assumes "written target stage content w w'" "child_dir d n (wd_fs w) = Inr c"
  shows "child_dir d n (wd_fs w') = Inr c"
proof -
  have at: "fs_entries (wd_fs w) (d, n) = Some c" "fs_nodes (wd_fs w) c = Some DirectoryNode"
    using assms(2) by (auto simp: child_dir_def split: option.splits if_splits)
  have "fs_entries (wd_fs w') (d, n) = Some c"
    using assms at(1) unfolding written_def by (cases "(d, n) = target"; cases "(d, n) = stage") (auto simp: image_iff)
  moreover have "fs_nodes (wd_fs w') c = Some DirectoryNode" using assms(1) at(2) by (auto simp: written_def)
  ultimately show ?thesis by (simp add: child_dir_def)
qed

section \<open>What recovery sees\<close>

definition same_machine :: "os_env \<Rightarrow> os_env \<Rightarrow> bool" where
  "same_machine env env' \<longleftrightarrow> os_parse_uuid env' = os_parse_uuid env \<and> os_codec env' = os_codec env \<and> os_sha256 env' = os_sha256 env"

definition same_digest :: "os_env \<Rightarrow> byte list \<Rightarrow> byte list \<Rightarrow> bool" where
  "same_digest env a b \<longleftrightarrow> length a = length b \<and> sha256_hex env a = sha256_hex env b"

lemma intent_now:
  assumes "target_parts (mt_relative tx) = Inr (parents, mt_target_name tx)" "dir_at (wd_fs w) (wd_root w) parents = Inr (mt_parent tx)"
    "target_now env' ((intent_row env tx ctx content)\<lparr>te_terminal := t\<rparr>) w = Some now"
  shows "now = TargetMissing \<and> fs_entries (wd_fs w) (mt_parent tx, mt_target_name tx) = None
    \<or> (\<exists>i bytes. fs_entries (wd_fs w) (mt_parent tx, mt_target_name tx) = Some i \<and> fs_nodes (wd_fs w) i = Some (RegularNode bytes)
        \<and> now = TargetFile (length bytes) (sha256_hex env' bytes))"
proof -
  have e: "te_relative_target (intent_row env tx ctx content) = mt_relative tx" "te_entry_kind (intent_row env tx ctx content) = EntryFile"
    "te_journal_version (intent_row env tx ctx content) \<noteq> LEGACY_JOURNAL_VERSION"
    by (simp_all add: intent_row_def evidence_of_def intent_of_def WORKSPACE_JOURNAL_VERSION_def LEGACY_JOURNAL_VERSION_def)
  then have "entry_now env' ((intent_row env tx ctx content)\<lparr>te_terminal := t\<rparr>) (wd_fs w) (mt_parent tx) (mt_target_name tx) = Some now"
    using assms by (simp add: target_now_def)
  then show ?thesis using e(2,3)
    by (auto simp: entry_now_def recovery_hash_for_def hash_with_def if_missing_def regular_entry_def file_bytes_def
        split: option.splits node.splits if_splits)
qed

lemma intent_states:
  assumes "target_parts (mt_relative tx) = Inr (parents, mt_target_name tx)" "dir_at (wd_fs w) (wd_root w) parents = Inr (mt_parent tx)"
    "same_machine env env'" "e = (intent_row env tx ctx content)\<lparr>te_terminal := t\<rparr>"
  shows "at_after env' w e \<Longrightarrow> \<exists>i bytes. fs_entries (wd_fs w) (mt_parent tx, mt_target_name tx) = Some i
      \<and> fs_nodes (wd_fs w) i = Some (RegularNode bytes) \<and> same_digest env bytes content"
    "at_before env' w e \<Longrightarrow> fs_entries (wd_fs w) (mt_parent tx, mt_target_name tx) = None \<and> \<not> mt_target_existed tx
      \<or> mt_target_existed tx \<and> (\<exists>i bytes. fs_entries (wd_fs w) (mt_parent tx, mt_target_name tx) = Some i
          \<and> fs_nodes (wd_fs w) i = Some (RegularNode bytes) \<and> length bytes = mt_bytes_before tx
          \<and> sha256_hex env bytes = digest_to_string (case mt_before_revision tx of Some r \<Rightarrow> r | None \<Rightarrow> os_sha256 env []))"
proof -
  have e: "te_entry_kind e = EntryFile" "te_journal_version e \<noteq> LEGACY_JOURNAL_VERSION" "te_after_hash e = sha256_hex env content"
    "te_bytes_after e = Some (length content)" "te_target_existed e = mt_target_existed tx" "te_bytes_before e = Some (mt_bytes_before tx)"
    "te_before_hash e = digest_to_string (case mt_before_revision tx of Some r \<Rightarrow> r | None \<Rightarrow> os_sha256 env [])"
    using assms(4) by (simp_all add: intent_row_def evidence_of_def intent_of_def WORKSPACE_JOURNAL_VERSION_def LEGACY_JOURNAL_VERSION_def sha256_hex_def)
  have hex: "sha256_hex env' b = sha256_hex env b" for b using assms(3) by (simp add: same_machine_def sha256_hex_def)
  note now = intent_now [OF assms(1,2), where env = env and ctx = ctx and content = content and t = t, folded assms(4)]
  show "\<exists>i bytes. fs_entries (wd_fs w) (mt_parent tx, mt_target_name tx) = Some i
      \<and> fs_nodes (wd_fs w) i = Some (RegularNode bytes) \<and> same_digest env bytes content" if "at_after env' w e"
    using that now e by (fastforce simp: at_after_def is_after_def recorded_state_matches_def same_digest_def hex split: option.splits)
  show "fs_entries (wd_fs w) (mt_parent tx, mt_target_name tx) = None \<and> \<not> mt_target_existed tx
      \<or> mt_target_existed tx \<and> (\<exists>i bytes. fs_entries (wd_fs w) (mt_parent tx, mt_target_name tx) = Some i
          \<and> fs_nodes (wd_fs w) i = Some (RegularNode bytes) \<and> length bytes = mt_bytes_before tx
          \<and> sha256_hex env bytes = digest_to_string (case mt_before_revision tx of Some r \<Rightarrow> r | None \<Rightarrow> os_sha256 env []))"
    if "at_before env' w e"
    using that now e by (fastforce simp: at_before_def is_before_def recorded_state_matches_def hex split: option.splits)
qed

text \<open>The restarted process finds the journal file and the disk of the dead one.\<close>

definition restarted :: "ws_journal \<Rightarrow> ws_world \<Rightarrow> ws_world" where
  "restarted J w = w\<lparr>wd_journal := J, wd_crashed := False\<rparr>"

lemma restarted_simps [simp]:
  "wd_fs (restarted J w) = wd_fs w" "wd_root (restarted J w) = wd_root w" "wd_journal (restarted J w) = J"
  by (simp_all add: restarted_def)

lemma restart_rows:
  assumes "log_codec_ok (os_codec env)" "undisturbed env" "fresh env w" "mt_target_name tx \<noteq> staging_name (mt_tx_id tx)"
    "log_ok (workspace_kind (os_parse_uuid env)) (os_codec env) (wd_journal w)" "lw_failed (wd_journal w) = None"
    "map_of (tx_table w) (mt_tx_id tx) = None" "\<forall>k e. map_of (tx_table w) k = Some e \<longrightarrow> te_context e \<noteq> ctx"
    "w2 = write_run env tx content ctx w" "ws_open (os_parse_uuid env) (os_codec env) io (Some (lw_file (wd_journal w2))) = (disk, Inr J)"
  shows "evidence_ok (os_parse_uuid env) (lg_table (lw_recovery J))"
    "map_of (lg_table (lw_recovery J)) k = Some e \<Longrightarrow> te_context e = ctx
       \<Longrightarrow> k = mt_tx_id tx \<and> (\<exists>t. e = (intent_row env tx ctx content)\<lparr>te_terminal := t\<rparr>)"
    "fs_entries (wd_fs w2) (mt_parent tx, mt_target_name tx) \<noteq> fs_entries (wd_fs w) (mt_parent tx, mt_target_name tx)
       \<Longrightarrow> \<exists>e. map_of (lg_table (lw_recovery J)) (mt_tx_id tx) = Some e \<and> te_context e = ctx"
proof -
  let ?p = "intent_of env tx ctx content" and ?T = "lg_table (lw_recovery J)"
  have id: "wp_tx_id ?p = mt_tx_id tx" by (simp add: intent_of_def)
  have "tracked env ?p (tx_table w) (wd_journal w)"
    using assms(5-7) by (auto simp: tracked_def log_ok_def log_ok_with_def keeps_rows_def id)
  note run = write_run_tracked [OF assms(1-3) this assms(4), folded assms(9)]
  note re = reopened_tracked [OF assms(1) conjunct1 [OF run] assms(10)]
  have rows: "keeps_rows (tx_table w) (mt_tx_id tx) (intent_row env tx ctx content) ?T" using re(1) by (simp add: id intent_row_def)
  show "evidence_ok (os_parse_uuid env) ?T" by (rule re(2))
  show "k = mt_tx_id tx \<and> (\<exists>t. e = (intent_row env tx ctx content)\<lparr>te_terminal := t\<rparr>)" if "map_of ?T k = Some e" "te_context e = ctx"
    using rows that assms(8) unfolding keeps_rows_def by (cases "k = mt_tx_id tx") auto
  have "te_context ((intent_row env tx ctx content)\<lparr>te_terminal := t\<rparr>) = ctx" for t
    by (simp add: intent_row_def evidence_of_def intent_of_def)
  then show "\<exists>e. map_of ?T (mt_tx_id tx) = Some e \<and> te_context e = ctx"
    if "fs_entries (wd_fs w2) (mt_parent tx, mt_target_name tx) \<noteq> fs_entries (wd_fs w) (mt_parent tx, mt_target_name tx)"
    using rows re(3) conjunct2 [OF run] that unfolding keeps_rows_def id by auto
qed

text \<open>Recovery of this one effect only takes away the staged name.\<close>

lemma cleaned_stage:
  assumes "cleaned env' (open_rows w ctx) w w'" "\<And>k e. map_of (tx_table w) k = Some e \<Longrightarrow> te_context e = ctx
       \<Longrightarrow> te_temp_name e = temp \<and> te_relative_target e = relative" "distinct (map fst (tx_table w))"
    "target_parts relative = Inr (parents, name)" "dir_at (wd_fs w) (wd_root w) parents = Inr parent"
  shows "x \<noteq> (parent, temp) \<Longrightarrow> fs_entries (wd_fs w') x = fs_entries (wd_fs w) x" "fs_nodes (wd_fs w') = fs_nodes (wd_fs w)"
proof -
  obtain d n where x: "x = (d, n)" by fastforce
  have "te_temp_name e = temp \<and> te_relative_target e = relative" if "(tx, e) \<in> set (open_rows w ctx)" for tx e
    using that assms(2) [of tx e] assms(3) by (auto simp: open_rows_def)
  then show "fs_entries (wd_fs w') x = fs_entries (wd_fs w) x" if "x \<noteq> (parent, temp)"
    using assms(1,4,5) that unfolding cleaned_def staged_at_def x by fastforce
  show "fs_nodes (wd_fs w') = fs_nodes (wd_fs w)" using assms(1) by (simp add: cleaned_def)
qed

lemma before_or_same:
  assumes "written key stage content w w'"
    "fs_entries (wd_fs w') key = None \<and> \<not> mt_target_existed tx
      \<or> mt_target_existed tx \<and> (\<exists>i bytes. fs_entries (wd_fs w') key = Some i
          \<and> fs_nodes (wd_fs w') i = Some (RegularNode bytes) \<and> length bytes = mt_bytes_before tx
          \<and> sha256_hex env bytes = digest_to_string (case mt_before_revision tx of Some r \<Rightarrow> r | None \<Rightarrow> os_sha256 env []))"
    "saw_target env tx (wd_fs w)" "key = (mt_parent tx, mt_target_name tx)"
  shows "fs_entries (wd_fs w') key = fs_entries (wd_fs w) key
      \<or> (\<exists>i old. fs_entries (wd_fs w) key = Some i \<and> fs_nodes (wd_fs w) i = Some (RegularNode old) \<and> same_digest env old content)"
proof (rule disjCI)
  assume "\<not> (\<exists>i old. fs_entries (wd_fs w) key = Some i \<and> fs_nodes (wd_fs w) i = Some (RegularNode old) \<and> same_digest env old content)"
  moreover have "\<exists>i old. fs_entries (wd_fs w) key = Some i \<and> fs_nodes (wd_fs w) i = Some (RegularNode old) \<and> same_digest env old content"
    if changed: "fs_entries (wd_fs w') key \<noteq> fs_entries (wd_fs w) key"
  proof -
    obtain h where h: "child_dir (mt_parent tx) (mt_target_name tx) (wd_fs w) \<notin> range Inr" "fs_entries (wd_fs w') key = Some h"
      "fs_nodes (wd_fs w') h = Some (RegularNode content)" using assms(1,4) changed by (auto simp: written_def)
    then have c: "mt_target_existed tx" "length content = mt_bytes_before tx"
      "sha256_hex env content = digest_to_string (case mt_before_revision tx of Some r \<Rightarrow> r | None \<Rightarrow> os_sha256 env [])"
      using assms(2) by auto
    then show ?thesis using assms(3,4) h(1) by (auto simp: saw_target_def child_dir_def same_digest_def sha256_hex_def)
  qed
  ultimately show "fs_entries (wd_fs w') key = fs_entries (wd_fs w) key" by blast
qed

section \<open>A crashed write is settled truthfully\<close>

text \<open>
  C5. Wherever a process dies in a write, its successor says truthfully what became of it. Begin a write of a file whose
  path has no backslash, with a new transaction and a new effect, prepare and commit it, with any failure of a system call and
  death at any of them, also inside an append to the journal; then let another process open the journal file that is
  left and reconcile the effect, with failures of its own. Then no file that was there has changed its bytes and only the target
  and the staged name can differ. The target is as before or has exactly the new content. If the answer is that
  nothing is known of the effect or that it was not applied, the target is as before (or the new content has the length and
  digest of the old); if it is that the effect was applied, the target has the length and digest of the new content.
\<close>
theorem crashed_write_is_settled:
  assumes "log_codec_ok (os_codec env)" "undisturbed env" "fresh env w"
    "log_ok (workspace_kind (os_parse_uuid env)) (os_codec env) (wd_journal w)" "lw_failed (wd_journal w) = None"
    "begin_mutation env state_dir target tx_id w0 = (w, Inr tx)" "list_all clean_part target" "list_all (\<lambda>p. 92 \<notin> set p) target"
    "last target \<noteq> staging_name tx_id" "map_of (tx_table w) tx_id = None" "\<forall>k e. map_of (tx_table w) k = Some e \<longrightarrow> te_context e \<noteq> ctx"
    "w2 = write_run env tx content ctx w" "ws_open (os_parse_uuid env) (os_codec env) io (Some (lw_file (wd_journal w2))) = (disk, Inr J)"
    "same_machine env env'" "undisturbed env'" "honest env'" "reconcile_workspace_effect env' ctx (restarted J w2) = (w3, Inr answer)"
    "key = (mt_parent tx, last target)"
  shows "(\<forall>i. fs_nodes (wd_fs w0) i \<noteq> None \<longrightarrow> fs_nodes (wd_fs w3) i = fs_nodes (wd_fs w0) i)
   \<and> (\<forall>k. k \<noteq> key \<and> k \<noteq> stage_key tx \<longrightarrow> fs_entries (wd_fs w3) k = fs_entries (wd_fs w0) k)
   \<and> (fs_entries (wd_fs w3) key = fs_entries (wd_fs w0) key
      \<or> (\<exists>i. fs_entries (wd_fs w3) key = Some i \<and> fs_nodes (wd_fs w3) i = Some (RegularNode content)))
   \<and> (answer = WsNotManaged \<or> (\<exists>ids. answer = WsNotApplied ids) \<longrightarrow> fs_entries (wd_fs w3) key = fs_entries (wd_fs w0) key
      \<or> (\<exists>i old. fs_entries (wd_fs w0) key = Some i \<and> fs_nodes (wd_fs w0) i = Some (RegularNode old) \<and> same_digest env old content))
   \<and> (\<forall>ids complete. answer = WsApplied ids complete \<longrightarrow> (\<exists>i bytes. fs_entries (wd_fs w3) key = Some i
        \<and> fs_nodes (wd_fs w3) i = Some (RegularNode bytes) \<and> same_digest env bytes content))"
proof -
  let ?w = "restarted J w2" and ?e = "intent_row env tx ctx content"
  note b = begin_result [OF assms(2,6)]
  have w: "wd_fs w = wd_fs w0" "wd_root w = wd_root w0" using b(1) by (simp_all add: same_state_def)
  have key: "key = (mt_parent tx, mt_target_name tx)" using assms(18) b(4) by simp
  have ne: "mt_target_name tx \<noteq> staging_name (mt_tx_id tx)" using assms(9) b(4,6) by simp
  note rr = restart_rows [OF assms(1-3) ne assms(4,5) _ assms(11,12,13), unfolded b(6), OF assms(10)]
  have wr: "written key (stage_key tx) content w0 ?w"
    using write_run_written [OF assms(2,3) ne, of content ctx] assms(12) w by (simp add: written_def key)
  have parts: "target_parts (mt_relative tx) = Inr (butlast target, mt_target_name tx)"
    using target_parts_show [OF b(2) assms(7,8)] b(4,5) by simp
  have dir: "dir_at (wd_fs ?w) (wd_root ?w) (butlast target) = Inr (mt_parent tx)"
    using dir_at_kept [OF written_child_dir [OF wr] b(3)] wr by (simp add: written_def)
  note states = intent_states [OF parts dir assms(14)]
  have row: "te_temp_name e = staging_name (mt_tx_id tx) \<and> te_relative_target e = mt_relative tx"
    if r: "map_of (tx_table ?w) k = Some e" "te_context e = ctx" for k e
  proof -
    obtain t where "e = ?e\<lparr>te_terminal := t\<rparr>" using rr(2) [of k e] r by auto
    then show ?thesis by (simp add: intent_row_def evidence_of_def intent_of_def)
  qed
  have dist: "distinct (map fst (tx_table ?w))" using rr(1) by (simp add: evidence_ok_def)
  have cl: "cleaned env' (open_rows ?w ctx) ?w w3"
    by (cases rule: reconcile_effect_cases [OF assms(15,16) dist assms(17)]) (auto simp: cleaned_same)
  note cs = cleaned_stage [OF cl row dist parts dir]
  have ks: "key \<noteq> stage_key tx" using ne by (simp add: key stage_key_def)
  have w3: "k \<noteq> stage_key tx \<Longrightarrow> fs_entries (wd_fs w3) k = fs_entries (wd_fs ?w) k" "fs_nodes (wd_fs w3) = fs_nodes (wd_fs ?w)" for k
    using cs(1) [where x = k] cs(2) by (simp_all add: stage_key_def)
  have before: "fs_entries (wd_fs ?w) key = fs_entries (wd_fs w0) key
      \<or> (\<exists>i old. fs_entries (wd_fs w0) key = Some i \<and> fs_nodes (wd_fs w0) i = Some (RegularNode old) \<and> same_digest env old content)"
    if "at_before env' ?w e" "e = ?e\<lparr>te_terminal := t\<rparr>" for e t
    by (rule before_or_same [OF wr _ b(7)]) (use states(2) [OF that(2,1)] key in auto)
  from assms(17) have "(answer = WsNotManaged \<or> (\<exists>ids. answer = WsNotApplied ids) \<longrightarrow> fs_entries (wd_fs ?w) key = fs_entries (wd_fs w0) key
      \<or> (\<exists>i old. fs_entries (wd_fs w0) key = Some i \<and> fs_nodes (wd_fs w0) i = Some (RegularNode old) \<and> same_digest env old content))
   \<and> (\<forall>ids complete. answer = WsApplied ids complete \<longrightarrow> (\<exists>i bytes. fs_entries (wd_fs ?w) key = Some i
        \<and> fs_nodes (wd_fs ?w) i = Some (RegularNode bytes) \<and> same_digest env bytes content))"
  proof (cases rule: reconcile_effect_cases [OF assms(15,16) dist, consumes 1, case_names unmanaged unclear not_applied applied])
    case unmanaged
    then have "fs_entries (wd_fs ?w) key = fs_entries (wd_fs w0) key" using rr(3) w(1) key by auto
    then show ?thesis using unmanaged(1) by simp
  next
    case (unclear ids reason)
    then show ?thesis by simp
  next
    case (not_applied ids)
    obtain k e where r: "map_of (tx_table ?w) k = Some e" "te_context e = ctx" using not_applied(3) by blast
    obtain t where t: "e = ?e\<lparr>te_terminal := t\<rparr>" using rr(2) [of k e] r by auto
    have "te_entry_kind e = EntryFile" using t by (simp add: intent_row_def evidence_of_def intent_of_def)
    then have "at_before env' ?w e" using not_applied(4) [OF r] by (simp add: undone_def)
    then show ?thesis using before [OF _ t] not_applied(1) by simp
  next
    case (applied ids complete)
    obtain k e where r: "map_of (tx_table ?w) k = Some e" "te_context e = ctx" "at_after env' ?w e" using applied(3) by blast
    obtain t where t: "e = ?e\<lparr>te_terminal := t\<rparr>" using rr(2) [of k e] r by auto
    show ?thesis using states(1) [OF t r(3)] key applied(1) by simp
  qed
  then show ?thesis using wr w3(1) [OF ks] w3 ks by (auto simp: written_def)
qed

section \<open>A sample\<close>

text \<open>A process that dies right after the intent of its write became durable.\<close>

definition dying_env :: os_env where
  "dying_env = sample_env\<lparr>os_crash := \<lambda>t. t = 2\<rparr>"

abbreviation dying_tx :: mutation_transaction where
  "dying_tx \<equiv> sample_tx\<lparr>mt_before_hash := content_hash []\<rparr>"

abbreviation dying_world :: "ws_journal \<Rightarrow> ws_world" where
  "dying_world J \<equiv> (sample_world J)\<lparr>wd_tick := 2\<rparr>"

lemma dying_query:
  "\<not> wd_crashed w \<Longrightarrow> wd_tick w \<noteq> 2 \<Longrightarrow> os_query dying_env g w = (w\<lparr>wd_tick := Suc (wd_tick w)\<rparr>, g (wd_fs w))"
  by (cases "g (wd_fs w)") (simp_all add: os_query_def os_call_def dying_env_def sample_env_def Let_def)

lemma dying_begin:
  "begin_mutation dying_env None [[98]] [98] (sample_world J) = (dying_world J, Inr dying_tx)"
  using sample_names
  by (simp add: begin_mutation_def confined_existing_parent_def open_root_def open_existing_def dying_query existing_entry_def
      sample_world_def sample_fs_def sample_tx_def show_path_def numeral_2_eq_2 staging_name_def lit_def)

lemma dying_intent: "intent_of dying_env dying_tx sample_context [1, 2, 3] = sample_write_intent"
  by (simp add: sample_write_intent_def intent_of_def dying_env_def sample_tx_def)

lemma dying_run:
  assumes "ws_append (\<lambda>_. True) ws_codec stored (empty_log sample_ws_kind) (WsPrepared sample_write_intent) = (J, Inr ())"
  shows "write_run dying_env dying_tx [1, 2, 3] sample_context (dying_world (empty_log sample_ws_kind))
    = (dying_world J)\<lparr>wd_crashed := True\<rparr>"
proof -
  let ?w = "dying_world (empty_log sample_ws_kind)"
  have "world_append dying_env (WsPrepared sample_write_intent) ?w = (?w\<lparr>wd_journal := J, wd_crashed := True\<rparr>, Inl (Storage []))"
    using assms by (simp add: world_append_def dying_env_def sample_env_def sample_world_def)
  then show ?thesis using sample_context_valid
    by (simp add: write_run_def prepare_with_effect_context_def prepare_inner_def persist_intent_def dying_intent sample_world_def
        MAX_MUTATION_BYTES_def)
qed

lemma dying_frame:
  "length (nats_to_bytes (en_log_frame en_ws \<lparr>lf_record = \<lparr>lr_version = 3, lr_seq = 2, lr_transition = WsRolledBack [98]\<rparr>,
      lf_checksum = log_checksum ws_codec (nats_to_bytes (en_log_record en_ws \<lparr>lr_version = 3, lr_seq = 2, lr_transition = WsRolledBack [98]\<rparr>))\<rparr>)) < 3000"
  by code_simp

lemma dying_reconcile:
  assumes "lw_failed J = None" "length (lw_file J) < 4000" "lg_last_seq (lw_recovery J) = 1"
    "lg_table (lw_recovery J) = [([98], evidence_of WORKSPACE_JOURNAL_VERSION sample_write_intent)]"
  shows "\<exists>w'. reconcile_workspace_effect sample_env sample_context (restarted J ((dying_world J)\<lparr>wd_crashed := True\<rparr>)) = (w', Inr (WsNotApplied [[98]]))"
proof -
  let ?w = "restarted J ((dying_world J)\<lparr>wd_crashed := True\<rparr>)" and ?e = "evidence_of WORKSPACE_JOURNAL_VERSION sample_write_intent"
  have e: "te_context ?e = sample_context" "te_relative_target ?e = [98]" "te_temp_name ?e = staging_name [98]" "te_entry_kind ?e = EntryFile"
    "te_terminal ?e = None" "\<not> te_target_existed ?e"
    by (simp_all add: evidence_of_def sample_intent_simps) (simp add: sample_write_intent_def intent_of_def sample_tx_def)
  have rows: "evidence_for J sample_context = Inr [([98], ?e)]"
    using assms(1,4) sample_context_valid e(1) by (simp add: evidence_for_def sort_rows_def MAX_EFFECT_TRANSACTIONS_def)
  have parts: "target_parts [98] = Inr ([], [98])" by code_simp
  have w: "\<not> wd_crashed ?w" "wd_fs ?w = sample_fs" "wd_root ?w = 1" "wd_journal ?w = J" by (simp_all add: sample_world_def restarted_def)
  have missing: "regular_entry 1 [98] sample_fs = Inl IoNotFound" "regular_entry 1 (staging_name [98]) sample_fs = Inl IoNotFound"
    using sample_names by (auto simp: regular_entry_def sample_fs_def staging_name_def lit_def)
  obtain J2 where a: "ws_append (\<lambda>_. True) ws_codec stored J (WsRolledBack [98]) = (J2, Inr ())"
    by (rule ws_stores [of 1 "WsRolledBack [98]" J])
       (use assms dying_frame e(5) in \<open>simp_all add: ws_validate.simps numeral_2_eq_2, simp add: WORKSPACE_JOURNAL_VERSION_def\<close>)
  have app: "world_append sample_env (WsRolledBack [98]) v = (v\<lparr>wd_journal := J2, wd_tick := Suc (wd_tick v)\<rparr>, Inr ())"
    if "\<not> wd_crashed v" "wd_journal v = J" for v
    by (rule calm_append [OF sample_calm(1) that(1)]) (use a that(2) in \<open>simp add: sample_env_def\<close>)
  have v: "verdict_for ?e TargetMissing = RowNotApplied"
    using e by (simp add: verdict_for_def file_verdict_def is_after_def is_before_def)
  show ?thesis
    using rows w e parts missing v sample_calm(1)
    by (simp add: reconcile_workspace_effect_def inspect_target_def open_root_def calm_query inspect_file_def open_recovery_target_def
        pinned_parent_def remove_verified_staged_file_def open_staged_for_cleanup_def app Let_def)
qed

lemma dying_hypotheses:
  "log_codec_ok (os_codec dying_env)" "undisturbed dying_env" "same_machine dying_env sample_env" "fresh dying_env (dying_world J)"
  "log_ok sample_ws_kind ws_codec (empty_log sample_ws_kind)" "list_all clean_part [[98]]"
  "os_parse_uuid dying_env = (\<lambda>_. True)" "os_codec dying_env = ws_codec"
  using effect_codecs_ok(2) sample_calm(2)
  by (simp_all add: dying_env_def undisturbed_def same_machine_def log_ok_def empty_log_def clean_part_def)
     (simp_all add: sample_env_def fresh_def sample_world_def sample_fs_def)

theorem crashed_write_is_settled_witness:
  "\<exists>J w2 w3. write_run dying_env dying_tx [1, 2, 3] sample_context (dying_world (empty_log sample_ws_kind)) = w2 \<and> wd_crashed w2
     \<and> ws_open (\<lambda>_. True) ws_codec fine_open (Some (lw_file (wd_journal w2))) = (Some (lw_file J), Inr J)
     \<and> reconcile_workspace_effect sample_env sample_context (restarted J w2) = (w3, Inr (WsNotApplied [[98]]))
     \<and> fs_entries (wd_fs w3) (1, [98]) = None"
proof -
  obtain J where J: "ws_append (\<lambda>_. True) ws_codec stored (empty_log sample_ws_kind) (WsPrepared sample_write_intent) = (J, Inr ())"
    "lw_failed J = None" "length (lw_file J) < 4000" "lg_last_seq (lw_recovery J) = 1"
    "lg_table (lw_recovery J) = [([98], evidence_of WORKSPACE_JOURNAL_VERSION sample_write_intent)]"
    by (rule sample_intent_stored)
  note run = dying_run [OF J(1)]
  have "log_ok sample_ws_kind ws_codec J" using workspace_log.append_ok [OF effect_codecs_ok(2) dying_hypotheses(5) J(1) [unfolded ws_append_def]] by simp
  then have h: "log_holds sample_ws_kind ws_codec (lw_file J) [] (lw_recovery J)" using J(2) by (simp add: log_ok_def)
  have "J = \<lparr>lw_file = lw_file J, lw_recovery = lw_recovery J, lw_failed = None\<rparr>" using J(2) by (cases J) simp
  then have o: "ws_open (\<lambda>_. True) ws_codec fine_open (Some (lw_file (wd_journal ((dying_world J)\<lparr>wd_crashed := True\<rparr>)))) = (Some (lw_file J), Inr J)"
    using log_open_total [OF effect_codecs_ok(2) fine_open_ok, of sample_ws_kind "Some (lw_file J)" "[]" "lw_recovery J"] h
    by (simp add: ws_open_def workspace_kind_def sample_world_def Let_def)
  obtain w3 where r: "reconcile_workspace_effect sample_env sample_context (restarted J ((dying_world J)\<lparr>wd_crashed := True\<rparr>)) = (w3, Inr (WsNotApplied [[98]]))"
    using dying_reconcile [OF J(2-5)] by blast
  let ?w = "dying_world (empty_log sample_ws_kind)"
  have table: "tx_table ?w = []" "wd_journal ?w = empty_log sample_ws_kind" "lw_failed (wd_journal ?w) = None"
    by (simp_all add: sample_world_def empty_log_def log_initial_def workspace_kind_def)
  have n: "last [[98]] \<noteq> staging_name [98]" using sample_names(2) by simp
  have "fs_entries (wd_fs w3) (1, [98]) = None"
    using crashed_write_is_settled [OF dying_hypotheses(1,2,4) _ table(3) dying_begin dying_hypotheses(6) _ n _ _ run [symmetric] _
        dying_hypotheses(3) sample_calm(2,3) r refl] o dying_hypotheses(5,7,8) table(1,2)
    by (simp add: sample_world_def sample_fs_def sample_tx_def staging_name_def lit_def)
  then show ?thesis using run o r by (intro exI [of _ J] exI [of _ "(dying_world J)\<lparr>wd_crashed := True\<rparr>"] exI [of _ w3]) simp
qed

end
