(* ===== verification/Spec2Isabelle.thy ===== *)
theory Spec2Isabelle
  imports Journal_Properties Registry_Properties Approval_Properties Approval_Hub Core_Properties Kernel_Context
    Write_Recovery
begin

text \<open>
  \<^bold>\<open>The authority core of the context agent.\<close> The program is a coding agent whose every effect (a workspace write, a
  process) passes one authority: the kernel \<open>CoreAuthority\<close> of \<^verbatim>\<open>crates/agent-core\<close>. A tool call is admitted as an operation,
  published as an event, approved, leased, executed, and its staged effect committed through a broker; every state
  of an operation is in a write-ahead journal before it is visible, and a restart settles what the previous process
  left. This development models that core, from the bytes of the journal to the methods of the kernel, and proves it.

  \<^bold>\<open>Parts and theories.\<close>
  \<^item> Shared vocabulary: \<open>Prelude\<close> (results, machine integers, Rust strings, hash maps as association lists) and
    \<open>Operation_Contracts\<close> (\<^verbatim>\<open>agent-contracts/src/operation.rs\<close>: identities, states, snapshots, journal records, \<open>validate\<close>).
  \<^item> The authority journal (\<^verbatim>\<open>agent-storage/src/lib.rs\<close>, \<open>FileOperationJournal\<close>): \<open>Journal_Fold\<close> (what records mean),
    \<open>Authority_Truth\<close> (the abstract truth, and the contract \<open>operation_journal\<close> a journal offers), \<open>Journal_File\<close> (the bytes:
    open, recover, append, compact, markers), \<open>Journal_Durability\<close>, \<open>Journal_Compaction\<close>, \<open>Journal_Markers\<close> (the lemmas),
    \<open>Wire_Codec\<close> and \<open>Journal_Samples\<close> (a concrete codec and journal for the witnesses), \<open>Journal_Properties\<close>.
  \<^item> The operation registry (\<^verbatim>\<open>agent-core/src/operation.rs\<close>): \<open>Operation_Registry\<close> (all operations), \<open>Registry_Moves\<close>,
    \<open>Registry_Refines\<close>, \<open>Registry_Runs\<close> (each call is a few moves of an abstract registry), \<open>Registry_Truth\<close> (agreement with
    any journal that keeps the contract), \<open>Registry_Properties\<close> (the file journal is such a journal).
  \<^item> Intents and approval: \<open>Effect_Intent\<close> (\<^verbatim>\<open>tool.rs\<close>, \<^verbatim>\<open>approval.rs\<close>), \<open>Json_Canonical\<close> (\<^verbatim>\<open>jcs.rs\<close>), \<open>Host_Policy\<close>
    (\<^verbatim>\<open>host_policy.rs\<close>), \<open>Approval_Gate\<close> (\<^verbatim>\<open>agent-core/src/approval.rs\<close>: policy gate, standing grants, shadow verdict),
    \<open>Approval_Hub\<close> (the interactive gate, a step relation with a clock), \<open>Approval_Properties\<close>.
  \<^item> The kernel: \<open>Tool_Failure\<close> (failure classes, the output authority), \<open>Event_Authority\<close> (\<^verbatim>\<open>authority.rs\<close>), \<open>Core_Authority\<close>
    (\<^verbatim>\<open>kernel/mod.rs\<close>: state, epoch, admission, settlement, startup), \<open>Live_Events\<close> (\<^verbatim>\<open>agent-runtime/src/sink.rs\<close>: the
    live deltas that are broadcast without being journaled), \<open>Core_Dispatch\<close> (publication and dispatch),
    \<open>Core_Commit\<close> (\<^verbatim>\<open>port.rs\<close>: commit and rollback), \<open>Kernel_Context\<close> (context transactions, start, stop); the lemmas are
    in \<open>Core_Startup\<close>, \<open>Core_Steps\<close>, \<open>Core_Guarantee\<close>, \<open>Core_Decisions\<close>, the properties in \<open>Core_Properties\<close>.
  \<^item> The effect journals (\<^verbatim>\<open>crates/agent-workspace\<close>), on which startup decides what became of an effect: \<open>Effect_Log\<close> (the log
    that the three files share), \<open>Workspace_Journal\<close> (\<^verbatim>\<open>journal.rs\<close>: prepared, committed and rolled back file transactions),
    \<open>Remote_Journal\<close> (\<^verbatim>\<open>remote_journal.rs\<close>: reserved, dispatched, acknowledged calls), \<open>Process_Journal\<close>
    (\<^verbatim>\<open>process_journal.rs\<close>: spawns and exits); codecs for the witnesses and the properties are in \<open>Effect_Journals\<close>.
  \<^item> Workspace effects: \<open>Workspace_Files\<close> (\<^verbatim>\<open>confined.rs\<close>: the calls on pinned directories, over a file system of nodes and names),
    \<open>Workspace_Reconcile\<close> (\<^verbatim>\<open>journal.rs\<close>, \<open>reconcile_workspace_effect\<close>: what became of an effect), \<open>Workspace_Mutation\<close> and
    \<open>Workspace_Directory\<close> (\<^verbatim>\<open>lib.rs\<close>: prepare, commit and roll back a write or a new directory); the lemmas are in
    \<open>Workspace_Recovery\<close>, \<open>Workspace_Receipts\<close> and \<open>Write_Journal\<close>, the properties in \<open>Workspace_Properties\<close>, \<open>Write_Properties\<close>
    and \<open>Write_Recovery\<close> (a write, a crash, and the recovery by the next process).

  \<^bold>\<open>How the state corresponds.\<close> A struct is a record with the source's fields, an enum a datatype, \<open>AgentResult\<close> a sum with
  the error on the left. Methods that hold a lock across their body are functions on the state. The async methods of the
  kernel are functions too, with other tasks running at each of their waits (\<open>await\<close> with \<open>aw_before\<close> and \<open>aw_after\<close>); the
  theorems allow any tasks that use the kernel's own steps (\<open>polite\<close>), so they hold under every interleaving. What is
  outside the repository, and the interfaces whose implementations are not modelled, are parameters: the encoder and the
  digest (\<open>codec_ok\<close> is what the code relies on), the operating system (which step of an append, compaction or open
  fails, and after how many bytes), clocks, UUIDs, the event journal, the dispatcher, effects, the broker, the
  reconciler, the context engine (\<open>restores_checkpoints\<close> is what the code relies on). A workspace effect runs on a world
  (\<open>ws_world\<close>) of files, names and the journal; each system call can fail, and the process can die at any of them, after
  which nothing changes any more. The theorems about it suppose that no other process changes the tree (\<open>undisturbed\<close>, where a
  change by another process is otherwise possible at each call), that a call reports a missing name only where it is missing
  (\<open>honest\<close>), and that a new node gets an unused number (\<open>fresh\<close>).

  \<^bold>\<open>What the lemmas show.\<close> The journal keeps one abstract truth (an epoch and a set of snapshots) through appends,
  compactions, torn writes and reopening. The registry publishes only what the journal stored, loses no unresolved
  operation, never reopens a terminal, and admits, starts and commits an operation at most once. Startup raises the epoch
  and settles or fences. A call reaches its tool only after identity, surface, schema, approval and epoch were
  checked, under a lease for the host-derived intent; an effect reaches the broker only under that lease. Grants are
  within their targets, caps and expiry. Events are numbered without gaps, and what is broadcast is
  journaled or a live delta that repeats a number. The interactive gate answers each request once, leaves nothing behind, and
  ends when its timeout has passed, with the timeout error if nobody answered. Each effect journal opens again after any torn write with what it
  acknowledged; the dispatch of a remote call is recorded at most once over all restarts (whether the request reaches the remote
  side twice is outside the journal), and an effect that recovery calls not applied was not dispatched. A staged
  file is never on disk without its intent; a write leaves the old file or the whole new one; receipts, and what recovery
  answers, are true of the disk and of the journal, and recovery removes nothing but verified staged files. The last step puts
  the parts together: after a crash anywhere in a write, the answer of the next process is true of the target, for a path without a backslash: with one, the code inspects another file.

  \<^bold>\<open>Interfaces.\<close> Locale \<open>operation_journal\<close> (journal to registry and kernel) is interpreted on the file journal, \<open>approval_gate\<close>
  on the policy gate and the task gate, \<open>kernel_invariant\<close> (steps to methods) on well-formedness, identity and
  agreement with the journal, \<open>effect_log\<close> (log to its table) on the workspace, remote and process journals.

  \<^bold>\<open>Bounds.\<close> Counters of 64 bits are naturals with the checked and saturating operations of the source written out. All
  functions terminate; the loops are recursions over the bytes or lists they consume, so there is no fuel.

  \<^bold>\<open>Not modelled.\<close> The JSONL event journal, the context engine (floating-point scoring), the runtime actor with its prompts and
  tasks, the path resolution, artifacts and leases of the workspace, providers, the process host, user interfaces, evaluation
  tools and scripts: they do input and output, or sit above the core and reach it through the interfaces that are
  modelled. Of the file system: permissions, links, the Windows branches, and the loss of written but unsynced blocks when the
  machine, not the process, fails. Error texts leave out the ids and paths that the source interpolates. Paths are read
  as on Unix. Debug output and tracing are left out.
\<close>

section \<open>The gate and the kernel together\<close>

text \<open>
  The kernel with a task gate. \<open>keeps_policies\<close>: the other tasks leave the host policies alone while a dispatch waits, those of
  the kernel, and those and the inner policy of the gate.
\<close>

definition keeps_policies :: "('j, 'h task_approval_gate, 'k) core_authority waits \<Rightarrow> bool" where
  "keeps_policies W \<longleftrightarrow> (\<forall>p C. ca_host_policies (aw_before W p C) = ca_host_policies C
     \<and> ca_host_policies (aw_after W p C) = ca_host_policies C
     \<and> tg_host_policies (ca_gate (aw_before W p C)) = tg_host_policies (ca_gate C)
     \<and> tg_inner (ca_gate (aw_before W p C)) = tg_inner (ca_gate C))"

lemma await_event_policies:
  "keeps_policies (dv_waits E) \<Longrightarrow> ca_host_policies (fst (await_event E p event C)) = ca_host_policies C"
  by (simp add: await_event_def await_def emit_event_def keeps_policies_def case_prod_unfold)

lemma evaluate_shadow_policies:
  "keeps_policies (dv_waits E) \<Longrightarrow> ca_host_policies (fst (evaluate_shadow E C call spec)) = ca_host_policies C"
  by (auto simp: evaluate_shadow_def await_event_policies await_def keeps_policies_def case_prod_unfold split: option.splits)

lemma authorize_asked:
  fixes C :: "('j, 'h task_approval_gate, 'k) core_authority"
  assumes "authorize_and_start jappend D E C i call spec = (C', Inr ready)"
  obtains g out and Cs :: "('j, 'h task_approval_gate, 'k) core_authority" where
    "dv_authorize E (ca_gate (aw_before (dv_waits E) AwaitApproval C)) call spec = (g, Inr out)" "ao_decision out = Allow"
    "keeps_policies (dv_waits E) \<longrightarrow> ca_host_policies Cs = ca_host_policies C"
    "\<forall>l. dr_lease ready = Some l \<longrightarrow> al_intent l = lease_intent D Cs call spec"
proof -
  define C0 where "C0 = aw_before (dv_waits E) AwaitApproval C"
  obtain g r where q: "dv_authorize E (ca_gate C0) call spec = (g, r)" by fastforce
  define C1 where "C1 = aw_after (dv_waits E) AwaitApproval (C0\<lparr>ca_gate := g\<rparr>)"
  have w: "await (dv_waits E) AwaitApproval
      (\<lambda>C. case dv_authorize E (ca_gate C) call spec of (g, r) \<Rightarrow> (C\<lparr>ca_gate := g\<rparr>, verdict_of call r)) C = (C1, verdict_of call r)"
    using q by (simp add: await_def C0_def C1_def)
  obtain Cs sh where e: "evaluate_shadow E C1 call spec = (Cs, sh)" by fastforce
  obtain shadow where run: "verdict_of call r = VerdictAllowed" "start_execution jappend D E Cs i call spec shadow = (C', Inr ready)"
    using assms(1) w e by (auto simp: authorize_and_start_def cancel_and_refuse_Inl refuse_operation_Inl
        split: approval_verdict.splits sum.splits)
  obtain out where out: "r = Inr out" "ao_decision out = Allow" using run(1) by (auto simp: verdict_allowed)
  have "ca_host_policies Cs = ca_host_policies C" if keeps: "keeps_policies (dv_waits E)"
    using evaluate_shadow_policies [OF keeps, of C1 call spec] e keeps by (simp add: keeps_policies_def C0_def C1_def)
  moreover have "\<forall>l. dr_lease ready = Some l \<longrightarrow> al_intent l = lease_intent D Cs call spec"
    using run(2) by (auto simp: start_execution_def Let_def cancel_and_refuse_Inl mint_lease_def split: if_splits sum.splits prod.splits)
  ultimately show ?thesis using that [of g out Cs] q out unfolding C0_def by blast
qed

text \<open>
  The calls of a tool that is not read-only which need no grant: the host bound the tool as read-only, or the call polls or
  stops a session that was started before (\<^verbatim>\<open>approval.rs\<close>, \<open>authorize_with_grant_reason\<close>).
\<close>

fun needs_no_grant :: "host_effect_binding \<Rightarrow> json \<Rightarrow> bool" where
  "needs_no_grant BindReadOnly arguments = True"
| "needs_no_grant (BindSessionExec argv_arg action_arg) arguments =
     (string_arg arguments action_arg \<in> {lit ''poll'', lit ''stop''})"
| "needs_no_grant _ arguments = False"

lemma workspace_write_not_read_only: "workspace_write_intent arguments path_arg content_args \<noteq> IntentReadOnly"
  by (simp add: workspace_write_intent_def Let_def split: option.split list.split prod.split)

lemma exec_argv_not_read_only: "exec_argv_intent argv \<noteq> IntentReadOnly"
  by (cases argv) simp_all

lemma intent_read_only_iff: "intent_from D b arguments = IntentReadOnly \<longleftrightarrow> needs_no_grant b arguments"
  by (cases b) (auto simp: Let_def workspace_write_not_read_only exec_argv_not_read_only shell_exec_intent_def)

lemma derived_read_only:
  assumes "derive_effect_intent D G call spec = IntentReadOnly" "ts_risk spec \<noteq> RiskReadOnly"
  shows "\<exists>policies policy. tg_host_policies G = Some policies \<and> ps_policy_for policies (tc_name call) = Some policy
     \<and> needs_no_grant (hp_binding policy) (tc_arguments call)"
  using assms exec_argv_not_read_only
  by (cases "ts_risk spec") (auto simp: derive_effect_intent_def effect_intent_of_def unbound_effect_intent_def
      intent_read_only_iff split: option.splits)

text \<open>
  C2. What is dispatched is within a standing grant. Take a kernel that asks a task gate whose inner policy is read-only, with
  any other tasks at its waits, also ones that replace grants or policies. A call of a tool that is not read-only is let
  through to the tool only with a lease, and only if, in the state of the gate at the moment it decided, the intent that the
  gate derived from the call was matched by a standing grant that was live and had runs left, or the host's own policy of the
  tool says that this call needs none: the tool is bound as read-only, or the call polls or stops a session. When the gate and
  the kernel were given the same host policies and no task replaces them at a wait, which in the source are fields that are
  fixed when the two are built, the intent bound in the lease is the very intent on which the gate decided; policies that
  answer differently between the two moments are not covered by this last part.
\<close>
theorem dispatched_calls_are_within_a_grant:
  fixes C :: "('j, policy_approval_gate task_approval_gate, 'k) core_authority"
  assumes "dispatch_ports P jappend E" "dv_authorize E = authorize_with_grant_reason policy_authorize D now"
    "G = ca_gate (aw_before (dv_waits E) AwaitApproval C)" "tg_inner G = policy_read_only"
    "prepare_dispatch jappend D E C i call surface = (C', Inr ready)" "ts_risk (dr_spec ready) \<noteq> RiskReadOnly"
  shows "\<exists>l. dr_lease ready = Some l
     \<and> ((\<exists>k e. (k, e) \<in> set (tg_grants G) \<and> now < sg_expires_at_ms (ge_grant e)
            \<and> grant_matches (ge_grant e) (derive_effect_intent D G call (dr_spec ready)) \<and> \<not> runs_exhausted e)
        \<or> (\<exists>policies policy. tg_host_policies G = Some policies \<and> ps_policy_for policies (tc_name call) = Some policy
            \<and> needs_no_grant (hp_binding policy) (tc_arguments call)))
     \<and> (keeps_policies (dv_waits E) \<and> tg_host_policies (ca_gate C) = ca_host_policies C
          \<longrightarrow> al_intent l = derive_effect_intent D G call (dr_spec ready))"
proof -
  obtain spec where a: "authorize_and_start jappend D E C i call spec = (C', Inr ready)"
    using prepare_dispatch_ready [OF assms(5)] by blast
  obtain g out and Cs :: "('j, policy_approval_gate task_approval_gate, 'k) core_authority" where q: "dv_authorize E G call spec = (g, Inr out)" "ao_decision out = Allow"
    "keeps_policies (dv_waits E) \<longrightarrow> ca_host_policies Cs = ca_host_policies C"
    "\<forall>l. dr_lease ready = Some l \<longrightarrow> al_intent l = lease_intent D Cs call spec"
    unfolding assms(3) by (rule authorize_asked [OF a])
  obtain C1 C2 :: "('j, policy_approval_gate task_approval_gate, 'k) core_authority" where s: "starts_with_lease P D i call spec ready C1 C2" "dr_spec ready = spec"
    using authorize_ready [OF assms(1) a] by metis
  obtain l where l: "dr_lease ready = Some l" using s assms(6) by (auto simp: starts_with_lease_def)
  have bound: "al_intent l = derive_effect_intent D G call spec"
    if "keeps_policies (dv_waits E)" "tg_host_policies (ca_gate C) = ca_host_policies C"
    using that q(3,4) l assms(3) by (simp add: derive_effect_intent_def lease_intent_def keeps_policies_def)
  have deny: "snd (policy_authorize (tg_inner G) call spec) \<noteq> Inr Allow"
    using assms(4,6) s(2) by (cases "ts_risk spec") (simp_all add: policy_authorize_def policy_read_only_def)
  have "authorize_with_grant_reason policy_authorize D now G call spec = (g, Inr out)" using q(1) assms(2) by simp
  from task_allow_backed [OF this] q(2) deny s(2) assms(6)
  have "derive_effect_intent D G call spec = IntentReadOnly
      \<or> (\<exists>k e. (k, e) \<in> set (tg_grants G) \<and> now < sg_expires_at_ms (ge_grant e)
          \<and> grant_matches (ge_grant e) (derive_effect_intent D G call spec) \<and> \<not> runs_exhausted e)" by auto
  then show ?thesis using derived_read_only [of D G call spec] assms(6) l bound s(2) by blast
qed

text \<open>A kernel whose gate holds one grant for \<open>cargo\<close>, asked to run \<open>cargo test\<close>.\<close>

definition run_call :: tool_call where
  "run_call = sample_call\<lparr>tc_id := lit ''c''\<rparr>"

definition run_identity :: tool_operation_identity where
  "run_identity = sample_identity\<lparr>oi_tool_name := lit ''run''\<rparr>"

definition run_registry :: "unit operation_registry" where
  "run_registry = \<lparr>og_capacity = 2, og_journal = None, og_inner = registry_state_default\<lparr>rs_records :=
     [(3, \<lparr>snap_identity = run_identity, snap_state = Accepted\<rparr>)]\<rparr>\<rparr>"

definition run_core :: "(unit, policy_approval_gate task_approval_gate, unit) core_authority" where
  "run_core = \<lparr>ca_run_id = 1, ca_authority_epoch = 1, ca_operations = run_registry, ca_lease_ttl_ms = None,
     ca_host_policies = Some sample_policies, ca_gate = sample_gate, ca_event = event_authority_new None\<rparr>"

definition run_dispatch :: "(unit, policy_approval_gate task_approval_gate, unit, unit, unit, unit) dispatch_env" where
  "run_dispatch = \<lparr>dv_waits = alone, dv_event = (\<lambda>k _. (k, Inr ())), dv_clock = (\<lambda>_. 0),
     dv_authorize = authorize_with_grant_reason policy_authorize zero_digests 2, dv_shadow = None,
     dv_shadow_cancelled = False, dv_shadow_timed_out = False, dv_issued_at = 0, dv_lease_id = lit ''l'', dv_effect_id = 5,
     dv_execute = (\<lambda>_. Inl Cancelled), dv_rollback = (\<lambda>_ _. Inr ()), dv_output_broker = None\<rparr>"

definition run_surface :: tool_surface_snapshot where
  "run_surface = edit_surface\<lparr>sf_specs := [sample_spec RiskProcessExecution]\<rparr>"

lemma run_simps:
  "tc_id run_call = lit ''c''" "tc_name run_call = lit ''run''" "tc_arguments run_call = tc_arguments sample_call"
  "oi_run_id run_identity = 1" "oi_operation_id run_identity = 3" "oi_generation run_identity = 1"
  "oi_call_id run_identity = lit ''c''" "oi_tool_name run_identity = lit ''run''" "oi_argument_digest run_identity = replicate 32 0"
  "ts_name (sample_spec r) = lit ''run''"
  by (simp_all add: run_call_def run_identity_def sample_identity_def sample_spec_def sample_call_def)

lemma run_digest: "digest_from_json zero_digests (tc_arguments run_call) = Some (replicate 32 0)"
  by (simp add: digest_from_json_def zero_digests_def sample_digests_def jcs_serialize_def run_call_def sample_call_def
      sort_members_def)

lemma run_identity_valid: "identity_validate run_identity = Inr ()"
  by code_simp

lemma run_intent:
  "derive_effect_intent zero_digests sample_gate run_call (sample_spec RiskProcessExecution) = IntentExecArgv (lit ''cargo'') [lit ''test'']"
  by (simp add: derive_effect_intent_def sample_gate_unfold effect_intent_of_def sample_policies_def run_call_def sample_call_def
      string_list_def get_array_def lit_def)

lemma run_gate_allows:
  "\<exists>g. authorize_with_grant_reason policy_authorize zero_digests 2 sample_gate run_call (sample_spec RiskProcessExecution)
     = (g, Inr \<lparr>ao_decision = Allow, ao_denial = None\<rparr>)"
proof -
  note int = run_intent
  have b: "prune_expired 2 (tg_grants sample_gate) = tg_grants sample_gate"
    by (simp add: prune_expired_def sample_gate_unfold sample_grant_def)
  have "scan_grants (IntentExecArgv (lit ''cargo'') [lit ''test'']) None (tg_grants sample_gate)
      = ([(lit ''g'', \<lparr>ge_grant = sample_grant, ge_runs_used = 1\<rparr>)], Some (lit ''g''), None)"
    using sample_matches by (simp add: sample_gate_unfold runs_exhausted_def) (simp add: sample_grant_def)
  then show ?thesis by (simp add: authorize_with_grant_reason_def int b decided_def Let_def)
qed

lemma run_ready:
  obtains C' ready where "prepare_dispatch no_journal zero_digests run_dispatch run_core run_identity run_call run_surface
    = (C', Inr ready)" "dr_spec ready = sample_spec RiskProcessExecution"
proof -
  obtain g where g: "authorize_with_grant_reason policy_authorize zero_digests 2 sample_gate run_call (sample_spec RiskProcessExecution)
     = (g, Inr \<lparr>ao_decision = Allow, ao_denial = None\<rparr>)" using run_gate_allows by blast
  have rv: "request_validate zero_digests \<lparr>rq_run_id = 1, rq_call = run_call,
      rq_effect_context = Some \<lparr>ec_identity = run_identity, ec_effect_id = 5\<rparr>\<rparr> = Inr ()"
    using run_identity_valid run_digest
    by (simp add: request_validate_def effect_context_validate_def Let_def run_simps is_nil_def)
  have st: "\<exists>C'. start_execution no_journal zero_digests run_dispatch (run_core\<lparr>ca_gate := g\<rparr>) run_identity run_call
      (sample_spec RiskProcessExecution) None = (C', Inr \<lparr>dr_spec = sample_spec RiskProcessExecution,
        dr_lease = Some (mint_lease zero_digests run_dispatch (run_core\<lparr>ca_gate := g\<rparr>) run_identity run_call (sample_spec RiskProcessExecution) None),
        dr_effect_id = Some 5, dr_request = \<lparr>rq_run_id = 1, rq_call = run_call,
          rq_effect_context = Some \<lparr>ec_identity = run_identity, ec_effect_id = 5\<rparr>\<rparr>\<rparr>)"
    using rv
    by (simp add: start_execution_def Let_def run_simps on_operations_def run_core_def run_registry_def registry_state_default_def
        record_lease_def mint_lease_def mutation_guards mark_operation_executing_if_current_def if_allowed_def if_current_def
        mark_executing_def is_some_nil_def is_nil_def transition_def append_snapshot_def append_transition_def
        await_event_def await_def emit_event_def emit_def journal_event_def event_authority_new_def run_dispatch_def alone_def)
  have au: "authorize_and_start no_journal zero_digests run_dispatch run_core run_identity run_call (sample_spec RiskProcessExecution)
      = start_execution no_journal zero_digests run_dispatch (run_core\<lparr>ca_gate := g\<rparr>) run_identity run_call
          (sample_spec RiskProcessExecution) None"
    using g by (simp add: authorize_and_start_def await_def verdict_of_def evaluate_shadow_def run_dispatch_def alone_def run_core_def)
  have "healthy (ca_operations run_core)" "ca_authority_epoch run_core = 1" "identity_matches zero_digests run_core run_identity run_call"
    using run_digest by (simp_all add: run_core_def run_registry_def registry_state_default_def identity_matches_def run_simps)
  then have "prepare_dispatch no_journal zero_digests run_dispatch run_core run_identity run_call run_surface
      = authorize_and_start no_journal zero_digests run_dispatch run_core run_identity run_call (sample_spec RiskProcessExecution)"
    by (simp add: prepare_dispatch_def mutation_guards run_simps run_surface_def edit_surface_def invalid_process_executable_def lit_def)
  then show ?thesis using that st au by auto
qed

theorem dispatched_calls_are_within_a_grant_witness:
  "\<exists>C' ready l. prepare_dispatch no_journal zero_digests run_dispatch run_core run_identity run_call run_surface = (C', Inr ready)
     \<and> dr_lease ready = Some l \<and> al_intent l = IntentExecArgv (lit ''cargo'') [lit ''test'']
     \<and> (\<exists>k e. (k, e) \<in> set (tg_grants sample_gate) \<and> (2 :: nat) < sg_expires_at_ms (ge_grant e)
          \<and> grant_matches (ge_grant e) (al_intent l) \<and> \<not> runs_exhausted e)"
proof -
  obtain C' ready where r: "prepare_dispatch no_journal zero_digests run_dispatch run_core run_identity run_call run_surface
    = (C', Inr ready)" "dr_spec ready = sample_spec RiskProcessExecution" by (rule run_ready)
  have p: "dispatch_ports (sample_ports no_journal) no_journal run_dispatch"
    by (simp add: dispatch_ports_def sample_ports_def run_dispatch_def alone_polite)
  have k: "keeps_policies (dv_waits run_dispatch) \<and> tg_host_policies (ca_gate run_core) = ca_host_policies run_core"
    by (simp add: keeps_policies_def run_dispatch_def alone_def run_core_def sample_gate_unfold)
  have g: "dv_authorize run_dispatch = authorize_with_grant_reason policy_authorize zero_digests 2"
    "sample_gate = ca_gate (aw_before (dv_waits run_dispatch) AwaitApproval run_core)" "tg_inner sample_gate = policy_read_only"
    by (simp_all add: run_dispatch_def alone_def run_core_def sample_gate_unfold)
  have risk: "ts_risk (dr_spec ready) \<noteq> RiskReadOnly" using r(2) by (simp add: sample_spec_def)
  have none: "\<not> (\<exists>policies policy. tg_host_policies sample_gate = Some policies \<and> ps_policy_for policies (tc_name run_call) = Some policy
      \<and> needs_no_grant (hp_binding policy) (tc_arguments run_call))"
    by (auto simp: sample_gate_unfold sample_policies_def split: if_splits)
  from dispatched_calls_are_within_a_grant [OF p g r(1) risk] none k run_intent show ?thesis
    using r unfolding r(2) by metis
qed

end
